(* ===== verification/Prelude.thy ===== *)
theory Prelude
  imports Complex_Main
begin

section \<open>Prelude: JavaScript numbers, arrays and errors\<close>

text \<open>
  Shared vocabulary of the development. The browser client is TypeScript, so its
  numbers are IEEE doubles; they are modelled as exact reals (\<open>num\<close>), and as
  \<open>int\<close> wherever the code only ever stores integers (indices, pixels after
  \<open>Math.round\<close> or \<open>Math.floor\<close>, twips read by \<open>parseInt\<close>).
  Rounding of doubles is not modelled. \<open>undefined\<close> and \<open>NaN\<close> are the value
  \<open>None\<close> of an option type, a thrown exception is the left side of a sum.
\<close>

type_synonym num = real

datatype js_error = TypeError | ErrorMsg string

text \<open>Going on with the result of a call, unless it has thrown.\<close>

definition sum_bind :: "'e + 'a \<Rightarrow> ('a \<Rightarrow> 'e + 'b) \<Rightarrow> 'e + 'b" where
  "sum_bind r f = (case r of Inl e \<Rightarrow> Inl e | Inr x \<Rightarrow> f x)"

named_theorems js_defs \<open>definitions of the JavaScript primitives\<close>
named_theorems span_simps \<open>rewriting for span lists\<close>
named_theorems geo_defs \<open>definitions of the geometry operations\<close>
named_theorems tile_defs \<open>definitions of the tile operations\<close>
named_theorems show_defs \<open>definitions of the slide show engine\<close>

text \<open>\<open>Math.round\<close> rounds half up, \<open>Math.sign\<close>, \<open>%\<close> truncates towards zero.\<close>

definition js_round :: "num \<Rightarrow> int" where
  [js_defs]: "js_round x = \<lfloor>x + 1 / 2\<rfloor>"

definition js_imod :: "int \<Rightarrow> int \<Rightarrow> int" where
  [js_defs]: "js_imod a b = sgn a * (\<bar>a\<bar> mod \<bar>b\<bar>)"

text \<open>Array access with a possibly out of range index: \<open>None\<close> is \<open>undefined\<close>.\<close>

definition js_nth :: "'a list \<Rightarrow> int \<Rightarrow> 'a option" where
  [js_defs]: "js_nth xs i = (if 0 \<le> i \<and> i < int (length xs) then Some (xs ! nat i) else None)"

definition js_last :: "'a list \<Rightarrow> 'a option" where
  [js_defs]: "js_last xs = (if xs = [] then None else Some (last xs))"

text \<open>
  An integer result of a computation that may divide by zero: \<open>Math.floor\<close> of such a
  quotient is an integer, \<open>NaN\<close> or an infinity. Comparisons with \<open>NaN\<close> are false.
\<close>

datatype js_int = Fin int | NaN | PosInf | NegInf

definition js_floor_div :: "num \<Rightarrow> num \<Rightarrow> js_int" where
  [js_defs]: "js_floor_div a b =
     (if b \<noteq> 0 then Fin \<lfloor>a / b\<rfloor> else if a = 0 then NaN else if 0 < a then PosInf else NegInf)"

fun js_add :: "int \<Rightarrow> js_int \<Rightarrow> js_int" where
  "js_add a (Fin b) = Fin (a + b)"
| "js_add a NaN = NaN"
| "js_add a PosInf = PosInf"
| "js_add a NegInf = NegInf"

fun js_lt :: "js_int \<Rightarrow> int \<Rightarrow> bool" where
  "js_lt (Fin a) b = (a < b)"
| "js_lt NaN b = False"
| "js_lt PosInf b = False"
| "js_lt NegInf b = True"

fun js_gt :: "js_int \<Rightarrow> int \<Rightarrow> bool" where
  "js_gt (Fin a) b = (b < a)"
| "js_gt NaN b = False"
| "js_gt PosInf b = True"
| "js_gt NegInf b = False"

text \<open>\<open>Math.max(a, b)\<close> and \<open>Math.min(a, b)\<close> for an integer \<open>a\<close>; both propagate \<open>NaN\<close>.\<close>

definition js_max :: "int \<Rightarrow> js_int \<Rightarrow> js_int" where
  [js_defs]: "js_max a b = (if b = NaN then NaN else if js_gt b a then b else Fin a)"

definition js_min :: "int \<Rightarrow> js_int \<Rightarrow> js_int" where
  [js_defs]: "js_min a b = (if b = NaN then NaN else if js_lt b a then b else Fin a)"

text \<open>\<open>findIndex\<close>: the first index that satisfies the predicate, or -1.\<close>

fun js_findIndex :: "('a \<Rightarrow> bool) \<Rightarrow> 'a list \<Rightarrow> int" where
  "js_findIndex P [] = -1"
| "js_findIndex P (x # xs) =
     (if P x then 0 else (let r = js_findIndex P xs in if r = -1 then -1 else r + 1))"

text \<open>\<open>splice(i, 1)\<close> and \<open>splice(i, 0, x)\<close> for an index in range.\<close>

definition list_remove_at :: "nat \<Rightarrow> 'a list \<Rightarrow> 'a list" where
  [js_defs]: "list_remove_at i xs = take i xs @ drop (Suc i) xs"

definition list_insert_at :: "nat \<Rightarrow> 'a \<Rightarrow> 'a list \<Rightarrow> 'a list" where
  [js_defs]: "list_insert_at i x xs = take i xs @ x # drop i xs"

subsection \<open>Rounding\<close>

lemma js_round_of_int [simp]: "js_round (of_int n) = n"
  by (simp add: js_round_def)

lemma js_round_mono: "x \<le> y \<Longrightarrow> js_round x \<le> js_round y"
  unfolding js_round_def by (rule floor_mono) simp

lemma js_round_bounds: "of_int (js_round x) - 1 / 2 \<le> x \<and> x < of_int (js_round x) + 1 / 2"
  unfolding js_round_def by linarith

lemma js_round_add_int [simp]: "js_round (x + of_int n) = js_round x + n"
  unfolding js_round_def by linarith

lemma js_round_int_add [simp]: "js_round (of_int n + x) = n + js_round x"
  unfolding js_round_def by linarith

lemma js_round_half_range: "\<bar>x - of_int n\<bar> < 1 / 2 \<Longrightarrow> js_round x = n"
  unfolding js_round_def by linarith

subsection \<open>Array access\<close>

lemma js_nth_in [simp]: "0 \<le> i \<Longrightarrow> i < int (length xs) \<Longrightarrow> js_nth xs i = Some (xs ! nat i)"
  by (simp add: js_nth_def)

lemma js_nth_out [simp]: "i < 0 \<or> int (length xs) \<le> i \<Longrightarrow> js_nth xs i = None"
  by (auto simp: js_nth_def)

lemma js_nth_int [simp]: "n < length xs \<Longrightarrow> js_nth xs (int n) = Some (xs ! n)"
  by (simp add: js_nth_def)

lemma js_nth_Some_iff:
  "js_nth xs i = Some x \<longleftrightarrow> 0 \<le> i \<and> i < int (length xs) \<and> x = xs ! nat i"
  by (auto simp: js_nth_def)

lemma js_last_Some [simp]: "xs \<noteq> [] \<Longrightarrow> js_last xs = Some (last xs)"
  by (simp add: js_last_def)

lemma js_last_Nil [simp]: "js_last [] = None"
  by (simp add: js_last_def)

lemma js_findIndex_lower: "-1 \<le> js_findIndex P xs"
  by (induction xs) (auto simp: Let_def)

lemma js_findIndex_none: "js_findIndex P xs = -1 \<longleftrightarrow> (\<forall>x \<in> set xs. \<not> P x)"
proof (induction xs)
  case Nil
  then show ?case by simp
next
  case (Cons x xs)
  have "-1 \<le> js_findIndex P xs" by (rule js_findIndex_lower)
  with Cons show ?case by (auto simp: Let_def)
qed

lemma js_findIndex_found:
  assumes "js_findIndex P xs = i" and "i \<noteq> -1"
  shows "0 \<le> i \<and> i < int (length xs) \<and> P (xs ! nat i) \<and> (\<forall>j. j < nat i \<longrightarrow> \<not> P (xs ! j))"
  using assms
proof (induction xs arbitrary: i)
  case Nil
  then show ?case by simp
next
  case (Cons x xs)
  show ?case
  proof (cases "P x")
    case True
    with Cons.prems show ?thesis by auto
  next
    case False
    with Cons.prems have r: "js_findIndex P xs \<noteq> -1" and i: "i = js_findIndex P xs + 1"
      by (auto simp: Let_def split: if_splits)
    from Cons.IH [OF refl r] have IH: "0 \<le> js_findIndex P xs"
        "js_findIndex P xs < int (length xs)" "P (xs ! nat (js_findIndex P xs))"
        "\<forall>j. j < nat (js_findIndex P xs) \<longrightarrow> \<not> P (xs ! j)"
      by auto
    have n: "nat i = Suc (nat (js_findIndex P xs))" using i IH(1) by simp
    have "\<not> P ((x # xs) ! j)" if "j < nat i" for j
      using that n IH(4) False by (cases j) auto
    with IH(1-3) i n show ?thesis by auto
  qed
qed

lemma length_list_remove_at [simp]:
  "i < length xs \<Longrightarrow> length (list_remove_at i xs) = length xs - 1"
  by (simp add: list_remove_at_def)

lemma set_list_insert_at [simp]: "set (list_insert_at i x xs) = insert x (set xs)"
proof -
  have "set xs = set (take i xs) \<union> set (drop i xs)"
    by (metis append_take_drop_id set_append)
  then show ?thesis by (auto simp: list_insert_at_def)
qed

lemma length_list_insert_at [simp]: "length (list_insert_at i x xs) = Suc (length xs)"
  by (simp add: list_insert_at_def)

subsection \<open>Sorted lists of indices\<close>

lemma sorted_wrt_last_max:
  "sorted_wrt (<) (xs :: 'a :: linorder list) \<Longrightarrow> x \<in> set xs \<Longrightarrow> x \<le> last xs"
  by (induction xs) (auto simp: less_imp_le)

lemma sorted_wrt_hd_min:
  "sorted_wrt (<) (xs :: 'a :: linorder list) \<Longrightarrow> x \<in> set xs \<Longrightarrow> hd xs \<le> x"
  by (cases xs) auto

end
