(* ===== verification/Binary_Search.thy ===== *)
theory Binary_Search
  imports Prelude
begin

section \<open>Binary search with a direction provider\<close>

text \<open>
  The functions \<open>binarySearch\<close> and \<open>_findFirstMatch\<close> at the end of
  \<open>browser/src/layer/tile/SheetGeometry.ts\<close>. The search asks a direction provider about
  an element and its two neighbours; the provider answers 0 for a match, 1 to search the
  upper half and -1 to search the lower half. A neighbour that does not exist is
  \<open>undefined\<close> in the code and \<open>None\<close> here.

  The locale \<open>search_direction\<close> is the contract between the search and a provider: on the
  arrays it accepts, the answers never increase along the array. Under that contract the
  search returns a match exactly when there is one, the first one when it is asked to.
  The providers of the span lists and of the outline groups are interpretations of it, in
  the theories that define them.
\<close>

type_synonym ('k, 'a) direction_provider =
  "'k \<Rightarrow> 'a option \<Rightarrow> 'a \<Rightarrow> 'a option \<Rightarrow> int"

text \<open>The answer at an index, with the neighbours the code passes.\<close>

definition dir_at :: "('k, 'a) direction_provider \<Rightarrow> 'a list \<Rightarrow> 'k \<Rightarrow> nat \<Rightarrow> int" where
  "dir_at dp xs key i = dp key (js_nth xs (int i - 1)) (xs ! i) (js_nth xs (int i + 1))"

text \<open>The while loop of \<open>_findFirstMatch\<close>, which walks down while the element matches.\<close>

fun first_match_loop :: "('k, 'a) direction_provider \<Rightarrow> 'a list \<Rightarrow> 'k \<Rightarrow> nat \<Rightarrow> nat" where
  "first_match_loop dp xs key 0 = 0"
| "first_match_loop dp xs key (Suc index) =
     (if dir_at dp xs key index = 0 then first_match_loop dp xs key index else Suc index)"

definition findFirstMatch ::
    "('k, 'a) direction_provider \<Rightarrow> 'a list \<Rightarrow> 'k \<Rightarrow> int \<Rightarrow> int" where
  "findFirstMatch dp xs key randomMatchingIndex =
     (if randomMatchingIndex = 0 then 0
      else int (first_match_loop dp xs key (nat randomMatchingIndex)))"

text \<open>
  The while loop of \<open>binarySearch\<close>: \<open>Some mid\<close> when it breaks with a match, \<open>None\<close> when
  \<open>start\<close> passes \<open>end\<close>. \<open>Math.round((start + end) / 2)\<close> of two non-negative integers is
  \<open>(start + end + 1) div 2\<close>.
\<close>

function search_loop ::
    "('k, 'a) direction_provider \<Rightarrow> 'a list \<Rightarrow> 'k \<Rightarrow> int \<Rightarrow> int \<Rightarrow> int option" where
  "search_loop dp xs key start end' =
     (if start \<le> end' then
        let mid = (start + end' + 1) div 2;
            direction = dir_at dp xs key (nat mid)
        in if direction = 0 then Some mid
           else if direction = -1 then search_loop dp xs key start (mid - 1)
           else search_loop dp xs key (mid + 1) end'
      else None)"
  by pat_completeness auto
termination
  by (relation "measure (\<lambda>(dp, xs, key, start, end'). nat (end' + 1 - start))") auto

declare search_loop.simps [simp del]

definition binarySearch ::
    "('k, 'a) direction_provider \<Rightarrow> 'a list \<Rightarrow> 'k \<Rightarrow> bool \<Rightarrow> int" where
  "binarySearch dp xs key firstMatch =
     (if xs = [] then -1
      else
        let end' = int (length xs) - 1;
            startDir = dp key None (xs ! 0) (js_nth xs 1)
        in if startDir \<le> 0 then startDir
           else
             let endDir = dp key (js_nth xs (end' - 1)) (xs ! nat end') None
             in if endDir \<ge> 0 then
                  (if endDir = 1 then -1
                   else if firstMatch then findFirstMatch dp xs key end' else end')
                else
                  case search_loop dp xs key 0 end' of
                    None \<Rightarrow> -1
                  | Some mid \<Rightarrow> if firstMatch then findFirstMatch dp xs key mid else mid)"

text \<open>The default provider of the code, for arrays of comparable keys.\<close>

definition default_direction :: "(int, int) direction_provider" where
  "default_direction key prevvalue testvalue nextvalue =
     (if key = testvalue then 0 else if key < testvalue then -1 else 1)"

text \<open>What a successful search promises about the index it returns.\<close>

definition search_found ::
    "('k, 'a) direction_provider \<Rightarrow> 'a list \<Rightarrow> 'k \<Rightarrow> bool \<Rightarrow> int \<Rightarrow> bool" where
  "search_found dp xs key fm r \<longleftrightarrow> (\<exists>n < length xs. r = int n \<and> dir_at dp xs key n = 0 \<and>
     (fm \<longrightarrow> (\<forall>j < n. dir_at dp xs key j = 1)))"

subsection \<open>The first match\<close>

lemma first_match_loop_le: "first_match_loop dp xs key i \<le> i"
  by (induction i) auto

lemma first_match_loop_matches:
  "first_match_loop dp xs key i \<le> j \<Longrightarrow> j < i \<Longrightarrow> dir_at dp xs key j = 0"
  by (induction i) (auto simp: less_Suc_eq split: if_splits)

lemma first_match_loop_stop:
  "0 < first_match_loop dp xs key i \<Longrightarrow> dir_at dp xs key (first_match_loop dp xs key i - 1) \<noteq> 0"
  by (induction i) auto

subsection \<open>The contract of a direction provider\<close>

locale search_direction =
  fixes dp :: "('k, 'a) direction_provider"
    and ok :: "'a list \<Rightarrow> 'k \<Rightarrow> bool"
  assumes dir_range: "ok xs key \<Longrightarrow> i < length xs \<Longrightarrow> dir_at dp xs key i \<in> {-1, 0, 1}"
    and dir_antimono: "ok xs key \<Longrightarrow> i \<le> j \<Longrightarrow> j < length xs \<Longrightarrow>
      dir_at dp xs key j \<le> dir_at dp xs key i"
begin

lemma findFirstMatch_least:
  assumes ok: "ok xs key" and m: "m < length xs" and match: "dir_at dp xs key m = 0"
  obtains n where "findFirstMatch dp xs key (int m) = int n" and "n \<le> m"
    and "dir_at dp xs key n = 0" and "\<And>j. j < n \<Longrightarrow> dir_at dp xs key j = 1"
proof -
  define n where "n = first_match_loop dp xs key m"
  have le: "n \<le> m" unfolding n_def by (rule first_match_loop_le)
  have res: "findFirstMatch dp xs key (int m) = int n"
    by (auto simp: findFirstMatch_def n_def)
  have at: "dir_at dp xs key n = 0"
    using first_match_loop_matches [of dp xs key m n] match le n_def by (cases "n = m") auto
  have below: "dir_at dp xs key j = 1" if j: "j < n" for j
  proof -
    have "dir_at dp xs key (n - 1) \<noteq> 0"
      using first_match_loop_stop [of dp xs key m] j n_def by simp
    moreover have "dir_at dp xs key (n - 1) \<ge> 0"
      using dir_antimono [OF ok, of "n - 1" n] at le m j by simp
    moreover have "dir_at dp xs key (n - 1) \<le> dir_at dp xs key j"
      using dir_antimono [OF ok, of j "n - 1"] j le m by simp
    moreover have "dir_at dp xs key j \<in> {-1, 0, 1}"
      using dir_range [OF ok] j le m by simp
    ultimately show ?thesis by auto
  qed
  show thesis using that res le at below by blast
qed

lemma search_loop_correct:
  assumes ok: "ok xs key" and "0 \<le> start" and "end' < int (length xs)"
    and lo: "\<And>j. int j < start \<Longrightarrow> dir_at dp xs key j = 1"
    and hi: "\<And>j. end' < int j \<Longrightarrow> j < length xs \<Longrightarrow> dir_at dp xs key j = -1"
  shows "case search_loop dp xs key start end' of
      None \<Rightarrow> (\<forall>j < length xs. dir_at dp xs key j \<noteq> 0)
    | Some m \<Rightarrow> 0 \<le> m \<and> m < int (length xs) \<and> dir_at dp xs key (nat m) = 0"
  using assms
proof (induction "nat (end' + 1 - start)" arbitrary: start end' rule: less_induct)
  case less
  note prems = less.prems
  show ?case
  proof (cases "start \<le> end'")
    case False
    have "dir_at dp xs key j \<noteq> 0" if "j < length xs" for j
    proof (cases "int j < start")
      case True
      then show ?thesis using prems(4) by simp
    next
      case False
      with \<open>\<not> start \<le> end'\<close> have "end' < int j" by simp
      then show ?thesis using prems(5) that by simp
    qed
    with False show ?thesis by (simp add: search_loop.simps [of dp xs key start end'])
  next
    case True
    define mid where "mid = (start + end' + 1) div 2"
    define d where "d = dir_at dp xs key (nat mid)"
    have mid: "start \<le> mid" "mid \<le> end'" unfolding mid_def using True by auto
    have mid_in: "nat mid < length xs" and mid0: "0 \<le> mid"
      using mid prems(2,3) by auto
    have range: "d \<in> {-1, 0, 1}" unfolding d_def using dir_range [OF prems(1) mid_in] .
    have unfold: "search_loop dp xs key start end' =
        (if d = 0 then Some mid
         else if d = -1 then search_loop dp xs key start (mid - 1)
         else search_loop dp xs key (mid + 1) end')"
      using True by (simp add: search_loop.simps [of dp xs key start end'] mid_def d_def Let_def)
    consider "d = 0" | "d = -1" | "d = 1" using range by auto
    then show ?thesis
    proof cases
      case 1
      with unfold mid mid0 prems(3) show ?thesis by (simp add: d_def)
    next
      case 2
      have "\<And>j. mid - 1 < int j \<Longrightarrow> j < length xs \<Longrightarrow> dir_at dp xs key j = -1"
      proof -
        fix j assume j: "mid - 1 < int j" "j < length xs"
        have "dir_at dp xs key j \<le> d"
          unfolding d_def by (rule dir_antimono [OF prems(1)]) (use j in auto)
        then show "dir_at dp xs key j = -1"
          using 2 dir_range [OF prems(1) j(2)] by auto
      qed
      then have "case search_loop dp xs key start (mid - 1) of
          None \<Rightarrow> (\<forall>j < length xs. dir_at dp xs key j \<noteq> 0)
        | Some m \<Rightarrow> 0 \<le> m \<and> m < int (length xs) \<and> dir_at dp xs key (nat m) = 0"
        using less.hyps [of "mid - 1" start] prems(1-4) mid by auto
      with 2 show ?thesis by (simp add: unfold)
    next
      case 3
      have "\<And>j. int j < mid + 1 \<Longrightarrow> dir_at dp xs key j = 1"
      proof -
        fix j assume j: "int j < mid + 1"
        have "d \<le> dir_at dp xs key j"
          unfolding d_def by (rule dir_antimono [OF prems(1)]) (use j mid_in in auto)
        then show "dir_at dp xs key j = 1"
          using 3 dir_range [OF prems(1), of j] j mid_in by auto
      qed
      then have "case search_loop dp xs key (mid + 1) end' of
          None \<Rightarrow> (\<forall>j < length xs. dir_at dp xs key j \<noteq> 0)
        | Some m \<Rightarrow> 0 \<le> m \<and> m < int (length xs) \<and> dir_at dp xs key (nat m) = 0"
        using less.hyps [of end' "mid + 1"] prems(1,3,5) mid mid0 by auto
      with 3 show ?thesis by (simp add: unfold)
    qed
  qed
qed

text \<open>The end-of-array probes of the code are probes at the first and last index.\<close>

lemma binarySearch_unfold:
  assumes "xs \<noteq> []"
  shows "binarySearch dp xs key fm =
     (if dir_at dp xs key 0 \<le> 0 then dir_at dp xs key 0
      else if dir_at dp xs key (length xs - 1) \<ge> 0 then
        (if dir_at dp xs key (length xs - 1) = 1 then -1
         else if fm then findFirstMatch dp xs key (int (length xs - 1)) else int (length xs - 1))
      else (case search_loop dp xs key 0 (int (length xs) - 1) of
          None \<Rightarrow> -1
        | Some mid \<Rightarrow> if fm then findFirstMatch dp xs key mid else mid))"
proof -
  have n: "nat (int (length xs) - 1) = length xs - 1" "int (length xs - 1) = int (length xs) - 1"
    using assms by (cases xs; simp)+
  have "js_nth xs (int (length xs - 1) + 1) = None" using n by simp
  with assms n show ?thesis
    by (simp add: binarySearch_def Let_def dir_at_def)
qed

lemma found_first_match:
  assumes "ok xs key" and "m < length xs" and "dir_at dp xs key m = 0"
  shows "search_found dp xs key fm (if fm then findFirstMatch dp xs key (int m) else int m)"
proof (cases fm)
  case True
  obtain n where "findFirstMatch dp xs key (int m) = int n" and "n \<le> m"
    and "dir_at dp xs key n = 0" and "\<And>j. j < n \<Longrightarrow> dir_at dp xs key j = 1"
    using findFirstMatch_least [OF assms] by blast
  with True assms(2) show ?thesis by (auto simp: search_found_def)
next
  case False
  with assms show ?thesis by (auto simp: search_found_def)
qed

lemma binarySearch_result:
  assumes ok: "ok xs key"
  shows "(binarySearch dp xs key fm = -1 \<and> (\<forall>j < length xs. dir_at dp xs key j \<noteq> 0)) \<or>
    search_found dp xs key fm (binarySearch dp xs key fm)"
proof (cases "xs = []")
  case True
  then show ?thesis by (simp add: binarySearch_def)
next
  case False
  define e where "e = length xs - 1"
  have e: "e < length xs" using False e_def by auto
  have "dir_at dp xs key 0 \<in> {-1, 0, 1}" "dir_at dp xs key e \<in> {-1, 0, 1}"
    using dir_range [OF ok] False e by auto
  then consider (start_lo) "dir_at dp xs key 0 = -1" | (start) "dir_at dp xs key 0 = 0"
    | (end_hi) "dir_at dp xs key 0 = 1" "dir_at dp xs key e = 1"
    | (end_match) "dir_at dp xs key 0 = 1" "dir_at dp xs key e = 0"
    | (inner) "dir_at dp xs key 0 = 1" "dir_at dp xs key e = -1"
    by auto
  then show ?thesis
  proof cases
    case start_lo
    have "dir_at dp xs key j \<noteq> 0" if "j < length xs" for j
      using dir_antimono [OF ok, of 0 j] that start_lo by simp
    with start_lo False show ?thesis by (simp add: binarySearch_unfold)
  next
    case start
    with False show ?thesis by (auto simp: binarySearch_unfold search_found_def)
  next
    case end_hi
    have "dir_at dp xs key j \<noteq> 0" if "j < length xs" for j
    proof -
      have "j \<le> e" using that e_def by simp
      then show ?thesis using dir_antimono [OF ok, of j e] end_hi e by simp
    qed
    with end_hi False e_def show ?thesis by (simp add: binarySearch_unfold)
  next
    case end_match
    then have "binarySearch dp xs key fm = (if fm then findFirstMatch dp xs key (int e) else int e)"
      using False e_def by (simp add: binarySearch_unfold)
    with found_first_match [OF ok e end_match(2)] show ?thesis by simp
  next
    case inner
    then have r: "binarySearch dp xs key fm = (case search_loop dp xs key 0 (int (length xs) - 1) of
        None \<Rightarrow> -1 | Some mid \<Rightarrow> if fm then findFirstMatch dp xs key mid else mid)"
      using False e_def by (simp add: binarySearch_unfold)
    note loop = search_loop_correct [OF ok, of 0 "int (length xs) - 1"]
    show ?thesis
    proof (cases "search_loop dp xs key 0 (int (length xs) - 1)")
      case None
      with loop r show ?thesis by auto
    next
      case (Some mid)
      with loop have "0 \<le> mid" "nat mid < length xs" "dir_at dp xs key (nat mid) = 0"
        by auto
      with found_first_match [OF ok, of "nat mid" fm] r Some show ?thesis
        by (simp split: if_splits)
    qed
  qed
qed

lemma binarySearch_hit:
  assumes "ok xs key" and "m < length xs" and "dir_at dp xs key m = 0"
  obtains n where "n < length xs" and "binarySearch dp xs key fm = int n"
    and "dir_at dp xs key n = 0" and "fm \<Longrightarrow> n \<le> m"
proof -
  have "search_found dp xs key fm (binarySearch dp xs key fm)"
    using binarySearch_result [OF assms(1), of fm] assms(2,3) by auto
  then obtain n where n: "n < length xs" "binarySearch dp xs key fm = int n"
      "dir_at dp xs key n = 0" "fm \<longrightarrow> (\<forall>j < n. dir_at dp xs key j = 1)"
    by (auto simp: search_found_def)
  have "n \<le> m" if fm
    using n(4) that assms(3) by (metis not_le_imp_less zero_neq_one)
  with n(1-3) that show thesis by blast
qed

lemma binarySearch_miss:
  assumes "ok xs key" and "\<And>j. j < length xs \<Longrightarrow> dir_at dp xs key j \<noteq> 0"
  shows "binarySearch dp xs key fm = -1"
  using binarySearch_result [OF assms(1), of fm] assms(2) by (auto simp: search_found_def)

end

subsection \<open>The default provider\<close>

lemma default_dir_at: "dir_at default_direction xs key i =
    (if key = xs ! i then 0 else if key < xs ! i then -1 else 1)"
  by (simp add: dir_at_def default_direction_def)

interpretation default_search: search_direction default_direction "\<lambda>xs key. sorted xs"
proof
  fix xs :: "int list" and key i j
  assume "sorted xs" "i \<le> j" "j < length xs"
  then have "xs ! i \<le> xs ! j" by (rule sorted_nth_mono)
  then show "dir_at default_direction xs key j \<le> dir_at default_direction xs key i"
    by (auto simp: default_dir_at)
qed (simp add: default_dir_at)

end
