(* ===== verification/Js_String.thy ===== *)
theory Js_String
  imports Prelude
begin

section \<open>JavaScript strings: split, join, parseInt, number printing\<close>

text \<open>
  The string primitives the client's parsers rest on: \<open>split\<close> on a one-character
  separator, \<open>join\<close>, \<open>trim\<close>, \<open>parseInt\<close> (leading white space, a sign, the \<open>0x\<close> prefix,
  the longest run of digits, \<open>NaN\<close> when there is none), the decimal printing of an integer
  and the unary plus on integer literals. Strings are ASCII: the messages these parsers
  read hold digits and punctuation only.
\<close>

subsection \<open>Definitions\<close>

fun split_on :: "char \<Rightarrow> string \<Rightarrow> string list" where
  "split_on c [] = [[]]"
| "split_on c (x # xs) =
     (if x = c then [] # split_on c xs
      else case split_on c xs of [] \<Rightarrow> [[x]] | p # ps \<Rightarrow> (x # p) # ps)"

fun join_with :: "string \<Rightarrow> string list \<Rightarrow> string" where
  "join_with sep [] = []"
| "join_with sep [p] = p"
| "join_with sep (p # q # ps) = p @ sep @ join_with sep (q # ps)"

definition is_space :: "char \<Rightarrow> bool" where
  "is_space c = (of_char c \<in> {9, 10, 11, 12, 13, 32 :: nat})"

definition js_trim :: "string \<Rightarrow> string" where
  "js_trim s = rev (dropWhile is_space (rev (dropWhile is_space s)))"

text \<open>The value of a digit in a radix up to 16.\<close>

definition digit_value :: "char \<Rightarrow> nat option" where
  "digit_value c =
     (let n = of_char c :: nat
      in if 48 \<le> n \<and> n \<le> 57 then Some (n - 48)
         else if 97 \<le> n \<and> n \<le> 102 then Some (n - 87)
         else if 65 \<le> n \<and> n \<le> 70 then Some (n - 55)
         else None)"

definition is_digit_of :: "nat \<Rightarrow> char \<Rightarrow> bool" where
  "is_digit_of radix c = (case digit_value c of None \<Rightarrow> False | Some d \<Rightarrow> d < radix)"

fun digits_value :: "nat \<Rightarrow> nat \<Rightarrow> string \<Rightarrow> nat" where
  "digits_value radix acc [] = acc"
| "digits_value radix acc (c # cs) =
     digits_value radix (radix * acc + (case digit_value c of None \<Rightarrow> 0 | Some d \<Rightarrow> d)) cs"

fun strip_sign :: "string \<Rightarrow> bool \<times> string" where
  "strip_sign [] = (False, [])"
| "strip_sign (c # cs) =
     (if c = CHR ''-'' then (True, cs) else if c = CHR ''+'' then (False, cs) else (False, c # cs))"

fun strip_radix :: "string \<Rightarrow> nat \<times> string" where
  "strip_radix (z # x # cs) =
     (if z = CHR ''0'' \<and> (x = CHR ''x'' \<or> x = CHR ''X'') then (16, cs) else (10, z # x # cs))"
| "strip_radix cs = (10, cs)"

definition parseInt :: "string \<Rightarrow> int option" where
  "parseInt s =
     (let (neg, t) = strip_sign (dropWhile is_space s);
          (radix, u) = strip_radix t;
          ds = takeWhile (is_digit_of radix) u
      in if ds = [] then None
         else Some ((if neg then -1 else 1) * int (digits_value radix 0 ds)))"

definition digit_char :: "nat \<Rightarrow> char" where
  "digit_char d = char_of (48 + d)"

fun show_nat :: "nat \<Rightarrow> string" where
  "show_nat n = (if n < 10 then [digit_char n] else show_nat (n div 10) @ [digit_char (n mod 10)])"

declare show_nat.simps [simp del]

definition show_int :: "int \<Rightarrow> string" where
  "show_int i = (if i < 0 then CHR ''-'' # show_nat (nat (- i)) else show_nat (nat i))"

text \<open>The regular expression test \<open>/^\d+$/\<close>.\<close>

definition all_digits :: "string \<Rightarrow> bool" where
  "all_digits s = (s \<noteq> [] \<and> list_all (is_digit_of 10) s)"

text \<open>
  The unary plus, for the integer literals the code applies it to: the empty string is 0,
  a signed decimal literal its value, anything else \<open>NaN\<close>.
\<close>

definition js_to_number :: "string \<Rightarrow> int option" where
  "js_to_number s =
     (let t = js_trim s; (neg, u) = strip_sign t
      in if t = [] then Some 0
         else if all_digits u then Some ((if neg then -1 else 1) * int (digits_value 10 0 u))
         else None)"

text \<open>The matches of \<open>/\d+/g\<close>: the maximal runs of digits.\<close>

function digit_runs :: "string \<Rightarrow> string list" where
  "digit_runs s =
     (let t = dropWhile (\<lambda>c. \<not> is_digit_of 10 c) s
      in if t = [] then []
         else takeWhile (is_digit_of 10) t # digit_runs (dropWhile (is_digit_of 10) t))"
  by pat_completeness auto
termination
proof (relation "measure length", simp_all)
  fix s :: string
  assume "\<exists>x\<in>set s. is_digit_of 10 x"
  then have ne: "dropWhile (\<lambda>c. \<not> is_digit_of 10 c) s \<noteq> []" by (simp add: dropWhile_eq_Nil_conv)
  then have d: "is_digit_of 10 (hd (dropWhile (\<lambda>c. \<not> is_digit_of 10 c) s))"
    using hd_dropWhile by blast
  from ne obtain c t where ct: "dropWhile (\<lambda>c. \<not> is_digit_of 10 c) s = c # t"
    by (cases "dropWhile (\<lambda>c. \<not> is_digit_of 10 c) s") auto
  with d have "dropWhile (is_digit_of 10) (c # t) = dropWhile (is_digit_of 10) t" by simp
  moreover have "length (dropWhile (is_digit_of 10) t) \<le> length t" by (rule length_dropWhile_le)
  moreover have "length (c # t) \<le> length s" using ct length_dropWhile_le by metis
  ultimately show "length (dropWhile (is_digit_of 10) (dropWhile (\<lambda>c. \<not> is_digit_of 10 c) s)) < length s"
    using ct by simp
qed

declare digit_runs.simps [simp del]

subsection \<open>split and join\<close>

lemma split_on_not_Nil [simp]: "split_on c s \<noteq> []"
  by (cases s) (auto split: list.splits)

lemma split_on_no_sep: "c \<notin> set s \<Longrightarrow> split_on c s = [s]"
  by (induction s) auto

lemma split_on_append_sep:
  "c \<notin> set p \<Longrightarrow> split_on c (p @ c # s) = p # split_on c s"
  by (induction p) auto

lemma split_on_join:
  "ps \<noteq> [] \<Longrightarrow> (\<And>p. p \<in> set ps \<Longrightarrow> c \<notin> set p) \<Longrightarrow> split_on c (join_with [c] ps) = ps"
proof (induction "[c]" ps rule: join_with.induct)
  case 1
  then show ?case by simp
next
  case (2 p)
  then show ?case by (simp add: split_on_no_sep)
next
  case (3 p q ps)
  then show ?case by (simp add: split_on_append_sep)
qed

lemma join_split: "join_with [c] (split_on c s) = s"
proof (induction s)
  case Nil
  then show ?case by simp
next
  case (Cons x s)
  obtain p ps where "split_on c s = p # ps" by (cases "split_on c s") auto
  with Cons show ?case by (cases ps) auto
qed

text \<open>Every piece ends with the separator: the shape of the core's encodings.\<close>

lemma split_on_concat_terminated:
  "(\<And>p. p \<in> set ps \<Longrightarrow> c \<notin> set p) \<Longrightarrow> split_on c (concat (map (\<lambda>p. p @ [c]) ps)) = ps @ [[]]"
  by (induction ps) (auto simp: split_on_append_sep)

subsection \<open>Decimal printing and parsing\<close>

lemma digit_value_char [simp]: "d < 10 \<Longrightarrow> digit_value (digit_char d) = Some d"
  by (simp add: digit_value_def digit_char_def Let_def)

lemma is_digit_of_char [simp]: "d < 10 \<Longrightarrow> is_digit_of 10 (digit_char d)"
  by (simp add: is_digit_of_def)

lemma show_nat_digits: "c \<in> set (show_nat n) \<Longrightarrow> is_digit_of 10 c"
proof (induction n rule: show_nat.induct)
  case (1 n)
  then show ?case
    by (cases "n < 10") (auto simp: show_nat.simps [of n])
qed

lemma show_nat_not_Nil [simp]: "show_nat n \<noteq> []"
  by (subst show_nat.simps) simp

lemma digits_value_append:
  "digits_value r acc (xs @ ys) = digits_value r (digits_value r acc xs) ys"
  by (induction xs arbitrary: acc) auto

lemma digits_value_show_nat: "digits_value 10 0 (show_nat n) = n"
proof (induction n rule: show_nat.induct)
  case (1 n)
  then show ?case
    by (cases "n < 10") (auto simp: show_nat.simps [of n] digits_value_append)
qed

text \<open>Which characters a decimal digit is not.\<close>

lemma digit_of_10_iff: "is_digit_of 10 c \<longleftrightarrow> 48 \<le> (of_char c :: nat) \<and> (of_char c :: nat) \<le> 57"
  by (auto simp: is_digit_of_def digit_value_def Let_def split: if_splits)

lemma digit_not_special:
  assumes "is_digit_of 10 c"
  shows "c \<noteq> CHR '' ''" "c \<noteq> CHR '':''" "c \<noteq> CHR '',''" "c \<noteq> CHR ''-''" "c \<noteq> CHR ''+''"
    "c \<noteq> CHR ''x''" "c \<noteq> CHR ''X''" "\<not> is_space c"
  using assms by (auto simp: digit_of_10_iff is_space_def)

lemma show_nat_list_all [simp]: "list_all (is_digit_of 10) (show_nat n)"
  using show_nat_digits by (auto simp: list_all_iff)

lemma strip_radix_digits [simp]: "list_all (is_digit_of 10) s \<Longrightarrow> strip_radix s = (10, s)"
  by (cases s rule: strip_radix.cases) (auto simp: digit_of_10_iff)

lemma strip_sign_digits [simp]: "list_all (is_digit_of 10) s \<Longrightarrow> strip_sign s = (False, s)"
  by (cases s) (auto dest: digit_not_special(4,5))

lemma dropWhile_space_digits [simp]:
  "list_all (is_digit_of 10) s \<Longrightarrow> dropWhile is_space s = s"
  by (cases s) (auto dest: digit_not_special(8))

lemma takeWhile_digits [simp]:
  "list_all (is_digit_of 10) s \<Longrightarrow> takeWhile (is_digit_of 10) s = s"
  by (simp add: takeWhile_eq_all_conv list_all_iff)

lemma minus_not_space [simp]: "\<not> is_space CHR ''-''"
  by (simp add: is_space_def)

lemma parseInt_show_nat [simp]: "parseInt (show_nat n) = Some (int n)"
  by (simp add: parseInt_def digits_value_show_nat Let_def)

lemma parseInt_show_int [simp]: "parseInt (show_int i) = Some i"
  by (simp add: parseInt_def show_int_def digits_value_show_nat Let_def)

lemma show_nat_chars:
  assumes "c \<in> set (show_nat n)"
  shows "c \<noteq> CHR '' '' \<and> c \<noteq> CHR '':'' \<and> c \<noteq> CHR '','' \<and> \<not> is_space c"
  using digit_not_special [OF show_nat_digits [OF assms]] by blast

lemma show_int_chars:
  assumes "c \<in> set (show_int i)"
  shows "c \<noteq> CHR '' '' \<and> c \<noteq> CHR '':'' \<and> c \<noteq> CHR '','' \<and> \<not> is_space c"
proof (cases "c = CHR ''-''")
  case True
  then show ?thesis by simp
next
  case False
  with assms obtain n where "c \<in> set (show_nat n)"
    by (auto simp: show_int_def split: if_splits)
  then show ?thesis by (rule show_nat_chars)
qed

lemma show_int_no_sep [simp]:
  "CHR '' '' \<notin> set (show_int i)" "CHR '':'' \<notin> set (show_int i)" "CHR '','' \<notin> set (show_int i)"
  using show_int_chars by blast+

lemma show_int_not_Nil [simp]: "show_int i \<noteq> []"
  by (simp add: show_int_def)

lemma dropWhile_no_space: "(\<And>c. c \<in> set t \<Longrightarrow> \<not> is_space c) \<Longrightarrow> dropWhile is_space t = t"
  by (cases t) auto

lemma js_trim_no_space: "(\<And>c. c \<in> set s \<Longrightarrow> \<not> is_space c) \<Longrightarrow> js_trim s = s"
  using dropWhile_no_space [of s] dropWhile_no_space [of "rev s"] by (simp add: js_trim_def)

lemma js_trim_show_int [simp]: "js_trim (show_int i) = show_int i"
  by (rule js_trim_no_space) (use show_int_chars in blast)

lemma all_digits_show_nat [simp]: "all_digits (show_nat n)"
  by (simp add: all_digits_def)

lemma js_to_number_show_int [simp]: "js_to_number (show_int i) = Some i"
proof -
  have "strip_sign (show_int i) = (i < 0, show_nat (nat \<bar>i\<bar>))"
    by (simp add: show_int_def)
  then show ?thesis
    by (simp add: js_to_number_def digits_value_show_nat Let_def)
qed

lemma show_int_inject [simp]: "show_int i = show_int j \<longleftrightarrow> i = j"
  by (metis option.inject parseInt_show_int)

lemma all_digits_number:
  assumes "all_digits s"
  shows "\<exists>n. js_to_number s = Some n"
proof -
  have d: "s \<noteq> []" "list_all (is_digit_of 10) s" using assms by (auto simp: all_digits_def)
  then have "js_trim s = s"
    by (intro js_trim_no_space) (auto simp: list_all_iff dest: digit_not_special(8))
  with d assms show ?thesis by (simp add: js_to_number_def Let_def)
qed

end
