(* ===== verification/Span_List.thy ===== *)
theory Span_List
  imports Binary_Search Js_String
begin

section \<open>Span lists: the run-length encoding of rows and columns\<close>

text \<open>
  The classes \<open>SpanList\<close> and \<open>BoolSpanList\<close> and the parser \<open>parseSpanListEncoding\<close> of
  \<open>browser/src/layer/tile/SheetGeometry.ts\<close>. A span list gives every row (or column) of a
  sheet a value; a span holds the index of its last element. A boolean span list only
  keeps the ends of the spans and the bit of the first one, the bits alternate.

  The abstract view of a span list is the function from element to value (\<open>value_at\<close>) or
  bit (\<open>bit_at\<close>); \<open>union\<close> and \<open>applyZeroValues\<close>, which merge two lists in one pass, are
  shown to compute the pointwise operation on it.
\<close>

subsection \<open>Data\<close>

record span =
  sp_index :: int
  sp_value :: int

record custom_data =
  sizecore :: int
  poscorepx :: int
  postiletwips :: int
  posprinttwips :: int

text \<open>A span after \<open>addCustomDataForEachSpan\<close> has set its \<open>data\<close> property.\<close>

record dspan = span +
  sp_data :: custom_data

record view_span =
  vs_index :: int
  vs_value :: int
  vs_data :: custom_data
  vs_start :: int
  vs_end :: int
  vs_size :: int

record bool_span_list =
  bs_startBit :: bool
  bs_spanlist :: "int list"

datatype custom_field = F_postiletwips | F_posprinttwips

fun data_field :: "custom_field \<Rightarrow> custom_data \<Rightarrow> int" where
  "data_field F_postiletwips d = postiletwips d"
| "data_field F_posprinttwips d = posprinttwips d"

datatype parsed_span_list = ParsedSpanList "span list" | ParsedBoolSpanList "int list" bool

subsection \<open>Parsing\<close>

fun parse_all :: "('a \<Rightarrow> 'b option) \<Rightarrow> 'a list \<Rightarrow> 'b list option" where
  "parse_all f [] = Some []"
| "parse_all f (x # xs) =
     (case f x of None \<Rightarrow> None | Some y \<Rightarrow> map_option ((#) y) (parse_all f xs))"

definition parse_span_entry :: "string \<Rightarrow> span option" where
  "parse_span_entry entry =
     (case split_on CHR '':'' entry of
        [a, b] \<Rightarrow>
          (case (parseInt b, parseInt a) of
             (Some index, Some value) \<Rightarrow> Some \<lparr>sp_index = index, sp_value = value\<rparr>
           | _ \<Rightarrow> None)
      | _ \<Rightarrow> None)"

text \<open>
  The last piece of the split is never read: the encoding ends with a space. In the boolean
  case the first piece carries the start bit and the first end.
\<close>

definition parseSpanListEncoding :: "string \<Rightarrow> bool \<Rightarrow> parsed_span_list option" where
  "parseSpanListEncoding encoding booleanValue =
     (let splits = split_on CHR '' '' encoding
      in if length splits < 2 then None
         else if booleanValue then
           (case split_on CHR '':'' (hd splits) of
              [a, b] \<Rightarrow>
                (case (parseInt a, parseInt b) of
                   (Some startBitInt, Some first) \<Rightarrow>
                     map_option (\<lambda>es. ParsedBoolSpanList (first # es) (startBitInt \<noteq> 0))
                       (parse_all parseInt (tl (butlast splits)))
                 | _ \<Rightarrow> None)
            | _ \<Rightarrow> None)
         else map_option ParsedSpanList (parse_all parse_span_entry (butlast splits)))"

definition SpanList_load :: "string \<Rightarrow> span list \<Rightarrow> bool \<times> span list" where
  "SpanList_load encoding this =
     (case parseSpanListEncoding encoding False of
        Some (ParsedSpanList xs) \<Rightarrow> (True, xs)
      | _ \<Rightarrow> (False, this))"

definition BoolSpanList_new :: bool_span_list where
  "BoolSpanList_new = \<lparr>bs_startBit = False, bs_spanlist = []\<rparr>"

definition BoolSpanList_load :: "string \<Rightarrow> bool_span_list \<Rightarrow> bool \<times> bool_span_list" where
  "BoolSpanList_load encoding this =
     (case parseSpanListEncoding encoding True of
        Some (ParsedBoolSpanList es b) \<Rightarrow> (True, \<lparr>bs_startBit = b, bs_spanlist = es\<rparr>)
      | _ \<Rightarrow> (False, this))"

subsection \<open>Merging\<close>

text \<open>
  The while loop of \<open>BoolSpanList.union\<close>; the lists are the suffixes from \<open>thisIdx\<close> and
  \<open>otherIdx\<close>. A span is pushed when the bit changes or the end is reached.
\<close>

function union_loop :: "int \<Rightarrow> bool \<Rightarrow> bool \<Rightarrow> bool \<Rightarrow> int list \<Rightarrow> int list \<Rightarrow> int list" where
  "union_loop maxElement thisBit otherBit resultBit (t # ts) (u # us) =
     (let (lastElement, thisBit', otherBit', ts', us') =
            (if t < u then (t, \<not> thisBit, otherBit, ts, u # us)
             else if u < t then (u, thisBit, \<not> otherBit, t # ts, us)
             else (u, \<not> thisBit, \<not> otherBit, ts, us));
          nextResultBit = (thisBit' \<or> otherBit')
      in if resultBit \<noteq> nextResultBit \<or> lastElement \<ge> maxElement
         then lastElement # union_loop maxElement thisBit' otherBit' nextResultBit ts' us'
         else union_loop maxElement thisBit' otherBit' resultBit ts' us')"
| "union_loop maxElement thisBit otherBit resultBit [] us = []"
| "union_loop maxElement thisBit otherBit resultBit (t # ts) [] = []"
  by pat_completeness auto
termination
  by (relation "measure (\<lambda>(m, a, b, r, ts, us). length ts + length us)") (auto split: if_splits)

definition BoolSpanList_union ::
    "bool_span_list \<Rightarrow> bool_span_list \<Rightarrow> bool_span_list option" where
  "BoolSpanList_union this other =
     (if js_last (bs_spanlist this) \<noteq> js_last (bs_spanlist other) then None
      else
        let resultBit = (bs_startBit this \<or> bs_startBit other)
        in Some \<lparr>bs_startBit = resultBit,
             bs_spanlist =
               (case js_last (bs_spanlist this) of
                  None \<Rightarrow> []
                | Some maxElement \<Rightarrow>
                    union_loop maxElement (bs_startBit this) (bs_startBit other) resultBit
                      (bs_spanlist this) (bs_spanlist other))\<rparr>)"

text \<open>The while loop of \<open>SpanList.applyZeroValues\<close>.\<close>

function zero_loop :: "int \<Rightarrow> bool \<Rightarrow> int \<Rightarrow> span list \<Rightarrow> int list \<Rightarrow> span list" where
  "zero_loop maxElement zeroBit resultValue (t # ts) (u # us) =
     (let (lastElement, zeroBit', ts', us') =
            (if sp_index t < u then (sp_index t, zeroBit, ts, u # us)
             else if u < sp_index t then (u, \<not> zeroBit, t # ts, us)
             else (u, \<not> zeroBit, ts, us));
          nextResultValue =
            (case ts' of [] \<Rightarrow> resultValue | s # _ \<Rightarrow> if zeroBit' then 0 else sp_value s)
      in if resultValue \<noteq> nextResultValue \<or> lastElement \<ge> maxElement
         then \<lparr>sp_index = lastElement, sp_value = resultValue\<rparr> #
              zero_loop maxElement zeroBit' nextResultValue ts' us'
         else zero_loop maxElement zeroBit' resultValue ts' us')"
| "zero_loop maxElement zeroBit resultValue [] us = []"
| "zero_loop maxElement zeroBit resultValue (t # ts) [] = []"
  by pat_completeness auto
termination
  by (relation "measure (\<lambda>(m, z, r, ts, us). length ts + length us)") (auto split: if_splits)

text \<open>
  \<open>Inl TypeError\<close>: the code reads the \<open>index\<close> of the last span of an empty list.
  \<open>Inr None\<close>: the code returns \<open>undefined\<close>.
\<close>

definition SpanList_applyZeroValues ::
    "span list \<Rightarrow> bool_span_list option \<Rightarrow> js_error + span list option" where
  "SpanList_applyZeroValues this other_opt =
     (case other_opt of
        None \<Rightarrow> Inr None
      | Some other \<Rightarrow>
          (case js_last this of
             None \<Rightarrow> Inl TypeError
           | Some s \<Rightarrow>
               if js_last (bs_spanlist other) \<noteq> Some (sp_index s) then Inr None
               else
                 let zeroBit = bs_startBit other;
                     resultValue = (if zeroBit then 0 else sp_value (hd this))
                 in Inr (Some (zero_loop (sp_index s) zeroBit resultValue this (bs_spanlist other)))))"

subsection \<open>Custom data, access and search\<close>

text \<open>
  \<open>addCustomDataForEachSpan\<close> with a callback that keeps state between calls, as the closure
  of \<open>_updatePositions\<close> does.
\<close>

fun add_custom_data ::
    "('st \<Rightarrow> int \<Rightarrow> int \<Rightarrow> int \<Rightarrow> custom_data \<times> 'st) \<Rightarrow> 'st \<Rightarrow> int \<Rightarrow> 'b span_scheme list \<Rightarrow> dspan list"
where
  "add_custom_data cb st prevIndex [] = []"
| "add_custom_data cb st prevIndex (s # ss) =
     (let (d, st') = cb st (sp_index s) (sp_value s) (sp_index s - prevIndex)
      in \<lparr>sp_index = sp_index s, sp_value = sp_value s, sp_data = d\<rparr> #
         add_custom_data cb st' (sp_index s) ss)"

definition addCustomDataForEachSpan ::
    "('st \<Rightarrow> int \<Rightarrow> int \<Rightarrow> int \<Rightarrow> custom_data \<times> 'st) \<Rightarrow> 'st \<Rightarrow> 'b span_scheme list \<Rightarrow> dspan list" where
  "addCustomDataForEachSpan cb st ss = add_custom_data cb st (-1) ss"

definition getSpanData :: "dspan list \<Rightarrow> nat \<Rightarrow> view_span" where
  "getSpanData ss spanid =
     (let span = ss ! spanid
      in \<lparr>vs_index = sp_index span, vs_value = sp_value span, vs_data = sp_data span,
          vs_start = (if spanid > 0 then sp_index (ss ! (spanid - 1)) + 1 else 0),
          vs_end = sp_index span, vs_size = sp_value span\<rparr>)"

definition index_direction :: "(int, 'b span_scheme) direction_provider" where
  "index_direction testIndex prevSpan curSpan nextSpan =
     (let spanStart = (case prevSpan of Some p \<Rightarrow> sp_index p + 1 | None \<Rightarrow> 0);
          spanEnd = sp_index curSpan
      in if testIndex < spanStart then -1 else if spanEnd < testIndex then 1 else 0)"

definition searchByIndex :: "'b span_scheme list \<Rightarrow> int \<Rightarrow> int" where
  "searchByIndex ss index = binarySearch index_direction ss index False"

definition custom_direction :: "custom_field \<Rightarrow> (num, dspan) direction_provider" where
  "custom_direction field testValue prevSpan curSpan nextSpan =
     (let valueStart = (case prevSpan of Some p \<Rightarrow> data_field field (sp_data p) | None \<Rightarrow> 0);
          valueEnd = data_field field (sp_data curSpan) -
            (case nextSpan of Some _ \<Rightarrow> 1 | None \<Rightarrow> 0)
      in if testValue < of_int valueStart then -1
         else if of_int valueEnd < testValue then 1 else 0)"

definition searchByCustomDataField :: "dspan list \<Rightarrow> num \<Rightarrow> custom_field \<Rightarrow> int" where
  "searchByCustomDataField ss value field = binarySearch (custom_direction field) ss value True"

definition getSpanDataByIndex :: "dspan list \<Rightarrow> int \<Rightarrow> view_span option" where
  "getSpanDataByIndex ss index =
     (let spanid = searchByIndex ss index
      in if spanid = -1 then None else Some (getSpanData ss (nat spanid)))"

definition getSpanDataByCustomDataField ::
    "dspan list \<Rightarrow> num \<Rightarrow> custom_field \<Rightarrow> view_span option" where
  "getSpanDataByCustomDataField ss value field =
     (let spanid = searchByCustomDataField ss value field
      in if spanid = -1 then None else Some (getSpanData ss (nat spanid)))"

text \<open>
  The spans \<open>forEachSpanInRange\<close> hands to its callback, in order: the do-while loop calls it
  once, then goes on while the span just visited ends at or before \<open>end\<close>.
\<close>

function range_loop :: "dspan list \<Rightarrow> nat \<Rightarrow> int \<Rightarrow> view_span list" where
  "range_loop ss spanid end' =
     (let span = getSpanData ss spanid
      in span # (if Suc spanid < length ss \<and> vs_index span \<le> end'
                 then range_loop ss (Suc spanid) end' else []))"
  by pat_completeness auto
termination
  by (relation "measure (\<lambda>(ss, spanid, end'). length ss - spanid)") auto

declare range_loop.simps [simp del]

definition forEachSpanInRange :: "dspan list \<Rightarrow> int \<Rightarrow> int \<Rightarrow> view_span list" where
  "forEachSpanInRange ss start end' =
     (if start > end' then []
      else let spanid = searchByIndex ss start
           in if spanid = -1 then [] else range_loop ss (nat spanid) end')"

definition forEachSpan :: "dspan list \<Rightarrow> view_span list" where
  "forEachSpan ss = map (getSpanData ss) [0..<length ss]"

subsection \<open>Abstract view and well-formedness\<close>

fun value_at :: "'b span_scheme list \<Rightarrow> int \<Rightarrow> int" where
  "value_at [] i = 0"
| "value_at (s # ss) i = (if i \<le> sp_index s then sp_value s else value_at ss i)"

fun bit_at :: "bool \<Rightarrow> int list \<Rightarrow> int \<Rightarrow> bool" where
  "bit_at b [] i = False"
| "bit_at b (e # es) i = (if i \<le> e then b else bit_at (\<not> b) es i)"

definition bool_at :: "bool_span_list \<Rightarrow> int \<Rightarrow> bool" where
  "bool_at b i = bit_at (bs_startBit b) (bs_spanlist b) i"

definition spans_wf :: "'b span_scheme list \<Rightarrow> bool" where
  "spans_wf ss \<longleftrightarrow> ss \<noteq> [] \<and> 0 \<le> sp_index (hd ss) \<and> sorted_wrt (<) (map sp_index ss)"

definition bools_wf :: "bool_span_list \<Rightarrow> bool" where
  "bools_wf b \<longleftrightarrow> bs_spanlist b \<noteq> [] \<and> 0 \<le> hd (bs_spanlist b) \<and> sorted_wrt (<) (bs_spanlist b)"

text \<open>The encoding the core sends, as the comment in \<open>checkMaxIndex\<close> describes it.\<close>

definition encode_spans :: "span list \<Rightarrow> string" where
  "encode_spans ss =
     concat (map (\<lambda>p. p @ '' '')
       (map (\<lambda>s. show_int (sp_value s) @ '':'' @ show_int (sp_index s)) ss))"

definition encode_bools :: "bool_span_list \<Rightarrow> string" where
  "encode_bools b =
     concat (map (\<lambda>p. p @ '' '')
       (((if bs_startBit b then ''1'' else ''0'') @ '':'' @ show_int (hd (bs_spanlist b))) #
        map show_int (tl (bs_spanlist b))))"

subsection \<open>Reading back an encoding\<close>

lemma parse_all_map:
  "(\<And>x. x \<in> set xs \<Longrightarrow> f (g x) = Some x) \<Longrightarrow> parse_all f (map g xs) = Some xs"
  by (induction xs) auto

lemma parse_all_length: "parse_all f xs = Some ys \<Longrightarrow> length ys = length xs"
  by (induction xs arbitrary: ys) (auto split: option.splits)

lemma parse_span_entry_show:
  "parse_span_entry (show_int (sp_value s) @ '':'' @ show_int (sp_index s)) = Some (s :: span)"
proof -
  have "split_on CHR '':'' (show_int (sp_value s) @ CHR '':'' # show_int (sp_index s)) =
      [show_int (sp_value s), show_int (sp_index s)]"
    by (simp add: split_on_append_sep split_on_no_sep)
  then show ?thesis by (simp add: parse_span_entry_def)
qed

lemma split_encoded:
  assumes "\<And>p. p \<in> set ps \<Longrightarrow> CHR '' '' \<notin> set p"
  shows "split_on CHR '' '' (concat (map (\<lambda>p. p @ '' '') ps)) = ps @ [[]]"
  by (rule split_on_concat_terminated) (rule assms)

lemma parse_encode_spans:
  "ss \<noteq> [] \<Longrightarrow> parseSpanListEncoding (encode_spans ss) False = Some (ParsedSpanList ss)"
proof -
  assume ne: "ss \<noteq> []"
  let ?g = "\<lambda>s. show_int (sp_value s) @ '':'' @ show_int (sp_index (s :: span))"
  have "split_on CHR '' '' (encode_spans ss) = map ?g ss @ [[]]"
    unfolding encode_spans_def by (rule split_encoded) auto
  moreover have "parse_all parse_span_entry (map ?g ss) = Some ss"
    by (rule parse_all_map) (rule parse_span_entry_show)
  ultimately show ?thesis
    using ne by (auto simp: parseSpanListEncoding_def Let_def)
qed

lemma parse_encode_bools:
  assumes "bs_spanlist b \<noteq> []"
  shows "parseSpanListEncoding (encode_bools b) True =
    Some (ParsedBoolSpanList (bs_spanlist b) (bs_startBit b))"
proof -
  define p where "p = (if bs_startBit b then ''1'' else ''0'') @ '':'' @ show_int (hd (bs_spanlist b))"
  have "split_on CHR '' '' (encode_bools b) = (p # map show_int (tl (bs_spanlist b))) @ [[]]"
    unfolding encode_bools_def p_def by (rule split_encoded) (auto split: if_splits)
  moreover have "split_on CHR '':'' p = [if bs_startBit b then ''1'' else ''0'', show_int (hd (bs_spanlist b))]"
    unfolding p_def by (simp add: split_on_append_sep split_on_no_sep)
  moreover have "parseInt ''1'' = Some 1" "parseInt ''0'' = Some 0"
    by code_simp+
  moreover have "parse_all parseInt (map show_int (tl (bs_spanlist b))) = Some (tl (bs_spanlist b))"
    by (rule parse_all_map) simp
  ultimately show ?thesis
    using assms by (auto simp: parseSpanListEncoding_def Let_def)
qed

subsection \<open>Union and zeroing are pointwise\<close>

lemma bit_at_head: "es \<noteq> [] \<Longrightarrow> i \<le> hd es \<Longrightarrow> bit_at b es i = b"
  by (cases es) auto

lemma value_at_head: "ss \<noteq> [] \<Longrightarrow> i \<le> sp_index (hd ss) \<Longrightarrow> value_at ss i = sp_value (hd ss)"
  by (cases ss) auto

text \<open>The loop invariant: both suffixes are increasing and end at the same last element.\<close>

definition ends_at :: "int \<Rightarrow> int list \<Rightarrow> int list \<Rightarrow> bool" where
  "ends_at mx ts us \<longleftrightarrow> sorted_wrt (<) ts \<and> sorted_wrt (<) us \<and> (ts = [] \<longleftrightarrow> us = []) \<and>
     (ts \<noteq> [] \<longrightarrow> last ts = mx \<and> last us = mx)"

lemma ends_at_le: "ends_at mx ts us \<Longrightarrow> x \<in> set ts \<union> set us \<Longrightarrow> x \<le> mx"
  unfolding ends_at_def by (metis Un_iff empty_iff list.set(1) sorted_wrt_last_max)

lemma ends_at_less:
  assumes "ends_at mx (t # ts) (u # us)" and "t < u"
  shows "ends_at mx ts (u # us)"
proof -
  have "u \<le> mx" using ends_at_le [OF assms(1)] by simp
  with assms show ?thesis by (auto simp: ends_at_def)
qed

lemma ends_at_swap: "ends_at mx ts us \<longleftrightarrow> ends_at mx us ts"
  by (auto simp: ends_at_def)

lemma ends_at_greater:
  assumes "ends_at mx (t # ts) (u # us)" and "u < t"
  shows "ends_at mx (t # ts) us"
  using ends_at_less [of mx u us t ts] assms by (simp add: ends_at_swap)

lemma ends_at_equal_Nil:
  assumes "ends_at mx (t # ts) (t # us)" and "ts = []"
  shows "us = []"
proof (rule ccontr)
  assume "us \<noteq> []"
  with assms have "last us = t" "\<forall>x \<in> set us. t < x" by (auto simp: ends_at_def)
  with \<open>us \<noteq> []\<close> show False using last_in_set by fastforce
qed

lemma ends_at_equal:
  assumes "ends_at mx (t # ts) (t # us)"
  shows "ends_at mx ts us"
proof -
  have "ts = [] \<longleftrightarrow> us = []"
    using ends_at_equal_Nil assms ends_at_swap by blast
  with assms show ?thesis by (auto simp: ends_at_def split: if_splits)
qed

text \<open>One iteration of a merge: which suffixes remain, and what was the smaller end.\<close>

definition merge_step :: "int \<Rightarrow> int list \<Rightarrow> int \<Rightarrow> int list \<Rightarrow> int \<Rightarrow> int list \<Rightarrow> int list \<Rightarrow> bool" where
  "merge_step t ts u us l ts' us' \<longleftrightarrow>
     l = min t u \<and> ts' = (if t \<le> u then ts else t # ts) \<and> us' = (if u \<le> t then us else u # us)"

lemma merge_step_ends:
  assumes "ends_at mx (t # ts) (u # us)" and "merge_step t ts u us l ts' us'"
  shows "ends_at mx ts' us'"
proof -
  consider "t < u" | "u < t" | "t = u" by linarith
  then show ?thesis
    using assms
    by cases (auto simp: merge_step_def intro: ends_at_less ends_at_greater ends_at_equal)
qed

lemma merge_step_below:
  assumes "ends_at mx (t # ts) (u # us)" and "merge_step t ts u us l ts' us'"
  shows "x \<in> set ts' \<union> set us' \<Longrightarrow> l < x"
proof -
  assume x: "x \<in> set ts' \<union> set us'"
  have srt: "\<forall>x \<in> set ts. t < x" "\<forall>x \<in> set us. u < x"
    using assms(1) by (auto simp: ends_at_def)
  consider "t < u" | "u < t" | "t = u" by linarith
  then show "l < x"
  proof cases
    case 1
    with x assms(2) have "x \<in> set ts \<or> x = u \<or> x \<in> set us" "l = t" by (auto simp: merge_step_def)
    with srt 1 show ?thesis by (meson dual_order.strict_trans)
  next
    case 2
    with x assms(2) have "x \<in> set us \<or> x = t \<or> x \<in> set ts" "l = u" by (auto simp: merge_step_def)
    with srt 2 show ?thesis by (meson dual_order.strict_trans)
  next
    case 3
    with x assms(2) srt show ?thesis by (auto simp: merge_step_def)
  qed
qed

lemma merge_step_le:
  "ends_at mx (t # ts) (u # us) \<Longrightarrow> merge_step t ts u us l ts' us' \<Longrightarrow> l \<le> mx"
  using ends_at_le [of mx "t # ts" "u # us" t] by (auto simp: merge_step_def)

lemma merge_step_last:
  assumes "ends_at mx (t # ts) (u # us)" and "merge_step t ts u us l ts' us'"
  shows "ts' = [] \<longleftrightarrow> l = mx"
proof
  assume "ts' = []"
  with assms show "l = mx" by (auto simp: ends_at_def merge_step_def split: if_splits)
next
  assume l: "l = mx"
  show "ts' = []"
  proof (rule ccontr)
    assume "ts' \<noteq> []"
    then have "last ts' \<in> set ts' \<union> set us'" by simp
    then have "l < last ts'" "last ts' \<le> mx"
      using merge_step_below [OF assms] ends_at_le [OF merge_step_ends [OF assms]] by blast+
    with l show False by simp
  qed
qed

lemma bit_at_step:
  "merge_step t ts u us l ts' us' \<Longrightarrow>
   bit_at b (t # ts) i = (if i \<le> l then b else bit_at (b \<noteq> (t \<le> u)) ts' i)"
  by (auto simp: merge_step_def)

lemma union_loop_unfold:
  assumes "merge_step t ts u us l ts' us'"
  shows "union_loop mx tb ob rb (t # ts) (u # us) =
    (let nb = ((tb \<noteq> (t \<le> u)) \<or> (ob \<noteq> (u \<le> t)))
     in if rb \<noteq> nb \<or> l \<ge> mx
        then l # union_loop mx (tb \<noteq> (t \<le> u)) (ob \<noteq> (u \<le> t)) nb ts' us'
        else union_loop mx (tb \<noteq> (t \<le> u)) (ob \<noteq> (u \<le> t)) rb ts' us')"
proof -
  consider "t < u" | "u < t" | "t = u" by linarith
  then show ?thesis
    using assms by cases (auto simp: merge_step_def Let_def)
qed

declare union_loop.simps(1) [simp del]

lemma union_loop_Nil [simp]: "ends_at mx [] us \<Longrightarrow> union_loop mx tb ob rb [] us = []"
  by simp

text \<open>What a merge yields: an increasing list of ends of the inputs, closed by the maximum.\<close>

definition merged :: "int \<Rightarrow> int list \<Rightarrow> int list \<Rightarrow> int list \<Rightarrow> bool" where
  "merged mx ts us r \<longleftrightarrow> sorted_wrt (<) r \<and> set r \<subseteq> set ts \<union> set us \<and>
     (ts \<noteq> [] \<longrightarrow> r \<noteq> [] \<and> last r = mx) \<and> (ts = [] \<longrightarrow> r = [])"

lemma merge_step_subset:
  "merge_step t ts u us l ts' us' \<Longrightarrow>
   insert l (set ts' \<union> set us') \<subseteq> set (t # ts) \<union> set (u # us)"
  by (auto simp: merge_step_def min_def)

lemma merged_push:
  assumes "ends_at mx (t # ts) (u # us)" and "merge_step t ts u us l ts' us'"
    and "merged mx ts' us' r"
  shows "merged mx (t # ts) (u # us) (l # r)"
proof -
  have "\<forall>x \<in> set r. l < x"
    using merge_step_below [OF assms(1,2)] assms(3) by (auto simp: merged_def)
  moreover have "ts' = [] \<Longrightarrow> l = mx" using merge_step_last [OF assms(1,2)] by simp
  ultimately show ?thesis
    using assms(3) merge_step_subset [OF assms(2)] by (auto simp: merged_def)
qed

lemma merged_skip:
  assumes "ends_at mx (t # ts) (u # us)" and "merge_step t ts u us l ts' us'"
    and "merged mx ts' us' r" and "l < mx"
  shows "merged mx (t # ts) (u # us) r"
proof -
  have "ts' \<noteq> []" using merge_step_last [OF assms(1,2)] assms(4) by simp
  with assms(3) merge_step_subset [OF assms(2)] show ?thesis by (auto simp: merged_def)
qed

lemma merged_hd:
  assumes "ends_at mx (t # ts) (u # us)" and "merge_step t ts u us l ts' us'"
    and "merged mx ts' us' r" and "l < mx"
  shows "r \<noteq> [] \<and> l < hd r"
proof -
  have "r \<noteq> []" and "set r \<subseteq> set ts' \<union> set us'"
    using assms merge_step_last [OF assms(1,2)] by (auto simp: merged_def)
  then have "hd r \<in> set ts' \<union> set us'" using hd_in_set by blast
  with \<open>r \<noteq> []\<close> show ?thesis using merge_step_below [OF assms(1,2)] by blast
qed

lemma merge_stepE:
  obtains l ts' us' where "merge_step t ts u us l ts' us'"
  by (simp add: merge_step_def)

lemma union_loop_correct:
  assumes "ends_at mx ts us" and "rb = (tb \<or> ob)"
  shows "merged mx ts us (union_loop mx tb ob rb ts us) \<and>
    (\<forall>i. bit_at rb (union_loop mx tb ob rb ts us) i = (bit_at tb ts i \<or> bit_at ob us i))"
  using assms
proof (induction "length ts + length us" arbitrary: tb ob rb ts us rule: less_induct)
  case less
  show ?case
  proof (cases "ts = []")
    case True
    with less.prems show ?thesis by (auto simp: ends_at_def merged_def)
  next
    case False
    then obtain t ts0 u us0 where e: "ts = t # ts0" "us = u # us0"
      using less.prems(1) by (metis ends_at_def neq_Nil_conv)
    obtain l ts' us' where st: "merge_step t ts0 u us0 l ts' us'" by (rule merge_stepE)
    have st2: "merge_step u us0 t ts0 l us' ts'" using st by (auto simp: merge_step_def)
    note inv = less.prems(1) [unfolded e]
    define tb' ob' where "tb' = (tb \<noteq> (t \<le> u))" and "ob' = (ob \<noteq> (u \<le> t))"
    define nb where "nb = (tb' \<or> ob')"
    define r where "r = union_loop mx tb' ob' nb ts' us'"
    have "length ts' + length us' < length ts + length us"
      using st e by (auto simp: merge_step_def)
    then have IH: "merged mx ts' us' r"
        "\<And>i. bit_at nb r i = (bit_at tb' ts' i \<or> bit_at ob' us' i)"
      using less.hyps [OF _ merge_step_ends [OF inv st] nb_def] by (auto simp: r_def)
    have split: "(bit_at tb ts i \<or> bit_at ob us i) = (if i \<le> l then rb else bit_at nb r i)" for i
      using bit_at_step [OF st, of tb i] bit_at_step [OF st2, of ob i] IH(2) less.prems(2)
      by (auto simp: e tb'_def ob'_def)
    have unfold: "union_loop mx tb ob rb ts us = (if rb \<noteq> nb \<or> l \<ge> mx then l # r else r)"
      using union_loop_unfold [OF st, of mx tb ob rb] by (auto simp: e r_def tb'_def ob'_def nb_def Let_def)
    show ?thesis
    proof (cases "rb \<noteq> nb \<or> l \<ge> mx")
      case True
      have "bit_at rb (l # r) i = (if i \<le> l then rb else bit_at nb r i)" for i
      proof (cases "rb = nb")
        case eq: True
        then have "ts' = []" using True merge_step_le [OF inv st] merge_step_last [OF inv st] by auto
        then have "r = []" using IH(1) by (simp add: merged_def)
        then show ?thesis by simp
      qed auto
      then show ?thesis
        using True merged_push [OF inv st IH(1)] unfold split by (simp add: e)
    next
      case no: False
      then have "l < mx" by simp
      then have "merged mx (t # ts0) (u # us0) r" by (rule merged_skip [OF inv st IH(1)])
      moreover have "bit_at rb r i = (if i \<le> l then rb else bit_at nb r i)" for i
      proof (cases "i \<le> l")
        case True
        with merged_hd [OF inv st IH(1) \<open>l < mx\<close>] show ?thesis by (simp add: bit_at_head)
      qed (use no in simp)
      ultimately show ?thesis using no unfold split by (simp add: e)
    qed
  qed
qed

definition same_end :: "'b span_scheme list \<Rightarrow> bool_span_list \<Rightarrow> bool" where
  "same_end ss b \<longleftrightarrow> sp_index (last ss) = last (bs_spanlist b)"

lemma union_result:
  assumes "bools_wf a" and "bools_wf b" and "last (bs_spanlist a) = last (bs_spanlist b)"
  obtains r where "BoolSpanList_union a b = Some r" and "bools_wf r"
    and "last (bs_spanlist r) = last (bs_spanlist a)"
    and "\<And>i. bool_at r i \<longleftrightarrow> bool_at a i \<or> bool_at b i"
proof -
  let ?mx = "last (bs_spanlist a)" and ?rb = "bs_startBit a \<or> bs_startBit b"
  let ?es = "union_loop ?mx (bs_startBit a) (bs_startBit b) ?rb (bs_spanlist a) (bs_spanlist b)"
  have ends: "ends_at ?mx (bs_spanlist a) (bs_spanlist b)"
    using assms by (auto simp: bools_wf_def ends_at_def)
  note c = union_loop_correct [OF ends refl [of ?rb]]
  have nonneg: "\<And>x. x \<in> set (bs_spanlist a) \<union> set (bs_spanlist b) \<Longrightarrow> 0 \<le> x"
    using assms(1,2) sorted_wrt_hd_min unfolding bools_wf_def by (metis Un_iff order_trans)
  have m: "merged ?mx (bs_spanlist a) (bs_spanlist b) ?es" using c by simp
  then have "?es \<noteq> []" "hd ?es \<in> set (bs_spanlist a) \<union> set (bs_spanlist b)"
    using assms(1) hd_in_set by (fastforce simp: merged_def bools_wf_def)+
  with nonneg m assms(1) have "bools_wf \<lparr>bs_startBit = ?rb, bs_spanlist = ?es\<rparr>" "last ?es = ?mx"
    by (auto simp: bools_wf_def merged_def)
  with c assms show thesis
    by (intro that [of "\<lparr>bs_startBit = ?rb, bs_spanlist = ?es\<rparr>"])
      (auto simp: BoolSpanList_union_def bools_wf_def bool_at_def Let_def)
qed

subsection \<open>Zeroing\<close>

lemma value_at_step:
  "merge_step (sp_index t) (map sp_index ts) u us l (map sp_index ts') us' \<Longrightarrow>
   ts' = (if sp_index t \<le> u then ts else t # ts) \<Longrightarrow>
   value_at (t # ts) i = (if i \<le> l then sp_value t else value_at ts' i)"
  by (auto simp: merge_step_def)

declare zero_loop.simps(1) [simp del]

lemma zero_loop_unfold:
  assumes "merge_step (sp_index t) (map sp_index ts) u us l (map sp_index ts') us'"
    and "ts' = (if sp_index t \<le> u then ts else t # ts)"
  shows "zero_loop mx zb rv (t # ts) (u # us) =
    (let zb' = (zb \<noteq> (u \<le> sp_index t));
         nv = (case ts' of [] \<Rightarrow> rv | s # _ \<Rightarrow> if zb' then 0 else sp_value s)
     in if rv \<noteq> nv \<or> l \<ge> mx
        then \<lparr>sp_index = l, sp_value = rv\<rparr> # zero_loop mx zb' nv ts' us'
        else zero_loop mx zb' rv ts' us')"
proof -
  consider "sp_index t < u" | "u < sp_index t" | "sp_index t = u" by linarith
  then show ?thesis
    using assms by cases (auto simp: zero_loop.simps(1) merge_step_def Let_def)
qed

lemma zero_loop_correct:
  assumes "ends_at mx (map sp_index ts) us"
    and "ts \<noteq> [] \<Longrightarrow> rv = (if zb then 0 else sp_value (hd ts))"
  shows "merged mx (map sp_index ts) us (map sp_index (zero_loop mx zb rv ts us)) \<and>
    (\<forall>i. value_at (zero_loop mx zb rv ts us) i = (if bit_at zb us i then 0 else value_at ts i))"
  using assms
proof (induction "length ts + length us" arbitrary: zb rv ts us rule: less_induct)
  case less
  show ?case
  proof (cases "ts = []")
    case True
    with less.prems show ?thesis by (auto simp: ends_at_def merged_def)
  next
    case False
    then obtain t ts0 u us0 where e: "ts = t # ts0" "us = u # us0"
      using less.prems(1) by (metis ends_at_def neq_Nil_conv list.map_disc_iff)
    define ts' where "ts' = (if sp_index t \<le> u then ts0 else t # ts0)"
    define us' where "us' = (if u \<le> sp_index t then us0 else u # us0)"
    define l where "l = min (sp_index t) u"
    have st: "merge_step (sp_index t) (map sp_index ts0) u us0 l (map sp_index ts') us'"
      by (auto simp: merge_step_def ts'_def us'_def l_def)
    have st2: "merge_step u us0 (sp_index t) (map sp_index ts0) l us' (map sp_index ts')"
      using st by (auto simp: merge_step_def)
    have inv: "ends_at mx (sp_index t # map sp_index ts0) (u # us0)"
      using less.prems(1) by (simp add: e)
    define zb' where "zb' = (zb \<noteq> (u \<le> sp_index t))"
    define nv where "nv = (case ts' of [] \<Rightarrow> rv | s # _ \<Rightarrow> if zb' then 0 else sp_value s)"
    define r where "r = zero_loop mx zb' nv ts' us'"
    have len: "length ts' + length us' < length ts + length us"
      by (auto simp: e ts'_def us'_def)
    have nv: "ts' \<noteq> [] \<Longrightarrow> nv = (if zb' then 0 else sp_value (hd ts'))"
      by (cases ts') (auto simp: nv_def)
    from less.hyps [OF len merge_step_ends [OF inv st] nv]
    have IH: "merged mx (map sp_index ts') us' (map sp_index r)"
        "\<And>i. value_at r i = (if bit_at zb' us' i then 0 else value_at ts' i)"
      by (auto simp: r_def)
    have split: "(if bit_at zb us i then 0 else value_at ts i) = (if i \<le> l then rv else value_at r i)" for i
      using bit_at_step [OF st2, of zb i] value_at_step [OF st ts'_def, of i] IH(2) less.prems(2)
      by (auto simp: e zb'_def)
    have unfold: "zero_loop mx zb rv ts us =
        (if rv \<noteq> nv \<or> l \<ge> mx then \<lparr>sp_index = l, sp_value = rv\<rparr> # r else r)"
      unfolding e zero_loop_unfold [OF st ts'_def] Let_def zb'_def [symmetric] nv_def [symmetric]
      by (simp add: r_def)
    show ?thesis
    proof (cases "rv \<noteq> nv \<or> l \<ge> mx")
      case True
      then show ?thesis
        using merged_push [OF inv st IH(1)] unfold split by (simp add: e)
    next
      case no: False
      then have "l < mx" by simp
      then have "merged mx (sp_index t # map sp_index ts0) (u # us0) (map sp_index r)"
        by (rule merged_skip [OF inv st IH(1)])
      moreover have "value_at r i = (if i \<le> l then rv else value_at r i)" for i
      proof (cases "i \<le> l")
        case True
        have "ts' \<noteq> []" using merge_step_last [OF inv st] \<open>l < mx\<close> by auto
        moreover have "us' \<noteq> []"
          using merge_step_ends [OF inv st] \<open>ts' \<noteq> []\<close> by (simp add: ends_at_def)
        moreover have "l < hd (map sp_index ts')" "l < hd us'"
          by (rule merge_step_below [OF inv st], simp add: hd_map \<open>ts' \<noteq> []\<close> \<open>us' \<noteq> []\<close>)+
        ultimately show ?thesis
          using True no nv IH(2) [of i] by (simp add: bit_at_head value_at_head hd_map)
      qed simp
      ultimately show ?thesis using no unfold split by (simp add: e)
    qed
  qed
qed

lemma zero_result:
  assumes "spans_wf ss" and "bools_wf b" and "same_end ss b"
  obtains r where "SpanList_applyZeroValues ss (Some b) = Inr (Some r)" and "spans_wf r"
    and "sp_index (last r) = sp_index (last ss)"
    and "\<And>i. value_at r i = (if bool_at b i then 0 else value_at ss i)"
proof -
  let ?mx = "sp_index (last ss)" and ?rv = "if bs_startBit b then 0 else sp_value (hd ss)"
  let ?r = "zero_loop ?mx (bs_startBit b) ?rv ss (bs_spanlist b)"
  have ends: "ends_at ?mx (map sp_index ss) (bs_spanlist b)"
    using assms by (auto simp: spans_wf_def bools_wf_def same_end_def ends_at_def last_map)
  note c = zero_loop_correct [OF ends refl]
  have nonneg: "\<And>x. x \<in> set (map sp_index ss) \<union> set (bs_spanlist b) \<Longrightarrow> 0 \<le> x"
    using assms(1,2) sorted_wrt_hd_min [of "map sp_index ss"] sorted_wrt_hd_min [of "bs_spanlist b"]
    unfolding bools_wf_def spans_wf_def by (metis Un_iff hd_map order_trans)
  have m: "merged ?mx (map sp_index ss) (bs_spanlist b) (map sp_index ?r)" using c by simp
  then have ne: "?r \<noteq> []" and lst: "last (map sp_index ?r) = ?mx"
    and sub: "set (map sp_index ?r) \<subseteq> set (map sp_index ss) \<union> set (bs_spanlist b)"
    using assms(1) by (auto simp: merged_def spans_wf_def)
  have "hd (map sp_index ?r) \<in> set (map sp_index ?r)"
    by (rule hd_in_set) (simp only: ne map_is_Nil_conv not_False_eq_True)
  with sub nonneg have "0 \<le> sp_index (hd ?r)" using ne by (metis hd_map subsetD)
  with m ne have "spans_wf ?r" by (auto simp: spans_wf_def merged_def)
  with lst ne c assms show thesis
    by (intro that [of ?r])
      (auto simp: SpanList_applyZeroValues_def spans_wf_def bools_wf_def same_end_def
        bool_at_def last_map Let_def)
qed

subsection \<open>The two searches as interpretations of the search contract\<close>

text \<open>The first element of a span.\<close>

definition span_start :: "'b span_scheme list \<Rightarrow> nat \<Rightarrow> int" where
  "span_start ss i = (if i = 0 then 0 else sp_index (ss ! (i - 1)) + 1)"

lemma index_dir_at:
  assumes "i < length ss"
  shows "dir_at index_direction ss k i =
    (if k < span_start ss i then -1 else if sp_index (ss ! i) < k then 1 else 0)"
proof (cases i)
  case 0
  then show ?thesis by (simp add: dir_at_def index_direction_def span_start_def)
next
  case (Suc j)
  with assms show ?thesis by (simp add: dir_at_def index_direction_def span_start_def)
qed

lemma spans_wf_mono:
  assumes "spans_wf ss" and "i \<le> j" and "j < length ss"
  shows "sp_index (ss ! i) \<le> sp_index (ss ! j)" and "span_start ss i \<le> span_start ss j"
proof -
  have lt: "sp_index (ss ! a) < sp_index (ss ! b)" if "a < b" "b < length ss" for a b
    using assms(1) that by (simp add: spans_wf_def sorted_wrt_iff_nth_less)
  have nn: "0 \<le> sp_index (ss ! a)" if "a < length ss" for a
    using lt [of 0 a] assms(1) that by (cases a) (auto simp: spans_wf_def hd_conv_nth)
  show "sp_index (ss ! i) \<le> sp_index (ss ! j)"
    using lt [of i j] assms(2,3) by (cases "i = j") auto
  show "span_start ss i \<le> span_start ss j"
    using lt [of "i - 1" "j - 1"] nn [of "j - 1"] assms(2,3)
    by (cases "i = j"; cases "i = 0") (auto simp: span_start_def less_imp_le)
qed

interpretation index_search: search_direction
  "index_direction :: (int, 'b span_scheme) direction_provider" "\<lambda>ss k. spans_wf ss"
proof
  fix ss :: "'b span_scheme list" and k i j
  assume "spans_wf ss" "i \<le> j" "j < length ss"
  with spans_wf_mono [of ss i j]
  show "dir_at index_direction ss k j \<le> dir_at index_direction ss k i"
    by (auto simp: index_dir_at)
qed (simp add: index_dir_at)

definition positions_wf :: "custom_field \<Rightarrow> dspan list \<Rightarrow> bool" where
  "positions_wf f ss \<longleftrightarrow> sorted (map (\<lambda>s. data_field f (sp_data s)) ss) \<and>
     (\<forall>s \<in> set ss. 0 \<le> data_field f (sp_data s))"

definition field_start :: "custom_field \<Rightarrow> dspan list \<Rightarrow> nat \<Rightarrow> int" where
  "field_start f ss i = (if i = 0 then 0 else data_field f (sp_data (ss ! (i - 1))))"

definition field_end :: "custom_field \<Rightarrow> dspan list \<Rightarrow> nat \<Rightarrow> int" where
  "field_end f ss i =
     data_field f (sp_data (ss ! i)) - (if Suc i < length ss then 1 else 0)"

lemma custom_dir_at:
  assumes "i < length ss"
  shows "dir_at (custom_direction f) ss v i =
    (if v < of_int (field_start f ss i) then -1
     else if of_int (field_end f ss i) < v then 1 else 0)"
proof -
  have next_iff: "js_nth ss (int i + 1) = (if Suc i < length ss then Some (ss ! Suc i) else None)"
    by (auto simp: js_nth_def nat_add_distrib)
  show ?thesis
  proof (cases i)
    case 0
    with next_iff show ?thesis
      by (simp add: dir_at_def custom_direction_def field_start_def field_end_def split: if_splits)
  next
    case (Suc j)
    with assms next_iff show ?thesis
      by (simp add: dir_at_def custom_direction_def field_start_def field_end_def split: if_splits)
  qed
qed

lemma positions_mono:
  assumes "positions_wf f ss" and "i \<le> j" and "j < length ss"
  shows "field_start f ss i \<le> field_start f ss j" and "field_end f ss i \<le> field_end f ss j"
proof -
  have le: "data_field f (sp_data (ss ! a)) \<le> data_field f (sp_data (ss ! b))"
    if "a \<le> b" "b < length ss" for a b
    using assms(1) that sorted_nth_mono [of "map (\<lambda>s. data_field f (sp_data s)) ss" a b]
    by (simp add: positions_wf_def)
  have nn: "0 \<le> data_field f (sp_data (ss ! a))" if "a < length ss" for a
    using assms(1) that by (simp add: positions_wf_def)
  show "field_start f ss i \<le> field_start f ss j"
    using le [of "i - 1" "j - 1"] nn [of "j - 1"] assms(2,3) by (auto simp: field_start_def)
  show "field_end f ss i \<le> field_end f ss j"
    using le [of i j] assms(2,3) by (auto simp: field_end_def)
qed

interpretation field_search: search_direction
  "custom_direction f" "\<lambda>ss (v :: num). positions_wf f ss"
proof
  fix ss :: "dspan list" and v i j
  assume "positions_wf f ss" "i \<le> j" "j < length ss"
  then have "(of_int (field_start f ss i) :: num) \<le> of_int (field_start f ss j)"
    and "(of_int (field_end f ss i) :: num) \<le> of_int (field_end f ss j)"
    using positions_mono by simp_all
  then show "dir_at (custom_direction f) ss v j \<le> dir_at (custom_direction f) ss v i"
    using \<open>i \<le> j\<close> \<open>j < length ss\<close> by (auto simp: custom_dir_at)
qed (simp add: custom_dir_at)

subsection \<open>Properties of span lists\<close>

text \<open>Reading the core's encoding of a list of spans gives back the list.\<close>

theorem spans_roundtrip:
  assumes "ss \<noteq> []"
  shows "SpanList_load (encode_spans ss) old = (True, ss)"
  using parse_encode_spans [OF assms] by (simp add: SpanList_load_def)

theorem spans_roundtrip_witness:
  "SpanList_load (encode_spans [\<lparr>sp_index = 9, sp_value = 255\<rparr>, \<lparr>sp_index = 1023, sp_value = 300\<rparr>]) [] =
    (True, [\<lparr>sp_index = 9, sp_value = 255\<rparr>, \<lparr>sp_index = 1023, sp_value = 300\<rparr>])"
  using spans_roundtrip [of "[\<lparr>sp_index = 9, sp_value = 255\<rparr>, \<lparr>sp_index = 1023, sp_value = 300\<rparr>]" "[]"]
  by simp

text \<open>
  Reading the core's encoding of a boolean span list gives back the ends and the
  start bit.
\<close>

theorem bools_roundtrip:
  assumes "bs_spanlist b \<noteq> []"
  shows "BoolSpanList_load (encode_bools b) old = (True, b)"
  using parse_encode_bools [OF assms] by (simp add: BoolSpanList_load_def)

text \<open>
  C9. The union of two boolean span lists with the same last element is well formed, ends
  at that element, and its bit at every index is the disjunction of the two bits.
\<close>

theorem union_pointwise:
  assumes "bools_wf a" and "bools_wf b" and "last (bs_spanlist a) = last (bs_spanlist b)"
  shows "\<exists>r. BoolSpanList_union a b = Some r \<and> bools_wf r \<and>
    last (bs_spanlist r) = last (bs_spanlist a) \<and> (\<forall>i. bool_at r i \<longleftrightarrow> bool_at a i \<or> bool_at b i)"
  using union_result [OF assms] by metis

theorem union_pointwise_witness:
  "\<exists>r. BoolSpanList_union \<lparr>bs_startBit = False, bs_spanlist = [4, 6, 19]\<rparr>
      \<lparr>bs_startBit = True, bs_spanlist = [1, 5, 9, 19]\<rparr> = Some r \<and> bools_wf r \<and>
    last (bs_spanlist r) = 19 \<and>
    (\<forall>i. bool_at r i \<longleftrightarrow> bool_at \<lparr>bs_startBit = False, bs_spanlist = [4, 6, 19]\<rparr> i \<or>
      bool_at \<lparr>bs_startBit = True, bs_spanlist = [1, 5, 9, 19]\<rparr> i)"
  using union_pointwise [of "\<lparr>bs_startBit = False, bs_spanlist = [4, 6, 19]\<rparr>"
      "\<lparr>bs_startBit = True, bs_spanlist = [1, 5, 9, 19]\<rparr>"]
  by (simp add: bools_wf_def)

text \<open>
  Zeroing the sizes of a span list by a boolean span list with the same last element
  gives a well-formed list with the same last element, whose value is 0 where the bit is
  set and unchanged elsewhere.
\<close>

theorem zeroing_pointwise:
  assumes "spans_wf ss" and "bools_wf b" and "same_end ss b"
  shows "\<exists>r. SpanList_applyZeroValues ss (Some b) = Inr (Some r) \<and> spans_wf r \<and>
    sp_index (last r) = sp_index (last ss) \<and>
    (\<forall>i. value_at r i = (if bool_at b i then 0 else value_at ss i))"
  using zero_result [OF assms] by metis

theorem zeroing_pointwise_witness:
  "\<exists>r. SpanList_applyZeroValues [\<lparr>sp_index = 9, sp_value = 255\<rparr>, \<lparr>sp_index = 19, sp_value = 300\<rparr>]
      (Some \<lparr>bs_startBit = False, bs_spanlist = [4, 12, 19]\<rparr>) = Inr (Some r) \<and> spans_wf r \<and>
    sp_index (last r) = 19 \<and>
    (\<forall>i. value_at r i = (if bool_at \<lparr>bs_startBit = False, bs_spanlist = [4, 12, 19]\<rparr> i then 0
       else value_at [\<lparr>sp_index = 9, sp_value = 255\<rparr>, \<lparr>sp_index = 19, sp_value = 300\<rparr>] i))"
  using zeroing_pointwise [of "[\<lparr>sp_index = 9, sp_value = 255\<rparr>, \<lparr>sp_index = 19, sp_value = 300\<rparr>]"
      "\<lparr>bs_startBit = False, bs_spanlist = [4, 12, 19]\<rparr>"]
  by (simp add: spans_wf_def bools_wf_def same_end_def)

end
