(* ===== verification/Outlines.thy ===== *)
theory Outlines
  imports Span_List
begin

section \<open>Outline groups\<close>

text \<open>
  The class \<open>DimensionOutlines\<close> of \<open>browser/src/layer/tile/SheetGeometry.ts\<close>: the levels of
  row or column groups of a sheet, read from the core's encoding, and the enumeration of
  the groups that meet a range of elements. The first group of a level to report is found
  by \<open>binarySearch\<close> with its own direction provider, the third interpretation of the search
  contract.
\<close>

subsection \<open>Data and operations\<close>

record outline_entry =
  oe_start :: int
  oe_end :: int
  oe_hidden :: int
  oe_visible :: int

type_synonym outlines = "outline_entry list list"

text \<open>An entry is \<open>start:size:hidden:visible\<close>; the size becomes the last element.\<close>

definition parse_outline_entry :: "string \<Rightarrow> outline_entry option" where
  "parse_outline_entry s =
     (let entrySplits = split_on CHR '':'' s
      in if length entrySplits < 4 then None
         else case (parseInt (entrySplits ! 0), parseInt (entrySplits ! 1),
                    parseInt (entrySplits ! 2), parseInt (entrySplits ! 3)) of
            (Some st, Some size', Some h, Some v) \<Rightarrow>
              Some \<lparr>oe_start = st, oe_end = size' + (st - 1), oe_hidden = h, oe_visible = v\<rparr>
          | _ \<Rightarrow> None)"

definition parse_outline_level :: "string \<Rightarrow> outline_entry list option" where
  "parse_outline_level s =
     (let collectionSplits = split_on CHR '','' s
      in if length collectionSplits < 2 then None
         else parse_all parse_outline_entry (butlast collectionSplits))"

definition DimensionOutlines_load :: "string \<Rightarrow> outlines \<Rightarrow> bool \<times> outlines" where
  "DimensionOutlines_load encoding this =
     (let levels = split_on CHR '' '' encoding
      in if length levels < 2 then (True, [])
         else case parse_all parse_outline_level (butlast levels) of
            None \<Rightarrow> (False, this)
          | Some outlines \<Rightarrow> (True, outlines))"

definition DimensionOutlines_getLevels :: "outlines \<Rightarrow> nat" where
  "DimensionOutlines_getLevels this = length this"

definition group_direction :: "(int, outline_entry) direction_provider" where
  "group_direction elementIdx prevGroup curGroup nextGroup =
     (let direction = (if elementIdx < oe_start curGroup then -1
                       else if oe_end curGroup < elementIdx then 1 else 0)
      in if direction \<ge> 0 then direction
         else case prevGroup of
            None \<Rightarrow> 0
          | Some p \<Rightarrow> if oe_end p < elementIdx then 0 else -1)"

type_synonym group_call = "nat \<times> nat \<times> int \<times> int \<times> int"

definition level_groups :: "int \<Rightarrow> js_int \<Rightarrow> nat \<Rightarrow> outline_entry list \<Rightarrow> group_call list" where
  "level_groups start end' levelIdx groupsInLevel =
     (let startGroupIdx = binarySearch group_direction groupsInLevel start False
      in if startGroupIdx = -1 then []
         else if js_lt end' (oe_start (groupsInLevel ! nat startGroupIdx)) then []
         else
           [(levelIdx, groupIdx, oe_start g, oe_end g, oe_hidden g).
              groupIdx \<leftarrow> [nat startGroupIdx..<length groupsInLevel],
              g \<leftarrow> [groupsInLevel ! groupIdx],
              \<not> js_lt end' (oe_start g)])"

text \<open>The calls of the callback, in order; the levels are visited from the last one.\<close>

definition forEachGroupInRange :: "outlines \<Rightarrow> int \<Rightarrow> js_int \<Rightarrow> group_call list" where
  "forEachGroupInRange this start end' =
     (if this = [] \<or> js_lt end' start then []
      else concat (map (\<lambda>levelIdx. level_groups start end' levelIdx (this ! levelIdx))
             (rev [0..<length this])))"

subsection \<open>Abstract view\<close>

text \<open>The groups of a level are disjoint and in order.\<close>

definition groups_wf :: "outline_entry list \<Rightarrow> bool" where
  "groups_wf gs \<longleftrightarrow> (\<forall>g \<in> set gs. oe_start g \<le> oe_end g) \<and>
     sorted_wrt (\<lambda>a b. oe_end a < oe_start b) gs"

definition meets :: "int \<Rightarrow> int \<Rightarrow> outline_entry \<Rightarrow> bool" where
  "meets start end' g \<longleftrightarrow> oe_start g \<le> end' \<and> start \<le> oe_end g"

text \<open>The reference: every group that meets the range, levels from the last, groups in order.\<close>

definition groups_meeting :: "outlines \<Rightarrow> int \<Rightarrow> int \<Rightarrow> group_call list" where
  "groups_meeting this start end' =
     [(l, i, oe_start g, oe_end g, oe_hidden g).
        l \<leftarrow> rev [0..<length this], i \<leftarrow> [0..<length (this ! l)],
        g \<leftarrow> [this ! l ! i], meets start end' g]"

subsection \<open>The search contract\<close>

lemma group_dir_at:
  assumes "i < length gs"
  shows "dir_at group_direction gs k i =
    (if oe_start (gs ! i) \<le> k then (if oe_end (gs ! i) < k then 1 else 0)
     else if i = 0 \<or> oe_end (gs ! (i - 1)) < k then 0 else -1)"
  using assms by (cases i) (auto simp: dir_at_def group_direction_def Let_def)

lemma groups_wf_order:
  assumes "groups_wf gs" and "i < j" and "j < length gs"
  shows "oe_start (gs ! i) \<le> oe_end (gs ! i)" and "oe_end (gs ! i) < oe_start (gs ! j)"
    and "oe_start (gs ! j) \<le> oe_end (gs ! j)"
  using assms by (auto simp: groups_wf_def sorted_wrt_iff_nth_less)

lemma groups_wf_ends:
  assumes "groups_wf gs" and "i \<le> j" and "j < length gs"
  shows "oe_end (gs ! i) \<le> oe_end (gs ! j)"
  using groups_wf_order [OF assms(1), of i j] assms(2,3) by (cases "i = j") auto

interpretation group_search: search_direction group_direction "\<lambda>gs k. groups_wf gs"
proof
  fix gs :: "outline_entry list" and k i j
  assume wf: "groups_wf gs" and "i \<le> j" "j < length gs"
  show "dir_at group_direction gs k j \<le> dir_at group_direction gs k i"
  proof (cases "i = j")
    case False
    then have ij: "i < j" using \<open>i \<le> j\<close> by simp
    note o1 = groups_wf_order [OF wf ij \<open>j < length gs\<close>]
    have "oe_end (gs ! i) \<le> oe_end (gs ! (j - 1))"
      using groups_wf_ends [OF wf, of i "j - 1"] ij \<open>j < length gs\<close> by simp
    moreover have "oe_end (gs ! (j - 1)) < oe_start (gs ! j)"
      using groups_wf_order [OF wf, of "j - 1" j] ij \<open>j < length gs\<close> by simp
    ultimately show ?thesis
      using o1 ij \<open>j < length gs\<close> by (auto simp: group_dir_at)
  qed simp
qed (simp add: group_dir_at)

text \<open>The search finds the first group that does not end before \<open>start\<close>.\<close>

lemma group_search_first:
  assumes wf: "groups_wf gs"
  shows "(binarySearch group_direction gs k False = -1 \<and> (\<forall>g \<in> set gs. oe_end g < k)) \<or>
    (\<exists>n < length gs. binarySearch group_direction gs k False = int n \<and>
       k \<le> oe_end (gs ! n) \<and> (\<forall>j < n. oe_end (gs ! j) < k))"
proof (cases "\<forall>g \<in> set gs. oe_end g < k")
  case True
  have "dir_at group_direction gs k j \<noteq> 0" if "j < length gs" for j
  proof -
    have "gs ! j \<in> set gs" using that by simp
    with True wf have "oe_end (gs ! j) < k" "oe_start (gs ! j) \<le> oe_end (gs ! j)"
      by (auto simp: groups_wf_def)
    with that show ?thesis by (simp add: group_dir_at)
  qed
  with True show ?thesis using group_search.binarySearch_miss [OF wf] by blast
next
  case False
  define n where "n = (LEAST n. n < length gs \<and> k \<le> oe_end (gs ! n))"
  have "\<exists>n. n < length gs \<and> k \<le> oe_end (gs ! n)"
    using False by (metis in_set_conv_nth not_less)
  then have n: "n < length gs" "k \<le> oe_end (gs ! n)"
    unfolding n_def by (metis (mono_tags, lifting) LeastI_ex)+
  have below: "\<forall>j < n. oe_end (gs ! j) < k"
    using n(1) not_less_Least [of _ "\<lambda>n. n < length gs \<and> k \<le> oe_end (gs ! n)"]
    unfolding n_def [symmetric] by (meson not_less order_less_trans)
  then have "dir_at group_direction gs k n = 0" using n by (cases n) (auto simp: group_dir_at)
  then obtain m where m: "m < length gs" "binarySearch group_direction gs k False = int m"
      "dir_at group_direction gs k m = 0"
    using group_search.binarySearch_hit [OF wf n(1)] by metis
  have "k \<le> oe_end (gs ! m)"
  proof -
    have "oe_start (gs ! m) \<le> oe_end (gs ! m)" using wf m(1) by (simp add: groups_wf_def)
    with m(1,3) show ?thesis by (auto simp: group_dir_at split: if_splits)
  qed
  then have "n \<le> m" using below by (meson not_le)
  moreover have "\<not> n < m"
  proof
    assume "n < m"
    have "oe_end (gs ! n) \<le> oe_end (gs ! (m - 1))" "oe_end (gs ! (m - 1)) < oe_start (gs ! m)"
      using groups_wf_ends [OF wf, of n "m - 1"] groups_wf_order [OF wf, of "m - 1" m] \<open>n < m\<close> m(1)
      by simp_all
    with m n \<open>n < m\<close> show False by (auto simp: group_dir_at split: if_splits)
  qed
  ultimately have "m = n" by simp
  with m n below show ?thesis by auto
qed

lemma level_groups_meeting:
  assumes wf: "groups_wf gs"
  shows "level_groups start (Fin e) l gs =
    [(l, i, oe_start g, oe_end g, oe_hidden g).
       i \<leftarrow> [0..<length gs], g \<leftarrow> [gs ! i], meets start e g]" (is "_ = concat (map ?f _)")
  using group_search_first [OF wf, of start]
proof (elim disjE conjE exE)
  assume miss: "binarySearch group_direction gs start False = -1" and "\<forall>g \<in> set gs. oe_end g < start"
  then have "?f i = []" if "i < length gs" for i
    using that nth_mem [OF that] by (fastforce simp: meets_def)
  with miss show ?thesis by (simp add: level_groups_def)
next
  fix n
  assume n: "n < length gs" and hit: "binarySearch group_direction gs start False = int n"
    and end_n: "start \<le> oe_end (gs ! n)" and below: "\<forall>j < n. oe_end (gs ! j) < start"
  have low: "concat (map ?f [0..<n]) = []" using below by (auto simp: meets_def)
  have split: "[0..<length gs] = [0..<n] @ [n..<length gs]"
    using n upt_add_eq_append [of 0 n "length gs - n"] by simp
  have ends: "start \<le> oe_end (gs ! i)" if "i \<in> set [n..<length gs]" for i
    using groups_wf_ends [OF wf, of n i] end_n that by simp
  have high: "concat (map ?f [n..<length gs]) =
      [(l, i, oe_start g, oe_end g, oe_hidden g).
         i \<leftarrow> [n..<length gs], g \<leftarrow> [gs ! i], \<not> js_lt (Fin e) (oe_start g)]"
    by (rule arg_cong [where f = concat], rule map_cong) (use ends in \<open>auto simp: meets_def\<close>)
  show ?thesis
  proof (cases "e < oe_start (gs ! n)")
    case True
    have "e < oe_start (gs ! i)" if "i \<in> set [n..<length gs]" for i
    proof (cases "i = n")
      case False
      with that have "n < i" "i < length gs" by auto
      from groups_wf_order [OF wf this] True show ?thesis by simp
    qed (use True in simp)
    then have "?f i = []" if "i \<in> set [n..<length gs]" for i
      using that by (simp add: meets_def not_le)
    then have "\<forall>ys \<in> set (map ?f [n..<length gs]). ys = []"
      unfolding set_map by blast
    then have "concat (map ?f [n..<length gs]) = []"
      unfolding concat_eq_Nil_conv .
    then have "concat (map ?f [0..<length gs]) = []"
      unfolding split map_append concat_append low by simp
    moreover have "level_groups start (Fin e) l gs = []"
      using True hit by (simp add: level_groups_def)
    ultimately show ?thesis by (rule trans [OF _ sym, rotated])
  next
    case False
    then show ?thesis
      unfolding split map_append concat_append low high using hit by (simp add: level_groups_def)
  qed
qed

lemma forEachGroupInRange_meeting:
  assumes "\<And>gs. gs \<in> set this \<Longrightarrow> groups_wf gs" and "start \<le> e"
  shows "forEachGroupInRange this start (Fin e) = groups_meeting this start e"
  unfolding forEachGroupInRange_def groups_meeting_def
  using assms by (auto simp: level_groups_meeting intro!: arg_cong [where f = concat] map_cong)

text \<open>
  On levels of disjoint ordered groups, \<open>forEachGroupInRange\<close> reports exactly the
  groups that have an element in the range, the levels from the innermost, the groups of a
  level in order.
\<close>

theorem groups_in_range:
  assumes "\<forall>gs \<in> set this. groups_wf gs" and "start \<le> e"
  shows "forEachGroupInRange this start (Fin e) = groups_meeting this start e"
  using forEachGroupInRange_meeting [of this start e] assms by blast

definition sample_outlines :: outlines where
  "sample_outlines =
     [[\<lparr>oe_start = 2, oe_end = 4, oe_hidden = 0, oe_visible = 1\<rparr>,
       \<lparr>oe_start = 6, oe_end = 9, oe_hidden = 1, oe_visible = 0\<rparr>],
      [\<lparr>oe_start = 7, oe_end = 8, oe_hidden = 0, oe_visible = 1\<rparr>]]"

theorem groups_in_range_witness:
  "forEachGroupInRange sample_outlines 3 (Fin 7) = groups_meeting sample_outlines 3 7"
proof -
  have "\<forall>gs \<in> set sample_outlines. groups_wf gs" by (simp add: sample_outlines_def groups_wf_def)
  then show ?thesis using groups_in_range [of sample_outlines 3 7] by simp
qed

end
