(* ===== verification/Sheet_Dimension.thy ===== *)
theory Sheet_Dimension
  imports Outlines
begin

section \<open>The geometry of rows or columns\<close>

text \<open>
  The class \<open>SheetDimension\<close> of \<open>browser/src/layer/tile/SheetGeometry.ts\<close>. A dimension keeps
  the sizes of its elements in print twips, which elements are hidden or filtered, and the
  derived list of visible sizes, whose spans carry the running positions in core pixels,
  tile twips and print twips. All lookups go through that list.

  Operations that change the state return the state together with their result; an
  exception (\<open>Inl\<close>) keeps the fields assigned before it was thrown. A field that is still
  \<open>undefined\<close> after the constructor is \<open>None\<close>; the numbers set by \<open>setTileGeometryData\<close> and
  \<open>setMaxIndex\<close> start as 0, and every statement about them assumes they were set.

  The abstract view of a dimension is the size of every element; a position is the sum of
  the sizes before it (\<open>psum\<close>). The lemmas show that the span arithmetic computes these
  sums, in each of the three units.
\<close>

subsection \<open>State\<close>

datatype geometry_unit = corepixels | tiletwips | printtwips

record dimension_json =
  dj_sizes :: "string option"
  dj_hidden :: "string option"
  dj_filtered :: "string option"
  dj_groups :: "string option"

record sheet_dimension =
  sd_sizes :: "span list"
  sd_hidden :: bool_span_list
  sd_filtered :: bool_span_list
  sd_outlines :: outlines
  sd_visibleSizes :: "dspan list option"
  sd_invisibleSpanList :: "bool_span_list option"
  sd_maxIndex :: int
  sd_tileSizeTwips :: "num option"
  sd_tileSizePixels :: "num option"
  sd_coreZoomFactor :: num
  sd_twipsPerCorePixel :: num
  sd_viewStartIndex :: "js_int option"
  sd_viewEndIndex :: "js_int option"

text \<open>A position and size; the position is \<open>NaN\<close> (\<open>None\<close>) when the index was.\<close>

record pos_size =
  ps_startpos :: "int option"
  ps_size :: int

record index_and_span =
  is_index :: js_int
  is_span :: "view_span option"

record group_data =
  gd_level :: string
  gd_index :: string
  gd_startPos :: string
  gd_endPos :: string
  gd_hidden :: string

definition SheetDimension_new :: sheet_dimension where
  "SheetDimension_new =
     \<lparr>sd_sizes = [], sd_hidden = BoolSpanList_new, sd_filtered = BoolSpanList_new, sd_outlines = [],
      sd_visibleSizes = None, sd_invisibleSpanList = None, sd_maxIndex = 0,
      sd_tileSizeTwips = None, sd_tileSizePixels = None, sd_coreZoomFactor = 0,
      sd_twipsPerCorePixel = 0, sd_viewStartIndex = None, sd_viewEndIndex = None\<rparr>"

subsection \<open>Updating\<close>

text \<open>
  The callback of \<open>_updatePositions\<close>; its state is the pair of running positions in core
  pixels and print twips.
\<close>

definition position_callback ::
    "num \<Rightarrow> int \<times> int \<Rightarrow> int \<Rightarrow> int \<Rightarrow> int \<Rightarrow> custom_data \<times> int \<times> int" where
  "position_callback twipsPerCorePixel st index size' spanLength =
     (let (posCorePx, posPrintTwips) = st;
          sizeCorePxOne = \<lfloor>of_int size' / twipsPerCorePixel\<rfloor>;
          posCorePx' = posCorePx + sizeCorePxOne * spanLength;
          posTileTwips = \<lfloor>of_int posCorePx' * twipsPerCorePixel\<rfloor>;
          posPrintTwips' = posPrintTwips + size' * spanLength
      in (\<lparr>sizecore = sizeCorePxOne, poscorepx = posCorePx', postiletwips = posTileTwips,
           posprinttwips = posPrintTwips'\<rparr>, posCorePx', posPrintTwips'))"

definition with_positions :: "num \<Rightarrow> 'b span_scheme list \<Rightarrow> dspan list" where
  "with_positions tpp ss = addCustomDataForEachSpan (position_callback tpp) (0, 0) ss"

definition updatePositions :: "sheet_dimension \<Rightarrow> (js_error + unit) \<times> sheet_dimension" where
  "updatePositions this =
     (case sd_visibleSizes this of
        None \<Rightarrow> (Inl TypeError, this)
      | Some ss \<Rightarrow>
          (Inr (), this\<lparr>sd_visibleSizes := Some (with_positions (sd_twipsPerCorePixel this) ss)\<rparr>))"

text \<open>
  \<open>_updateVisible\<close>: the result of \<open>applyZeroValues\<close> has no position data until
  \<open>_updatePositions\<close>, called right after it, adds them.
\<close>

definition updateVisible :: "sheet_dimension \<Rightarrow> (js_error + unit) \<times> sheet_dimension" where
  "updateVisible this =
     (let inv = BoolSpanList_union (sd_hidden this) (sd_filtered this);
          this1 = this\<lparr>sd_invisibleSpanList := inv\<rparr>
      in case SpanList_applyZeroValues (sd_sizes this1) inv of
           Inl e \<Rightarrow> (Inl e, this1)
         | Inr None \<Rightarrow> (Inl TypeError, this1\<lparr>sd_visibleSizes := None\<rparr>)
         | Inr (Some ss) \<Rightarrow>
             (Inr (), this1\<lparr>sd_visibleSizes :=
                Some (with_positions (sd_twipsPerCorePixel this1) ss)\<rparr>))"

definition load_field ::
    "string option \<Rightarrow> (string \<Rightarrow> sheet_dimension \<Rightarrow> bool \<times> sheet_dimension) \<Rightarrow>
     bool \<times> sheet_dimension \<Rightarrow> bool \<times> sheet_dimension" where
  "load_field fld ld acc =
     (case fld of
        None \<Rightarrow> acc
      | Some s \<Rightarrow> let (ok, this') = ld s (snd acc) in (fst acc \<and> ok, this'))"

definition load_sizes :: "string \<Rightarrow> sheet_dimension \<Rightarrow> bool \<times> sheet_dimension" where
  "load_sizes s this =
     (let (ok, l) = SpanList_load s (sd_sizes this) in (ok, this\<lparr>sd_sizes := l\<rparr>))"

definition load_hidden :: "string \<Rightarrow> sheet_dimension \<Rightarrow> bool \<times> sheet_dimension" where
  "load_hidden s this =
     (let (ok, l) = BoolSpanList_load s (sd_hidden this) in (ok, this\<lparr>sd_hidden := l\<rparr>))"

definition load_filtered :: "string \<Rightarrow> sheet_dimension \<Rightarrow> bool \<times> sheet_dimension" where
  "load_filtered s this =
     (let (ok, l) = BoolSpanList_load s (sd_filtered this) in (ok, this\<lparr>sd_filtered := l\<rparr>))"

definition load_groups :: "string \<Rightarrow> sheet_dimension \<Rightarrow> bool \<times> sheet_dimension" where
  "load_groups s this =
     (let (ok, l) = DimensionOutlines_load s (sd_outlines this) in (ok, this\<lparr>sd_outlines := l\<rparr>))"

definition SheetDimension_update ::
    "dimension_json \<Rightarrow> sheet_dimension \<Rightarrow> (js_error + bool) \<times> sheet_dimension" where
  "SheetDimension_update json this =
     (let (loadsOK, this') =
            load_field (dj_groups json) load_groups
              (load_field (dj_filtered json) load_filtered
                (load_field (dj_hidden json) load_hidden
                  (load_field (dj_sizes json) load_sizes (True, this))));
          regenerateVisibleSizes =
            (dj_sizes json \<noteq> None \<or> dj_hidden json \<noteq> None \<or> dj_filtered json \<noteq> None)
      in if loadsOK \<and> regenerateVisibleSizes then
           (case updateVisible this' of
              (Inl e, this'') \<Rightarrow> (Inl e, this'')
            | (Inr _, this'') \<Rightarrow> (Inr loadsOK, this''))
         else (Inr loadsOK, this'))"

definition setMaxIndex :: "int \<Rightarrow> sheet_dimension \<Rightarrow> sheet_dimension" where
  "setMaxIndex m this = this\<lparr>sd_maxIndex := m\<rparr>"

definition SheetDimension_setTileGeometryData ::
    "num \<Rightarrow> num \<Rightarrow> bool \<Rightarrow> sheet_dimension \<Rightarrow> (js_error + unit) \<times> sheet_dimension" where
  "SheetDimension_setTileGeometryData twips pixels upd this =
     (if sd_tileSizeTwips this = Some twips \<and> sd_tileSizePixels this = Some pixels then (Inr (), this)
      else
        let this' = this\<lparr>sd_tileSizeTwips := Some twips, sd_tileSizePixels := Some pixels,
              sd_coreZoomFactor := pixels * 15 / twips, sd_twipsPerCorePixel := twips / pixels\<rparr>
        in if upd then updatePositions this' else (Inr (), this'))"

subsection \<open>Lookups by index\<close>

definition getElementDataAnyFromSpanByIndex ::
    "sheet_dimension \<Rightarrow> js_int \<Rightarrow> view_span option \<Rightarrow> geometry_unit \<Rightarrow> pos_size option" where
  "getElementDataAnyFromSpanByIndex this index span_opt unit =
     (case span_opt of
        None \<Rightarrow> None
      | Some sp \<Rightarrow>
          if js_lt index (vs_start sp) \<or> js_gt index (vs_end sp) then None
          else
            let d = vs_data sp;
                startpos = (\<lambda>f. case index of Fin i \<Rightarrow> Some (f (vs_end sp - i + 1)) | _ \<Rightarrow> None);
                tpp = sd_twipsPerCorePixel this
            in Some (case unit of
                 corepixels \<Rightarrow>
                   \<lparr>ps_startpos = startpos (\<lambda>n. poscorepx d - sizecore d * n), ps_size = sizecore d\<rparr>
               | printtwips \<Rightarrow>
                   \<lparr>ps_startpos = startpos (\<lambda>n. posprinttwips d - vs_size sp * n),
                    ps_size = vs_size sp\<rparr>
               | tiletwips \<Rightarrow>
                   \<lparr>ps_startpos =
                      startpos (\<lambda>n. \<lfloor>of_int (poscorepx d - sizecore d * n) * tpp\<rfloor>),
                    ps_size = \<lfloor>of_int (sizecore d) * tpp\<rfloor>\<rparr>))"

definition visibleSpans :: "sheet_dimension \<Rightarrow> dspan list" where
  "visibleSpans this = (case sd_visibleSizes this of None \<Rightarrow> [] | Some ss \<Rightarrow> ss)"

text \<open>
  The public lookups throw when \<open>_visibleSizes\<close> is still undefined; \<open>Inr None\<close> is the
  result \<open>undefined\<close>.
\<close>

definition with_visible :: "sheet_dimension \<Rightarrow> (dspan list \<Rightarrow> js_error + 'a) \<Rightarrow> js_error + 'a" where
  "with_visible this f = (case sd_visibleSizes this of None \<Rightarrow> Inl TypeError | Some ss \<Rightarrow> f ss)"

definition getElementDataAny ::
    "sheet_dimension \<Rightarrow> int \<Rightarrow> geometry_unit \<Rightarrow> js_error + pos_size option" where
  "getElementDataAny this index unit = with_visible this (\<lambda>ss.
     Inr (getElementDataAnyFromSpanByIndex this (Fin index) (getSpanDataByIndex ss index) unit))"

text \<open>The callback of \<open>getElementData\<close> for an explicit zoom.\<close>

definition zoom_element_step :: "int \<Rightarrow> num \<Rightarrow> view_span \<Rightarrow> int \<times> int \<Rightarrow> int \<times> int" where
  "zoom_element_step index zoomScale sp st =
     (let (startpos, size') = st;
          count = vs_end sp - vs_start sp + 1;
          sizeOneCorePx = \<lfloor>of_int (vs_size sp) * zoomScale / 15\<rfloor>
      in if index > vs_end sp then (startpos + sizeOneCorePx * count, size')
         else if index \<ge> vs_start sp \<and> index \<le> vs_end sp
         then (startpos + sizeOneCorePx * (index - vs_start sp), sizeOneCorePx)
         else (startpos, size'))"

definition getElementData ::
    "sheet_dimension \<Rightarrow> int \<Rightarrow> num option \<Rightarrow> js_error + pos_size option" where
  "getElementData this index zoom =
     (case zoom of
        Some zoomScale \<Rightarrow> with_visible this (\<lambda>ss.
          let (startpos, size') =
                fold (zoom_element_step index zoomScale) (forEachSpanInRange ss 0 index) (0, 0)
          in Inr (Some \<lparr>ps_startpos = Some startpos, ps_size = size'\<rparr>))
      | None \<Rightarrow> getElementDataAny this index corepixels)"

text \<open>The calls \<open>forEachInRange\<close> makes of its callback.\<close>

definition forEachInRange ::
    "sheet_dimension \<Rightarrow> int \<Rightarrow> int \<Rightarrow> js_error + (int \<times> pos_size option) list" where
  "forEachInRange this start end' = with_visible this (\<lambda>ss. Inr
     [(index, getElementDataAnyFromSpanByIndex this (Fin index) (Some sp) corepixels).
        sp \<leftarrow> forEachSpanInRange ss start end',
        index \<leftarrow> [max (vs_start sp) start..min (vs_end sp) end']])"

text \<open>
  The for loop of \<open>forEachInCorePixelRange\<close>, for a positive step. With a step of 0 the code
  starts from \<open>NaN\<close>, since \<open>x % 0\<close> is \<open>NaN\<close>, and its loop condition is false at once.
\<close>

function grid_loop :: "int \<Rightarrow> int \<Rightarrow> int \<Rightarrow> int \<Rightarrow> (int \<times> int) list" where
  "grid_loop pos lastPos step index =
     (if pos \<le> lastPos \<and> 0 < step
      then (pos, index) # grid_loop (pos + step) lastPos step (index + 1) else [])"
  by pat_completeness auto
termination
  by (relation "measure (\<lambda>(pos, lastPos, step, index). nat (lastPos + 1 - pos))") auto

declare grid_loop.simps [simp del]

definition span_grid_lines :: "int \<Rightarrow> int \<Rightarrow> view_span \<Rightarrow> (int \<times> int) list" where
  "span_grid_lines startPix endPix sp =
     (let d = vs_data sp;
          spanFirstCorePx = poscorepx d - sizecore d * (vs_end sp - vs_start sp + 1)
      in if spanFirstCorePx < endPix \<and> poscorepx d > startPix \<and> sizecore d \<noteq> 0 then
           let firstCorePx = max spanFirstCorePx
                 (startPix + sizecore d - js_imod (startPix - spanFirstCorePx) (sizecore d));
               lastCorePx = min endPix (poscorepx d);
               index = vs_start sp + (firstCorePx - spanFirstCorePx) div sizecore d
           in grid_loop firstCorePx lastCorePx (sizecore d) index
         else [])"

definition forEachInCorePixelRange ::
    "sheet_dimension \<Rightarrow> int \<Rightarrow> int \<Rightarrow> js_error + (int \<times> int) list" where
  "forEachInCorePixelRange this startPix endPix = with_visible this (\<lambda>ss.
     Inr (concat (map (span_grid_lines startPix endPix) (forEachSpan ss))))"

subsection \<open>Lookups by position\<close>

text \<open>No span holds the position: the code falls back to the first or the last element.\<close>

definition limit_index :: "sheet_dimension \<Rightarrow> dspan list \<Rightarrow> num \<Rightarrow> index_and_span" where
  "limit_index this ss pos =
     (let index = (if pos \<ge> 0 then sd_maxIndex this else 0)
      in \<lparr>is_index = Fin index, is_span = getSpanDataByIndex ss index\<rparr>)"

definition getSpanAndIndexFromTileTwipsPos ::
    "sheet_dimension \<Rightarrow> num \<Rightarrow> js_error + index_and_span" where
  "getSpanAndIndexFromTileTwipsPos this pos = with_visible this (\<lambda>ss. Inr
     (case getSpanDataByCustomDataField ss pos F_postiletwips of
        None \<Rightarrow> limit_index this ss pos
      | Some sp \<Rightarrow>
          let elementCount = vs_end sp - vs_start sp + 1;
              posStart = of_int (poscorepx (vs_data sp) - sizecore (vs_data sp) * elementCount)
                * sd_twipsPerCorePixel this;
              posEnd = of_int (postiletwips (vs_data sp));
              sizeOne = (posEnd - posStart) / of_int elementCount;
              relativeIndex = js_floor_div (pos - posStart) sizeOne
          in \<lparr>is_index = js_add (vs_start sp) relativeIndex, is_span = Some sp\<rparr>))"

definition getIndexFromTileTwipsPos :: "sheet_dimension \<Rightarrow> num \<Rightarrow> js_error + js_int" where
  "getIndexFromTileTwipsPos this pos =
     map_sum id is_index (getSpanAndIndexFromTileTwipsPos this pos)"

definition getSpanAndIndexFromPrintTwipsPos ::
    "sheet_dimension \<Rightarrow> num \<Rightarrow> js_error + index_and_span" where
  "getSpanAndIndexFromPrintTwipsPos this pos = with_visible this (\<lambda>ss. Inr
     (case getSpanDataByCustomDataField ss pos F_posprinttwips of
        None \<Rightarrow> limit_index this ss pos
      | Some sp \<Rightarrow>
          let elementCount = vs_end sp - vs_start sp + 1;
              posStart = of_int (posprinttwips (vs_data sp) - vs_size sp * elementCount);
              sizeOne = of_int (vs_size sp);
              relativeIndex = js_floor_div (pos - posStart) sizeOne
          in \<lparr>is_index = js_add (vs_start sp) relativeIndex, is_span = Some sp\<rparr>))"

definition setViewLimits ::
    "num \<Rightarrow> num \<Rightarrow> sheet_dimension \<Rightarrow> (js_error + unit) \<times> sheet_dimension" where
  "setViewLimits startPos endPos this =
     (case getIndexFromTileTwipsPos this startPos of
        Inl e \<Rightarrow> (Inl e, this)
      | Inr i \<Rightarrow>
          let this1 = this\<lparr>sd_viewStartIndex := Some (js_max 0 i)\<rparr>
          in case getIndexFromTileTwipsPos this1 endPos of
               Inl e \<Rightarrow> (Inl e, this1)
             | Inr j \<Rightarrow> (Inr (), this1\<lparr>sd_viewEndIndex := Some (js_min (sd_maxIndex this1) j)\<rparr>))"

definition getViewElementRange :: "sheet_dimension \<Rightarrow> js_int option \<times> js_int option" where
  "getViewElementRange this = (sd_viewStartIndex this, sd_viewEndIndex this)"

definition SheetDimension_getIndexFromPos ::
    "sheet_dimension \<Rightarrow> num \<Rightarrow> geometry_unit \<Rightarrow> js_error + js_int" where
  "SheetDimension_getIndexFromPos this pos unit =
     map_sum id is_index
       (case unit of
          corepixels \<Rightarrow> getSpanAndIndexFromTileTwipsPos this (pos * sd_twipsPerCorePixel this)
        | tiletwips \<Rightarrow> getSpanAndIndexFromTileTwipsPos this pos
        | printtwips \<Rightarrow> getSpanAndIndexFromPrintTwipsPos this pos)"

text \<open>Reading a property of an undefined position record throws.\<close>

definition posOf :: "pos_size option \<Rightarrow> js_error + pos_size" where
  "posOf p = (case p of None \<Rightarrow> Inl TypeError | Some q \<Rightarrow> Inr q)"

definition getSnapPos ::
    "sheet_dimension \<Rightarrow> num \<Rightarrow> geometry_unit \<Rightarrow> js_error + int option" where
  "getSnapPos this pos unit =
     (case (case unit of
              corepixels \<Rightarrow> getSpanAndIndexFromTileTwipsPos this (pos * sd_twipsPerCorePixel this)
            | tiletwips \<Rightarrow> getSpanAndIndexFromTileTwipsPos this pos
            | printtwips \<Rightarrow> getSpanAndIndexFromPrintTwipsPos this pos) of
        Inl e \<Rightarrow> Inl e
      | Inr r \<Rightarrow> map_sum id ps_startpos
          (posOf (getElementDataAnyFromSpanByIndex this (is_index r) (is_span r) unit)))"

definition SheetDimension_getSize :: "sheet_dimension \<Rightarrow> geometry_unit \<Rightarrow> js_error + int option" where
  "SheetDimension_getSize this unit =
     (case getElementDataAny this (sd_maxIndex this) unit of
        Inl e \<Rightarrow> Inl e
      | Inr None \<Rightarrow> Inr None
      | Inr (Some ps) \<Rightarrow> Inr (map_option (\<lambda>p. p + ps_size ps) (ps_startpos ps)))"

subsection \<open>Conversions between units\<close>

definition offset_position :: "int option \<Rightarrow> int option \<Rightarrow> num \<Rightarrow> num option" where
  "offset_position source target pos =
     (case (source, target) of
        (Some a, Some b) \<Rightarrow> Some (of_int b + (pos - of_int a)) | _ \<Rightarrow> None)"

definition getPrintTwipsPosFromTile :: "sheet_dimension \<Rightarrow> num \<Rightarrow> js_error + num option" where
  "getPrintTwipsPosFromTile this posTT =
     (case getSpanAndIndexFromTileTwipsPos this posTT of
        Inl e \<Rightarrow> Inl e
      | Inr el \<Rightarrow>
          (case (posOf (getElementDataAnyFromSpanByIndex this (is_index el) (is_span el) tiletwips),
                 posOf (getElementDataAnyFromSpanByIndex this (is_index el) (is_span el) printtwips)) of
             (Inr tt, Inr pt) \<Rightarrow> Inr (offset_position (ps_startpos tt) (ps_startpos pt) posTT)
           | _ \<Rightarrow> Inl TypeError))"

text \<open>The callback of \<open>getTileTwipsPosFromPrint\<close> for an explicit zoom: \<open>(posTT, posPTInc)\<close>.\<close>

definition tile_twips_step :: "num \<Rightarrow> num \<Rightarrow> view_span \<Rightarrow> num \<times> num \<Rightarrow> num \<times> num" where
  "tile_twips_step posPT zoomScale sp st =
     (let (posTT, posPTInc) = st;
          count = vs_end sp - vs_start sp + 1;
          sizeSpanPT = of_int (vs_size sp * count);
          sizeOneCorePx = \<lfloor>of_int (vs_size sp) * zoomScale / 15\<rfloor>;
          sizeSpanTT = \<lfloor>of_int (sizeOneCorePx * count * 15) / zoomScale\<rfloor>
      in if posPTInc \<ge> posPT then (posTT, posPTInc)
         else if posPTInc + sizeSpanPT < posPT then (posTT + of_int sizeSpanTT, posPTInc + sizeSpanPT)
         else
           let remainingPT = posPT - posPTInc;
               elemCountFinalSpan = \<lfloor>remainingPT / of_int (vs_size sp)\<rfloor>;
               extra = remainingPT - of_int (elemCountFinalSpan * vs_size sp)
           in (posTT + (of_int \<lfloor>of_int (elemCountFinalSpan * sizeSpanTT) / of_int count :: num\<rfloor> + extra),
               posPT))"

definition getTileTwipsPosFromPrint ::
    "sheet_dimension \<Rightarrow> num \<Rightarrow> num option \<Rightarrow> js_error + num option" where
  "getTileTwipsPosFromPrint this posPT zoom =
     (case zoom of
        Some zoomScale \<Rightarrow> with_visible this (\<lambda>ss.
          Inr (Some (fst (fold (tile_twips_step posPT zoomScale) (forEachSpan ss) (0, 0)))))
      | None \<Rightarrow>
          (case getSpanAndIndexFromPrintTwipsPos this posPT of
             Inl e \<Rightarrow> Inl e
           | Inr el \<Rightarrow>
               (case (posOf (getElementDataAnyFromSpanByIndex this (is_index el) (is_span el) tiletwips),
                      posOf (getElementDataAnyFromSpanByIndex this (is_index el) (is_span el) printtwips)) of
                  (Inr tt, Inr pt) \<Rightarrow> Inr (offset_position (ps_startpos pt) (ps_startpos tt) posPT)
                | _ \<Rightarrow> Inl TypeError)))"

text \<open>A \<open>NaN\<close> position stays \<open>NaN\<close>: every comparison with it is false.\<close>

definition SheetDimension_getTileTwipsAtZoom ::
    "sheet_dimension \<Rightarrow> num \<Rightarrow> num \<Rightarrow> js_error + num option" where
  "SheetDimension_getTileTwipsAtZoom this posTT zoomScale =
     (case getPrintTwipsPosFromTile this posTT of
        Inl e \<Rightarrow> Inl e
      | Inr None \<Rightarrow> Inr None
      | Inr (Some posPT) \<Rightarrow> getTileTwipsPosFromPrint this posPT (Some zoomScale))"

text \<open>
  The callbacks of the two zoom conversions; the state is the converted position and the
  remainder still to convert.
\<close>

definition convert_step :: "int \<Rightarrow> int \<Rightarrow> int \<Rightarrow> num \<times> num \<Rightarrow> num \<times> num" where
  "convert_step elementCount sizeFrom sizeTo st =
     (let (done', rem) = st
      in if rem < of_int sizeFrom then (done', rem)
         else if rem \<ge> of_int (sizeFrom * elementCount)
         then (done' + of_int (sizeTo * elementCount), rem - of_int (sizeFrom * elementCount))
         else let elems = \<lfloor>rem / of_int sizeFrom\<rfloor>
              in (done' + of_int (elems * sizeTo), rem - of_int (elems * sizeFrom)))"

definition SheetDimension_getCorePixelsAtZoom ::
    "sheet_dimension \<Rightarrow> num \<Rightarrow> num \<Rightarrow> js_error + num" where
  "SheetDimension_getCorePixelsAtZoom this posCP zoomScale = with_visible this (\<lambda>ss.
     let (posCPZ, posCPRem) = fold (\<lambda>sp.
           convert_step (vs_end sp - vs_start sp + 1) (sizecore (vs_data sp))
             \<lfloor>of_int (vs_size sp) / 15 * zoomScale\<rfloor>) (forEachSpan ss) (0, posCP)
     in Inr (posCPZ + posCPRem * zoomScale / sd_coreZoomFactor this))"

definition SheetDimension_getCorePixelsFromZoom ::
    "sheet_dimension \<Rightarrow> num \<Rightarrow> num \<Rightarrow> js_error + num" where
  "SheetDimension_getCorePixelsFromZoom this posCPZ zoomScale = with_visible this (\<lambda>ss.
     let (posCP, posCPZRem) = fold (\<lambda>sp.
           convert_step (vs_end sp - vs_start sp + 1) \<lfloor>of_int (vs_size sp) / 15 * zoomScale\<rfloor>
             (sizecore (vs_data sp))) (forEachSpan ss) (0, posCPZ)
     in Inr (posCP + posCPZRem * sd_coreZoomFactor this / zoomScale))"

text \<open>Positions of a range; \<open>NaN\<close> compares as false, so the correction is skipped.\<close>

definition getTileTwipsRangeFromPrint ::
    "sheet_dimension \<Rightarrow> num \<Rightarrow> num \<Rightarrow> js_error + int option \<times> int option" where
  "getTileTwipsRangeFromPrint this posStartPT posEndPT =
     (case getSpanAndIndexFromPrintTwipsPos this posStartPT of
        Inl e \<Rightarrow> Inl e
      | Inr startElement \<Rightarrow>
          (case posOf (getElementDataAnyFromSpanByIndex this (is_index startElement)
                  (is_span startElement) tiletwips) of
             Inl e \<Rightarrow> Inl e
           | Inr startData \<Rightarrow>
               if posStartPT = posEndPT then
                 Inr (ps_startpos startData,
                   map_option (\<lambda>p. p + \<lfloor>sd_twipsPerCorePixel this\<rfloor>) (ps_startpos startData))
               else
                 (case getSpanAndIndexFromPrintTwipsPos this posEndPT of
                    Inl e \<Rightarrow> Inl e
                  | Inr endElement \<Rightarrow>
                      (case posOf (getElementDataAnyFromSpanByIndex this (is_index endElement)
                              (is_span endElement) tiletwips) of
                         Inl e \<Rightarrow> Inl e
                       | Inr endData \<Rightarrow>
                           let startPos = ps_startpos startData;
                               endPos = map_option (\<lambda>p. p + ps_size endData) (ps_startpos endData)
                           in Inr (startPos,
                                case (startPos, endPos) of
                                  (Some a, Some b) \<Rightarrow> if b < a then startPos else endPos
                                | _ \<Rightarrow> endPos)))))"

subsection \<open>Groups in view\<close>

definition getGroupLevels :: "sheet_dimension \<Rightarrow> nat" where
  "getGroupLevels this = DimensionOutlines_getLevels (sd_outlines this)"

definition group_data_of :: "sheet_dimension \<Rightarrow> group_call \<Rightarrow> js_error + group_data" where
  "group_data_of this call =
     (let (levelIdx, groupIdx, start, end', hidden) = call
      in case (getElementData this start None, getElementData this end' None) of
           (Inr (Some startData), Inr (Some endData)) \<Rightarrow>
             (case (ps_startpos startData, ps_startpos endData) of
                (Some a, Some b) \<Rightarrow>
                  Inr \<lparr>gd_level = show_int (int levelIdx + 1), gd_index = show_int (int groupIdx),
                    gd_startPos = show_int a, gd_endPos = show_int (b + ps_size endData),
                    gd_hidden = (if hidden \<noteq> 0 then ''1'' else ''0'')\<rparr>
              | _ \<Rightarrow> Inl TypeError)
         | _ \<Rightarrow> Inl TypeError)"

fun collect_sum :: "('a \<Rightarrow> js_error + 'b) \<Rightarrow> 'a list \<Rightarrow> js_error + 'b list" where
  "collect_sum f [] = Inr []"
| "collect_sum f (x # xs) =
     (case f x of Inl e \<Rightarrow> Inl e | Inr y \<Rightarrow> map_sum id ((#) y) (collect_sum f xs))"

definition getGroupsDataInView :: "sheet_dimension \<Rightarrow> js_error + group_data list" where
  "getGroupsDataInView this =
     (if getGroupLevels this = 0 then Inr []
      else case sd_viewEndIndex this of
             None \<Rightarrow> Inr []
           | Some e \<Rightarrow> collect_sum (group_data_of this) (forEachGroupInRange (sd_outlines this) 0 e))"

end
