(* ===== verification/Dimension_Positions.thy ===== *)
theory Dimension_Positions
  imports Sheet_Dimension
begin

section \<open>Positions are sums of sizes\<close>

text \<open>
  The facts that connect the span arithmetic of \<open>Sheet_Dimension\<close> with its abstract view:
  the position of an element is the sum of the sizes of the elements before it. The
  invariant \<open>dim_ok\<close> says that the position data stored in the spans are these sums; every
  lookup is computed from it.
\<close>

subsection \<open>Sums of sizes\<close>

definition psum :: "(int \<Rightarrow> int) \<Rightarrow> int \<Rightarrow> int" where
  "psum f i = (\<Sum>j<nat i. f (int j))"

lemma psum_0 [simp]: "psum f 0 = 0"
  by (simp add: psum_def)

lemma psum_step: "0 \<le> i \<Longrightarrow> psum f (i + 1) = psum f i + f i"
  by (simp add: psum_def nat_add_distrib)

lemma psum_extend:
  assumes "0 \<le> a" and "a \<le> b" and "\<And>j. a \<le> j \<Longrightarrow> j < b \<Longrightarrow> f j = c"
  shows "psum f b = psum f a + c * (b - a)"
  using assms(2,3)
proof (induction b rule: int_ge_induct)
  case (step b)
  have "psum f b = psum f a + c * (b - a)" and "f b = c" using step by auto
  then show ?case using assms(1) step.hyps psum_step [of b f] by (simp add: algebra_simps)
qed simp

lemma psum_mono:
  assumes "\<And>j. 0 \<le> f j" and "a \<le> b"
  shows "psum f a \<le> psum f b"
  unfolding psum_def by (rule sum_mono2) (use assms in auto)

lemma psum_nonneg: "(\<And>j. 0 \<le> f j) \<Longrightarrow> 0 \<le> psum f a"
  unfolding psum_def by (rule sum_nonneg)

lemma psum_cong: "(\<And>j. 0 \<le> j \<Longrightarrow> j < a \<Longrightarrow> f j = g j) \<Longrightarrow> psum f a = psum g a"
  unfolding psum_def by (rule sum.cong) auto

subsection \<open>Searching a well-formed list\<close>

lemma value_at_span:
  assumes "n < length ss" and "span_start ss n \<le> k" and "k \<le> sp_index (ss ! n)"
    and "spans_wf ss"
  shows "value_at ss k = sp_value (ss ! n)"
proof -
  have "\<And>j. j < n \<Longrightarrow> sp_index (ss ! j) < k"
  proof -
    fix j assume "j < n"
    then have "sp_index (ss ! j) \<le> sp_index (ss ! (n - 1))"
      using spans_wf_mono(1) [OF assms(4), of j "n - 1"] assms(1) by simp
    then show "sp_index (ss ! j) < k" using assms(2) \<open>j < n\<close> by (simp add: span_start_def)
  qed
  then show ?thesis
    using assms(1,3)
  proof (induction ss arbitrary: n)
    case (Cons s ss)
    show ?case
    proof (cases n)
      case 0
      with Cons.prems show ?thesis by simp
    next
      case (Suc m)
      have "sp_index s < k" using Cons.prems(1) [of 0] Suc by simp
      moreover have "value_at ss k = sp_value (ss ! m)"
        using Cons.IH [of m] Cons.prems Suc by fastforce
      ultimately show ?thesis using Suc by simp
    qed
  qed simp
qed

lemma span_containing:
  assumes wf: "spans_wf ss" and "0 \<le> k" and "k \<le> sp_index (last ss)"
  obtains n where "n < length ss" and "span_start ss n \<le> k" and "k \<le> sp_index (ss ! n)"
proof -
  define n where "n = (LEAST n. k \<le> sp_index (ss ! n))"
  have ne: "ss \<noteq> []" using wf by (simp add: spans_wf_def)
  then have last: "k \<le> sp_index (ss ! (length ss - 1))" using assms(3) by (simp add: last_conv_nth)
  have n: "k \<le> sp_index (ss ! n)" 
    unfolding n_def by (rule LeastI [where P = "\<lambda>n. k \<le> sp_index (ss ! n)", OF last])
  have "n \<le> length ss - 1" 
    unfolding n_def by (rule Least_le [where P = "\<lambda>n. k \<le> sp_index (ss ! n)", OF last])
  then have "n < length ss" using ne by (cases ss) auto
  moreover have "span_start ss n \<le> k"
    using not_less_Least [of "n - 1" "\<lambda>n. k \<le> sp_index (ss ! n)"] assms(2)
    by (cases n) (auto simp: span_start_def n_def [symmetric])
  ultimately show thesis using that n by blast
qed

lemma span_unique:
  assumes wf: "spans_wf ss" and "m < length ss" "n < length ss"
    and "span_start ss m \<le> k" "k \<le> sp_index (ss ! m)" "span_start ss n \<le> k" "k \<le> sp_index (ss ! n)"
  shows "m = n"
proof (rule ccontr)
  assume "m \<noteq> n"
  have before: "sp_index (ss ! a) < span_start ss b" if "a < b" "b < length ss" for a b
    using spans_wf_mono(1) [OF wf, of a "b - 1"] that by (simp add: span_start_def)
  from \<open>m \<noteq> n\<close> before [of m n] before [of n m] assms(2-) show False by (cases "m < n") auto
qed

lemma searchByIndex_hit:
  assumes wf: "spans_wf ss" and n: "n < length ss" "span_start ss n \<le> k" "k \<le> sp_index (ss ! n)"
  shows "searchByIndex ss k = int n"
proof -
  have "dir_at index_direction ss k n = 0" using n by (simp add: index_dir_at)
  then obtain m where m: "m < length ss" "searchByIndex ss k = int m"
      "dir_at index_direction ss k m = 0"
    unfolding searchByIndex_def using index_search.binarySearch_hit [OF wf n(1)] by metis
  then have "m = n" using span_unique [OF wf m(1) n(1), of k] n by (auto simp: index_dir_at split: if_splits)
  with m show ?thesis by simp
qed

lemma searchByIndex_miss:
  assumes wf: "spans_wf ss" and out: "k < 0 \<or> sp_index (last ss) < k"
  shows "searchByIndex ss k = -1"
  unfolding searchByIndex_def
proof (rule index_search.binarySearch_miss [OF wf])
  fix j assume j: "j < length ss"
  have "0 \<le> span_start ss j"
    using spans_wf_mono(2) [OF wf, of 0 j] j by (simp add: span_start_def)
  moreover have "sp_index (ss ! j) \<le> sp_index (last ss)"
    using spans_wf_mono(1) [OF wf, of j "length ss - 1"] j
    by (subst last_conv_nth) auto
  ultimately show "dir_at index_direction ss k j \<noteq> 0" using out j by (auto simp: index_dir_at)
qed

text \<open>The data of the span that \<open>getSpanDataByIndex\<close> finds.\<close>

lemma getSpanData_simps [simp]:
  "vs_index (getSpanData ss n) = sp_index (ss ! n)" "vs_value (getSpanData ss n) = sp_value (ss ! n)"
  "vs_data (getSpanData ss n) = sp_data (ss ! n)" "vs_start (getSpanData ss n) = span_start ss n"
  "vs_end (getSpanData ss n) = sp_index (ss ! n)" "vs_size (getSpanData ss n) = sp_value (ss ! n)"
  by (simp_all add: getSpanData_def span_start_def Let_def)

subsection \<open>The position data\<close>

definition core_size :: "num \<Rightarrow> (int \<Rightarrow> int) \<Rightarrow> int \<Rightarrow> int" where
  "core_size tpp f j = \<lfloor>of_int (f j) / tpp\<rfloor>"

definition span_positions :: "num \<Rightarrow> (int \<Rightarrow> int) \<Rightarrow> 'b span_scheme \<Rightarrow> custom_data" where
  "span_positions tpp f s =
     (let c = psum (core_size tpp f) (sp_index s + 1)
      in \<lparr>sizecore = \<lfloor>of_int (sp_value s) / tpp\<rfloor>, poscorepx = c,
          postiletwips = \<lfloor>of_int c * tpp\<rfloor>, posprinttwips = psum f (sp_index s + 1)\<rparr>)"

lemma add_positions:
  assumes "-1 \<le> prev" and "sorted_wrt (<) (prev # map sp_index ss)"
    and "\<And>i. prev < i \<Longrightarrow> ss \<noteq> [] \<Longrightarrow> i \<le> sp_index (last ss) \<Longrightarrow> f i = value_at ss i"
  shows "add_custom_data (position_callback tpp)
      (psum (core_size tpp f) (prev + 1), psum f (prev + 1)) prev ss =
    map (\<lambda>s. \<lparr>sp_index = sp_index s, sp_value = sp_value s, sp_data = span_positions tpp f s\<rparr>) ss"
  using assms
proof (induction ss arbitrary: prev)
  case (Cons s ss)
  have lt: "prev < sp_index s" and sorted: "sorted_wrt (<) (sp_index s # map sp_index ss)"
    using Cons.prems(2) by auto
  have le_last: "sp_index s \<le> sp_index (last (s # ss))"
    using sorted by (auto intro: less_imp_le)
  have const: "f j = sp_value s" if "prev + 1 \<le> j" "j < sp_index s + 1" for j
    using Cons.prems(3) [of j] that le_last by auto
  have core: "psum (core_size tpp f) (sp_index s + 1) =
      psum (core_size tpp f) (prev + 1) + \<lfloor>of_int (sp_value s) / tpp\<rfloor> * (sp_index s - prev)"
    using psum_extend [of "prev + 1" "sp_index s + 1" "core_size tpp f"] Cons.prems(1) lt const
    by (simp add: core_size_def)
  have print: "psum f (sp_index s + 1) = psum f (prev + 1) + sp_value s * (sp_index s - prev)"
    using psum_extend [of "prev + 1" "sp_index s + 1" f] Cons.prems(1) lt const by simp
  have rest: "f i = value_at ss i" if "sp_index s < i" "ss \<noteq> []" "i \<le> sp_index (last ss)" for i
    using Cons.prems(3) [of i] that lt by auto
  have "-1 \<le> sp_index s" using Cons.prems(1) lt by simp
  note IH = Cons.IH [OF this sorted rest]
  have "position_callback tpp (psum (core_size tpp f) (prev + 1), psum f (prev + 1))
      (sp_index s) (sp_value s) (sp_index s - prev) =
    (span_positions tpp f s, psum (core_size tpp f) (sp_index s + 1), psum f (sp_index s + 1))"
    by (simp add: position_callback_def span_positions_def core print Let_def)
  with IH show ?case by simp
qed simp

lemma with_positions_eq:
  assumes "spans_wf ss"
  shows "with_positions tpp ss =
    map (\<lambda>s. \<lparr>sp_index = sp_index s, sp_value = sp_value s,
              sp_data = span_positions tpp (value_at ss) s\<rparr>) ss"
proof -
  have "sorted_wrt (<) (-1 # map sp_index ss)"
    using assms sorted_wrt_hd_min [of "map sp_index ss"] by (force simp: spans_wf_def hd_map)
  from add_positions [of "-1" ss "value_at ss" tpp, OF _ this]
  show ?thesis by (simp add: with_positions_def addCustomDataForEachSpan_def)
qed

text \<open>The invariant of a dimension that has been updated.\<close>

definition positions_ok :: "num \<Rightarrow> dspan list \<Rightarrow> bool" where
  "positions_ok tpp ss \<longleftrightarrow> (\<forall>s \<in> set ss. sp_data s = span_positions tpp (value_at ss) s)"

definition sizes_ok :: "'b span_scheme list \<Rightarrow> bool" where
  "sizes_ok ss \<longleftrightarrow> (\<forall>s \<in> set ss. 0 \<le> sp_value s)"

definition dim_ok :: "sheet_dimension \<Rightarrow> bool" where
  "dim_ok this \<longleftrightarrow> 0 < sd_twipsPerCorePixel this \<and>
     (case sd_visibleSizes this of
        None \<Rightarrow> False
      | Some ss \<Rightarrow> spans_wf ss \<and> sizes_ok ss \<and> positions_ok (sd_twipsPerCorePixel this) ss)"

lemma value_at_map_span:
  assumes "\<And>s. sp_index (g s) = sp_index s" and "\<And>s. sp_value (g s) = sp_value s"
  shows "value_at (map g ss) i = value_at ss i"
  by (induction ss) (use assms in auto)

lemma with_positions_ok:
  assumes "spans_wf ss"
  shows "spans_wf (with_positions tpp ss)" "positions_ok tpp (with_positions tpp ss)"
    "value_at (with_positions tpp ss) = value_at ss"
    "sp_index (last (with_positions tpp ss)) = sp_index (last ss)"
    "sizes_ok ss \<Longrightarrow> sizes_ok (with_positions tpp ss)"
proof -
  let ?g = "\<lambda>s. \<lparr>sp_index = sp_index s, sp_value = sp_value s,
              sp_data = span_positions tpp (value_at ss) s\<rparr>"
  note eq = with_positions_eq [OF assms, of tpp]
  have ne: "ss \<noteq> []" using assms by (simp add: spans_wf_def)
  show v: "value_at (with_positions tpp ss) = value_at ss"
    unfolding eq by (rule ext, rule value_at_map_span) simp_all
  have idx: "map sp_index (with_positions tpp ss) = map sp_index ss"
    unfolding eq by (simp add: o_def)
  then show "spans_wf (with_positions tpp ss)"
    using assms unfolding spans_wf_def by (metis hd_map map_is_Nil_conv)
  show "positions_ok tpp (with_positions tpp ss)"
    unfolding positions_ok_def v unfolding eq by (auto simp: span_positions_def)
  show "sp_index (last (with_positions tpp ss)) = sp_index (last ss)"
    unfolding eq using ne by (simp add: last_map)
  show "sizes_ok ss \<Longrightarrow> sizes_ok (with_positions tpp ss)"
    unfolding eq by (auto simp: sizes_ok_def)
qed

lemma value_at_nonneg: "sizes_ok ss \<Longrightarrow> 0 \<le> value_at ss i"
  by (induction ss) (auto simp: sizes_ok_def)

lemma core_size_nonneg: "sizes_ok ss \<Longrightarrow> 0 < tpp \<Longrightarrow> 0 \<le> core_size tpp (value_at ss) i"
  by (simp add: core_size_def value_at_nonneg)

subsection \<open>The operations that establish the invariant\<close>

text \<open>The size of an element as the user sees it: zero when it is hidden or filtered.\<close>

definition shown_size :: "sheet_dimension \<Rightarrow> int \<Rightarrow> int" where
  "shown_size this i =
     (if bool_at (sd_hidden this) i \<or> bool_at (sd_filtered this) i then 0
      else value_at (sd_sizes this) i)"

definition loaded_ok :: "sheet_dimension \<Rightarrow> bool" where
  "loaded_ok this \<longleftrightarrow> spans_wf (sd_sizes this) \<and> sizes_ok (sd_sizes this) \<and>
     bools_wf (sd_hidden this) \<and> bools_wf (sd_filtered this) \<and>
     same_end (sd_sizes this) (sd_hidden this) \<and> same_end (sd_sizes this) (sd_filtered this)"

lemma span_start_le:
  assumes "spans_wf ss" and "n < length ss"
  shows "span_start ss n \<le> sp_index (ss ! n)" and "0 \<le> span_start ss n"
proof -
  have "sp_index (ss ! (n - 1)) < sp_index (ss ! n)" if "0 < n"
    using assms that by (simp add: spans_wf_def sorted_wrt_iff_nth_less)
  moreover have "0 \<le> sp_index (ss ! 0)" using assms by (auto simp: spans_wf_def hd_conv_nth)
  ultimately show "span_start ss n \<le> sp_index (ss ! n)"
    by (cases "n = 0") (auto simp: span_start_def)
  show "0 \<le> span_start ss n"
    using spans_wf_mono(2) [OF assms(1), of 0 n] assms(2) by (simp add: span_start_def)
qed

lemma value_at_elem:
  "spans_wf ss \<Longrightarrow> s \<in> set ss \<Longrightarrow> value_at ss (sp_index s) = sp_value s"
proof -
  assume wf: "spans_wf ss" and "s \<in> set ss"
  then obtain n where n: "n < length ss" "s = ss ! n" by (metis in_set_conv_nth)
  have "span_start ss n \<le> sp_index (ss ! n)" using span_start_le(1) [OF wf n(1)] .
  with value_at_span [OF n(1) _ _ wf] n show ?thesis by simp
qed

lemma updateVisible_ok:
  assumes "loaded_ok this" and "0 < sd_twipsPerCorePixel this"
  obtains this' ss where "updateVisible this = (Inr (), this')" and "dim_ok this'"
    and "sd_visibleSizes this' = Some ss" and "value_at ss = shown_size this"
    and "sp_index (last ss) = sp_index (last (sd_sizes this))"
    and "this' = this\<lparr>sd_invisibleSpanList := sd_invisibleSpanList this', sd_visibleSizes := Some ss\<rparr>"
proof -
  have ends: "last (bs_spanlist (sd_hidden this)) = last (bs_spanlist (sd_filtered this))"
    and wf: "bools_wf (sd_hidden this)" "bools_wf (sd_filtered this)"
    using assms(1) by (auto simp: loaded_ok_def same_end_def)
  obtain inv where inv: "BoolSpanList_union (sd_hidden this) (sd_filtered this) = Some inv"
      "bools_wf inv" "last (bs_spanlist inv) = last (bs_spanlist (sd_hidden this))"
      "\<And>i. bool_at inv i \<longleftrightarrow> bool_at (sd_hidden this) i \<or> bool_at (sd_filtered this) i"
    using union_result [OF wf ends] by blast
  have "spans_wf (sd_sizes this)" "same_end (sd_sizes this) inv"
    using assms(1) inv(3) by (auto simp: loaded_ok_def same_end_def)
  then obtain r where r: "SpanList_applyZeroValues (sd_sizes this) (Some inv) = Inr (Some r)"
      "spans_wf r" "sp_index (last r) = sp_index (last (sd_sizes this))"
      "\<And>i. value_at r i = (if bool_at inv i then 0 else value_at (sd_sizes this) i)"
    using zero_result inv(2) by blast
  let ?ss = "with_positions (sd_twipsPerCorePixel this) r"
  let ?dim = "this\<lparr>sd_invisibleSpanList := Some inv, sd_visibleSizes := Some ?ss\<rparr>"
  have v: "value_at r = shown_size this"
    using inv(4) r(4) by (auto simp: shown_size_def)
  have "0 \<le> sp_value s" if "s \<in> set r" for s
    using value_at_elem [OF r(2) that] r(4) [of "sp_index s"] value_at_nonneg [of "sd_sizes this" "sp_index s"]
      assms(1) by (simp add: loaded_ok_def split: if_splits)
  then have "sizes_ok r" by (simp add: sizes_ok_def)
  then have "dim_ok ?dim"
    using with_positions_ok [OF r(2)] assms(2) by (simp add: dim_ok_def)
  moreover have "updateVisible this = (Inr (), ?dim)"
    using inv(1) r(1) by (simp add: updateVisible_def Let_def)
  ultimately show thesis
    using that [of ?dim ?ss] with_positions_ok [OF r(2)] r(3) v by simp
qed

lemma setTileGeometryData_ok:
  assumes "dim_ok this" and "0 < twips" and "0 < pixels"
    and "sd_twipsPerCorePixel this = twips / pixels \<or>
      \<not> (sd_tileSizeTwips this = Some twips \<and> sd_tileSizePixels this = Some pixels)"
  obtains this' where
    "SheetDimension_setTileGeometryData twips pixels True this = (Inr (), this')"
    and "dim_ok this'" and "sd_twipsPerCorePixel this' = twips / pixels"
    and "value_at (visibleSpans this') = value_at (visibleSpans this)"
proof (cases "sd_tileSizeTwips this = Some twips \<and> sd_tileSizePixels this = Some pixels")
  case True
  with assms that show thesis by (auto simp: SheetDimension_setTileGeometryData_def)
next
  case False
  obtain ss where ss: "sd_visibleSizes this = Some ss" "spans_wf ss" "sizes_ok ss"
    using assms(1) by (auto simp: dim_ok_def split: option.splits)
  let ?dim = "this\<lparr>sd_tileSizeTwips := Some twips, sd_tileSizePixels := Some pixels,
      sd_coreZoomFactor := pixels * 15 / twips, sd_twipsPerCorePixel := twips / pixels,
      sd_visibleSizes := Some (with_positions (twips / pixels) ss)\<rparr>"
  have "SheetDimension_setTileGeometryData twips pixels True this = (Inr (), ?dim)"
    using False ss(1) by (auto simp: SheetDimension_setTileGeometryData_def updatePositions_def Let_def)
  moreover have "dim_ok ?dim"
    using with_positions_ok [OF ss(2)] ss(3) assms(2,3) by (simp add: dim_ok_def)
  ultimately show thesis
    using that [of ?dim] ss with_positions_ok(3) [OF ss(2)] by (simp add: visibleSpans_def)
qed

subsection \<open>Lookups by index\<close>

text \<open>The start and the size of an element in each unit, from the sizes alone.\<close>

fun unit_start :: "num \<Rightarrow> (int \<Rightarrow> int) \<Rightarrow> geometry_unit \<Rightarrow> int \<Rightarrow> int" where
  "unit_start tpp f corepixels i = psum (core_size tpp f) i"
| "unit_start tpp f tiletwips i = \<lfloor>of_int (psum (core_size tpp f) i) * tpp\<rfloor>"
| "unit_start tpp f printtwips i = psum f i"

fun unit_size :: "num \<Rightarrow> (int \<Rightarrow> int) \<Rightarrow> geometry_unit \<Rightarrow> int \<Rightarrow> int" where
  "unit_size tpp f corepixels i = core_size tpp f i"
| "unit_size tpp f tiletwips i = \<lfloor>of_int (core_size tpp f i) * tpp\<rfloor>"
| "unit_size tpp f printtwips i = f i"

definition elem_pos :: "sheet_dimension \<Rightarrow> geometry_unit \<Rightarrow> int \<Rightarrow> pos_size" where
  "elem_pos this unit i =
     (let tpp = sd_twipsPerCorePixel this; f = value_at (visibleSpans this)
      in \<lparr>ps_startpos = Some (unit_start tpp f unit i), ps_size = unit_size tpp f unit i\<rparr>)"

definition lastIndex :: "sheet_dimension \<Rightarrow> int" where
  "lastIndex this = sp_index (last (visibleSpans this))"

lemma dim_okD:
  assumes "dim_ok this"
  shows "sd_visibleSizes this = Some (visibleSpans this)" "spans_wf (visibleSpans this)"
    "sizes_ok (visibleSpans this)" "0 < sd_twipsPerCorePixel this"
    "positions_ok (sd_twipsPerCorePixel this) (visibleSpans this)"
  using assms by (auto simp: dim_ok_def visibleSpans_def split: option.splits)

text \<open>Within a span a position grows by the size of one element.\<close>

lemma psum_in_span:
  assumes wf: "spans_wf ss" and n: "n < length ss" "span_start ss n \<le> a" "a \<le> b"
    "b \<le> sp_index (ss ! n) + 1" and g: "\<And>j. value_at ss j = sp_value (ss ! n) \<Longrightarrow> g j = c"
  shows "psum g b = psum g a + c * (b - a)"
proof (rule psum_extend)
  show "0 \<le> a" using span_start_le(2) [OF wf n(1)] n(2) by simp
  fix j assume "a \<le> j" "j < b"
  then show "g j = c" using value_at_span [OF n(1) _ _ wf, of j] n g by simp
qed (rule n(3))

lemma span_sums:
  assumes "spans_wf ss" "n < length ss" "span_start ss n \<le> a" "a \<le> sp_index (ss ! n) + 1"
  shows "psum (value_at ss) (sp_index (ss ! n) + 1) =
      psum (value_at ss) a + sp_value (ss ! n) * (sp_index (ss ! n) - a + 1)"
    and "psum (core_size tpp (value_at ss)) (sp_index (ss ! n) + 1) =
      psum (core_size tpp (value_at ss)) a +
      \<lfloor>of_int (sp_value (ss ! n)) / tpp\<rfloor> * (sp_index (ss ! n) - a + 1)"
  using psum_in_span [OF assms order_refl, of "value_at ss"]
    psum_in_span [OF assms order_refl, of "core_size tpp (value_at ss)"]
  by (simp_all add: core_size_def)

lemma elem_from_span:
  assumes ok: "dim_ok this" and n: "n < length (visibleSpans this)"
    "span_start (visibleSpans this) n \<le> i" "i \<le> sp_index (visibleSpans this ! n)"
  shows "getElementDataAnyFromSpanByIndex this (Fin i) (Some (getSpanData (visibleSpans this) n)) unit =
    Some (elem_pos this unit i)"
proof -
  let ?ss = "visibleSpans this"
  let ?tpp = "sd_twipsPerCorePixel this"
  note d = dim_okD [OF ok]
  have data: "sp_data (?ss ! n) = span_positions ?tpp (value_at ?ss) (?ss ! n)"
    using d(5) n(1) by (simp add: positions_ok_def)
  have v: "value_at ?ss i = sp_value (?ss ! n)" by (rule value_at_span [OF n d(2)])
  have "i \<le> sp_index (?ss ! n) + 1" using n(3) by simp
  note sums = span_sums [OF d(2) n(1,2) this]
  show ?thesis
    using n by (cases unit)
      (simp_all add: getElementDataAnyFromSpanByIndex_def elem_pos_def data v sums
        span_positions_def core_size_def Let_def)
qed

lemma getSpanDataByIndex_hit:
  assumes ok: "dim_ok this" and i: "0 \<le> i" "i \<le> lastIndex this"
  obtains n where "n < length (visibleSpans this)" and "span_start (visibleSpans this) n \<le> i"
    and "i \<le> sp_index (visibleSpans this ! n)"
    and "getSpanDataByIndex (visibleSpans this) i = Some (getSpanData (visibleSpans this) n)"
proof -
  note d = dim_okD [OF ok]
  obtain n where n: "n < length (visibleSpans this)" "span_start (visibleSpans this) n \<le> i"
      "i \<le> sp_index (visibleSpans this ! n)"
    using span_containing [OF d(2) i(1)] i(2) unfolding lastIndex_def by blast
  then have "getSpanDataByIndex (visibleSpans this) i = Some (getSpanData (visibleSpans this) n)"
    using searchByIndex_hit [OF d(2) n] by (simp add: getSpanDataByIndex_def Let_def)
  with n that show thesis by blast
qed

lemma getSpanDataByIndex_miss:
  assumes ok: "dim_ok this" and i: "i < 0 \<or> lastIndex this < i"
  shows "getSpanDataByIndex (visibleSpans this) i = None"
  using searchByIndex_miss [OF dim_okD(2) [OF ok]] i
  by (simp add: getSpanDataByIndex_def lastIndex_def Let_def)

lemma with_visible_ok [simp]: "dim_ok this \<Longrightarrow> with_visible this f = f (visibleSpans this)"
  using dim_okD(1) by (simp add: with_visible_def)

lemma getElementDataAny_in:
  assumes ok: "dim_ok this" and i: "0 \<le> i" "i \<le> lastIndex this"
  shows "getElementDataAny this i unit = Inr (Some (elem_pos this unit i))"
proof -
  obtain n where "n < length (visibleSpans this)" "span_start (visibleSpans this) n \<le> i"
      "i \<le> sp_index (visibleSpans this ! n)"
      "getSpanDataByIndex (visibleSpans this) i = Some (getSpanData (visibleSpans this) n)"
    using getSpanDataByIndex_hit [OF assms] by blast
  with ok show ?thesis by (simp add: getElementDataAny_def elem_from_span)
qed

lemma getElementDataAny_out:
  assumes "dim_ok this" and "i < 0 \<or> lastIndex this < i"
  shows "getElementDataAny this i unit = Inr None"
  using assms
  by (simp add: getElementDataAny_def getSpanDataByIndex_miss getElementDataAnyFromSpanByIndex_def)

subsection \<open>Lookups by position\<close>

text \<open>
  A field of the spans is a position field for the element sizes \<open>F\<close> when it holds the sum
  of \<open>F\<close> up to the end of the span and \<open>F\<close> is constant in a span.
\<close>

definition position_field :: "custom_field \<Rightarrow> dspan list \<Rightarrow> (int \<Rightarrow> int) \<Rightarrow> bool" where
  "position_field fld ss F \<longleftrightarrow> (\<forall>j. 0 \<le> F j) \<and>
     (\<forall>s \<in> set ss. data_field fld (sp_data s) = psum F (sp_index s + 1)) \<and>
     (\<forall>j j'. value_at ss j = value_at ss j' \<longrightarrow> F j = F j')"

lemma position_fieldD:
  assumes "position_field fld ss F"
  shows "0 \<le> F j" and "s \<in> set ss \<Longrightarrow> data_field fld (sp_data s) = psum F (sp_index s + 1)"
    and "value_at ss j = value_at ss j' \<Longrightarrow> F j = F j'"
  using assms unfolding position_field_def by blast+

lemma spans_wf_last: "spans_wf ss \<Longrightarrow> 0 \<le> sp_index (last ss)"
  using spans_wf_mono(1) [of ss 0 "length ss - 1"]
  by (auto simp: spans_wf_def last_conv_nth hd_conv_nth)

lemma div_bounds:
  fixes c x :: int
  assumes "0 < c"
  shows "0 \<le> x \<Longrightarrow> 0 \<le> x div c" and "c * (x div c) \<le> x" and "x < c * (x div c + 1)"
proof -
  have "x = c * (x div c) + x mod c" "0 \<le> x mod c" "x mod c < c"
    using assms by simp_all
  then show "c * (x div c) \<le> x" "x < c * (x div c + 1)"
    unfolding distrib_left by linarith+
qed (use assms in \<open>simp add: pos_imp_zdiv_nonneg_iff\<close>)

lemma position_field_wf:
  assumes wf: "spans_wf ss" and pf: "position_field fld ss F"
  shows "positions_wf fld ss"
proof -
  have nn: "\<And>j. 0 \<le> F j" and data: "\<And>s. s \<in> set ss \<Longrightarrow> data_field fld (sp_data s) = psum F (sp_index s + 1)"
    using position_fieldD [OF pf] by blast+
  have "sorted (map (\<lambda>s. data_field fld (sp_data s)) ss)"
    unfolding sorted_iff_nth_mono
  proof (intro allI impI)
    fix i j assume "i \<le> j" "j < length (map (\<lambda>s. data_field fld (sp_data s)) ss)"
    then have "sp_index (ss ! i) + 1 \<le> sp_index (ss ! j) + 1" "i < length ss" "j < length ss"
      using spans_wf_mono(1) [OF wf, of i j] by auto
    moreover from this(1) have "psum F (sp_index (ss ! i) + 1) \<le> psum F (sp_index (ss ! j) + 1)"
      by (rule psum_mono [OF nn])
    ultimately show "map (\<lambda>s. data_field fld (sp_data s)) ss ! i \<le>
        map (\<lambda>s. data_field fld (sp_data s)) ss ! j"
      by (simp add: data)
  qed
  moreover have "0 \<le> data_field fld (sp_data s)" if "s \<in> set ss" for s
    unfolding data [OF that] by (rule psum_nonneg [OF nn])
  ultimately show ?thesis by (simp add: positions_wf_def)
qed

lemma field_start_sum:
  "position_field fld ss F \<Longrightarrow> n < length ss \<Longrightarrow> field_start fld ss n = psum F (span_start ss n)"
  using position_fieldD(2) [of fld ss F "ss ! (n - 1)"] by (simp add: field_start_def span_start_def)

text \<open>Some element contains a position below the total.\<close>

lemma element_containing:
  assumes "0 \<le> p" and "p < psum F (m + 1)" and "-1 \<le> m"
  obtains i where "0 \<le> i" and "i \<le> m" and "psum F i \<le> p" and "p < psum F (i + 1)"
proof -
  define P where "P = (\<lambda>k. p < psum F (int k + 1))"
  have "P (nat m)"
  proof (cases "m = -1")
    case True
    with assms show ?thesis by simp
  next
    case False
    with assms show ?thesis by (simp add: P_def)
  qed
  then have k: "P (Least P)" "Least P \<le> nat m" by (auto intro: LeastI Least_le)
  have "psum F (int (Least P)) \<le> p"
    using not_less_Least [of "Least P - 1" P] assms(1) by (cases "Least P") (auto simp: P_def)
  moreover have "m \<noteq> -1" using assms by auto
  ultimately show thesis using that [of "int (Least P)"] k assms(3) by (auto simp: P_def)
qed

lemma locate_span:
  assumes wf: "spans_wf ss" and pf: "position_field fld ss F"
    and p: "0 \<le> p" "p < psum F (sp_index (last ss) + 1)"
  obtains n where "n < length ss"
    and "getSpanDataByCustomDataField ss (of_int p) fld = Some (getSpanData ss n)"
    and "psum F (span_start ss n) \<le> p" and "p < psum F (sp_index (ss ! n) + 1)"
proof -
  note pwf = position_field_wf [OF wf pf]
  have nn: "\<And>j. 0 \<le> F j" and data: "\<And>s. s \<in> set ss \<Longrightarrow> data_field fld (sp_data s) = psum F (sp_index s + 1)"
    using position_fieldD [OF pf] by blast+
  have "-1 \<le> sp_index (last ss)"
    by (rule order_trans [OF _ spans_wf_last [OF wf]]) simp
  then obtain i where i: "0 \<le> i" "i \<le> sp_index (last ss)" "psum F i \<le> p" "p < psum F (i + 1)"
    using element_containing [OF p] by blast
  obtain n where n: "n < length ss" "span_start ss n \<le> i" "i \<le> sp_index (ss ! n)"
    using span_containing [OF wf i(1,2)] by blast
  have "psum F (span_start ss n) \<le> p"
    by (rule order_trans [OF psum_mono [OF nn n(2)] i(3)])
  moreover have "p < psum F (sp_index (ss ! n) + 1)"
    by (rule less_le_trans [OF i(4) psum_mono [OF nn]]) (use n(3) in simp)
  ultimately have "dir_at (custom_direction fld) ss (of_int p) n = 0"
    using n(1) by (simp add: custom_dir_at field_start_sum [OF pf] field_end_def data)
  then obtain m where m: "m < length ss" "searchByCustomDataField ss (of_int p) fld = int m"
      "dir_at (custom_direction fld) ss (of_int p) m = 0"
    unfolding searchByCustomDataField_def
    using field_search.binarySearch_hit [OF pwf n(1)] by metis
  have lo: "psum F (span_start ss m) \<le> p" and hi: "p \<le> field_end fld ss m"
    using m(1,3) by (auto simp: custom_dir_at field_start_sum [OF pf] split: if_splits)
  have "p < psum F (sp_index (ss ! m) + 1)"
  proof (cases "Suc m < length ss")
    case True
    with hi m(1) show ?thesis by (simp add: field_end_def data)
  next
    case False
    with m(1) have "m = length ss - 1" by simp
    with p(2) wf show ?thesis by (simp add: last_conv_nth spans_wf_def)
  qed
  with m lo show thesis
    by (intro that [of m]) (auto simp: getSpanDataByCustomDataField_def Let_def)
qed

text \<open>The element in the span that found, from the quotient the code computes.\<close>

lemma index_in_span:
  assumes wf: "spans_wf ss" and pf: "position_field fld ss F" and n: "n < length ss"
    and p: "psum F (span_start ss n) \<le> p" "p < psum F (sp_index (ss ! n) + 1)"
  defines "c \<equiv> F (sp_index (ss ! n))"
  defines "i \<equiv> span_start ss n + (p - psum F (span_start ss n)) div c"
  shows "0 < c" and "span_start ss n \<le> i" and "i \<le> sp_index (ss ! n)"
    and "psum F i \<le> p" and "p < psum F (i + 1)"
proof -
  let ?a = "span_start ss n" and ?e = "sp_index (ss ! n)"
  have ae: "?a \<le> ?e" using span_start_le(1) [OF wf n] .
  have const: "value_at ss j = sp_value (ss ! n) \<Longrightarrow> F j = c" for j
    using position_fieldD(3) [OF pf] value_at_span [OF n ae order_refl wf] unfolding c_def by metis
  have lin: "psum F b = psum F ?a + c * (b - ?a)" if "?a \<le> b" "b \<le> ?e + 1" for b
    by (rule psum_in_span [OF wf n order_refl that const])
  have "0 < c * (?e + 1 - ?a)" using lin [of "?e + 1"] ae p by simp
  then show c: "0 < c" using ae by (simp add: zero_less_mult_iff)
  define q where "q = (p - psum F ?a) div c"
  have q: "0 \<le> q" "c * q \<le> p - psum F ?a" "p - psum F ?a < c * (q + 1)"
    using div_bounds [OF c, of "p - psum F ?a"] p(1) by (auto simp: q_def)
  have "p - psum F ?a < c * (?e + 1 - ?a)" using lin [of "?e + 1"] ae p(2) by simp
  then have "c * q < c * (?e + 1 - ?a)" using q(2) by linarith
  then have qe: "q < ?e + 1 - ?a" using c by simp
  show "?a \<le> i" "i \<le> ?e" using q(1) qe by (auto simp: i_def q_def)
  show "psum F i \<le> p" using lin [of i] q(1,2) qe by (simp add: i_def q_def)
  show "p < psum F (i + 1)" using lin [of "i + 1"] q(1,3) qe by (simp add: i_def q_def algebra_simps)
qed

lemma print_position_field:
  assumes "dim_ok this"
  shows "position_field F_posprinttwips (visibleSpans this) (value_at (visibleSpans this))"
  using dim_okD(5) [OF assms] value_at_nonneg [OF dim_okD(3) [OF assms]]
  by (auto simp: position_field_def positions_ok_def span_positions_def Let_def)

text \<open>With a whole number of twips per core pixel, tile twips are sums of scaled sizes.\<close>

definition tile_size :: "int \<Rightarrow> sheet_dimension \<Rightarrow> int \<Rightarrow> int" where
  "tile_size k this j = core_size (of_int k) (value_at (visibleSpans this)) j * k"

lemma psum_scale: "psum (\<lambda>j. f j * k) i = psum f i * k"
  by (simp add: psum_def sum_distrib_right)

lemma psum_tile_size:
  "psum (tile_size k this) i = psum (core_size (of_int k) (value_at (visibleSpans this))) i * k"
  using psum_scale by (simp add: tile_size_def [abs_def])

lemma tile_position_field:
  assumes ok: "dim_ok this" and k: "sd_twipsPerCorePixel this = of_int k"
  shows "position_field F_postiletwips (visibleSpans this) (tile_size k this)"
proof -
  note d = dim_okD [OF ok]
  have "\<And>j. 0 \<le> tile_size k this j"
    using core_size_nonneg [OF d(3,4)] d(4) k by (simp add: tile_size_def)
  moreover have "postiletwips (sp_data s) = psum (tile_size k this) (sp_index s + 1)"
    if "s \<in> set (visibleSpans this)" for s
  proof -
    have "postiletwips (sp_data s) =
        \<lfloor>of_int (psum (core_size (of_int k) (value_at (visibleSpans this))) (sp_index s + 1)) * (of_int k :: num)\<rfloor>"
      using d(5) that k by (simp add: positions_ok_def span_positions_def Let_def)
    then show ?thesis by (simp add: psum_tile_size flip: of_int_mult)
  qed
  ultimately show ?thesis
    by (simp add: position_field_def tile_size_def core_size_def)
qed

text \<open>What a successful lookup by position returns: an element and the span it is in.\<close>

definition located :: "sheet_dimension \<Rightarrow> int \<Rightarrow> index_and_span \<Rightarrow> bool" where
  "located this i r \<longleftrightarrow> (\<exists>n < length (visibleSpans this).
     r = \<lparr>is_index = Fin i, is_span = Some (getSpanData (visibleSpans this) n)\<rparr> \<and>
     span_start (visibleSpans this) n \<le> i \<and> i \<le> sp_index (visibleSpans this ! n))"

lemma located_elem:
  "dim_ok this \<Longrightarrow> located this i r \<Longrightarrow>
   getElementDataAnyFromSpanByIndex this (is_index r) (is_span r) unit = Some (elem_pos this unit i)"
  using elem_from_span by (auto simp: located_def)

lemma located_range:
  assumes ok: "dim_ok this" and "located this i r"
  shows "0 \<le> i" and "i \<le> lastIndex this"
proof -
  note wf = dim_okD(2) [OF ok]
  obtain n where n: "n < length (visibleSpans this)" "span_start (visibleSpans this) n \<le> i"
      "i \<le> sp_index (visibleSpans this ! n)"
    using assms(2) by (auto simp: located_def)
  show "0 \<le> i" using span_start_le(2) [OF wf n(1)] n(2) by simp
  have "sp_index (visibleSpans this ! n) \<le> lastIndex this"
    using spans_wf_mono(1) [OF wf, of n "length (visibleSpans this) - 1"] n(1)
    unfolding lastIndex_def by (subst last_conv_nth) auto
  with n(3) show "i \<le> lastIndex this" by simp
qed

lemma print_lookup:
  assumes ok: "dim_ok this" and p: "0 \<le> p" "p < psum (value_at (visibleSpans this)) (lastIndex this + 1)"
  obtains i r where "getSpanAndIndexFromPrintTwipsPos this (of_int p) = Inr r" and "located this i r"
    and "psum (value_at (visibleSpans this)) i \<le> p" and "p < psum (value_at (visibleSpans this)) (i + 1)"
proof -
  let ?ss = "visibleSpans this" and ?F = "value_at (visibleSpans this)"
  note d = dim_okD [OF ok] and pf = print_position_field [OF ok]
  obtain n where n: "n < length ?ss"
      "getSpanDataByCustomDataField ?ss (of_int p) F_posprinttwips = Some (getSpanData ?ss n)"
      "psum ?F (span_start ?ss n) \<le> p" "p < psum ?F (sp_index (?ss ! n) + 1)"
    using locate_span [OF d(2) pf p(1)] p(2) unfolding lastIndex_def by auto
  define i where "i = span_start ?ss n + (p - psum ?F (span_start ?ss n)) div ?F (sp_index (?ss ! n))"
  note idx = index_in_span [OF d(2) pf n(1,3,4), folded i_def]
  have size: "?F (sp_index (?ss ! n)) = sp_value (?ss ! n)"
    using value_at_elem [OF d(2)] n(1) by simp
  have data: "posprinttwips (sp_data (?ss ! n)) = psum ?F (sp_index (?ss ! n) + 1)"
    using position_fieldD(2) [OF pf] n(1) by simp
  have start: "posprinttwips (sp_data (?ss ! n)) -
      sp_value (?ss ! n) * (sp_index (?ss ! n) - span_start ?ss n + 1) = psum ?F (span_start ?ss n)"
    using span_sums(1) [OF d(2) n(1) order_refl] span_start_le(1) [OF d(2) n(1)] data by simp
  have "getSpanAndIndexFromPrintTwipsPos this (of_int p) =
      Inr \<lparr>is_index = Fin i, is_span = Some (getSpanData ?ss n)\<rparr>"
    using ok n(2) idx(1) start
    by (simp add: getSpanAndIndexFromPrintTwipsPos_def js_floor_div_def size i_def Let_def
        floor_divide_of_int_eq flip: of_int_diff)
  moreover have "located this i \<lparr>is_index = Fin i, is_span = Some (getSpanData ?ss n)\<rparr>"
    using idx n(1) by (auto simp: located_def)
  ultimately show thesis using that idx(4,5) by blast
qed

lemma tile_lookup:
  assumes ok: "dim_ok this" and k: "sd_twipsPerCorePixel this = of_int k"
    and p: "0 \<le> p" "p < psum (tile_size k this) (lastIndex this + 1)"
  obtains i r where "getSpanAndIndexFromTileTwipsPos this (of_int p) = Inr r" and "located this i r"
    and "psum (tile_size k this) i \<le> p" and "p < psum (tile_size k this) (i + 1)"
proof -
  let ?ss = "visibleSpans this" and ?F = "tile_size k this"
  let ?C = "core_size (of_int k) (value_at ?ss)"
  note d = dim_okD [OF ok] and pf = tile_position_field [OF ok k]
  obtain n where n: "n < length ?ss"
      "getSpanDataByCustomDataField ?ss (of_int p) F_postiletwips = Some (getSpanData ?ss n)"
      "psum ?F (span_start ?ss n) \<le> p" "p < psum ?F (sp_index (?ss ! n) + 1)"
    using locate_span [OF d(2) pf p(1)] p(2) unfolding lastIndex_def by auto
  let ?a = "span_start ?ss n" and ?e = "sp_index (?ss ! n)" and ?d = "sp_data (?ss ! n)"
  let ?c = "?F ?e"
  define i where "i = ?a + (p - psum ?F ?a) div ?c"
  note idx = index_in_span [OF d(2) pf n(1,3,4), folded i_def]
  have ae: "?a \<le> ?e" using span_start_le(1) [OF d(2) n(1)] .
  have "sp_data (?ss ! n) = span_positions (of_int k) (value_at ?ss) (?ss ! n)"
    using d(5) n(1) k by (simp add: positions_ok_def)
  then have data: "poscorepx ?d = psum ?C (?e + 1)" "sizecore ?d = \<lfloor>of_int (sp_value (?ss ! n)) / (of_int k :: num)\<rfloor>"
    by (simp_all add: span_positions_def Let_def)
  have c: "?c = sizecore ?d * k"
    using value_at_elem [OF d(2), of "?ss ! n"] n(1) data by (simp add: tile_size_def core_size_def)
  have start: "poscorepx ?d - sizecore ?d * (?e - ?a + 1) = psum ?C ?a"
    using span_sums(2) [OF d(2) n(1) order_refl, of "of_int k"] ae data by simp
  have end': "postiletwips ?d = psum ?F (?e + 1)" using position_fieldD(2) [OF pf] n(1) by simp
  have lin: "psum ?F (?e + 1) = psum ?F ?a + ?c * (?e - ?a + 1)"
    using arg_cong [OF start, of "\<lambda>x. x * k"] data(1) c by (simp add: psum_tile_size algebra_simps)
  have size: "(of_int (postiletwips ?d) - of_int (psum ?C ?a) * of_int k) / of_int (?e - ?a + 1) = (of_int ?c :: num)"
  proof -
    have "of_int (postiletwips ?d) - of_int (psum ?C ?a) * (of_int k :: num) = of_int (?c * (?e - ?a + 1))"
      unfolding end' lin by (simp add: psum_tile_size)
    moreover have "of_int (?e - ?a + 1) \<noteq> (0 :: num)" using ae by linarith
    ultimately show ?thesis by simp
  qed
  have pos: "of_int p - of_int (psum ?C ?a) * of_int k = (of_int (p - psum ?F ?a) :: num)"
    by (simp add: psum_tile_size)
  have "getSpanAndIndexFromTileTwipsPos this (of_int p) =
      Inr \<lparr>is_index = js_add ?a (js_floor_div (of_int (p - psum ?F ?a)) (of_int ?c)),
           is_span = Some (getSpanData ?ss n)\<rparr>"
    unfolding getSpanAndIndexFromTileTwipsPos_def with_visible_ok [OF ok] n(2) Let_def k
      getSpanData_simps start option.case size pos by (rule refl)
  also have "js_add ?a (js_floor_div (of_int (p - psum ?F ?a)) (of_int ?c)) = Fin i"
    using idx(1) by (simp add: js_floor_div_def i_def floor_divide_of_int_eq flip: of_int_diff)
  finally show thesis
    using that idx n(1) by (fastforce simp: located_def)
qed

subsection \<open>Enumerating elements\<close>

lemma upto_join:
  fixes a b c :: int
  assumes "a \<le> b + 1" and "b \<le> c"
  shows "[a..b] @ [b + 1..c] = [a..c]"
proof (cases "a \<le> b")
  case True
  with assms show ?thesis using upto_split2 [of a b c] by simp
next
  case False
  with assms have "a = b + 1" by simp
  then show ?thesis by simp
qed

lemma spans_wf_step:
  assumes "spans_wf ss" and "Suc n < length ss"
  shows "sp_index (ss ! n) < sp_index (ss ! Suc n)" and "span_start ss (Suc n) = sp_index (ss ! n) + 1"
  using assms by (auto simp: spans_wf_def sorted_wrt_iff_nth_less span_start_def)

lemma spans_wf_le_last:
  "spans_wf ss \<Longrightarrow> n < length ss \<Longrightarrow> sp_index (ss ! n) \<le> sp_index (last ss)"
  using spans_wf_mono(1) [of ss n "length ss - 1"] by (subst last_conv_nth) auto

lemma range_loop_elements:
  assumes wf: "spans_wf ss" and "n < length ss" and "s \<le> sp_index (ss ! n)"
  shows "concat (map (\<lambda>sp. [max (vs_start sp) s..min (vs_end sp) e]) (range_loop ss n e)) =
    [max (span_start ss n) s..min e (sp_index (last ss))]"
  using assms(2,3)
proof (induction "length ss - n" arbitrary: n rule: less_induct)
  case less
  let ?a = "span_start ss n" and ?e = "sp_index (ss ! n)"
  note le_last = spans_wf_le_last [OF wf less.prems(1)]
  have ae: "?a \<le> ?e" using span_start_le(1) [OF wf less.prems(1)] .
  show ?case
  proof (cases "Suc n < length ss \<and> ?e \<le> e")
    case True
    note st = spans_wf_step [OF wf, of n]
    have "concat (map (\<lambda>sp. [max (vs_start sp) s..min (vs_end sp) e]) (range_loop ss (Suc n) e)) =
        [max (span_start ss (Suc n)) s..min e (sp_index (last ss))]"
      by (rule less.hyps) (use True st less.prems in auto)
    moreover have "[max ?a s..?e] @ [?e + 1..min e (sp_index (last ss))] =
        [max ?a s..min e (sp_index (last ss))]"
      by (rule upto_join) (use True le_last ae less.prems in auto)
    ultimately show ?thesis
      using True st less.prems by (simp add: range_loop.simps [of ss n] Let_def min_absorb1 max_absorb1)
  next
    case False
    then consider "\<not> Suc n < length ss" | "e < ?e" by linarith
    then have "min ?e e = min e (sp_index (last ss))"
    proof cases
      case 1
      then have "n = length ss - 1" using less.prems(1) by simp
      then have "?e = sp_index (last ss)" using wf by (simp add: spans_wf_def last_conv_nth)
      then show ?thesis by simp
    next
      case 2
      then show ?thesis using le_last by simp
    qed
    moreover have "range_loop ss n e = [getSpanData ss n]"
      using False by (auto simp: range_loop.simps [of ss n] Let_def)
    ultimately show ?thesis by simp
  qed
qed

lemma range_loop_spans:
  "n < length ss \<Longrightarrow> sp \<in> set (range_loop ss n e) \<Longrightarrow> \<exists>m < length ss. sp = getSpanData ss m"
proof (induction "length ss - n" arbitrary: n rule: less_induct)
  case less
  have "sp = getSpanData ss n \<or> Suc n < length ss \<and> sp \<in> set (range_loop ss (Suc n) e)"
    using less.prems(2) by (auto simp: range_loop.simps [of ss n] Let_def split: if_splits)
  then show ?case
  proof
    assume "Suc n < length ss \<and> sp \<in> set (range_loop ss (Suc n) e)"
    then show ?thesis by (intro less.hyps [of "Suc n"]) auto
  qed (use less.prems(1) in blast)
qed

text \<open>The callback runs once for every element of the range, in order, with its position.\<close>

lemma forEachInRange_elements:
  assumes ok: "dim_ok this" and "0 \<le> s" and "s \<le> lastIndex this" and "s \<le> e"
  shows "forEachInRange this s e =
    Inr (map (\<lambda>i. (i, Some (elem_pos this corepixels i))) [s..min e (lastIndex this)])"
proof -
  let ?ss = "visibleSpans this"
  note wf = dim_okD(2) [OF ok]
  obtain n where n: "n < length ?ss" "span_start ?ss n \<le> s" "s \<le> sp_index (?ss ! n)"
    using span_containing [OF wf assms(2)] assms(3) unfolding lastIndex_def by blast
  have "forEachSpanInRange ?ss s e = range_loop ?ss n e"
    using searchByIndex_hit [OF wf n] assms(4) by (simp add: forEachSpanInRange_def Let_def)
  moreover have "map (\<lambda>i. (i, getElementDataAnyFromSpanByIndex this (Fin i) (Some sp) corepixels))
        [max (vs_start sp) s..min (vs_end sp) e] =
      map (\<lambda>i. (i, Some (elem_pos this corepixels i))) [max (vs_start sp) s..min (vs_end sp) e]"
    if sp: "sp \<in> set (range_loop ?ss n e)" for sp
  proof -
    obtain m where "m < length ?ss" "sp = getSpanData ?ss m"
      using range_loop_spans [OF n(1) sp] by blast
    then show ?thesis using elem_from_span [OF ok, of m] by simp
  qed
  ultimately have "forEachInRange this s e = Inr (concat (map (\<lambda>sp.
      map (\<lambda>i. (i, Some (elem_pos this corepixels i))) [max (vs_start sp) s..min (vs_end sp) e])
      (range_loop ?ss n e)))"
    unfolding forEachInRange_def with_visible_ok [OF ok] concat_map_singleton
    by (auto intro!: arg_cong [where f = concat] map_cong)
  also have "\<dots> = Inr (map (\<lambda>i. (i, Some (elem_pos this corepixels i)))
      (concat (map (\<lambda>sp. [max (vs_start sp) s..min (vs_end sp) e]) (range_loop ?ss n e))))"
    by (simp add: map_concat o_def)
  finally show ?thesis
    using range_loop_elements [OF wf n(1,3), of e] n(2)
    by (simp add: lastIndex_def max_absorb2)
qed

subsection \<open>Grid lines\<close>

lemma grid_loop_mem:
  "0 < step \<Longrightarrow> (p, i) \<in> set (grid_loop pos lastPos step index) \<longleftrightarrow>
   (\<exists>k::nat. p = pos + int k * step \<and> i = index + int k \<and> p \<le> lastPos)"
proof (induction pos lastPos step index rule: grid_loop.induct)
  case (1 pos lastPos step index)
  show ?case
  proof (cases "pos \<le> lastPos")
    case True
    have "(\<exists>k::nat. p = pos + int k * step \<and> i = index + int k \<and> p \<le> lastPos) \<longleftrightarrow>
        (p = pos \<and> i = index) \<or> (\<exists>k::nat. p = pos + step + int k * step \<and> i = index + 1 + int k \<and> p \<le> lastPos)"
      (is "?l \<longleftrightarrow> ?r")
    proof
      assume ?l
      then obtain k :: nat where "p = pos + int k * step" "i = index + int k" "p \<le> lastPos" by blast
      then show ?r by (cases k) (auto simp: distrib_right)
    next
      assume ?r
      then show ?l
      proof
        assume "p = pos \<and> i = index"
        with True show ?l by (intro exI [of _ 0]) simp
      next
        assume "\<exists>k::nat. p = pos + step + int k * step \<and> i = index + 1 + int k \<and> p \<le> lastPos"
        then obtain k :: nat where "p = pos + step + int k * step" "i = index + 1 + int k" "p \<le> lastPos"
          by blast
        then show ?l by (intro exI [of _ "Suc k"]) (simp add: distrib_right)
      qed
    qed
    with 1 True show ?thesis by (simp add: grid_loop.simps [of pos])
  next
    case False
    have "\<not> p \<le> lastPos" if "p = pos + int k * step" for k
    proof -
      have "0 \<le> int k * step" using 1(2) by simp
      with that False show ?thesis by linarith
    qed
    with False show ?thesis by (auto simp: grid_loop.simps [of pos])
  qed
qed

text \<open>The first line of a span is a whole number of elements from its start.\<close>

definition first_line :: "int \<Rightarrow> int \<Rightarrow> int" where
  "first_line x s = max 0 (if 0 \<le> x then x div s + 1 else 1 - (- x) div s)"

lemma first_line_pos:
  assumes "0 < s"
  shows "max b (a + s - js_imod (a - b) s) = b + s * first_line (a - b) s"
proof (cases "0 \<le> a - b")
  case True
  have "a + s - js_imod (a - b) s = b + s * ((a - b) div s + 1)"
    using True assms by (simp add: js_imod_def sgn_if minus_mod_eq_mult_div [symmetric] algebra_simps)
  moreover have "0 \<le> (a - b) div s" using True assms by (simp add: pos_imp_zdiv_nonneg_iff)
  ultimately show ?thesis using True assms by (simp add: first_line_def max_def)
next
  case False
  have "a + s - js_imod (a - b) s = b + s * (1 - (b - a) div s)"
    using False assms by (simp add: js_imod_def sgn_if minus_mod_eq_mult_div [symmetric] algebra_simps)
  then show ?thesis
    using False assms by (auto simp: first_line_def max_def mult_le_0_iff zero_le_mult_iff)
qed

lemma first_line_bounds:
  assumes "0 < s"
  shows "0 \<le> first_line x s" and "x < s * first_line x s" and "x < s * j \<Longrightarrow> 0 < j \<Longrightarrow> first_line x s \<le> j"
proof -
  have d: "s * (x div s) \<le> x" "x < s * (x div s + 1)" by (rule div_bounds [OF assms])+
  have nn: "x < 0 \<Longrightarrow> 0 \<le> (- x) div s" using assms by (simp add: pos_imp_zdiv_nonneg_iff)
  show "0 \<le> first_line x s" by (simp add: first_line_def)
  show "x < s * first_line x s"
  proof (cases "0 \<le> x")
    case True
    then have "0 \<le> x div s" using assms by (simp add: pos_imp_zdiv_nonneg_iff)
    with True d show ?thesis by (simp add: first_line_def)
  next
    case False
    have "0 \<le> s * first_line x s" using assms by (simp add: first_line_def)
    with False show ?thesis by linarith
  qed
  assume j: "x < s * j" "0 < j"
  show "first_line x s \<le> j"
  proof (cases "0 \<le> x")
    case True
    have "s * (x div s) < s * j" using d(1) j(1) by linarith
    then have "x div s < j" using assms by simp
    with True j(2) show ?thesis by (simp add: first_line_def)
  next
    case False
    with nn j(2) show ?thesis by (auto simp: first_line_def)
  qed
qed

lemma span_grid_lines_mem:
  assumes "0 < sizecore (vs_data sp)"
  defines "s \<equiv> sizecore (vs_data sp)"
  defines "b \<equiv> poscorepx (vs_data sp) - s * (vs_end sp - vs_start sp + 1)"
  shows "(p, i) \<in> set (span_grid_lines startPix endPix sp) \<longleftrightarrow>
    b < endPix \<and> startPix < poscorepx (vs_data sp) \<and>
    (\<exists>j. first_line (startPix - b) s \<le> j \<and> p = b + s * j \<and> i = vs_start sp + j \<and>
      p \<le> min endPix (poscorepx (vs_data sp)))"
proof -
  have s: "0 < s" using assms by simp
  define q where "q = first_line (startPix - b) s"
  have q: "0 \<le> q" using first_line_bounds(1) [OF s] by (simp add: q_def)
  have ex: "(\<exists>k::nat. p = b + s * q + int k * s \<and> i = vs_start sp + q + int k \<and> P) \<longleftrightarrow>
      (\<exists>j. q \<le> j \<and> p = b + s * j \<and> i = vs_start sp + j \<and> P)" for P
  proof
    assume "\<exists>k::nat. p = b + s * q + int k * s \<and> i = vs_start sp + q + int k \<and> P"
    then obtain k :: nat where "p = b + s * q + int k * s" "i = vs_start sp + q + int k" P by blast
    then show "\<exists>j. q \<le> j \<and> p = b + s * j \<and> i = vs_start sp + j \<and> P"
      by (intro exI [of _ "q + int k"]) (simp add: algebra_simps)
  next
    assume "\<exists>j. q \<le> j \<and> p = b + s * j \<and> i = vs_start sp + j \<and> P"
    then obtain j where "q \<le> j" "p = b + s * j" "i = vs_start sp + j" P by blast
    then show "\<exists>k::nat. p = b + s * q + int k * s \<and> i = vs_start sp + q + int k \<and> P"
      by (intro exI [of _ "nat (j - q)"]) (simp add: algebra_simps)
  qed
  have "set (span_grid_lines startPix endPix sp) =
      (if b < endPix \<and> startPix < poscorepx (vs_data sp)
       then set (grid_loop (b + s * q) (min endPix (poscorepx (vs_data sp))) s (vs_start sp + q)) else {})"
    using first_line_pos [OF s, of b startPix] s
    by (auto simp: span_grid_lines_def s_def [symmetric] b_def [symmetric] q_def [symmetric] Let_def)
  then show ?thesis
    using ex by (auto simp: grid_loop_mem [OF s] q_def)
qed

lemma span_core_data:
  assumes ok: "dim_ok this" and n: "n < length (visibleSpans this)"
  defines "C \<equiv> psum (core_size (sd_twipsPerCorePixel this) (value_at (visibleSpans this)))"
  shows "poscorepx (sp_data (visibleSpans this ! n)) = C (sp_index (visibleSpans this ! n) + 1)"
    and "sizecore (sp_data (visibleSpans this ! n)) =
      core_size (sd_twipsPerCorePixel this) (value_at (visibleSpans this)) (sp_index (visibleSpans this ! n))"
    and "span_start (visibleSpans this) n \<le> a \<Longrightarrow> a \<le> sp_index (visibleSpans this ! n) + 1 \<Longrightarrow>
      C a = C (span_start (visibleSpans this) n) +
        sizecore (sp_data (visibleSpans this ! n)) * (a - span_start (visibleSpans this) n)"
proof -
  let ?ss = "visibleSpans this"
  note d = dim_okD [OF ok]
  have data: "sp_data (?ss ! n) = span_positions (sd_twipsPerCorePixel this) (value_at ?ss) (?ss ! n)"
    using d(5) n by (simp add: positions_ok_def)
  then show "poscorepx (sp_data (?ss ! n)) = C (sp_index (?ss ! n) + 1)"
    by (simp add: span_positions_def C_def Let_def)
  show size: "sizecore (sp_data (?ss ! n)) =
      core_size (sd_twipsPerCorePixel this) (value_at ?ss) (sp_index (?ss ! n))"
    using data value_at_elem [OF d(2), of "?ss ! n"] n
    by (simp add: span_positions_def core_size_def Let_def)
  show "span_start ?ss n \<le> a \<Longrightarrow> a \<le> sp_index (?ss ! n) + 1 \<Longrightarrow>
      C a = C (span_start ?ss n) + sizecore (sp_data (?ss ! n)) * (a - span_start ?ss n)"
    unfolding C_def
    by (rule psum_in_span [OF d(2) n order_refl])
      (use value_at_elem [OF d(2), of "?ss ! n"] n in \<open>simp_all add: size core_size_def\<close>)
qed

lemma grid_lines_iff:
  assumes ok: "dim_ok this"
  defines "S \<equiv> core_size (sd_twipsPerCorePixel this) (value_at (visibleSpans this))"
  assumes calls: "forEachInCorePixelRange this a b = Inr calls"
  shows "(p, i) \<in> set calls \<Longrightarrow> a < p \<and> p \<le> b \<and> 0 \<le> i \<and> i \<le> lastIndex this + 1 \<and> p = psum S i"
    and "0 \<le> i \<Longrightarrow> i \<le> lastIndex this \<Longrightarrow> 0 < S i \<Longrightarrow> a < psum S (i + 1) \<Longrightarrow> psum S (i + 1) \<le> b \<Longrightarrow>
      (psum S (i + 1), i + 1) \<in> set calls"
proof -
  let ?ss = "visibleSpans this"
  note d = dim_okD [OF ok]
  have set_calls: "set calls = (\<Union>n < length ?ss. set (span_grid_lines a b (getSpanData ?ss n)))"
  proof -
    have "calls = concat (map (span_grid_lines a b) (forEachSpan ?ss))"
      using calls ok by (simp add: forEachInCorePixelRange_def)
    then show ?thesis
      by (simp only: forEachSpan_def set_concat set_map set_upt atLeast0LessThan image_image)
  qed
  let ?C = "psum S" and ?a = "\<lambda>n. span_start ?ss n" and ?e = "\<lambda>n. sp_index (?ss ! n)"
    and ?s = "\<lambda>n. sizecore (sp_data (?ss ! n))"
  note data = span_core_data [OF ok, folded S_def]
  have start: "poscorepx (sp_data (?ss ! n)) - ?s n * (?e n - ?a n + 1) = ?C (?a n)"
    if "n < length ?ss" for n
    using data(1) [OF that] data(3) [OF that, of "?e n + 1"] span_start_le(1) [OF d(2) that]
    by (simp add: algebra_simps)
  have nonneg: "0 \<le> ?s n" if "n < length ?ss" for n
    using data(2) [OF that] core_size_nonneg [OF d(3,4)] by (simp add: S_def)
  have mem: "(p, i) \<in> set (span_grid_lines a b (getSpanData ?ss n)) \<longleftrightarrow>
      ?C (?a n) < b \<and> a < ?C (?e n + 1) \<and>
      (\<exists>j. first_line (a - ?C (?a n)) (?s n) \<le> j \<and> p = ?C (?a n) + ?s n * j \<and> i = ?a n + j \<and>
        p \<le> min b (?C (?e n + 1)))" if "n < length ?ss" "0 < ?s n" for n p i
    using span_grid_lines_mem [of "getSpanData ?ss n" p i a b] that data(1) [OF that(1)] start [OF that(1)]
    by simp
  {
    assume "(p, i) \<in> set calls"
    then obtain n where n: "n < length ?ss" "(p, i) \<in> set (span_grid_lines a b (getSpanData ?ss n))"
      using set_calls by auto
    then have s: "0 < ?s n" using nonneg [OF n(1)] by (auto simp: span_grid_lines_def Let_def split: if_splits)
    then obtain j where j: "first_line (a - ?C (?a n)) (?s n) \<le> j" "p = ?C (?a n) + ?s n * j"
        "i = ?a n + j" "p \<le> min b (?C (?e n + 1))"
      using mem n by blast
    note fl = first_line_bounds(1,2) [OF s, of "a - ?C (?a n)"]
    have "?s n * first_line (a - ?C (?a n)) (?s n) \<le> ?s n * j" using j(1) s by simp
    then have "a < p" using fl(2) j(2) by linarith
    have e1: "?C (?e n + 1) = ?C (?a n) + ?s n * (?e n + 1 - ?a n)"
      using data(3) [OF n(1), of "?e n + 1"] span_start_le(1) [OF d(2) n(1)] by simp
    then have "?s n * j \<le> ?s n * (?e n + 1 - ?a n)" using j(2,4) by simp
    then have je: "j \<le> ?e n + 1 - ?a n" using s by simp
    have "0 \<le> j" using fl(1) j(1) by simp
    then have "p = ?C i" using data(3) [OF n(1), of i] j(2,3) je by simp
    moreover have "i \<le> lastIndex this + 1"
      using spans_wf_le_last [OF d(2) n(1)] je j(3) by (simp add: lastIndex_def)
    moreover have "0 \<le> i" using \<open>0 \<le> j\<close> j(3) span_start_le(2) [OF d(2) n(1)] by simp
    ultimately show "a < p \<and> p \<le> b \<and> 0 \<le> i \<and> i \<le> lastIndex this + 1 \<and> p = psum S i"
      using \<open>a < p\<close> j(4) by simp
  }
  {
    assume i: "0 \<le> i" "i \<le> lastIndex this" "0 < S i" "a < ?C (i + 1)" "?C (i + 1) \<le> b"
    obtain n where n: "n < length ?ss" "?a n \<le> i" "i \<le> ?e n"
      using span_containing [OF d(2) i(1)] i(2) unfolding lastIndex_def by blast
    have "value_at ?ss i = value_at ?ss (?e n)"
      using value_at_span [OF n d(2)] value_at_elem [OF d(2), of "?ss ! n"] n(1) by simp
    then have s: "0 < ?s n" using data(2) [OF n(1)] i(3) by (simp add: S_def core_size_def)
    have lin: "?C (i + 1) = ?C (?a n) + ?s n * (i + 1 - ?a n)"
      using data(3) [OF n(1), of "i + 1"] n by simp
    have pos: "0 < ?s n * (i + 1 - ?a n)" using s n(2) by simp
    have Snn: "\<And>j. 0 \<le> S j" unfolding S_def by (rule core_size_nonneg [OF d(3,4)])
    have "?C (i + 1) \<le> ?C (?e n + 1)" by (rule psum_mono [OF Snn]) (use n(3) in simp)
    moreover have "first_line (a - ?C (?a n)) (?s n) \<le> i + 1 - ?a n"
      by (rule first_line_bounds(3) [OF s]) (use lin i(4) n(2) in auto)
    ultimately have "(?C (i + 1), i + 1) \<in> set (span_grid_lines a b (getSpanData ?ss n))"
      unfolding mem [OF n(1) s] using lin pos i(4,5) by (intro conjI exI [of _ "i + 1 - ?a n"]) auto
    then show "(?C (i + 1), i + 1) \<in> set calls" using n(1) set_calls by auto
  }
qed

end
