(* ===== verification/Geometry.thy ===== *)
theory Geometry
  imports Js_String
begin

section \<open>Points, bounds and transformations\<close>

text \<open>
  The classes \<open>Point\<close>, \<open>Bounds\<close> and \<open>Transformation\<close> of \<open>browser/src/geometry\<close>. A method
  that changes its object in place is a function to the new object; the public variants
  clone first, so no two objects share a point. A \<open>Bounds\<close> object whose corners are still
  undefined is \<open>None\<close>.

  The abstract view of bounds is the set of points in it (\<open>bounds_contains_point\<close>):
  \<open>extend\<close> is the least upper bound, \<open>intersects\<close> decides whether two sets meet,
  \<open>distanceTo\<close> is the least distance between points of the two sets and \<open>clamp\<close> moves a
  point into the set.
\<close>

subsection \<open>Points\<close>

record point =
  pt_x :: num
  pt_y :: num

definition Point :: "num \<Rightarrow> num \<Rightarrow> bool \<Rightarrow> point" where
  [geo_defs]: "Point x y round' =
     \<lparr>pt_x = (if round' then of_int (js_round x) else x),
      pt_y = (if round' then of_int (js_round y) else y)\<rparr>"

definition Point_parse :: "string \<Rightarrow> point option" where
  "Point_parse pointString =
     (let pointParts = digit_runs pointString
      in if length pointParts < 2 then None
         else case (parseInt (pointParts ! 0), parseInt (pointParts ! 1)) of
            (Some x, Some y) \<Rightarrow> Some (Point (of_int x) (of_int y) False)
          | _ \<Rightarrow> None)"

definition Point_add :: "point \<Rightarrow> point \<Rightarrow> point" where
  [geo_defs]: "Point_add p q = \<lparr>pt_x = pt_x p + pt_x q, pt_y = pt_y p + pt_y q\<rparr>"

definition Point_subtract :: "point \<Rightarrow> point \<Rightarrow> point" where
  [geo_defs]: "Point_subtract p q = \<lparr>pt_x = pt_x p - pt_x q, pt_y = pt_y p - pt_y q\<rparr>"

definition Point_divideBy :: "point \<Rightarrow> num \<Rightarrow> point" where
  [geo_defs]: "Point_divideBy p n = \<lparr>pt_x = pt_x p / n, pt_y = pt_y p / n\<rparr>"

definition Point_multiplyBy :: "point \<Rightarrow> num \<Rightarrow> point" where
  [geo_defs]: "Point_multiplyBy p n = \<lparr>pt_x = pt_x p * n, pt_y = pt_y p * n\<rparr>"

definition Point_round :: "point \<Rightarrow> point" where
  [geo_defs]: "Point_round p = \<lparr>pt_x = of_int (js_round (pt_x p)), pt_y = of_int (js_round (pt_y p))\<rparr>"

definition Point_floor :: "point \<Rightarrow> point" where
  [geo_defs]: "Point_floor p = \<lparr>pt_x = of_int \<lfloor>pt_x p\<rfloor>, pt_y = of_int \<lfloor>pt_y p\<rfloor>\<rparr>"

definition Point_ceil :: "point \<Rightarrow> point" where
  [geo_defs]: "Point_ceil p = \<lparr>pt_x = of_int \<lceil>pt_x p\<rceil>, pt_y = of_int \<lceil>pt_y p\<rceil>\<rparr>"

definition Point_distanceTo :: "point \<Rightarrow> point \<Rightarrow> num" where
  "Point_distanceTo p q =
     (let x = pt_x q - pt_x p; y = pt_y q - pt_y p in sqrt (x * x + y * y))"

definition js_epsilon :: num where
  "js_epsilon = 1 / 2 ^ 52"

definition Point_equals :: "point \<Rightarrow> point \<Rightarrow> bool" where
  "Point_equals p q \<longleftrightarrow> \<bar>pt_x q - pt_x p\<bar> < js_epsilon \<and> \<bar>pt_y q - pt_y p\<bar> < js_epsilon"

definition Point_contains :: "point \<Rightarrow> point \<Rightarrow> bool" where
  "Point_contains p q \<longleftrightarrow> \<bar>pt_x q\<bar> \<le> \<bar>pt_x p\<bar> \<and> \<bar>pt_y q\<bar> \<le> \<bar>pt_y p\<bar>"

definition Point_setX :: "num \<Rightarrow> point \<Rightarrow> bool \<times> point" where
  "Point_setX x p = (if x = pt_x p then (False, p) else (True, p\<lparr>pt_x := x\<rparr>))"

definition Point_setY :: "num \<Rightarrow> point \<Rightarrow> bool \<times> point" where
  "Point_setY y p = (if y = pt_y p then (False, p) else (True, p\<lparr>pt_y := y\<rparr>))"

definition Point_assign :: "point \<Rightarrow> point \<Rightarrow> bool \<times> point" where
  "Point_assign q p =
     (let (xChanged, p1) = Point_setX (pt_x q) p; (yChanged, p2) = Point_setY (pt_y q) p1
      in (xChanged \<or> yChanged, p2))"

subsection \<open>Bounds\<close>

record bounds =
  bd_min :: point
  bd_max :: point

definition Bounds_extend :: "point \<Rightarrow> bounds option \<Rightarrow> bounds" where
  "Bounds_extend p this =
     (case this of
        None \<Rightarrow> \<lparr>bd_min = p, bd_max = p\<rparr>
      | Some b \<Rightarrow>
          \<lparr>bd_min = \<lparr>pt_x = min (pt_x p) (pt_x (bd_min b)), pt_y = min (pt_y p) (pt_y (bd_min b))\<rparr>,
           bd_max = \<lparr>pt_x = max (pt_x p) (pt_x (bd_max b)), pt_y = max (pt_y p) (pt_y (bd_max b))\<rparr>\<rparr>)"

text \<open>The constructor for two points and for an array of points.\<close>

definition Bounds :: "point \<Rightarrow> point \<Rightarrow> bounds" where
  "Bounds a maybeMax =
     (if pt_x maybeMax \<ge> pt_x a \<and> pt_y maybeMax \<ge> pt_y a then \<lparr>bd_min = a, bd_max = maybeMax\<rparr>
      else Bounds_extend maybeMax (Some \<lparr>bd_min = a, bd_max = a\<rparr>))"

definition Bounds_of_points :: "point list \<Rightarrow> bounds option" where
  "Bounds_of_points ps = fold (\<lambda>p b. Some (Bounds_extend p b)) ps None"

definition Bounds_isValid :: "bounds option \<Rightarrow> bool" where
  "Bounds_isValid b \<longleftrightarrow> b \<noteq> None"

definition rect_of_numbers :: "int \<Rightarrow> int \<Rightarrow> int \<Rightarrow> int \<Rightarrow> bounds" where
  "rect_of_numbers x y w h =
     (let refPoint1 = Point (of_int x) (of_int y) False;
          offset = Point (of_int w) (of_int h) False
      in Bounds refPoint1 (Point_add refPoint1 offset))"

definition Bounds_parse :: "string \<Rightarrow> bounds option" where
  "Bounds_parse rectString =
     (let rectParts = digit_runs rectString
      in if length rectParts < 4 then None
         else case (parseInt (rectParts ! 0), parseInt (rectParts ! 1),
                    parseInt (rectParts ! 2), parseInt (rectParts ! 3)) of
            (Some x, Some y, Some w, Some h) \<Rightarrow> Some (rect_of_numbers x y w h)
          | _ \<Rightarrow> None)"

text \<open>The loop of \<open>parseArray\<close>: four numbers at a time while four are left.\<close>

fun parse_rects :: "int list \<Rightarrow> bounds list" where
  "parse_rects (x # y # w # h # rest) = rect_of_numbers x y w h # parse_rects rest"
| "parse_rects _ = []"

definition Bounds_parseArray :: "string \<Rightarrow> bounds list" where
  "Bounds_parseArray s = parse_rects (List.map_filter parseInt (digit_runs s))"

definition Bounds_getCenter :: "bounds \<Rightarrow> bool \<Rightarrow> point" where
  "Bounds_getCenter b round' =
     Point ((pt_x (bd_min b) + pt_x (bd_max b)) / 2) ((pt_y (bd_min b) + pt_y (bd_max b)) / 2) round'"

definition Bounds_round :: "bounds \<Rightarrow> bounds" where
  "Bounds_round b = \<lparr>bd_min = Point_round (bd_min b), bd_max = Point_round (bd_max b)\<rparr>"

definition Bounds_translate :: "num \<Rightarrow> num \<Rightarrow> bounds \<Rightarrow> bounds" where
  "Bounds_translate x y b =
     \<lparr>bd_min = \<lparr>pt_x = pt_x (bd_min b) + x, pt_y = pt_y (bd_min b) + y\<rparr>,
      bd_max = \<lparr>pt_x = pt_x (bd_max b) + x, pt_y = pt_y (bd_max b) + y\<rparr>\<rparr>"

definition Bounds_getBottomLeft :: "bounds \<Rightarrow> point" where
  [geo_defs]: "Bounds_getBottomLeft b = Point (pt_x (bd_min b)) (pt_y (bd_max b)) False"

definition Bounds_getTopRight :: "bounds \<Rightarrow> point" where
  [geo_defs]: "Bounds_getTopRight b = Point (pt_x (bd_max b)) (pt_y (bd_min b)) False"

definition Bounds_getTopLeft :: "bounds \<Rightarrow> point" where
  [geo_defs]: "Bounds_getTopLeft b = Point (pt_x (bd_min b)) (pt_y (bd_min b)) False"

definition Bounds_getBottomRight :: "bounds \<Rightarrow> point" where
  [geo_defs]: "Bounds_getBottomRight b = Point (pt_x (bd_max b)) (pt_y (bd_max b)) False"

definition Bounds_getSize :: "bounds \<Rightarrow> point" where
  [geo_defs]: "Bounds_getSize b = Point_subtract (bd_max b) (bd_min b)"

definition Bounds_contains :: "bounds \<Rightarrow> bounds \<Rightarrow> bool" where
  "Bounds_contains this obj \<longleftrightarrow>
     pt_x (bd_min obj) \<ge> pt_x (bd_min this) \<and> pt_x (bd_max obj) \<le> pt_x (bd_max this) \<and>
     pt_y (bd_min obj) \<ge> pt_y (bd_min this) \<and> pt_y (bd_max obj) \<le> pt_y (bd_max this)"

definition bounds_contains_point :: "bounds \<Rightarrow> point \<Rightarrow> bool" where
  "bounds_contains_point this p = Bounds_contains this \<lparr>bd_min = p, bd_max = p\<rparr>"

definition x_intersects :: "bounds \<Rightarrow> bounds \<Rightarrow> bool" where
  "x_intersects a b \<longleftrightarrow> pt_x (bd_max b) \<ge> pt_x (bd_min a) \<and> pt_x (bd_min b) \<le> pt_x (bd_max a)"

definition y_intersects :: "bounds \<Rightarrow> bounds \<Rightarrow> bool" where
  "y_intersects a b \<longleftrightarrow> pt_y (bd_max b) \<ge> pt_y (bd_min a) \<and> pt_y (bd_min b) \<le> pt_y (bd_max a)"

definition Bounds_intersects :: "bounds \<Rightarrow> bounds \<Rightarrow> bool" where
  "Bounds_intersects this other \<longleftrightarrow> x_intersects this other \<and> y_intersects this other"

definition Bounds_distanceTo :: "bounds \<Rightarrow> bounds \<Rightarrow> num" where
  "Bounds_distanceTo this other =
     (let mn = bd_min this; mx = bd_max this; mn2 = bd_min other; mx2 = bd_max other
      in if x_intersects this other then
           (if y_intersects this other then 0
            else if pt_y mx2 < pt_y mn then pt_y mn - pt_y mx2 else pt_y mn2 - pt_y mx)
         else if y_intersects this other then
           (if pt_x mx2 < pt_x mn then pt_x mn - pt_x mx2 else pt_x mn2 - pt_x mx)
         else
           let xdist = (if pt_x mn > pt_x mx2 then pt_x mn - pt_x mx2 else pt_x mn2 - pt_x mx);
               ydist = (if pt_y mn > pt_y mx2 then pt_y mn - pt_y mx2 else pt_y mn2 - pt_y mx)
           in sqrt (xdist * xdist + ydist * ydist))"

definition Bounds_add :: "bounds \<Rightarrow> point \<Rightarrow> bounds" where
  "Bounds_add b p = \<lparr>bd_min = Point_add (bd_min b) p, bd_max = Point_add (bd_max b) p\<rparr>"

definition Bounds_getPointArray :: "bounds \<Rightarrow> point list" where
  "Bounds_getPointArray b =
     [Bounds_getBottomLeft b, Bounds_getBottomRight b, Bounds_getTopLeft b, Bounds_getTopRight b]"

definition Bounds_intersectsAny :: "bounds \<Rightarrow> bounds list \<Rightarrow> bool" where
  "Bounds_intersectsAny this bs \<longleftrightarrow> (\<exists>b \<in> set bs. Bounds_intersects b this)"

definition Bounds_clampX :: "bounds \<Rightarrow> num \<Rightarrow> num" where
  [geo_defs]: "Bounds_clampX b x = max (pt_x (bd_min b)) (min (pt_x (bd_max b)) x)"

definition Bounds_clampY :: "bounds \<Rightarrow> num \<Rightarrow> num" where
  [geo_defs]: "Bounds_clampY b y = max (pt_y (bd_min b)) (min (pt_y (bd_max b)) y)"

definition Bounds_clamp_point :: "bounds \<Rightarrow> point \<Rightarrow> point" where
  [geo_defs]: "Bounds_clamp_point b p = Point (Bounds_clampX b (pt_x p)) (Bounds_clampY b (pt_y p)) False"

definition Bounds_clamp_bounds :: "bounds \<Rightarrow> bounds \<Rightarrow> bounds" where
  "Bounds_clamp_bounds b o' = Bounds (Bounds_clamp_point b (bd_min o')) (Bounds_clamp_point b (bd_max o'))"

definition Bounds_equals :: "bounds \<Rightarrow> bounds \<Rightarrow> bool" where
  "Bounds_equals a b \<longleftrightarrow> Point_equals (bd_min a) (bd_min b) \<and> Point_equals (bd_max a) (bd_max b)"

definition Bounds_toRectangle :: "bounds \<Rightarrow> num list" where
  "Bounds_toRectangle b =
     [pt_x (bd_min b), pt_y (bd_min b), pt_x (bd_max b) - pt_x (bd_min b), pt_y (bd_max b) - pt_y (bd_min b)]"

subsection \<open>Transformations\<close>

record transformation =
  tr_a :: num
  tr_b :: num
  tr_c :: num
  tr_d :: num

definition Transformation_transform :: "transformation \<Rightarrow> point \<Rightarrow> num \<Rightarrow> point" where
  "Transformation_transform t p scale' =
     (let s = (if scale' = 0 then 1 else scale')
      in \<lparr>pt_x = s * (tr_a t * pt_x p + tr_b t), pt_y = s * (tr_c t * pt_y p + tr_d t)\<rparr>)"

definition Transformation_untransform :: "transformation \<Rightarrow> point \<Rightarrow> num \<Rightarrow> point" where
  "Transformation_untransform t p scale' =
     (let s = (if scale' = 0 then 1 else scale')
      in \<lparr>pt_x = (pt_x p / s - tr_b t) / tr_a t, pt_y = (pt_y p / s - tr_d t) / tr_c t\<rparr>)"

subsection \<open>The set of points of bounds\<close>

definition bounds_ok :: "bounds \<Rightarrow> bool" where
  "bounds_ok b \<longleftrightarrow> pt_x (bd_min b) \<le> pt_x (bd_max b) \<and> pt_y (bd_min b) \<le> pt_y (bd_max b)"

lemma contains_point_iff: "bounds_contains_point b p \<longleftrightarrow>
    pt_x (bd_min b) \<le> pt_x p \<and> pt_x p \<le> pt_x (bd_max b) \<and>
    pt_y (bd_min b) \<le> pt_y p \<and> pt_y p \<le> pt_y (bd_max b)"
  by (auto simp: bounds_contains_point_def Bounds_contains_def)

lemma Bounds_ok: "bounds_ok (Bounds a b)"
  by (auto simp: Bounds_def bounds_ok_def Bounds_extend_def)

lemma Bounds_corners:
  "bd_min (Bounds a b) = \<lparr>pt_x = min (pt_x a) (pt_x b), pt_y = min (pt_y a) (pt_y b)\<rparr>"
  "bd_max (Bounds a b) = \<lparr>pt_x = max (pt_x a) (pt_x b), pt_y = max (pt_y a) (pt_y b)\<rparr>"
  by (auto simp: Bounds_def Bounds_extend_def min_def max_def)

lemma extend_ok: "(\<And>b. this = Some b \<Longrightarrow> bounds_ok b) \<Longrightarrow> bounds_ok (Bounds_extend p this)"
  by (auto simp: Bounds_extend_def bounds_ok_def split: option.splits)

lemma extend_contains: "bounds_contains_point (Bounds_extend p (Some b)) q \<longleftrightarrow>
    min (pt_x p) (pt_x (bd_min b)) \<le> pt_x q \<and> pt_x q \<le> max (pt_x p) (pt_x (bd_max b)) \<and>
    min (pt_y p) (pt_y (bd_min b)) \<le> pt_y q \<and> pt_y q \<le> max (pt_y p) (pt_y (bd_max b))"
  by (simp add: contains_point_iff Bounds_extend_def)

lemma contains_bounds_iff:
  assumes "bounds_ok b"
  shows "Bounds_contains a b \<longleftrightarrow> (\<forall>p. bounds_contains_point b p \<longrightarrow> bounds_contains_point a p)"
proof
  assume "Bounds_contains a b"
  then show "\<forall>p. bounds_contains_point b p \<longrightarrow> bounds_contains_point a p"
    by (auto simp: contains_point_iff Bounds_contains_def)
next
  assume sub: "\<forall>p. bounds_contains_point b p \<longrightarrow> bounds_contains_point a p"
  have "bounds_contains_point b (bd_min b)" "bounds_contains_point b (bd_max b)"
    using assms by (auto simp: contains_point_iff bounds_ok_def)
  with sub have "bounds_contains_point a (bd_min b)" "bounds_contains_point a (bd_max b)" by auto
  then show "Bounds_contains a b" by (auto simp: contains_point_iff Bounds_contains_def)
qed

lemma bounds_of_points_aux:
  assumes "fold (\<lambda>p b. Some (Bounds_extend p b)) ps acc = Some b" and "\<And>c. acc = Some c \<Longrightarrow> bounds_ok c"
  shows "bounds_ok b \<and> (\<forall>p \<in> set ps. bounds_contains_point b p) \<and>
    (\<forall>c p. acc = Some c \<and> bounds_contains_point c p \<longrightarrow> bounds_contains_point b p) \<and>
    (\<forall>d. (\<forall>p \<in> set ps. bounds_contains_point d p) \<and> (\<forall>c. acc = Some c \<longrightarrow> Bounds_contains d c) \<longrightarrow>
      Bounds_contains d b)"
  using assms
proof (induction ps arbitrary: acc)
  case (Cons p ps)
  let ?e = "Bounds_extend p acc"
  have ok: "bounds_ok ?e" using extend_ok Cons.prems(2) by blast
  have IH: "bounds_ok b" "\<forall>p \<in> set ps. bounds_contains_point b p"
      "\<And>q. bounds_contains_point ?e q \<Longrightarrow> bounds_contains_point b q"
      "\<And>d. (\<forall>p \<in> set ps. bounds_contains_point d p) \<Longrightarrow> Bounds_contains d ?e \<Longrightarrow> Bounds_contains d b"
    using Cons.IH [of "Some ?e"] Cons.prems(1) ok by auto
  have "bounds_contains_point ?e p"
    by (cases acc) (auto simp: Bounds_extend_def contains_point_iff)
  moreover have "bounds_contains_point ?e q" if "acc = Some c" "bounds_contains_point c q" for c q
    using that by (auto simp: Bounds_extend_def contains_point_iff)
  moreover have "Bounds_contains d ?e"
    if "bounds_contains_point d p" "\<forall>c. acc = Some c \<longrightarrow> Bounds_contains d c" for d
    using that by (cases acc) (auto simp: Bounds_extend_def contains_point_iff Bounds_contains_def)
  ultimately show ?case using IH by simp
qed (auto simp: contains_point_iff Bounds_contains_def)

subsection \<open>Distance\<close>

definition gap :: "num \<Rightarrow> num \<Rightarrow> num \<Rightarrow> num \<Rightarrow> num" where
  "gap l1 h1 l2 h2 = max 0 (max (l1 - h2) (l2 - h1))"

lemma gap_le: "l1 \<le> p \<Longrightarrow> p \<le> h1 \<Longrightarrow> l2 \<le> q \<Longrightarrow> q \<le> h2 \<Longrightarrow> gap l1 h1 l2 h2 \<le> \<bar>q - p\<bar>"
  by (auto simp: gap_def)

lemma gap_attained:
  assumes "l1 \<le> h1" and "l2 \<le> h2"
  obtains p q where "l1 \<le> p" "p \<le> h1" "l2 \<le> q" "q \<le> h2" "\<bar>q - p\<bar> = gap l1 h1 l2 h2"
proof -
  consider "h2 < l1" | "h1 < l2" | "l2 \<le> h1" "l1 \<le> h2" by linarith
  then show thesis
  proof cases
    case 1
    with assms that [of l1 h2] show thesis by (auto simp: gap_def)
  next
    case 2
    with assms that [of h1 l2] show thesis by (auto simp: gap_def)
  next
    case 3
    with assms that [of "max l1 l2" "max l1 l2"] show thesis by (auto simp: gap_def)
  qed
qed

definition xgap :: "bounds \<Rightarrow> bounds \<Rightarrow> num" where
  "xgap a b = gap (pt_x (bd_min a)) (pt_x (bd_max a)) (pt_x (bd_min b)) (pt_x (bd_max b))"

definition ygap :: "bounds \<Rightarrow> bounds \<Rightarrow> num" where
  "ygap a b = gap (pt_y (bd_min a)) (pt_y (bd_max a)) (pt_y (bd_min b)) (pt_y (bd_max b))"

lemma distance_gaps:
  assumes "bounds_ok a" and "bounds_ok b"
  shows "Bounds_distanceTo a b = sqrt (xgap a b * xgap a b + ygap a b * ygap a b)"
proof -
  have x: "xgap a b = (if x_intersects a b then 0
      else if pt_x (bd_min a) > pt_x (bd_max b) then pt_x (bd_min a) - pt_x (bd_max b)
      else pt_x (bd_min b) - pt_x (bd_max a))"
    using assms by (auto simp: xgap_def gap_def x_intersects_def bounds_ok_def)
  have y: "ygap a b = (if y_intersects a b then 0
      else if pt_y (bd_min a) > pt_y (bd_max b) then pt_y (bd_min a) - pt_y (bd_max b)
      else pt_y (bd_min b) - pt_y (bd_max a))"
    using assms by (auto simp: ygap_def gap_def y_intersects_def bounds_ok_def)
  have nn: "0 \<le> xgap a b" "0 \<le> ygap a b" by (simp_all add: xgap_def ygap_def gap_def)
  consider "x_intersects a b" "y_intersects a b" | "x_intersects a b" "\<not> y_intersects a b"
    | "\<not> x_intersects a b" "y_intersects a b" | "\<not> x_intersects a b" "\<not> y_intersects a b" by blast
  then show ?thesis
  proof cases
    case 1
    then show ?thesis by (simp add: Bounds_distanceTo_def Let_def x y)
  next
    case 2
    then have "Bounds_distanceTo a b = ygap a b" "xgap a b = 0"
      by (auto simp: Bounds_distanceTo_def Let_def x y)
    with nn show ?thesis by simp
  next
    case 3
    then have "Bounds_distanceTo a b = xgap a b" "ygap a b = 0"
      by (auto simp: Bounds_distanceTo_def Let_def x y)
    with nn show ?thesis by simp
  next
    case 4
    then show ?thesis by (simp add: Bounds_distanceTo_def Let_def x y)
  qed
qed

subsection \<open>Properties\<close>

text \<open>
  The bounds built from a list of points are the smallest that contain all of them.
\<close>

theorem bounds_of_points_least:
  assumes "Bounds_of_points ps = Some b"
  shows "(\<forall>p \<in> set ps. bounds_contains_point b p) \<and>
    (\<forall>c. (\<forall>p \<in> set ps. bounds_contains_point c p) \<longrightarrow> Bounds_contains c b)"
  using bounds_of_points_aux [of ps None b] assms by (auto simp: Bounds_of_points_def)

theorem bounds_of_points_least_witness:
  "\<exists>b. Bounds_of_points [Point 3 4 False, Point (-1) 7 False] = Some b \<and>
    bounds_contains_point b (Point 3 4 False)"
proof -
  obtain b where "Bounds_of_points [Point 3 4 False, Point (-1) 7 False] = Some b"
    by (simp add: Bounds_of_points_def)
  with bounds_of_points_least [OF this] show ?thesis by simp
qed

text \<open>
  \<open>intersects\<close> holds exactly when some point lies in both bounds, and the distance
  of two bounds is zero exactly then.
\<close>

theorem intersects_common_point:
  assumes "bounds_ok a" and "bounds_ok b"
  shows "(Bounds_intersects a b \<longleftrightarrow> (\<exists>p. bounds_contains_point a p \<and> bounds_contains_point b p)) \<and>
    (Bounds_distanceTo a b = 0 \<longleftrightarrow> Bounds_intersects a b)"
proof
  show "Bounds_intersects a b \<longleftrightarrow> (\<exists>p. bounds_contains_point a p \<and> bounds_contains_point b p)"
  proof
    assume i: "Bounds_intersects a b"
    let ?p = "\<lparr>pt_x = max (pt_x (bd_min a)) (pt_x (bd_min b)), pt_y = max (pt_y (bd_min a)) (pt_y (bd_min b))\<rparr>"
    have "bounds_contains_point a ?p \<and> bounds_contains_point b ?p"
      using i assms
      by (auto simp: contains_point_iff Bounds_intersects_def x_intersects_def y_intersects_def bounds_ok_def)
    then show "\<exists>p. bounds_contains_point a p \<and> bounds_contains_point b p" by blast
  qed (auto simp: contains_point_iff Bounds_intersects_def x_intersects_def y_intersects_def)
next
  have "xgap a b = 0 \<longleftrightarrow> x_intersects a b" "ygap a b = 0 \<longleftrightarrow> y_intersects a b"
    using assms
    by (auto simp: xgap_def ygap_def gap_def x_intersects_def y_intersects_def bounds_ok_def max_def)
  then show "Bounds_distanceTo a b = 0 \<longleftrightarrow> Bounds_intersects a b"
    unfolding distance_gaps [OF assms] Bounds_intersects_def
    by (simp add: sum_squares_eq_zero_iff)
qed

theorem intersects_common_point_witness:
  "Bounds_distanceTo (rect_of_numbers 0 0 4 4) (rect_of_numbers 4 4 2 2) = 0 \<longleftrightarrow>
    Bounds_intersects (rect_of_numbers 0 0 4 4) (rect_of_numbers 4 4 2 2)"
  using intersects_common_point [of "rect_of_numbers 0 0 4 4" "rect_of_numbers 4 4 2 2"]
  by (simp add: rect_of_numbers_def Bounds_ok Let_def)

text \<open>
  The distance of two bounds is the least distance between a point of the one and a
  point of the other, and it is attained.
\<close>

theorem distance_least:
  assumes "bounds_ok a" and "bounds_ok b"
  shows "(\<forall>p q. bounds_contains_point a p \<and> bounds_contains_point b q \<longrightarrow>
      Bounds_distanceTo a b \<le> Point_distanceTo p q) \<and>
    (\<exists>p q. bounds_contains_point a p \<and> bounds_contains_point b q \<and>
      Point_distanceTo p q = Bounds_distanceTo a b)"
proof
  show "\<forall>p q. bounds_contains_point a p \<and> bounds_contains_point b q \<longrightarrow>
      Bounds_distanceTo a b \<le> Point_distanceTo p q"
  proof (intro allI impI)
    fix p q assume pq: "bounds_contains_point a p \<and> bounds_contains_point b q"
    then have "xgap a b \<le> \<bar>pt_x q - pt_x p\<bar>" "ygap a b \<le> \<bar>pt_y q - pt_y p\<bar>"
      by (auto simp: contains_point_iff xgap_def ygap_def intro!: gap_le)
    moreover have "0 \<le> xgap a b" "0 \<le> ygap a b" by (simp_all add: xgap_def ygap_def gap_def)
    ultimately have "(xgap a b)\<^sup>2 \<le> \<bar>pt_x q - pt_x p\<bar>\<^sup>2" "(ygap a b)\<^sup>2 \<le> \<bar>pt_y q - pt_y p\<bar>\<^sup>2"
      by (simp_all only: power_mono)
    then show "Bounds_distanceTo a b \<le> Point_distanceTo p q"
      unfolding distance_gaps [OF assms] Point_distanceTo_def Let_def
      by (simp add: power2_eq_square)
  qed
next
  obtain px qx where x: "pt_x (bd_min a) \<le> px" "px \<le> pt_x (bd_max a)"
      "pt_x (bd_min b) \<le> qx" "qx \<le> pt_x (bd_max b)" "\<bar>qx - px\<bar> = xgap a b"
    unfolding xgap_def using gap_attained assms by (metis bounds_ok_def)
  obtain py qy where y: "pt_y (bd_min a) \<le> py" "py \<le> pt_y (bd_max a)"
      "pt_y (bd_min b) \<le> qy" "qy \<le> pt_y (bd_max b)" "\<bar>qy - py\<bar> = ygap a b"
    unfolding ygap_def using gap_attained assms by (metis bounds_ok_def)
  have "Point_distanceTo \<lparr>pt_x = px, pt_y = py\<rparr> \<lparr>pt_x = qx, pt_y = qy\<rparr> = Bounds_distanceTo a b"
    unfolding distance_gaps [OF assms] x(5) [symmetric] y(5) [symmetric] Point_distanceTo_def
    by (simp add: Let_def)
  with x y show "\<exists>p q. bounds_contains_point a p \<and> bounds_contains_point b q \<and>
      Point_distanceTo p q = Bounds_distanceTo a b"
    by (intro exI [of _ "\<lparr>pt_x = px, pt_y = py\<rparr>"] exI [of _ "\<lparr>pt_x = qx, pt_y = qy\<rparr>"])
      (simp add: contains_point_iff)
qed

theorem distance_least_witness:
  "\<exists>p q. bounds_contains_point (rect_of_numbers 0 0 4 4) p \<and>
    bounds_contains_point (rect_of_numbers 7 8 2 2) q \<and>
    Point_distanceTo p q = Bounds_distanceTo (rect_of_numbers 0 0 4 4) (rect_of_numbers 7 8 2 2)"
  using distance_least [of "rect_of_numbers 0 0 4 4" "rect_of_numbers 7 8 2 2"]
  by (simp add: rect_of_numbers_def Bounds_ok Let_def)

text \<open>
  Undoing a transformation with non-zero coefficients gives back the point, at every
  scale (a scale of zero counts as one).
\<close>

theorem untransform_transform:
  assumes "tr_a t \<noteq> 0" and "tr_c t \<noteq> 0"
  shows "Transformation_untransform t (Transformation_transform t p s) s = p"
  using assms by (cases p) (simp add: Transformation_untransform_def Transformation_transform_def Let_def)

end
