(* ===== verification/Rectangles.thy ===== *)
theory Rectangles
  imports Geometry "HOL-Library.Multiset"
begin

section \<open>Rectangles in twips, core pixels and CSS pixels\<close>

text \<open>
  \<open>browser/src/core/geometry.ts\<close> (\<open>SimplePoint\<close>, \<open>SimpleRectangle\<close>, \<open>rectanglesToPolygon\<close>),
  \<open>browser/src/app/Rectangle.ts\<close> and the rectangle functions of \<open>browser/src/app/LOUtil.ts\<close>.
  A rectangle given as an array \<open>(x, y, width, height)\<close> is a \<open>rect4\<close>. The global \<open>app\<close> object
  contributes three numbers, the conversion factors of \<open>app_scale\<close>. The getters for view
  pixels (\<open>vX\<close>, \<open>v1X\<close> and so on) ask the active view layout and are not modelled.
\<close>

record rect4 =
  r_x :: num
  r_y :: num
  r_w :: num
  r_h :: num

record app_scale =
  twipsToPixels :: num
  pixelsToTwips :: num
  dpiScale :: num

subsection \<open>Intersection of rectangle arrays\<close>

definition doRectanglesIntersect :: "rect4 \<Rightarrow> rect4 \<Rightarrow> bool" where
  "doRectanglesIntersect a b \<longleftrightarrow>
     \<bar>r_x a + r_w a * 0.5 - (r_x b + r_w b * 0.5)\<bar> < 0.5 * (r_w a + r_w b) \<and>
     \<bar>r_y a + r_h a * 0.5 - (r_y b + r_h b * 0.5)\<bar> < 0.5 * (r_h a + r_h b)"

definition getIntersectionRectangle :: "rect4 \<Rightarrow> rect4 \<Rightarrow> rect4 option" where
  "getIntersectionRectangle a b =
     (if doRectanglesIntersect a b then
        let x = (if r_x a > r_x b then r_x a else r_x b);
            y = (if r_y a > r_y b then r_y a else r_y b);
            w = (if r_x a + r_w a < r_x b + r_w b then r_x a + r_w a - x else r_x b + r_w b - x);
            h = (if r_y a + r_h a < r_y b + r_h b then r_y a + r_h a - y else r_y b + r_h b - y)
        in Some \<lparr>r_x = x, r_y = y, r_w = w, r_h = h\<rparr>
      else None)"

subsection \<open>The class Rectangle\<close>

definition Rectangle_x2 :: "rect4 \<Rightarrow> num" where [geo_defs]: "Rectangle_x2 r = r_x r + r_w r"
definition Rectangle_y2 :: "rect4 \<Rightarrow> num" where [geo_defs]: "Rectangle_y2 r = r_y r + r_h r"
definition Rectangle_area :: "rect4 \<Rightarrow> num" where [geo_defs]: "Rectangle_area r = r_w r * r_h r"
definition Rectangle_rx1 :: "rect4 \<Rightarrow> int" where [geo_defs]: "Rectangle_rx1 r = js_round (r_x r)"
definition Rectangle_ry1 :: "rect4 \<Rightarrow> int" where [geo_defs]: "Rectangle_ry1 r = js_round (r_y r)"
definition Rectangle_rx2 :: "rect4 \<Rightarrow> int" where [geo_defs]: "Rectangle_rx2 r = js_round (Rectangle_x2 r)"
definition Rectangle_ry2 :: "rect4 \<Rightarrow> int" where [geo_defs]: "Rectangle_ry2 r = js_round (Rectangle_y2 r)"
definition Rectangle_rwidth :: "rect4 \<Rightarrow> int" where
  [geo_defs]: "Rectangle_rwidth r = Rectangle_rx2 r - Rectangle_rx1 r"
definition Rectangle_rheight :: "rect4 \<Rightarrow> int" where
  [geo_defs]: "Rectangle_rheight r = Rectangle_ry2 r - Rectangle_ry1 r"

definition Rectangle_isValid :: "rect4 \<Rightarrow> bool" where
  "Rectangle_isValid r \<longleftrightarrow> r_x r \<le> Rectangle_x2 r \<and> r_y r \<le> Rectangle_y2 r"

text \<open>The second argument of the constructor call in \<open>clone\<close> is \<open>this.x2\<close>.\<close>

definition Rectangle_clone :: "rect4 \<Rightarrow> rect4" where
  "Rectangle_clone r = \<lparr>r_x = r_x r, r_y = Rectangle_x2 r, r_w = r_w r, r_h = r_h r\<rparr>"

definition Rectangle_containsPoint :: "rect4 \<Rightarrow> num \<Rightarrow> num \<Rightarrow> bool" where
  "Rectangle_containsPoint r x y \<longleftrightarrow>
     x \<ge> r_x r \<and> x \<le> Rectangle_x2 r \<and> y \<ge> r_y r \<and> y \<le> Rectangle_y2 r"

definition Rectangle_containsPixel :: "rect4 \<Rightarrow> num \<Rightarrow> num \<Rightarrow> bool" where
  "Rectangle_containsPixel r px py \<longleftrightarrow>
     px \<ge> of_int (Rectangle_rx1 r) \<and> px \<le> of_int (Rectangle_rx2 r) \<and>
     py \<ge> of_int (Rectangle_ry1 r) \<and> py \<le> of_int (Rectangle_ry2 r)"

definition Rectangle_containsXOrdinate :: "rect4 \<Rightarrow> num \<Rightarrow> bool" where
  "Rectangle_containsXOrdinate r ox \<longleftrightarrow> ox \<ge> r_x r \<and> ox \<le> Rectangle_x2 r"

definition Rectangle_containsYOrdinate :: "rect4 \<Rightarrow> num \<Rightarrow> bool" where
  "Rectangle_containsYOrdinate r oy \<longleftrightarrow> oy \<ge> r_y r \<and> oy \<le> Rectangle_y2 r"

definition Rectangle_containsPixelOrdinateX :: "rect4 \<Rightarrow> num \<Rightarrow> bool" where
  "Rectangle_containsPixelOrdinateX r ox \<longleftrightarrow>
     ox \<ge> of_int (Rectangle_rx1 r) \<and> ox \<le> of_int (Rectangle_rx2 r)"

definition Rectangle_containsPixelOrdinateY :: "rect4 \<Rightarrow> num \<Rightarrow> bool" where
  "Rectangle_containsPixelOrdinateY r oy \<longleftrightarrow>
     oy \<ge> of_int (Rectangle_ry1 r) \<and> oy \<le> of_int (Rectangle_ry2 r)"

definition Rectangle_setWidth :: "num \<Rightarrow> rect4 \<Rightarrow> rect4" where
  "Rectangle_setWidth w r = r\<lparr>r_w := w\<rparr>"

definition Rectangle_setHeight :: "num \<Rightarrow> rect4 \<Rightarrow> rect4" where
  "Rectangle_setHeight h r = r\<lparr>r_h := h\<rparr>"

definition Rectangle_getCenter :: "rect4 \<Rightarrow> num \<times> num" where
  "Rectangle_getCenter r = ((Rectangle_x2 r + r_x r) / 2, (Rectangle_y2 r + r_y r) / 2)"

definition Rectangle_getPxCenter :: "rect4 \<Rightarrow> int \<times> int" where
  "Rectangle_getPxCenter r =
     (js_round (of_int (Rectangle_rx2 r + Rectangle_rx1 r) / 2),
      js_round (of_int (Rectangle_ry2 r + Rectangle_ry1 r) / 2))"

definition Rectangle_setX1 :: "num \<Rightarrow> rect4 \<Rightarrow> rect4" where
  "Rectangle_setX1 x1 r = r\<lparr>r_w := r_w r + (r_x r - x1), r_x := x1\<rparr>"

definition Rectangle_setX2 :: "num \<Rightarrow> rect4 \<Rightarrow> rect4" where
  "Rectangle_setX2 x2 r = r\<lparr>r_w := x2 - r_x r\<rparr>"

definition Rectangle_setY1 :: "num \<Rightarrow> rect4 \<Rightarrow> rect4" where
  "Rectangle_setY1 y1 r = r\<lparr>r_h := r_h r + (r_y r - y1), r_y := y1\<rparr>"

definition Rectangle_setY2 :: "num \<Rightarrow> rect4 \<Rightarrow> rect4" where
  "Rectangle_setY2 y2 r = r\<lparr>r_h := y2 - r_y r\<rparr>"

definition Rectangle_setArea :: "num \<Rightarrow> bool \<Rightarrow> rect4 \<Rightarrow> rect4" where
  "Rectangle_setArea area preserveHeight r =
     (if \<not> preserveHeight then Rectangle_setHeight (area / r_w r) r
      else Rectangle_setWidth (area / r_h r) r)"

definition Rectangle_moveBy :: "num \<Rightarrow> num \<Rightarrow> rect4 \<Rightarrow> rect4" where
  "Rectangle_moveBy dx dy r = r\<lparr>r_x := r_x r + dx, r_y := r_y r + dy\<rparr>"

definition Rectangle_moveTo :: "num \<Rightarrow> num \<Rightarrow> rect4 \<Rightarrow> rect4" where
  "Rectangle_moveTo x y r = r\<lparr>r_x := x, r_y := y\<rparr>"

subsection \<open>Simple points and rectangles\<close>

record simple_point =
  spt_x :: int
  spt_y :: int
  spt_part :: int
  spt_mode :: int

definition SimplePoint :: "num \<Rightarrow> num \<Rightarrow> int \<Rightarrow> int \<Rightarrow> simple_point" where
  "SimplePoint x y part mode = \<lparr>spt_x = js_round x, spt_y = js_round y, spt_part = part, spt_mode = mode\<rparr>"

text \<open>The conversions from twips used by the \<open>p\<close> and \<open>c\<close> getters, and back by the setters.\<close>

definition toCore :: "app_scale \<Rightarrow> int \<Rightarrow> int" where
  [geo_defs]: "toCore app v = js_round (of_int v * twipsToPixels app)"

definition toCss :: "app_scale \<Rightarrow> int \<Rightarrow> int" where
  [geo_defs]: "toCss app v = js_round (of_int v * twipsToPixels app / dpiScale app)"

definition fromCore :: "app_scale \<Rightarrow> num \<Rightarrow> int" where
  [geo_defs]: "fromCore app v = js_round (v * pixelsToTwips app)"

definition fromCss :: "app_scale \<Rightarrow> num \<Rightarrow> int" where
  [geo_defs]: "fromCss app v = js_round (v * dpiScale app * pixelsToTwips app)"

definition SimplePoint_toArray :: "simple_point \<Rightarrow> int \<times> int" where
  "SimplePoint_toArray p = (spt_x p, spt_y p)"

definition SimplePoint_pToArray :: "app_scale \<Rightarrow> simple_point \<Rightarrow> int \<times> int" where
  "SimplePoint_pToArray app p = (toCore app (spt_x p), toCore app (spt_y p))"

definition SimplePoint_cToArray :: "app_scale \<Rightarrow> simple_point \<Rightarrow> int \<times> int" where
  "SimplePoint_cToArray app p = (toCss app (spt_x p), toCss app (spt_y p))"

definition SimplePoint_equals :: "int \<times> int \<Rightarrow> num \<times> num \<Rightarrow> bool" where
  "SimplePoint_equals a q \<longleftrightarrow> fst a = js_round (fst q) \<and> snd a = js_round (snd q)"

definition SimplePoint_distanceTo :: "int \<times> int \<Rightarrow> num \<times> num \<Rightarrow> num" where
  "SimplePoint_distanceTo a q = sqrt ((of_int (fst a) - fst q) ^ 2 + (of_int (snd a) - snd q) ^ 2)"

definition SimplePoint_fromCorePixels :: "app_scale \<Rightarrow> num \<times> num \<Rightarrow> int \<Rightarrow> int \<Rightarrow> simple_point" where
  "SimplePoint_fromCorePixels app q part mode =
     SimplePoint (of_int (fromCore app (fst q))) (of_int (fromCore app (snd q))) part mode"

record simple_rectangle =
  sr_x1 :: int
  sr_y1 :: int
  sr_width :: int
  sr_height :: int
  sr_part :: int
  sr_mode :: int

definition SimpleRectangle :: "num \<Rightarrow> num \<Rightarrow> num \<Rightarrow> num \<Rightarrow> int \<Rightarrow> int \<Rightarrow> simple_rectangle" where
  "SimpleRectangle x y w h part mode =
     \<lparr>sr_x1 = js_round x, sr_y1 = js_round y, sr_width = js_round w, sr_height = js_round h,
      sr_part = part, sr_mode = mode\<rparr>"

type_synonym int_rect = "int \<times> int \<times> int \<times> int"

definition SimpleRectangle_toArray :: "simple_rectangle \<Rightarrow> int_rect" where
  "SimpleRectangle_toArray r = (sr_x1 r, sr_y1 r, sr_width r, sr_height r)"

definition SimpleRectangle_pToArray :: "app_scale \<Rightarrow> simple_rectangle \<Rightarrow> int_rect" where
  "SimpleRectangle_pToArray app r =
     (toCore app (sr_x1 r), toCore app (sr_y1 r), toCore app (sr_width r), toCore app (sr_height r))"

definition SimpleRectangle_cToArray :: "app_scale \<Rightarrow> simple_rectangle \<Rightarrow> int_rect" where
  "SimpleRectangle_cToArray app r =
     (toCss app (sr_x1 r), toCss app (sr_y1 r), toCss app (sr_width r), toCss app (sr_height r))"

text \<open>The checkers, on the array of the unit asked for: \<open>x2\<close> is \<open>x1 + width\<close> in that unit.\<close>

definition array_containsX :: "int_rect \<Rightarrow> num \<Rightarrow> bool" where
  "array_containsX a x = (let (x1, y1, w, h) = a in js_round x \<ge> x1 \<and> js_round x \<le> x1 + w)"

definition array_containsY :: "int_rect \<Rightarrow> num \<Rightarrow> bool" where
  "array_containsY a y = (let (x1, y1, w, h) = a in js_round y \<ge> y1 \<and> js_round y \<le> y1 + h)"

definition array_containsPoint :: "int_rect \<Rightarrow> num \<times> num \<Rightarrow> bool" where
  "array_containsPoint a q \<longleftrightarrow> array_containsX a (fst q) \<and> array_containsY a (snd q)"

definition array_containsRectangle :: "int_rect \<Rightarrow> rect4 \<Rightarrow> bool" where
  "array_containsRectangle a r \<longleftrightarrow> array_containsPoint a (r_x r, r_y r) \<and>
     array_containsPoint a (r_x r + r_w r, r_y r + r_h r)"

definition array_rect4 :: "int_rect \<Rightarrow> rect4" where
  "array_rect4 a = (let (x, y, w, h) = a in \<lparr>r_x = of_int x, r_y = of_int y, r_w = of_int w, r_h = of_int h\<rparr>)"

definition array_intersectsRectangle :: "int_rect \<Rightarrow> rect4 \<Rightarrow> bool" where
  "array_intersectsRectangle a r = doRectanglesIntersect (array_rect4 a) r"

definition array_equals :: "int_rect \<Rightarrow> rect4 \<Rightarrow> bool" where
  "array_equals a r = (let (x, y, w, h) = a in
     x = js_round (r_x r) \<and> y = js_round (r_y r) \<and> w = js_round (r_w r) \<and> h = js_round (r_h r))"

text \<open>
  \<open>cEquals\<close> takes an array: the second comparison reads it at index \<open>this.y1\<close>, a missing
  entry being \<open>NaN\<close> and so never equal.
\<close>

definition SimpleRectangle_cEquals :: "app_scale \<Rightarrow> simple_rectangle \<Rightarrow> num list \<Rightarrow> bool" where
  "SimpleRectangle_cEquals app r a =
     (let (x, y, w, h) = SimpleRectangle_cToArray app r;
          eq = (\<lambda>v i. case js_nth a i of None \<Rightarrow> False | Some e \<Rightarrow> v = js_round e)
      in eq x 0 \<and> eq y (sr_y1 r) \<and> eq w 2 \<and> eq h 3)"

definition SimpleRectangle_set_x2 :: "num \<Rightarrow> simple_rectangle \<Rightarrow> simple_rectangle" where
  "SimpleRectangle_set_x2 x2 r = r\<lparr>sr_width := js_round x2 - sr_x1 r\<rparr>"

definition SimpleRectangle_set_y2 :: "num \<Rightarrow> simple_rectangle \<Rightarrow> simple_rectangle" where
  "SimpleRectangle_set_y2 y2 r = r\<lparr>sr_height := js_round y2 - sr_y1 r\<rparr>"

definition SimpleRectangle_set_pX2 :: "app_scale \<Rightarrow> num \<Rightarrow> simple_rectangle \<Rightarrow> simple_rectangle" where
  "SimpleRectangle_set_pX2 app x2 r = r\<lparr>sr_width := fromCore app x2 - sr_x1 r\<rparr>"

definition SimpleRectangle_set_pY2 :: "app_scale \<Rightarrow> num \<Rightarrow> simple_rectangle \<Rightarrow> simple_rectangle" where
  "SimpleRectangle_set_pY2 app y2 r = r\<lparr>sr_height := fromCore app y2 - sr_y1 r\<rparr>"

definition SimpleRectangle_set_cX2 :: "app_scale \<Rightarrow> num \<Rightarrow> simple_rectangle \<Rightarrow> simple_rectangle" where
  "SimpleRectangle_set_cX2 app x2 r = r\<lparr>sr_width := fromCss app x2\<rparr>"

definition SimpleRectangle_set_cY2 :: "app_scale \<Rightarrow> num \<Rightarrow> simple_rectangle \<Rightarrow> simple_rectangle" where
  "SimpleRectangle_set_cY2 app y2 r = r\<lparr>sr_height := fromCss app y2\<rparr>"

definition SimpleRectangle_moveTo :: "num \<times> num \<Rightarrow> simple_rectangle \<Rightarrow> simple_rectangle" where
  "SimpleRectangle_moveTo q r = r\<lparr>sr_x1 := js_round (fst q), sr_y1 := js_round (snd q)\<rparr>"

definition SimpleRectangle_moveBy :: "num \<times> num \<Rightarrow> simple_rectangle \<Rightarrow> simple_rectangle" where
  "SimpleRectangle_moveBy q r =
     r\<lparr>sr_x1 := sr_x1 r + js_round (fst q), sr_y1 := sr_y1 r + js_round (snd q)\<rparr>"

definition SimpleRectangle_pMoveTo :: "app_scale \<Rightarrow> num \<times> num \<Rightarrow> simple_rectangle \<Rightarrow> simple_rectangle" where
  "SimpleRectangle_pMoveTo app q r = r\<lparr>sr_x1 := fromCore app (fst q), sr_y1 := fromCore app (snd q)\<rparr>"

definition SimpleRectangle_pMoveBy :: "app_scale \<Rightarrow> num \<times> num \<Rightarrow> simple_rectangle \<Rightarrow> simple_rectangle" where
  "SimpleRectangle_pMoveBy app q r =
     r\<lparr>sr_x1 := sr_x1 r + fromCore app (fst q), sr_y1 := sr_y1 r + fromCore app (snd q)\<rparr>"

definition SimpleRectangle_cMoveTo :: "app_scale \<Rightarrow> num \<times> num \<Rightarrow> simple_rectangle \<Rightarrow> simple_rectangle" where
  "SimpleRectangle_cMoveTo app q r = r\<lparr>sr_x1 := fromCss app (fst q), sr_y1 := fromCss app (snd q)\<rparr>"

definition SimpleRectangle_cMoveBy :: "app_scale \<Rightarrow> num \<times> num \<Rightarrow> simple_rectangle \<Rightarrow> simple_rectangle" where
  "SimpleRectangle_cMoveBy app q r =
     r\<lparr>sr_x1 := sr_x1 r + fromCss app (fst q), sr_y1 := sr_y1 r + fromCss app (snd q)\<rparr>"

definition SimpleRectangle_fromCorePixels :: "app_scale \<Rightarrow> rect4 \<Rightarrow> int \<Rightarrow> int \<Rightarrow> simple_rectangle" where
  "SimpleRectangle_fromCorePixels app r part mode =
     SimpleRectangle (of_int (fromCore app (r_x r))) (of_int (fromCore app (r_y r)))
       (of_int (fromCore app (r_w r))) (of_int (fromCore app (r_h r))) part mode"

subsection \<open>Rectangles to polygon\<close>

text \<open>A row: its first rectangle, which gives the row its height, and the others.\<close>

type_synonym rect_row = "rect4 list"

fun add_to_rows :: "num \<Rightarrow> rect4 \<Rightarrow> rect_row list \<Rightarrow> rect_row list" where
  "add_to_rows tolerance r [] = [[r]]"
| "add_to_rows tolerance r (row # rows) =
     (if \<bar>r_y (hd row) - r_y r\<bar> \<le> tolerance then (row @ [r]) # rows
      else row # add_to_rows tolerance r rows)"

definition row_array :: "num \<Rightarrow> rect4 list \<Rightarrow> rect_row list" where
  "row_array tolerance rs = fold (add_to_rows tolerance) rs []"

definition final_row :: "rect_row \<Rightarrow> rect4" where
  "final_row row =
     (let leftmost = fold (\<lambda>r l. if r_x r < l then r_x r else l) (tl row) (r_x (hd row));
          rightmost = fold (\<lambda>r m. if r_x r + r_w r > m then r_x r + r_w r else m) (tl row)
            (r_x (hd row) + r_w (hd row))
      in \<lparr>r_x = leftmost, r_y = r_y (hd row), r_w = rightmost - leftmost, r_h = r_h (hd row)\<rparr>)"

text \<open>The two nested loops that sort the rows by \<open>y\<close>.\<close>

function sort_inner :: "nat \<Rightarrow> nat \<Rightarrow> rect4 list \<Rightarrow> rect4 list" where
  "sort_inner i j rows =
     (if j < length rows then
        sort_inner i (Suc j)
          (if r_y (rows ! i) > r_y (rows ! j) then rows[i := rows ! j, j := rows ! i] else rows)
      else rows)"
  by pat_completeness auto
termination
  by (relation "measure (\<lambda>(i, j, rows). length rows - j)") auto

declare sort_inner.simps [simp del]

lemma length_sort_inner [simp]: "length (sort_inner i j rows) = length rows"
proof (induction i j rows rule: sort_inner.induct)
  case (1 i j rows)
  then show ?case by (auto simp: sort_inner.simps [of i j])
qed

function sort_rows :: "nat \<Rightarrow> rect4 list \<Rightarrow> rect4 list" where
  "sort_rows i rows = (if i < length rows then sort_rows (Suc i) (sort_inner i (Suc i) rows) else rows)"
  by pat_completeness auto
termination
  by (relation "measure (\<lambda>(i, rows). length rows - i)") auto

declare sort_rows.simps [simp del]

definition finalRows :: "num \<Rightarrow> rect4 list \<Rightarrow> rect4 list" where
  "finalRows tolerance rs = sort_rows 0 (map final_row (row_array tolerance rs))"

text \<open>A polygon is a flat array of coordinates in the code, a list of points here.\<close>

type_synonym vertex = "num \<times> num"

definition push_unless_last :: "vertex \<Rightarrow> vertex list \<Rightarrow> vertex list" where
  "push_unless_last p polygon = (if js_last polygon = Some p then polygon else polygon @ [p])"

fun left_side :: "rect4 list \<Rightarrow> vertex list \<Rightarrow> vertex list" where
  "left_side [] polygon = polygon"
| "left_side (r # rs) polygon =
     left_side rs (push_unless_last (r_x r, r_y r) polygon @ [(r_x r, r_y r + r_h r)])"

fun right_side :: "rect4 list \<Rightarrow> vertex list \<Rightarrow> vertex list" where
  "right_side [] polygon = polygon"
| "right_side (r # rs) polygon =
     right_side rs (push_unless_last (r_x r + r_w r, r_y r + r_h r) polygon @ [(r_x r + r_w r, r_y r)])"

definition rows_polygon :: "rect4 list \<Rightarrow> vertex list" where
  "rows_polygon rows =
     (case rows of
        [] \<Rightarrow> []
      | r # rs \<Rightarrow>
          let top = [(r_x r + r_w r, r_y r), (r_x r, r_y r), (r_x r, r_y r + r_h r)];
              l = last rows;
              down = left_side rs top @ [(r_x l + r_w l, r_y l + r_h l)]
          in right_side (rev rows) down)"

definition rectanglesToPolygon :: "rect4 list \<Rightarrow> num \<Rightarrow> num \<Rightarrow> vertex list" where
  "rectanglesToPolygon rs converterConstant tolerance =
     (let polygon = rows_polygon (finalRows tolerance rs)
      in if converterConstant \<noteq> 1
         then map (\<lambda>(x, y). (of_int (js_round (converterConstant * x)),
                of_int (js_round (converterConstant * y)))) polygon
         else polygon)"

subsection \<open>Facts\<close>

lemma intersect_iff: "doRectanglesIntersect a b \<longleftrightarrow>
    r_x a < r_x b + r_w b \<and> r_x b < r_x a + r_w a \<and> r_y a < r_y b + r_h b \<and> r_y b < r_y a + r_h a"
proof -
  have "\<bar>p + v * 0.5 - (q + w * 0.5)\<bar> < 0.5 * (v + w) \<longleftrightarrow> p < q + w \<and> q < p + v" for p q v w :: num
    unfolding abs_less_iff by auto
  then show ?thesis unfolding doRectanglesIntersect_def by blast
qed

lemma core_roundtrip:
  assumes "pixelsToTwips app > 1" and "twipsToPixels app * pixelsToTwips app = 1"
  shows "toCore app (fromCore app (of_int x)) = x"
proof -
  let ?p = "pixelsToTwips app" and ?t = "twipsToPixels app"
  define e where "e = of_int (js_round (of_int x * ?p)) - of_int x * ?p"
  have e: "\<bar>e\<bar> \<le> 1 / 2" using js_round_bounds [of "of_int x * ?p"] unfolding e_def by linarith
  have t: "?t = 1 / ?p" using assms by (simp add: field_simps)
  have "of_int (js_round (of_int x * ?p)) * ?t = of_int x + e / ?p"
    unfolding e_def t using assms(1) by (simp add: field_simps)
  moreover have "\<bar>e / ?p\<bar> < 1 / 2"
    using e assms(1) by (simp add: abs_divide divide_less_eq)
  ultimately show ?thesis
    unfolding toCore_def fromCore_def by (intro js_round_half_range) simp
qed

text \<open>The exchange sort.\<close>

definition min_prefix :: "nat \<Rightarrow> rect4 list \<Rightarrow> bool" where
  "min_prefix i rows \<longleftrightarrow> (\<forall>a b. a < i \<longrightarrow> a < b \<longrightarrow> b < length rows \<longrightarrow> r_y (rows ! a) \<le> r_y (rows ! b))"

lemma swap_min_prefix:
  assumes "min_prefix i rows" and "i < j" and "j < length rows"
  shows "min_prefix i (rows[i := rows ! j, j := rows ! i])"
  unfolding min_prefix_def
proof (intro allI impI)
  fix a b assume ab: "a < i" "a < b" "b < length (rows[i := rows ! j, j := rows ! i])"
  have le: "r_y (rows ! a) \<le> r_y (rows ! c)" if "a < c" "c < length rows" for c
    using assms(1) ab(1) that by (simp add: min_prefix_def)
  have "rows[i := rows ! j, j := rows ! i] ! a = rows ! a" using ab(1) assms(2) by simp
  moreover have "rows[i := rows ! j, j := rows ! i] ! b \<in> {rows ! b, rows ! i, rows ! j}"
    using ab assms by (auto simp: nth_list_update)
  ultimately show "r_y (rows[i := rows ! j, j := rows ! i] ! a) \<le> r_y (rows[i := rows ! j, j := rows ! i] ! b)"
    using le [of b] le [of i] le [of j] ab assms by auto
qed

lemma sort_inner_correct:
  assumes "i < j" and "j \<le> length rows" and "min_prefix i rows"
    and "\<And>k. i < k \<Longrightarrow> k < j \<Longrightarrow> r_y (rows ! i) \<le> r_y (rows ! k)"
  shows "mset (sort_inner i j rows) = mset rows \<and> min_prefix (Suc i) (sort_inner i j rows)"
  using assms
proof (induction "length rows - j" arbitrary: j rows)
  case 0
  then have "sort_inner i j rows = rows" by (simp add: sort_inner.simps [of i j])
  moreover have "min_prefix (Suc i) rows"
    using 0 by (auto simp: min_prefix_def less_Suc_eq)
  ultimately show ?case by simp
next
  case (Suc m)
  then have j: "j < length rows" by simp
  define rows' where "rows' = (if r_y (rows ! i) > r_y (rows ! j) then rows[i := rows ! j, j := rows ! i] else rows)"
  have len: "length rows' = length rows" by (simp add: rows'_def)
  have "r_y (rows' ! i) \<le> r_y (rows' ! k)" if "i < k" "k < Suc j" for k
  proof (cases "k = j")
    case True
    then show ?thesis using Suc.prems(1) j by (auto simp: rows'_def nth_list_update)
  next
    case False
    then have "r_y (rows ! i) \<le> r_y (rows ! k)" using Suc.prems(4) that by simp
    then show ?thesis using False that Suc.prems(1) j by (auto simp: rows'_def nth_list_update)
  qed
  moreover have "min_prefix i rows'"
    using swap_min_prefix [OF Suc.prems(3,1) j] Suc.prems(3) by (simp add: rows'_def)
  ultimately have "mset (sort_inner i (Suc j) rows') = mset rows' \<and> min_prefix (Suc i) (sort_inner i (Suc j) rows')"
    using Suc.hyps(1) [of rows' "Suc j"] Suc.hyps(2) Suc.prems(1) j len by simp
  moreover have "mset rows' = mset rows"
    using Suc.prems(1) j by (simp add: rows'_def mset_swap)
  moreover have "sort_inner i j rows = sort_inner i (Suc j) rows'"
    using j by (simp add: sort_inner.simps [of i j] rows'_def)
  ultimately show ?case by simp
qed

lemma sort_rows_correct:
  "min_prefix i rows \<Longrightarrow> mset (sort_rows i rows) = mset rows \<and> sorted (map r_y (sort_rows i rows))"
proof (induction i rows rule: sort_rows.induct)
  case (1 i rows)
  show ?case
  proof (cases "i < length rows")
    case True
    note inner = sort_inner_correct [of i "Suc i" rows, OF _ _ 1(2)]
    show ?thesis using 1(1) [OF True] inner True by (simp add: sort_rows.simps [of i])
  next
    case False
    have "sorted (map r_y rows)"
      unfolding sorted_iff_nth_mono_less using 1(2) False by (auto simp: min_prefix_def)
    with False show ?thesis by (simp add: sort_rows.simps [of i])
  qed
qed

lemma finalRows_sorted:
  "sorted (map r_y (finalRows tol rs))"
  "mset (finalRows tol rs) = mset (map final_row (row_array tol rs))"
  using sort_rows_correct [of 0 "map final_row (row_array tol rs)"]
  by (simp_all add: finalRows_def min_prefix_def)

text \<open>Every rectangle is in a row whose first rectangle has nearly the same \<open>y\<close>.\<close>

definition rows_ok :: "num \<Rightarrow> rect_row list \<Rightarrow> bool" where
  "rows_ok tol rows \<longleftrightarrow> (\<forall>row \<in> set rows. row \<noteq> [] \<and> (\<forall>r \<in> set row. \<bar>r_y (hd row) - r_y r\<bar> \<le> tol))"

lemma add_to_rows_ok: "0 \<le> tol \<Longrightarrow> rows_ok tol rows \<Longrightarrow>
    rows_ok tol (add_to_rows tol r rows) \<and>
    \<Union> (set ` set (add_to_rows tol r rows)) = insert r (\<Union> (set ` set rows))"
  by (induction rows) (auto simp: rows_ok_def)

lemma row_array_ok:
  assumes "0 \<le> tol"
  shows "rows_ok tol (row_array tol rs) \<and> \<Union> (set ` set (row_array tol rs)) = set rs"
proof -
  have "rows_ok tol acc \<Longrightarrow> rows_ok tol (fold (add_to_rows tol) rs acc) \<and>
      \<Union> (set ` set (fold (add_to_rows tol) rs acc)) = set rs \<union> \<Union> (set ` set acc)" for acc
  proof (induction rs arbitrary: acc)
    case (Cons r rs)
    then show ?case using add_to_rows_ok [OF assms Cons.prems, of r] by auto
  qed simp
  from this [of "[]"] show ?thesis by (simp add: row_array_def rows_ok_def)
qed

lemma fold_leftmost:
  "fold (\<lambda>r l. if r_x r < l then r_x r else l) rs l \<le> l \<and>
   (\<forall>r \<in> set rs. fold (\<lambda>r l. if r_x r < l then r_x r else l) rs l \<le> r_x r)"
proof (induction rs arbitrary: l)
  case (Cons r rs)
  from Cons [of "if r_x r < l then r_x r else l"] show ?case by (auto split: if_splits)
qed simp

lemma fold_rightmost:
  "fold (\<lambda>r m. if r_x r + r_w r > m then r_x r + r_w r else m) rs m \<ge> m \<and>
   (\<forall>r \<in> set rs. fold (\<lambda>r m. if r_x r + r_w r > m then r_x r + r_w r else m) rs m \<ge> r_x r + r_w r)"
proof (induction rs arbitrary: m)
  case (Cons r rs)
  from Cons [of "if r_x r + r_w r > m then r_x r + r_w r else m"] show ?case by (auto split: if_splits)
qed simp

lemma final_row_covers:
  assumes "row \<noteq> []" and "r \<in> set row"
  shows "r_x (final_row row) \<le> r_x r \<and> r_x r + r_w r \<le> r_x (final_row row) + r_w (final_row row)"
proof -
  have "r = hd row \<or> r \<in> set (tl row)" using assms by (cases row) auto
  then show ?thesis
    using fold_leftmost [of "tl row" "r_x (hd row)"] fold_rightmost [of "r_x (hd row) + r_w (hd row)" "tl row"]
    by (auto simp: final_row_def Let_def)
qed

lemma push_prefix: "\<exists>ys. push_unless_last p polygon = polygon @ ys"
  by (simp add: push_unless_last_def)

lemma left_side_prefix: "\<exists>zs. left_side rs polygon = polygon @ zs"
proof (induction rs arbitrary: polygon)
  case (Cons r rs)
  then show ?case
    using push_prefix [of _ polygon] by simp (metis append.assoc)
qed simp

lemma right_side_prefix: "\<exists>zs. right_side rs polygon = polygon @ zs"
proof (induction rs arbitrary: polygon)
  case (Cons r rs)
  then show ?case
    using push_prefix [of _ polygon] by simp (metis append.assoc)
qed simp

lemma right_side_append: "right_side (xs @ ys) polygon = right_side ys (right_side xs polygon)"
  by (induction xs arbitrary: polygon) auto

lemma rows_polygon_closed:
  assumes "rows \<noteq> []"
  shows "rows_polygon rows \<noteq> [] \<and> hd (rows_polygon rows) = last (rows_polygon rows)"
proof -
  obtain r rs where e: "rows = r # rs" using assms by (cases rows) auto
  obtain zs where zs: "left_side rs [(r_x r + r_w r, r_y r), (r_x r, r_y r), (r_x r, r_y r + r_h r)] =
      (r_x r + r_w r, r_y r) # zs"
    using left_side_prefix [of rs "[(r_x r + r_w r, r_y r), (r_x r, r_y r), (r_x r, r_y r + r_h r)]"] by auto
  obtain ws where ws: "right_side (rev rs) ((r_x r + r_w r, r_y r) # zs @
        [(r_x (last rows) + r_w (last rows), r_y (last rows) + r_h (last rows))]) =
      (r_x r + r_w r, r_y r) # ws"
    using right_side_prefix [of "rev rs" "(r_x r + r_w r, r_y r) # zs @
        [(r_x (last rows) + r_w (last rows), r_y (last rows) + r_h (last rows))]"] by auto
  show ?thesis
    using zs ws by (simp add: rows_polygon_def e right_side_append push_unless_last_def Let_def split: if_splits)
qed

subsection \<open>Properties\<close>

text \<open>
  When two rectangles overlap, the intersection rectangle has a positive size and holds
  exactly the points the two have in common; when it reports none, they share no interior
  point.
\<close>

theorem intersection_exact:
  "case getIntersectionRectangle a b of
     Some c \<Rightarrow> (\<forall>x y. Rectangle_containsPoint c x y \<longleftrightarrow>
         Rectangle_containsPoint a x y \<and> Rectangle_containsPoint b x y) \<and>
       (0 < r_w a \<and> 0 < r_w b \<and> 0 < r_h a \<and> 0 < r_h b \<longrightarrow> 0 < r_w c \<and> 0 < r_h c)
   | None \<Rightarrow> \<not> (\<exists>x y. r_x a < x \<and> x < r_x a + r_w a \<and> r_x b < x \<and> x < r_x b + r_w b \<and>
       r_y a < y \<and> y < r_y a + r_h a \<and> r_y b < y \<and> y < r_y b + r_h b)"
proof (cases "doRectanglesIntersect a b")
  case True
  then show ?thesis
    by (auto simp: getIntersectionRectangle_def intersect_iff Rectangle_containsPoint_def
        Rectangle_x2_def Rectangle_y2_def Let_def)
next
  case False
  then show ?thesis
    by (auto simp: getIntersectionRectangle_def intersect_iff)
qed

theorem intersection_exact_witness:
  "case getIntersectionRectangle \<lparr>r_x = 0, r_y = 0, r_w = 10, r_h = 10\<rparr> \<lparr>r_x = 5, r_y = 6, r_w = 10, r_h = 10\<rparr> of
     Some c \<Rightarrow> 0 < r_w c \<and> 0 < r_h c | None \<Rightarrow> False"
  using intersection_exact [of "\<lparr>r_x = 0, r_y = 0, r_w = 10, r_h = 10\<rparr>" "\<lparr>r_x = 5, r_y = 6, r_w = 10, r_h = 10\<rparr>"]
  by (simp add: getIntersectionRectangle_def intersect_iff)

text \<open>
  A rectangle built from whole core pixels reads back as the same core pixels, whatever
  the rounding to twips, as long as a pixel is more than one twip.
\<close>

theorem core_pixels_roundtrip:
  assumes "pixelsToTwips app > 1" and "twipsToPixels app * pixelsToTwips app = 1"
  shows "SimpleRectangle_pToArray app (SimpleRectangle_fromCorePixels app
    \<lparr>r_x = of_int x, r_y = of_int y, r_w = of_int w, r_h = of_int h\<rparr> part mode) = (x, y, w, h)"
  using core_roundtrip [OF assms]
  by (simp add: SimpleRectangle_pToArray_def SimpleRectangle_fromCorePixels_def SimpleRectangle_def)

text \<open>
  The rows from which \<open>rectanglesToPolygon\<close> draws are sorted by \<open>y\<close>, and every rectangle
  lies between the left and right edge of a row whose \<open>y\<close> differs by at most the tolerance.
\<close>

theorem polygon_rows_cover:
  assumes "0 \<le> tol"
  shows "sorted (map r_y (finalRows tol rs)) \<and>
    (\<forall>r \<in> set rs. \<exists>row \<in> set (finalRows tol rs). \<bar>r_y row - r_y r\<bar> \<le> tol \<and>
       r_x row \<le> r_x r \<and> r_x r + r_w r \<le> r_x row + r_w row)"
proof (intro conjI ballI)
  show "sorted (map r_y (finalRows tol rs))" by (rule finalRows_sorted(1))
  fix r assume "r \<in> set rs"
  note ok = row_array_ok [OF assms, of rs]
  then obtain row where row: "row \<in> set (row_array tol rs)" "r \<in> set row"
    using \<open>r \<in> set rs\<close> by blast
  then have "row \<noteq> []" "\<bar>r_y (hd row) - r_y r\<bar> \<le> tol" using ok by (auto simp: rows_ok_def)
  moreover have "final_row row \<in> set (finalRows tol rs)"
    using row(1) finalRows_sorted(2) [of tol rs] by (metis image_eqI set_map set_mset_mset)
  ultimately show "\<exists>row \<in> set (finalRows tol rs). \<bar>r_y row - r_y r\<bar> \<le> tol \<and>
       r_x row \<le> r_x r \<and> r_x r + r_w r \<le> r_x row + r_w row"
    using final_row_covers [of row r] row(2) by (intro bexI) (auto simp: final_row_def Let_def)
qed

theorem polygon_rows_cover_witness:
  "sorted (map r_y (finalRows 5 [\<lparr>r_x = 0, r_y = 20, r_w = 10, r_h = 10\<rparr>, \<lparr>r_x = 10, r_y = 0, r_w = 5, r_h = 20\<rparr>]))"
  using polygon_rows_cover [of 5] by simp

text \<open>The polygon of at least one rectangle is closed: it ends at the point it starts from.\<close>

theorem polygon_closed:
  assumes "rs \<noteq> []"
  shows "rectanglesToPolygon rs c tol \<noteq> [] \<and>
    hd (rectanglesToPolygon rs c tol) = last (rectanglesToPolygon rs c tol)"
proof -
  have "add_to_rows tol r rows \<noteq> []" for r rows by (cases rows) auto
  then have "row_array tol rs \<noteq> []"
    using assms unfolding row_array_def by (cases rs rule: rev_cases) auto
  then have "finalRows tol rs \<noteq> []" using finalRows_sorted(2) [of tol rs] by auto
  from rows_polygon_closed [OF this] show ?thesis
    by (simp add: rectanglesToPolygon_def hd_map last_map Let_def)
qed

text \<open>
  A clone of a \<open>Rectangle\<close> is equal to the original only when the \<open>y\<close> of the original
  happens to be its right edge.
\<close>

theorem clone_differs: "Rectangle_clone r = r \<longleftrightarrow> r_y r = r_x r + r_w r"
  by (cases r) (auto simp: Rectangle_clone_def Rectangle_x2_def)

text \<open>
  Setting the right edge in CSS pixels moves it to the wrong place unless the rectangle
  starts at zero: the setter stores the edge as the width. And a rectangle may differ from
  its own array of CSS pixels.
\<close>

theorem css_edge_and_equality:
  "(let app = \<lparr>twipsToPixels = 1 / 15, pixelsToTwips = 15, dpiScale = 1\<rparr>;
        r = SimpleRectangle 150 150 150 150 0 0;
        (x, y, w, h) = SimpleRectangle_cToArray app (SimpleRectangle_set_cX2 app 30 r)
    in x + w = 40 \<and>
       SimpleRectangle_cToArray app r = (10, 10, 10, 10) \<and>
       \<not> SimpleRectangle_cEquals app r [10, 10, 10, 10])"
  by (simp add: SimpleRectangle_cToArray_def SimpleRectangle_set_cX2_def SimpleRectangle_def
      SimpleRectangle_cEquals_def toCss_def fromCss_def js_round_def js_nth_def Let_def)

end
