(* ===== verification/Sheet_Geometry.thy ===== *)
theory Sheet_Geometry
  imports Dimension_Positions Rectangles
begin

section \<open>The geometry of a sheet\<close>

text \<open>
  The class \<open>SheetGeometry\<close> of \<open>browser/src/layer/tile/SheetGeometry.ts\<close>: the two dimensions
  of a sheet, kept up to date from the core's \<open>.uno:SheetGeometryData\<close> messages, and the
  lookups of cells, sizes and converted points that combine them. A parsed JSON message is
  a record whose absent properties are \<open>None\<close>. Firing the map event in
  \<open>setTileGeometryData\<close> and the console messages are left out. An index that is \<open>undefined\<close>
  or \<open>NaN\<close> is \<open>None\<close>.
\<close>

subsection \<open>State and update\<close>

record geometry_json =
  gj_commandName :: "string option"
  gj_maxtiledcolumn :: "string option"
  gj_maxtiledrow :: "string option"
  gj_columns :: "dimension_json option"
  gj_rows :: "dimension_json option"

record sheet_geometry =
  sg_part :: int
  sg_columns :: sheet_dimension
  sg_rows :: sheet_dimension
  sg_maxVisibleColumnIndex :: "int option"
  sg_maxVisibleRowIndex :: "int option"

definition unoCommand :: string where
  "unoCommand = ''.uno:SheetGeometryData''"

text \<open>\<open>parseInt\<close> of the entry at an index; of \<open>undefined\<close> it is \<open>NaN\<close>.\<close>

definition parse_entry :: "string list \<Rightarrow> int \<Rightarrow> int option" where
  "parse_entry xs i = (case js_nth xs i of None \<Rightarrow> None | Some s \<Rightarrow> parseInt s)"

definition checkMaxIndex :: "string \<Rightarrow> int option" where
  "checkMaxIndex hidden =
     (let hiddenInfo = js_trim hidden;
          isFirstHidden = (case hiddenInfo of [] \<Rightarrow> False | c # _ \<Rightarrow> c = CHR ''1'');
          splitted = split_on CHR '' '' hiddenInfo;
          n = length splitted;
          isLastHidden = ((even n \<and> \<not> isFirstHidden) \<or> (odd n \<and> isFirstHidden))
      in if n = 1 then
           (if isFirstHidden then Some 0 else parse_entry (split_on CHR '':'' (splitted ! 0)) 1)
         else if \<not> isLastHidden then parse_entry splitted (int n - 1)
         else if n = 2 then parse_entry (split_on CHR '':'' (splitted ! 0)) 1
         else parse_entry splitted (int n - 2))"

definition nonempty :: "string option \<Rightarrow> bool" where
  "nonempty s \<longleftrightarrow> (case s of None \<Rightarrow> False | Some t \<Rightarrow> t \<noteq> [])"

definition complete_dimension :: "dimension_json \<Rightarrow> bool" where
  "complete_dimension d \<longleftrightarrow> nonempty (dj_sizes d) \<and> nonempty (dj_hidden d) \<and> nonempty (dj_filtered d)"

definition testValidity :: "geometry_json \<Rightarrow> bool \<Rightarrow> bool" where
  "testValidity json checkCompleteness \<longleftrightarrow>
     nonempty (gj_commandName json) \<and> gj_commandName json = Some unoCommand \<and>
     (case gj_maxtiledcolumn json of None \<Rightarrow> False | Some s \<Rightarrow> all_digits s) \<and>
     (case gj_maxtiledrow json of None \<Rightarrow> False | Some s \<Rightarrow> all_digits s) \<and>
     (checkCompleteness \<longrightarrow>
        (case (gj_rows json, gj_columns json) of
           (Some r, Some c) \<Rightarrow> complete_dimension r \<and> complete_dimension c | _ \<Rightarrow> False))"

text \<open>The index stored after a dimension was updated: \<open>checkMaxIndex\<close> if it has hidden data.\<close>

definition max_visible :: "dimension_json \<Rightarrow> string option \<Rightarrow> int option" where
  "max_visible d maxtiled =
     (if nonempty (dj_hidden d) then checkMaxIndex (the (dj_hidden d))
      else case maxtiled of None \<Rightarrow> None | Some s \<Rightarrow> parseInt s)"

definition update_columns ::
    "geometry_json \<Rightarrow> sheet_geometry \<Rightarrow> (js_error + bool) \<times> sheet_geometry" where
  "update_columns json this =
     (case gj_columns json of
        None \<Rightarrow> (Inr True, this)
      | Some d \<Rightarrow>
          (case SheetDimension_update d (sg_columns this) of
             (Inl e, c) \<Rightarrow> (Inl e, this\<lparr>sg_columns := c\<rparr>)
           | (Inr ok, c) \<Rightarrow>
               (Inr ok, this\<lparr>sg_columns := c,
                  sg_maxVisibleColumnIndex := max_visible d (gj_maxtiledcolumn json)\<rparr>)))"

definition update_rows ::
    "geometry_json \<Rightarrow> sheet_geometry \<Rightarrow> (js_error + bool) \<times> sheet_geometry" where
  "update_rows json this =
     (case gj_rows json of
        None \<Rightarrow> (Inr True, this)
      | Some d \<Rightarrow>
          (case SheetDimension_update d (sg_rows this) of
             (Inl e, r) \<Rightarrow> (Inl e, this\<lparr>sg_rows := r\<rparr>)
           | (Inr ok, r) \<Rightarrow>
               (Inr ok, this\<lparr>sg_rows := r,
                  sg_maxVisibleRowIndex := max_visible d (gj_maxtiledrow json)\<rparr>)))"

definition tiled_index :: "string option \<Rightarrow> int" where
  "tiled_index s = (case s of None \<Rightarrow> 0 | Some t \<Rightarrow> (case js_to_number t of None \<Rightarrow> 0 | Some n \<Rightarrow> n))"

definition SheetGeometry_update ::
    "geometry_json \<Rightarrow> bool \<Rightarrow> int \<Rightarrow> sheet_geometry \<Rightarrow> (js_error + bool) \<times> sheet_geometry" where
  "SheetGeometry_update json checkCompleteness part this =
     (if \<not> testValidity json checkCompleteness then (Inr False, this)
      else
        case update_columns json this of
          (Inl e, this1) \<Rightarrow> (Inl e, this1)
        | (Inr okc, this1) \<Rightarrow>
            (case update_rows json this1 of
               (Inl e, this2) \<Rightarrow> (Inl e, this2)
             | (Inr okr, this2) \<Rightarrow>
                 let updateOK = (okc \<and> okr);
                     this3 = (if updateOK then this2\<lparr>sg_part := part\<rparr> else this2)
                 in (Inr updateOK, this3\<lparr>
                      sg_columns := setMaxIndex (tiled_index (gj_maxtiledcolumn json)) (sg_columns this3),
                      sg_rows := setMaxIndex (tiled_index (gj_maxtiledrow json)) (sg_rows this3)\<rparr>)))"

definition SheetGeometry_setTileGeometryData ::
    "num \<Rightarrow> num \<Rightarrow> num \<Rightarrow> bool \<Rightarrow> sheet_geometry \<Rightarrow> (js_error + unit) \<times> sheet_geometry" where
  "SheetGeometry_setTileGeometryData widthTwips heightTwips pixels upd this =
     (case SheetDimension_setTileGeometryData widthTwips pixels upd (sg_columns this) of
        (Inl e, c) \<Rightarrow> (Inl e, this\<lparr>sg_columns := c\<rparr>)
      | (Inr _, c) \<Rightarrow>
          (case SheetDimension_setTileGeometryData heightTwips pixels upd (sg_rows this) of
             (Inl e, r) \<Rightarrow> (Inl e, this\<lparr>sg_columns := c, sg_rows := r\<rparr>)
           | (Inr _, r) \<Rightarrow> (Inr (), this\<lparr>sg_columns := c, sg_rows := r\<rparr>)))"

definition SheetGeometry_blank :: sheet_geometry where
  "SheetGeometry_blank =
     \<lparr>sg_part = -1, sg_columns = SheetDimension_new, sg_rows = SheetDimension_new,
      sg_maxVisibleColumnIndex = None, sg_maxVisibleRowIndex = None\<rparr>"

text \<open>The constructor: the zoom is set before the first update, which needs it.\<close>

definition SheetGeometry_new ::
    "geometry_json \<Rightarrow> num \<Rightarrow> num \<Rightarrow> num \<Rightarrow> int \<Rightarrow> (js_error + bool) \<times> sheet_geometry" where
  "SheetGeometry_new json tileWidthTwips tileHeightTwips tileSizePixels part =
     SheetGeometry_update json True part
       (snd (SheetGeometry_setTileGeometryData tileWidthTwips tileHeightTwips tileSizePixels False
          SheetGeometry_blank))"

definition setViewArea ::
    "point \<Rightarrow> point \<Rightarrow> sheet_geometry \<Rightarrow> (js_error + bool) \<times> sheet_geometry" where
  "setViewArea topLeft size' this =
     (case setViewLimits (pt_x topLeft) (pt_x topLeft + pt_x size') (sg_columns this) of
        (Inl e, c) \<Rightarrow> (Inl e, this\<lparr>sg_columns := c\<rparr>)
      | (Inr _, c) \<Rightarrow>
          (case setViewLimits (pt_y topLeft) (pt_y topLeft + pt_y size') (sg_rows this) of
             (Inl e, r) \<Rightarrow> (Inl e, this\<lparr>sg_columns := c, sg_rows := r\<rparr>)
           | (Inr _, r) \<Rightarrow> (Inr True, this\<lparr>sg_columns := c, sg_rows := r\<rparr>)))"

subsection \<open>The first visible row after an update\<close>

text \<open>A comparison with an index that may be \<open>undefined\<close> or \<open>NaN\<close>: false then.\<close>

definition le_index :: "int \<Rightarrow> js_int option \<Rightarrow> bool" where
  "le_index x i = (case i of None \<Rightarrow> False | Some j \<Rightarrow> j = Fin x \<or> js_gt j x)"

function first_visible_loop :: "int list \<Rightarrow> js_int option \<Rightarrow> int \<Rightarrow> int \<Rightarrow> int \<Rightarrow> int" where
  "first_visible_loop spans target start end' ans =
     (if start \<le> end' then
        let mid = (start + end') div 2
        in if le_index (spans ! nat mid) target then first_visible_loop spans target (mid + 1) end' ans
           else first_visible_loop spans target start (mid - 1) mid
      else ans)"
  by pat_completeness auto
termination
  by (relation "measure (\<lambda>(spans, target, start, end', ans). nat (end' + 1 - start))") auto

declare first_visible_loop.simps [simp del]

text \<open>
  \<open>None\<close> is the value \<open>undefined\<close>, returned when the view was never set and every row is
  visible.
\<close>

definition getFirstNewVisibleRow :: "sheet_geometry \<Rightarrow> js_error + js_int option" where
  "getFirstNewVisibleRow this =
     (let target = sd_viewStartIndex (sg_rows this)
      in if target = Some (Fin 0) then Inr (Some (Fin 0))
         else case sd_invisibleSpanList (sg_rows this) of
            None \<Rightarrow> Inl TypeError
          | Some invisibleRows \<Rightarrow>
              let spans = bs_spanlist invisibleRows;
                  n = int (length spans)
              in if n - 1 = 0 then Inr target
                 else
                   let ans = first_visible_loop spans target 0 (n - 1) (-1)
                   in if ans \<noteq> -1 then
                        (if ans = 0 then Inr (Some (Fin 0))
                         else if even ans \<and> ans + 1 < n then Inr (Some (Fin (spans ! nat (ans + 1))))
                         else Inr (Some (Fin (spans ! nat ans))))
                      else Inr (Some (Fin 0)))"

subsection \<open>Lookups that combine the dimensions\<close>

definition pair_result :: "js_error + 'a \<Rightarrow> js_error + 'b \<Rightarrow> js_error + 'a \<times> 'b" where
  "pair_result a b =
     (case a of Inl e \<Rightarrow> Inl e
      | Inr x \<Rightarrow> (case b of Inl e \<Rightarrow> Inl e | Inr y \<Rightarrow> Inr (x, y)))"

definition getViewCellRange ::
    "sheet_geometry \<Rightarrow> (js_int option \<times> js_int option) \<times> (js_int option \<times> js_int option)" where
  "getViewCellRange this = (getViewElementRange (sg_columns this), getViewElementRange (sg_rows this))"

definition getRowData :: "sheet_geometry \<Rightarrow> int \<Rightarrow> js_error + pos_size option" where
  "getRowData this rowIndex = getElementData (sg_rows this) rowIndex None"

definition getColumnGroupLevels :: "sheet_geometry \<Rightarrow> nat" where
  "getColumnGroupLevels this = getGroupLevels (sg_columns this)"

definition getRowGroupLevels :: "sheet_geometry \<Rightarrow> nat" where
  "getRowGroupLevels this = getGroupLevels (sg_rows this)"

definition getColumnGroupsDataInView :: "sheet_geometry \<Rightarrow> js_error + group_data list" where
  "getColumnGroupsDataInView this = getGroupsDataInView (sg_columns this)"

definition getRowGroupsDataInView :: "sheet_geometry \<Rightarrow> js_error + group_data list" where
  "getRowGroupsDataInView this = getGroupsDataInView (sg_rows this)"

definition SheetGeometry_getTileTwipsAtZoom ::
    "sheet_geometry \<Rightarrow> point \<Rightarrow> num \<Rightarrow> js_error + num option \<times> num option" where
  "SheetGeometry_getTileTwipsAtZoom this p zoomScale =
     pair_result (SheetDimension_getTileTwipsAtZoom (sg_columns this) (pt_x p) zoomScale)
       (SheetDimension_getTileTwipsAtZoom (sg_rows this) (pt_y p) zoomScale)"

definition SheetGeometry_getCorePixelsAtZoom ::
    "sheet_geometry \<Rightarrow> point \<Rightarrow> num \<Rightarrow> js_error + num \<times> num" where
  "SheetGeometry_getCorePixelsAtZoom this p zoomScale =
     pair_result (SheetDimension_getCorePixelsAtZoom (sg_columns this) (pt_x p) zoomScale)
       (SheetDimension_getCorePixelsAtZoom (sg_rows this) (pt_y p) zoomScale)"

definition SheetGeometry_getCorePixelsFromZoom ::
    "sheet_geometry \<Rightarrow> point \<Rightarrow> num \<Rightarrow> js_error + num \<times> num" where
  "SheetGeometry_getCorePixelsFromZoom this p zoomScale =
     pair_result (SheetDimension_getCorePixelsFromZoom (sg_columns this) (pt_x p) zoomScale)
       (SheetDimension_getCorePixelsFromZoom (sg_rows this) (pt_y p) zoomScale)"

definition getTileTwipsPointFromPrint ::
    "sheet_geometry \<Rightarrow> point \<Rightarrow> js_error + num option \<times> num option" where
  "getTileTwipsPointFromPrint this p =
     pair_result (getTileTwipsPosFromPrint (sg_columns this) (pt_x p) None)
       (getTileTwipsPosFromPrint (sg_rows this) (pt_y p) None)"

definition getPrintTwipsPointFromTile ::
    "sheet_geometry \<Rightarrow> point \<Rightarrow> js_error + num option \<times> num option" where
  "getPrintTwipsPointFromTile this p =
     pair_result (getPrintTwipsPosFromTile (sg_columns this) (pt_x p))
       (getPrintTwipsPosFromTile (sg_rows this) (pt_y p))"

text \<open>The corners \<open>(startpos, endpos)\<close> of the area in tile twips, columns first.\<close>

definition getTileTwipsSheetAreaFromPrint ::
    "sheet_geometry \<Rightarrow> bounds \<Rightarrow> js_error + (int option \<times> int option) \<times> (int option \<times> int option)" where
  "getTileTwipsSheetAreaFromPrint this rectangle =
     (let topLeft = Bounds_getTopLeft rectangle; bottomRight = Bounds_getBottomRight rectangle
      in pair_result (getTileTwipsRangeFromPrint (sg_columns this) (pt_x topLeft) (pt_x bottomRight))
           (getTileTwipsRangeFromPrint (sg_rows this) (pt_y topLeft) (pt_y bottomRight)))"

definition SheetGeometry_getSize ::
    "sheet_geometry \<Rightarrow> geometry_unit \<Rightarrow> js_error + int option \<times> int option" where
  "SheetGeometry_getSize this unit =
     pair_result (SheetDimension_getSize (sg_columns this) unit) (SheetDimension_getSize (sg_rows this) unit)"

text \<open>Reading \<open>startpos\<close> of an undefined record throws, as \<open>posOf\<close> says.\<close>

definition cell_data ::
    "sheet_geometry \<Rightarrow> int \<Rightarrow> int \<Rightarrow> num option \<Rightarrow> js_error + pos_size \<times> pos_size" where
  "cell_data this columnIndex rowIndex zoom =
     (case pair_result (getElementData (sg_columns this) columnIndex zoom)
             (getElementData (sg_rows this) rowIndex zoom) of
        Inl e \<Rightarrow> Inl e
      | Inr (h, v) \<Rightarrow> pair_result (posOf h) (posOf v))"

definition getCellSimpleRectangle ::
    "app_scale \<Rightarrow> sheet_geometry \<Rightarrow> int \<Rightarrow> int \<Rightarrow> js_error + simple_rectangle option" where
  "getCellSimpleRectangle app this columnIndex rowIndex =
     (case cell_data this columnIndex rowIndex None of
        Inl e \<Rightarrow> Inl e
      | Inr (h, v) \<Rightarrow> Inr
          (case (ps_startpos h, ps_startpos v) of
             (Some x, Some y) \<Rightarrow> Some (SimpleRectangle_fromCorePixels app
               \<lparr>r_x = of_int x, r_y = of_int y, r_w = of_int (ps_size h), r_h = of_int (ps_size v)\<rparr> (-1) (-1))
           | _ \<Rightarrow> None))"

text \<open>Callers leave \<open>zoomScale\<close> out to get the rectangle at the current zoom.\<close>

definition getCellRect ::
    "sheet_geometry \<Rightarrow> int \<Rightarrow> int \<Rightarrow> num option \<Rightarrow> js_error + bounds option" where
  "getCellRect this columnIndex rowIndex zoomScale =
     (case cell_data this columnIndex rowIndex zoomScale of
        Inl e \<Rightarrow> Inl e
      | Inr (h, v) \<Rightarrow> Inr
          (case (ps_startpos h, ps_startpos v) of
             (Some x, Some y) \<Rightarrow>
               let topLeft = Point (of_int x) (of_int y) False;
                   size' = Point (of_int (ps_size h)) (of_int (ps_size v)) False
               in Some (Bounds topLeft (Point_add topLeft size'))
           | _ \<Rightarrow> None))"

definition getCellFromPos ::
    "sheet_geometry \<Rightarrow> point \<Rightarrow> geometry_unit \<Rightarrow> js_error + js_int \<times> js_int" where
  "getCellFromPos this pos unit =
     pair_result (SheetDimension_getIndexFromPos (sg_columns this) (pt_x pos) unit)
       (SheetDimension_getIndexFromPos (sg_rows this) (pt_y pos) unit)"

definition getSnapDocPosX :: "sheet_geometry \<Rightarrow> num \<Rightarrow> geometry_unit \<Rightarrow> js_error + int option" where
  "getSnapDocPosX this posX unit = getSnapPos (sg_columns this) posX unit"

definition getSnapDocPosY :: "sheet_geometry \<Rightarrow> num \<Rightarrow> geometry_unit \<Rightarrow> js_error + int option" where
  "getSnapDocPosY this posY unit = getSnapPos (sg_rows this) posY unit"

end
