(* ===== verification/Dimension_Properties.thy ===== *)
theory Dimension_Properties
  imports Dimension_Positions
begin

section \<open>What a sheet dimension promises\<close>

text \<open>
  The properties of \<open>SheetDimension\<close>, each over the operations of \<open>Sheet_Dimension\<close>: an
  update from the core's strings yields the sizes the core meant; positions in all three
  units are sums of sizes; lookups by position invert them; the enumerations visit exactly
  the elements and grid lines of their range. Two statements record where the code leaves
  this behaviour: the end of the sheet, and a zoom with a fractional number of twips per
  core pixel.
\<close>

subsection \<open>A concrete dimension\<close>

definition sample_json :: dimension_json where
  "sample_json = \<lparr>dj_sizes = Some ''255:9 300:19 '', dj_hidden = Some ''0:4 6 19 '',
     dj_filtered = Some ''0:19 '', dj_groups = None\<rparr>"

definition sample_new :: sheet_dimension where
  "sample_new = snd (SheetDimension_setTileGeometryData 3840 256 False SheetDimension_new)"

definition sample_dim :: sheet_dimension where
  "sample_dim = setMaxIndex 19 (snd (SheetDimension_update sample_json sample_new))"

lemma sample_dim_facts:
  "dim_ok sample_dim" "lastIndex sample_dim = 19" "sd_twipsPerCorePixel sample_dim = 15"
  by code_simp+

subsection \<open>Update\<close>

definition core_json :: "span list \<Rightarrow> bool_span_list \<Rightarrow> bool_span_list \<Rightarrow> dimension_json" where
  "core_json sizes hidden filtered =
     \<lparr>dj_sizes = Some (encode_spans sizes), dj_hidden = Some (encode_bools hidden),
      dj_filtered = Some (encode_bools filtered), dj_groups = None\<rparr>"

definition shown :: "span list \<Rightarrow> bool_span_list \<Rightarrow> bool_span_list \<Rightarrow> int \<Rightarrow> int" where
  "shown sizes hidden filtered i =
     (if bool_at hidden i \<or> bool_at filtered i then 0 else value_at sizes i)"

lemma load_core_json:
  assumes "spans_wf sizes" and "bools_wf hidden" and "bools_wf filtered"
  shows "SheetDimension_update (core_json sizes hidden filtered) this =
    (let this' = this\<lparr>sd_sizes := sizes, sd_hidden := hidden, sd_filtered := filtered\<rparr>
     in case updateVisible this' of (Inl e, d) \<Rightarrow> (Inl e, d) | (Inr _, d) \<Rightarrow> (Inr True, d))"
proof -
  have "SpanList_load (encode_spans sizes) l = (True, sizes)" for l
    using parse_encode_spans [of sizes] assms(1) by (simp add: SpanList_load_def spans_wf_def)
  moreover have "BoolSpanList_load (encode_bools b) l = (True, b)" if "bools_wf b" for b l
    using parse_encode_bools [of b] that by (simp add: BoolSpanList_load_def bools_wf_def)
  ultimately show ?thesis
    using assms(2,3)
    by (simp add: SheetDimension_update_def core_json_def load_field_def load_sizes_def
        load_hidden_def load_filtered_def Let_def)
qed

text \<open>
  C2. Updating a dimension with the core's encoding of sizes, hidden and filtered elements
  that cover the same elements succeeds, and afterwards the start position and the size of
  every element, in each unit, are those of the list of sizes in which hidden and filtered
  elements are zero: the start is the sum of the sizes before it.
\<close>

theorem update_positions:
  assumes "spans_wf sizes" and "sizes_ok sizes" and "bools_wf hidden" and "bools_wf filtered"
    and "same_end sizes hidden" and "same_end sizes filtered" and "0 < sd_twipsPerCorePixel this"
  shows "\<exists>this'. SheetDimension_update (core_json sizes hidden filtered) this = (Inr True, this') \<and>
    dim_ok this' \<and> lastIndex this' = sp_index (last sizes) \<and>
    (\<forall>i unit. 0 \<le> i \<and> i \<le> sp_index (last sizes) \<longrightarrow>
       getElementDataAny this' i unit = Inr (Some
         \<lparr>ps_startpos = Some (unit_start (sd_twipsPerCorePixel this) (shown sizes hidden filtered) unit i),
          ps_size = unit_size (sd_twipsPerCorePixel this) (shown sizes hidden filtered) unit i\<rparr>))"
proof -
  let ?dim = "this\<lparr>sd_sizes := sizes, sd_hidden := hidden, sd_filtered := filtered\<rparr>"
  have "loaded_ok ?dim" using assms by (simp add: loaded_ok_def)
  then obtain this' ss where u: "updateVisible ?dim = (Inr (), this')" "dim_ok this'"
      "sd_visibleSizes this' = Some ss" "value_at ss = shown_size ?dim"
      "sp_index (last ss) = sp_index (last sizes)"
      "this' = ?dim\<lparr>sd_invisibleSpanList := sd_invisibleSpanList this', sd_visibleSizes := Some ss\<rparr>"
    using updateVisible_ok [of ?dim] assms(7) by auto
  have vs: "visibleSpans this' = ss" using u(3) by (simp add: visibleSpans_def)
  have "shown_size ?dim = shown sizes hidden filtered"
    by (auto simp: shown_size_def shown_def)
  moreover have "sd_twipsPerCorePixel this' = sd_twipsPerCorePixel this"
    by (subst u(6)) simp
  moreover have "SheetDimension_update (core_json sizes hidden filtered) this = (Inr True, this')"
    using load_core_json [OF assms(1,3,4), of this] u(1) by simp
  ultimately show ?thesis
    using u vs getElementDataAny_in [OF u(2)]
    by (simp add: elem_pos_def lastIndex_def Let_def)
qed

theorem update_positions_witness:
  "\<exists>this'. SheetDimension_update (core_json
      [\<lparr>sp_index = 9, sp_value = 255\<rparr>, \<lparr>sp_index = 19, sp_value = 300\<rparr>]
      \<lparr>bs_startBit = False, bs_spanlist = [4, 6, 19]\<rparr> \<lparr>bs_startBit = False, bs_spanlist = [19]\<rparr>) sample_new =
      (Inr True, this') \<and> dim_ok this' \<and> lastIndex this' = 19"
  using update_positions [of "[\<lparr>sp_index = 9, sp_value = 255\<rparr>, \<lparr>sp_index = 19, sp_value = 300\<rparr>]"
      "\<lparr>bs_startBit = False, bs_spanlist = [4, 6, 19]\<rparr>" "\<lparr>bs_startBit = False, bs_spanlist = [19]\<rparr>"
      sample_new]
  by (auto simp: spans_wf_def bools_wf_def same_end_def sizes_ok_def sample_new_def
      SheetDimension_setTileGeometryData_def SheetDimension_new_def Let_def)

text \<open>
  A change of zoom recomputes the positions: after \<open>setTileGeometryData\<close> the invariant
  holds for the new number of twips per core pixel and no element changed its size in
  print twips.
\<close>

theorem zoom_change_keeps_sizes:
  assumes "dim_ok this" and "0 < twips" and "0 < pixels"
    and "\<not> (sd_tileSizeTwips this = Some twips \<and> sd_tileSizePixels this = Some pixels)"
  shows "\<exists>this'. SheetDimension_setTileGeometryData twips pixels True this = (Inr (), this') \<and>
    dim_ok this' \<and> sd_twipsPerCorePixel this' = twips / pixels \<and>
    value_at (visibleSpans this') = value_at (visibleSpans this)"
  using setTileGeometryData_ok [OF assms(1-3)] assms(4) by metis

theorem zoom_change_keeps_sizes_witness:
  "\<exists>this'. SheetDimension_setTileGeometryData 3000 256 True sample_dim = (Inr (), this') \<and>
    dim_ok this' \<and> sd_twipsPerCorePixel this' = 3000 / 256 \<and>
    value_at (visibleSpans this') = value_at (visibleSpans sample_dim)"
proof -
  have "sd_tileSizeTwips sample_dim = Some 3840" by code_simp
  then show ?thesis
    using zoom_change_keeps_sizes [of sample_dim 3000 256] sample_dim_facts(1) by simp
qed

subsection \<open>Lookups\<close>

text \<open>
  The size of a whole sheet dimension is the sum of all element sizes in core pixels
  and print twips, when the last element is the one set by \<open>setMaxIndex\<close>.
\<close>

theorem getSize_total:
  assumes "dim_ok this" and "sd_maxIndex this = lastIndex this"
  shows "SheetDimension_getSize this corepixels = Inr (Some (psum
      (core_size (sd_twipsPerCorePixel this) (value_at (visibleSpans this))) (lastIndex this + 1))) \<and>
    SheetDimension_getSize this printtwips =
      Inr (Some (psum (value_at (visibleSpans this)) (lastIndex this + 1)))"
proof -
  have "0 \<le> lastIndex this"
    using spans_wf_last [OF dim_okD(2) [OF assms(1)]] by (simp add: lastIndex_def)
  with assms show ?thesis
    by (simp add: SheetDimension_getSize_def getElementDataAny_in elem_pos_def psum_step Let_def)
qed

text \<open>
  C37. The element found for a whole position in print twips, anywhere before the end of the
  sheet, is the one that contains the position.
\<close>

theorem index_from_print_twips:
  assumes "dim_ok this" and "0 \<le> p" and "p < psum (value_at (visibleSpans this)) (lastIndex this + 1)"
  shows "\<exists>i. SheetDimension_getIndexFromPos this (of_int p) printtwips = Inr (Fin i) \<and>
    0 \<le> i \<and> i \<le> lastIndex this \<and> psum (value_at (visibleSpans this)) i \<le> p \<and>
    p < psum (value_at (visibleSpans this)) (i + 1)"
proof -
  obtain i r where r: "getSpanAndIndexFromPrintTwipsPos this (of_int p) = Inr r" "located this i r"
      "psum (value_at (visibleSpans this)) i \<le> p" "p < psum (value_at (visibleSpans this)) (i + 1)"
    using print_lookup [OF assms] by blast
  then show ?thesis
    using located_range [OF assms(1) r(2)]
    by (auto simp: SheetDimension_getIndexFromPos_def located_def)
qed

theorem index_from_print_twips_witness:
  "\<exists>i. SheetDimension_getIndexFromPos sample_dim 1300 printtwips = Inr (Fin i) \<and>
    0 \<le> i \<and> i \<le> 19 \<and> psum (value_at (visibleSpans sample_dim)) i \<le> 1300 \<and>
    1300 < psum (value_at (visibleSpans sample_dim)) (i + 1)"
proof -
  have "1300 < psum (value_at (visibleSpans sample_dim)) (lastIndex sample_dim + 1)" by code_simp
  then show ?thesis
    using index_from_print_twips [of sample_dim 1300] sample_dim_facts by simp
qed

text \<open>
  At a zoom with a whole number of twips per core pixel, the element found for a core
  pixel before the end of the sheet is the one whose pixels include it.
\<close>

theorem index_from_core_pixels:
  assumes ok: "dim_ok this" and k: "sd_twipsPerCorePixel this = of_int k" and "0 \<le> p"
    and p: "p < psum (core_size (of_int k) (value_at (visibleSpans this))) (lastIndex this + 1)"
  shows "\<exists>i. SheetDimension_getIndexFromPos this (of_int p) corepixels = Inr (Fin i) \<and>
    0 \<le> i \<and> i \<le> lastIndex this \<and>
    psum (core_size (of_int k) (value_at (visibleSpans this))) i \<le> p \<and>
    p < psum (core_size (of_int k) (value_at (visibleSpans this))) (i + 1)"
proof -
  have kpos: "0 < k" using dim_okD(4) [OF ok] k by simp
  obtain i r where r: "getSpanAndIndexFromTileTwipsPos this (of_int (p * k)) = Inr r" "located this i r"
      "psum (tile_size k this) i \<le> p * k" "p * k < psum (tile_size k this) (i + 1)"
  proof (rule tile_lookup [OF ok k])
    show "0 \<le> p * k" "p * k < psum (tile_size k this) (lastIndex this + 1)"
      using assms(3) p kpos by (simp_all add: psum_tile_size)
  qed
  then show ?thesis
    using located_range [OF ok r(2)] k kpos
    by (auto simp: SheetDimension_getIndexFromPos_def located_def psum_tile_size)
qed

theorem index_from_core_pixels_witness:
  "\<exists>i. SheetDimension_getIndexFromPos sample_dim 100 corepixels = Inr (Fin i) \<and> 0 \<le> i \<and> i \<le> 19 \<and>
    psum (core_size 15 (value_at (visibleSpans sample_dim))) i \<le> 100 \<and>
    100 < psum (core_size 15 (value_at (visibleSpans sample_dim))) (i + 1)"
proof -
  have "100 < psum (core_size 15 (value_at (visibleSpans sample_dim))) (lastIndex sample_dim + 1)"
    by code_simp
  then show ?thesis
    using index_from_core_pixels [of sample_dim 15 100] sample_dim_facts by simp
qed

text \<open>
  Converting a whole position in print twips before the end of the sheet to tile twips
  keeps its offset from the start of the element that contains it.
\<close>

theorem tile_twips_from_print:
  assumes "dim_ok this" and "0 \<le> p" and "p < psum (value_at (visibleSpans this)) (lastIndex this + 1)"
  shows "\<exists>i. 0 \<le> i \<and> i \<le> lastIndex this \<and> psum (value_at (visibleSpans this)) i \<le> p \<and>
    p < psum (value_at (visibleSpans this)) (i + 1) \<and>
    getTileTwipsPosFromPrint this (of_int p) None = Inr (Some (of_int
      (unit_start (sd_twipsPerCorePixel this) (value_at (visibleSpans this)) tiletwips i +
       (p - psum (value_at (visibleSpans this)) i))))"
proof -
  obtain i r where r: "getSpanAndIndexFromPrintTwipsPos this (of_int p) = Inr r" "located this i r"
      "psum (value_at (visibleSpans this)) i \<le> p" "p < psum (value_at (visibleSpans this)) (i + 1)"
    using print_lookup [OF assms] by blast
  with located_range [OF assms(1) r(2)] located_elem [OF assms(1) r(2)] show ?thesis
    by (intro exI [of _ i])
      (simp add: getTileTwipsPosFromPrint_def posOf_def elem_pos_def offset_position_def Let_def)
qed

theorem tile_twips_from_print_witness:
  "\<exists>i. 0 \<le> i \<and> i \<le> 19 \<and> psum (value_at (visibleSpans sample_dim)) i \<le> 1300 \<and>
    1300 < psum (value_at (visibleSpans sample_dim)) (i + 1) \<and>
    getTileTwipsPosFromPrint sample_dim 1300 None = Inr (Some (of_int
      (unit_start 15 (value_at (visibleSpans sample_dim)) tiletwips i +
       (1300 - psum (value_at (visibleSpans sample_dim)) i))))"
proof -
  have "1300 < psum (value_at (visibleSpans sample_dim)) (lastIndex sample_dim + 1)" by code_simp
  then show ?thesis
    using tile_twips_from_print [of sample_dim 1300] sample_dim_facts by simp
qed

text \<open>
  At a zoom with a whole number of twips per core pixel, \<open>setViewLimits\<close> records the
  elements that contain the first and the last position of the view.
\<close>

theorem view_limits:
  assumes ok: "dim_ok this" and k: "sd_twipsPerCorePixel this = of_int k"
    and m: "lastIndex this \<le> sd_maxIndex this"
    and p: "0 \<le> p" "p < psum (tile_size k this) (lastIndex this + 1)"
    and q: "0 \<le> q" "q < psum (tile_size k this) (lastIndex this + 1)"
  shows "\<exists>i j. setViewLimits (of_int p) (of_int q) this =
      (Inr (), this\<lparr>sd_viewStartIndex := Some (Fin i), sd_viewEndIndex := Some (Fin j)\<rparr>) \<and>
    psum (tile_size k this) i \<le> p \<and> p < psum (tile_size k this) (i + 1) \<and>
    psum (tile_size k this) j \<le> q \<and> q < psum (tile_size k this) (j + 1)"
proof -
  obtain i r where r: "getSpanAndIndexFromTileTwipsPos this (of_int p) = Inr r" "located this i r"
      "psum (tile_size k this) i \<le> p" "p < psum (tile_size k this) (i + 1)"
    using tile_lookup [OF ok k p] by blast
  obtain j r' where r': "getSpanAndIndexFromTileTwipsPos this (of_int q) = Inr r'" "located this j r'"
      "psum (tile_size k this) j \<le> q" "q < psum (tile_size k this) (j + 1)"
    using tile_lookup [OF ok k q] by blast
  have "getIndexFromTileTwipsPos (this\<lparr>sd_viewStartIndex := x\<rparr>) y = getIndexFromTileTwipsPos this y" for x y
    by (cases "sd_visibleSizes this") (simp_all add: getIndexFromTileTwipsPos_def
        getSpanAndIndexFromTileTwipsPos_def with_visible_def limit_index_def Let_def cong: option.case_cong)
  moreover have "is_index r = Fin i" "is_index r' = Fin j"
    using r(2) r'(2) by (auto simp: located_def)
  ultimately have "setViewLimits (of_int p) (of_int q) this =
      (Inr (), this\<lparr>sd_viewStartIndex := Some (Fin i), sd_viewEndIndex := Some (Fin j)\<rparr>)"
    using r(1) r'(1) located_range [OF ok r(2)] located_range [OF ok r'(2)] m
    by (auto simp: setViewLimits_def getIndexFromTileTwipsPos_def js_max_def js_min_def Let_def)
  with r r' show ?thesis by blast
qed

subsection \<open>Enumerations\<close>

text \<open>
  \<open>forEachInRange\<close> calls back once for every element from the first to the last of the
  range that exists, in order, each with its own position and size in core pixels.
\<close>

theorem forEachInRange_visits:
  assumes "dim_ok this" and "0 \<le> s" and "s \<le> lastIndex this" and "s \<le> e"
  shows "forEachInRange this s e =
    Inr (map (\<lambda>i. (i, Some (elem_pos this corepixels i))) [s..min e (lastIndex this)])"
  by (rule forEachInRange_elements [OF assms])

theorem forEachInRange_visits_witness:
  "forEachInRange sample_dim 3 12 =
    Inr (map (\<lambda>i. (i, Some (elem_pos sample_dim corepixels i))) [3..12])"
  using forEachInRange_visits [of sample_dim 3 12] sample_dim_facts by simp

text \<open>
  The grid lines reported for a pixel range lie in the range, right of its first pixel,
  each at the position of the element index reported with it; and the far edge of every
  element with a size, if in the range, is reported.
\<close>

theorem grid_lines_exact:
  assumes "dim_ok this"
  shows "\<exists>calls. forEachInCorePixelRange this a b = Inr calls \<and>
    (\<forall>p i. (p, i) \<in> set calls \<longrightarrow> a < p \<and> p \<le> b \<and> 0 \<le> i \<and> i \<le> lastIndex this + 1 \<and>
       p = psum (core_size (sd_twipsPerCorePixel this) (value_at (visibleSpans this))) i) \<and>
    (\<forall>i. 0 \<le> i \<and> i \<le> lastIndex this \<and>
       0 < core_size (sd_twipsPerCorePixel this) (value_at (visibleSpans this)) i \<and>
       a < psum (core_size (sd_twipsPerCorePixel this) (value_at (visibleSpans this))) (i + 1) \<and>
       psum (core_size (sd_twipsPerCorePixel this) (value_at (visibleSpans this))) (i + 1) \<le> b \<longrightarrow>
       (psum (core_size (sd_twipsPerCorePixel this) (value_at (visibleSpans this))) (i + 1), i + 1)
         \<in> set calls)"
proof -
  obtain calls where c: "forEachInCorePixelRange this a b = Inr calls"
    using assms by (simp add: forEachInCorePixelRange_def)
  show ?thesis
    by (rule exI [of _ calls], intro conjI c allI impI)
      (use grid_lines_iff [OF assms c] in blast)+
qed

theorem grid_lines_exact_witness:
  "\<exists>calls. forEachInCorePixelRange sample_dim 20 130 = Inr calls \<and>
    (\<forall>p i. (p, i) \<in> set calls \<longrightarrow> 20 < p \<and> p \<le> 130 \<and> 0 \<le> i \<and> i \<le> 20 \<and>
       p = psum (core_size 15 (value_at (visibleSpans sample_dim))) i)"
  using grid_lines_exact [of sample_dim 20 130] sample_dim_facts by auto

subsection \<open>Where the code departs\<close>

text \<open>
  The position at the very end of a sheet whose last element is visible has no tile
  twips position: the element index computed for it is one past the last, its data are
  undefined and reading them throws.
\<close>

theorem end_of_sheet_throws:
  "SheetDimension_getIndexFromPos sample_dim 5040 printtwips = Inr (Fin 20) \<and>
   SheetDimension_getSize sample_dim printtwips = Inr (Some 5040) \<and>
   getTileTwipsPosFromPrint sample_dim 5040 None = Inl TypeError"
  by code_simp

definition fractional_dim :: sheet_dimension where
  "fractional_dim = setMaxIndex 19
     (snd (SheetDimension_update
        \<lparr>dj_sizes = Some ''255:0 300:19 '', dj_hidden = Some ''0:19 '',
         dj_filtered = Some ''0:19 '', dj_groups = None\<rparr>
        (snd (SheetDimension_setTileGeometryData 445 256 False SheetDimension_new))))"

text \<open>
  With a fractional number of twips per core pixel some pixel inside an early row is
  looked up as the last row of the sheet: its position in twips falls between the end of
  one span, rounded down, and the start of the next.
\<close>

theorem fractional_pixel_lookup:
  "psum (core_size (sd_twipsPerCorePixel fractional_dim) (value_at (visibleSpans fractional_dim))) 1 = 146 \<and>
   SheetDimension_getIndexFromPos fractional_dim 145 corepixels = Inr (Fin 19)"
  by (intro conjI; code_simp)

end
