(* ===== verification/Sheet_Properties.thy ===== *)
theory Sheet_Properties
  imports Sheet_Geometry Dimension_Properties
begin

section \<open>What a sheet geometry promises\<close>

text \<open>
  Properties of \<open>SheetGeometry\<close>: building it from a complete message of the core gives cell
  rectangles that are sums of the shown sizes at any zoom, the last visible index is read
  off the encoding of the hidden elements correctly, and the search for the first visible
  row is not.
\<close>

subsection \<open>Elements at a given zoom\<close>

definition zoom_size :: "num \<Rightarrow> (int \<Rightarrow> int) \<Rightarrow> int \<Rightarrow> int" where
  "zoom_size z f j = \<lfloor>of_int (f j) * z / 15\<rfloor>"

lemma zoom_fold:
  assumes wf: "spans_wf ss" and "n < length ss" and "span_start ss n \<le> i" and "i \<le> sp_index (last ss)"
  shows "fold (zoom_element_step i z) (range_loop ss n i)
      (psum (zoom_size z (value_at ss)) (span_start ss n), s0) =
    (psum (zoom_size z (value_at ss)) i, zoom_size z (value_at ss) i)"
  using assms(2,3)
proof (induction "length ss - n" arbitrary: n s0 rule: less_induct)
  case less
  let ?a = "span_start ss n" and ?e = "sp_index (ss ! n)" and ?Z = "zoom_size z (value_at ss)"
  let ?c = "\<lfloor>of_int (sp_value (ss ! n)) * z / 15\<rfloor>"
  have ae: "?a \<le> ?e" using span_start_le(1) [OF wf less.prems(1)] .
  have lin: "psum ?Z b = psum ?Z ?a + ?c * (b - ?a)" if "?a \<le> b" "b \<le> ?e + 1" for b
    by (rule psum_in_span [OF wf less.prems(1) order_refl that]) (simp add: zoom_size_def)
  show ?case
  proof (cases "?e < i")
    case True
    have more: "Suc n < length ss"
    proof (rule ccontr)
      assume "\<not> Suc n < length ss"
      with less.prems(1) have "n = length ss - 1" by simp
      with True assms(4) wf show False by (simp add: last_conv_nth spans_wf_def)
    qed
    note st = spans_wf_step(2) [OF wf more]
    have "fold (zoom_element_step i z) (range_loop ss (Suc n) i)
        (psum ?Z (span_start ss (Suc n)), s0) = (psum ?Z i, ?Z i)"
      by (rule less.hyps) (use more True st in auto)
    moreover have "zoom_element_step i z (getSpanData ss n) (psum ?Z ?a, s0) =
        (psum ?Z (span_start ss (Suc n)), s0)"
    proof -
      have "?e + 1 - ?a = ?e - ?a + 1" by simp
      with True st lin [of "?e + 1"] ae show ?thesis by (simp add: zoom_element_step_def Let_def)
    qed
    ultimately show ?thesis
      using True more by (simp add: range_loop.simps [of ss n] Let_def)
  next
    case False
    have here: "zoom_element_step i z (getSpanData ss n) (psum ?Z ?a, s0) = (psum ?Z i, ?Z i)"
      using False less.prems(2) lin [of i] value_at_span [OF less.prems(1,2) _ wf]
      by (simp add: zoom_element_step_def zoom_size_def Let_def)
    show ?thesis
    proof (cases "Suc n < length ss \<and> ?e \<le> i")
      case True
      have ei: "?e = i" using True False by simp
      note st = spans_wf_step [OF wf] True
      have "sp_index (ss ! Suc n) > i" using st ei by auto
      then have "range_loop ss (Suc n) i = [getSpanData ss (Suc n)]"
        by (simp add: range_loop.simps [of ss "Suc n"] Let_def)
      moreover have "span_start ss (Suc n) = i + 1" using st ei by auto
      ultimately have "range_loop ss n i = [getSpanData ss n, getSpanData ss (Suc n)]"
        "zoom_element_step i z (getSpanData ss (Suc n)) (psum ?Z i, ?Z i) = (psum ?Z i, ?Z i)"
        using True \<open>sp_index (ss ! Suc n) > i\<close>
        by (auto simp: range_loop.simps [of ss n] zoom_element_step_def Let_def)
      with here show ?thesis by simp
    next
      case no: False
      then have "range_loop ss n i = [getSpanData ss n]" by (auto simp: range_loop.simps [of ss n] Let_def)
      with here show ?thesis by simp
    qed
  qed
qed

lemma getElementData_zoom:
  assumes ok: "dim_ok this" and i: "0 \<le> i" "i \<le> lastIndex this"
  shows "getElementData this i (Some z) = Inr (Some
    \<lparr>ps_startpos = Some (psum (zoom_size z (value_at (visibleSpans this))) i),
     ps_size = zoom_size z (value_at (visibleSpans this)) i\<rparr>)"
proof -
  let ?ss = "visibleSpans this"
  note wf = dim_okD(2) [OF ok]
  have len: "0 < length ?ss" using wf by (auto simp: spans_wf_def)
  have "searchByIndex ?ss 0 = int 0"
    by (rule searchByIndex_hit [OF wf len]) (use span_start_le [OF wf len] in \<open>auto simp: span_start_def\<close>)
  then have "forEachSpanInRange ?ss 0 i = range_loop ?ss 0 i"
    using i(1) by (simp add: forEachSpanInRange_def Let_def)
  moreover have "fold (zoom_element_step i z) (range_loop ?ss 0 i) (0, 0) =
      (psum (zoom_size z (value_at ?ss)) i, zoom_size z (value_at ?ss) i)"
    using zoom_fold [OF wf len, of i z 0] i by (simp add: span_start_def lastIndex_def)
  ultimately show ?thesis using ok by (simp add: getElementData_def)
qed

subsection \<open>The last visible index\<close>

lemma bit_at_nth:
  assumes "sorted_wrt (<) es" and "k < length es" and "k = 0 \<or> es ! (k - 1) < i" and "i \<le> es ! k"
  shows "bit_at sb es i = (sb \<noteq> odd k)"
  using assms
proof (induction es arbitrary: k sb)
  case (Cons e es)
  show ?case
  proof (cases k)
    case 0
    with Cons.prems show ?thesis by simp
  next
    case (Suc m)
    have "e < i"
    proof (cases m)
      case 0
      with Suc Cons.prems show ?thesis by simp
    next
      case (Suc m')
      with \<open>k = Suc m\<close> Cons.prems have "es ! m' < i" "e < es ! m'" by auto
      then show ?thesis by simp
    qed
    moreover have "bit_at (\<not> sb) es i = ((\<not> sb) \<noteq> odd m)"
      by (rule Cons.IH) (use Suc Cons.prems in \<open>cases m; auto\<close>)+
    ultimately show ?thesis using Suc by auto
  qed
qed simp

lemma join_concat:
  "ps \<noteq> [] \<Longrightarrow> concat (map (\<lambda>p. p @ '' '') ps) = join_with '' '' ps @ '' ''"
  by (induction "'' ''" ps rule: join_with.induct) auto

lemma join_ends:
  assumes "ps \<noteq> []" and "\<And>p. p \<in> set ps \<Longrightarrow> p \<noteq> []"
  shows "join_with sep ps \<noteq> [] \<and> hd (join_with sep ps) = hd (hd ps) \<and> last (join_with sep ps) = last (last ps)"
  using assms by (induction sep ps rule: join_with.induct) auto

lemma dropWhile_hd: "xs \<noteq> [] \<Longrightarrow> \<not> P (hd xs) \<Longrightarrow> dropWhile P xs = xs"
  by (cases xs) auto

lemma trim_pieces:
  assumes ne: "ps \<noteq> []" and p: "\<And>p. p \<in> set ps \<Longrightarrow> p \<noteq> [] \<and> (\<forall>c \<in> set p. \<not> is_space c)"
  shows "js_trim (concat (map (\<lambda>p. p @ '' '') ps)) = join_with '' '' ps"
proof -
  let ?j = "join_with '' '' ps"
  have j: "?j \<noteq> []" "hd ?j = hd (hd ps)" "last ?j = last (last ps)"
    using join_ends [OF ne, of "'' ''"] p by auto
  have "\<not> is_space (hd ?j)" "\<not> is_space (last ?j)"
    unfolding j using p [of "hd ps"] p [of "last ps"] ne by auto
  then have "dropWhile is_space (?j @ '' '') = ?j @ '' ''" "dropWhile is_space (rev ?j) = rev ?j"
    using j(1) by (auto intro!: dropWhile_hd simp: hd_rev)
  then show ?thesis
    unfolding join_concat [OF ne] js_trim_def by (simp add: is_space_def)
qed

definition bool_pieces :: "bool_span_list \<Rightarrow> string list" where
  "bool_pieces b =
     ((if bs_startBit b then ''1'' else ''0'') @ '':'' @ show_int (hd (bs_spanlist b))) #
     map show_int (tl (bs_spanlist b))"

lemma bool_pieces_chars:
  assumes "p \<in> set (bool_pieces b)"
  shows "p \<noteq> [] \<and> (\<forall>c \<in> set p. \<not> is_space c)" and "CHR '' '' \<notin> set p"
proof -
  have s: "\<not> is_space CHR ''1''" "\<not> is_space CHR ''0''" "\<not> is_space CHR '':''" "is_space CHR '' ''"
    by (simp_all add: is_space_def)
  show "p \<noteq> [] \<and> (\<forall>c \<in> set p. \<not> is_space c)"
    using assms s show_int_chars by (auto simp: bool_pieces_def split: if_splits)
  with s show "CHR '' '' \<notin> set p" by blast
qed

lemma checkMaxIndex_pieces:
  assumes "bs_spanlist b \<noteq> []"
  defines "es \<equiv> bs_spanlist b"
  shows "checkMaxIndex (encode_bools b) =
    (if length es = 1 then Some (if bs_startBit b then 0 else hd es)
     else if bs_startBit b = even (length es) then Some (last es)
     else Some (es ! (length es - 2)))"
proof -
  let ?ps = "bool_pieces b"
  have len: "length ?ps = length es" using assms by (simp add: bool_pieces_def)
  have enc: "encode_bools b = concat (map (\<lambda>p. p @ '' '') ?ps)"
    by (simp add: encode_bools_def bool_pieces_def)
  have trim: "js_trim (encode_bools b) = join_with '' '' ?ps"
    unfolding enc by (rule trim_pieces) (use bool_pieces_chars in \<open>auto simp: bool_pieces_def\<close>)
  have split: "split_on CHR '' '' (join_with '' '' ?ps) = ?ps"
    by (rule split_on_join) (use bool_pieces_chars(2) in \<open>auto simp: bool_pieces_def\<close>)
  have hd_join: "join_with '' '' ?ps \<noteq> [] \<and> hd (join_with '' '' ?ps) = hd (hd ?ps)"
    using join_ends [of ?ps "'' ''"] bool_pieces_chars(1) by (auto simp: bool_pieces_def)
  then have first: "(case join_with '' '' ?ps of [] \<Rightarrow> False | c # _ \<Rightarrow> c = CHR ''1'') = bs_startBit b"
    by (cases "join_with '' '' ?ps") (auto simp: bool_pieces_def)
  have colon: "parse_entry (split_on CHR '':'' (?ps ! 0)) 1 = Some (hd es)"
    using assms by (simp add: bool_pieces_def split_on_append_sep split_on_no_sep parse_entry_def js_nth_def)
  have nth: "parse_entry ?ps (int k) = Some (es ! k)" if "0 < k" "k < length es" for k
    using that len unfolding parse_entry_def js_nth_int [OF that(2) [folded len]]
    by (cases k) (auto simp: bool_pieces_def es_def nth_tl)
  have lst: "parse_entry ?ps (int (length es) - 1) = Some (last es)" if "length es \<noteq> 1"
    using nth [of "length es - 1"] that assms by (cases "length es") (auto simp: last_conv_nth es_def)
  have pre: "parse_entry ?ps (int (length es) - 2) = Some (es ! (length es - 2))" if "2 < length es"
    using nth [of "length es - 2"] that by (simp add: of_nat_diff)
  have unf: "checkMaxIndex (encode_bools b) =
     (if length es = 1 then
        (if bs_startBit b then Some 0 else parse_entry (split_on CHR '':'' (?ps ! 0)) 1)
      else if \<not> ((even (length es) \<and> \<not> bs_startBit b) \<or> (odd (length es) \<and> bs_startBit b))
      then parse_entry ?ps (int (length es) - 1)
      else if length es = 2 then parse_entry (split_on CHR '':'' (?ps ! 0)) 1
      else parse_entry ?ps (int (length es) - 2))"
    unfolding checkMaxIndex_def trim Let_def first split len by (rule refl)
  have "length es \<noteq> 0" using assms by simp
  then consider "length es = 1" | "length es = 2" | "2 < length es" by linarith
  then show ?thesis
  proof cases
    case 1
    with colon show ?thesis by (simp add: unf)
  next
    case 2
    with colon lst assms show ?thesis by (auto simp: unf hd_conv_nth es_def)
  next
    case 3
    with lst pre show ?thesis by (auto simp: unf)
  qed
qed

subsection \<open>Properties\<close>

text \<open>
  From the encoding of the hidden elements, \<open>checkMaxIndex\<close> reads the last visible
  index, unless everything is hidden: that element is visible and every later one is not.
\<close>

theorem last_visible_index:
  assumes wf: "bools_wf b" and vis: "\<not> (bs_startBit b \<and> length (bs_spanlist b) = 1)"
  shows "\<exists>m. checkMaxIndex (encode_bools b) = Some m \<and> 0 \<le> m \<and> m \<le> last (bs_spanlist b) \<and>
    \<not> bool_at b m \<and> (\<forall>j. m < j \<and> j \<le> last (bs_spanlist b) \<longrightarrow> bool_at b j)"
proof -
  let ?es = "bs_spanlist b" and ?n = "length (bs_spanlist b)"
  have ne: "?es \<noteq> []" and srt: "sorted_wrt (<) ?es" and h0: "0 \<le> hd ?es"
    using wf by (auto simp: bools_wf_def)
  have nonneg: "x \<in> set ?es \<Longrightarrow> 0 \<le> x" for x using sorted_wrt_hd_min [OF srt, of x] h0 by simp
  have lt: "i < j \<Longrightarrow> j < ?n \<Longrightarrow> ?es ! i < ?es ! j" for i j
    using srt by (simp add: sorted_wrt_iff_nth_less)
  have lst: "last ?es = ?es ! (?n - 1)" using ne by (simp add: last_conv_nth)
  have bit: "bool_at b i = (bs_startBit b \<noteq> odd k)" if "k < ?n" "k = 0 \<or> ?es ! (k - 1) < i" "i \<le> ?es ! k" for i k
    using bit_at_nth [OF srt that] by (simp add: bool_at_def)
  have bit_end: "bool_at b (?es ! k) = (bs_startBit b \<noteq> odd k)" if "k < ?n" for k
    by (rule bit) (use lt [of "k - 1" k] that in \<open>cases k; auto\<close>)+
  show ?thesis
  proof (cases "bs_startBit b \<longleftrightarrow> even ?n")
    case True
    then have "checkMaxIndex (encode_bools b) = Some (last ?es)"
      using checkMaxIndex_pieces [OF ne] vis ne by (auto simp: lst hd_conv_nth)
    moreover have "\<not> bool_at b (last ?es)"
      using bit_end [of "?n - 1"] True ne by (cases ?n) (auto simp: lst)
    ultimately show ?thesis using nonneg [of "last ?es"] ne by auto
  next
    case False
    with vis ne have n2: "2 \<le> ?n" by (cases ?es; cases "tl ?es") auto
    let ?m = "?es ! (?n - 2)"
    have m: "checkMaxIndex (encode_bools b) = Some ?m"
      using checkMaxIndex_pieces [OF ne] False n2 by auto
    have pre: "?n - 1 - 1 = ?n - 2" by simp
    have "bool_at b j" if "?m < j" "j \<le> last ?es" for j
      using bit [of "?n - 1" j] that False n2 unfolding lst pre by auto
    moreover have "\<not> bool_at b ?m"
      using bit_end [of "?n - 2"] False n2 by auto
    moreover have "?m < last ?es" unfolding lst by (rule lt) (use n2 in auto)
    moreover have "0 \<le> ?m" using nonneg n2 by simp
    ultimately show ?thesis using m by auto
  qed
qed

theorem last_visible_index_witness:
  "\<exists>m. checkMaxIndex (encode_bools \<lparr>bs_startBit = False, bs_spanlist = [5, 8, 10, 1023]\<rparr>) = Some m \<and>
    0 \<le> m \<and> m \<le> 1023 \<and> \<not> bool_at \<lparr>bs_startBit = False, bs_spanlist = [5, 8, 10, 1023]\<rparr> m \<and>
    (\<forall>j. m < j \<and> j \<le> 1023 \<longrightarrow> bool_at \<lparr>bs_startBit = False, bs_spanlist = [5, 8, 10, 1023]\<rparr> j)"
  using last_visible_index [of "\<lparr>bs_startBit = False, bs_spanlist = [5, 8, 10, 1023]\<rparr>"]
  by (simp add: bools_wf_def)

text \<open>
  The rectangle of an existing cell at any zoom starts at the sums of the zoomed sizes
  of the columns and rows before it and has the zoomed size of its column and row.
\<close>

theorem cell_rect_at_zoom:
  assumes "dim_ok (sg_columns this)" and "dim_ok (sg_rows this)"
    and "0 \<le> c" and "c \<le> lastIndex (sg_columns this)" and "0 \<le> r" and "r \<le> lastIndex (sg_rows this)"
  shows "getCellRect this c r (Some z) = Inr (Some (rect_of_numbers
      (psum (zoom_size z (value_at (visibleSpans (sg_columns this)))) c)
      (psum (zoom_size z (value_at (visibleSpans (sg_rows this)))) r)
      (zoom_size z (value_at (visibleSpans (sg_columns this))) c)
      (zoom_size z (value_at (visibleSpans (sg_rows this))) r)))"
  using getElementData_zoom [OF assms(1,3,4), of z] getElementData_zoom [OF assms(2,5,6), of z]
  by (simp add: getCellRect_def cell_data_def pair_result_def posOf_def rect_of_numbers_def Let_def)

definition sample_sheet :: sheet_geometry where
  "sample_sheet = SheetGeometry_blank\<lparr>sg_columns := sample_dim, sg_rows := sample_dim\<rparr>"

theorem cell_rect_at_zoom_witness:
  "getCellRect sample_sheet 3 12 (Some 2) = Inr (Some (rect_of_numbers
      (psum (zoom_size 2 (value_at (visibleSpans sample_dim))) 3)
      (psum (zoom_size 2 (value_at (visibleSpans sample_dim))) 12)
      (zoom_size 2 (value_at (visibleSpans sample_dim)) 3)
      (zoom_size 2 (value_at (visibleSpans sample_dim)) 12)))"
  using cell_rect_at_zoom [of sample_sheet 3 12 2] sample_dim_facts by (simp add: sample_sheet_def)

text \<open>
  A message without the command name, with an unreadable largest index, or incomplete
  when completeness is asked for, is refused and leaves the geometry as it was; whenever the
  update reports success the part is the one asked for and the largest indices are the
  numbers of the message.
\<close>

theorem sheet_update_guarded:
  "(\<not> testValidity json chk \<longrightarrow> SheetGeometry_update json chk part this = (Inr False, this)) \<and>
   (\<forall>this'. SheetGeometry_update json chk part this = (Inr True, this') \<longrightarrow>
      sg_part this' = part \<and> testValidity json chk \<and>
      Some (sd_maxIndex (sg_columns this')) = Option.bind (gj_maxtiledcolumn json) js_to_number \<and>
      Some (sd_maxIndex (sg_rows this')) = Option.bind (gj_maxtiledrow json) js_to_number)"
proof (intro conjI impI allI)
  assume "\<not> testValidity json chk"
  then show "SheetGeometry_update json chk part this = (Inr False, this)"
    by (simp add: SheetGeometry_update_def)
next
  fix this' assume u: "SheetGeometry_update json chk part this = (Inr True, this')"
  then show v: "testValidity json chk" by (auto simp: SheetGeometry_update_def split: if_splits)
  from u v show "sg_part this' = part"
    by (auto simp: SheetGeometry_update_def Let_def split: prod.splits sum.splits if_splits)
  have tiled: "Some (tiled_index s) = Option.bind s js_to_number"
    if "case s of None \<Rightarrow> False | Some t \<Rightarrow> all_digits t" for s
    using that by (cases s) (auto simp: tiled_index_def dest!: all_digits_number)
  from u v tiled [of "gj_maxtiledcolumn json"]
  show "Some (sd_maxIndex (sg_columns this')) = Option.bind (gj_maxtiledcolumn json) js_to_number"
    by (auto simp: SheetGeometry_update_def testValidity_def setMaxIndex_def Let_def
        split: prod.splits sum.splits)
  from u v tiled [of "gj_maxtiledrow json"]
  show "Some (sd_maxIndex (sg_rows this')) = Option.bind (gj_maxtiledrow json) js_to_number"
    by (auto simp: SheetGeometry_update_def testValidity_def setMaxIndex_def Let_def
        split: prod.splits sum.splits)
qed

definition sample_message :: geometry_json where
  "sample_message = \<lparr>gj_commandName = Some unoCommand, gj_maxtiledcolumn = Some ''19'',
     gj_maxtiledrow = Some ''19'', gj_columns = Some sample_json, gj_rows = Some sample_json\<rparr>"

theorem sheet_update_guarded_witness:
  "SheetGeometry_update (sample_message\<lparr>gj_commandName := None\<rparr>) True 3 sample_sheet =
     (Inr False, sample_sheet) \<and>
   sg_part (snd (SheetGeometry_update sample_message True 3 sample_sheet)) = 3"
proof -
  have "\<not> testValidity (sample_message\<lparr>gj_commandName := None\<rparr>) True"
    and ok: "fst (SheetGeometry_update sample_message True 3 sample_sheet) = Inr True" by code_simp+
  moreover have "SheetGeometry_update sample_message True 3 sample_sheet =
      (Inr True, snd (SheetGeometry_update sample_message True 3 sample_sheet))"
    by (metis ok prod.collapse)
  ultimately show ?thesis
    using sheet_update_guarded [of "sample_message\<lparr>gj_commandName := None\<rparr>" True 3 sample_sheet]
      sheet_update_guarded [of sample_message True 3 sample_sheet] by blast
qed

definition sheet_with_view :: "int \<Rightarrow> sheet_geometry" where
  "sheet_with_view row = SheetGeometry_blank\<lparr>sg_rows := SheetDimension_new\<lparr>
     sd_viewStartIndex := Some (Fin row),
     sd_invisibleSpanList := Some \<lparr>bs_startBit = False, bs_spanlist = [5, 8, 10, 20]\<rparr>\<rparr>\<rparr>"

text \<open>
  After an update, the search for the first visible row can return a hidden one: with
  rows 0 to 5 and 9 to 10 visible and a view that starts at the visible row 9 it returns
  row 20, which is hidden, and for the hidden row 7 it returns the hidden row 8.
\<close>

theorem first_visible_row_hidden:
  "getFirstNewVisibleRow (sheet_with_view 9) = Inr (Some (Fin 20)) \<and>
   getFirstNewVisibleRow (sheet_with_view 7) = Inr (Some (Fin 8)) \<and>
   \<not> bool_at \<lparr>bs_startBit = False, bs_spanlist = [5, 8, 10, 20]\<rparr> 9 \<and>
   bool_at \<lparr>bs_startBit = False, bs_spanlist = [5, 8, 10, 20]\<rparr> 20 \<and>
   bool_at \<lparr>bs_startBit = False, bs_spanlist = [5, 8, 10, 20]\<rparr> 8"
  by code_simp

end
