(* ===== verification/Tile_Coords.thy ===== *)
theory Tile_Coords
  imports Rectangles Js_String "HOL-Library.Word"
begin

section \<open>The coordinates of tiles\<close>

text \<open>
  \<open>TileCoordData\<close> of \<open>browser/src/app/TilesMiddleware.ts\<close> and the functions of its \<open>TileManager\<close>
  that compute with coordinates: keys, the conversion of server messages, the ranges of tiles
  of a pixel area, validity. What the code reads of the global \<open>app\<close> and of the window is the
  record \<open>tile_app\<close>: the zoom and the selected part of the map, the sizes of the document and of
  a tile, the state of the active layout, whether a rectangle is visible in the displayed area,
  the split panes, the number of workers and the zstd library (\<open>None\<close> when it throws).
\<close>

record tile_coords =
  tc_x :: int
  tc_y :: int
  tc_z :: int
  tc_part :: int
  tc_mode :: int
  tc_scale :: num

record tile_app =
  ta_tileSize :: int
  ta_zoom :: int
  ta_selectedPart :: int
  ta_scale :: app_scale
  ta_fileSize :: "num \<times> num"
  ta_tileTwips :: "int \<times> int"
  ta_tilePx :: "int \<times> int"
  ta_hasLayout :: bool
  ta_activeModes :: "int list"
  ta_isVisible :: "rect4 \<Rightarrow> bool"
  ta_viewCenter :: "num \<times> num"
  ta_panDirection :: "num \<times> num"
  ta_isCalc :: bool
  ta_isWriter :: bool
  ta_isPresentation :: bool
  ta_isAndroid :: bool
  ta_isIOS :: bool
  ta_workers :: nat
  ta_decompress :: "8 word list \<Rightarrow> 8 word list option"
  ta_documentInfo :: bool
  ta_canonicalIdInitialized :: bool
  ta_gotFirstCellCursor :: bool
  ta_mapSize :: "num \<times> num"
  ta_sectionSize :: "num \<times> num"
  ta_editMode :: bool
  ta_pixelBounds :: bounds
  ta_pxBoundList :: "(bounds \<Rightarrow> bounds list) option"
  ta_panesProperties :: "(bool \<times> bool) list"
  ta_splitPos :: point
  ta_parts :: int
  ta_partsDirection :: int
  ta_moveInProgress :: bool
  ta_compareChanges :: bool
  ta_multiPage :: bool
  ta_currentCoordList :: "tile_coords list"
  ta_fileBased :: bool
  ta_partSizeTwips :: "num \<times> num"
  ta_spaceBetweenParts :: num
  ta_isZooming :: bool
  ta_viewedPx :: rect4

definition zoom_scale :: "int \<Rightarrow> num" where
  "zoom_scale z = (12 / 10) powi (z - 10)"

definition TileCoordData ::
    "tile_app \<Rightarrow> int \<Rightarrow> int \<Rightarrow> int option \<Rightarrow> int option \<Rightarrow> int option \<Rightarrow> tile_coords" where
  "TileCoordData app x y zoom part mode =
     (let z = (case zoom of Some v \<Rightarrow> v | None \<Rightarrow> ta_zoom app)
      in \<lparr>tc_x = x, tc_y = y, tc_z = z,
          tc_part = (case part of Some v \<Rightarrow> v | None \<Rightarrow> ta_selectedPart app),
          tc_mode = (case mode of Some v \<Rightarrow> v | None \<Rightarrow> 0),
          tc_scale = zoom_scale z\<rparr>)"

definition tc_getPos :: "tile_coords \<Rightarrow> point" where
  "tc_getPos c = Point (of_int (tc_x c)) (of_int (tc_y c)) False"

definition tc_getPosSimplePoint :: "tile_app \<Rightarrow> tile_coords \<Rightarrow> simple_point" where
  "tc_getPosSimplePoint app c =
     SimplePoint_fromCorePixels (ta_scale app) (of_int (tc_x c), of_int (tc_y c)) (tc_part c) (tc_mode c)"

definition tile_key :: "tile_coords \<Rightarrow> string" where
  "tile_key c =
     show_int (tc_x c) @ '':'' @ show_int (tc_y c) @ '':'' @ show_int (tc_z c) @ '':'' @
     show_int (tc_part c) @ '':'' @ show_int (tc_mode c)"

definition tile_toString :: "tile_coords \<Rightarrow> string" where
  "tile_toString c =
     ''{ left : '' @ show_int (tc_x c) @ '', top : '' @ show_int (tc_y c) @ '', z : '' @ show_int (tc_z c) @
     '', part : '' @ show_int (tc_part c) @ '', mode : '' @ show_int (tc_mode c) @ '' }''"

text \<open>
  The mode is read from the fifth field when there are four; a field that is not a number makes
  the coordinate \<open>NaN\<close>, and the result is \<open>None\<close> here.
\<close>

definition key_field :: "string list \<Rightarrow> nat \<Rightarrow> int option" where
  "key_field k i = (if i < length k then js_to_number (k ! i) else None)"

definition parseKey :: "tile_app \<Rightarrow> string \<Rightarrow> tile_coords option" where
  "parseKey app key =
     (let k = split_on CHR '':'' key;
          mode = (if length k = 4 then key_field k 4 else Some 0)
      in case (key_field k 0, key_field k 1, key_field k 2, key_field k 3, mode) of
           (Some x, Some y, Some z, Some p, Some m) \<Rightarrow>
             Some (TileCoordData app x y (Some z) (Some p) (Some m))
         | _ \<Rightarrow> None)"

definition keyToTileCoords :: "tile_app \<Rightarrow> string \<Rightarrow> tile_coords option" where
  "keyToTileCoords app key = parseKey app key"

subsection \<open>Messages\<close>

record tile_msg =
  msg_x :: num
  msg_y :: num
  msg_tileWidth :: num
  msg_tileHeight :: num
  msg_zoom :: int
  msg_part :: int
  msg_mode :: "int option"
  msg_nviewid :: int
  msg_wireId :: int
  msg_id :: "string option"

definition twipsToCoords :: "tile_app \<Rightarrow> tile_msg \<Rightarrow> tile_coords" where
  "twipsToCoords app twips =
     TileCoordData app (js_round (msg_x twips / msg_tileWidth twips) * ta_tileSize app)
       (js_round (msg_y twips / msg_tileHeight twips) * ta_tileSize app) None None None"

definition tileMsgToCoords :: "tile_app \<Rightarrow> tile_msg \<Rightarrow> tile_coords" where
  "tileMsgToCoords app tileMsg =
     (twipsToCoords app tileMsg)\<lparr>tc_z := msg_zoom tileMsg, tc_part := msg_part tileMsg,
       tc_mode := (case msg_mode tileMsg of Some m \<Rightarrow> m | None \<Rightarrow> 0)\<rparr>"

text \<open>The position of a tile in a request, \<open>sendTileCombineRequestNow\<close>.\<close>

definition request_twips :: "tile_app \<Rightarrow> tile_coords \<Rightarrow> int \<times> int" where
  "request_twips app c =
     (\<lfloor>of_int (tc_x c) / (of_int (ta_tileSize app) :: num)\<rfloor> * fst (ta_tileTwips app),
      \<lfloor>of_int (tc_y c) / (of_int (ta_tileSize app) :: num)\<rfloor> * snd (ta_tileTwips app))"

subsection \<open>Areas\<close>

definition tileZoomIsCurrent :: "tile_app \<Rightarrow> tile_coords \<Rightarrow> bool" where
  "tileZoomIsCurrent app c \<longleftrightarrow> js_round (tc_scale c * 1000) = js_round (zoom_scale (ta_zoom app) * 1000)"

definition isValidTile :: "tile_app \<Rightarrow> tile_coords \<Rightarrow> bool" where
  "isValidTile app c =
     (if tc_x c < 0 \<or> tc_y c < 0 then False
      else if of_int (tc_x c) * pixelsToTwips (ta_scale app) \<ge> fst (ta_fileSize app) \<or>
              of_int (tc_y c) * pixelsToTwips (ta_scale app) \<ge> snd (ta_fileSize app) then False
      else True)"

definition pixelCoordsToTwipTileBounds :: "tile_app \<Rightarrow> tile_coords \<Rightarrow> rect4" where
  "pixelCoordsToTwipTileBounds app c =
     (let pixelsToTwipsForTile = 15 / dpiScale (ta_scale app) / tc_scale c
      in \<lparr>r_x = of_int (tc_x c) * pixelsToTwipsForTile, r_y = of_int (tc_y c) * pixelsToTwipsForTile,
          r_w = of_int (fst (ta_tilePx app)) * pixelsToTwipsForTile,
          r_h = of_int (snd (ta_tilePx app)) * pixelsToTwipsForTile\<rparr>)"

definition pxBoundsToTileRange :: "tile_app \<Rightarrow> bounds \<Rightarrow> bounds" where
  "pxBoundsToTileRange app b =
     Bounds (Point_floor (Point_divideBy (bd_min b) (of_int (ta_tileSize app))))
       (Point_floor (Point_divideBy (bd_max b) (of_int (ta_tileSize app))))"

definition visibleTileExpansion :: num where
  "visibleTileExpansion = 1"

definition directionalTileExpansion :: num where
  "directionalTileExpansion = 2"

definition expandTileRange :: "tile_app \<Rightarrow> bounds \<Rightarrow> bounds" where
  "expandTileRange app r =
     (let grow = visibleTileExpansion; direction = ta_panDirection app;
          minOffset = Point (grow - grow * directionalTileExpansion * min 0 (fst direction))
                            (grow - grow * directionalTileExpansion * min 0 (snd direction)) False;
          maxOffset = Point (grow + grow * directionalTileExpansion * max 0 (fst direction))
                            (grow + grow * directionalTileExpansion * max 0 (snd direction)) False
      in Bounds (Point_subtract (bd_min r) minOffset) (Point_add (bd_max r) maxOffset))"

text \<open>The indices that the two nested loops over a range of tiles visit, row by row.\<close>

definition int_range :: "num \<Rightarrow> num \<Rightarrow> int list" where
  "int_range a b = [\<lceil>a\<rceil>..\<lfloor>b\<rfloor>]"

definition range_coords :: "tile_app \<Rightarrow> int \<Rightarrow> int \<Rightarrow> int \<Rightarrow> bounds \<Rightarrow> tile_coords list" where
  "range_coords app zoom part mode r =
     concat (map (\<lambda>j. map (\<lambda>i. TileCoordData app (i * ta_tileSize app) (j * ta_tileSize app)
        (Some zoom) (Some part) (Some mode)) (int_range (pt_x (bd_min r)) (pt_x (bd_max r))))
      (int_range (pt_y (bd_min r)) (pt_y (bd_max r))))"

subsection \<open>Keys\<close>

lemma tile_key_join:
  "tile_key c = join_with '':'' [show_int (tc_x c), show_int (tc_y c), show_int (tc_z c), show_int (tc_part c), show_int (tc_mode c)]"
  by (simp add: tile_key_def)

lemma split_tile_key:
  "split_on CHR '':'' (tile_key c) = [show_int (tc_x c), show_int (tc_y c), show_int (tc_z c), show_int (tc_part c), show_int (tc_mode c)]"
  unfolding tile_key_join by (rule split_on_join) auto

lemma tile_key_inject:
  "tile_key c = tile_key c' \<longleftrightarrow> tc_x c = tc_x c' \<and> tc_y c = tc_y c' \<and> tc_z c = tc_z c' \<and>
     tc_part c = tc_part c' \<and> tc_mode c = tc_mode c'"
proof
  assume "tile_key c = tile_key c'"
  then have "split_on CHR '':'' (tile_key c) = split_on CHR '':'' (tile_key c')" by simp
  then show "tc_x c = tc_x c' \<and> tc_y c = tc_y c' \<and> tc_z c = tc_z c' \<and> tc_part c = tc_part c' \<and> tc_mode c = tc_mode c'"
    by (simp add: split_tile_key)
qed (simp add: tile_key_def)

lemma int_range_set [simp]: "i \<in> set (int_range a b) \<longleftrightarrow> a \<le> of_int i \<and> of_int i \<le> b"
  by (auto simp: int_range_def ceiling_le_iff le_floor_iff)

lemma range_coords_set:
  "c \<in> set (range_coords app zoom part mode r) \<longleftrightarrow>
    (\<exists>i j. c = TileCoordData app (i * ta_tileSize app) (j * ta_tileSize app) (Some zoom) (Some part) (Some mode) \<and>
       pt_x (bd_min r) \<le> of_int i \<and> of_int i \<le> pt_x (bd_max r) \<and>
       pt_y (bd_min r) \<le> of_int j \<and> of_int j \<le> pt_y (bd_max r))" (is "?L \<longleftrightarrow> ?R")
proof
  show "?L \<Longrightarrow> ?R" unfolding range_coords_def by auto blast
  show "?R \<Longrightarrow> ?L" unfolding range_coords_def by (auto simp: image_iff) (metis int_range_set)
qed

lemma range_coords_mono:
  assumes "pt_x (bd_min e) \<le> pt_x (bd_min r)" "pt_y (bd_min e) \<le> pt_y (bd_min r)"
    "pt_x (bd_max r) \<le> pt_x (bd_max e)" "pt_y (bd_max r) \<le> pt_y (bd_max e)"
    and "c \<in> set (range_coords app zoom part mode r)"
  shows "c \<in> set (range_coords app zoom part mode e)"
proof -
  from assms(5) obtain i j where
    "c = TileCoordData app (i * ta_tileSize app) (j * ta_tileSize app) (Some zoom) (Some part) (Some mode)"
    "pt_x (bd_min r) \<le> of_int i" "of_int i \<le> pt_x (bd_max r)"
    "pt_y (bd_min r) \<le> of_int j" "of_int j \<le> pt_y (bd_max r)" unfolding range_coords_set by blast
  with assms(1-4) show ?thesis unfolding range_coords_set by (intro exI [of _ i] exI [of _ j]) simp
qed

lemma Bounds_ordered:
  "pt_x a \<le> pt_x b \<Longrightarrow> pt_y a \<le> pt_y b \<Longrightarrow> Bounds a b = \<lparr>bd_min = a, bd_max = b\<rparr>"
  by (simp add: Bounds_def)

subsection \<open>Properties\<close>

text \<open>
  A tile keeps its key over the wire: when the server answers a request for a tile, with the
  position and size of the request, the message is stored under the key that was requested.
\<close>

theorem reply_has_requested_key:
  assumes "0 < ta_tileSize app" and "0 < fst (ta_tileTwips app)" and "0 < snd (ta_tileTwips app)"
    and "tc_x c = i * ta_tileSize app" and "tc_y c = j * ta_tileSize app"
    and "msg_x m = of_int (fst (request_twips app c))" and "msg_y m = of_int (snd (request_twips app c))"
    and "msg_tileWidth m = of_int (fst (ta_tileTwips app))" and "msg_tileHeight m = of_int (snd (ta_tileTwips app))"
    and "msg_zoom m = tc_z c" and "msg_part m = tc_part c"
    and "msg_mode m = Some (tc_mode c) \<or> msg_mode m = None \<and> tc_mode c = 0"
  shows "tile_key (tileMsgToCoords app m) = tile_key c"
proof -
  have "of_int (k * ta_tileSize app) / (of_int (ta_tileSize app) :: num) = of_int k" for k
    using assms(1) by simp
  then show ?thesis
    using assms by (auto simp: tile_key_inject tileMsgToCoords_def twipsToCoords_def TileCoordData_def
        request_twips_def Let_def)
qed

definition sample_app :: tile_app where
  "sample_app = \<lparr>ta_tileSize = 256, ta_zoom = 10, ta_selectedPart = 0,
     ta_scale = \<lparr>twipsToPixels = 1 / 15, pixelsToTwips = 15, dpiScale = 1\<rparr>, ta_fileSize = (12000, 12000),
     ta_tileTwips = (3840, 3840), ta_tilePx = (256, 256), ta_hasLayout = True, ta_activeModes = [0],
     ta_isVisible = (\<lambda>r. r_y r < 3840), ta_viewCenter = (0, 0), ta_panDirection = (0, 1),
     ta_isCalc = True, ta_isWriter = False, ta_isPresentation = False, ta_isAndroid = False, ta_isIOS = False,
     ta_workers = 0, ta_decompress = Some, ta_documentInfo = True, ta_canonicalIdInitialized = True, ta_gotFirstCellCursor = True,
     ta_mapSize = (800, 600), ta_sectionSize = (800, 600), ta_editMode = True,
     ta_pixelBounds = \<lparr>bd_min = \<lparr>pt_x = 0, pt_y = 0\<rparr>, bd_max = \<lparr>pt_x = 500, pt_y = 100\<rparr>\<rparr>,
     ta_pxBoundList = None, ta_panesProperties = [(False, False)], ta_splitPos = \<lparr>pt_x = 0, pt_y = 0\<rparr>,
     ta_parts = 3, ta_partsDirection = 1, ta_moveInProgress = False, ta_compareChanges = False,
     ta_multiPage = False, ta_currentCoordList = [], ta_fileBased = False, ta_partSizeTwips = (12000, 12000),
     ta_spaceBetweenParts = 100, ta_isZooming = False, ta_viewedPx = \<lparr>r_x = 0, r_y = 0, r_w = 500, r_h = 100\<rparr>\<rparr>"

theorem reply_has_requested_key_witness:
  "tile_key (tileMsgToCoords sample_app \<lparr>msg_x = 3840, msg_y = 7680, msg_tileWidth = 3840, msg_tileHeight = 3840,
     msg_zoom = 10, msg_part = 2, msg_mode = None, msg_nviewid = 0, msg_wireId = 7, msg_id = None\<rparr>) =
   tile_key (TileCoordData sample_app 256 512 (Some 10) (Some 2) (Some 0))"
  by (rule reply_has_requested_key [where i = 1 and j = 2])
    (simp_all add: sample_app_def TileCoordData_def request_twips_def)

text \<open>
  The range of tiles of a pixel area contains the tile of every pixel of the area, and the
  expansion of a range towards the direction of scrolling contains the range.
\<close>

theorem tile_range_covers:
  assumes "0 < ta_tileSize app" and "pt_x (bd_min b) \<le> x" and "x \<le> pt_x (bd_max b)"
    and "pt_y (bd_min b) \<le> y" and "y \<le> pt_y (bd_max b)" and "r = pxBoundsToTileRange app b"
    and "c = TileCoordData app (\<lfloor>x / of_int (ta_tileSize app)\<rfloor> * ta_tileSize app)
      (\<lfloor>y / of_int (ta_tileSize app)\<rfloor> * ta_tileSize app) (Some zoom) (Some part) (Some mode)"
  shows "c \<in> set (range_coords app zoom part mode r) \<and> c \<in> set (range_coords app zoom part mode (expandTileRange app r)) \<and>
    of_int (tc_x c) \<le> x \<and> x < of_int (tc_x c + ta_tileSize app) \<and>
    of_int (tc_y c) \<le> y \<and> y < of_int (tc_y c + ta_tileSize app)"
proof -
  define s :: num where "s = of_int (ta_tileSize app)"
  have s: "0 < s" using assms(1) by (simp add: s_def)
  have mono: "of_int \<lfloor>u / s\<rfloor> \<le> (of_int \<lfloor>v / s\<rfloor> :: num)" if "u \<le> v" for u v
    using that s by (simp add: floor_mono divide_right_mono)
  have r: "r = \<lparr>bd_min = \<lparr>pt_x = of_int \<lfloor>pt_x (bd_min b) / s\<rfloor>, pt_y = of_int \<lfloor>pt_y (bd_min b) / s\<rfloor>\<rparr>,
      bd_max = \<lparr>pt_x = of_int \<lfloor>pt_x (bd_max b) / s\<rfloor>, pt_y = of_int \<lfloor>pt_y (bd_max b) / s\<rfloor>\<rparr>\<rparr>"
    using mono assms(2-5) by (simp add: assms(6) pxBoundsToTileRange_def Point_floor_def Point_divideBy_def
        s_def [symmetric] Bounds_ordered order_trans)
  define e where "e = expandTileRange app r"
  have e: "pt_x (bd_min e) \<le> pt_x (bd_min r)" "pt_y (bd_min e) \<le> pt_y (bd_min r)"
    "pt_x (bd_max r) \<le> pt_x (bd_max e)" "pt_y (bd_max r) \<le> pt_y (bd_max e)"
    by (simp_all add: e_def expandTileRange_def Bounds_def Bounds_extend_def Point_subtract_def Point_add_def Point_def
        visibleTileExpansion_def directionalTileExpansion_def Let_def min_def max_def)
  have in_r: "c \<in> set (range_coords app zoom part mode r)"
    using mono [OF assms(2)] mono [OF assms(3)] mono [OF assms(4)] mono [OF assms(5)]
    unfolding range_coords_set assms(7) r s_def [symmetric]
    by (intro exI [of _ "\<lfloor>x / s\<rfloor>"] exI [of _ "\<lfloor>y / s\<rfloor>"]) simp
  then have "c \<in> set (range_coords app zoom part mode e)"
    using e by (rule range_coords_mono [rotated -1])
  moreover have "of_int (\<lfloor>v / s\<rfloor> * ta_tileSize app) \<le> v \<and> v < of_int (\<lfloor>v / s\<rfloor> * ta_tileSize app + ta_tileSize app)" for v
    using s floor_divide_lower [of s v] floor_divide_upper [of s v] by (simp add: s_def algebra_simps)
  ultimately show ?thesis
    using in_r by (simp add: e_def assms(7) TileCoordData_def s_def [symmetric])
qed

theorem tile_range_covers_witness:
  "TileCoordData sample_app 256 0 (Some 10) (Some 0) (Some 0) \<in>
     set (range_coords sample_app 10 0 0 (pxBoundsToTileRange sample_app
       \<lparr>bd_min = \<lparr>pt_x = 0, pt_y = 0\<rparr>, bd_max = \<lparr>pt_x = 500, pt_y = 100\<rparr>\<rparr>))"
  using tile_range_covers [of sample_app "\<lparr>bd_min = \<lparr>pt_x = 0, pt_y = 0\<rparr>, bd_max = \<lparr>pt_x = 500, pt_y = 100\<rparr>\<rparr>"
      300 50 _ _ 10 0 0, OF _ _ _ _ _ refl refl]
  by (simp add: sample_app_def)

text \<open>
  Keys are different for different tiles, but reading a key back loses the mode: the result
  is in mode 0 whatever the mode of the tile.
\<close>

theorem key_roundtrip_loses_mode:
  "parseKey app (tile_key c) =
     Some (TileCoordData app (tc_x c) (tc_y c) (Some (tc_z c)) (Some (tc_part c)) (Some 0)) \<and>
   (tile_key c = tile_key c' \<longleftrightarrow> tc_x c = tc_x c' \<and> tc_y c = tc_y c' \<and> tc_z c = tc_z c' \<and>
     tc_part c = tc_part c' \<and> tc_mode c = tc_mode c')"
  by (simp add: parseKey_def split_tile_key key_field_def tile_key_inject)

text \<open>
  The scale of a tile that arrives in a message is that of the zoom of the view at that time,
  not of its own zoom, so it always counts as a tile of the current zoom.
\<close>

theorem message_scale_is_of_view:
  "tc_scale (tileMsgToCoords app m) = zoom_scale (ta_zoom app) \<and> tileZoomIsCurrent app (tileMsgToCoords app m)"
  by (simp add: tileMsgToCoords_def twipsToCoords_def TileCoordData_def tileZoomIsCurrent_def Let_def)

end
