(* ===== verification/Tile_Codec.thy ===== *)
theory Tile_Codec
  imports Prelude "HOL-Library.Word"
begin

unbundle bit_operations_syntax

section \<open>Decoding tiles: run lengths and deltas\<close>

text \<open>
  \<open>browser/src/layer/tile/CanvasTileUtils.ts\<close>: the decoder of a run-length encoded tile
  (\<open>unrle\<close>) and the application of deltas to an image (\<open>applyDeltaChunk\<close>,
  \<open>updateImageFromDeltas\<close>). Bytes are \<open>8 word\<close>s, a typed array is a list of them: a read past
  the end is \<open>undefined\<close>, which a byte array stores as 0, a write past the end is ignored,
  and \<open>set\<close> past the end throws. An offset computed from a missing byte is \<open>NaN\<close>, here
  \<open>None\<close>. The debugging output is left out.

  The encoder of the server is the reference: \<open>rle_encode\<close> and \<open>encode_ops\<close> write the format
  that the decoder documents, and the decoder is shown to invert it.
\<close>

type_synonym byte = "8 word"

record raw_delta =
  rd_delta :: "byte list"
  rd_id :: nat
  rd_isKeyframe :: bool

definition rd_length :: "raw_delta \<Rightarrow> nat" where
  "rd_length d = length (rd_delta d)"

subsection \<open>Typed arrays\<close>

definition read_at :: "byte list \<Rightarrow> nat option \<Rightarrow> byte option" where
  "read_at data off = (case off of None \<Rightarrow> None | Some i \<Rightarrow> if i < length data then Some (data ! i) else None)"

definition byte_or_0 :: "byte option \<Rightarrow> byte" where
  "byte_or_0 b = (case b of None \<Rightarrow> 0 | Some v \<Rightarrow> v)"

definition add_off :: "nat option \<Rightarrow> nat \<Rightarrow> nat option" where
  "add_off off n = map_option (\<lambda>i. i + n) off"

definition array_set :: "byte list \<Rightarrow> byte list \<Rightarrow> nat \<Rightarrow> byte list option" where
  "array_set output px off =
     (if off + length px \<le> length output
      then Some (take off output @ px @ drop (off + length px) output) else None)"

fun write_bytes :: "byte list \<Rightarrow> nat \<Rightarrow> byte list \<Rightarrow> byte list" where
  "write_bytes img off [] = img"
| "write_bytes img off (b # bs) = write_bytes (img[off := b]) (Suc off) bs"

subsection \<open>Run-length decoding\<close>

record row_state =
  rs_lastPixel :: "byte list"
  rs_lastMask :: nat
  rs_bitToCheck :: nat
  rs_maskOffset :: "nat option"
  rs_pixSrc :: "nat option"

definition pixel_at :: "byte list \<Rightarrow> nat option \<Rightarrow> byte list" where
  "pixel_at data src = map (\<lambda>k. byte_or_0 (read_at data (add_off src k))) [0..<4]"

text \<open>The body of the inner loop up to the write: the pixel and the state after it.\<close>

definition row_step :: "byte list \<Rightarrow> row_state \<Rightarrow> byte list \<times> row_state" where
  "row_step data s =
     (let s1 = (if rs_bitToCheck s > 128
                then s\<lparr>rs_bitToCheck := 1,
                       rs_lastMask := unat (byte_or_0 (read_at data (rs_maskOffset s))),
                       rs_maskOffset := add_off (rs_maskOffset s) 1\<rparr>
                else s);
          s2 = (if rs_lastMask s1 AND rs_bitToCheck s1 = 0
                then s1\<lparr>rs_lastPixel := pixel_at data (rs_pixSrc s1), rs_pixSrc := add_off (rs_pixSrc s1) 4\<rparr>
                else s1)
      in (rs_lastPixel s2, s2\<lparr>rs_bitToCheck := 2 * rs_bitToCheck s2\<rparr>))"

fun row_loop :: "byte list \<Rightarrow> nat \<Rightarrow> nat \<Rightarrow> row_state \<Rightarrow> byte list \<Rightarrow> byte list option" where
  "row_loop data 0 pixOffset s output = Some output"
| "row_loop data (Suc n) pixOffset s output =
     (let (px, s') = row_step data s
      in case array_set output px pixOffset of
           None \<Rightarrow> None
         | Some output' \<Rightarrow> row_loop data n (pixOffset + 4) s' output')"

definition row_start :: "nat option \<Rightarrow> row_state" where
  "row_start offset =
     \<lparr>rs_lastPixel = [0, 0, 0, 0], rs_lastMask = 0, rs_bitToCheck = 256,
      rs_maskOffset = add_off offset 2, rs_pixSrc = add_off offset 34\<rparr>"

definition rle_size :: "byte list \<Rightarrow> nat option \<Rightarrow> nat option" where
  "rle_size data offset =
     (case (read_at data offset, read_at data (add_off offset 1)) of
        (Some a, Some b) \<Rightarrow> Some (unat a + unat b * 256) | _ \<Rightarrow> None)"

text \<open>
  The loop over the rows; the number left to do counts down. The error is the \<open>RangeError\<close>
  of \<open>set\<close>. The offset is \<open>NaN\<close> from the first row whose size is missing.
\<close>

fun unrle_loop ::
    "byte list \<Rightarrow> nat \<Rightarrow> nat \<Rightarrow> nat \<Rightarrow> nat \<Rightarrow> nat option \<Rightarrow> byte list \<Rightarrow> js_error + nat option \<times> byte list"
where
  "unrle_loop data width outputOffset y 0 offset output = Inr (offset, output)"
| "unrle_loop data width outputOffset y (Suc n) offset output =
     (case row_loop data width (y * width * 4 + outputOffset) (row_start offset) output of
        None \<Rightarrow> Inl (ErrorMsg ''RangeError'')
      | Some output' \<Rightarrow>
          let offset' = (case (offset, rle_size data offset) of
                           (Some i, Some sz) \<Rightarrow> Some (i + 34 + sz * 4) | _ \<Rightarrow> None)
          in unrle_loop data width outputOffset (Suc y) n offset' output')"

definition unrle ::
    "byte list \<Rightarrow> nat \<Rightarrow> nat \<Rightarrow> byte list \<Rightarrow> nat \<Rightarrow> js_error + nat option \<times> byte list" where
  "unrle data width height output outputOffset =
     unrle_loop data width outputOffset 0 height (Some 0) output"

subsection \<open>Deltas\<close>

definition row_bytes :: "byte list \<Rightarrow> nat \<Rightarrow> nat \<Rightarrow> byte list" where
  "row_bytes oldData width row =
     map (\<lambda>j. byte_or_0 (read_at oldData (Some (row * width * 4 + j)))) [0..<width * 4]"

fun copy_rows :: "byte list \<Rightarrow> nat \<Rightarrow> nat \<Rightarrow> nat \<Rightarrow> nat \<Rightarrow> nat \<Rightarrow> byte list \<Rightarrow> byte list" where
  "copy_rows oldData width srcRow destRow cnt 0 img = img"
| "copy_rows oldData width srcRow destRow cnt (Suc n) img =
     copy_rows oldData width srcRow destRow (Suc cnt) n
       (write_bytes img ((destRow + cnt) * width * 4) (row_bytes oldData width (srcRow + cnt)))"

definition slice_bytes :: "byte list \<Rightarrow> nat \<Rightarrow> nat \<Rightarrow> byte list" where
  "slice_bytes delta i n = map (\<lambda>j. byte_or_0 (read_at delta (Some (i + j)))) [0..<n]"

text \<open>
  The loop of \<open>applyDeltaChunk\<close>: the index at which it stops and the image. A copy command
  whose operands are cut off changes nothing; a run command whose length is cut off makes
  the index \<open>NaN\<close>, which ends the loop.
\<close>

function chunk_loop :: "byte list \<Rightarrow> byte list \<Rightarrow> nat \<Rightarrow> nat \<Rightarrow> byte list \<Rightarrow> nat option \<times> byte list" where
  "chunk_loop delta oldData width i img =
     (if i < length delta then
        (if delta ! i = 99 then
           (if i + 3 < length delta then
              chunk_loop delta oldData width (i + 4)
                (copy_rows oldData width (unat (delta ! (i + 2))) (unat (delta ! (i + 3))) 0
                   (unat (delta ! (i + 1))) img)
            else (Some (i + 4), img))
         else if delta ! i = 100 then
           (if i + 3 < length delta then
              let offset = unat (delta ! (i + 1)) * width * 4 + unat (delta ! (i + 2)) * 4;
                  span' = unat (delta ! (i + 3)) * 4
              in chunk_loop delta oldData width (i + 4 + span')
                   (write_bytes img offset (slice_bytes delta (i + 4) span'))
            else (None, img))
         else if delta ! i = 116 then (Some (i + 1), img)
         else (Some (length delta), img))
      else (Some i, img))"
  by pat_completeness auto
termination
  by (relation "measure (\<lambda>(delta, oldData, width, i, img). length delta - i)") auto

declare chunk_loop.simps [simp del]

definition applyDeltaChunk ::
    "byte list \<Rightarrow> byte list \<Rightarrow> byte list \<Rightarrow> nat \<Rightarrow> nat option \<times> byte list" where
  "applyDeltaChunk imgData delta oldData width = chunk_loop delta oldData width 0 imgData"

text \<open>A chunk takes at least one byte, so the loop over the chunks ends.\<close>

lemma chunk_loop_progress:
  "fst (chunk_loop delta oldData width i img) = Some n \<Longrightarrow> i < length delta \<Longrightarrow> i < n"
proof (induction delta oldData width i img rule: chunk_loop.induct)
  case (1 delta oldData width i img)
  have stay: "fst (chunk_loop delta oldData width j img') = Some n \<Longrightarrow> \<not> j < length delta \<Longrightarrow> n = j"
    for j img' by (simp add: chunk_loop.simps [of delta oldData width j])
  let ?j = "i + 4 + unat (delta ! (i + 3)) * 4"
  consider (copy) "delta ! i = 99" "i + 3 < length delta" | (copy_cut) "delta ! i = 99" "\<not> i + 3 < length delta"
    | (run) "delta ! i = 100" "i + 3 < length delta" | (run_cut) "delta ! i = 100" "\<not> i + 3 < length delta"
    | (stop) "delta ! i = 116" | (bad) "delta ! i \<noteq> 99" "delta ! i \<noteq> 100" "delta ! i \<noteq> 116" by blast
  then show ?case
  proof cases
    case copy
    with 1 stay show ?thesis
      by (cases "i + 4 < length delta") (fastforce simp: chunk_loop.simps [of delta oldData width i])+
  next
    case run
    with 1 stay show ?thesis
      by (cases "?j < length delta") (fastforce simp: chunk_loop.simps [of delta oldData width i] Let_def)+
  qed (use 1(3,4) in \<open>auto simp: chunk_loop.simps [of delta oldData width i]\<close>)
qed

function deltas_loop :: "byte list \<Rightarrow> byte list \<Rightarrow> nat \<Rightarrow> nat \<Rightarrow> byte list" where
  "deltas_loop imageData deltas offset tileSize =
     (if offset < length deltas then
        let delta = drop offset deltas
        in case applyDeltaChunk imageData delta imageData tileSize of
             (None, imageData') \<Rightarrow> imageData'
           | (Some len, imageData') \<Rightarrow> deltas_loop imageData' deltas (offset + len) tileSize
      else imageData)"
  by pat_completeness auto
termination
proof (relation "measure (\<lambda>(imageData, deltas, offset, tileSize). length deltas - offset)", simp, clarify)
  fix imageData deltas :: "byte list" and offset tileSize len img'
  assume "offset < length deltas"
    and "(Some len, img') = applyDeltaChunk imageData (drop offset deltas) imageData tileSize"
  then have "0 < len"
    using chunk_loop_progress [of "drop offset deltas" imageData tileSize 0 imageData len]
    by (metis applyDeltaChunk_def fst_conv length_drop zero_less_diff)
  with \<open>offset < length deltas\<close>
  show "((img', deltas, offset + len, tileSize), imageData, deltas, offset, tileSize)
      \<in> measure (\<lambda>(imageData, deltas, offset, tileSize). length deltas - offset)"
    by simp
qed

declare deltas_loop.simps [simp del]

definition updateImageFromDeltas :: "byte list \<Rightarrow> byte list \<Rightarrow> nat \<Rightarrow> nat \<Rightarrow> byte list" where
  "updateImageFromDeltas imageData deltas keyframeDeltaSize tileSize =
     deltas_loop imageData deltas keyframeDeltaSize tileSize"

subsection \<open>The format\<close>

type_synonym pixel = "byte list"

definition no_pixel :: pixel where
  "no_pixel = [0, 0, 0, 0]"

text \<open>The pixels of a row that differ from the one before, and for each pixel whether it does not.\<close>

fun stored :: "pixel \<Rightarrow> pixel list \<Rightarrow> pixel list" where
  "stored prev [] = []"
| "stored prev (p # ps) = (if p = prev then stored p ps else p # stored p ps)"

fun repeats :: "pixel \<Rightarrow> pixel list \<Rightarrow> bool list" where
  "repeats prev [] = []"
| "repeats prev (p # ps) = (p = prev) # repeats p ps"

definition mask_byte :: "bool list \<Rightarrow> nat \<Rightarrow> byte" where
  "mask_byte bits k =
     horner_sum of_bool 2 (map (\<lambda>j. 8 * k + j < length bits \<and> bits ! (8 * k + j)) [0..<8])"

text \<open>A row: the number of stored pixels (low byte first), 32 bytes of mask, the pixels.\<close>

definition encode_row :: "pixel list \<Rightarrow> byte list" where
  "encode_row row =
     (let n = length (stored no_pixel row)
      in [of_nat (n mod 256), of_nat (n div 256)] @ map (mask_byte (repeats no_pixel row)) [0..<32] @
         concat (stored no_pixel row))"

definition rle_encode :: "pixel list list \<Rightarrow> byte list" where
  "rle_encode rows = concat (map encode_row rows)"

definition row_ok :: "nat \<Rightarrow> pixel list \<Rightarrow> bool" where
  "row_ok width row \<longleftrightarrow> length row = width \<and> (\<forall>p \<in> set row. length p = 4)"

subsection \<open>Facts about the format\<close>

lemma length_repeats [simp]: "length (repeats prev ps) = length ps"
  by (induction ps arbitrary: prev) auto

lemma repeats_nth:
  "x < length ps \<Longrightarrow> repeats prev ps ! x = (ps ! x = (if x = 0 then prev else ps ! (x - 1)))"
proof (induction ps arbitrary: prev x)
  case (Cons p ps)
  then show ?case by (cases x; cases "x - 1") auto
qed simp

lemma stored_append:
  "stored prev (xs @ ys) = stored prev xs @ stored (if xs = [] then prev else last xs) ys"
  by (induction xs arbitrary: prev) auto

lemma set_stored: "set (stored prev ps) \<subseteq> set ps"
  by (induction ps arbitrary: prev) auto

lemma length_stored: "length (stored prev ps) \<le> length ps"
  by (induction ps arbitrary: prev) (auto simp: le_SucI)

lemma stored_take_Suc:
  assumes "x < length row"
  shows "stored no_pixel (take (Suc x) row) = stored no_pixel (take x row) @
    (if row ! x = (if x = 0 then no_pixel else row ! (x - 1)) then [] else [row ! x])"
proof -
  have "take (Suc x) row = take x row @ [row ! x]" using assms by (rule take_Suc_conv_app_nth)
  moreover have "(if take x row = [] then no_pixel else last (take x row)) =
      (if x = 0 then no_pixel else row ! (x - 1))"
    using assms by (cases x) (auto simp: last_conv_nth)
  ultimately show ?thesis by (simp add: stored_append)
qed

lemma stored_nth:
  assumes "x < length row" and "row ! x \<noteq> (if x = 0 then no_pixel else row ! (x - 1))"
  defines "m \<equiv> length (stored no_pixel (take x row))"
  shows "m < length (stored no_pixel row)" and "stored no_pixel row ! m = row ! x"
proof -
  obtain zs where "stored no_pixel row = stored no_pixel (take (Suc x) row) @ zs"
    by (metis append_take_drop_id stored_append)
  then have "stored no_pixel row = stored no_pixel (take x row) @ row ! x # zs"
    using stored_take_Suc [OF assms(1)] assms(2) by simp
  then show "m < length (stored no_pixel row)" "stored no_pixel row ! m = row ! x"
    by (simp_all add: m_def)
qed

lemma concat_nth_4:
  assumes "\<And>p. p \<in> set ps \<Longrightarrow> length p = 4" and "m < length ps" and "j < 4"
  shows "4 * m + j < length (concat ps)" and "concat ps ! (4 * m + j) = ps ! m ! j"
  using assms
proof (induction ps arbitrary: m)
  case (Cons p ps)
  {
    case 1
    then show ?case using Cons.IH(1) [of "m - 1"] by (cases m) auto
  next
    case 2
    then show ?case using Cons.IH(2) [of "m - 1"] by (cases m) (auto simp: nth_append)
  }
qed simp_all

lemma length_concat_4: "(\<And>p. p \<in> set ps \<Longrightarrow> length p = 4) \<Longrightarrow> length (concat ps) = 4 * length ps"
  by (induction ps) auto

lemma mask_bit:
  assumes "x < length bits"
  shows "unat (mask_byte bits (x div 8)) AND 2 ^ (x mod 8) = 0 \<longleftrightarrow> \<not> bits ! x"
proof -
  have "unat (mask_byte bits (x div 8)) AND 2 ^ (x mod 8) = 0 \<longleftrightarrow> \<not> bit (unat (mask_byte bits (x div 8))) (x mod 8)"
    by (rule and_exp_eq_0_iff_not_bit)
  also have "bit (unat (mask_byte bits (x div 8))) (x mod 8) \<longleftrightarrow> bit (mask_byte bits (x div 8)) (x mod 8)"
    by (simp add: bit_unsigned_iff)
  also have "\<dots> \<longleftrightarrow> bits ! x"
    using assms by (simp add: mask_byte_def bit_horner_sum_bit_iff)
  finally show ?thesis .
qed

text \<open>Reading an encoded row that starts at \<open>o'\<close> in the data.\<close>

definition row_at :: "byte list \<Rightarrow> nat \<Rightarrow> pixel list \<Rightarrow> bool" where
  "row_at data o' row \<longleftrightarrow> (\<exists>pre post. data = pre @ encode_row row @ post \<and> length pre = o')"

lemma row_at_read:
  assumes "row_at data o' row" and "i < length (encode_row row)"
  shows "read_at data (Some (o' + i)) = Some (encode_row row ! i)"
proof -
  obtain pre post where d: "data = pre @ encode_row row @ post" "length pre = o'"
    using assms(1) by (auto simp: row_at_def)
  have "(pre @ encode_row row @ post) ! (o' + i) = encode_row row ! i"
    using assms(2) d(2) by (simp add: nth_append)
  with d assms(2) show ?thesis by (simp add: read_at_def)
qed

lemma encode_row_simps:
  assumes "row_ok width row"
  shows "length (encode_row row) = 34 + 4 * length (stored no_pixel row)"
    and "k < 32 \<Longrightarrow> encode_row row ! (2 + k) = mask_byte (repeats no_pixel row) k"
    and "m < length (stored no_pixel row) \<Longrightarrow> j < 4 \<Longrightarrow>
      encode_row row ! (34 + (4 * m + j)) = stored no_pixel row ! m ! j"
proof -
  let ?st = "stored no_pixel row"
  have px: "\<And>p. p \<in> set ?st \<Longrightarrow> length p = 4" using assms set_stored by (fastforce simp: row_ok_def)
  show "length (encode_row row) = 34 + 4 * length ?st"
    using length_concat_4 [OF px] by (simp add: encode_row_def Let_def)
  show "encode_row row ! (2 + k) = mask_byte (repeats no_pixel row) k" if "k < 32"
    using that by (simp add: encode_row_def Let_def nth_append)
  show "encode_row row ! (34 + (4 * m + j)) = ?st ! m ! j" if "m < length ?st" "j < 4"
    using concat_nth_4(2) [OF px that] by (simp add: encode_row_def Let_def nth_append)
qed

subsection \<open>The decoder follows the format\<close>

definition prev_pixel :: "pixel list \<Rightarrow> nat \<Rightarrow> pixel" where
  "prev_pixel row x = (if x = 0 then no_pixel else row ! (x - 1))"

text \<open>The state of the inner loop before pixel \<open>x\<close> of a row encoded at \<open>o'\<close>.\<close>

definition row_inv :: "nat \<Rightarrow> pixel list \<Rightarrow> nat \<Rightarrow> row_state \<Rightarrow> bool" where
  "row_inv o' row x s \<longleftrightarrow>
     rs_lastPixel s = prev_pixel row x \<and>
     rs_pixSrc s = Some (o' + 34 + 4 * length (stored no_pixel (take x row))) \<and>
     (if x mod 8 = 0 then rs_bitToCheck s = 256 \<and> rs_maskOffset s = Some (o' + 2 + x div 8)
      else rs_bitToCheck s = 2 ^ (x mod 8) \<and>
        rs_lastMask s = unat (mask_byte (repeats no_pixel row) (x div 8)) \<and>
        rs_maskOffset s = Some (o' + 2 + x div 8 + 1))"

lemma row_inv_start: "row_inv o' row 0 (row_start (Some o'))"
  by (simp add: row_inv_def row_start_def prev_pixel_def no_pixel_def add_off_def)

lemma mod_8_Suc: "(if Suc x mod 8 = 0 then (256 :: nat) else 2 ^ (Suc x mod 8)) = 2 * 2 ^ (x mod 8)"
    "Suc x mod 8 = 0 \<Longrightarrow> Suc x div 8 = x div 8 + 1" "Suc x mod 8 \<noteq> 0 \<Longrightarrow> Suc x div 8 = x div 8"
proof -
  have "x mod 8 < 8" by simp
  then have c: "x mod 8 = 7 \<and> Suc x mod 8 = 0 \<or> x mod 8 < 7 \<and> Suc x mod 8 = Suc (x mod 8)"
    by (auto simp: mod_Suc)
  then show "(if Suc x mod 8 = 0 then (256 :: nat) else 2 ^ (Suc x mod 8)) = 2 * 2 ^ (x mod 8)"
    by auto
  show "Suc x mod 8 = 0 \<Longrightarrow> Suc x div 8 = x div 8 + 1" "Suc x mod 8 \<noteq> 0 \<Longrightarrow> Suc x div 8 = x div 8"
    by (auto simp: div_Suc)
qed

text \<open>After the mask was reloaded at a byte boundary, the current mask byte is the right one.\<close>

lemma row_reload:
  assumes at: "row_at data o' row" and ok: "row_ok width row" and "width \<le> 256" and x: "x < width"
    and inv: "row_inv o' row x s"
  defines "s1 \<equiv> (if rs_bitToCheck s > 128
                then s\<lparr>rs_bitToCheck := 1,
                       rs_lastMask := unat (byte_or_0 (read_at data (rs_maskOffset s))),
                       rs_maskOffset := add_off (rs_maskOffset s) 1\<rparr>
                else s)"
  shows "rs_bitToCheck s1 = 2 ^ (x mod 8)" and "rs_lastMask s1 = unat (mask_byte (repeats no_pixel row) (x div 8))"
    and "rs_maskOffset s1 = Some (o' + 2 + x div 8 + 1)" and "rs_lastPixel s1 = rs_lastPixel s"
    and "rs_pixSrc s1 = rs_pixSrc s"
proof -
  have k: "x div 8 < 32" using x assms(3) by linarith
  have "read_at data (Some (o' + (2 + x div 8))) = Some (mask_byte (repeats no_pixel row) (x div 8))"
    using row_at_read [OF at, of "2 + x div 8"] encode_row_simps(1,2) [OF ok] k by simp
  then have rd: "read_at data (Some (o' + 2 + x div 8)) = Some (mask_byte (repeats no_pixel row) (x div 8))"
    by (simp add: add.assoc)
  have small: "(2 :: nat) ^ (x mod 8) \<le> 128" if "x mod 8 \<noteq> 0"
    using power_increasing [of "x mod 8" 7 "2 :: nat"] by simp
  show "rs_bitToCheck s1 = 2 ^ (x mod 8)" "rs_lastMask s1 = unat (mask_byte (repeats no_pixel row) (x div 8))"
    "rs_maskOffset s1 = Some (o' + 2 + x div 8 + 1)" "rs_lastPixel s1 = rs_lastPixel s"
    "rs_pixSrc s1 = rs_pixSrc s"
    using inv rd small by (cases "x mod 8 = 0"; auto simp: s1_def row_inv_def byte_or_0_def add_off_def)+
qed

lemma row_step_correct:
  assumes at: "row_at data o' row" and ok: "row_ok width row" and "width \<le> 256" and x: "x < width"
    and inv: "row_inv o' row x s"
  obtains s' where "row_step data s = (row ! x, s')" and "row_inv o' row (Suc x) s'"
proof -
  define s1 where "s1 = (if rs_bitToCheck s > 128
                then s\<lparr>rs_bitToCheck := 1,
                       rs_lastMask := unat (byte_or_0 (read_at data (rs_maskOffset s))),
                       rs_maskOffset := add_off (rs_maskOffset s) 1\<rparr>
                else s)"
  note s1 = row_reload [OF assms, folded s1_def]
  define s2 where "s2 = (if rs_lastMask s1 AND rs_bitToCheck s1 = 0
                then s1\<lparr>rs_lastPixel := pixel_at data (rs_pixSrc s1), rs_pixSrc := add_off (rs_pixSrc s1) 4\<rparr>
                else s1)"
  have xr: "x < length row" using ok x by (simp add: row_ok_def)
  have same: "rs_lastMask s1 AND rs_bitToCheck s1 = 0 \<longleftrightarrow> row ! x \<noteq> prev_pixel row x"
    using mask_bit [of x "repeats no_pixel row"] xr s1(1,2) by (simp add: repeats_nth prev_pixel_def)
  let ?m = "length (stored no_pixel (take x row))"
  have px: "pixel_at data (Some (o' + 34 + 4 * ?m)) = row ! x" if diff: "row ! x \<noteq> prev_pixel row x"
  proof -
    note st = stored_nth [OF xr diff [unfolded prev_pixel_def]]
    have "read_at data (add_off (Some (o' + 34 + 4 * ?m)) j) = Some (row ! x ! j)" if "j < 4" for j
    proof -
      have "read_at data (Some (o' + (34 + (4 * ?m + j)))) = Some (row ! x ! j)"
        using row_at_read [OF at, of "34 + (4 * ?m + j)"] encode_row_simps(1,3) [OF ok] st that by simp
      then show ?thesis by (simp add: add_off_def ac_simps)
    qed
    moreover have "length (row ! x) = 4" using ok xr by (simp add: row_ok_def)
    ultimately show ?thesis
      by (intro nth_equalityI) (simp_all add: pixel_at_def byte_or_0_def del: upt_Suc)
  qed
  have src: "rs_pixSrc s1 = Some (o' + 34 + 4 * ?m)" and lastp: "rs_lastPixel s1 = prev_pixel row x"
    using s1(4,5) inv by (simp_all add: row_inv_def)
  have s2: "rs_lastPixel s2 = row ! x"
    "rs_pixSrc s2 = Some (o' + 34 + 4 * length (stored no_pixel (take (Suc x) row)))"
    "rs_bitToCheck s2 = 2 ^ (x mod 8)" "rs_lastMask s2 = rs_lastMask s1" "rs_maskOffset s2 = rs_maskOffset s1"
    using same px src lastp s1(1) stored_take_Suc [OF xr]
    by (auto simp: s2_def add_off_def prev_pixel_def)
  have "row_step data s = (row ! x, s2\<lparr>rs_bitToCheck := 2 * rs_bitToCheck s2\<rparr>)"
    by (simp add: row_step_def s1_def [symmetric] s2_def [symmetric] s2(1) Let_def)
  moreover have "row_inv o' row (Suc x) (s2\<lparr>rs_bitToCheck := 2 * rs_bitToCheck s2\<rparr>)"
    using s2 s1 mod_8_Suc [of x] by (auto simp: row_inv_def prev_pixel_def split: if_splits)
  ultimately show thesis by (rule that)
qed

lemma array_set_fits:
  "off + length px \<le> length buf \<Longrightarrow>
   array_set buf px off = Some (take off buf @ px @ drop (off + length px) buf)"
  by (simp add: array_set_def)

lemma row_loop_correct:
  assumes at: "row_at data o' row" and ok: "row_ok width row" and w: "width \<le> 256"
    and "n + x = width" and "row_inv o' row x s" and "p + 4 * n \<le> length buf"
  shows "row_loop data n p s buf =
    Some (take p buf @ concat (drop x row) @ drop (p + 4 * n) buf)"
  using assms(4-6)
proof (induction n arbitrary: x s p buf)
  case 0
  then show ?case using ok by (simp add: row_ok_def)
next
  case (Suc n)
  then have x: "x < width" by simp
  then have xr: "x < length row" and px: "length (row ! x) = 4" using ok by (auto simp: row_ok_def)
  obtain s' where s': "row_step data s = (row ! x, s')" "row_inv o' row (Suc x) s'"
    using row_step_correct [OF at ok w x Suc.prems(2)] by blast
  let ?out = "take p buf @ row ! x @ drop (p + 4) buf"
  have set: "array_set buf (row ! x) p = Some ?out"
    using array_set_fits [of p "row ! x" buf] Suc.prems(3) px by simp
  have "row_loop data n (p + 4) s' ?out =
      Some (take (p + 4) ?out @ concat (drop (Suc x) row) @ drop (p + 4 + 4 * n) ?out)"
    by (rule Suc.IH) (use Suc.prems s'(2) px in auto)
  moreover have "take (p + 4) ?out = take p buf @ row ! x" "drop (p + 4 + 4 * n) ?out = drop (p + 4 * Suc n) buf"
    using Suc.prems(3) px by (auto simp: min_def add.commute add.assoc)
  moreover have "drop x row = row ! x # drop (Suc x) row" using xr by (simp add: Cons_nth_drop_Suc)
  ultimately show ?case using s'(1) set by simp
qed

lemma rle_size_correct:
  assumes at: "row_at data o' row" and ok: "row_ok width row" and w: "width \<le> 256"
  shows "rle_size data (Some o') = Some (length (stored no_pixel row))"
proof -
  let ?n = "length (stored no_pixel row)"
  have "?n \<le> 256" using length_stored [of no_pixel row] ok w by (simp add: row_ok_def)
  then have u: "unat (of_nat (?n mod 256) :: byte) = ?n mod 256" "unat (of_nat (?n div 256) :: byte) = ?n div 256"
    by (simp_all add: unat_of_nat)
  have "0 < length (encode_row row)" "1 < length (encode_row row)" using encode_row_simps(1) [OF ok] by auto
  then have "read_at data (Some o') = Some (of_nat (?n mod 256))"
    "read_at data (add_off (Some o') 1) = Some (of_nat (?n div 256))"
    using row_at_read [OF at, of 0] row_at_read [OF at, of 1]
    by (simp_all add: encode_row_def add_off_def Let_def)
  then show ?thesis using u by (simp add: rle_size_def)
qed

lemma unrle_loop_correct:
  assumes "\<And>row. row \<in> set rows \<Longrightarrow> row_ok width row" and "width \<le> 256"
    and "data = pre @ rle_encode rows @ post"
    and "y * width * 4 + off + 4 * width * length rows \<le> length buf"
  shows "unrle_loop data width off y (length rows) (Some (length pre)) buf =
    Inr (Some (length pre + length (rle_encode rows)),
      take (y * width * 4 + off) buf @ concat (concat rows) @
      drop (y * width * 4 + off + 4 * width * length rows) buf)"
  using assms(1,3,4)
proof (induction rows arbitrary: pre y buf)
  case Nil
  then show ?case by (simp add: rle_encode_def)
next
  case (Cons row rows)
  let ?p = "y * width * 4 + off"
  have ok: "row_ok width row" using Cons.prems(1) by simp
  have at: "row_at data (length pre) row"
    using Cons.prems(2) unfolding row_at_def
    by (intro exI [of _ pre] exI [of _ "concat (map encode_row rows) @ post"]) (simp add: rle_encode_def)
  have lenrow: "length (concat row) = 4 * width"
    using length_concat_4 [of row] ok by (simp add: row_ok_def)
  let ?out = "take ?p buf @ concat row @ drop (?p + 4 * width) buf"
  have row: "row_loop data width ?p (row_start (Some (length pre))) buf = Some ?out"
    using row_loop_correct [OF at ok assms(2), of width 0 "row_start (Some (length pre))" ?p buf]
      row_inv_start Cons.prems(3) by simp
  have next': "unrle_loop data width off (Suc y) (length rows) (Some (length (pre @ encode_row row))) ?out =
    Inr (Some (length (pre @ encode_row row) + length (rle_encode rows)),
      take (Suc y * width * 4 + off) ?out @ concat (concat rows) @
      drop (Suc y * width * 4 + off + 4 * width * length rows) ?out)"
    by (rule Cons.IH) (use Cons.prems lenrow in \<open>auto simp: rle_encode_def algebra_simps\<close>)
  have "take (Suc y * width * 4 + off) ?out = take ?p buf @ concat row"
    using Cons.prems(3) lenrow by (simp add: algebra_simps)
  moreover have "drop (Suc y * width * 4 + off + 4 * width * length rows) ?out =
      drop (?p + 4 * width * length (row # rows)) buf"
    using Cons.prems(3) lenrow by (simp add: algebra_simps)
  moreover have "length (pre @ encode_row row) = length pre + 34 + length (stored no_pixel row) * 4"
    using encode_row_simps(1) [OF ok] by simp
  ultimately show ?case
    using next' row rle_size_correct [OF at ok assms(2)]
    by (simp add: rle_encode_def ac_simps)
qed

subsection \<open>Deltas as operations on an image\<close>

datatype delta_op = CopyRows nat nat nat | NewRun nat nat "pixel list"

text \<open>The bytes of an operation and of a chunk.\<close>

fun encode_op :: "delta_op \<Rightarrow> byte list" where
  "encode_op (CopyRows count src dest) = [99, of_nat count, of_nat src, of_nat dest]"
| "encode_op (NewRun row col ps) = [100, of_nat row, of_nat col, of_nat (length ps)] @ concat ps"

definition encode_chunk :: "delta_op list \<Rightarrow> byte list" where
  "encode_chunk ops = concat (map encode_op ops) @ [116]"

text \<open>
  What an operation does to an image, byte by byte. A copy of rows replaces the bytes of the rows from \<open>dest\<close> on
  by those of the rows from \<open>src\<close> on in the old image, which are 0 beyond its end; a run replaces the bytes from its
  first pixel on; every other byte stays, and nothing is written beyond the end.
\<close>

definition old_byte :: "byte list \<Rightarrow> nat \<Rightarrow> byte" where
  "old_byte old k = (if k < length old then old ! k else 0)"

fun new_byte :: "nat \<Rightarrow> byte list \<Rightarrow> delta_op \<Rightarrow> byte list \<Rightarrow> nat \<Rightarrow> byte" where
  "new_byte width old (CopyRows count src dest) img k =
     (if 4 * width * dest \<le> k \<and> k < 4 * width * (dest + count) then old_byte old (4 * width * src + (k - 4 * width * dest)) else img ! k)"
| "new_byte width old (NewRun row col ps) img k =
     (let first = 4 * (width * row + col)
      in if first \<le> k \<and> k < first + length (concat ps) then concat ps ! (k - first) else img ! k)"

definition apply_op :: "nat \<Rightarrow> byte list \<Rightarrow> delta_op \<Rightarrow> byte list \<Rightarrow> byte list" where
  "apply_op width old oper img = map (new_byte width old oper img) [0..<length img]"

fun op_ok :: "delta_op \<Rightarrow> bool" where
  "op_ok (CopyRows count src dest) \<longleftrightarrow> count < 256 \<and> src < 256 \<and> dest < 256"
| "op_ok (NewRun row col ps) \<longleftrightarrow> row < 256 \<and> col < 256 \<and> length ps < 256 \<and> (\<forall>p \<in> set ps. length p = 4)"

definition apply_ops :: "nat \<Rightarrow> delta_op list \<Rightarrow> byte list \<Rightarrow> byte list" where
  "apply_ops width ops img = fold (apply_op width img) ops img"

lemma unat_byte [simp]: "n < 256 \<Longrightarrow> unat (of_nat n :: byte) = n"
  by (simp add: unat_of_nat)

lemma slice_exact: "slice_bytes (pre @ bs @ post) (length pre) (length bs) = bs"
  by (rule nth_equalityI) (simp_all add: slice_bytes_def read_at_def byte_or_0_def nth_append)

lemma length_write_bytes [simp]: "length (write_bytes img off bs) = length img"
  by (induction img off bs rule: write_bytes.induct) auto

lemma length_copy_rows [simp]: "length (copy_rows old width src dest cnt n img) = length img"
  by (induction n arbitrary: cnt img) auto

text \<open>The loops of the decoder that write bytes, byte by byte.\<close>

lemma write_bytes_nth:
  "k < length img \<Longrightarrow> write_bytes img off bs ! k = (if off \<le> k \<and> k < off + length bs then bs ! (k - off) else img ! k)"
proof (induction img off bs rule: write_bytes.induct)
  case (2 img off b bs)
  then show ?case by (cases "k = off") (auto simp: nth_Cons')
qed auto

lemma row_bytes_nth:
  "j < width * 4 \<Longrightarrow> row_bytes old width row ! j = old_byte old (4 * width * row + j)"
  by (simp add: row_bytes_def old_byte_def read_at_def byte_or_0_def ac_simps)

lemma copy_rows_nth:
  assumes "k < length img"
  shows "copy_rows old width src dest cnt n img ! k =
    (if 4 * width * (dest + cnt) \<le> k \<and> k < 4 * width * (dest + cnt + n)
     then old_byte old (4 * width * src + (k - 4 * width * dest)) else img ! k)"
  using assms
proof (induction n arbitrary: cnt img)
  case (Suc n)
  define img' where "img' = write_bytes img ((dest + cnt) * width * 4) (row_bytes old width (src + cnt))"
  have len: "length (row_bytes old width (src + cnt)) = 4 * width" by (simp add: row_bytes_def)
  have img': "img' ! k = (if 4 * width * (dest + cnt) \<le> k \<and> k < 4 * width * (dest + Suc cnt)
      then old_byte old (4 * width * src + (k - 4 * width * dest)) else img ! k)"
    unfolding img'_def write_bytes_nth [OF Suc.prems] len
    by (auto simp: row_bytes_nth algebra_simps)
  have "copy_rows old width src dest cnt (Suc n) img = copy_rows old width src dest (Suc cnt) n img'" by (simp add: img'_def)
  moreover have "k < length img'" using Suc.prems by (simp add: img'_def)
  ultimately show ?case
    using Suc.IH [of img' "Suc cnt"] img' by (auto simp: algebra_simps)
qed auto

lemma apply_op_code:
  "apply_op width old (CopyRows count src dest) img = copy_rows old width src dest 0 count img"
  "apply_op width old (NewRun row col ps) img = write_bytes img (row * width * 4 + col * 4) (concat ps)"
  by (rule nth_equalityI; simp add: apply_op_def copy_rows_nth write_bytes_nth Let_def algebra_simps)+

lemma chunk_loop_op:
  assumes "op_ok oper"
  shows "chunk_loop (pre @ encode_op oper @ post) old width (length pre) img =
    chunk_loop (pre @ encode_op oper @ post) old width (length (pre @ encode_op oper)) (apply_op width old oper img)"
proof (cases oper)
  case (CopyRows count src dest)
  with assms show ?thesis
    by (subst chunk_loop.simps) (simp add: apply_op_code nth_append eval_nat_numeral)
next
  case (NewRun row col ps)
  have len: "length (concat ps) = length ps * 4"
    using assms NewRun length_concat_4 [of ps] by simp
  let ?d = "pre @ encode_op oper @ post"
  have "slice_bytes ((pre @ [100, of_nat row, of_nat col, of_nat (length ps)]) @ concat ps @ post)
      (length (pre @ [100, of_nat row, of_nat col, of_nat (length ps)])) (length (concat ps)) = concat ps"
    by (rule slice_exact)
  moreover have "(pre @ [100, of_nat row, of_nat col, of_nat (length ps)]) @ concat ps @ post = ?d"
    using NewRun by simp
  moreover have "length (pre @ [100, of_nat row, of_nat col, of_nat (length ps) :: byte]) = length pre + 4"
    by simp
  ultimately have sl: "slice_bytes ?d (length pre + 4) (length ps * 4) = concat ps"
    by (metis len)
  have ln: "length (pre @ encode_op oper) = length pre + 4 + length ps * 4"
    using NewRun len by simp
  have d: "length pre + 3 < length ?d" "?d ! length pre = 100" "?d ! (length pre + 1) = of_nat row"
    "?d ! (length pre + 2) = of_nat col" "?d ! (length pre + 3) = of_nat (length ps)"
    using NewRun by (simp_all add: nth_append)
  have u: "unat (of_nat row :: byte) = row" "unat (of_nat col :: byte) = col"
    "unat (of_nat (length ps) :: byte) = length ps" using assms NewRun by simp_all
  have "length pre < length ?d" using d(1) by linarith
  moreover have "apply_op width old oper img = write_bytes img (row * width * 4 + col * 4) (concat ps)"
    using NewRun by (simp add: apply_op_code)
  moreover have "(100 :: byte) \<noteq> 99" by simp
  ultimately show ?thesis
    unfolding ln by (subst chunk_loop.simps) (simp only: d u sl if_True if_False Let_def refl simp_thms)
qed

lemma chunk_loop_ops:
  assumes "\<forall>oper \<in> set ops. op_ok oper"
  shows "chunk_loop (pre @ encode_chunk ops @ post) old width (length pre) img =
    (Some (length pre + length (encode_chunk ops)), fold (apply_op width old) ops img)"
  using assms
proof (induction ops arbitrary: pre img)
  case Nil
  then show ?case by (subst chunk_loop.simps) (simp add: encode_chunk_def nth_append)
next
  case (Cons oper ops)
  have e: "pre @ encode_chunk (oper # ops) @ post = pre @ encode_op oper @ (encode_chunk ops @ post)"
    by (simp add: encode_chunk_def)
  have "chunk_loop (pre @ encode_chunk (oper # ops) @ post) old width (length pre) img =
      chunk_loop ((pre @ encode_op oper) @ encode_chunk ops @ post) old width
        (length (pre @ encode_op oper)) (apply_op width old oper img)"
    unfolding e using chunk_loop_op [of oper pre "encode_chunk ops @ post"] Cons.prems by simp
  also have "\<dots> = (Some (length (pre @ encode_op oper) + length (encode_chunk ops)),
      fold (apply_op width old) ops (apply_op width old oper img))"
    by (rule Cons.IH) (use Cons.prems in simp)
  finally show ?case by (simp add: encode_chunk_def)
qed

lemma deltas_loop_chunks:
  assumes "\<forall>ops \<in> set chunks. \<forall>oper \<in> set ops. op_ok oper"
  shows "deltas_loop img (pre @ concat (map encode_chunk chunks)) (length pre) width =
    fold (apply_ops width) chunks img"
  using assms
proof (induction chunks arbitrary: pre img)
  case Nil
  then show ?case by (simp add: deltas_loop.simps)
next
  case (Cons ops chunks)
  have "applyDeltaChunk img (encode_chunk ops @ concat (map encode_chunk chunks)) img width =
      (Some (length (encode_chunk ops)), apply_ops width ops img)"
    using chunk_loop_ops [of ops "[]" "concat (map encode_chunk chunks)" img width img] Cons.prems
    by (simp add: applyDeltaChunk_def apply_ops_def)
  moreover have "0 < length (encode_chunk ops)" by (simp add: encode_chunk_def)
  ultimately show ?case
    using Cons.IH [of "apply_ops width ops img" "pre @ encode_chunk ops"] Cons.prems
    by (subst deltas_loop.simps) (simp add: Let_def)
qed

lemma length_chunk_loop: "length (snd (chunk_loop delta old width i img)) = length img"
proof (induction delta old width i img rule: chunk_loop.induct)
  case (1 delta old width i img)
  then show ?case by (subst chunk_loop.simps) (auto simp: Let_def)
qed

lemma length_deltas_loop: "length (deltas_loop img deltas off width) = length img"
proof (induction img deltas off width rule: deltas_loop.induct)
  case (1 img deltas off width)
  then show ?case
    using length_chunk_loop [of "drop off deltas" img width 0 img]
    by (subst deltas_loop.simps) (auto simp: Let_def applyDeltaChunk_def split: prod.splits option.splits)
qed

subsection \<open>Properties\<close>

text \<open>
  C12. Decoding the run-length encoding of an image of at most 256 pixels per row writes the
  image into the output, changes nothing around it, and returns the length of the encoding,
  whatever data follow.
\<close>

theorem unrle_inverts_encoding:
  assumes "\<forall>row \<in> set rows. row_ok width row" and "width \<le> 256"
    and "off + 4 * width * length rows \<le> length buf"
  shows "unrle (rle_encode rows @ rest) width (length rows) buf off =
    Inr (Some (length (rle_encode rows)),
      take off buf @ concat (concat rows) @ drop (off + 4 * width * length rows) buf)"
  using unrle_loop_correct [of rows width "rle_encode rows @ rest" "[]" rest 0 off buf] assms
  by (simp add: unrle_def)

theorem unrle_inverts_encoding_witness:
  "unrle (rle_encode [[[1, 2, 3, 4], [1, 2, 3, 4]], [[0, 0, 0, 0], [9, 9, 9, 9]]] @ [7]) 2 2
      (replicate 16 0) 0 =
    Inr (Some (length (rle_encode [[[1, 2, 3, 4], [1, 2, 3, 4]], [[0, 0, 0, 0], [9, 9, 9, 9]]])),
      [1, 2, 3, 4, 1, 2, 3, 4, 0, 0, 0, 0, 9, 9, 9, 9])"
  using unrle_inverts_encoding [of "[[[1, 2, 3, 4], [1, 2, 3, 4]], [[0, 0, 0, 0], [9, 9, 9, 9]]]" 2 0
      "replicate 16 0" "[7]"]
  by (simp add: row_ok_def numeral_2_eq_2)

text \<open>
  C38. Applying the bytes of a sequence of delta chunks, after any key frame prefix, performs
  their operations in order, each chunk copying from the image as it was before the chunk. What an
  operation does is given for every byte of the image (\<open>new_byte\<close>), apart from the loops of the decoder.
\<close>

theorem deltas_apply_in_order:
  assumes "\<forall>ops \<in> set chunks. \<forall>oper \<in> set ops. op_ok oper"
  shows "updateImageFromDeltas img (keyframe @ concat (map encode_chunk chunks)) (length keyframe) tileSize =
    fold (apply_ops tileSize) chunks img"
  unfolding updateImageFromDeltas_def by (rule deltas_loop_chunks [OF assms])

theorem deltas_apply_in_order_witness:
  "updateImageFromDeltas [1, 1, 1, 1, 2, 2, 2, 2, 3, 3, 3, 3, 4, 4, 4, 4]
      ([1, 2] @ concat (map encode_chunk [[NewRun 0 1 [[9, 8, 7, 6]], CopyRows 1 0 1], [CopyRows 1 1 0]])) (length [1 :: nat, 2]) 2 =
    [1, 1, 1, 1, 2, 2, 2, 2, 1, 1, 1, 1, 2, 2, 2, 2]"
proof -
  let ?img = "[1, 1, 1, 1, 2, 2, 2, 2, 3, 3, 3, 3, 4, 4, 4, 4] :: byte list"
  have "fold (apply_ops 2) [[NewRun 0 1 [[9, 8, 7, 6]], CopyRows 1 0 1], [CopyRows 1 1 0]] ?img =
      [1, 1, 1, 1, 2, 2, 2, 2, 1, 1, 1, 1, 2, 2, 2, 2]" by code_simp
  then show ?thesis
    using deltas_apply_in_order [of "[[NewRun 0 1 [[9, 8, 7, 6]], CopyRows 1 0 1], [CopyRows 1 1 0]]" ?img "[1, 2]" 2] by simp
qed

text \<open>
  Whatever the bytes, even cut off or with unknown codes, applying deltas returns an
  image of the same size, and every chunk that returns a length has used at least one byte.
\<close>

theorem deltas_total:
  "length (updateImageFromDeltas img deltas n tileSize) = length img \<and>
   (\<forall>delta len img'. delta \<noteq> [] \<and> applyDeltaChunk img delta old tileSize = (Some len, img') \<longrightarrow>
      0 < len \<and> length img' = length img)"
  using length_deltas_loop [of img deltas n tileSize] chunk_loop_progress [of _ old tileSize 0 img]
    length_chunk_loop [of _ old tileSize 0 img]
  by (auto simp: updateImageFromDeltas_def applyDeltaChunk_def) (metis fst_conv length_greater_0_conv, metis snd_conv)

theorem deltas_total_witness:
  "length (updateImageFromDeltas [1, 2, 3, 4] [100, 0] 0 1) = 4"
  using deltas_total [of "[1, 2, 3, 4]" "[100, 0]" 0 1 "[]"] by simp

end
