(* ===== verification/Js_Sort.thy ===== *)
theory Js_Sort
  imports Prelude "HOL-Library.Multiset"
begin

section \<open>Sorting an array\<close>

text \<open>
  \<open>Array.prototype.sort\<close> with a comparison function. The sort is stable, so it is modelled as
  insertion from the right, which gives the only stable result. Only the sign of the comparison
  matters. The locale \<open>sort_order\<close> is the contract of a comparison that orders by decreasing key.
\<close>

fun js_ins :: "('a \<Rightarrow> 'a \<Rightarrow> int) \<Rightarrow> 'a \<Rightarrow> 'a list \<Rightarrow> 'a list" where
  "js_ins cmp x [] = [x]"
| "js_ins cmp x (y # ys) = (if cmp x y \<le> 0 then x # y # ys else y # js_ins cmp x ys)"

definition js_sort :: "('a \<Rightarrow> 'a \<Rightarrow> int) \<Rightarrow> 'a list \<Rightarrow> 'a list" where
  "js_sort cmp xs = foldr (js_ins cmp) xs []"

text \<open>The sign of the difference of two numbers.\<close>

definition num_cmp :: "num \<Rightarrow> num \<Rightarrow> int" where
  "num_cmp x y = (if x < y then -1 else if x > y then 1 else 0)"

lemma mset_js_ins [simp]: "mset (js_ins cmp x xs) = add_mset x (mset xs)"
  by (induction xs) auto

lemma set_js_ins [simp]: "set (js_ins cmp x xs) = insert x (set xs)"
  by (induction xs) auto

lemma mset_js_sort [simp]: "mset (js_sort cmp xs) = mset xs"
  by (induction xs) (auto simp: js_sort_def)

lemma set_js_sort [simp]: "set (js_sort cmp xs) = set xs"
  by (metis mset_js_sort set_mset_mset)

subsection \<open>The contract of a comparison\<close>

locale sort_order =
  fixes cmp :: "'a \<Rightarrow> 'a \<Rightarrow> int" and key :: "'a \<Rightarrow> 'k :: linorder"
  assumes cmp_le: "cmp x y \<le> 0 \<longleftrightarrow> key y \<le> key x"
begin

lemma sorted_js_ins: "sorted (map key (rev xs)) \<Longrightarrow> sorted (map key (rev (js_ins cmp x xs)))"
proof (induction xs)
  case (Cons y ys)
  then show ?case by (cases "cmp x y \<le> 0") (auto simp: sorted_append cmp_le dest: order_trans)
qed simp

lemma sorted_js_sort: "sorted (map key (rev (js_sort cmp xs)))"
  by (induction xs) (auto simp: js_sort_def sorted_js_ins)

lemma stable_js_ins:
  "filter (\<lambda>y. k = key y) (js_ins cmp x xs) = filter (\<lambda>y. k = key y) (x # xs)"
  by (induction xs) (auto simp: cmp_le)

lemma stable_js_sort: "filter (\<lambda>y. k = key y) (js_sort cmp xs) = filter (\<lambda>y. k = key y) xs"
  by (induction xs) (auto simp: js_sort_def stable_js_ins)

lemma js_sort_sorted: "sorted (map key (rev q)) \<Longrightarrow> js_sort cmp q = q"
proof (induction q)
  case (Cons x q)
  then show ?case by (cases q) (auto simp: js_sort_def sorted_append cmp_le)
qed (simp add: js_sort_def)

lemma js_ins_before:
  "\<forall>y \<in> set ys. key y \<le> key x \<Longrightarrow> js_ins cmp x (xs @ ys) = js_ins cmp x xs @ ys"
proof (induction xs)
  case Nil
  then show ?case by (cases ys) (auto simp: cmp_le)
qed auto

text \<open>A sorted queue is its elements above a bound followed by the others.\<close>

lemma split_at_bound:
  assumes "sorted (map key (rev q))"
  shows "q = filter (\<lambda>x. b < key x) q @ filter (\<lambda>x. key x \<le> b) q"
  using assms
proof (induction q)
  case (Cons x q)
  show ?case
  proof (cases "b < key x")
    case True
    with Cons show ?thesis by (auto simp: sorted_append)
  next
    case False
    with Cons.prems have "\<forall>y \<in> set q. key y \<le> b" by (auto simp: sorted_append)
    then have "filter (\<lambda>x. b < key x) q = []" "filter (\<lambda>x. key x \<le> b) q = q" by (auto simp: filter_empty_conv filter_id_conv)
    with False show ?thesis by auto
  qed
qed simp

end

end
