(* ===== verification/Tile_Store.thy ===== *)
theory Tile_Store
  imports Tile_Coords Tile_Codec Js_Sort "HOL-Library.AList"
begin

section \<open>The tiles of the client\<close>

text \<open>
  \<open>Tile\<close> and the part of \<open>TileManager\<close> of \<open>browser/src/app/TilesMiddleware.ts\<close> that keeps the tiles:
  the messages that bring them, their compressed and decompressed content, the list of bitmaps and
  the garbage collection. The static fields of the class are the record \<open>tile_manager\<close>. A \<open>Map\<close> is
  an association list in insertion order. A tile is identified by its key, which is how the map
  has it; the list of bitmaps holds keys. What the code asks of other objects (messages, drawing,
  callbacks) is appended to \<open>tm_effects\<close>. Debugging output is left out.
\<close>

record tile =
  ti_coords :: tile_coords
  ti_distanceFromView :: num
  ti_image :: "byte list option"
  ti_rawDeltas :: "raw_delta list"
  ti_deltaCount :: nat
  ti_updateCount :: nat
  ti_loadCount :: nat
  ti_gcErrors :: nat
  ti_missingContent :: nat
  ti_invalidateCount :: nat
  ti_viewId :: int
  ti_wireId :: int
  ti_invalidFrom :: int
  ti_deltaId :: nat
  ti_lastPendingId :: nat
  ti_decompressedId :: nat
  ti_lastRequestTime :: "int option"

text \<open>
  A pending delta is queued under the coordinates of its tile, which are replaced by the key when
  it is handed on for decompression.
\<close>

datatype delta_key = Coords tile_coords | Key string

record pending_delta =
  pd_key :: delta_key
  pd_rawDelta :: "byte list"
  pd_isKeyframe :: bool
  pd_wireMessage :: bool
  pd_ids :: "nat \<times> nat"

record pane_border =
  pb_border :: bounds
  pb_xFixed :: bool
  pb_yFixed :: bool
  pb_index :: nat

datatype tile_effect =
    SendMessage string
  | PauseDrawing
  | ResumeDrawing
  | DeferDrawing bool
  | RequestReDraw
  | AllTilesLoaded
  | TilePreview string
  | RunCallback nat
  | RunTask nat
  | LayoutTask nat
  | CreateBitmaps "(string \<times> byte list) list"
  | PostToWorker nat "pending_delta list"
  | DisableTaskWorkers
  | SendClientZoom
  | SendClientVisibleArea
  | StartFlushTimer int
  | StopFlushTimer
  | StartShrinkTimer
  | StartUpdateTimer
  | StartPartTimer int "int list"
  | StartAdjacentTimer
  | StartIdleTimer nat nat
  | StopPreFetchTimer

record tile_manager =
  tm_tiles :: "(string \<times> tile) list"
  tm_tileBitmapList :: "string list"
  tm_tileImageCache :: "string \<rightharpoonup> byte list option"
  tm_emptyTilesCount :: nat
  tm_inTransaction :: nat
  tm_pendingDeltas :: "pending_delta list"
  tm_transactionCallbacks :: "nat list"
  tm_nPendingWorkerTasks :: nat
  tm_nullDeltaUpdate :: nat
  tm_queuedProcessed :: "int list"
  tm_fetchKeyframeQueue :: "tile_coords list"
  tm_pendingTileCombineQueue :: "tile_coords list"
  tm_tileCombineFlushTimer :: bool
  tm_lastTileCombineFlushTs :: int
  tm_pausedForCoherency :: bool
  tm_dehydratedCurrentTiles :: "string list"
  tm_shrinkCurrentId :: bool
  tm_moveTileRequests :: "string list"
  tm_receivedFirstTile :: bool
  tm_afterFirstTileTasks :: "nat list"
  tm_zoom :: "int option"
  tm_preFetchPart :: "int option"
  tm_preFetchMode :: "int list"
  tm_hasEditPerm :: "bool option"
  tm_pixelBounds :: "bounds option"
  tm_splitPos :: "point option"
  tm_borders :: "pane_border list"
  tm_cumTileCount :: nat
  tm_tilesPreFetcher :: bool
  tm_preFetchIdle :: bool
  tm_effects :: "tile_effect list"

subsection \<open>A tile\<close>

definition new_Tile :: "tile_coords \<Rightarrow> tile" where
  "new_Tile c = \<lparr>ti_coords = c, ti_distanceFromView = 0, ti_image = None, ti_rawDeltas = [],
     ti_deltaCount = 0, ti_updateCount = 0, ti_loadCount = 0, ti_gcErrors = 0, ti_missingContent = 0,
     ti_invalidateCount = 0, ti_viewId = 0, ti_wireId = 0, ti_invalidFrom = 0, ti_deltaId = 0,
     ti_lastPendingId = 0, ti_decompressedId = 0, ti_lastRequestTime = None\<rparr>"

definition hasKeyframe :: "tile \<Rightarrow> bool" where
  "hasKeyframe t \<longleftrightarrow> ti_rawDeltas t \<noteq> []"

definition hasContent :: "tile \<Rightarrow> bool" where
  "hasContent t \<longleftrightarrow> ti_image t \<noteq> None \<or> hasKeyframe t"

definition needsFetch :: "tile \<Rightarrow> bool" where
  "needsFetch t \<longleftrightarrow> ti_invalidFrom t \<ge> ti_wireId t \<or> \<not> hasContent t"

definition needsRehydration :: "tile \<Rightarrow> bool" where
  "needsRehydration t =
     (if ti_rawDeltas t = [] then False else ti_lastPendingId t \<noteq> rd_id (last (ti_rawDeltas t)))"

definition isReady :: "tile \<Rightarrow> bool" where
  "isReady t \<longleftrightarrow> ti_decompressedId t = ti_lastPendingId t"

definition isReadyToDraw :: "tile \<Rightarrow> bool" where
  "isReadyToDraw t \<longleftrightarrow> ti_image t \<noteq> None"

definition updateLastRequest :: "int option \<Rightarrow> tile \<Rightarrow> tile" where
  "updateLastRequest now t = t\<lparr>ti_lastRequestTime := now\<rparr>"

definition allowFastRequest :: "tile \<Rightarrow> tile" where
  "allowFastRequest t = updateLastRequest None t"

definition forceKeyframe :: "int \<Rightarrow> tile \<Rightarrow> tile" where
  "forceKeyframe wireId t = allowFastRequest (t\<lparr>ti_wireId := wireId, ti_invalidFrom := wireId\<rparr>)"

definition requestingTooFast :: "int \<Rightarrow> tile \<Rightarrow> bool" where
  "requestingTooFast now t = (case ti_lastRequestTime t of None \<Rightarrow> False | Some last' \<Rightarrow> now - last' < 5000)"

subsection \<open>Access\<close>

definition effect :: "tile_effect \<Rightarrow> tile_manager \<Rightarrow> tile_manager" where
  "effect e m = m\<lparr>tm_effects := tm_effects m @ [e]\<rparr>"

definition get_tile :: "string \<Rightarrow> tile_manager \<Rightarrow> tile option" where
  "get_tile k m = map_of (tm_tiles m) k"

definition upd_tile :: "string \<Rightarrow> (tile \<Rightarrow> tile) \<Rightarrow> tile_manager \<Rightarrow> tile_manager" where
  "upd_tile k f m = m\<lparr>tm_tiles := AList.map_entry k f (tm_tiles m)\<rparr>"

definition distance_of :: "tile_manager \<Rightarrow> string \<Rightarrow> num" where
  "distance_of m k = (case get_tile k m of None \<Rightarrow> 0 | Some t \<Rightarrow> ti_distanceFromView t)"

definition createTile :: "tile_coords \<Rightarrow> tile_manager \<Rightarrow> tile_manager" where
  "createTile c m =
     (let k = tile_key c
      in if get_tile k m \<noteq> None then m
         else m\<lparr>tm_tiles := AList.update k (new_Tile c) (tm_tiles m)\<rparr>)"

definition appendAfterFirstTileTask :: "nat \<Rightarrow> tile_manager \<Rightarrow> tile_manager" where
  "appendAfterFirstTileTask task m =
     (if tm_receivedFirstTile m then effect (LayoutTask task) m
      else m\<lparr>tm_afterFirstTileTasks := tm_afterFirstTileTasks m @ [task]\<rparr>)"

definition touchImage :: "string \<Rightarrow> tile_manager \<Rightarrow> tile_manager" where
  "touchImage k m =
     upd_tile k (\<lambda>t. if ti_image t = None then t\<lparr>ti_missingContent := ti_missingContent t + 1\<rparr> else t) m"

subsection \<open>Bitmaps\<close>

definition reclaimTileBitmapMemory :: "string \<Rightarrow> tile_manager \<Rightarrow> tile_manager" where
  "reclaimTileBitmapMemory k m =
     (case get_tile k m of
        None \<Rightarrow> m
      | Some t \<Rightarrow>
          if ti_image t \<noteq> None then
            let m1 = upd_tile k (\<lambda>t. t\<lparr>ti_image := None, ti_decompressedId := 0, ti_lastPendingId := 0\<rparr>) m
            in m1\<lparr>tm_tileImageCache := (tm_tileImageCache m1)(tile_toString (ti_coords t) := None),
                  tm_tileBitmapList := remove1 k (tm_tileBitmapList m1)\<rparr>
          else m)"

definition removeTile :: "string \<Rightarrow> tile_manager \<Rightarrow> tile_manager" where
  "removeTile k m =
     (case get_tile k m of
        None \<Rightarrow> m
      | Some t \<Rightarrow>
          let m1 = (if \<not> hasContent t \<and> tm_emptyTilesCount m > 0
                    then m\<lparr>tm_emptyTilesCount := tm_emptyTilesCount m - 1\<rparr> else m);
              m2 = reclaimTileBitmapMemory k m1
          in m2\<lparr>tm_tiles := AList.delete k (tm_tiles m2)\<rparr>)"

definition removeAllTiles :: "tile_manager \<Rightarrow> tile_manager" where
  "removeAllTiles m = fold removeTile (map fst (tm_tiles m)) (m\<lparr>tm_tileBitmapList := []\<rparr>)"

definition highNumBitmaps :: nat where
  "highNumBitmaps = 250"

text \<open>The binary search for the place of a new bitmap among the distances of the list.\<close>

function insertion_index :: "num list \<Rightarrow> num \<Rightarrow> nat \<Rightarrow> nat \<Rightarrow> nat" where
  "insertion_index ds distance low high =
     (if low < high then
        (let mid = (low + high) div 2
         in if ds ! mid < distance then insertion_index ds distance (mid + 1) high
            else insertion_index ds distance low mid)
      else low)"
  by pat_completeness auto
termination
  by (relation "measure (\<lambda>(ds, d, low, high). high - low)") auto

declare insertion_index.simps [simp del]

definition setBitmapOnTile :: "string \<Rightarrow> byte list \<Rightarrow> tile_manager \<Rightarrow> tile_manager" where
  "setBitmapOnTile k bitmap m =
     (case get_tile k m of
        None \<Rightarrow> m
      | Some t \<Rightarrow>
          if ti_image t \<noteq> None then upd_tile k (\<lambda>t. t\<lparr>ti_image := Some bitmap\<rparr>) m
          else
            let m1 = (if length (tm_tileBitmapList m) > highNumBitmaps
                      then reclaimTileBitmapMemory (last (tm_tileBitmapList m)) m else m);
                m2 = (if ti_distanceFromView t = 0
                      then m1\<lparr>tm_tileBitmapList := k # tm_tileBitmapList m1\<rparr>
                      else let low = insertion_index (map (distance_of m1) (tm_tileBitmapList m1))
                                       (ti_distanceFromView t) 0 (length (tm_tileBitmapList m1))
                           in m1\<lparr>tm_tileBitmapList := list_insert_at low k (tm_tileBitmapList m1)\<rparr>)
            in upd_tile k (\<lambda>t. t\<lparr>ti_image := Some bitmap\<rparr>) m2)"

definition sortTileBitmapList :: "tile_manager \<Rightarrow> tile_manager" where
  "sortTileBitmapList m =
     m\<lparr>tm_tileBitmapList :=
         js_sort (\<lambda>a b. num_cmp (distance_of m a) (distance_of m b)) (tm_tileBitmapList m)\<rparr>"

definition getExpiryFactor :: "string \<Rightarrow> tile_manager \<Rightarrow> num" where
  "getExpiryFactor k m =
     of_int (js_findIndex (\<lambda>x. x = k) (tm_tileBitmapList m)) / of_nat (max (length (tm_tileBitmapList m)) 1)"

subsection \<open>Garbage collection\<close>

definition delta_size :: "tile \<Rightarrow> int" where
  "delta_size t = sum_list (map (\<lambda>d. int (rd_length d)) (ti_rawDeltas t))"

definition sortTileKeysByDistance :: "tile_manager \<Rightarrow> string list" where
  "sortTileKeysByDistance m =
     js_sort (\<lambda>a b. num_cmp (distance_of m b) (distance_of m a)) (map fst (tm_tiles m))"

text \<open>
  The loops of \<open>garbageCollect\<close>. The keys are those of the map and distinct, so the lookups
  succeed; the second loop runs over the first \<open>keys.length - lowTileCount\<close> keys.
\<close>

fun gc_memory :: "int \<Rightarrow> string list \<Rightarrow> int \<Rightarrow> tile_manager \<Rightarrow> tile_manager" where
  "gc_memory lowDeltaMemory [] totalSize m = m"
| "gc_memory lowDeltaMemory (k # ks) totalSize m =
     (if totalSize > lowDeltaMemory then
        case get_tile k m of
          None \<Rightarrow> gc_memory lowDeltaMemory ks totalSize m
        | Some t \<Rightarrow>
            if ti_rawDeltas t \<noteq> [] \<and> ti_distanceFromView t \<noteq> 0 then
              gc_memory lowDeltaMemory ks (totalSize - delta_size t)
                (upd_tile k (\<lambda>t. forceKeyframe 0 (t\<lparr>ti_rawDeltas := []\<rparr>)) (reclaimTileBitmapMemory k m))
            else gc_memory lowDeltaMemory ks totalSize m
      else m)"

fun gc_count :: "string list \<Rightarrow> tile_manager \<Rightarrow> tile_manager" where
  "gc_count [] m = m"
| "gc_count (k # ks) m =
     gc_count ks (case get_tile k m of
                    None \<Rightarrow> m
                  | Some t \<Rightarrow> if ti_distanceFromView t \<noteq> 0 then removeTile k m else m)"

definition hidden_tiles :: "tile_manager \<Rightarrow> tile list" where
  "hidden_tiles m = filter (\<lambda>t. ti_distanceFromView t \<noteq> 0) (map snd (tm_tiles m))"

definition hidden_size :: "tile_manager \<Rightarrow> int" where
  "hidden_size m = sum_list (map delta_size (hidden_tiles m))"

definition gc_limits :: "bool \<Rightarrow> int \<times> int \<times> nat \<times> nat" where
  "gc_limits discardAll =
     (if discardAll then (0, 0, 0, 0) else (120 * 1024 * 1024, 100 * 1024 * 1024, 2048, 2048 - 128))"

definition garbageCollect :: "bool \<Rightarrow> tile_manager \<Rightarrow> tile_manager" where
  "garbageCollect discardAll m =
     (let (highDeltaMemory, lowDeltaMemory, highTileCount, lowTileCount) = gc_limits discardAll;
          totalSize = hidden_size m;
          tileCount = length (hidden_tiles m);
          (sortedKeys, m1) =
            (if totalSize > highDeltaMemory
             then let keys = sortTileKeysByDistance m in (keys, gc_memory lowDeltaMemory keys totalSize m)
             else ([], m))
      in if tileCount > highTileCount
         then let keys = (if sortedKeys = [] then sortTileKeysByDistance m1 else sortedKeys)
              in gc_count (take (length keys - lowTileCount) keys) m1
         else m1)"

subsection \<open>Distances\<close>

definition max_safe_integer :: num where
  "max_safe_integer = 2 ^ 53 - 1"

definition tile_rect_twips :: "tile_app \<Rightarrow> tile_coords \<Rightarrow> rect4" where
  "tile_rect_twips app c =
     (let tileSizeTwips = of_int (js_round (of_int (ta_tileSize app) * pixelsToTwips (ta_scale app)));
          p = tc_getPosSimplePoint app c
      in \<lparr>r_x = of_int (spt_x p), r_y = of_int (spt_y p), r_w = tileSizeTwips, r_h = tileSizeTwips\<rparr>)"

definition tile_distance :: "tile_app \<Rightarrow> tile_coords \<Rightarrow> int \<Rightarrow> num" where
  "tile_distance app c zoom =
     (if \<not> ta_hasLayout app then max_safe_integer
      else if tc_z c \<noteq> zoom \<or> tc_part c \<noteq> ta_selectedPart app \<or> tc_mode c \<notin> set (ta_activeModes app)
      then max_safe_integer
      else if ta_isVisible app (tile_rect_twips app c) then 0
      else let tileSizeTwips = of_int (js_round (of_int (ta_tileSize app) * pixelsToTwips (ta_scale app))) :: num;
               center = (js_round (of_int (tc_x c) + tileSizeTwips * (1 / 2)),
                         js_round (of_int (tc_y c) + tileSizeTwips * (1 / 2)))
           in SimplePoint_distanceTo center (ta_viewCenter app))"

definition updateTileDistance :: "tile_app \<Rightarrow> string \<Rightarrow> int \<Rightarrow> tile_manager \<Rightarrow> tile_manager" where
  "updateTileDistance app k zoom m =
     upd_tile k (\<lambda>t. t\<lparr>ti_distanceFromView := tile_distance app (ti_coords t) zoom\<rparr>) m"

definition reclaimGraphicsMemory :: "tile_manager \<Rightarrow> tile_manager" where
  "reclaimGraphicsMemory m =
     (let m1 = fold (\<lambda>(k, t) m.
            reclaimTileBitmapMemory k
              (if ti_distanceFromView t = 0
               then m\<lparr>tm_dehydratedCurrentTiles := tm_dehydratedCurrentTiles m @ [k]\<rparr> else m))
          (tm_tiles m) m
      in if tm_dehydratedCurrentTiles m1 \<noteq> [] then effect (DeferDrawing True) m1 else m1)"

end
