(* ===== verification/Tile_Decompress.thy ===== *)
theory Tile_Decompress
  imports Tile_Store
begin

section \<open>Decompressing tiles\<close>

text \<open>
  The part of \<open>TileManager\<close> of \<open>browser/src/app/TilesMiddleware.ts\<close> that turns the compressed
  content of tiles into bitmaps: the queue of deltas of a transaction, its end, where the deltas go
  to the workers or are decompressed at once, and the handling of the results. A result \<open>Inl m\<close>
  is an exception thrown in the state \<open>m\<close>.
\<close>

subsection \<open>Queueing\<close>


definition applyCompressedDelta ::
    "string \<Rightarrow> raw_delta list \<Rightarrow> bool \<Rightarrow> bool \<Rightarrow> nat \<times> nat \<Rightarrow> tile_manager \<Rightarrow> tile_manager" where
  "applyCompressedDelta k rawDeltas isKeyframe wireMessage ids m =
     (case get_tile k m of
        None \<Rightarrow> m
      | Some t \<Rightarrow>
          let e = \<lparr>pd_key = Coords (ti_coords t), pd_rawDelta = concat (map rd_delta rawDeltas),
                   pd_isKeyframe = isKeyframe, pd_wireMessage = wireMessage, pd_ids = ids\<rparr>;
              m1 = upd_tile k (\<lambda>t. t\<lparr>ti_lastPendingId := snd ids\<rparr>) m
          in m1\<lparr>tm_pendingDeltas := tm_pendingDeltas m1 @ [e]\<rparr>)"

text \<open>The index of the last keyframe other than the first delta, or 0.\<close>

fun last_keyframe :: "raw_delta list \<Rightarrow> nat \<Rightarrow> nat" where
  "last_keyframe ds 0 = 0"
| "last_keyframe ds (Suc i) = (if rd_isKeyframe (ds ! Suc i) then Suc i else last_keyframe ds i)"

definition first_delta :: "tile \<Rightarrow> nat" where
  "first_delta t =
     (let ds = ti_rawDeltas t;
          firstDelta = last_keyframe ds (length ds - 1)
      in if ti_lastPendingId t > rd_id (ds ! firstDelta)
         then let continuedIdIndex = js_findIndex (\<lambda>d. rd_id d = ti_lastPendingId t) ds
              in if continuedIdIndex \<noteq> -1 then nat (continuedIdIndex + 1) else firstDelta
         else firstDelta)"

text \<open>A first delta past the end would be read as \<open>undefined\<close>.\<close>

definition rehydrateTile :: "string \<Rightarrow> bool \<Rightarrow> tile_manager \<Rightarrow> js_error + tile_manager" where
  "rehydrateTile k wireMessage m =
     (case get_tile k m of
        None \<Rightarrow> Inl TypeError
      | Some t \<Rightarrow>
          if needsRehydration t then
            let m1 = (if ti_distanceFromView t = 0 \<and> \<not> tm_pausedForCoherency m
                      then (effect PauseDrawing m)\<lparr>tm_pausedForCoherency := True\<rparr> else m);
                ds = ti_rawDeltas t; firstDelta = first_delta t
            in case js_nth ds (int firstDelta) of
                 None \<Rightarrow> Inl TypeError
               | Some d \<Rightarrow>
                   Inr (applyCompressedDelta k (drop firstDelta ds) (rd_isKeyframe d) wireMessage
                          (rd_id d, rd_id (last ds)) m1)
          else Inr m)"

definition makeTileCurrent :: "string \<Rightarrow> tile_manager \<Rightarrow> js_error + bool \<times> tile_manager" where
  "makeTileCurrent k m =
     (case rehydrateTile k False (upd_tile k (\<lambda>t. allowFastRequest (t\<lparr>ti_distanceFromView := 0\<rparr>)) m) of
        Inl e \<Rightarrow> Inl e
      | Inr m' \<Rightarrow> Inr (case get_tile k m' of None \<Rightarrow> False | Some t \<Rightarrow> \<not> isReady t, m'))"

definition beginTransaction :: "tile_manager \<Rightarrow> tile_manager" where
  "beginTransaction m = m\<lparr>tm_inTransaction := tm_inTransaction m + 1\<rparr>"

text \<open>Discarding the deltas before the last keyframe when a tile is ready.\<close>

definition discard_old :: "tile \<Rightarrow> tile" where
  "discard_old t = t\<lparr>ti_rawDeltas := drop (last_keyframe (ti_rawDeltas t) (length (ti_rawDeltas t) - 1)) (ti_rawDeltas t)\<rparr>"

definition tileReady :: "tile_app \<Rightarrow> tile_coords \<Rightarrow> tile_manager \<Rightarrow> tile_manager" where
  "tileReady app c m =
     (let k = tile_key c
      in case get_tile k m of
           None \<Rightarrow> m
         | Some t \<Rightarrow>
             let m1 = upd_tile k discard_old m;
                 changed = tm_emptyTilesCount m1 > 0;
                 m2 = (if changed then m1\<lparr>tm_emptyTilesCount := tm_emptyTilesCount m1 - 1\<rparr> else m1);
                 m3 = (if changed \<and> tm_emptyTilesCount m2 = 0 then effect AllTilesLoaded m2 else m2)
             in if ta_isVisible app (tile_rect_twips app (ti_coords t)) then effect RequestReDraw m3 else m3)"

definition visibleTilesReady :: "tile_manager \<Rightarrow> bool" where
  "visibleTilesReady m =
     list_all (\<lambda>(k, t). \<not> (ti_distanceFromView t = 0 \<and> ti_lastPendingId t \<noteq> 0 \<and> \<not> isReady t)) (tm_tiles m)"

text \<open>The callbacks are recorded; what a callback does to the manager is a step of its own.\<close>

definition run_callbacks :: "tile_manager \<Rightarrow> tile_manager" where
  "run_callbacks m = (fold (\<lambda>c. effect (RunCallback c)) (rev (tm_transactionCallbacks m)) m)\<lparr>tm_transactionCallbacks := []\<rparr>"

text \<open>\<open>endTransactionHandleBitmaps\<close>; the two arrays of the code are filled in pairs.\<close>

fun set_bitmaps :: "tile_app \<Rightarrow> (string \<times> byte list) list \<Rightarrow> tile_manager \<Rightarrow> tile_manager" where
  "set_bitmaps app [] m = m"
| "set_bitmaps app ((k, bitmap) # rest) m =
     set_bitmaps app rest
       (case get_tile k m of
          None \<Rightarrow> m
        | Some t \<Rightarrow>
            let m1 = setBitmapOnTile k bitmap m
            in case get_tile k m1 of
                 None \<Rightarrow> m1
               | Some t1 \<Rightarrow> if isReady t1 then tileReady app (ti_coords t1) m1 else m1)"

definition endTransactionHandleBitmaps ::
    "tile_app \<Rightarrow> (string \<times> byte list) list \<Rightarrow> tile_manager \<Rightarrow> tile_manager" where
  "endTransactionHandleBitmaps app deltas m =
     (let m1 = set_bitmaps app deltas m;
          m2 = (if visibleTilesReady m1 then
                  let m1a = (if tm_pausedForCoherency m1
                             then (effect ResumeDrawing m1)\<lparr>tm_pausedForCoherency := False\<rparr> else m1)
                  in effect RequestReDraw (effect (DeferDrawing False) m1a)
                else m1);
          m3 = (if tm_nPendingWorkerTasks m2 = 0 then run_callbacks m2 else m2)
      in garbageCollect False m3)"

text \<open>
  \<open>applyDelta\<close>: the image is the new keyframe or the cached one; without either nothing happens.
\<close>

definition applyDelta ::
    "tile_app \<Rightarrow> string \<Rightarrow> byte list \<Rightarrow> nat \<Rightarrow> byte list option \<Rightarrow> tile_manager \<Rightarrow> tile_manager" where
  "applyDelta app k deltas keyframeDeltaSize keyframeImage m =
     (case get_tile k m of
        None \<Rightarrow> m
      | Some t \<Rightarrow>
          let key = tile_toString (ti_coords t);
              imgData = (case keyframeImage of
                           Some img \<Rightarrow> Some img
                         | None \<Rightarrow> (case tm_tileImageCache m key of Some c \<Rightarrow> c | None \<Rightarrow> None))
          in case imgData of
               None \<Rightarrow> m
             | Some img \<Rightarrow>
                 m\<lparr>tm_tileImageCache := (tm_tileImageCache m)(key \<mapsto>
                     Some (updateImageFromDeltas img deltas keyframeDeltaSize (nat (ta_tileSize app))))\<rparr>)"

definition createTileBitmap ::
    "string \<Rightarrow> tile_coords \<Rightarrow> tile_manager \<Rightarrow> (string \<times> byte list) list \<Rightarrow> (string \<times> byte list) list" where
  "createTileBitmap k c m bitmaps =
     (case tm_tileImageCache m (tile_toString c) of Some (Some img) \<Rightarrow> bitmaps @ [(k, img)] | _ \<Rightarrow> bitmaps)"

text \<open>
  One delta of \<open>onWorkerEndTransaction\<close>: a worker has decompressed it to a bitmap, or it is
  decompressed here. The bitmaps are collected with their keys. A length \<open>NaN\<close> of a keyframe,
  \<open>None\<close> here, leaves no deltas to apply.
\<close>

definition count_message :: "bool \<Rightarrow> tile \<Rightarrow> tile" where
  "count_message isKeyframe t =
     (if isKeyframe then t\<lparr>ti_loadCount := ti_loadCount t + 1, ti_deltaCount := 0, ti_updateCount := 0\<rparr>
      else t\<lparr>ti_deltaCount := ti_deltaCount t + 1\<rparr>)"

definition known_deltas :: "tile \<Rightarrow> nat \<times> nat \<Rightarrow> bool" where
  "known_deltas t ids \<longleftrightarrow>
     (let first = js_findIndex (\<lambda>d. rd_id d = fst ids) (ti_rawDeltas t);
          lst = js_findIndex (\<lambda>d. rd_id d = snd ids) (ti_rawDeltas t)
      in first \<noteq> -1 \<and> lst \<noteq> -1 \<and> first \<le> lst)"

definition decompress_here ::
    "tile_app \<Rightarrow> string \<Rightarrow> byte list \<Rightarrow> bool \<Rightarrow> tile_manager \<Rightarrow> tile_manager + tile_manager" where
  "decompress_here app k rawDelta isKeyframe m =
     (case ta_decompress app rawDelta of
        None \<Rightarrow> Inl m
      | Some deltas \<Rightarrow>
          if isKeyframe then
            let n = nat (ta_tileSize app)
            in case unrle deltas n n (replicate (n * n * 4) 0) 0 of
                 Inl e \<Rightarrow> Inl m
               | Inr (size', buf) \<Rightarrow>
                   Inr (applyDelta app k deltas (case size' of Some s \<Rightarrow> s | None \<Rightarrow> length deltas) (Some buf) m)
          else Inr (applyDelta app k deltas 0 None m))"

text \<open>The part after the counters, for a tile \<open>t\<close> as it was before.\<close>

definition worker_bitmap ::
    "tile_app \<Rightarrow> string \<Rightarrow> pending_delta \<Rightarrow> byte list option \<Rightarrow> tile \<Rightarrow> tile_manager \<Rightarrow> (string \<times> byte list) list \<Rightarrow>
     tile_manager + tile_manager \<times> (string \<times> byte list) list" where
  "worker_bitmap app k x bitmap t m acc =
     (if \<not> pd_isKeyframe x \<and> ti_decompressedId t = 0 then Inr (m, acc)
      else case bitmap of
             Some b \<Rightarrow> Inr (m\<lparr>tm_tileImageCache := (tm_tileImageCache m)(k \<mapsto> None)\<rparr>, acc @ [(k, b)])
           | None \<Rightarrow>
               sum_bind (decompress_here app k (pd_rawDelta x) (pd_isKeyframe x) m)
                 (\<lambda>m'. Inr (m', createTileBitmap k (ti_coords t) m' acc)))"

definition worker_delta ::
    "tile_app \<Rightarrow> (string \<times> pending_delta) \<times> byte list option \<Rightarrow> tile_manager \<times> (string \<times> byte list) list \<Rightarrow>
     tile_manager + tile_manager \<times> (string \<times> byte list) list" where
  "worker_delta app xb st =
     (let ((k, x), bitmap) = xb; (m, acc) = st
      in case get_tile k m of
           None \<Rightarrow> Inr (m, acc)
         | Some t \<Rightarrow>
             let m1 = upd_tile k (\<lambda>t. t\<lparr>ti_decompressedId := snd (pd_ids x)\<rparr>) m
             in if pd_wireMessage x \<and> \<not> pd_isKeyframe x \<and> \<not> known_deltas t (pd_ids x)
                then Inr ((upd_tile k (\<lambda>t. t\<lparr>ti_updateCount := ti_updateCount t + 1\<rparr>) m1)
                            \<lparr>tm_nullDeltaUpdate := tm_nullDeltaUpdate m1 + 1\<rparr>, acc)
                else worker_bitmap app k x bitmap t
                       (if pd_wireMessage x then upd_tile k (count_message (pd_isKeyframe x)) m1 else m1) acc)"

fun worker_deltas where
  "worker_deltas app [] st = Inr st"
| "worker_deltas app (x # xs) st = sum_bind (worker_delta app x st) (worker_deltas app xs)"

text \<open>
  \<open>onWorkerEndTransaction\<close>: the bitmaps of workers are used at once; those created here arrive
  later, in a call of \<open>endTransactionHandleBitmaps\<close> with the bitmaps of the effect \<open>CreateBitmaps\<close>.
  The deltas of one message are all of one kind.
\<close>

definition onWorkerEndTransaction ::
    "tile_app \<Rightarrow> (string \<times> pending_delta) list \<Rightarrow> byte list list option \<Rightarrow> tile_manager \<Rightarrow> tile_manager + tile_manager"
where
  "onWorkerEndTransaction app deltas results m =
     (let m1 = (if tm_nPendingWorkerTasks m > 0
                then m\<lparr>tm_nPendingWorkerTasks := tm_nPendingWorkerTasks m - 1\<rparr> else m);
          xs = (case results of None \<Rightarrow> map (\<lambda>x. (x, None)) deltas | Some bs \<Rightarrow> zip deltas (map Some bs))
      in sum_bind (worker_deltas app xs (m1, [])) (\<lambda>(m2, bitmaps).
           Inr (if bitmaps = [] then m2
                else case results of
                       Some _ \<Rightarrow> endTransactionHandleBitmaps app bitmaps m2
                     | None \<Rightarrow> effect (CreateBitmaps bitmaps) m2)))"

subsection \<open>The end of a transaction\<close>

text \<open>\<open>delta.key.key()\<close>, which throws when the coordinates have been replaced already.\<close>

fun key_of :: "delta_key \<Rightarrow> string option" where
  "key_of (Coords c) = Some (tile_key c)"
| "key_of (Key s) = None"

definition bucket_of :: "tile_app \<Rightarrow> tile_coords \<Rightarrow> int" where
  "bucket_of app c =
     js_imod (js_round (of_int (tc_x c) / of_int (ta_tileSize app) + of_int (tc_y c) / of_int (ta_tileSize app)))
       (int (ta_workers app))"

text \<open>The loop that empties the queue into the buckets; on an exception the rest stays queued.\<close>

fun fill_buckets ::
    "tile_app \<Rightarrow> pending_delta list \<Rightarrow> pending_delta list list \<Rightarrow> pending_delta list + pending_delta list list" where
  "fill_buckets app [] buckets = Inr buckets"
| "fill_buckets app (d # ds) buckets =
     (case pd_key d of
        Key s \<Rightarrow> Inl ds
      | Coords c \<Rightarrow>
          let b = bucket_of app c
          in if 0 \<le> b \<and> b < int (length buckets)
             then fill_buckets app ds
                    (buckets[nat b := buckets ! nat b @ [d\<lparr>pd_key := Key (tile_key c)\<rparr>]])
             else Inl ds)"

definition post_bucket :: "nat \<times> pending_delta list \<Rightarrow> tile_manager \<Rightarrow> tile_manager" where
  "post_bucket ib m =
     (if snd ib = [] then m
      else effect (PostToWorker (fst ib) (snd ib)) (m\<lparr>tm_nPendingWorkerTasks := tm_nPendingWorkerTasks m + 1\<rparr>))"

text \<open>Replacing the coordinates by keys in place, up to the first delta where that throws.\<close>

fun keys_of :: "pending_delta list \<Rightarrow> (string \<times> pending_delta) list option \<times> pending_delta list" where
  "keys_of [] = (Some [], [])"
| "keys_of (d # ds) =
     (case key_of (pd_key d) of
        None \<Rightarrow> (None, d # ds)
      | Some k \<Rightarrow>
          let (r, ds') = keys_of ds; d' = d\<lparr>pd_key := Key k\<rparr>
          in (map_option (\<lambda>xs. (k, d') # xs) r, d' # ds'))"

definition decompressPendingDeltas :: "tile_app \<Rightarrow> tile_manager \<Rightarrow> tile_manager + tile_manager" where
  "decompressPendingDeltas app m =
     (if ta_workers app \<noteq> 0 then
        case fill_buckets app (tm_pendingDeltas m) (replicate (ta_workers app) []) of
          Inl rest \<Rightarrow> Inl (m\<lparr>tm_pendingDeltas := rest\<rparr>)
        | Inr buckets \<Rightarrow> Inr (fold post_bucket (zip [0..<ta_workers app] buckets) (m\<lparr>tm_pendingDeltas := []\<rparr>))
      else
        let m1 = m\<lparr>tm_nPendingWorkerTasks := tm_nPendingWorkerTasks m + 1\<rparr>;
            (r, ds) = keys_of (tm_pendingDeltas m1);
            m2 = m1\<lparr>tm_pendingDeltas := ds\<rparr>
        in case r of
             None \<Rightarrow> Inl m2
           | Some deltas \<Rightarrow>
               sum_bind (onWorkerEndTransaction app deltas None m2) (\<lambda>m3. Inr (m3\<lparr>tm_pendingDeltas := []\<rparr>)))"

definition run_callback :: "nat option \<Rightarrow> tile_manager \<Rightarrow> tile_manager" where
  "run_callback callback m = (case callback of None \<Rightarrow> m | Some c \<Rightarrow> effect (RunCallback c) m)"

definition endTransaction :: "tile_app \<Rightarrow> nat option \<Rightarrow> tile_manager \<Rightarrow> tile_manager" where
  "endTransaction app callback m =
     (if tm_inTransaction m = 0 then m
      else
        let m1 = m\<lparr>tm_inTransaction := tm_inTransaction m - 1\<rparr>;
            m2 = (case callback of
                    None \<Rightarrow> m1
                  | Some c \<Rightarrow> m1\<lparr>tm_transactionCallbacks := tm_transactionCallbacks m1 @ [c]\<rparr>)
        in if tm_inTransaction m2 \<noteq> 0 then m2
           else if tm_pendingDeltas m2 = [] then run_callback callback m1
           else case decompressPendingDeltas app m2 of
                  Inl m3 \<Rightarrow> run_callback callback ((effect DisableTaskWorkers m3)\<lparr>tm_inTransaction := 0\<rparr>)
                | Inr m3 \<Rightarrow> m3)"

fun rehydrate_all :: "string list \<Rightarrow> tile_manager \<Rightarrow> js_error + tile_manager" where
  "rehydrate_all [] m = Inr m"
| "rehydrate_all (k # ks) m =
     sum_bind (if get_tile k m = None then Inr m else rehydrateTile k False m) (rehydrate_all ks)"

definition rehydrateCurrentTiles :: "tile_app \<Rightarrow> tile_manager \<Rightarrow> js_error + tile_manager" where
  "rehydrateCurrentTiles app m =
     (let m1 = beginTransaction (effect (DeferDrawing False) m)
      in sum_bind (rehydrate_all (rev (tm_dehydratedCurrentTiles m1)) (m1\<lparr>tm_dehydratedCurrentTiles := []\<rparr>))
           (\<lambda>m2. Inr (endTransaction app None m2)))"

end
