(* ===== verification/Tile_Requests.thy ===== *)
theory Tile_Requests
  imports Tile_Decompress
begin

section \<open>Messages about tiles\<close>

text \<open>
  The part of \<open>TileManager\<close> of \<open>browser/src/app/TilesMiddleware.ts\<close> that talks to the server: tiles
  that arrive, invalidations, acknowledgements, and the requests for tiles, which are collected for
  some time and sent as one message per part and mode. Times are milliseconds.
\<close>

subsection \<open>Messages from the server\<close>

definition queueAcknowledgement :: "tile_msg \<Rightarrow> tile_manager \<Rightarrow> tile_manager" where
  "queueAcknowledgement msg m = m\<lparr>tm_queuedProcessed := tm_queuedProcessed m @ [msg_wireId msg]\<rparr>"

text \<open>A new delta of a tile; \<open>img\<close> is its data and whether it is a keyframe.\<close>

definition push_delta :: "byte list \<times> bool \<Rightarrow> tile \<Rightarrow> tile" where
  "push_delta img t =
     (let t1 = t\<lparr>ti_deltaId := ti_deltaId t + 1\<rparr>;
          rawDelta = \<lparr>rd_delta = fst img, rd_id = ti_deltaId t1, rd_isKeyframe = snd img\<rparr>
      in if snd img \<or> hasKeyframe t1 then t1\<lparr>ti_rawDeltas := ti_rawDeltas t1 @ [rawDelta]\<rparr> else t1)"

text \<open>The update of a tile by a message: the tile, and whether it has to be fetched again.\<close>

definition receive_delta :: "tile_msg \<Rightarrow> (byte list \<times> bool) option \<Rightarrow> tile \<Rightarrow> tile \<times> bool" where
  "receive_delta msg img t =
     (let t1 = t\<lparr>ti_viewId := msg_nviewid msg, ti_wireId := msg_wireId msg\<rparr>
      in case img of
           None \<Rightarrow> (t1, False)
         | Some i \<Rightarrow>
             if \<not> snd i \<and> \<not> hasKeyframe t1
             then ((forceKeyframe 0 t1)\<lparr>ti_gcErrors := ti_gcErrors t1 + 1\<rparr>, True)
             else (if fst i \<noteq> [] then push_delta i t1 else t1, False))"

definition run_first_tasks :: "tile_manager \<Rightarrow> tile_manager" where
  "run_first_tasks m =
     (fold (\<lambda>task. effect (RunTask task)) (tm_afterFirstTileTasks m) (m\<lparr>tm_receivedFirstTile := True\<rparr>))
       \<lparr>tm_afterFirstTileTasks := []\<rparr>"

definition store_message ::
    "tile_app \<Rightarrow> tile_msg \<Rightarrow> (byte list \<times> bool) option \<Rightarrow> tile_manager \<Rightarrow> tile_manager" where
  "store_message app msg img m =
     (let coords = tileMsgToCoords app msg; k = tile_key coords;
          m1 = (if get_tile k m = None then updateTileDistance app k (ta_zoom app) (createTile coords m) else m);
          refetch = (case get_tile k m1 of None \<Rightarrow> False | Some t \<Rightarrow> snd (receive_delta msg img t));
          m2 = upd_tile k (\<lambda>t. fst (receive_delta msg img t)) m1
      in if refetch then m2\<lparr>tm_fetchKeyframeQueue := tm_fetchKeyframeQueue m2 @ [coords]\<rparr> else m2)"

definition onTileMsg ::
    "tile_app \<Rightarrow> tile_msg \<Rightarrow> (byte list \<times> bool) option \<Rightarrow> tile_manager \<Rightarrow> js_error + tile_manager" where
  "onTileMsg app msg img m =
     (case msg_id msg of
        Some i \<Rightarrow> Inr (queueAcknowledgement msg (effect (TilePreview i) m))
      | None \<Rightarrow>
          let k = tile_key (tileMsgToCoords app msg); m1 = store_message app msg img m
          in sum_bind (if distance_of m1 k = 0 then rehydrateTile k True m1 else Inr m1)
               (\<lambda>m2. Inr (run_first_tasks (queueAcknowledgement msg m2))))"

definition invalidateTile :: "string \<Rightarrow> int \<Rightarrow> tile_manager \<Rightarrow> tile_manager" where
  "invalidateTile k wireId m =
     (case get_tile k m of
        None \<Rightarrow> m
      | Some t \<Rightarrow>
          let m1 = upd_tile k (\<lambda>t. t\<lparr>ti_invalidateCount := ti_invalidateCount t + 1\<rparr>) m
          in if \<not> hasContent t then removeTile k m1
             else upd_tile k (forceKeyframe (if wireId \<noteq> 0 then wireId else ti_wireId t)) m1)"

definition refreshTilesInBackground :: "tile_manager \<Rightarrow> tile_manager" where
  "refreshTilesInBackground m = fold (\<lambda>k. upd_tile k (forceKeyframe 0)) (map fst (tm_tiles m)) m"

text \<open>Whether an invalidation of a rectangle of a part and mode concerns a tile.\<close>

definition invalidates :: "tile_app \<Rightarrow> int \<Rightarrow> int \<Rightarrow> simple_rectangle \<Rightarrow> tile_coords \<Rightarrow> bool" where
  "invalidates app part mode rect c \<longleftrightarrow>
     tc_part c = part \<and> tc_mode c \<in> set (if ta_compareChanges app then [1, 2] else [mode]) \<and>
     (array_intersectsRectangle (SimpleRectangle_toArray rect) (pixelCoordsToTwipTileBounds app c) \<or>
      ta_isCalc app \<and> \<not> tileZoomIsCurrent app c)"

definition invalidate_overlapping ::
    "tile_app \<Rightarrow> int \<Rightarrow> int \<Rightarrow> int \<Rightarrow> simple_rectangle \<Rightarrow> tile_manager \<Rightarrow> tile_manager \<times> bool" where
  "invalidate_overlapping app part mode wireId rect m =
     fold (\<lambda>(k, t) (m', needsNewTiles).
         if invalidates app part mode rect (ti_coords t)
         then (invalidateTile k wireId m', needsNewTiles \<or> ti_distanceFromView t = 0)
         else (m', needsNewTiles))
       (tm_tiles m) (m, False)"

definition resetReconnectTransientState :: "tile_manager \<Rightarrow> tile_manager" where
  "resetReconnectTransientState m =
     (let m1 = m\<lparr>tm_queuedProcessed := [], tm_fetchKeyframeQueue := [], tm_pendingTileCombineQueue := []\<rparr>;
          m2 = (if tm_tileCombineFlushTimer m1
                then (effect StopFlushTimer m1)\<lparr>tm_tileCombineFlushTimer := False\<rparr> else m1)
      in m2\<lparr>tm_lastTileCombineFlushTs := 0\<rparr>)"

subsection \<open>Requests\<close>

definition tileNeedsFetch :: "string \<Rightarrow> tile_manager \<Rightarrow> bool" where
  "tileNeedsFetch k m = (case get_tile k m of None \<Rightarrow> True | Some t \<Rightarrow> needsFetch t)"

definition tilecombine_text :: "tile_app \<Rightarrow> int \<Rightarrow> int \<Rightarrow> int list \<Rightarrow> int list \<Rightarrow> int list \<Rightarrow> string" where
  "tilecombine_text app part mode xs ys wids =
     ''tilecombine nviewid=0 part='' @ show_int part @ '' '' @
     (if mode \<noteq> 0 then ''mode='' @ show_int mode @ '' '' else []) @
     ''width='' @ show_int (ta_tileSize app) @ '' height='' @ show_int (ta_tileSize app) @
     '' tileposx='' @ join_with '','' (map show_int xs) @ '' tileposy='' @ join_with '','' (map show_int ys) @
     '' oldwid='' @ join_with '','' (map show_int wids) @
     '' tilewidth='' @ show_int (fst (ta_tileTwips app)) @ '' tileheight='' @ show_int (snd (ta_tileTwips app))"

definition sendTileCombineMessage ::
    "tile_app \<Rightarrow> int \<Rightarrow> int \<Rightarrow> int list \<Rightarrow> int list \<Rightarrow> int list \<Rightarrow> nat \<Rightarrow> tile_manager \<Rightarrow> tile_manager" where
  "sendTileCombineMessage app part mode xs ys wids addedSize m =
     (if addedSize = 0 \<or> ta_tileSize app \<le> 0 \<or> fst (ta_tileTwips app) \<le> 0 \<or> snd (ta_tileTwips app) \<le> 0 \<or>
         part < 0 \<or> mode < 0 then m
      else if \<not> list_all (\<lambda>(x, y). 0 \<le> x \<and> 0 \<le> y) (zip xs ys) then m
      else effect (SendMessage (tilecombine_text app part mode xs ys wids)) m)"

text \<open>
  \<open>sendTileCombineRequestNow\<close>: the key of a bucket is a 32 bit integer, and the buckets are
  visited like the properties of an object: those that are array indices in ascending order,
  then the others as they were added.
\<close>

definition pm_key :: "tile_coords \<Rightarrow> int" where
  "pm_key c = ((tc_part c * 256 + 2 ^ 31) mod 2 ^ 32 - 2 ^ 31) + tc_mode c"

fun add_to_bucket :: "tile_coords \<Rightarrow> (int \<times> tile_coords list) list \<Rightarrow> (int \<times> tile_coords list) list" where
  "add_to_bucket c [] = [(pm_key c, [c])]"
| "add_to_bucket c ((k, cs) # rest) =
     (if k = pm_key c then (k, cs @ [c]) # rest else (k, cs) # add_to_bucket c rest)"

definition partMode :: "tile_coords list \<Rightarrow> (int \<times> tile_coords list) list" where
  "partMode queue =
     (let buckets = fold add_to_bucket queue []
      in js_sort (\<lambda>a b. fst a - fst b) (filter (\<lambda>b. 0 \<le> fst b) buckets) @ filter (\<lambda>b. fst b < 0) buckets)"

text \<open>The inner loop: the coordinates that are requested, each with the wire id of its tile.\<close>

fun request_tiles ::
    "int \<Rightarrow> tile_coords list \<Rightarrow> (tile_coords \<times> int) list \<Rightarrow> tile_manager \<Rightarrow> (tile_coords \<times> int) list \<times> tile_manager" where
  "request_tiles now [] added m = (added, m)"
| "request_tiles now (c # cs) added m =
     (let k = tile_key c
      in if (case get_tile k m of None \<Rightarrow> False | Some t \<Rightarrow> requestingTooFast now t) then request_tiles now cs added m
         else if k \<in> set (map (tile_key \<circ> fst) added) then request_tiles now cs added m
         else request_tiles now cs
                (added @ [(c, case get_tile k m of None \<Rightarrow> 0 | Some t \<Rightarrow> ti_wireId t)])
                (upd_tile k (updateLastRequest (Some now)) m))"

definition send_bucket :: "tile_app \<Rightarrow> int \<Rightarrow> int \<times> tile_coords list \<Rightarrow> tile_manager \<Rightarrow> tile_manager" where
  "send_bucket app now b m =
     (let part = tc_part (hd (snd b)); mode = tc_mode (hd (snd b));
          (added, m1) = request_tiles now (snd b) [] m;
          xs = map (fst \<circ> request_twips app \<circ> fst) added;
          ys = map (snd \<circ> request_twips app \<circ> fst) added;
          wids = map snd added;
          m2 = sendTileCombineMessage app part mode xs ys wids (length added) m1
      in if ta_isWriter app \<and> mode = 2 then sendTileCombineMessage app part 1 xs ys wids (length added) m2 else m2)"

definition sendTileCombineRequestNow :: "tile_app \<Rightarrow> int \<Rightarrow> tile_coords list \<Rightarrow> tile_manager \<Rightarrow> tile_manager" where
  "sendTileCombineRequestNow app now queue m = fold (send_bucket app now) (partMode queue) m"

text \<open>A \<open>Map\<close> keeps the place of the first coordinates of a key and the value of the last.\<close>

definition merge_queue :: "tile_coords list \<Rightarrow> tile_coords list" where
  "merge_queue queue = map snd (fold (\<lambda>c. AList.update (tile_key c) c) queue [])"

definition flushPendingTileCombineQueue :: "tile_app \<Rightarrow> int \<Rightarrow> tile_manager \<Rightarrow> tile_manager" where
  "flushPendingTileCombineQueue app now m =
     (let m1 = m\<lparr>tm_tileCombineFlushTimer := False\<rparr>
      in if tm_pendingTileCombineQueue m1 = [] then m1
         else sendTileCombineRequestNow app now (merge_queue (tm_pendingTileCombineQueue m1))
                (m1\<lparr>tm_pendingTileCombineQueue := [], tm_lastTileCombineFlushTs := now\<rparr>))"

definition sendTileCombineRequest :: "int \<Rightarrow> tile_coords list \<Rightarrow> tile_manager \<Rightarrow> tile_manager" where
  "sendTileCombineRequest now queue m =
     (if queue = [] then m
      else
        let m1 = m\<lparr>tm_pendingTileCombineQueue := tm_pendingTileCombineQueue m @ queue\<rparr>;
            delayMs = max 0 (45 - (now - tm_lastTileCombineFlushTs m1))
        in if tm_tileCombineFlushTimer m1 then m1
           else (effect (StartFlushTimer delayMs) m1)\<lparr>tm_tileCombineFlushTimer := True\<rparr>)"

definition sendProcessedResponse :: "int \<Rightarrow> tile_manager \<Rightarrow> tile_manager" where
  "sendProcessedResponse now m =
     (let toSend = tm_queuedProcessed m;
          m1 = m\<lparr>tm_queuedProcessed := []\<rparr>;
          m2 = (if toSend \<noteq> []
                then effect (SendMessage (''tileprocessed wids='' @ join_with '','' (map show_int toSend))) m1 else m1)
      in if tm_fetchKeyframeQueue m2 \<noteq> []
         then (sendTileCombineRequest now (tm_fetchKeyframeQueue m2) m2)\<lparr>tm_fetchKeyframeQueue := []\<rparr>
         else m2)"

subsection \<open>Requesting the tiles of a queue\<close>

definition irrelevant :: "tile_app \<Rightarrow> tile_manager \<Rightarrow> tile_coords \<Rightarrow> bool" where
  "irrelevant app m c \<longleftrightarrow>
     tc_part c \<noteq> ta_selectedPart app \<or> tc_mode c \<notin> set (ta_activeModes app) \<or> \<not> tileNeedsFetch (tile_key c) m"

text \<open>
  The loop of \<open>removeIrrelevantsFromCoordsQueue\<close> runs from the end of the queue down to its
  second element; the first is not looked at.
\<close>

fun keep_relevant ::
    "tile_app \<Rightarrow> tile_coords list \<Rightarrow> tile_coords list \<Rightarrow> tile_manager \<Rightarrow> tile_coords list \<times> tile_manager" where
  "keep_relevant app [] kept m = (kept, m)"
| "keep_relevant app (c # cs) kept m =
     (if irrelevant app m c then keep_relevant app cs kept m
      else if ta_moveInProgress app then
        if tile_key c \<in> set (tm_moveTileRequests m) then keep_relevant app cs kept m
        else keep_relevant app cs (c # kept) (m\<lparr>tm_moveTileRequests := tm_moveTileRequests m @ [tile_key c]\<rparr>)
      else keep_relevant app cs (c # kept) m)"

definition removeIrrelevantsFromCoordsQueue ::
    "tile_app \<Rightarrow> tile_coords list \<Rightarrow> tile_manager \<Rightarrow> tile_coords list \<times> tile_manager" where
  "removeIrrelevantsFromCoordsQueue app queue m =
     (case queue of
        [] \<Rightarrow> ([], m)
      | c # cs \<Rightarrow> (let (kept, m') = keep_relevant app (rev cs) [] m in (c # kept, m')))"

definition ensure_tile :: "tile_app \<Rightarrow> bool \<Rightarrow> tile_coords \<Rightarrow> tile_manager \<Rightarrow> tile_manager" where
  "ensure_tile app isCurrent c m =
     (if get_tile (tile_key c) m \<noteq> None then m
      else
        let m1 = createTile c m
        in if isCurrent then m1 else updateTileDistance app (tile_key c) (ta_zoom app) m1)"

definition row_cmp :: "tile_coords \<Rightarrow> tile_coords \<Rightarrow> int" where
  "row_cmp a b = (if tc_y a \<noteq> tc_y b then tc_y a - tc_y b else tc_x a - tc_x b)"

text \<open>
  The inner loop that groups coordinates into an area: \<open>(bx, by)\<close> is the bound, \<open>skipped\<close> the
  coordinates passed over, in reverse. The result is the area and the remaining queue.
\<close>

fun take_rect ::
    "int \<Rightarrow> int \<Rightarrow> int \<Rightarrow> bool \<Rightarrow> bool \<Rightarrow> tile_coords list \<Rightarrow> tile_coords list \<Rightarrow> tile_coords list \<Rightarrow>
     tile_coords list \<times> tile_coords list" where
  "take_rect ts bx by' rowLocked hasHole skipped rect [] = (rect, rev skipped)"
| "take_rect ts bx by' rowLocked hasHole skipped rect (c # rest) =
     (let ext = (\<not> hasHole \<and> tc_y c = by' + ts);
          locked = (rowLocked \<or> ext);
          by1 = (if ext then by' + ts else by')
      in if tc_y c > by1 then (rect, rev skipped @ c # rest)
         else if \<not> locked then
           if tc_y c = by1 \<and> tc_x c = bx + ts
           then take_rect ts (bx + ts) by1 locked hasHole skipped (rect @ [c]) rest
           else take_rect ts bx by1 True hasHole (c # skipped) rect rest
         else if tc_x c \<le> bx \<and> tc_y c \<le> by1 then take_rect ts bx by1 locked hasHole skipped (rect @ [c]) rest
         else take_rect ts bx by1 locked True (c # skipped) rect rest)"

lemma take_rect_mset:
  "mset (fst (take_rect ts bx by' rowLocked hasHole skipped rect cs)) +
   mset (snd (take_rect ts bx by' rowLocked hasHole skipped rect cs)) = mset rect + mset skipped + mset cs"
  by (induction cs arbitrary: bx by' rowLocked hasHole skipped rect) (simp_all add: Let_def)

lemma take_rect_grows:
  "length rect \<le> length (fst (take_rect ts bx by' rowLocked hasHole skipped rect cs))"
proof (induction cs arbitrary: bx by' rowLocked hasHole skipped rect)
  case (Cons c rest)
  have "length rect \<le> length (fst (take_rect ts bx by' l h skipped (rect @ [c]) rest))" for bx by' l h
    using Cons.IH [of "rect @ [c]" bx by' l h skipped] by simp
  with Cons.IH show ?case by (simp add: Let_def)
qed simp

lemma take_rect_shorter:
  assumes "take_rect ts bx by' rowLocked hasHole [] [c] cs = (r, rest)"
  shows "length rest \<le> length cs"
proof -
  have "1 \<le> length r"
    using take_rect_grows [of "[c]" ts bx by' rowLocked hasHole "[]" cs] by (simp add: assms)
  moreover have "size (mset r + mset rest) = size (mset [c] + mset cs)"
    using take_rect_mset [of ts bx by' rowLocked hasHole "[]" "[c]" cs] by (simp add: assms)
  ultimately show ?thesis by simp
qed

function group_rects :: "int \<Rightarrow> tile_coords list \<Rightarrow> tile_coords list list" where
  "group_rects ts [] = []"
| "group_rects ts (c # cs) =
     (let (rect, rest) = take_rect ts (tc_x c) (tc_y c) False False [] [c] cs in rect # group_rects ts rest)"
  by pat_completeness auto
termination
  by (relation "measure (\<lambda>(ts, cs). length cs)") (auto dest: take_rect_shorter [OF sym])

definition initPreFetchPartTiles :: "tile_app \<Rightarrow> tile_manager \<Rightarrow> tile_manager" where
  "initPreFetchPartTiles app m =
     (let targetPart = ta_selectedPart app + ta_partsDirection app
      in if targetPart < 0 \<or> targetPart \<ge> ta_parts app then m
         else effect (StartPartTimer targetPart (ta_activeModes app)) m)"

definition addTiles :: "tile_app \<Rightarrow> int \<Rightarrow> tile_coords list \<Rightarrow> bool \<Rightarrow> tile_manager \<Rightarrow> tile_manager" where
  "addTiles app now coordsQueue isCurrent m =
     (let (queue, m1) = removeIrrelevantsFromCoordsQueue app coordsQueue m;
          m2 = fold (ensure_tile app isCurrent) queue m1;
          rectangles = group_rects (ta_tileSize app) (js_sort row_cmp queue);
          m3 = fold (sendTileCombineRequest now) rectangles m2
      in if ta_isPresentation app then initPreFetchPartTiles app m3 else m3)"

end
