(* ===== verification/Tile_View.thy ===== *)
theory Tile_View
  imports Tile_Requests "HOL-Library.Product_Lexorder"
begin

section \<open>The tiles of the view\<close>

text \<open>
  The part of \<open>TileManager\<close> of \<open>browser/src/app/TilesMiddleware.ts\<close> that decides which tiles the
  view needs: the tiles of the visible area that are missing, the file based view, and the
  prefetching of tiles around the view. The map, its layer and the active layout exist when these
  functions run; \<open>app.activeDocument.activeLayout\<close> may not, as \<open>ta_hasLayout\<close> says.
\<close>

subsection \<open>Missing tiles\<close>

definition pxBoundsToTileRanges :: "tile_app \<Rightarrow> bounds \<Rightarrow> bounds list" where
  "pxBoundsToTileRanges app b =
     (case ta_pxBoundList app of
        None \<Rightarrow> [pxBoundsToTileRange app b]
      | Some getPxBoundList \<Rightarrow> map (pxBoundsToTileRange app) (getPxBoundList b))"

definition updateDistances :: "tile_app \<Rightarrow> int \<Rightarrow> tile_manager \<Rightarrow> tile_manager" where
  "updateDistances app zoom m =
     sortTileBitmapList (fold (\<lambda>k. updateTileDistance app k zoom) (map fst (tm_tiles m)) m)"

fun check_tiles :: "tile_coords list \<Rightarrow> tile_coords list \<Rightarrow> tile_manager \<Rightarrow> js_error + tile_coords list \<times> tile_manager" where
  "check_tiles [] queue m = Inr (queue, m)"
| "check_tiles (c # cs) queue m =
     (let m1 = createTile c m
      in if tileNeedsFetch (tile_key c) m1 then check_tiles cs (queue @ [c]) m1
         else sum_bind (makeTileCurrent (tile_key c) m1) (\<lambda>(pending, m2). check_tiles cs queue m2))"

definition checkRequestTiles ::
    "int \<Rightarrow> tile_coords list \<Rightarrow> bool \<Rightarrow> tile_manager \<Rightarrow> js_error + tile_coords list \<times> tile_manager" where
  "checkRequestTiles now currentCoordList sendTileCombine m =
     sum_bind (check_tiles currentCoordList [] m) (\<lambda>(queue, m1).
       Inr (queue, if sendTileCombine then sendTileCombineRequest now queue m1 else m1))"

text \<open>The loops over the ranges of tiles: what has no content is queued, the rest made current.\<close>

fun missing_loop ::
    "tile_app \<Rightarrow> bool \<Rightarrow> tile_coords list \<Rightarrow> tile_coords list \<Rightarrow> tile_manager \<Rightarrow>
     js_error + tile_coords list \<times> tile_manager" where
  "missing_loop app isCurrent [] queue m = Inr (queue, m)"
| "missing_loop app isCurrent (c # cs) queue m =
     (if \<not> isValidTile app c then missing_loop app isCurrent cs queue m
      else if tileNeedsFetch (tile_key c) m then missing_loop app isCurrent cs (queue @ [c]) m
      else if isCurrent then
        sum_bind (makeTileCurrent (tile_key c) m) (\<lambda>(pending, m1). missing_loop app isCurrent cs queue m1)
      else missing_loop app isCurrent cs queue m)"

definition view_coords :: "tile_app \<Rightarrow> int \<Rightarrow> bool \<Rightarrow> bounds list \<Rightarrow> tile_coords list" where
  "view_coords app zoom expand ranges =
     concat (map (\<lambda>r. range_coords app zoom (ta_selectedPart app) (case ta_activeModes app of [] \<Rightarrow> 0 | mode # _ \<Rightarrow> mode)
                        (if expand then expandTileRange app r else r)) ranges)"

definition getMissingTiles ::
    "tile_app \<Rightarrow> int \<Rightarrow> bounds \<Rightarrow> int \<Rightarrow> bool \<Rightarrow> tile_manager \<Rightarrow> js_error + tile_coords list \<times> tile_manager" where
  "getMissingTiles app now pixelBounds zoom isCurrent m =
     (if \<not> ta_hasLayout app then Inr ([], m)
      else if ta_compareChanges app \<or> ta_multiPage app then
        sum_bind (checkRequestTiles now (ta_currentCoordList app) False (beginTransaction m))
          (\<lambda>(queue, m1). Inr (queue, endTransaction app None m1))
      else
        let tileRanges = pxBoundsToTileRanges app pixelBounds;
            m1 = (if isCurrent then updateDistances app zoom m else m);
            coords = view_coords app zoom (isCurrent \<and> \<not> tm_shrinkCurrentId m1) tileRanges
        in sum_bind (missing_loop app isCurrent coords [] (beginTransaction m1))
             (\<lambda>(queue, m2). Inr (queue, endTransaction app None m2)))"

definition predictTilesToSlurp :: "tile_app \<Rightarrow> int \<Rightarrow> tile_manager \<Rightarrow> js_error + nat \<times> tile_manager" where
  "predictTilesToSlurp app now m =
     (if fst (ta_mapSize app) = 0 \<or> snd (ta_mapSize app) = 0 then Inr (0, m)
      else sum_bind (getMissingTiles app now (ta_pixelBounds app) (ta_zoom app) False m)
             (\<lambda>(queue, m1). Inr (length queue, m1)))"

definition updateOnChangePart :: "tile_app \<Rightarrow> int \<Rightarrow> tile_manager \<Rightarrow> js_error + tile_manager" where
  "updateOnChangePart app now m =
     (if \<not> ta_hasLayout app \<or> \<not> ta_documentInfo app then Inr m
      else sum_bind (getMissingTiles app now (ta_pixelBounds app) (ta_zoom app) True m) (\<lambda>(queue, m1).
        let m2 = (if queue \<noteq> [] then sendTileCombineRequest now queue (fold createTile queue m1) else m1)
        in Inr (if ta_isPresentation app then initPreFetchPartTiles app m2 else m2)))"

subsection \<open>The file based view\<close>

definition switchTiles :: "tile_coords \<Rightarrow> tile_coords \<Rightarrow> bool" where
  "switchTiles a b =
     (if tc_part a = tc_part b then
        if tc_y a > tc_y b then True else if tc_y a = tc_y b then tc_x a > tc_x b else False
      else tc_part a > tc_part b)"

text \<open>
  The inner loop of \<open>sortFileBasedQueue\<close> compares the element at \<open>i\<close> with each later one and
  exchanges them when they are in the wrong order.
\<close>

fun exchange_loop :: "tile_coords \<Rightarrow> tile_coords list \<Rightarrow> tile_coords \<times> tile_coords list" where
  "exchange_loop a [] = (a, [])"
| "exchange_loop a (b # bs) =
     (if switchTiles a b then let (a', bs') = exchange_loop b bs in (a', a # bs')
      else let (a', bs') = exchange_loop a bs in (a', b # bs'))"

lemma length_exchange_loop: "exchange_loop a bs = (a', bs') \<Longrightarrow> length bs' = length bs"
  by (induction a bs arbitrary: a' bs' rule: exchange_loop.induct) (auto split: if_splits prod.splits)

function sortFileBasedQueue :: "tile_coords list \<Rightarrow> tile_coords list" where
  "sortFileBasedQueue [] = []"
| "sortFileBasedQueue (a # rest) =
     (let (a', rest') = exchange_loop a rest in a' # sortFileBasedQueue rest')"
  by pat_completeness auto
termination
  by (relation "measure length") (auto dest: length_exchange_loop [OF sym])

text \<open>The values of a loop variable from \<open>a\<close> to \<open>b\<close> in steps of the positive size of a tile.\<close>

definition step_range :: "int \<Rightarrow> int \<Rightarrow> int \<Rightarrow> int list" where
  "step_range a b p = map (\<lambda>i. a + i * p) [0..(b - a) div p]"

definition fileBasedQueue :: "tile_app \<Rightarrow> int \<Rightarrow> num \<Rightarrow> tile_coords list option" where
  "fileBasedQueue app zoom relScale =
     (let ratio = of_int (ta_tileSize app) * relScale / of_int (snd (ta_tileTwips app)) :: num;
          partHeightPixels = js_round ((snd (ta_partSizeTwips app) + ta_spaceBetweenParts app) * ratio);
          partWidthPixels = js_round (fst (ta_partSizeTwips app) * ratio);
          (pX, pY) = ta_tilePx app;
          view = ta_viewedPx app
      in case getIntersectionRectangle view
                \<lparr>r_x = 0, r_y = 0, r_w = of_int partWidthPixels, r_h = of_int (partHeightPixels * ta_parts app)\<rparr> of
           None \<Rightarrow> None
         | Some r \<Rightarrow>
             let minLocalX = \<lfloor>r_x r / of_int pX\<rfloor> * pX;
                 maxLocalX = \<lfloor>(r_x r + r_w r) / of_int pX\<rfloor> * pX;
                 startPart = \<lfloor>r_y r / of_int partHeightPixels\<rfloor>;
                 startY = \<lfloor>(r_y view - of_int (startPart * partHeightPixels)) / of_int pY\<rfloor> * pY;
                 endPart = \<lceil>(r_y r + r_h r) / of_int partHeightPixels\<rceil>;
                 vTileCountPerPart = \<lceil>of_int partHeightPixels / (of_int pY :: num)\<rceil>
             in Some (concat (map (\<lambda>i. concat (map (\<lambda>j.
                    map (\<lambda>k. TileCoordData app j k (Some zoom) (Some i) (Some 0))
                      (filter (\<lambda>k. i \<noteq> startPart \<or> k \<ge> startY) (step_range 0 (vTileCountPerPart * pX) pY)))
                  (step_range minLocalX maxLocalX pX))) [startPart..endPart - 1])))"

fun make_current :: "tile_coords list \<Rightarrow> tile_manager \<Rightarrow> js_error + tile_manager" where
  "make_current [] m = Inr m"
| "make_current (c # cs) m =
     (if get_tile (tile_key c) m = None then make_current cs m
      else sum_bind (makeTileCurrent (tile_key c) m) (\<lambda>(pending, m1). make_current cs m1))"

fun create_missing :: "tile_coords list \<Rightarrow> tile_coords list \<Rightarrow> tile_manager \<Rightarrow> tile_coords list \<times> tile_manager" where
  "create_missing [] queue m = (queue, m)"
| "create_missing (c # cs) queue m =
     (let m1 = createTile c m
      in create_missing cs (if tileNeedsFetch (tile_key c) m1 then queue @ [c] else queue) m1)"

definition show_file_based :: "tile_app \<Rightarrow> tile_coords list \<Rightarrow> tile_manager \<Rightarrow> js_error + tile_manager" where
  "show_file_based app queue m =
     (let m1 = fold (\<lambda>k. upd_tile k (\<lambda>t. t\<lparr>ti_distanceFromView := max_safe_integer\<rparr>)) (map fst (tm_tiles m)) m
      in sum_bind (make_current queue (beginTransaction m1))
           (\<lambda>m2. Inr (sortTileBitmapList (endTransaction app None m2))))"

definition request_file_based :: "int \<Rightarrow> tile_coords list \<Rightarrow> tile_manager \<Rightarrow> tile_manager" where
  "request_file_based now queue m =
     (let (tileCombineQueue, m1) = create_missing queue [] (effect SendClientZoom (effect SendClientVisibleArea m))
      in sendTileCombineRequest now tileCombineQueue m1)"

text \<open>
  \<open>updateFileBasedView\<close>; \<open>forZoom\<close> is a zoom with its scale relative to the current one. The
  comparison with \<open>endPart\<close> in the loop always holds, so \<open>endY\<close> has no part in the model.
\<close>

definition updateFileBasedView ::
    "tile_app \<Rightarrow> int \<Rightarrow> bool \<Rightarrow> (int \<times> num) option \<Rightarrow> tile_manager \<Rightarrow> js_error + tile_coords list \<times> tile_manager" where
  "updateFileBasedView app now checkOnly forZoom m =
     (if \<not> ta_hasLayout app \<or> snd (ta_partSizeTwips app) = 0 \<or> ta_isZooming app then Inr ([], m)
      else
        let (zoom, relScale) = (case forZoom of None \<Rightarrow> (ta_zoom app, 1) | Some z \<Rightarrow> z);
            queue = (case fileBasedQueue app zoom relScale of None \<Rightarrow> [] | Some q \<Rightarrow> sortFileBasedQueue q)
        in sum_bind (if fileBasedQueue app zoom relScale = None then Inr m else show_file_based app queue m)
             (\<lambda>m1. Inr (if checkOnly then (queue, m1) else ([], request_file_based now queue m1))))"

definition updateAllTileDistances :: "tile_app \<Rightarrow> int \<Rightarrow> tile_manager \<Rightarrow> js_error + tile_manager" where
  "updateAllTileDistances app now m =
     (if ta_fileBased app then sum_bind (updateFileBasedView app now True None m) (\<lambda>(queue, m1). Inr m1)
      else Inr (updateDistances app (ta_zoom app) m))"

definition pruneTiles :: "tile_app \<Rightarrow> int \<Rightarrow> tile_manager \<Rightarrow> js_error + tile_manager" where
  "pruneTiles app now m = sum_bind (updateAllTileDistances app now m) (\<lambda>m1. Inr (garbageCollect False m1))"

definition discardAllCache :: "tile_app \<Rightarrow> int \<Rightarrow> tile_manager \<Rightarrow> js_error + tile_manager" where
  "discardAllCache app now m =
     sum_bind (updateAllTileDistances app now m) (\<lambda>m1. Inr (reclaimGraphicsMemory (garbageCollect True m1)))"

subsection \<open>Updating the view\<close>

text \<open>\<open>updateProperties\<close>: what the prefetching depends on, and whether it has changed.\<close>

definition updateProperties :: "tile_app \<Rightarrow> tile_manager \<Rightarrow> bool \<times> tile_manager" where
  "updateProperties app m =
     (let zoomChanged = (tm_zoom m \<noteq> Some (ta_zoom app));
          partChanged = (tm_preFetchPart m \<noteq> Some (ta_selectedPart app));
          modeChanged = (\<not> list_all (\<lambda>i. i \<in> set (tm_preFetchMode m)) (ta_activeModes app));
          permChanged = (tm_hasEditPerm m \<noteq> Some (ta_editMode app));
          boundsChanged = (case tm_pixelBounds m of None \<Rightarrow> True | Some b \<Rightarrow> \<not> Bounds_equals (ta_pixelBounds app) b);
          splitChanged = (case tm_splitPos m of None \<Rightarrow> True | Some p \<Rightarrow> \<not> Point_equals (ta_splitPos app) p)
      in (zoomChanged \<or> partChanged \<or> modeChanged \<or> permChanged \<or> boundsChanged \<or> splitChanged,
          m\<lparr>tm_zoom := Some (ta_zoom app), tm_preFetchPart := Some (ta_selectedPart app),
            tm_preFetchMode := (if modeChanged then ta_activeModes app else tm_preFetchMode m),
            tm_hasEditPerm := Some (ta_editMode app),
            tm_pixelBounds := (if boundsChanged then Some (ta_pixelBounds app) else tm_pixelBounds m),
            tm_splitPos := (if splitChanged then Some (ta_splitPos app) else tm_splitPos m)\<rparr>))"

definition initPreFetchAdjacentTiles :: "tile_app \<Rightarrow> tile_manager \<Rightarrow> tile_manager" where
  "initPreFetchAdjacentTiles app m = effect StartAdjacentTimer (snd (updateProperties app m))"

text \<open>
  The centre and the zoom of \<open>update\<close>, where they are given, with the bounds that the map computes for them
  (\<open>getPixelBoundsCore\<close>); else those of the view.
\<close>

definition update :: "tile_app \<Rightarrow> int \<Rightarrow> (bounds \<times> int) option \<Rightarrow> tile_manager \<Rightarrow> js_error + tile_manager" where
  "update app now view m =
     (if \<not> ta_documentInfo app \<or> \<not> ta_canonicalIdInitialized app then Inr m
      else if \<not> ta_hasLayout app then Inr m
      else if ta_isCalc app \<and> \<not> ta_gotFirstCellCursor app then Inr m
      else if fst (ta_mapSize app) = 0 \<or> snd (ta_mapSize app) = 0 then Inr (effect StartUpdateTimer m)
      else
        let m1 = (if tm_pausedForCoherency m then (effect StartShrinkTimer m)\<lparr>tm_shrinkCurrentId := True\<rparr> else m)
        in if ta_fileBased app then sum_bind (updateFileBasedView app now False None m1) (\<lambda>(q, m2). Inr m2)
           else if ta_multiPage app then Inr m1
           else let (pixelBounds, zoom) = (case view of None \<Rightarrow> (ta_pixelBounds app, ta_zoom app) | Some v \<Rightarrow> v)
                in sum_bind (getMissingTiles app now pixelBounds zoom True m1) (\<lambda>(queue, m2).
             let m3 = effect SendClientVisibleArea (effect SendClientZoom m2);
                 m4 = (if queue \<noteq> [] then addTiles app now queue True m3 else m3)
             in Inr (if ta_isCalc app \<or> ta_isWriter app then initPreFetchAdjacentTiles app m4 else m4)))"

definition redraw :: "tile_app \<Rightarrow> int \<Rightarrow> tile_manager \<Rightarrow> js_error + tile_manager" where
  "redraw app now m = update app now None (removeAllTiles m)"

definition onWorkerError :: "tile_app \<Rightarrow> int \<Rightarrow> tile_manager \<Rightarrow> js_error + tile_manager" where
  "onWorkerError app now m =
     redraw app now (run_callbacks (m\<lparr>tm_pendingDeltas := [], tm_nPendingWorkerTasks := 0\<rparr>))"

definition overlapInvalidatedRectangleWithView ::
    "tile_app \<Rightarrow> int \<Rightarrow> int \<Rightarrow> int \<Rightarrow> int \<Rightarrow> simple_rectangle \<Rightarrow> tile_manager \<Rightarrow> js_error + tile_manager" where
  "overlapInvalidatedRectangleWithView app now part mode wireId rect m =
     (if \<not> ta_hasLayout app then Inl TypeError
      else
        let (m1, needsNewTiles) = invalidate_overlapping app part mode wireId rect m
        in if needsNewTiles \<and> ta_isAndroid app \<and> ta_isWriter app then update app now None m1 else Inr m1)"

end
