(* ===== verification/Tile_Prefetch.thy ===== *)
theory Tile_Prefetch
  imports Tile_View
begin

section \<open>Prefetching tiles\<close>

text \<open>
  The part of \<open>TileManager\<close> of \<open>browser/src/app/TilesMiddleware.ts\<close> that requests tiles around the
  view while the user is idle: \<open>preFetchTiles\<close> walks outwards from each pane in borders of one
  tile, \<open>preFetchPartTiles\<close> requests the tiles of a neighbouring slide, and the adjacent tiles are
  those in the direction of scrolling.
\<close>

subsection \<open>Borders\<close>

definition PaneBorder :: "bounds \<Rightarrow> bool \<Rightarrow> bool \<Rightarrow> pane_border" where
  "PaneBorder paneBorder paneXFixed paneYFixed =
     \<lparr>pb_border = paneBorder, pb_xFixed = paneXFixed, pb_yFixed = paneYFixed, pb_index = 0\<rparr>"

text \<open>
  The panes that are fixed in both directions have no border. The lists of the bounds and of the properties are
  those of one context and have the same length (lemma \<open>bound_list_panes\<close>); without a status for a range the code
  would throw.
\<close>

definition computeBorders :: "tile_app \<Rightarrow> bounds \<Rightarrow> pane_border list" where
  "computeBorders app pixelBounds =
     map (\<lambda>(r, xFixed, yFixed).
         PaneBorder (Bounds (Point_add (bd_min r) \<lparr>pt_x = -1, pt_y = -1\<rparr>) (Point_add (bd_max r) \<lparr>pt_x = 1, pt_y = 1\<rparr>))
           xFixed yFixed)
       (filter (\<lambda>(r, xFixed, yFixed). \<not> (xFixed \<and> yFixed))
         (zip (pxBoundsToTileRanges app pixelBounds) (ta_panesProperties app)))"

definition getMaxTileCountToPrefetch :: "tile_app \<Rightarrow> tile_manager \<Rightarrow> nat" where
  "getMaxTileCountToPrefetch app m =
     (let tileSize = of_int (ta_tileSize app) :: num;
          viewTileWidth = \<lfloor>(fst (ta_sectionSize app) + tileSize - 1) / tileSize\<rfloor>;
          viewTileHeight = \<lfloor>(snd (ta_sectionSize app) + tileSize - 1) / tileSize\<rfloor>;
          edit = (tm_hasEditPerm m = Some True);
          count = \<lceil>of_int (viewTileWidth * viewTileHeight) / (4 :: num)\<rceil> * (if edit then 1 else 4)
      in nat (if ta_isIOS app then min count (if edit then 6 else 12) else count))"

subsection \<open>The tiles of a border\<close>

definition border_sides :: "bounds \<Rightarrow> pane_border \<Rightarrow> bool \<times> bool \<times> bool \<times> bool" where
  "border_sides validTileRange p =
     (let b = pb_border p; c = Bounds_clamp_bounds validTileRange b
      in (\<not> pb_yFixed p \<and> pt_y (bd_max b) = pt_y (bd_max c), \<not> pb_yFixed p \<and> pt_y (bd_min b) = pt_y (bd_min c),
          \<not> pb_xFixed p \<and> pt_x (bd_max b) = pt_x (bd_max c), \<not> pb_xFixed p \<and> pt_x (bd_min b) = pt_x (bd_min c)))"

definition side_coords :: "tile_app \<Rightarrow> tile_manager \<Rightarrow> (num \<times> num) list \<Rightarrow> tile_coords list" where
  "side_coords app m positions =
     concat (map (\<lambda>(x, y). map (\<lambda>mode. TileCoordData app (\<lfloor>x\<rfloor> * ta_tileSize app) (\<lfloor>y\<rfloor> * ta_tileSize app)
         (tm_zoom m) (tm_preFetchPart m) (Some mode)) (tm_preFetchMode m)) positions)"

text \<open>The coordinates below, above, right and left of the visited area; the bounds are integers.\<close>

definition border_coords :: "tile_app \<Rightarrow> tile_manager \<Rightarrow> bounds \<Rightarrow> pane_border \<Rightarrow> tile_coords list" where
  "border_coords app m validTileRange p =
     (let b = pb_border p; c = Bounds_clamp_bounds validTileRange b;
          (bottom, above, right, left) = border_sides validTileRange p;
          xs = map of_int (int_range (pt_x (bd_min c)) (pt_x (bd_max c)));
          ys = map of_int (int_range (pt_y (bd_min c)) (pt_y (bd_max c)))
      in side_coords app m
           ((if bottom then map (\<lambda>x. (x, pt_y (bd_max b))) xs else []) @
            (if above then map (\<lambda>x. (x, pt_y (bd_min b))) xs else []) @
            (if right then map (\<lambda>y. (pt_x (bd_max b), y)) ys else []) @
            (if left then map (\<lambda>y. (pt_x (bd_min b), y)) ys else [])))"

text \<open>
  The loop over the queue of a pane: the tiles to fetch so far, how many more are allowed, and
  whether one had to be left out.
\<close>

fun select_tiles ::
    "tile_app \<Rightarrow> tile_manager \<Rightarrow> tile_coords list \<Rightarrow> tile_coords list \<times> nat \<times> bool \<Rightarrow> tile_coords list \<times> nat \<times> bool" where
  "select_tiles app m [] st = st"
| "select_tiles app m (c # cs) (final, left, pending) =
     (if tile_key c \<in> set (map tile_key final) \<or> \<not> isValidTile app c \<or> \<not> tileNeedsFetch (tile_key c) m
      then select_tiles app m cs (final, left, pending)
      else if left > 0 then select_tiles app m cs (final @ [c], left - 1, pending)
      else select_tiles app m cs (final, left, True))"

definition widen_border :: "bounds \<Rightarrow> pane_border \<Rightarrow> pane_border" where
  "widen_border validTileRange p =
     (let b = pb_border p; mn = bd_min b; mx = bd_max b; vmax = bd_max validTileRange;
          x1 = (if \<not> pb_xFixed p \<and> pt_x mn > 0 then pt_x mn - 1 else pt_x mn);
          x2 = (if \<not> pb_xFixed p \<and> pt_x mx < pt_x vmax then pt_x mx + 1 else pt_x mx);
          y1 = (if \<not> pb_yFixed p \<and> pt_y mn > 0 then pt_y mn - 1 else pt_y mn);
          y2 = (if \<not> pb_yFixed p \<and> pt_y mx < pt_y vmax then pt_y mx + 1 else pt_y mx)
      in p\<lparr>pb_border := \<lparr>bd_min = \<lparr>pt_x = x1, pt_y = y1\<rparr>, bd_max = \<lparr>pt_x = x2, pt_y = y2\<rparr>\<rparr>,
           pb_index := pb_index p + 1\<rparr>)"

text \<open>
  The borders of a pane. The queue of the pane keeps the coordinates of all its borders. When a
  tile is pending, none is left to fetch and the loop ends.
\<close>

function pane_loop ::
    "tile_app \<Rightarrow> tile_manager \<Rightarrow> bounds \<Rightarrow> nat \<Rightarrow> tile_coords list \<Rightarrow> pane_border \<Rightarrow> tile_coords list \<Rightarrow> nat \<Rightarrow>
     pane_border \<times> tile_coords list \<times> nat" where
  "pane_loop app m valid maxBorderWidth queue p final left =
     (if left > 0 \<and> pb_index p < maxBorderWidth \<and> border_sides valid p \<noteq> (False, False, False, False) then
        let queue' = queue @ border_coords app m valid p;
            (final', left', pending) = select_tiles app m queue' (final, left, False)
        in if pending then (p, final', left')
           else pane_loop app m valid maxBorderWidth queue' (widen_border valid p) final' left'
      else (p, final, left))"
  by pat_completeness auto
termination
  by (relation "measure (\<lambda>(app, m, valid, w, queue, p, final, left). w - pb_index p)")
    (auto simp: widen_border_def Let_def)

declare pane_loop.simps [simp del]

fun panes_loop ::
    "tile_app \<Rightarrow> tile_manager \<Rightarrow> bounds \<Rightarrow> nat \<Rightarrow> pane_border list \<Rightarrow> tile_coords list \<Rightarrow> nat \<Rightarrow>
     pane_border list \<times> tile_coords list" where
  "panes_loop app m valid maxBorderWidth [] final left = ([], final)"
| "panes_loop app m valid maxBorderWidth (p # ps) final left =
     (let (p', final', left') = pane_loop app m valid maxBorderWidth [] p final left;
          (ps', final'') = panes_loop app m valid maxBorderWidth ps final' left'
      in (p' # ps', final''))"

definition validTileRange :: "tile_app \<Rightarrow> bounds" where
  "validTileRange app =
     Bounds \<lparr>pt_x = 0, pt_y = 0\<rparr>
       \<lparr>pt_x = of_int \<lfloor>(fst (ta_fileSize app) - 1) / of_int (fst (ta_tileTwips app))\<rfloor>,
        pt_y = of_int \<lfloor>(snd (ta_fileSize app) - 1) / of_int (snd (ta_tileTwips app))\<rfloor>\<rparr>"

definition clearTilesPreFetcher :: "tile_manager \<Rightarrow> tile_manager" where
  "clearTilesPreFetcher m =
     (if tm_tilesPreFetcher m then (effect StopPreFetchTimer m)\<lparr>tm_tilesPreFetcher := False\<rparr> else m)"

text \<open>The queue of \<open>preFetchTiles\<close>, the borders after it, and whether all panes are done.\<close>

definition prefetch_queue :: "tile_app \<Rightarrow> tile_manager \<Rightarrow> tile_coords list \<times> pane_border list \<times> bool" where
  "prefetch_queue app m =
     (let maxBorderWidth = (if tm_hasEditPerm m = Some True then 10 else 40);
          (borders, final) = panes_loop app m (validTileRange app) maxBorderWidth (tm_borders m) []
            (getMaxTileCountToPrefetch app m)
      in (final, borders, list_all (\<lambda>p. pb_index p \<ge> maxBorderWidth) borders))"

definition preFetchTiles :: "tile_app \<Rightarrow> int \<Rightarrow> bool \<Rightarrow> tile_manager \<Rightarrow> js_error + tile_manager" where
  "preFetchTiles app now forceBorderCalc m =
     sum_bind (if ta_fileBased app then sum_bind (updateFileBasedView app now False None m) (\<lambda>(q, m1). Inr m1) else Inr m)
       (\<lambda>m1.
          if tm_emptyTilesCount m1 > 0 \<or> \<not> ta_canonicalIdInitialized app then Inr m1
          else
            let (propertiesUpdated, m2) = updateProperties app m1;
                m3 = (if propertiesUpdated \<or> forceBorderCalc \<or> tm_borders m2 = []
                      then m2\<lparr>tm_borders := computeBorders app (case tm_pixelBounds m2 of Some b \<Rightarrow> b | None \<Rightarrow> ta_pixelBounds app)\<rparr>
                      else m2);
                (finalQueue, borders, doneAllPanes) = prefetch_queue app m3;
                m4 = m3\<lparr>tm_borders := borders\<rparr>;
                m5 = (if finalQueue \<noteq> []
                      then addTiles app now finalQueue False (m4\<lparr>tm_cumTileCount := tm_cumTileCount m4 + length finalQueue\<rparr>)
                      else m4)
            in Inr (if finalQueue = [] \<or> doneAllPanes then (clearTilesPreFetcher m5)\<lparr>tm_borders := []\<rparr> else m5))"

definition clearPreFetch :: "tile_manager \<Rightarrow> tile_manager" where
  "clearPreFetch m = (clearTilesPreFetcher m)\<lparr>tm_preFetchIdle := False\<rparr>"

text \<open>The timer of \<open>resetPreFetching\<close> carries its delay and the interval of the prefetching.\<close>

definition resetPreFetching :: "tile_app \<Rightarrow> bool \<Rightarrow> tile_manager \<Rightarrow> tile_manager" where
  "resetPreFetching app resetBorder m =
     (let m1 = clearPreFetch m;
          m2 = (if resetBorder then m1\<lparr>tm_borders := []\<rparr> else m1);
          (interval, idleTime) = (if ta_isIOS app then (900, 1600) else (250, 750));
          m3 = m2\<lparr>tm_preFetchPart := Some (ta_selectedPart app), tm_preFetchMode := ta_activeModes app, tm_preFetchIdle := True\<rparr>
      in effect (StartIdleTimer idleTime interval) m3)"

definition onPreFetchIdle :: "tile_manager \<Rightarrow> tile_manager" where
  "onPreFetchIdle m = m\<lparr>tm_tilesPreFetcher := True, tm_preFetchIdle := False, tm_cumTileCount := 0\<rparr>"

subsection \<open>Neighbouring slides and adjacent tiles\<close>

definition part_queue :: "tile_app \<Rightarrow> tile_manager \<Rightarrow> int \<Rightarrow> int \<Rightarrow> bounds \<Rightarrow> tile_coords list" where
  "part_queue app m part mode tileRange =
     filter (\<lambda>c. isValidTile app c \<and> tileNeedsFetch (tile_key c) m) (range_coords app (ta_zoom app) part mode tileRange)"

definition preFetchPartTiles :: "tile_app \<Rightarrow> int \<Rightarrow> int \<Rightarrow> int list \<Rightarrow> tile_manager \<Rightarrow> tile_manager" where
  "preFetchPartTiles app now part modes m =
     (let m1 = snd (updateProperties app m);
          tileRange = pxBoundsToTileRange app (case tm_pixelBounds m1 of Some b \<Rightarrow> b | None \<Rightarrow> ta_pixelBounds app)
      in fold (\<lambda>mode m'. sendTileCombineRequest now (part_queue app m' part mode tileRange) m') modes m1)"

definition adjacent_bounds :: "tile_app \<Rightarrow> bounds \<Rightarrow> bounds" where
  "adjacent_bounds app b =
     (let tileSize = of_int (ta_tileSize app) :: num;
          pixelTopLeft = Bounds_getTopLeft b; pixelBottomRight = Bounds_getBottomRight b;
          b1 = Bounds (pixelTopLeft\<lparr>pt_y := of_int \<lfloor>pt_y pixelTopLeft / tileSize\<rfloor> * tileSize - 1\<rparr>)
                 (pixelBottomRight\<lparr>pt_y := of_int \<lceil>pt_y pixelBottomRight / tileSize\<rceil> * tileSize + 1\<rparr>);
          (dx, dy) = ta_panDirection app
      in Bounds_translate (pt_x (Bounds_getSize b1) * dx) (pt_y (Bounds_getSize b1) * dy) b1)"

text \<open>The callback of the timer of \<open>initPreFetchAdjacentTiles\<close>.\<close>

definition preFetchAdjacentTiles :: "tile_app \<Rightarrow> int \<Rightarrow> tile_manager \<Rightarrow> js_error + tile_manager" where
  "preFetchAdjacentTiles app now m =
     (case (tm_pixelBounds m, tm_zoom m) of
        (Some b, Some zoom) \<Rightarrow>
          let b1 = adjacent_bounds app b; (dx, dy) = ta_panDirection app; m1 = m\<lparr>tm_pixelBounds := Some b1\<rparr>
          in sum_bind (getMissingTiles app now b1 zoom False m1) (\<lambda>(queue, m2).
               sum_bind
                 (if ta_isCalc app \<or> queue = [] then
                    let b2 = Bounds_translate (pt_x (Bounds_getSize b1) * dx / 2) (pt_y (Bounds_getSize b1) * dy / 2) b1
                    in sum_bind (getMissingTiles app now b2 zoom False (m2\<lparr>tm_pixelBounds := Some b2\<rparr>))
                         (\<lambda>(more, m3). Inr (queue @ more, m3))
                  else Inr (queue, m2))
                 (\<lambda>(queue', m3). Inr (if queue' \<noteq> [] then addTiles app now queue' False m3 else m3)))
      | _ \<Rightarrow> Inl TypeError)"

end
