(* ===== verification/Split_Panes.thy ===== *)
theory Split_Panes
  imports Sheet_Properties Tile_Prefetch
begin

section \<open>Split panes\<close>

text \<open>
  \<open>browser/src/layer/SplitPanesContext.ts\<close> and \<open>CalcSplitPanesContext.ts\<close>: a view that is split by a
  vertical and a horizontal line shows up to four parts of the document. The position of the lines
  is kept in core pixels and, for a spreadsheet, as a cell. The document layer offers the snapping
  of a position to the start of a column or row, which is an argument of the operations here: the
  plain layer (\<open>CanvasTileLayer.js\<close>) does not snap, the spreadsheet layer asks the sheet geometry.
  Firing \<open>splitposchanged\<close> calls handlers that may change the context, an argument too.
\<close>

datatype split_effect =
    SplitPosChanged
  | RefreshSplitter
  | SendSplitIndex js_int bool

record split_panes =
  spc_part :: int
  spc_splitPos :: point
  spc_splitCell :: "js_int \<times> js_int"
  spc_splitCoordinate :: "int \<times> int"
  spc_effects :: "split_effect list"

type_synonym snapping = "bool \<Rightarrow> num \<Rightarrow> js_error + num"

record split_env =
  se_sectionSize :: "num \<times> num"
  se_scale :: app_scale
  se_hasSplitter :: bool

definition spc_effect :: "split_effect \<Rightarrow> split_panes \<Rightarrow> split_panes" where
  "spc_effect e s = s\<lparr>spc_effects := spc_effects s @ [e]\<rparr>"

definition new_SplitPanes :: "int \<Rightarrow> split_panes" where
  "new_SplitPanes part =
     \<lparr>spc_part = part, spc_splitPos = \<lparr>pt_x = 0, pt_y = 0\<rparr>, spc_splitCell = (Fin 0, Fin 0),
      spc_splitCoordinate = (0, 0), spc_effects = []\<rparr>"

subsection \<open>The position of the lines\<close>

definition maxHorizontalSplitPercent :: num where
  "maxHorizontalSplitPercent = 70"

definition maxVerticalSplitPercent :: num where
  "maxVerticalSplitPercent = 70"

definition getMaxSplitPosX :: "snapping \<Rightarrow> ('a split_env_scheme) \<Rightarrow> js_error + num" where
  "getMaxSplitPosX snap env =
     (let rawMax = \<lfloor>fst (se_sectionSize env) * maxHorizontalSplitPercent / 100\<rfloor> in snap True (of_int rawMax))"

definition getMaxSplitPosY :: "snapping \<Rightarrow> ('a split_env_scheme) \<Rightarrow> js_error + num" where
  "getMaxSplitPosY snap env =
     (let rawMax = \<lfloor>snd (se_sectionSize env) * maxVerticalSplitPercent / 100\<rfloor> in snap False (of_int rawMax))"

definition getSplitPos :: "('a split_env_scheme) \<Rightarrow> split_panes \<Rightarrow> point" where
  "getSplitPos env s = Point_divideBy (spc_splitPos s) (dpiScale (se_scale env))"

definition justifySplitPos :: "snapping \<Rightarrow> ('a split_env_scheme) \<Rightarrow> num \<Rightarrow> bool \<Rightarrow> js_error + num" where
  "justifySplitPos snap env split isHoriz =
     (if split \<le> 0 then Inr 0
      else sum_bind (if isHoriz then getMaxSplitPosX snap env else getMaxSplitPosY snap env) (\<lambda>maxSplitPos.
        if split \<ge> maxSplitPos then Inr maxSplitPos else snap isHoriz split))"

definition setHorizSplitPos ::
    "snapping \<Rightarrow> ('a split_env_scheme) \<Rightarrow> (split_panes \<Rightarrow> js_error + split_panes) \<Rightarrow> num \<Rightarrow> bool \<Rightarrow> split_panes \<Rightarrow> js_error + bool \<times> split_panes" where
  "setHorizSplitPos snap env fire splitX noFire s =
     (if pt_x (spc_splitPos s) = splitX then Inr (False, s)
      else sum_bind (justifySplitPos snap env splitX True) (\<lambda>newX.
        let changed = (newX \<noteq> pt_x (spc_splitPos s));
            s1 = s\<lparr>spc_splitPos := (spc_splitPos s)\<lparr>pt_x := newX\<rparr>,
                   spc_splitCoordinate := (fromCore (se_scale env) newX, snd (spc_splitCoordinate s))\<rparr>
        in if noFire then Inr (changed, s1) else sum_bind (fire s1) (\<lambda>s2. Inr (changed, s2))))"

definition setVertSplitPos ::
    "snapping \<Rightarrow> ('a split_env_scheme) \<Rightarrow> (split_panes \<Rightarrow> js_error + split_panes) \<Rightarrow> num \<Rightarrow> bool \<Rightarrow> split_panes \<Rightarrow> js_error + bool \<times> split_panes" where
  "setVertSplitPos snap env fire splitY noFire s =
     (if pt_y (spc_splitPos s) = splitY then Inr (False, s)
      else sum_bind (justifySplitPos snap env splitY False) (\<lambda>newY.
        let changed = (newY \<noteq> pt_y (spc_splitPos s));
            s1 = s\<lparr>spc_splitPos := (spc_splitPos s)\<lparr>pt_y := newY\<rparr>,
                   spc_splitCoordinate := (fst (spc_splitCoordinate s), fromCore (se_scale env) newY)\<rparr>
        in if noFire then Inr (changed, s1) else sum_bind (fire s1) (\<lambda>s2. Inr (changed, s2))))"

definition setSplitPos ::
    "snapping \<Rightarrow> ('a split_env_scheme) \<Rightarrow> (split_panes \<Rightarrow> js_error + split_panes) \<Rightarrow> num \<Rightarrow> num \<Rightarrow> split_panes \<Rightarrow> js_error + split_panes" where
  "setSplitPos snap env fire splitX splitY s =
     sum_bind (setHorizSplitPos snap env fire splitX True s) (\<lambda>(xchanged, s1).
     sum_bind (setVertSplitPos snap env fire splitY True s1) (\<lambda>(ychanged, s2).
       if xchanged \<or> ychanged then
         sum_bind (fire s2) (\<lambda>s3. Inr (if se_hasSplitter env then spc_effect RefreshSplitter s3 else s3))
       else Inr s2))"

subsection \<open>The panes\<close>

text \<open>Whether a pane is fixed horizontally and vertically.\<close>

definition getPanesProperties :: "split_panes \<Rightarrow> (bool \<times> bool) list" where
  "getPanesProperties s =
     (let x = (pt_x (spc_splitPos s) \<noteq> 0); y = (pt_y (spc_splitPos s) \<noteq> 0)
      in (if x \<and> y then [(True, True)] else []) @ (if y then [(False, True)] else []) @
         (if x then [(True, False)] else []) @ [(False, False)])"

definition getPxBoundList :: "split_panes \<Rightarrow> bounds \<Rightarrow> bounds list" where
  "getPxBoundList s pxBounds =
     (let topLeft = Bounds_getTopLeft pxBounds; bottomRight = Bounds_getBottomRight pxBounds;
          pos = spc_splitPos s; x = (pt_x pos \<noteq> 0); y = (pt_y pos \<noteq> 0);
          boundList =
            (if x \<and> y then [Bounds \<lparr>pt_x = 0, pt_y = 0\<rparr> pos] else []) @
            (if y then [Bounds \<lparr>pt_x = pt_x topLeft + pt_x pos, pt_y = 0\<rparr> \<lparr>pt_x = pt_x bottomRight, pt_y = pt_y pos\<rparr>] else []) @
            (if x then [Bounds \<lparr>pt_x = 0, pt_y = pt_y topLeft + pt_y pos\<rparr> \<lparr>pt_x = pt_x pos, pt_y = pt_y bottomRight\<rparr>] else [])
      in boundList @ [if boundList = [] then Bounds topLeft bottomRight else Bounds (Point_add topLeft pos) bottomRight])"

definition intersectsVisible :: "split_panes \<Rightarrow> bounds \<Rightarrow> bounds \<Rightarrow> bool" where
  "intersectsVisible s pixBounds areaPx = list_ex (Bounds_intersects areaPx) (getPxBoundList s pixBounds)"

text \<open>The setters of \<open>SimpleRectangle\<close> in core pixels that \<open>getViewRectangles\<close> uses.\<close>

definition set_pX1 :: "app_scale \<Rightarrow> num \<Rightarrow> simple_rectangle \<Rightarrow> simple_rectangle" where
  "set_pX1 app v r = r\<lparr>sr_x1 := fromCore app v\<rparr>"

definition set_pY1 :: "app_scale \<Rightarrow> num \<Rightarrow> simple_rectangle \<Rightarrow> simple_rectangle" where
  "set_pY1 app v r = r\<lparr>sr_y1 := fromCore app v\<rparr>"

definition set_pWidth :: "app_scale \<Rightarrow> num \<Rightarrow> simple_rectangle \<Rightarrow> simple_rectangle" where
  "set_pWidth app v r = r\<lparr>sr_width := fromCore app v\<rparr>"

definition set_pHeight :: "app_scale \<Rightarrow> num \<Rightarrow> simple_rectangle \<Rightarrow> simple_rectangle" where
  "set_pHeight app v r = r\<lparr>sr_height := fromCore app v\<rparr>"

definition get_pX2 :: "app_scale \<Rightarrow> simple_rectangle \<Rightarrow> int" where
  "get_pX2 app r = toCore app (sr_x1 r) + toCore app (sr_width r)"

definition get_pY2 :: "app_scale \<Rightarrow> simple_rectangle \<Rightarrow> int" where
  "get_pY2 app r = toCore app (sr_y1 r) + toCore app (sr_height r)"

definition SimpleRectangle_clone :: "simple_rectangle \<Rightarrow> simple_rectangle" where
  "SimpleRectangle_clone r =
     SimpleRectangle (of_int (sr_x1 r)) (of_int (sr_y1 r)) (of_int (sr_width r)) (of_int (sr_height r)) (sr_part r) (sr_mode r)"

text \<open>The rectangle keeps its right and lower edge and gets the given size.\<close>

definition keep_right :: "app_scale \<Rightarrow> simple_rectangle \<Rightarrow> num \<Rightarrow> simple_rectangle \<Rightarrow> simple_rectangle" where
  "keep_right app viewed w r = set_pWidth app w (set_pX1 app (of_int (get_pX2 app viewed) - w) r)"

definition keep_bottom :: "app_scale \<Rightarrow> simple_rectangle \<Rightarrow> num \<Rightarrow> simple_rectangle \<Rightarrow> simple_rectangle" where
  "keep_bottom app viewed h r = set_pHeight app h (set_pY1 app (of_int (get_pY2 app viewed) - h) r)"

definition getViewRectangles :: "app_scale \<Rightarrow> simple_rectangle \<Rightarrow> split_panes \<Rightarrow> simple_rectangle list" where
  "getViewRectangles app viewed s =
     (let pos = spc_splitPos s; x = (pt_x pos \<noteq> 0); y = (pt_y pos \<noteq> 0);
          left = (\<lambda>r. SimpleRectangle_set_pX2 app (pt_x pos) (set_pX1 app 0 r));
          above = (\<lambda>r. SimpleRectangle_set_pY2 app (pt_y pos) (set_pY1 app 0 r));
          r0 = (if x then left (SimpleRectangle_clone viewed) else SimpleRectangle_clone viewed);
          width = of_int (toCore app (sr_width viewed) - toCore app (sr_width r0));
          topRight = keep_right app viewed width (SimpleRectangle_clone viewed);
          r0' = (if y then above r0 else r0);
          height = of_int (toCore app (sr_height viewed) - toCore app (sr_height r0'));
          bottomLeft = keep_bottom app viewed height (SimpleRectangle_clone viewed);
          bottomRight = keep_bottom app viewed height (keep_right app viewed width (SimpleRectangle_clone viewed))
      in if x \<and> y then [r0', above topRight, left bottomLeft, bottomRight]
         else if x then [r0', topRight] else if y then [r0', bottomLeft] else [r0'])"

subsection \<open>Split cells of a spreadsheet\<close>

record calc_env = split_env +
  ce_sheetGeometry :: sheet_geometry
  ce_geometryPart :: int
  ce_selectedPart :: int
  ce_dontSendSplitPosToCore :: bool

text \<open>
  \<open>getSnapDocPosX\<close> and \<open>getSnapDocPosY\<close> of the spreadsheet layer. A position without a finite index
  gives no number; it is not followed further.
\<close>

definition calc_snap :: "('a calc_env_scheme) \<Rightarrow> snapping" where
  "calc_snap env isHoriz p =
     sum_bind (if isHoriz then getSnapDocPosX (ce_sheetGeometry env) p corepixels
               else getSnapDocPosY (ce_sheetGeometry env) p corepixels)
       (\<lambda>r. case r of None \<Rightarrow> Inl TypeError | Some q \<Rightarrow> Inr (of_int q))"

text \<open>\<open>getSnapDocPosX\<close> and \<open>getSnapDocPosY\<close> of the plain layer.\<close>

definition plain_snap :: snapping where
  "plain_snap isHoriz p = Inr p"

text \<open>A number is the same as another unless it is \<open>NaN\<close>.\<close>

definition js_same :: "js_int \<Rightarrow> js_int \<Rightarrow> bool" where
  "js_same a b \<longleftrightarrow> a = b \<and> a \<noteq> NaN"

definition setSplitCol :: "js_int \<Rightarrow> split_panes \<Rightarrow> bool \<times> split_panes" where
  "setSplitCol c s =
     (if js_same c (fst (spc_splitCell s)) then (False, s)
      else (True, s\<lparr>spc_splitCell := (c, snd (spc_splitCell s))\<rparr>))"

definition setSplitRow :: "js_int \<Rightarrow> split_panes \<Rightarrow> bool \<times> split_panes" where
  "setSplitRow r s =
     (if js_same r (snd (spc_splitCell s)) then (False, s)
      else (True, s\<lparr>spc_splitCell := (fst (spc_splitCell s), r)\<rparr>))"

definition setSplitCellFromPos :: "('a calc_env_scheme) \<Rightarrow> split_panes \<Rightarrow> js_error + split_panes" where
  "setSplitCellFromPos env s =
     sum_bind (getCellFromPos (ce_sheetGeometry env) (spc_splitPos s) corepixels) (\<lambda>(c, r).
       if ce_dontSendSplitPosToCore env then Inr s
       else
         let (colChanged, s1) = setSplitCol c s;
             s2 = (if colChanged then spc_effect (SendSplitIndex c True) s1 else s1);
             (rowChanged, s3) = setSplitRow r s2
         in Inr (if rowChanged then spc_effect (SendSplitIndex r False) s3 else s3))"

text \<open>The handler that \<open>CalcTileLayer\<close> registers for \<open>splitposchanged\<close>.\<close>

definition calc_fire :: "('a calc_env_scheme) \<Rightarrow> split_panes \<Rightarrow> js_error + split_panes" where
  "calc_fire env s = setSplitCellFromPos env (spc_effect SplitPosChanged s)"

text \<open>
  A split cell that is infinite has no rectangle, which throws. One that is \<open>NaN\<close>, which a position
  in an empty span at the end of the sheet gives, is not followed further.
\<close>

definition setSplitPosFromCell :: "('a calc_env_scheme) \<Rightarrow> split_panes \<Rightarrow> js_error + split_panes" where
  "setSplitPosFromCell env s =
     (if ce_geometryPart env \<noteq> ce_selectedPart env then Inr s
      else case spc_splitCell s of
             (Fin c, Fin r) \<Rightarrow>
               sum_bind (getCellRect (ce_sheetGeometry env) c r None) (\<lambda>rect.
                 case rect of
                   None \<Rightarrow> Inl TypeError
                 | Some b \<Rightarrow>
                     sum_bind (setSplitPos (calc_snap env) env (calc_fire env) (pt_x (bd_min b)) (pt_y (bd_min b)) s)
                       (setSplitCellFromPos env))
           | _ \<Rightarrow> Inl TypeError)"

end
