(* ===== verification/Pane_Properties.thy ===== *)
theory Pane_Properties
  imports Split_Panes
begin

section \<open>Properties of split panes\<close>

text \<open>
  The contract of the snapping of a document layer as a locale, with what the split position
  satisfies because of it; its instances are the plain layer and the spreadsheet layer. Then the
  panes: their bounds show exactly the document points of the screen, the list of their properties
  agrees with the list of their bounds, and so does the list of rectangles in twips.
\<close>

subsection \<open>Snapping\<close>

definition raw_max :: "('a split_env_scheme) \<Rightarrow> bool \<Rightarrow> int" where
  "raw_max env h =
     (if h then \<lfloor>fst (se_sectionSize env) * maxHorizontalSplitPercent / 100\<rfloor>
      else \<lfloor>snd (se_sectionSize env) * maxVerticalSplitPercent / 100\<rfloor>)"

lemma justify_cases:
  assumes "snap h (of_int (raw_max env h)) = Inr (of_int mx)"
  shows "justifySplitPos snap env (of_int x) h =
    (if x \<le> 0 then Inr 0 else if mx \<le> x then Inr (of_int mx) else snap h (of_int x))"
  using assms
  by (cases h) (simp_all add: justifySplitPos_def getMaxSplitPosX_def getMaxSplitPosY_def raw_max_def sum_bind_def)

text \<open>
  Positions below \<open>limit\<close> are snapped down, and a snapped position stays where it is.
\<close>

locale snap_layer =
  fixes ok :: "('a split_env_scheme) \<Rightarrow> bool" and snap :: "('a split_env_scheme) \<Rightarrow> snapping"
    and limit :: "('a split_env_scheme) \<Rightarrow> bool \<Rightarrow> int"
  assumes snap_down: "ok env \<Longrightarrow> 0 \<le> p \<Longrightarrow> p < limit env h \<Longrightarrow>
    \<exists>q. snap env h (of_int p) = Inr (of_int q) \<and> 0 \<le> q \<and> q \<le> p \<and> snap env h (of_int q) = Inr (of_int q)"
begin

lemma justify_range:
  assumes "ok env" and "0 \<le> raw_max env h" and "raw_max env h < limit env h"
  shows "\<exists>q. justifySplitPos (snap env) env (of_int p) h = Inr (of_int q) \<and> 0 \<le> q \<and> q \<le> max 0 p \<and> q \<le> raw_max env h \<and>
    justifySplitPos (snap env) env (of_int q) h = Inr (of_int q)"
proof -
  obtain mx where mx: "snap env h (of_int (raw_max env h)) = Inr (of_int mx)" "0 \<le> mx" "mx \<le> raw_max env h"
    using snap_down [OF assms] by blast
  note just = justify_cases [of "snap env" h env, OF mx(1)]
  show ?thesis
  proof (cases "0 < p \<and> p < mx")
    case True
    then obtain q where "snap env h (of_int p) = Inr (of_int q)" "0 \<le> q" "q \<le> p" "snap env h (of_int q) = Inr (of_int q)"
      using snap_down [OF assms(1), of p h] mx(3) assms(3) by auto
    then show ?thesis using True mx(3) by (auto simp: just)
  next
    case False
    then show ?thesis using mx by (auto simp: just)
  qed
qed

lemma justify_snapped:
  assumes "ok env" and "0 \<le> raw_max env h" and "raw_max env h < limit env h" and "0 \<le> p"
    and mx: "snap env h (of_int (raw_max env h)) = Inr (of_int mx)"
    and fixed: "p < mx \<Longrightarrow> snap env h (of_int p) = Inr (of_int p)"
  shows "justifySplitPos (snap env) env (of_int p) h = Inr (of_int (min p mx))"
proof -
  have "0 \<le> mx" using snap_down [OF assms(1-3)] mx by auto
  then show ?thesis using assms(4) fixed by (auto simp: justify_cases [of "snap env" h env, OF mx] min_def)
qed

end

interpretation plain: snap_layer "\<lambda>env. True" "\<lambda>env. plain_snap" "\<lambda>env h. raw_max env h + 1"
  by unfold_locales (simp add: plain_snap_def)

subsection \<open>Snapping to cells\<close>

definition core_sizes :: "sheet_dimension \<Rightarrow> int \<Rightarrow> int" where
  "core_sizes d = core_size (sd_twipsPerCorePixel d) (value_at (visibleSpans d))"

definition pixel_dim :: "sheet_dimension \<Rightarrow> bool" where
  "pixel_dim d \<longleftrightarrow> dim_ok d \<and> sd_twipsPerCorePixel d = of_int \<lfloor>sd_twipsPerCorePixel d\<rfloor>"

definition dim_end :: "sheet_dimension \<Rightarrow> int" where
  "dim_end d = psum (core_sizes d) (lastIndex d + 1)"

text \<open>The element of an axis that contains a pixel.\<close>

definition pixel_in :: "sheet_dimension \<Rightarrow> int \<Rightarrow> int \<Rightarrow> bool" where
  "pixel_in d i p \<longleftrightarrow> 0 \<le> i \<and> i \<le> lastIndex d \<and> psum (core_sizes d) i \<le> p \<and> p < psum (core_sizes d) (i + 1)"

lemma core_sizes_mono:
  assumes "dim_ok d" and "i \<le> j"
  shows "psum (core_sizes d) i \<le> psum (core_sizes d) j"
  unfolding core_sizes_def
  by (rule psum_mono [OF core_size_nonneg assms(2)]) (use dim_okD [OF assms(1)] in auto)

lemma snap_core:
  assumes "pixel_dim d" and "0 \<le> p" and "p < dim_end d"
  shows "\<exists>i. pixel_in d i p \<and> getSnapPos d (of_int p) corepixels = Inr (Some (psum (core_sizes d) i)) \<and>
    SheetDimension_getIndexFromPos d (of_int p) corepixels = Inr (Fin i)"
proof -
  define k where "k = \<lfloor>sd_twipsPerCorePixel d\<rfloor>"
  have ok: "dim_ok d" and k: "sd_twipsPerCorePixel d = of_int k"
    using assms(1) by (simp_all add: pixel_dim_def k_def)
  have kpos: "0 < k" using dim_okD(4) [OF ok] k by simp
  obtain i r where r: "getSpanAndIndexFromTileTwipsPos d (of_int (p * k)) = Inr r" "located d i r"
      "psum (tile_size k d) i \<le> p * k" "p * k < psum (tile_size k d) (i + 1)"
  proof (rule tile_lookup [OF ok k])
    show "0 \<le> p * k" "p * k < psum (tile_size k d) (lastIndex d + 1)"
      using assms(2,3) kpos k by (simp_all add: psum_tile_size dim_end_def core_sizes_def)
  qed
  then show ?thesis
    using located_range [OF ok r(2)] located_elem [OF ok r(2), of corepixels] k kpos
    by (auto simp: SheetDimension_getIndexFromPos_def getSnapPos_def located_def psum_tile_size pixel_in_def
        core_sizes_def posOf_def elem_pos_def Let_def)
qed

lemma pixel_in_start:
  assumes "dim_ok d" and "pixel_in d i (psum (core_sizes d) c)"
  shows "psum (core_sizes d) i = psum (core_sizes d) c"
proof (rule antisym)
  show "psum (core_sizes d) i \<le> psum (core_sizes d) c" using assms(2) by (simp add: pixel_in_def)
  have "\<not> i + 1 \<le> c" using assms core_sizes_mono [OF assms(1), of "i + 1" c] by (auto simp: pixel_in_def)
  then show "psum (core_sizes d) c \<le> psum (core_sizes d) i" by (intro core_sizes_mono [OF assms(1)]) simp
qed

lemma snap_start:
  assumes "pixel_dim d" and "0 \<le> c" and "psum (core_sizes d) c < dim_end d"
  shows "getSnapPos d (of_int (psum (core_sizes d) c)) corepixels = Inr (Some (psum (core_sizes d) c))"
proof -
  have ok: "dim_ok d" using assms(1) by (simp add: pixel_dim_def)
  have "0 \<le> psum (core_sizes d) c" using core_sizes_mono [OF ok assms(2)] by simp
  then show ?thesis using snap_core [OF assms(1) _ assms(3)] pixel_in_start [OF ok] by force
qed

definition axis :: "('a calc_env_scheme) \<Rightarrow> bool \<Rightarrow> sheet_dimension" where
  "axis env h = (if h then sg_columns (ce_sheetGeometry env) else sg_rows (ce_sheetGeometry env))"

definition calc_ok :: "('a calc_env_scheme) \<Rightarrow> bool" where
  "calc_ok env \<longleftrightarrow> pixel_dim (axis env True) \<and> pixel_dim (axis env False)"

lemma calc_snap_axis:
  "calc_snap env h p =
     sum_bind (getSnapPos (axis env h) p corepixels) (\<lambda>r. case r of None \<Rightarrow> Inl TypeError | Some q \<Rightarrow> Inr (of_int q))"
  by (simp add: calc_snap_def axis_def getSnapDocPosX_def getSnapDocPosY_def)

lemma calc_ok_axis: "calc_ok env \<Longrightarrow> pixel_dim (axis env h)"
  by (cases h) (simp_all add: calc_ok_def)

interpretation calc: snap_layer calc_ok calc_snap "\<lambda>env h. dim_end (axis env h)"
proof unfold_locales
  fix env :: "'a calc_env_scheme" and p h
  assume ok: "calc_ok env" and p: "0 \<le> p" "p < dim_end (axis env h)"
  note d = calc_ok_axis [OF ok, of h]
  obtain i where i: "pixel_in (axis env h) i p" "getSnapPos (axis env h) (of_int p) corepixels = Inr (Some (psum (core_sizes (axis env h)) i))"
    using snap_core [OF d p] by blast
  have "0 \<le> psum (core_sizes (axis env h)) i" "psum (core_sizes (axis env h)) i \<le> p"
    using core_sizes_mono [of "axis env h" 0 i] i(1) d by (simp_all add: pixel_in_def pixel_dim_def)
  moreover have "getSnapPos (axis env h) (of_int (psum (core_sizes (axis env h)) i)) corepixels = Inr (Some (psum (core_sizes (axis env h)) i))"
    using snap_start [OF d] i(1) calculation(2) p(2) by (simp add: pixel_in_def)
  ultimately show "\<exists>q. calc_snap env h (of_int p) = Inr (of_int q) \<and> 0 \<le> q \<and> q \<le> p \<and> calc_snap env h (of_int q) = Inr (of_int q)"
    using i(2) by (auto simp: calc_snap_axis sum_bind_def)
qed

subsection \<open>The split cell\<close>

text \<open>
  The view is smaller than the sheet, the lines are at the start of a column and a row, and not
  further than the largest position that the view allows.
\<close>

definition view_fits :: "('a calc_env_scheme) \<Rightarrow> bool" where
  "view_fits env \<longleftrightarrow> calc_ok env \<and> (\<forall>h. 0 \<le> raw_max env h \<and> raw_max env h < dim_end (axis env h))"

definition at_start :: "sheet_dimension \<Rightarrow> num \<Rightarrow> int \<Rightarrow> bool" where
  "at_start d p i \<longleftrightarrow> p = of_int (psum (core_sizes d) i) \<and> pixel_in d i (psum (core_sizes d) i)"

definition max_start :: "('a calc_env_scheme) \<Rightarrow> bool \<Rightarrow> int" where
  "max_start env h = (case calc_snap env h (of_int (raw_max env h)) of Inr q \<Rightarrow> \<lfloor>q\<rfloor> | Inl e \<Rightarrow> 0)"

lemma max_start:
  assumes "view_fits env"
  shows "calc_snap env h (of_int (raw_max env h)) = Inr (of_int (max_start env h))"
    and "0 \<le> max_start env h" and "max_start env h < dim_end (axis env h)"
    and "\<exists>i. at_start (axis env h) (of_int (max_start env h)) i"
proof -
  have fit: "calc_ok env" "0 \<le> raw_max env h" "raw_max env h < dim_end (axis env h)"
    using assms by (simp_all add: view_fits_def)
  note d = calc_ok_axis [OF fit(1), of h]
  obtain i where i: "pixel_in (axis env h) i (raw_max env h)"
      "getSnapPos (axis env h) (of_int (raw_max env h)) corepixels = Inr (Some (psum (core_sizes (axis env h)) i))"
    using snap_core [OF d fit(2,3)] by blast
  have s: "calc_snap env h (of_int (raw_max env h)) = Inr (of_int (psum (core_sizes (axis env h)) i))"
    using i(2) by (simp add: calc_snap_axis sum_bind_def)
  have m: "max_start env h = psum (core_sizes (axis env h)) i" by (simp add: max_start_def s)
  show "calc_snap env h (of_int (raw_max env h)) = Inr (of_int (max_start env h))" by (simp add: s m)
  show "0 \<le> max_start env h"
    using core_sizes_mono [of "axis env h" 0 i] i(1) d by (simp add: m pixel_in_def pixel_dim_def)
  show "max_start env h < dim_end (axis env h)" using i(1) fit(3) by (simp add: m pixel_in_def)
  have "pixel_in (axis env h) i (max_start env h)" using i(1) by (simp add: m pixel_in_def)
  then show "\<exists>i. at_start (axis env h) (of_int (max_start env h)) i"
    unfolding at_start_def m by blast
qed

lemma start_index:
  assumes "pixel_dim d" and "at_start d p i"
  shows "\<exists>j. SheetDimension_getIndexFromPos d p corepixels = Inr (Fin j) \<and> at_start d p j"
proof -
  have ok: "dim_ok d" using assms(1) by (simp add: pixel_dim_def)
  let ?q = "psum (core_sizes d) i"
  have p: "p = of_int ?q" and i: "pixel_in d i ?q" using assms(2) by (simp_all add: at_start_def)
  have "psum (core_sizes d) (i + 1) \<le> dim_end d"
    unfolding dim_end_def using i by (intro core_sizes_mono [OF ok]) (simp add: pixel_in_def)
  then have "0 \<le> ?q" "?q < dim_end d"
    using core_sizes_mono [OF ok, of 0 i] i by (simp_all add: pixel_in_def)
  then obtain j where j: "pixel_in d j ?q" "SheetDimension_getIndexFromPos d (of_int ?q) corepixels = Inr (Fin j)"
    using snap_core [OF assms(1)] by blast
  then show ?thesis using pixel_in_start [OF ok j(1)] by (auto simp: p at_start_def)
qed

text \<open>The position for a cell: its start, or the largest position that is allowed.\<close>

lemma justify_cell:
  assumes "view_fits env" and "0 \<le> c" and "c \<le> lastIndex (axis env h)"
  shows "justifySplitPos (calc_snap env) env (of_int (psum (core_sizes (axis env h)) c)) h =
      Inr (of_int (min (psum (core_sizes (axis env h)) c) (max_start env h)))"
    and "\<exists>i. at_start (axis env h) (of_int (min (psum (core_sizes (axis env h)) c) (max_start env h))) i"
proof -
  let ?d = "axis env h" and ?p = "psum (core_sizes (axis env h)) c"
  have fit: "calc_ok env" "0 \<le> raw_max env h" "raw_max env h < dim_end ?d"
    using assms by (simp_all add: view_fits_def)
  note d = calc_ok_axis [OF fit(1), of h]
  have ok: "dim_ok ?d" using d by (simp add: pixel_dim_def)
  have p0: "0 \<le> ?p" using core_sizes_mono [OF ok assms(2)] by simp
  have fixed: "getSnapPos ?d (of_int ?p) corepixels = Inr (Some ?p)" if "?p < max_start env h"
    using snap_start [OF d assms(2)] that max_start(3) [OF assms(1), of h] by simp
  show "justifySplitPos (calc_snap env) env (of_int ?p) h = Inr (of_int (min ?p (max_start env h)))"
    by (rule calc.justify_snapped [OF fit p0 max_start(1) [OF assms(1)]])
      (use fixed in \<open>simp add: calc_snap_axis sum_bind_def\<close>)
  show "\<exists>i. at_start ?d (of_int (min ?p (max_start env h))) i"
  proof (cases "?p < max_start env h")
    case True
    then obtain i where i: "pixel_in ?d i ?p"
      using snap_core [OF d p0] max_start(3) [OF assms(1), of h] by force
    have "at_start ?d (of_int ?p) i" using pixel_in_start [OF ok i] i by (simp add: at_start_def)
    then show ?thesis using True by (simp add: min_def) blast
  next
    case False
    then show ?thesis using max_start(4) [OF assms(1), of h] by (simp add: min_def)
  qed
qed

lemma cell_start:
  assumes "view_fits env" and "0 \<le> c" and "psum (core_sizes (axis env h)) c < dim_end (axis env h)"
  shows "\<exists>i. at_start (axis env h) (of_int (psum (core_sizes (axis env h)) c)) i"
proof -
  have d: "pixel_dim (axis env h)" using assms(1) calc_ok_axis [of env h] by (simp add: view_fits_def)
  then have ok: "dim_ok (axis env h)" by (simp add: pixel_dim_def)
  have "0 \<le> psum (core_sizes (axis env h)) c" using core_sizes_mono [OF ok assms(2)] by simp
  then obtain i where i: "pixel_in (axis env h) i (psum (core_sizes (axis env h)) c)" using snap_core [OF d _ assms(3)] by blast
  then have "at_start (axis env h) (of_int (psum (core_sizes (axis env h)) c)) i" using pixel_in_start [OF ok i] by (simp add: at_start_def)
  then show ?thesis by blast
qed

text \<open>
  Where a line is put for a cell that starts at \<open>p\<close>, when it was at \<open>old\<close>: a line that is there already is not
  moved, also when it is beyond the largest position.
\<close>

definition line_at :: "('a calc_env_scheme) \<Rightarrow> bool \<Rightarrow> num \<Rightarrow> int \<Rightarrow> int" where
  "line_at env h old p = (if old = of_int p then p else min p (max_start env h))"

lemma line_real: "real_of_int (line_at env h old p) = (if old = of_int p then of_int p else of_int (min p (max_start env h)))"
  by (simp add: line_at_def)

lemma line_start:
  assumes "view_fits env" and "0 \<le> c" and "c \<le> lastIndex (axis env h)" and "p = psum (core_sizes (axis env h)) c"
    and "old = of_int p \<Longrightarrow> p < dim_end (axis env h)"
  shows "\<exists>i. at_start (axis env h) (of_int (line_at env h old p)) i"
proof (cases "old = of_int p")
  case True
  then show ?thesis using cell_start [OF assms(1,2), of h] assms(4,5) by (simp add: line_at_def)
next
  case False
  then show ?thesis using justify_cell(2) [OF assms(1-3)] assms(4) by (simp add: line_at_def)
qed

lemma start_unique:
  assumes "dim_ok d" and "at_start d p i" and "at_start d p j"
  shows "i = j"
proof -
  have "\<not> i + 1 \<le> j" "\<not> j + 1 \<le> i"
    using assms(2,3) core_sizes_mono [OF assms(1), of "i + 1" j] core_sizes_mono [OF assms(1), of "j + 1" i]
    by (auto simp: at_start_def pixel_in_def)
  then show ?thesis by simp
qed

definition synced :: "('a calc_env_scheme) \<Rightarrow> split_panes \<Rightarrow> bool" where
  "synced env s \<longleftrightarrow> (case spc_splitCell s of
      (Fin c, Fin r) \<Rightarrow> at_start (axis env True) (pt_x (spc_splitPos s)) c \<and> at_start (axis env False) (pt_y (spc_splitPos s)) r
    | _ \<Rightarrow> False)"

lemma spc_effect_simps [simp]:
  "spc_splitPos (spc_effect e s) = spc_splitPos s" "spc_splitCell (spc_effect e s) = spc_splitCell s"
  by (simp_all add: spc_effect_def)

lemma split_cell_from_pos:
  assumes ok: "calc_ok env" and send: "\<not> ce_dontSendSplitPosToCore env"
    and c: "at_start (axis env True) (pt_x (spc_splitPos s)) c" and r: "at_start (axis env False) (pt_y (spc_splitPos s)) r"
  shows "\<exists>s'. setSplitCellFromPos env s = Inr s' \<and> spc_splitPos s' = spc_splitPos s \<and> spc_splitCell s' = (Fin c, Fin r) \<and>
    (spc_splitCell s = (Fin c, Fin r) \<longrightarrow> s' = s)"
proof -
  have d: "pixel_dim (axis env h)" "dim_ok (axis env h)" for h
    using calc_ok_axis [OF ok, of h] by (simp_all add: pixel_dim_def)
  obtain i j where "SheetDimension_getIndexFromPos (axis env True) (pt_x (spc_splitPos s)) corepixels = Inr (Fin i)"
      "at_start (axis env True) (pt_x (spc_splitPos s)) i"
      "SheetDimension_getIndexFromPos (axis env False) (pt_y (spc_splitPos s)) corepixels = Inr (Fin j)"
      "at_start (axis env False) (pt_y (spc_splitPos s)) j"
    using start_index [OF d(1) c] start_index [OF d(1) r] by blast
  moreover have "i = c" "j = r" using calculation start_unique [OF d(2)] c r by blast+
  ultimately have "getCellFromPos (ce_sheetGeometry env) (spc_splitPos s) corepixels = Inr (Fin c, Fin r)"
    by (simp add: getCellFromPos_def pair_result_def axis_def)
  then show ?thesis
    using send by (cases "spc_splitCell s") (auto simp: setSplitCellFromPos_def sum_bind_def setSplitCol_def setSplitRow_def js_same_def)
qed

lemma set_split_pos:
  assumes jx: "justifySplitPos snap env X True = Inr x" and jy: "justifySplitPos snap env Y False = Inr y"
  obtains s2 where "spc_splitPos s2 = \<lparr>pt_x = (if pt_x (spc_splitPos s) = X then X else x),
      pt_y = (if pt_y (spc_splitPos s) = Y then Y else y)\<rparr>" and "spc_splitCell s2 = spc_splitCell s"
    and "setSplitPos snap env fire X Y s = Inr s2 \<or>
      setSplitPos snap env fire X Y s = sum_bind (fire s2) (\<lambda>s3. Inr (if se_hasSplitter env then spc_effect RefreshSplitter s3 else s3))"
proof -
  obtain cx s1 where 1: "setHorizSplitPos snap env fire X True s = Inr (cx, s1)"
      "spc_splitPos s1 = (spc_splitPos s)\<lparr>pt_x := if pt_x (spc_splitPos s) = X then X else x\<rparr>" "spc_splitCell s1 = spc_splitCell s"
    using jx by (cases "pt_x (spc_splitPos s) = X") (auto simp: setHorizSplitPos_def sum_bind_def Let_def)
  obtain cy s2 where 2: "setVertSplitPos snap env fire Y True s1 = Inr (cy, s2)"
      "spc_splitPos s2 = (spc_splitPos s1)\<lparr>pt_y := if pt_y (spc_splitPos s) = Y then Y else y\<rparr>" "spc_splitCell s2 = spc_splitCell s1"
    using jy 1(2) by (cases "pt_y (spc_splitPos s) = Y") (auto simp: setVertSplitPos_def sum_bind_def Let_def)
  have "spc_splitPos s2 = \<lparr>pt_x = (if pt_x (spc_splitPos s) = X then X else x), pt_y = (if pt_y (spc_splitPos s) = Y then Y else y)\<rparr>"
    using 1(2) 2(2) by (cases "spc_splitPos s") simp
  moreover have "setSplitPos snap env fire X Y s = Inr s2 \<or>
      setSplitPos snap env fire X Y s = sum_bind (fire s2) (\<lambda>s3. Inr (if se_hasSplitter env then spc_effect RefreshSplitter s3 else s3))"
    using 1(1) 2(1) by (simp add: setSplitPos_def sum_bind_def)
  ultimately show thesis using that [of s2] 1(3) 2(3) by simp
qed

lemma cell_corner:
  assumes "calc_ok env" and "0 \<le> c" and "c \<le> lastIndex (axis env True)" and "0 \<le> r" and "r \<le> lastIndex (axis env False)"
  obtains b where "getCellRect (ce_sheetGeometry env) c r None = Inr (Some b)"
    and "pt_x (bd_min b) = of_int (psum (core_sizes (axis env True)) c)"
    and "pt_y (bd_min b) = of_int (psum (core_sizes (axis env False)) r)"
proof -
  let ?g = "ce_sheetGeometry env"
  have d: "dim_ok (sg_columns ?g)" "dim_ok (sg_rows ?g)"
    using assms(1) by (simp_all add: calc_ok_def axis_def pixel_dim_def)
  have "core_size (sd_twipsPerCorePixel (axis env h)) (value_at (visibleSpans (axis env h))) i \<ge> 0" for h i
    using core_size_nonneg dim_okD [of "axis env h"] d by (cases h) (simp_all add: axis_def)
  from this [of True c] this [of False r] show thesis
    using that getElementDataAny_in [OF d(1), of c corepixels] getElementDataAny_in [OF d(2), of r corepixels] assms(2-5)
    by (simp add: getCellRect_def cell_data_def getElementData_def pair_result_def posOf_def elem_pos_def axis_def core_sizes_def
        Bounds_corners Point_def Point_add_def Let_def)
qed

text \<open>
  C30. Setting the split position of a spreadsheet from the split cell puts each line at the start of
  that cell, or at the last column or row that starts within 70 per cent of the view when the cell starts beyond. A
  line that is at the start of the cell already stays there, even beyond 70 per cent of a view that has become
  smaller. The split cell is then the visible cell that starts at the lines, and doing it again changes nothing.
  This is so when the geometry is that of the selected sheet, the position is sent to the core, a core pixel is a
  whole number of twips, 70 per cent of the view do not reach the end of the sheet, the split cell is in the sheet,
  and a line that is not moved has a visible cell behind it.
\<close>

theorem split_follows_cell:
  assumes fits: "view_fits env" and part: "ce_geometryPart env = ce_selectedPart env"
    and send: "\<not> ce_dontSendSplitPosToCore env" and cell: "spc_splitCell s = (Fin c, Fin r)"
    and c: "0 \<le> c" "c \<le> lastIndex (axis env True)" and r: "0 \<le> r" "r \<le> lastIndex (axis env False)"
    and X: "X = psum (core_sizes (axis env True)) c" and Y: "Y = psum (core_sizes (axis env False)) r"
    and visible: "pt_x (spc_splitPos s) = of_int X \<Longrightarrow> X < dim_end (axis env True)"
      "pt_y (spc_splitPos s) = of_int Y \<Longrightarrow> Y < dim_end (axis env False)"
  shows "\<exists>s'. setSplitPosFromCell env s = Inr s' \<and>
    spc_splitPos s' = \<lparr>pt_x = of_int (line_at env True (pt_x (spc_splitPos s)) X), pt_y = of_int (line_at env False (pt_y (spc_splitPos s)) Y)\<rparr> \<and>
    synced env s' \<and> setSplitPosFromCell env s' = Inr s'"
proof -
  have ok: "calc_ok env" using fits by (simp add: view_fits_def)
  let ?X = "psum (core_sizes (axis env True)) c" and ?Y = "psum (core_sizes (axis env False)) r"
  let ?x = "line_at env True (pt_x (spc_splitPos s)) ?X" and ?y = "line_at env False (pt_y (spc_splitPos s)) ?Y"
  obtain i where i: "at_start (axis env True) (of_int ?x) i"
    using line_start [OF fits c refl] visible(1) X by blast
  obtain j where j: "at_start (axis env False) (of_int ?y) j"
    using line_start [OF fits r refl] visible(2) Y by blast
  obtain s2 where s2: "spc_splitPos s2 = \<lparr>pt_x = of_int ?x, pt_y = of_int ?y\<rparr>"
      "setSplitPos (calc_snap env) env (calc_fire env) (of_int ?X) (of_int ?Y) s = Inr s2 \<or>
       setSplitPos (calc_snap env) env (calc_fire env) (of_int ?X) (of_int ?Y) s =
         sum_bind (calc_fire env s2) (\<lambda>s3. Inr (if se_hasSplitter env then spc_effect RefreshSplitter s3 else s3))"
    by (rule set_split_pos [OF justify_cell(1) [OF fits c] justify_cell(1) [OF fits r], of s "calc_fire env"])
      (unfold line_real, blast)
  obtain s3 where s3: "setSplitPos (calc_snap env) env (calc_fire env) (of_int ?X) (of_int ?Y) s = Inr s3"
      "spc_splitPos s3 = \<lparr>pt_x = of_int ?x, pt_y = of_int ?y\<rparr>"
    using s2 split_cell_from_pos [OF ok send, of "spc_effect SplitPosChanged s2" i j] i j
    by (cases "se_hasSplitter env") (force simp: calc_fire_def sum_bind_def)+
  obtain s' where s': "setSplitCellFromPos env s3 = Inr s'" "spc_splitPos s' = \<lparr>pt_x = of_int ?x, pt_y = of_int ?y\<rparr>"
      "spc_splitCell s' = (Fin i, Fin j)"
    using split_cell_from_pos [OF ok send, of s3 i j] i j s3(2) by auto
  have first: "setSplitPosFromCell env s = Inr s'"
    using cell_corner [OF ok c r] part cell s3(1) s'(1) by (fastforce simp: setSplitPosFromCell_def sum_bind_def)
  have ij: "0 \<le> i" "i \<le> lastIndex (axis env True)" "0 \<le> j" "j \<le> lastIndex (axis env False)"
      "of_int (psum (core_sizes (axis env True)) i) = (of_int ?x :: num)" "of_int (psum (core_sizes (axis env False)) j) = (of_int ?y :: num)"
    using i j by (simp_all add: at_start_def pixel_in_def)
  have same: "setSplitPos (calc_snap env) env (calc_fire env) (of_int ?x) (of_int ?y) s' = Inr s'"
    using s'(2) by (simp add: setSplitPos_def setHorizSplitPos_def setVertSplitPos_def sum_bind_def)
  have "setSplitCellFromPos env s' = Inr s'"
    using split_cell_from_pos [OF ok send, of s' i j] i j s'(2,3) by auto
  then have "setSplitPosFromCell env s' = Inr s'"
    using cell_corner [OF ok ij(1-4)] part s'(3) same ij(5,6) by (fastforce simp: setSplitPosFromCell_def sum_bind_def)
  moreover have "synced env s'" using i j s' by (simp add: synced_def)
  ultimately show ?thesis using first s'(2) unfolding X Y by blast
qed

definition sample_calc :: calc_env where
  "sample_calc = \<lparr>se_sectionSize = (300, 200), se_scale = \<lparr>twipsToPixels = 1 / 15, pixelsToTwips = 15, dpiScale = 1\<rparr>,
     se_hasSplitter = True, ce_sheetGeometry = sample_sheet, ce_geometryPart = 0, ce_selectedPart = 0,
     ce_dontSendSplitPosToCore = False\<rparr>"

lemma sample_calc_facts:
  "view_fits sample_calc" "max_start sample_calc True = 196" "max_start sample_calc False = 136" "lastIndex (axis sample_calc h) = 19"
proof -
  have "calc_ok sample_calc" by code_simp
  moreover have "raw_max sample_calc True = 210" "raw_max sample_calc False = 140" "dim_end sample_dim = 336" by code_simp+
  moreover have "axis sample_calc h = sample_dim" for h by (simp add: sample_calc_def axis_def sample_sheet_def)
  ultimately show "view_fits sample_calc" "lastIndex (axis sample_calc h) = 19"
    by (simp_all add: view_fits_def all_bool_eq sample_dim_facts)
  show "max_start sample_calc True = 196" "max_start sample_calc False = 136" by code_simp+
qed

theorem split_follows_cell_witness:
  "\<exists>s'. setSplitPosFromCell sample_calc ((new_SplitPanes 0)\<lparr>spc_splitCell := (Fin 5, Fin 12)\<rparr>) = Inr s' \<and>
    spc_splitPos s' = \<lparr>pt_x = 85, pt_y = 136\<rparr> \<and> synced sample_calc s' \<and> setSplitPosFromCell sample_calc s' = Inr s'"
proof -
  have "psum (core_sizes (axis sample_calc True)) 5 = 85" "psum (core_sizes (axis sample_calc False)) 12 = 176" by code_simp+
  then show ?thesis
    using split_follows_cell [of sample_calc "(new_SplitPanes 0)\<lparr>spc_splitCell := (Fin 5, Fin 12)\<rparr>" 5 12 85 176] sample_calc_facts
    by (simp add: new_SplitPanes_def line_at_def) (simp add: sample_calc_def)
qed

subsection \<open>What the panes show\<close>

text \<open>The bounds of a pane from whether it is fixed.\<close>

definition pane_bounds :: "point \<Rightarrow> bounds \<Rightarrow> bool \<times> bool \<Rightarrow> bounds" where
  "pane_bounds pos b f =
     Bounds \<lparr>pt_x = (if fst f then 0 else pt_x (bd_min b) + pt_x pos), pt_y = (if snd f then 0 else pt_y (bd_min b) + pt_y pos)\<rparr>
       \<lparr>pt_x = (if fst f then pt_x pos else pt_x (bd_max b)), pt_y = (if snd f then pt_y pos else pt_y (bd_max b))\<rparr>"

text \<open>
  Along one axis the screen shows the document from its start up to the line, and from the line
  on what the scrolled view has there.
\<close>

definition shows_at :: "num \<Rightarrow> num \<Rightarrow> num \<Rightarrow> num \<Rightarrow> bool" where
  "shows_at split first screen doc \<longleftrightarrow> split \<noteq> 0 \<and> screen \<le> split \<and> doc = screen \<or> split \<le> screen \<and> doc = first + screen"

lemma bound_list_panes: "getPxBoundList s b = map (pane_bounds (spc_splitPos s) b) (getPanesProperties s)"
  by (cases "spc_splitPos s")
    (simp add: getPxBoundList_def getPanesProperties_def pane_bounds_def Bounds_getTopLeft_def Bounds_getBottomRight_def
      Point_def Point_add_def Let_def)

lemma set_panes:
  "set (getPanesProperties s) =
     {(xf, yf). (xf \<longrightarrow> pt_x (spc_splitPos s) \<noteq> 0) \<and> (yf \<longrightarrow> pt_y (spc_splitPos s) \<noteq> 0)}"
  by (auto simp: getPanesProperties_def Let_def)

lemma shown_axis:
  assumes "0 \<le> split" and "split \<le> stop - first"
  shows "(\<exists>screen. 0 \<le> screen \<and> screen \<le> stop - first \<and> shows_at split first screen doc) \<longleftrightarrow>
    (\<exists>f. (f \<longrightarrow> split \<noteq> 0) \<and> (if f then 0 else first + split) \<le> doc \<and> doc \<le> (if f then split else stop))"
    (is "?L \<longleftrightarrow> ?R")
proof
  assume ?L
  then obtain screen where s: "0 \<le> screen" "screen \<le> stop - first" "shows_at split first screen doc" by blast
  then consider "split \<noteq> 0" "screen \<le> split" "doc = screen" | "split \<le> screen" "doc = first + screen"
    by (auto simp: shows_at_def)
  then show ?R
  proof cases
    case 1
    then show ?thesis using s(1) by (intro exI [of _ True]) simp
  next
    case 2
    then show ?thesis using s(2) by (intro exI [of _ False]) simp
  qed
next
  assume ?R
  then obtain f where f: "f \<longrightarrow> split \<noteq> 0" "(if f then 0 else first + split) \<le> doc" "doc \<le> (if f then split else stop)" by blast
  show ?L using assms f by (intro exI [of _ "if f then doc else doc - first"]) (auto simp: shows_at_def)
qed

text \<open>The border around the tiles of some bounds, for a pane with its properties.\<close>

definition border_of :: "tile_app \<Rightarrow> bounds \<Rightarrow> bool \<times> bool \<Rightarrow> pane_border" where
  "border_of app b f =
     (let r = pxBoundsToTileRange app b
      in \<lparr>pb_border = Bounds \<lparr>pt_x = pt_x (bd_min r) - 1, pt_y = pt_y (bd_min r) - 1\<rparr> \<lparr>pt_x = pt_x (bd_max r) + 1, pt_y = pt_y (bd_max r) + 1\<rparr>,
          pb_xFixed = fst f, pb_yFixed = snd f, pb_index = 0\<rparr>)"

lemma zip_map_self: "zip (map g fs) fs = map (\<lambda>f. (g f, f)) fs"
  by (induction fs) auto

lemma borders_of_panes:
  assumes "ta_pxBoundList app = Some (getPxBoundList s)" and "ta_panesProperties app = getPanesProperties s"
  shows "computeBorders app b = map (\<lambda>f. border_of app (pane_bounds (spc_splitPos s) b f) f)
    (filter (\<lambda>(xf, yf). \<not> (xf \<and> yf)) (getPanesProperties s))"
proof -
  have "computeBorders app b = map ((\<lambda>(r, xf, yf). PaneBorder (Bounds (Point_add (bd_min r) \<lparr>pt_x = -1, pt_y = -1\<rparr>)
        (Point_add (bd_max r) \<lparr>pt_x = 1, pt_y = 1\<rparr>)) xf yf) \<circ> (\<lambda>f. (pxBoundsToTileRange app (pane_bounds (spc_splitPos s) b f), f)))
      (filter (\<lambda>(xf, yf). \<not> (xf \<and> yf)) (getPanesProperties s))"
    using assms by (simp add: computeBorders_def pxBoundsToTileRanges_def bound_list_panes zip_map_self filter_map comp_def case_prod_unfold)
  then show ?thesis by (auto simp: border_of_def PaneBorder_def Point_add_def Let_def)
qed

text \<open>
  C7. The panes show exactly what is on the screen: a point of the document lies in the bounds of a
  pane if and only if some point of the screen shows it, where the frozen rows and columns show
  the start of the document. The list of the properties of the panes is in the order of the list of their
  bounds: each entry tells which sides of the bounds at the same place are fixed. So the prefetching of tiles,
  which goes through both lists, gives every pane that scrolls the border around its own tiles, with its own
  properties.
\<close>

theorem panes_show_screen:
  assumes "b = \<lparr>bd_min = \<lparr>pt_x = x, pt_y = y\<rparr>, bd_max = \<lparr>pt_x = x + w, pt_y = y + h\<rparr>\<rparr>"
    and "0 \<le> pt_x (spc_splitPos s)" and "pt_x (spc_splitPos s) \<le> w"
    and "0 \<le> pt_y (spc_splitPos s)" and "pt_y (spc_splitPos s) \<le> h"
    and "ta_pxBoundList app = Some (getPxBoundList s)" and "ta_panesProperties app = getPanesProperties s"
  shows "((\<exists>pane \<in> set (getPxBoundList s b). bounds_contains_point pane p) \<longleftrightarrow>
      (\<exists>sx sy. 0 \<le> sx \<and> sx \<le> w \<and> 0 \<le> sy \<and> sy \<le> h \<and>
        shows_at (pt_x (spc_splitPos s)) x sx (pt_x p) \<and> shows_at (pt_y (spc_splitPos s)) y sy (pt_y p))) \<and>
    getPxBoundList s b = map (pane_bounds (spc_splitPos s) b) (getPanesProperties s) \<and>
    set (getPanesProperties s) = {(xf, yf). (xf \<longrightarrow> pt_x (spc_splitPos s) \<noteq> 0) \<and> (yf \<longrightarrow> pt_y (spc_splitPos s) \<noteq> 0)} \<and>
    computeBorders app b = map (\<lambda>f. border_of app (pane_bounds (spc_splitPos s) b f) f)
      (filter (\<lambda>(xf, yf). \<not> (xf \<and> yf)) (getPanesProperties s))"
proof (intro conjI)
  let ?X = "pt_x (spc_splitPos s)" and ?Y = "pt_y (spc_splitPos s)"
  have pane: "bounds_contains_point (pane_bounds (spc_splitPos s) b (xf, yf)) p \<longleftrightarrow>
      ((if xf then 0 else x + ?X) \<le> pt_x p \<and> pt_x p \<le> (if xf then ?X else x + w)) \<and>
      ((if yf then 0 else y + ?Y) \<le> pt_y p \<and> pt_y p \<le> (if yf then ?Y else y + h))" for xf yf
    using assms(1-5) by (auto simp: contains_point_iff pane_bounds_def Bounds_corners)
  have "(\<exists>pane \<in> set (getPxBoundList s b). bounds_contains_point pane p) \<longleftrightarrow>
      (\<exists>xf. (xf \<longrightarrow> ?X \<noteq> 0) \<and> (if xf then 0 else x + ?X) \<le> pt_x p \<and> pt_x p \<le> (if xf then ?X else x + w)) \<and>
      (\<exists>yf. (yf \<longrightarrow> ?Y \<noteq> 0) \<and> (if yf then 0 else y + ?Y) \<le> pt_y p \<and> pt_y p \<le> (if yf then ?Y else y + h))"
    unfolding bound_list_panes set_map set_panes by (auto simp: pane)
  also have "\<dots> \<longleftrightarrow> (\<exists>sx. 0 \<le> sx \<and> sx \<le> w \<and> shows_at ?X x sx (pt_x p)) \<and> (\<exists>sy. 0 \<le> sy \<and> sy \<le> h \<and> shows_at ?Y y sy (pt_y p))"
    using shown_axis [of ?X "x + w" x "pt_x p"] shown_axis [of ?Y "y + h" y "pt_y p"] assms(2-5) by simp
  finally show "(\<exists>pane \<in> set (getPxBoundList s b). bounds_contains_point pane p) \<longleftrightarrow>
      (\<exists>sx sy. 0 \<le> sx \<and> sx \<le> w \<and> 0 \<le> sy \<and> sy \<le> h \<and> shows_at ?X x sx (pt_x p) \<and> shows_at ?Y y sy (pt_y p))"
    by blast
  show "computeBorders app b = map (\<lambda>f. border_of app (pane_bounds (spc_splitPos s) b f) f)
      (filter (\<lambda>(xf, yf). \<not> (xf \<and> yf)) (getPanesProperties s))"
    by (rule borders_of_panes [OF assms(6,7)])
qed (rule bound_list_panes, rule set_panes)

theorem panes_show_screen_witness:
  "\<exists>sx sy. 0 \<le> sx \<and> sx \<le> 300 \<and> 0 \<le> sy \<and> sy \<le> 200 \<and> shows_at 85 1000 sx 30 \<and> shows_at 136 500 sy 650"
proof -
  let ?s = "(new_SplitPanes 0)\<lparr>spc_splitPos := \<lparr>pt_x = 85, pt_y = 136\<rparr>\<rparr>"
  let ?b = "\<lparr>bd_min = \<lparr>pt_x = 1000, pt_y = 500\<rparr>, bd_max = \<lparr>pt_x = 1300, pt_y = 700\<rparr>\<rparr>"
  have "\<exists>pane \<in> set (getPxBoundList ?s ?b). bounds_contains_point pane \<lparr>pt_x = 30, pt_y = 650\<rparr>" by code_simp
  then show ?thesis
    using panes_show_screen [of ?b 1000 500 300 200 ?s "sample_app\<lparr>ta_pxBoundList := Some (getPxBoundList ?s),
      ta_panesProperties := getPanesProperties ?s\<rparr>" "\<lparr>pt_x = 30, pt_y = 650\<rparr>", THEN conjunct1] by simp
qed

subsection \<open>Rectangles in twips\<close>

text \<open>The bounds in core pixels of a rectangle in twips.\<close>

definition px_bounds :: "app_scale \<Rightarrow> simple_rectangle \<Rightarrow> bounds" where
  "px_bounds app r =
     (let (x, y, w, h) = SimpleRectangle_pToArray app r
      in Bounds \<lparr>pt_x = of_int x, pt_y = of_int y\<rparr> \<lparr>pt_x = of_int (x + w), pt_y = of_int (y + h)\<rparr>)"

definition whole_scale :: "app_scale \<Rightarrow> int \<Rightarrow> bool" where
  "whole_scale app k \<longleftrightarrow> 0 < k \<and> pixelsToTwips app = of_int k \<and> twipsToPixels app = 1 / of_int k"

definition twips_rect :: "int \<Rightarrow> int_rect \<Rightarrow> simple_rectangle \<Rightarrow> bool" where
  "twips_rect k a r \<longleftrightarrow> SimpleRectangle_toArray r = (case a of (x, y, w, h) \<Rightarrow> (x * k, y * k, w * k, h * k))"

lemma from_core_whole: "whole_scale app k \<Longrightarrow> fromCore app (of_int v) = v * k"
  by (simp add: whole_scale_def fromCore_def flip: of_int_mult)

lemma to_core_whole: "whole_scale app k \<Longrightarrow> toCore app (v * k) = v"
  by (simp add: whole_scale_def toCore_def)

lemma px_bounds_whole:
  "whole_scale app k \<Longrightarrow> twips_rect k (x, y, w, h) r \<Longrightarrow>
   px_bounds app r = Bounds \<lparr>pt_x = of_int x, pt_y = of_int y\<rparr> \<lparr>pt_x = of_int (x + w), pt_y = of_int (y + h)\<rparr>"
  by (simp add: px_bounds_def SimpleRectangle_pToArray_def SimpleRectangle_toArray_def twips_rect_def to_core_whole)

lemma clone_same [simp]: "SimpleRectangle_clone r = r"
  by (simp add: SimpleRectangle_clone_def SimpleRectangle_def)

text \<open>What the steps of \<open>getViewRectangles\<close> do to a rectangle at whole pixels.\<close>

lemma twips_rect_steps:
  assumes k: "whole_scale app k" and r: "twips_rect k (x, y, w, h) r"
  shows "twips_rect k (0, y, v, h) (SimpleRectangle_set_pX2 app (of_int v) (set_pX1 app 0 r))"
    and "twips_rect k (x, 0, w, v) (SimpleRectangle_set_pY2 app (of_int v) (set_pY1 app 0 r))"
    and "toCore app (sr_width r) = w" and "toCore app (sr_height r) = h"
    and "twips_rect k (a, b, w', h') q \<Longrightarrow> twips_rect k (x + w - v, b, v, h') (keep_right app r (of_int v) q)"
    and "twips_rect k (a, b, w', h') q \<Longrightarrow> twips_rect k (a, y + h - v, w', v) (keep_bottom app r (of_int v) q)"
proof -
  have r': "sr_x1 r = x * k" "sr_y1 r = y * k" "sr_width r = w * k" "sr_height r = h * k"
    using r by (simp_all add: twips_rect_def SimpleRectangle_toArray_def)
  note core = from_core_whole [OF k] to_core_whole [OF k]
  have zero: "fromCore app 0 = 0" using from_core_whole [OF k, of 0] by simp
  have diff: "fromCore app (of_int u - of_int v) = (u - v) * k" for u v
    using from_core_whole [OF k, of "u - v"] by simp
  show "twips_rect k (0, y, v, h) (SimpleRectangle_set_pX2 app (of_int v) (set_pX1 app 0 r))"
    "twips_rect k (x, 0, w, v) (SimpleRectangle_set_pY2 app (of_int v) (set_pY1 app 0 r))"
    "toCore app (sr_width r) = w" "toCore app (sr_height r) = h"
    using r' by (simp_all add: twips_rect_def SimpleRectangle_toArray_def SimpleRectangle_set_pX2_def SimpleRectangle_set_pY2_def
        set_pX1_def set_pY1_def core zero)
  show "twips_rect k (x + w - v, b, v, h') (keep_right app r (of_int v) q)" if "twips_rect k (a, b, w', h') q"
    using r' that diff [of "x + w" v]
    by (simp add: twips_rect_def SimpleRectangle_toArray_def keep_right_def set_pX1_def set_pWidth_def get_pX2_def core)
  show "twips_rect k (a, y + h - v, w', v) (keep_bottom app r (of_int v) q)" if "twips_rect k (a, b, w', h') q"
    using r' that diff [of "y + h" v]
    by (simp add: twips_rect_def SimpleRectangle_toArray_def keep_bottom_def set_pY1_def set_pHeight_def get_pY2_def core)
qed

text \<open>
  At a whole number of twips per pixel the rectangles in twips of the visible parts are the panes
  in core pixels, in the same order.
\<close>

theorem view_rectangles_are_panes:
  assumes k: "whole_scale app k" and viewed: "twips_rect k (x, y, w, h) viewed"
    and pos: "spc_splitPos s = \<lparr>pt_x = of_int X, pt_y = of_int Y\<rparr>"
    and "b = px_bounds app viewed" and "0 \<le> X" and "X \<le> w" and "0 \<le> Y" and "Y \<le> h"
  shows "map (px_bounds app) (getViewRectangles app viewed s) = getPxBoundList s b"
proof -
  have b: "b = Bounds \<lparr>pt_x = of_int x, pt_y = of_int y\<rparr> \<lparr>pt_x = of_int (x + w), pt_y = of_int (y + h)\<rparr>"
    using px_bounds_whole [OF k viewed] assms(4) by simp
  have corners: "pt_x (bd_min b) = of_int x" "pt_y (bd_min b) = of_int y"
      "pt_x (bd_max b) = of_int (x + w)" "pt_y (bd_max b) = of_int (y + h)"
    using assms(5-8) by (simp_all add: b Bounds_corners)
  note step = twips_rect_steps [OF k] and px = px_bounds_whole [OF k]
  define r0 where "r0 = SimpleRectangle_set_pX2 app (of_int X) (set_pX1 app 0 viewed)"
  define r1 where "r1 = SimpleRectangle_set_pY2 app (of_int Y) (set_pY1 app 0 viewed)"
  define r2 where "r2 = SimpleRectangle_set_pY2 app (of_int Y) (set_pY1 app 0 r0)"
  have r0: "twips_rect k (0, y, X, h) r0" and r1: "twips_rect k (x, 0, w, Y) r1"
    unfolding r0_def r1_def by (rule step [OF viewed])+
  have r2: "twips_rect k (0, 0, X, Y) r2" unfolding r2_def by (rule step(2) [OF r0])
  note size = step(3,4) [OF viewed] step(3) [OF r0] step(4) [OF r2] step(4) [OF r1]
  let ?tr = "keep_right app viewed (of_int (w - X)) viewed" and ?bl = "keep_bottom app viewed (of_int (h - Y)) viewed"
  have tr: "twips_rect k (x + X, y, w - X, h) ?tr" using step(5) [OF viewed viewed, of "w - X"] by simp
  have bl: "twips_rect k (x, y + Y, w, h - Y) ?bl" using step(6) [OF viewed viewed, of "h - Y"] by simp
  have br: "twips_rect k (x + X, y + Y, w - X, h - Y) (keep_bottom app viewed (of_int (h - Y)) ?tr)"
    using step(6) [OF viewed tr, of "h - Y"] by simp
  note tr' = step(2) [OF tr, of Y] and bl' = step(1) [OF bl, of X]
  show ?thesis
    unfolding bound_list_panes
    using px [OF r0] px [OF r1] px [OF r2] px [OF tr] px [OF tr'] px [OF bl] px [OF bl'] px [OF br] px [OF viewed] size assms(5-8)
    by (simp add: getViewRectangles_def getPanesProperties_def pos pane_bounds_def corners Let_def
        flip: r0_def r1_def r2_def of_int_diff)
qed

theorem view_rectangles_are_panes_witness:
  "length (getViewRectangles (se_scale sample_calc) (SimpleRectangle 15000 7500 4500 3000 0 0)
     ((new_SplitPanes 0)\<lparr>spc_splitPos := \<lparr>pt_x = 85, pt_y = 136\<rparr>\<rparr>)) = 4"
proof -
  let ?s = "(new_SplitPanes 0)\<lparr>spc_splitPos := \<lparr>pt_x = 85, pt_y = 136\<rparr>\<rparr>" and ?v = "SimpleRectangle 15000 7500 4500 3000 0 0"
  have "whole_scale (se_scale sample_calc) 15" "twips_rect 15 (1000, 500, 300, 200) ?v" by code_simp+
  then have "map (px_bounds (se_scale sample_calc)) (getViewRectangles (se_scale sample_calc) ?v ?s) =
      getPxBoundList ?s (px_bounds (se_scale sample_calc) ?v)"
    using view_rectangles_are_panes [of "se_scale sample_calc" 15 1000 500 300 200 ?v ?s 85 136] by simp
  from arg_cong [OF this, of length] show ?thesis by (simp add: bound_list_panes getPanesProperties_def Let_def)
qed

end
