(* ===== verification/Tile_Invariant.thy ===== *)
theory Tile_Invariant
  imports Tile_Prefetch
begin

section \<open>Invariants of the tile manager\<close>

text \<open>
  Two invariants of the manager: every tile is stored under its key with a chain of deltas that
  starts at a keyframe, and the list of bitmaps is the list of the tiles with a bitmap. The locale
  \<open>manager_invariant\<close> is what an invariant has to promise for the primitive changes; inside it all
  operations of the manager are shown to keep it, once for both.
\<close>

subsection \<open>Lookups\<close>

named_theorems tile_defs \<open>definitions of operations that only compose others\<close>

lemma keys_map_entry [simp]: "map fst (AList.map_entry k f xs) = map fst xs"
  by (induction xs) auto

lemma get_tile_upd [simp]:
  "get_tile k' (upd_tile k f m) = (if k' = k then map_option f (get_tile k m) else get_tile k' m)"
  by (auto simp: get_tile_def upd_tile_def AList.map_of_map_entry split: option.splits)

lemma keys_upd [simp]: "map fst (tm_tiles (upd_tile k f m)) = map fst (tm_tiles m)"
  by (simp add: upd_tile_def)

lemma upd_tile_list [simp]: "tm_tileBitmapList (upd_tile k f m) = tm_tileBitmapList m"
  by (simp add: upd_tile_def)

lemma get_tile_create [simp]:
  "get_tile k (createTile c m) = (if k = tile_key c \<and> get_tile k m = None then Some (new_Tile c) else get_tile k m)"
  by (auto simp: createTile_def get_tile_def AList.update_conv Let_def)

lemma get_tile_cong: "tm_tiles m' = tm_tiles m \<Longrightarrow> get_tile k m' = get_tile k m"
  by (simp add: get_tile_def)

lemma get_tile_keys: "get_tile k m = Some t \<Longrightarrow> k \<in> set (map fst (tm_tiles m))"
  by (force simp: get_tile_def dest: map_of_SomeD)

lemma get_tile_iff:
  "distinct (map fst (tm_tiles m)) \<Longrightarrow> get_tile k m = Some t \<longleftrightarrow> (k, t) \<in> set (tm_tiles m)"
  by (simp add: get_tile_def map_of_eq_Some_iff)

lemma effect_frame [simp]:
  "tm_tiles (effect e m) = tm_tiles m" "tm_tileBitmapList (effect e m) = tm_tileBitmapList m"
  by (simp_all add: effect_def)

lemma store_message_stored: "get_tile (tile_key (tileMsgToCoords app msg)) (store_message app msg img m) \<noteq> None"
  by (simp add: store_message_def Let_def updateTileDistance_def get_tile_def [of _ "tm_fetchKeyframeQueue_update _ _"])
    (simp add: get_tile_def [symmetric])

subsection \<open>The invariants\<close>

text \<open>
  The deltas of a tile start at a keyframe and have consecutive identifiers up to the last one
  given out, which is not before the last one queued for decompression.
\<close>

definition deltas_ok :: "tile \<Rightarrow> bool" where
  "deltas_ok t \<longleftrightarrow>
     (ti_rawDeltas t \<noteq> [] \<longrightarrow> rd_isKeyframe (hd (ti_rawDeltas t))) \<and>
     map rd_id (ti_rawDeltas t) = [Suc (ti_deltaId t) - length (ti_rawDeltas t)..<Suc (ti_deltaId t)] \<and>
     length (ti_rawDeltas t) \<le> ti_deltaId t \<and> ti_lastPendingId t \<le> ti_deltaId t"

definition tiles_ok :: "tile_manager \<Rightarrow> bool" where
  "tiles_ok m \<longleftrightarrow> distinct (map fst (tm_tiles m)) \<and>
     list_all (\<lambda>(k, t). k = tile_key (ti_coords t) \<and> deltas_ok t) (tm_tiles m)"

definition bitmap_keys :: "tile_manager \<Rightarrow> string list" where
  "bitmap_keys m = map fst (filter (\<lambda>(k, t). ti_image t \<noteq> None) (tm_tiles m))"

definition bitmaps_ok :: "tile_manager \<Rightarrow> bool" where
  "bitmaps_ok m \<longleftrightarrow> distinct (map fst (tm_tiles m)) \<and> distinct (tm_tileBitmapList m) \<and>
     set (tm_tileBitmapList m) = set (bitmap_keys m) \<and> length (tm_tileBitmapList m) \<le> Suc highNumBitmaps"

text \<open>A change of a tile that both invariants allow.\<close>

definition tile_change :: "tile \<Rightarrow> tile \<Rightarrow> bool" where
  "tile_change t t' \<longleftrightarrow> ti_coords t' = ti_coords t \<and> ti_image t' = ti_image t \<and> (deltas_ok t \<longrightarrow> deltas_ok t')"

lemma tiles_ok_iff:
  "tiles_ok m \<longleftrightarrow> distinct (map fst (tm_tiles m)) \<and>
     (\<forall>k t. get_tile k m = Some t \<longrightarrow> k = tile_key (ti_coords t) \<and> deltas_ok t)"
  unfolding tiles_ok_def list_all_iff by (auto simp: get_tile_iff)

lemma bitmap_keys_iff:
  "distinct (map fst (tm_tiles m)) \<Longrightarrow>
   k \<in> set (bitmap_keys m) \<longleftrightarrow> (\<exists>t. get_tile k m = Some t \<and> ti_image t \<noteq> None)"
  by (auto simp: bitmap_keys_def get_tile_iff image_iff)

lemma bitmaps_ok_iff:
  "bitmaps_ok m \<longleftrightarrow> distinct (map fst (tm_tiles m)) \<and> distinct (tm_tileBitmapList m) \<and>
     (\<forall>k. k \<in> set (tm_tileBitmapList m) \<longleftrightarrow> (\<exists>t. get_tile k m = Some t \<and> ti_image t \<noteq> None)) \<and>
     length (tm_tileBitmapList m) \<le> Suc highNumBitmaps"
  unfolding bitmaps_ok_def set_eq_iff by (intro conj_cong refl) (simp add: bitmap_keys_iff)

subsection \<open>Changes of a tile\<close>

lemma tile_change_refl [simp]: "tile_change t t"
  by (simp add: tile_change_def)

lemma tile_change_trans: "tile_change t t' \<Longrightarrow> tile_change t' t'' \<Longrightarrow> tile_change t t''"
  by (simp add: tile_change_def)

lemma deltas_ok_cong:
  "ti_rawDeltas t' = ti_rawDeltas t \<Longrightarrow> ti_deltaId t' = ti_deltaId t \<Longrightarrow> ti_lastPendingId t' = ti_lastPendingId t \<Longrightarrow>
   deltas_ok t' = deltas_ok t"
  by (simp add: deltas_ok_def)

lemma deltas_ok_id:
  assumes "deltas_ok t" and "i < length (ti_rawDeltas t)"
  shows "rd_id (ti_rawDeltas t ! i) = Suc (ti_deltaId t) - length (ti_rawDeltas t) + i"
proof -
  have ids: "map rd_id (ti_rawDeltas t) = [Suc (ti_deltaId t) - length (ti_rawDeltas t)..<Suc (ti_deltaId t)]"
    and "length (ti_rawDeltas t) \<le> ti_deltaId t"
    using assms(1) by (auto simp: deltas_ok_def simp del: upt_Suc)
  have "rd_id (ti_rawDeltas t ! i) = map rd_id (ti_rawDeltas t) ! i" using assms(2) by simp
  also have "\<dots> = [Suc (ti_deltaId t) - length (ti_rawDeltas t)..<Suc (ti_deltaId t)] ! i" by (simp only: ids)
  finally show ?thesis using assms(2) \<open>length (ti_rawDeltas t) \<le> ti_deltaId t\<close> by (simp add: nth_upt del: upt_Suc)
qed

lemma deltas_ok_last: "deltas_ok t \<Longrightarrow> ti_rawDeltas t \<noteq> [] \<Longrightarrow> rd_id (last (ti_rawDeltas t)) = ti_deltaId t"
proof -
  assume ok: "deltas_ok t" and ne: "ti_rawDeltas t \<noteq> []"
  then have "0 < length (ti_rawDeltas t)" and "length (ti_rawDeltas t) \<le> ti_deltaId t" by (auto simp: deltas_ok_def)
  then show ?thesis using deltas_ok_id [OF ok, of "length (ti_rawDeltas t) - 1"] ne
    by (cases "length (ti_rawDeltas t)") (auto simp: last_conv_nth)
qed

lemma deltas_ok_push:
  assumes "deltas_ok t" and "snd img \<or> hasKeyframe t"
  shows "deltas_ok (push_delta img t)"
  using assms by (auto simp: deltas_ok_def push_delta_def hasKeyframe_def Let_def hd_append upt_Suc_append
      simp del: upt_Suc)

lemma deltas_ok_clear: "deltas_ok t \<Longrightarrow> deltas_ok (t\<lparr>ti_rawDeltas := []\<rparr>)"
  by (simp add: deltas_ok_def)

lemma deltas_ok_pending:
  "deltas_ok t \<Longrightarrow> i \<le> ti_deltaId t \<Longrightarrow> deltas_ok (t\<lparr>ti_lastPendingId := i\<rparr>)"
  by (simp add: deltas_ok_def)

lemma last_keyframe_less: "last_keyframe ds i \<le> i"
  by (induction ds i rule: last_keyframe.induct) (auto simp: le_SucI)

lemma last_keyframe_is: "last_keyframe ds i \<noteq> 0 \<Longrightarrow> rd_isKeyframe (ds ! last_keyframe ds i)"
  by (induction ds i rule: last_keyframe.induct) (auto split: if_splits)

lemma last_keyframe_after: "last_keyframe ds i < j \<Longrightarrow> j \<le> i \<Longrightarrow> \<not> rd_isKeyframe (ds ! j)"
  by (induction ds i rule: last_keyframe.induct) (auto simp: le_Suc_eq split: if_splits)

lemma last_keyframe_length: "ds \<noteq> [] \<Longrightarrow> last_keyframe ds (length ds - 1) < length ds"
  using last_keyframe_less [of ds "length ds - 1"] by (cases ds) auto

lemma last_keyframe_keyframe:
  "ds \<noteq> [] \<Longrightarrow> rd_isKeyframe (hd ds) \<Longrightarrow> rd_isKeyframe (ds ! last_keyframe ds (length ds - 1))"
  using last_keyframe_is [of ds "length ds - 1"] by (cases "last_keyframe ds (length ds - 1) = 0") (auto simp: hd_conv_nth)

lemma deltas_ok_drop:
  assumes "deltas_ok t" and "i < length (ti_rawDeltas t)" and "rd_isKeyframe (ti_rawDeltas t ! i)"
  shows "deltas_ok (t\<lparr>ti_rawDeltas := drop i (ti_rawDeltas t)\<rparr>)"
proof -
  let ?n = "length (ti_rawDeltas t)"
  have len: "?n \<le> ti_deltaId t" and ids: "map rd_id (ti_rawDeltas t) = [Suc (ti_deltaId t) - ?n..<Suc (ti_deltaId t)]"
    using assms(1) by (auto simp: deltas_ok_def simp del: upt_Suc)
  have "map rd_id (drop i (ti_rawDeltas t)) = drop i (map rd_id (ti_rawDeltas t))" by (simp add: drop_map)
  also have "\<dots> = [Suc (ti_deltaId t) - ?n + i..<Suc (ti_deltaId t)]" by (simp only: ids drop_upt)
  also have "Suc (ti_deltaId t) - ?n + i = Suc (ti_deltaId t) - length (drop i (ti_rawDeltas t))" using len assms(2) by simp
  finally show ?thesis
    using assms len by (simp add: deltas_ok_def hd_drop_conv_nth del: upt_Suc)
qed

lemma deltas_ok_discard:
  assumes ok: "deltas_ok t"
  shows "deltas_ok (discard_old t)"
proof (cases "ti_rawDeltas t = []")
  case False
  with ok have "rd_isKeyframe (ti_rawDeltas t ! last_keyframe (ti_rawDeltas t) (length (ti_rawDeltas t) - 1))"
    by (intro last_keyframe_keyframe) (auto simp: deltas_ok_def)
  then show ?thesis unfolding discard_old_def by (intro deltas_ok_drop ok last_keyframe_length False)
qed (use ok in \<open>simp add: discard_old_def deltas_ok_def\<close>)

lemma tile_change_receive: "tile_change t (fst (receive_delta msg img t))"
proof -
  let ?t = "t\<lparr>ti_viewId := msg_nviewid msg, ti_wireId := msg_wireId msg\<rparr>"
  have "deltas_ok t \<longrightarrow> deltas_ok ?t" by (simp add: deltas_ok_def)
  moreover have "tile_change ?t (push_delta i ?t)" if "snd i \<or> hasKeyframe ?t" for i
    using deltas_ok_push [of ?t i] that by (simp add: tile_change_def) (simp add: push_delta_def Let_def)
  moreover have "tile_change ?t ((forceKeyframe 0 ?t)\<lparr>ti_gcErrors := n\<rparr>)" for n
    by (simp add: tile_change_def forceKeyframe_def allowFastRequest_def updateLastRequest_def deltas_ok_def)
  ultimately show ?thesis
    by (auto simp: receive_delta_def Let_def split: option.split intro: tile_change_trans [of t ?t])
      (simp_all add: tile_change_def)
qed

lemma deltas_ok_new [simp]: "deltas_ok (new_Tile c)"
  by (simp add: deltas_ok_def new_Tile_def)

text \<open>
  Where the decompression of a tile goes on: after what is queued already, or at the last keyframe, which is
  decompressed again when it is the delta that was queued last.
\<close>

definition resume_id :: "tile \<Rightarrow> nat" where
  "resume_id t =
     (let kf = rd_id (ti_rawDeltas t ! last_keyframe (ti_rawDeltas t) (length (ti_rawDeltas t) - 1))
      in if ti_lastPendingId t > kf then ti_lastPendingId t + 1 else kf)"

lemma needsRehydration_iff:
  "deltas_ok t \<Longrightarrow> needsRehydration t \<longleftrightarrow> ti_rawDeltas t \<noteq> [] \<and> ti_lastPendingId t \<noteq> ti_deltaId t"
  by (auto simp: needsRehydration_def deltas_ok_last)

lemma first_delta_ok:
  assumes ok: "deltas_ok t" and need: "needsRehydration t"
  shows "first_delta t < length (ti_rawDeltas t)" and "rd_id (ti_rawDeltas t ! first_delta t) = resume_id t"
proof -
  let ?ds = "ti_rawDeltas t" and ?base = "Suc (ti_deltaId t) - length (ti_rawDeltas t)"
  define kf where "kf = last_keyframe ?ds (length ?ds - 1)"
  have ne: "?ds \<noteq> []" and pend: "ti_lastPendingId t < ti_deltaId t"
    using need ok needsRehydration_iff [OF ok] by (auto simp: deltas_ok_def)
  have kf: "kf < length ?ds" using last_keyframe_length [OF ne] by (simp add: kf_def)
  have len: "length ?ds \<le> ti_deltaId t" using ok by (simp add: deltas_ok_def)
  have id: "\<And>i. i < length ?ds \<Longrightarrow> rd_id (?ds ! i) = ?base + i" by (rule deltas_ok_id [OF ok])
  show "first_delta t < length ?ds" and "rd_id (?ds ! first_delta t) = resume_id t"
  proof (atomize (full), cases "ti_lastPendingId t > rd_id (?ds ! kf)")
    case True
    define i where "i = ti_lastPendingId t - ?base"
    have i: "i + 1 < length ?ds" and base: "?base + i = ti_lastPendingId t"
      using True pend len kf by (auto simp: i_def id)
    then have "rd_id (?ds ! i) = ti_lastPendingId t" by (simp add: id)
    moreover have "?ds ! i \<in> set ?ds" using i by simp
    ultimately have found: "js_findIndex (\<lambda>d. rd_id d = ti_lastPendingId t) ?ds \<noteq> -1"
      unfolding js_findIndex_none by blast
    then have "rd_id (?ds ! nat (js_findIndex (\<lambda>d. rd_id d = ti_lastPendingId t) ?ds)) = ti_lastPendingId t"
      and "0 \<le> js_findIndex (\<lambda>d. rd_id d = ti_lastPendingId t) ?ds"
      and "js_findIndex (\<lambda>d. rd_id d = ti_lastPendingId t) ?ds < int (length ?ds)"
      using js_findIndex_found [OF refl found] by auto
    then have "nat (js_findIndex (\<lambda>d. rd_id d = ti_lastPendingId t) ?ds) = i"
      using base i by (simp add: id nat_less_iff)
    then have "first_delta t = i + 1"
      using True found \<open>0 \<le> _\<close> by (simp add: first_delta_def kf_def Let_def nat_add_distrib)
    then show "first_delta t < length ?ds \<and> rd_id (?ds ! first_delta t) = resume_id t"
      using i base True by (simp add: id resume_id_def kf_def)
  next
    case False
    then have "first_delta t = kf" by (simp add: first_delta_def kf_def Let_def)
    with False kf show "first_delta t < length ?ds \<and> rd_id (?ds ! first_delta t) = resume_id t"
      by (simp add: resume_id_def kf_def)
  qed
qed

subsection \<open>What an invariant promises\<close>

text \<open>
  The primitive changes of the manager keep the invariant \<open>I\<close>; \<open>E\<close> holds of the exceptions that may
  be thrown in a manager where \<open>I\<close> holds.
\<close>

lemma sum_bind_keeps:
  "pred_sum E P r \<Longrightarrow> (\<And>x. P x \<Longrightarrow> pred_sum E' Q (f x)) \<Longrightarrow> (\<And>e. E e \<Longrightarrow> E' e) \<Longrightarrow> pred_sum E' Q (sum_bind r f)"
  by (cases r) (auto simp: sum_bind_def)

lemma fold_keeps: "(\<And>x m. x \<in> set xs \<Longrightarrow> P m \<Longrightarrow> P (f x m)) \<Longrightarrow> P m \<Longrightarrow> P (fold f xs m)"
  by (induction xs arbitrary: m) auto

locale manager_invariant =
  fixes I :: "tile_manager \<Rightarrow> bool" and E :: "js_error \<Rightarrow> bool"
  assumes frame: "I m \<Longrightarrow> tm_tiles m' = tm_tiles m \<Longrightarrow> tm_tileBitmapList m' = tm_tileBitmapList m \<Longrightarrow> I m'"
    and keeps_upd: "I m \<Longrightarrow> (\<And>t. get_tile k m = Some t \<Longrightarrow> tile_change t (f t)) \<Longrightarrow> I (upd_tile k f m)"
    and keeps_createTile: "I m \<Longrightarrow> I (createTile c m)"
    and keeps_reclaim: "I m \<Longrightarrow> I (reclaimTileBitmapMemory k m)"
    and keeps_removeTile: "I m \<Longrightarrow> I (removeTile k m)"
    and keeps_removeAllTiles: "I m \<Longrightarrow> I (removeAllTiles m)"
    and keeps_setBitmap: "I m \<Longrightarrow> I (setBitmapOnTile k b m)"
    and keeps_sort: "I m \<Longrightarrow> I (sortTileBitmapList m)"
    and broken_throws: "I m \<Longrightarrow> get_tile k m = Some t \<Longrightarrow> \<not> deltas_ok t \<Longrightarrow> E TypeError"
begin

lemma frame_iff: "tm_tiles m' = tm_tiles m \<Longrightarrow> tm_tileBitmapList m' = tm_tileBitmapList m \<Longrightarrow> I m' = I m"
  by (metis frame)

lemma frame_simps [simp]:
  "I (effect e m) = I m" "I (m\<lparr>tm_tileImageCache := c\<rparr>) = I m" "I (m\<lparr>tm_emptyTilesCount := n\<rparr>) = I m"
  "I (m\<lparr>tm_inTransaction := n\<rparr>) = I m" "I (m\<lparr>tm_pendingDeltas := ds\<rparr>) = I m"
  "I (m\<lparr>tm_transactionCallbacks := cbs\<rparr>) = I m" "I (m\<lparr>tm_nPendingWorkerTasks := n\<rparr>) = I m"
  "I (m\<lparr>tm_nullDeltaUpdate := n\<rparr>) = I m" "I (m\<lparr>tm_queuedProcessed := ids\<rparr>) = I m"
  "I (m\<lparr>tm_fetchKeyframeQueue := cs\<rparr>) = I m" "I (m\<lparr>tm_pendingTileCombineQueue := cs\<rparr>) = I m"
  "I (m\<lparr>tm_tileCombineFlushTimer := b\<rparr>) = I m" "I (m\<lparr>tm_lastTileCombineFlushTs := i\<rparr>) = I m"
  "I (m\<lparr>tm_pausedForCoherency := b\<rparr>) = I m" "I (m\<lparr>tm_dehydratedCurrentTiles := ks\<rparr>) = I m"
  "I (m\<lparr>tm_shrinkCurrentId := b\<rparr>) = I m" "I (m\<lparr>tm_moveTileRequests := ks\<rparr>) = I m"
  "I (m\<lparr>tm_receivedFirstTile := b\<rparr>) = I m" "I (m\<lparr>tm_afterFirstTileTasks := ts\<rparr>) = I m"
  "I (m\<lparr>tm_zoom := z\<rparr>) = I m" "I (m\<lparr>tm_preFetchPart := z\<rparr>) = I m" "I (m\<lparr>tm_preFetchMode := ms\<rparr>) = I m"
  "I (m\<lparr>tm_hasEditPerm := p\<rparr>) = I m" "I (m\<lparr>tm_pixelBounds := pb\<rparr>) = I m" "I (m\<lparr>tm_splitPos := sp\<rparr>) = I m"
  "I (m\<lparr>tm_borders := bs\<rparr>) = I m" "I (m\<lparr>tm_cumTileCount := n\<rparr>) = I m" "I (m\<lparr>tm_tilesPreFetcher := b\<rparr>) = I m"
  "I (m\<lparr>tm_preFetchIdle := b\<rparr>) = I m"
  by (rule frame_iff; simp)+

lemma fold_effects [simp]: "I (fold (\<lambda>x. effect (f x)) xs m) = I m"
  by (induction xs arbitrary: m) auto

text \<open>Changes of a tile that leave its deltas alone.\<close>

lemma keeps_upd_other:
  assumes "I m" and "\<And>t. ti_coords (f t) = ti_coords t" "\<And>t. ti_image (f t) = ti_image t"
    "\<And>t. ti_rawDeltas (f t) = ti_rawDeltas t" "\<And>t. ti_deltaId (f t) = ti_deltaId t"
    "\<And>t. ti_lastPendingId (f t) = ti_lastPendingId t"
  shows "I (upd_tile k f m)"
  by (rule keeps_upd [OF assms(1)]) (simp add: tile_change_def assms deltas_ok_cong [of "f _"])

lemma keeps_forceKeyframe: "I m \<Longrightarrow> I (upd_tile k (forceKeyframe w) m)"
  by (rule keeps_upd_other) (simp_all add: forceKeyframe_def allowFastRequest_def updateLastRequest_def)

lemma keeps_updateTileDistance: "I m \<Longrightarrow> I (updateTileDistance app k zoom m)"
  unfolding updateTileDistance_def by (rule keeps_upd_other) simp_all

lemma keeps_touchImage: "I m \<Longrightarrow> I (touchImage k m)"
  unfolding touchImage_def by (rule keeps_upd_other) simp_all

subsubsection \<open>Garbage collection\<close>

lemma keeps_gc_memory: "I m \<Longrightarrow> I (gc_memory low ks size' m)"
proof (induction low ks size' m rule: gc_memory.induct)
  case (2 low k ks size' m)
  have "I (upd_tile k (\<lambda>t. forceKeyframe 0 (t\<lparr>ti_rawDeltas := []\<rparr>)) (reclaimTileBitmapMemory k m))"
    by (rule keeps_upd [OF keeps_reclaim [OF 2(4)]])
      (simp add: tile_change_def forceKeyframe_def allowFastRequest_def updateLastRequest_def deltas_ok_def)
  with 2 show ?case by (auto split: option.splits)
qed simp

lemma keeps_gc_count: "I m \<Longrightarrow> I (gc_count ks m)"
  by (induction ks m rule: gc_count.induct) (auto simp: keeps_removeTile split: option.splits)

lemma keeps_garbageCollect: "I m \<Longrightarrow> I (garbageCollect all m)"
  by (simp add: garbageCollect_def Let_def keeps_gc_count keeps_gc_memory split: prod.splits)

lemma keeps_reclaimGraphicsMemory: "I m \<Longrightarrow> I (reclaimGraphicsMemory m)"
proof -
  assume "I m"
  then have "I (fold (\<lambda>(k, t) m. reclaimTileBitmapMemory k
      (if ti_distanceFromView t = 0 then m\<lparr>tm_dehydratedCurrentTiles := tm_dehydratedCurrentTiles m @ [k]\<rparr> else m))
    (tm_tiles m) m)"
    by (rule fold_keeps [rotated]) (auto intro: keeps_reclaim)
  then show ?thesis by (simp add: reclaimGraphicsMemory_def Let_def)
qed

subsubsection \<open>Decompression\<close>

lemma keeps_rehydrateTile:
  assumes "I m" and "get_tile k m = Some t"
  shows "pred_sum E I (rehydrateTile k w m)"
proof (cases "needsRehydration t")
  case True
  let ?m = "if ti_distanceFromView t = 0 \<and> \<not> tm_pausedForCoherency m
    then (effect PauseDrawing m)\<lparr>tm_pausedForCoherency := True\<rparr> else m"
  let ?ds = "ti_rawDeltas t"
  have get: "get_tile k ?m = Some t" using assms(2) by (simp add: get_tile_def)
  have I: "I ?m" using assms(1) by simp
  have "deltas_ok t \<longrightarrow> deltas_ok (t\<lparr>ti_lastPendingId := rd_id (last ?ds)\<rparr>)"
    using True by (auto simp: needsRehydration_def deltas_ok_last intro!: deltas_ok_pending split: if_splits)
  then have "I (upd_tile k (\<lambda>t. t\<lparr>ti_lastPendingId := rd_id (last ?ds)\<rparr>) ?m)"
    by (intro keeps_upd [OF I]) (simp add: get tile_change_def)
  then have post: "I (applyCompressedDelta k rs kf w (i, rd_id (last ?ds)) ?m)" for rs kf i
    by (simp add: applyCompressedDelta_def get Let_def)
  have "js_nth ?ds (int (first_delta t)) = None \<Longrightarrow> E TypeError"
    using broken_throws [OF assms] first_delta_ok(1) [of t] True by (cases "deltas_ok t") auto
  with post show ?thesis
    using assms(2) True by (simp add: rehydrateTile_def Let_def split: option.split split del: if_split)
qed (use assms in \<open>simp add: rehydrateTile_def\<close>)

lemma keeps_makeTileCurrent:
  assumes "I m" and "get_tile k m \<noteq> None"
  shows "pred_sum E (\<lambda>(pending, m). I m) (makeTileCurrent k m)"
proof -
  let ?m = "upd_tile k (\<lambda>t. allowFastRequest (t\<lparr>ti_distanceFromView := 0\<rparr>)) m"
  have "I ?m" by (rule keeps_upd_other [OF assms(1)]) (simp_all add: allowFastRequest_def updateLastRequest_def)
  moreover obtain t where "get_tile k ?m = Some t" using assms(2) by auto
  ultimately have "pred_sum E I (rehydrateTile k False ?m)" by (rule keeps_rehydrateTile)
  then show ?thesis by (cases "rehydrateTile k False ?m") (simp_all add: makeTileCurrent_def)
qed

lemma keeps_tileReady: "I m \<Longrightarrow> I (tileReady app c m)"
proof -
  assume "I m"
  then have "I (upd_tile (tile_key c) discard_old m)"
    by (rule keeps_upd) (auto simp: tile_change_def intro: deltas_ok_discard, simp_all add: discard_old_def)
  with \<open>I m\<close> show ?thesis by (simp add: tileReady_def Let_def split: option.split)
qed

lemma keeps_set_bitmaps: "I m \<Longrightarrow> I (set_bitmaps app bs m)"
proof (induction app bs m rule: set_bitmaps.induct)
  case (2 app k b rest m)
  then show ?case by (auto simp: Let_def keeps_setBitmap keeps_tileReady split: option.split intro!: 2)
qed simp

lemma keeps_run_callbacks [simp]: "I (run_callbacks m) = I m"
  by (simp add: run_callbacks_def)

lemma keeps_handleBitmaps: "I m \<Longrightarrow> I (endTransactionHandleBitmaps app bs m)"
  by (simp add: endTransactionHandleBitmaps_def Let_def keeps_garbageCollect keeps_set_bitmaps)

lemma keeps_decompress_here: "I m \<Longrightarrow> pred_sum I I (decompress_here app k r kf m)"
  by (simp add: decompress_here_def applyDelta_def Let_def split: option.split sum.split prod.split)

lemma keeps_worker_bitmap:
  assumes "I m"
  shows "pred_sum I (\<lambda>st. I (fst st)) (worker_bitmap app k x bitmap t m acc)"
proof -
  have "pred_sum I (\<lambda>st. I (fst st)) (sum_bind (decompress_here app k (pd_rawDelta x) kf m)
      (\<lambda>m3. Inr (m3, createTileBitmap k c m3 acc)))" for c kf
    by (rule sum_bind_keeps [OF keeps_decompress_here [OF assms]]) simp_all
  with assms show ?thesis by (simp add: worker_bitmap_def split: option.split)
qed

lemma keeps_worker_delta:
  assumes "I (fst st)"
  shows "pred_sum I (\<lambda>st. I (fst st)) (worker_delta app xb st)"
proof -
  obtain k x bitmap m acc where [simp]: "xb = ((k, x), bitmap)" "st = (m, acc)" by (metis surj_pair)
  let ?m1 = "upd_tile k (\<lambda>t. t\<lparr>ti_decompressedId := snd (pd_ids x)\<rparr>) m"
  have m1: "I ?m1" by (rule keeps_upd_other) (use assms in simp_all)
  have "I (upd_tile k (count_message kf) ?m1)" for kf
    by (rule keeps_upd_other [OF m1]) (simp_all add: count_message_def)
  moreover have "I (upd_tile k (\<lambda>t. t\<lparr>ti_updateCount := ti_updateCount t + 1\<rparr>) ?m1)"
    by (rule keeps_upd_other [OF m1]) simp_all
  ultimately show ?thesis
    using assms m1 by (simp add: worker_delta_def Let_def keeps_worker_bitmap split: option.split)
qed

lemma keeps_worker_deltas:
  "I (fst st) \<Longrightarrow> pred_sum I (\<lambda>st. I (fst st)) (worker_deltas app xs st)"
  by (induction app xs st rule: worker_deltas.induct) (auto intro: sum_bind_keeps [OF keeps_worker_delta])

lemma keeps_onWorkerEndTransaction: "I m \<Longrightarrow> pred_sum I I (onWorkerEndTransaction app ds rs m)"
  unfolding onWorkerEndTransaction_def Let_def
  by (rule sum_bind_keeps [OF keeps_worker_deltas]) (auto simp: keeps_handleBitmaps split: option.split)

lemma keeps_decompressPendingDeltas: "I m \<Longrightarrow> pred_sum I I (decompressPendingDeltas app m)"
proof -
  assume m: "I m"
  have "I (fold post_bucket bs m)" if "I m" for bs m
    using that by (rule fold_keeps [rotated]) (simp add: post_bucket_def)
  moreover have "pred_sum I I (sum_bind (onWorkerEndTransaction app ds None m') (\<lambda>m3. Inr (m3\<lparr>tm_pendingDeltas := []\<rparr>)))"
    if "I m'" for ds m'
    by (rule sum_bind_keeps [OF keeps_onWorkerEndTransaction [OF that]]) simp_all
  ultimately show ?thesis
    using m by (simp add: decompressPendingDeltas_def Let_def split: sum.split prod.split option.split)
qed

lemma keeps_run_callback [simp]: "I (run_callback c m) = I m"
  by (simp add: run_callback_def split: option.split)

lemma keeps_endTransaction: "I m \<Longrightarrow> I (endTransaction app c m)"
proof -
  have "I (case decompressPendingDeltas app m of
      Inl m3 \<Rightarrow> run_callback c ((effect DisableTaskWorkers m3)\<lparr>tm_inTransaction := 0\<rparr>) | Inr m3 \<Rightarrow> m3)"
    if "I m" for m
    using keeps_decompressPendingDeltas [OF that, of app] by (cases "decompressPendingDeltas app m") simp_all
  then show "I m \<Longrightarrow> ?thesis" by (simp add: endTransaction_def Let_def split: option.split)
qed

lemma keeps_beginTransaction [simp]: "I (beginTransaction m) = I m"
  by (simp add: beginTransaction_def)

lemma keeps_rehydrate_all: "I m \<Longrightarrow> pred_sum E I (rehydrate_all ks m)"
  by (induction ks m rule: rehydrate_all.induct)
    (auto intro!: sum_bind_keeps [where P = I] intro: keeps_rehydrateTile)

lemma keeps_rehydrateCurrentTiles: "I m \<Longrightarrow> pred_sum E I (rehydrateCurrentTiles app m)"
  unfolding rehydrateCurrentTiles_def Let_def
  by (rule sum_bind_keeps [OF keeps_rehydrate_all]) (simp_all add: keeps_endTransaction)

subsubsection \<open>Messages and requests\<close>

lemma keeps_store_message: "I m \<Longrightarrow> I (store_message app msg img m)"
proof -
  assume m: "I m"
  have "I (upd_tile k (\<lambda>t. fst (receive_delta msg img t)) m')" if "I m'" for k m'
    using that by (rule keeps_upd) (rule tile_change_receive)
  with m show ?thesis
    by (simp add: store_message_def Let_def keeps_updateTileDistance keeps_createTile)
qed

lemma keeps_onTileMsg: "I m \<Longrightarrow> pred_sum E I (onTileMsg app msg img m)"
proof (cases "msg_id msg")
  case None
  assume m: "I m"
  define k where "k = tile_key (tileMsgToCoords app msg)"
  define m1 where "m1 = store_message app msg img m"
  have m1: "I m1" unfolding m1_def using m by (rule keeps_store_message)
  moreover have "get_tile k m1 \<noteq> None" using store_message_stored by (simp add: m1_def k_def)
  ultimately have "pred_sum E I (if distance_of m1 k = 0 then rehydrateTile k True m1 else Inr m1)"
    by (auto intro: keeps_rehydrateTile)
  then have "pred_sum E I (sum_bind (if distance_of m1 k = 0 then rehydrateTile k True m1 else Inr m1)
      (\<lambda>m2. Inr (run_first_tasks (queueAcknowledgement msg m2))))"
    by (rule sum_bind_keeps) (simp_all add: run_first_tasks_def queueAcknowledgement_def)
  then show ?thesis by (simp add: onTileMsg_def None Let_def k_def [symmetric] m1_def [symmetric])
qed (simp add: onTileMsg_def queueAcknowledgement_def)

lemma keeps_invalidateTile: "I m \<Longrightarrow> I (invalidateTile k w m)"
proof -
  assume "I m"
  then have "I (upd_tile k (\<lambda>t. t\<lparr>ti_invalidateCount := ti_invalidateCount t + 1\<rparr>) m)"
    by (rule keeps_upd_other) simp_all
  with \<open>I m\<close> show ?thesis
    by (simp add: invalidateTile_def Let_def keeps_removeTile keeps_forceKeyframe split: option.split)
qed

lemma keeps_refreshTilesInBackground: "I m \<Longrightarrow> I (refreshTilesInBackground m)"
  unfolding refreshTilesInBackground_def by (rule fold_keeps) (rule keeps_forceKeyframe)

lemma keeps_invalidate_overlapping: "I m \<Longrightarrow> I (fst (invalidate_overlapping app part mode w rect m))"
  unfolding invalidate_overlapping_def
  by (rule fold_keeps [where P = "\<lambda>st. I (fst st)"]) (auto simp: keeps_invalidateTile split: prod.splits)

lemma keeps_resetReconnect [simp]: "I (resetReconnectTransientState m) = I m"
  by (simp add: resetReconnectTransientState_def Let_def)

lemma keeps_sendTileCombineMessage [simp]: "I (sendTileCombineMessage app part mode xs ys wids n m) = I m"
  by (simp add: sendTileCombineMessage_def)

lemma keeps_request_tiles: "I m \<Longrightarrow> I (snd (request_tiles now cs added m))"
proof (induction now cs added m rule: request_tiles.induct)
  case (2 now c cs added m)
  have "I (upd_tile (tile_key c) (updateLastRequest (Some now)) m)"
    by (rule keeps_upd_other [OF 2(4)]) (simp_all add: updateLastRequest_def)
  with 2 show ?case by (simp add: Let_def)
qed simp

lemma keeps_send_bucket: "I m \<Longrightarrow> I (send_bucket app now b m)"
  using keeps_request_tiles [of m now "snd b" "[]"]
  by (cases "request_tiles now (snd b) [] m") (simp add: send_bucket_def Let_def)

lemma keeps_flush: "I m \<Longrightarrow> I (flushPendingTileCombineQueue app now m)"
proof -
  have "I (sendTileCombineRequestNow app now q m)" if "I m" for q m
    unfolding sendTileCombineRequestNow_def using that by (rule fold_keeps [rotated]) (rule keeps_send_bucket)
  then show "I m \<Longrightarrow> ?thesis" by (simp add: flushPendingTileCombineQueue_def Let_def)
qed

lemma keeps_sendTileCombineRequest [simp]: "I (sendTileCombineRequest now q m) = I m"
  by (simp add: sendTileCombineRequest_def Let_def)

lemma keeps_sendProcessedResponse [simp]: "I (sendProcessedResponse now m) = I m"
  by (simp add: sendProcessedResponse_def Let_def)

lemma keeps_removeIrrelevants [simp]: "I (snd (removeIrrelevantsFromCoordsQueue app q m)) = I m"
proof -
  have "I (snd (keep_relevant app cs kept m)) = I m" for cs kept
    by (induction app cs kept m rule: keep_relevant.induct) auto
  then show ?thesis by (simp add: removeIrrelevantsFromCoordsQueue_def split: list.split prod.split)
    (metis snd_conv)
qed

lemma keeps_initPreFetchPartTiles [simp]: "I (initPreFetchPartTiles app m) = I m"
  by (simp add: initPreFetchPartTiles_def Let_def)

lemma keeps_fold_requests [simp]: "I (fold (sendTileCombineRequest now) qs m) = I m"
  by (induction qs arbitrary: m) auto

lemma keeps_addTiles: "I m \<Longrightarrow> I (addTiles app now q cur m)"
proof -
  assume "I m"
  obtain queue m1 where r: "removeIrrelevantsFromCoordsQueue app q m = (queue, m1)" by fastforce
  with \<open>I m\<close> have "I m1" using keeps_removeIrrelevants [of app q m] by simp
  then have "I (fold (ensure_tile app cur) queue m1)"
    by (rule fold_keeps [rotated]) (simp add: ensure_tile_def Let_def keeps_createTile keeps_updateTileDistance)
  then show ?thesis by (simp add: addTiles_def r Let_def)
qed

subsubsection \<open>The view\<close>

lemma keeps_updateDistances: "I m \<Longrightarrow> I (updateDistances app zoom m)"
  unfolding updateDistances_def by (rule keeps_sort, rule fold_keeps) (rule keeps_updateTileDistance)

lemma needs_no_fetch: "\<not> tileNeedsFetch k m \<Longrightarrow> \<exists>t. get_tile k m = Some t"
  by (cases "get_tile k m") (auto simp: tileNeedsFetch_def)

lemma keeps_check_tiles: "I m \<Longrightarrow> pred_sum E (\<lambda>(q, m). I m) (check_tiles cs q m)"
proof (induction cs q m rule: check_tiles.induct)
  case (2 c cs q m)
  then show ?case
    by (auto simp: Let_def keeps_createTile simp del: get_tile_create
        intro!: sum_bind_keeps [OF keeps_makeTileCurrent] dest: needs_no_fetch)
qed simp

lemma keeps_checkRequestTiles: "I m \<Longrightarrow> pred_sum E (\<lambda>(q, m). I m) (checkRequestTiles now cs send m)"
  unfolding checkRequestTiles_def by (rule sum_bind_keeps [OF keeps_check_tiles]) auto

lemma keeps_missing_loop: "I m \<Longrightarrow> pred_sum E (\<lambda>(q, m). I m) (missing_loop app cur cs q m)"
  by (induction app cur cs q m rule: missing_loop.induct)
    (auto intro!: sum_bind_keeps [OF keeps_makeTileCurrent] dest: needs_no_fetch)

lemma keeps_getMissingTiles: "I m \<Longrightarrow> pred_sum E (\<lambda>(q, m). I m) (getMissingTiles app now b zoom cur m)"
proof -
  assume m: "I m"
  have "pred_sum E (\<lambda>(q, m). I m) (sum_bind (checkRequestTiles now cs False (beginTransaction m))
      (\<lambda>(queue, m1). Inr (queue, endTransaction app None m1)))" for cs
    by (rule sum_bind_keeps [OF keeps_checkRequestTiles]) (use m in \<open>auto simp: keeps_endTransaction\<close>)
  moreover have "pred_sum E (\<lambda>(q, m). I m) (sum_bind (missing_loop app cur cs [] (beginTransaction m1))
      (\<lambda>(queue, m2). Inr (queue, endTransaction app None m2)))" if "I m1" for cs m1
    by (rule sum_bind_keeps [OF keeps_missing_loop]) (use that in \<open>auto simp: keeps_endTransaction\<close>)
  ultimately show ?thesis using m by (simp add: getMissingTiles_def Let_def keeps_updateDistances)
qed

lemma keeps_updateOnChangePart: "I m \<Longrightarrow> pred_sum E I (updateOnChangePart app now m)"
proof -
  have "I (fold createTile q m)" if "I m" for q m
    using that by (rule fold_keeps [rotated]) (rule keeps_createTile)
  then show "I m \<Longrightarrow> ?thesis"
    by (auto simp: updateOnChangePart_def Let_def intro!: sum_bind_keeps [OF keeps_getMissingTiles])
qed

lemma keeps_make_current: "I m \<Longrightarrow> pred_sum E I (make_current cs m)"
  by (induction cs m rule: make_current.induct) (auto intro!: sum_bind_keeps [OF keeps_makeTileCurrent])

lemma keeps_create_missing: "I m \<Longrightarrow> I (snd (create_missing cs q m))"
  by (induction cs q m rule: create_missing.induct) (simp_all add: Let_def keeps_createTile)

lemma keeps_show_file_based: "I m \<Longrightarrow> pred_sum E I (show_file_based app q m)"
proof -
  let ?hide = "\<lambda>k. upd_tile k (\<lambda>t. t\<lparr>ti_distanceFromView := max_safe_integer\<rparr>)"
  assume "I m"
  then have "I (fold ?hide ks m)" for ks
    by (rule fold_keeps [rotated]) (rule keeps_upd_other, simp_all)
  then show ?thesis unfolding show_file_based_def Let_def
    by (intro sum_bind_keeps [OF keeps_make_current]) (simp_all add: keeps_sort keeps_endTransaction)
qed

lemma keeps_request_file_based: "I m \<Longrightarrow> I (request_file_based now q m)"
  using keeps_create_missing [of "effect SendClientZoom (effect SendClientVisibleArea m)" q "[]"]
  by (cases "create_missing q [] (effect SendClientZoom (effect SendClientVisibleArea m))")
    (simp add: request_file_based_def)

lemma keeps_updateFileBasedView: "I m \<Longrightarrow> pred_sum E (\<lambda>(q, m). I m) (updateFileBasedView app now only z m)"
proof -
  assume m: "I m"
  have first: "pred_sum E I (if none then Inr m else show_file_based app q m)" for none q
    using m by (simp add: keeps_show_file_based)
  have "pred_sum E (\<lambda>(q, m). I m) (sum_bind (if none then Inr m else show_file_based app q m)
      (\<lambda>m1. Inr (if only then (q, m1) else ([], request_file_based now q m1))))" for none q
    by (rule sum_bind_keeps [OF first]) (simp_all add: keeps_request_file_based)
  then show ?thesis using m by (simp add: updateFileBasedView_def Let_def split: prod.split)
qed

lemma keeps_updateAllTileDistances: "I m \<Longrightarrow> pred_sum E I (updateAllTileDistances app now m)"
  by (auto simp: updateAllTileDistances_def keeps_updateDistances intro!: sum_bind_keeps [OF keeps_updateFileBasedView])

lemma keeps_pruneTiles: "I m \<Longrightarrow> pred_sum E I (pruneTiles app now m)"
  by (auto simp: pruneTiles_def keeps_garbageCollect intro!: sum_bind_keeps [OF keeps_updateAllTileDistances])

lemma keeps_discardAllCache: "I m \<Longrightarrow> pred_sum E I (discardAllCache app now m)"
  by (auto simp: discardAllCache_def keeps_garbageCollect keeps_reclaimGraphicsMemory
      intro!: sum_bind_keeps [OF keeps_updateAllTileDistances])

lemma keeps_updateProperties [simp]: "I (snd (updateProperties app m)) = I m"
  by (simp add: updateProperties_def Let_def)

lemma keeps_initPreFetchAdjacentTiles [simp]: "I (initPreFetchAdjacentTiles app m) = I m"
  by (simp add: initPreFetchAdjacentTiles_def)

lemma keeps_update: "I m \<Longrightarrow> pred_sum E I (update app now view m)"
  by (auto simp: update_def Let_def keeps_addTiles split: prod.split
      intro!: sum_bind_keeps [OF keeps_getMissingTiles] sum_bind_keeps [OF keeps_updateFileBasedView])

lemma keeps_redraw: "I m \<Longrightarrow> pred_sum E I (redraw app now m)"
  unfolding redraw_def by (intro keeps_update keeps_removeAllTiles)

lemma keeps_onWorkerError: "I m \<Longrightarrow> pred_sum E I (onWorkerError app now m)"
  unfolding onWorkerError_def by (rule keeps_redraw) simp

lemma keeps_overlapInvalidated:
  "I m \<Longrightarrow> ta_hasLayout app \<Longrightarrow> pred_sum E I (overlapInvalidatedRectangleWithView app now part mode w rect m)"
  using keeps_invalidate_overlapping [of m app part mode w rect] keeps_update
  by (auto simp: overlapInvalidatedRectangleWithView_def split: prod.split)

subsubsection \<open>Prefetching\<close>

lemma keeps_clearTilesPreFetcher [simp]: "I (clearTilesPreFetcher m) = I m"
  by (simp add: clearTilesPreFetcher_def)

lemma keeps_preFetchTiles: "I m \<Longrightarrow> pred_sum E I (preFetchTiles app now force m)"
proof -
  assume m: "I m"
  have first: "pred_sum E I (if ta_fileBased app
      then sum_bind (updateFileBasedView app now False None m) (\<lambda>(q, m1). Inr m1) else Inr m)"
    using m by (auto intro!: sum_bind_keeps [OF keeps_updateFileBasedView])
  have props: "I m' \<Longrightarrow> updateProperties app m' = (b, m'') \<Longrightarrow> I m''" for m' b m''
    using keeps_updateProperties [of app m'] by simp
  show ?thesis unfolding preFetchTiles_def
    by (rule sum_bind_keeps [OF first]) (auto simp: Let_def keeps_addTiles props split: prod.split)
qed

lemma keeps_preFetchPartTiles: "I m \<Longrightarrow> I (preFetchPartTiles app now part modes m)"
  unfolding preFetchPartTiles_def Let_def by (rule fold_keeps) simp_all

lemma keeps_resetPreFetching [simp]: "I (resetPreFetching app b m) = I m"
  by (simp add: resetPreFetching_def clearPreFetch_def Let_def split: prod.split)

lemma keeps_onPreFetchIdle [simp]: "I (onPreFetchIdle m) = I m"
  by (simp add: onPreFetchIdle_def)

end

subsection \<open>The invariants keep their promises\<close>

lemma get_tile_reclaim:
  "get_tile k' (reclaimTileBitmapMemory k m) =
     (if k' = k then map_option (\<lambda>t. if ti_image t \<noteq> None
        then t\<lparr>ti_image := None, ti_decompressedId := 0, ti_lastPendingId := 0\<rparr> else t) (get_tile k m)
      else get_tile k' m)"
  by (cases "get_tile k m") (auto simp: reclaimTileBitmapMemory_def Let_def get_tile_def upd_tile_def
      AList.map_of_map_entry)

lemma keys_reclaim [simp]: "map fst (tm_tiles (reclaimTileBitmapMemory k m)) = map fst (tm_tiles m)"
  by (simp add: reclaimTileBitmapMemory_def Let_def split: option.split)

lemma list_reclaim:
  "tm_tileBitmapList (reclaimTileBitmapMemory k m) =
     (case get_tile k m of
        None \<Rightarrow> tm_tileBitmapList m
      | Some t \<Rightarrow> if ti_image t \<noteq> None then remove1 k (tm_tileBitmapList m) else tm_tileBitmapList m)"
  by (simp add: reclaimTileBitmapMemory_def Let_def split: option.split)

lemma get_tile_emptyCount [simp]: "get_tile k (m\<lparr>tm_emptyTilesCount := n\<rparr>) = get_tile k m"
  by (simp add: get_tile_def)

lemma removeTile_cases:
  obtains (absent) "get_tile k m = None" and "removeTile k m = m"
  | (present) t n m1 where "get_tile k m = Some t" and "m1 = reclaimTileBitmapMemory k (m\<lparr>tm_emptyTilesCount := n\<rparr>)"
      and "removeTile k m = m1\<lparr>tm_tiles := AList.delete k (tm_tiles m1)\<rparr>"
proof (cases "get_tile k m")
  case (Some t)
  show ?thesis
  proof (cases "\<not> hasContent t \<and> tm_emptyTilesCount m > 0")
    case True
    with Some show ?thesis by (intro present [OF Some refl, of "tm_emptyTilesCount m - 1"]) (simp add: removeTile_def Let_def)
  next
    case False
    show ?thesis by (intro present [OF Some refl, of "tm_emptyTilesCount m"])
      (simp add: removeTile_def Let_def Some if_not_P [OF False])
  qed
qed (use absent in \<open>simp add: removeTile_def\<close>)

lemma get_tile_remove: "get_tile k' (removeTile k m) = (if k' = k then None else get_tile k' m)"
proof (cases rule: removeTile_cases [of k m])
  case (present t n m1)
  have "get_tile k' (m1\<lparr>tm_tiles := AList.delete k (tm_tiles m1)\<rparr>) = (if k' = k then None else get_tile k' m1)"
    by (simp add: get_tile_def AList.delete_conv')
  then show ?thesis unfolding present(3) by (simp add: present(2) get_tile_reclaim)
qed auto

lemma keys_remove:
  "distinct (map fst (tm_tiles m)) \<Longrightarrow> distinct (map fst (tm_tiles (removeTile k m)))"
proof (cases rule: removeTile_cases [of k m])
  case (present t n m1)
  assume "distinct (map fst (tm_tiles m))"
  then have "distinct (map fst (tm_tiles m1))" by (simp add: present(2))
  then show ?thesis unfolding present(3) by (simp add: AList.distinct_delete)
qed auto

lemma list_remove: "tm_tileBitmapList (removeTile k m) = tm_tileBitmapList (reclaimTileBitmapMemory k m)"
  by (cases rule: removeTile_cases [of k m]) (simp_all add: list_reclaim)

lemma removeAll_empty: "tm_tiles (removeAllTiles m) = []" "tm_tileBitmapList (removeAllTiles m) = []"
proof -
  have "get_tile k (fold removeTile ks m') = (if k \<in> set ks then None else get_tile k m')" for k ks m'
    by (induction ks arbitrary: m') (auto simp: get_tile_remove)
  then have "get_tile k (removeAllTiles m) = None" for k
    by (simp add: removeAllTiles_def get_tile_def map_of_eq_None_iff)
  then have "map_of (tm_tiles (removeAllTiles m)) = Map.empty" by (simp add: get_tile_def fun_eq_iff)
  then show "tm_tiles (removeAllTiles m) = []" by simp
  have "tm_tileBitmapList (fold removeTile ks m') = []" if "tm_tileBitmapList m' = []" for ks m'
    using that by (induction ks arbitrary: m') (simp_all add: list_remove list_reclaim split: option.split)
  then show "tm_tileBitmapList (removeAllTiles m) = []" by (simp add: removeAllTiles_def)
qed

lemma setBitmap_cases:
  obtains (absent) "get_tile k m = None" and "setBitmapOnTile k b m = m"
  | (replaced) t where "get_tile k m = Some t" and "ti_image t \<noteq> None"
      and "setBitmapOnTile k b m = upd_tile k (\<lambda>t. t\<lparr>ti_image := Some b\<rparr>) m"
  | (added) t m1 i where "get_tile k m = Some t" and "ti_image t = None"
      and "m1 = (if length (tm_tileBitmapList m) > highNumBitmaps
                 then reclaimTileBitmapMemory (last (tm_tileBitmapList m)) m else m)"
      and "i = (if ti_distanceFromView t = 0 then 0
                else insertion_index (map (distance_of m1) (tm_tileBitmapList m1)) (ti_distanceFromView t) 0
                       (length (tm_tileBitmapList m1)))"
      and "setBitmapOnTile k b m = upd_tile k (\<lambda>t. t\<lparr>ti_image := Some b\<rparr>)
             (m1\<lparr>tm_tileBitmapList := list_insert_at i k (tm_tileBitmapList m1)\<rparr>)"
proof (cases "get_tile k m")
  case (Some t)
  show ?thesis
  proof (cases "ti_image t = None")
    case True
    then show ?thesis by (intro added [OF Some True refl refl]) (simp add: setBitmapOnTile_def Some Let_def list_insert_at_def)
  qed (use Some replaced in \<open>simp add: setBitmapOnTile_def\<close>)
qed (use absent in \<open>simp add: setBitmapOnTile_def\<close>)

lemma get_tile_list [simp]: "get_tile k (m\<lparr>tm_tileBitmapList := ks\<rparr>) = get_tile k m"
  by (simp add: get_tile_def)

lemma sort_frame [simp]: "tm_tiles (sortTileBitmapList m) = tm_tiles m"
  by (simp add: sortTileBitmapList_def)

lemma distinct_list_insert_at: "distinct (list_insert_at i x xs) \<longleftrightarrow> x \<notin> set xs \<and> distinct xs"
  by (metis append_take_drop_id distinct.simps(2) distinct_append list_insert_at_def mset_append mset.simps(2)
      mset_eq_imp_distinct_iff union_mset_add_mset_right set_list_insert_at)

text \<open>The tiles of \<open>m'\<close> are changed tiles of \<open>m\<close>.\<close>

definition refines_tiles :: "tile_manager \<Rightarrow> tile_manager \<Rightarrow> bool" where
  "refines_tiles m m' \<longleftrightarrow>
     (distinct (map fst (tm_tiles m)) \<longrightarrow> distinct (map fst (tm_tiles m'))) \<and>
     (\<forall>k t'. get_tile k m' = Some t' \<longrightarrow>
        (\<exists>t. get_tile k m = Some t \<and> ti_coords t' = ti_coords t \<and> (deltas_ok t \<longrightarrow> deltas_ok t')))"

lemma tiles_ok_refines: "tiles_ok m \<Longrightarrow> refines_tiles m m' \<Longrightarrow> tiles_ok m'"
  unfolding tiles_ok_iff refines_tiles_def by metis

lemma refines_tiles_trans: "refines_tiles m m' \<Longrightarrow> refines_tiles m' m'' \<Longrightarrow> refines_tiles m m''"
  unfolding refines_tiles_def by metis

lemma refines_tiles_refl [simp]: "refines_tiles m m"
  by (simp add: refines_tiles_def)

lemma refines_tilesI:
  assumes "map fst (tm_tiles m') = map fst (tm_tiles m)"
    and "\<And>k'. get_tile k' m' = (if k' = k then map_option f (get_tile k m) else get_tile k' m)"
    and "\<And>t. ti_coords (f t) = ti_coords t" and "\<And>t. deltas_ok t \<Longrightarrow> deltas_ok (f t)"
  shows "refines_tiles m m'"
  unfolding refines_tiles_def
proof (intro conjI allI impI)
  fix k' t'
  assume t': "get_tile k' m' = Some t'"
  show "\<exists>t. get_tile k' m = Some t \<and> ti_coords t' = ti_coords t \<and> (deltas_ok t \<longrightarrow> deltas_ok t')"
  proof (cases "k' = k")
    case True
    then obtain t where "get_tile k m = Some t" "t' = f t" using t' unfolding assms(2) by auto
    then show ?thesis using True assms(3,4) by simp
  qed (use t' in \<open>simp add: assms(2)\<close>)
qed (simp add: assms(1))

lemma refines_reclaim: "refines_tiles m (reclaimTileBitmapMemory k m)"
  by (rule refines_tilesI [OF keys_reclaim get_tile_reclaim]) (simp_all add: deltas_ok_def del: upt_Suc)

lemma refines_setBitmap: "refines_tiles m (setBitmapOnTile k b m)"
proof (cases rule: setBitmap_cases [of k m b])
  case (replaced t)
  show ?thesis unfolding replaced(3) by (rule refines_tilesI [of _ _ k "\<lambda>t. t\<lparr>ti_image := Some b\<rparr>"]) (simp_all add: deltas_ok_def)
next
  case (added t m1 i)
  have "refines_tiles m m1" using refines_reclaim by (simp add: added(3))
  moreover have "refines_tiles m1 (setBitmapOnTile k b m)"
    unfolding added(5) by (rule refines_tilesI [of _ _ k "\<lambda>t. t\<lparr>ti_image := Some b\<rparr>"]) (simp_all add: deltas_ok_def)
  ultimately show ?thesis by (rule refines_tiles_trans)
qed simp

interpretation tiles: manager_invariant tiles_ok "\<lambda>_. False"
proof unfold_locales
  show "tiles_ok m'" if "tiles_ok m" "tm_tiles m' = tm_tiles m" for m m'
    using that by (simp add: tiles_ok_def)
  show "tiles_ok (upd_tile k f m)" if "tiles_ok m" "\<And>t. get_tile k m = Some t \<Longrightarrow> tile_change t (f t)" for m k f
    using that by (auto simp: tiles_ok_iff tile_change_def split: if_splits)
  show "tiles_ok (createTile c m)" if "tiles_ok m" for c m
  proof -
    have "distinct (map fst (tm_tiles (createTile c m)))"
      using that by (simp add: createTile_def Let_def AList.distinct_update tiles_ok_def)
    with that show ?thesis unfolding tiles_ok_iff by (auto split: if_splits) (simp add: new_Tile_def)
  qed
  show "tiles_ok (reclaimTileBitmapMemory k m)" if "tiles_ok m" for k m
    using that refines_reclaim by (rule tiles_ok_refines)
  show "tiles_ok (removeTile k m)" if "tiles_ok m" for k m
    using that by (auto simp: tiles_ok_iff get_tile_remove keys_remove split: if_splits)
  show "tiles_ok (removeAllTiles m)" for m
    by (simp add: tiles_ok_def removeAll_empty)
  show "tiles_ok (setBitmapOnTile k b m)" if "tiles_ok m" for k b m
    using that refines_setBitmap by (rule tiles_ok_refines)
  show "tiles_ok (sortTileBitmapList m)" if "tiles_ok m" for m
    using that by (simp add: tiles_ok_def)
  show False if "tiles_ok m" "get_tile k m = Some t" "\<not> deltas_ok t" for m k t
    using that by (auto simp: tiles_ok_iff)
qed


text \<open>The same for the list of bitmaps, which \<open>setBitmapOnTile\<close> keeps to one more than its limit.\<close>

lemma bitmaps_ok_image:
  "bitmaps_ok m \<Longrightarrow> k \<in> set (tm_tileBitmapList m) \<longleftrightarrow> (\<exists>t. get_tile k m = Some t \<and> ti_image t \<noteq> None)"
  by (simp add: bitmaps_ok_iff)

lemma bitmaps_ok_reclaim:
  assumes "bitmaps_ok m"
  shows "bitmaps_ok (reclaimTileBitmapMemory k m)"
proof (cases "k \<in> set (tm_tileBitmapList m)")
  case True
  then obtain t where t: "get_tile k m = Some t" "ti_image t \<noteq> None" using bitmaps_ok_image [OF assms] by auto
  then have "tm_tileBitmapList (reclaimTileBitmapMemory k m) = remove1 k (tm_tileBitmapList m)"
    by (simp add: list_reclaim)
  with assms t show ?thesis unfolding bitmaps_ok_iff by (auto simp: get_tile_reclaim length_remove1 split: if_splits)
next
  case False
  then have "reclaimTileBitmapMemory k m = m"
    using bitmaps_ok_image [OF assms, of k] by (auto simp: reclaimTileBitmapMemory_def split: option.split)
  with assms show ?thesis by simp
qed

lemma bitmaps_ok_room:
  assumes "bitmaps_ok m"
  defines "m1 \<equiv> if length (tm_tileBitmapList m) > highNumBitmaps
    then reclaimTileBitmapMemory (last (tm_tileBitmapList m)) m else m"
  shows "length (tm_tileBitmapList m1) \<le> highNumBitmaps"
proof (cases "length (tm_tileBitmapList m) > highNumBitmaps")
  case True
  then have last: "last (tm_tileBitmapList m) \<in> set (tm_tileBitmapList m)" by (intro last_in_set) auto
  then obtain t where "get_tile (last (tm_tileBitmapList m)) m = Some t" "ti_image t \<noteq> None"
    using bitmaps_ok_image [OF assms(1)] by auto
  with last True assms show ?thesis by (auto simp: m1_def list_reclaim length_remove1 bitmaps_ok_def)
qed (simp add: m1_def)

lemma bitmaps_ok_setBitmap:
  assumes ok: "bitmaps_ok m"
  shows "bitmaps_ok (setBitmapOnTile k b m)"
proof (cases rule: setBitmap_cases [of k m b])
  case (replaced t)
  with ok show ?thesis unfolding replaced(3) bitmaps_ok_iff by auto
next
  case (added t m1 i)
  have ok1: "bitmaps_ok m1" using ok bitmaps_ok_reclaim by (simp add: added(3))
  have room: "length (tm_tileBitmapList m1) \<le> highNumBitmaps" using bitmaps_ok_room [OF ok] by (simp add: added(3))
  have "k \<notin> set (tm_tileBitmapList m)" using bitmaps_ok_image [OF ok, of k] added(1,2) by auto
  moreover obtain t1 where t1: "get_tile k m1 = Some t1" "ti_image t1 = None"
    using added(1,2) by (cases "k = last (tm_tileBitmapList m)") (auto simp: added(3) get_tile_reclaim)
  ultimately have "k \<notin> set (tm_tileBitmapList m1)" using bitmaps_ok_image [OF ok1, of k] by auto
  then show ?thesis
    using ok1 room t1 unfolding added(5) bitmaps_ok_iff by (auto simp: distinct_list_insert_at)
qed (use ok in simp)

interpretation bitmaps: manager_invariant bitmaps_ok "\<lambda>_. True"
proof unfold_locales
  show "bitmaps_ok m'" if "bitmaps_ok m" "tm_tiles m' = tm_tiles m" "tm_tileBitmapList m' = tm_tileBitmapList m" for m m'
    using that by (simp add: bitmaps_ok_def bitmap_keys_def)
  show "bitmaps_ok (upd_tile k f m)" if "bitmaps_ok m" "\<And>t. get_tile k m = Some t \<Longrightarrow> tile_change t (f t)" for m k f
    using that by (auto simp: bitmaps_ok_iff tile_change_def split: if_splits) (metis)+
  show "bitmaps_ok (createTile c m)" if "bitmaps_ok m" for c m
  proof -
    have "distinct (map fst (tm_tiles (createTile c m)))" "tm_tileBitmapList (createTile c m) = tm_tileBitmapList m"
      using that by (simp_all add: createTile_def Let_def AList.distinct_update bitmaps_ok_def)
    with that show ?thesis unfolding bitmaps_ok_iff by (auto simp: new_Tile_def split: if_splits)
  qed
  show "bitmaps_ok (removeTile k m)" if "bitmaps_ok m" for k m
    using bitmaps_ok_reclaim [OF that, of k] keys_remove [of m k] unfolding bitmaps_ok_iff
    by (auto simp: get_tile_remove get_tile_reclaim list_remove split: if_splits)
  show "bitmaps_ok (removeAllTiles m)" for m
    by (simp add: bitmaps_ok_def bitmap_keys_def removeAll_empty)
  show "bitmaps_ok (sortTileBitmapList m)" if "bitmaps_ok m" for m
  proof -
    let ?ks = "tm_tileBitmapList (sortTileBitmapList m)"
    have perm: "mset ?ks = mset (tm_tileBitmapList m)" by (simp add: sortTileBitmapList_def)
    then have "distinct ?ks = distinct (tm_tileBitmapList m)" "set ?ks = set (tm_tileBitmapList m)"
      "length ?ks = length (tm_tileBitmapList m)"
      by (rule mset_eq_imp_distinct_iff, rule mset_eq_setD, rule mset_eq_length)
    with that show ?thesis by (simp add: bitmaps_ok_def bitmap_keys_def)
  qed
qed (rule bitmaps_ok_reclaim bitmaps_ok_setBitmap TrueI; assumption?)+

end
