(* ===== verification/Tile_Steps.thy ===== *)
theory Tile_Steps
  imports Tile_Invariant
begin

section \<open>The life of the tile manager\<close>

text \<open>
  The tile manager as a transition system: every call that reaches it from the socket, the map, the
  workers and its timers is a step, in any order. The reachable managers satisfy the invariants,
  and no call throws in them.
\<close>

definition initial_manager :: tile_manager where
  "initial_manager = \<lparr>tm_tiles = [], tm_tileBitmapList = [], tm_tileImageCache = Map.empty, tm_emptyTilesCount = 0,
     tm_inTransaction = 0, tm_pendingDeltas = [], tm_transactionCallbacks = [], tm_nPendingWorkerTasks = 0,
     tm_nullDeltaUpdate = 0, tm_queuedProcessed = [], tm_fetchKeyframeQueue = [], tm_pendingTileCombineQueue = [],
     tm_tileCombineFlushTimer = False, tm_lastTileCombineFlushTs = 0, tm_pausedForCoherency = False,
     tm_dehydratedCurrentTiles = [], tm_shrinkCurrentId = False, tm_moveTileRequests = [],
     tm_receivedFirstTile = False, tm_afterFirstTileTasks = [], tm_zoom = None, tm_preFetchPart = None,
     tm_preFetchMode = [], tm_hasEditPerm = None, tm_pixelBounds = None, tm_splitPos = None, tm_borders = [],
     tm_cumTileCount = 0, tm_tilesPreFetcher = False, tm_preFetchIdle = False, tm_effects = []\<rparr>"

inductive manager_step :: "tile_manager \<Rightarrow> tile_manager \<Rightarrow> bool" where
  tile_message: "onTileMsg app msg img m = Inr m' \<Longrightarrow> manager_step m m'"
| invalidation: "overlapInvalidatedRectangleWithView app now part mode wireId rect m = Inr m' \<Longrightarrow> manager_step m m'"
| single_invalidation: "manager_step m (invalidateTile k wireId m)"
| worker_reply: "onWorkerEndTransaction app deltas (Some bitmaps) m = Inr m' \<Longrightarrow> manager_step m m'"
| worker_error: "onWorkerError app now m = Inr m' \<Longrightarrow> manager_step m m'"
| bitmaps_created: "manager_step m (endTransactionHandleBitmaps app bitmaps m)"
| begin_transaction: "manager_step m (beginTransaction m)"
| end_transaction: "manager_step m (endTransaction app callback m)"
| processed: "manager_step m (sendProcessedResponse now m)"
| flush_timer: "manager_step m (flushPendingTileCombineQueue app now m)"
| reconnect: "manager_step m (resetReconnectTransientState m)"
| background_refresh: "manager_step m (refreshTilesInBackground m)"
| update_view: "update app now view m = Inr m' \<Longrightarrow> manager_step m m'"
| redraw_view: "redraw app now m = Inr m' \<Longrightarrow> manager_step m m'"
| change_part: "updateOnChangePart app now m = Inr m' \<Longrightarrow> manager_step m m'"
| predict: "predictTilesToSlurp app now m = Inr (n, m') \<Longrightarrow> manager_step m m'"
| file_based_view: "updateFileBasedView app now only z m = Inr (q, m') \<Longrightarrow> manager_step m m'"
| check_request: "checkRequestTiles now cs send m = Inr (q, m') \<Longrightarrow> manager_step m m'"
| prune: "pruneTiles app now m = Inr m' \<Longrightarrow> manager_step m m'"
| reclaim_graphics: "manager_step m (reclaimGraphicsMemory m)"
| discard_cache: "discardAllCache app now m = Inr m' \<Longrightarrow> manager_step m m'"
| rehydrate_current: "rehydrateCurrentTiles app m = Inr m' \<Longrightarrow> manager_step m m'"
| touch: "manager_step m (touchImage k m)"
| first_tile_task: "manager_step m (appendAfterFirstTileTask task m)"
| shrink_timer: "manager_step m (m\<lparr>tm_shrinkCurrentId := False\<rparr>)"
| scroll_end: "manager_step m (m\<lparr>tm_moveTileRequests := []\<rparr>)"
| prefetch_reset: "manager_step m (resetPreFetching app resetBorder m)"
| prefetch_idle: "manager_step m (onPreFetchIdle m)"
| prefetch_tiles: "preFetchTiles app now force m = Inr m' \<Longrightarrow> manager_step m m'"
| prefetch_part: "manager_step m (preFetchPartTiles app now part modes m)"
| prefetch_adjacent: "preFetchAdjacentTiles app now m = Inr m' \<Longrightarrow> manager_step m m'"

inductive manager_reach :: "tile_manager \<Rightarrow> bool" where
  start: "manager_reach initial_manager"
| step: "manager_reach m \<Longrightarrow> manager_step m m' \<Longrightarrow> manager_reach m'"

context manager_invariant
begin

lemma keeps_predict: "I m \<Longrightarrow> pred_sum E (\<lambda>(n, m). I m) (predictTilesToSlurp app now m)"
  by (auto simp: predictTilesToSlurp_def intro!: sum_bind_keeps [OF keeps_getMissingTiles])

lemma keeps_preFetchAdjacentTiles:
  assumes "I m" and "tm_pixelBounds m \<noteq> None \<and> tm_zoom m \<noteq> None \<or> E TypeError"
  shows "pred_sum E I (preFetchAdjacentTiles app now m)"
proof (cases "tm_pixelBounds m \<noteq> None \<and> tm_zoom m \<noteq> None")
  case True
  then obtain b zoom where [simp]: "tm_pixelBounds m = Some b" "tm_zoom m = Some zoom" by auto
  define more where "more b1 queue m2 = (if ta_isCalc app \<or> queue = [] then
      let b2 = Bounds_translate (pt_x (Bounds_getSize b1) * fst (ta_panDirection app) / 2)
            (pt_y (Bounds_getSize b1) * snd (ta_panDirection app) / 2) b1
      in sum_bind (getMissingTiles app now b2 zoom False (m2\<lparr>tm_pixelBounds := Some b2\<rparr>))
           (\<lambda>(more, m3). Inr (queue @ more, m3))
    else Inr (queue, m2))" for b1 queue m2
  have more: "pred_sum E (\<lambda>(q, m). I m) (more b1 queue m2)" if "I m2" for b1 queue m2
    using that by (auto simp: more_def Let_def intro!: sum_bind_keeps [OF keeps_getMissingTiles])
  have rest: "pred_sum E I (sum_bind (more b1 queue m2)
      (\<lambda>(queue', m3). Inr (if queue' \<noteq> [] then addTiles app now queue' False m3 else m3)))" if "I m2" for b1 queue m2
    using that by (auto simp: keeps_addTiles intro!: sum_bind_keeps [OF more])
  have "pred_sum E I (sum_bind (getMissingTiles app now b1 zoom False (m\<lparr>tm_pixelBounds := Some b1\<rparr>))
      (\<lambda>(queue, m2). sum_bind (more b1 queue m2)
        (\<lambda>(queue', m3). Inr (if queue' \<noteq> [] then addTiles app now queue' False m3 else m3))))" for b1
    using assms(1) rest by (auto intro!: sum_bind_keeps [OF keeps_getMissingTiles])
  then show ?thesis by (simp add: preFetchAdjacentTiles_def more_def Let_def case_prod_unfold)
next
  case False
  with assms(2) show ?thesis by (auto simp: preFetchAdjacentTiles_def split: option.split)
qed

lemma keeps_appendTask [simp]: "I (appendAfterFirstTileTask task m) = I m"
  by (simp add: appendAfterFirstTileTask_def)

lemma keeps_step:
  assumes "manager_step m m'" and "I m"
  shows "I m'"
  using assms
proof (cases rule: manager_step.cases)
  case (invalidation app now part mode wireId rect)
  then have "ta_hasLayout app" by (auto simp: overlapInvalidatedRectangleWithView_def split: if_splits)
  with invalidation keeps_overlapInvalidated [OF assms(2), of app now part mode wireId rect] show ?thesis by simp
next
  case (worker_reply app deltas bitmaps)
  with keeps_onWorkerEndTransaction [OF assms(2), of app deltas "Some bitmaps"] show ?thesis by simp
next
  case (prefetch_adjacent app now)
  then have "tm_pixelBounds m \<noteq> None \<and> tm_zoom m \<noteq> None"
    by (auto simp: preFetchAdjacentTiles_def split: option.splits)
  with prefetch_adjacent keeps_preFetchAdjacentTiles [OF assms(2), of app now] show ?thesis by simp
next
  case (tile_message app msg img)
  with keeps_onTileMsg [OF assms(2), of app msg img] show ?thesis by simp
next
  case (worker_error app now)
  with keeps_onWorkerError [OF assms(2), of app now] show ?thesis by simp
next
  case (update_view app now view)
  with keeps_update [OF assms(2), of app now view] show ?thesis by simp
next
  case (redraw_view app now)
  with keeps_redraw [OF assms(2), of app now] show ?thesis by simp
next
  case (change_part app now)
  with keeps_updateOnChangePart [OF assms(2), of app now] show ?thesis by simp
next
  case (predict app now n)
  with keeps_predict [OF assms(2), of app now] show ?thesis by simp
next
  case (file_based_view app now only z q)
  with keeps_updateFileBasedView [OF assms(2), of app now only z] show ?thesis by simp
next
  case (check_request now cs send q)
  with keeps_checkRequestTiles [OF assms(2), of now cs send] show ?thesis by simp
next
  case (prune app now)
  with keeps_pruneTiles [OF assms(2), of app now] show ?thesis by simp
next
  case (discard_cache app now)
  with keeps_discardAllCache [OF assms(2), of app now] show ?thesis by simp
next
  case (rehydrate_current app)
  with keeps_rehydrateCurrentTiles [OF assms(2), of app] show ?thesis by simp
next
  case (prefetch_tiles app now force)
  with keeps_preFetchTiles [OF assms(2), of app now force] show ?thesis by simp
qed (simp_all add: assms keeps_invalidateTile keeps_handleBitmaps keeps_endTransaction keeps_flush
    keeps_refreshTilesInBackground keeps_reclaimGraphicsMemory keeps_touchImage keeps_preFetchPartTiles)

lemma keeps_reach: "I initial_manager \<Longrightarrow> manager_reach m \<Longrightarrow> I m"
  by (rotate_tac 1, induction rule: manager_reach.induct) (auto intro: keeps_step)

end

lemma reach_tiles_ok: "manager_reach m \<Longrightarrow> tiles_ok m"
  by (rule tiles.keeps_reach) (simp add: tiles_ok_def initial_manager_def)

lemma reach_bitmaps_ok: "manager_reach m \<Longrightarrow> bitmaps_ok m"
  by (rule bitmaps.keeps_reach) (simp add: bitmaps_ok_def bitmap_keys_def initial_manager_def)

lemma no_exception: "pred_sum (\<lambda>_. False) P r \<Longrightarrow> \<not> isl r"
  by (cases r) auto

subsection \<open>Properties\<close>

text \<open>
  C3. Whatever messages, timers, worker replies and user actions reach the tile manager, in any
  order: every tile is stored under its key, its compressed deltas start at a keyframe and have
  consecutive identifiers up to the last one received, and the list of bitmaps has exactly the
  tiles with a bitmap, each once, and never more than 251.
\<close>

theorem manager_reachable_states:
  assumes "manager_reach m"
  shows "tiles_ok m \<and> bitmaps_ok m \<and> length (tm_tileBitmapList m) \<le> 251"
  using reach_tiles_ok [OF assms] reach_bitmaps_ok [OF assms] by (simp add: bitmaps_ok_def highNumBitmaps_def)

theorem manager_reachable_states_witness:
  "\<exists>m. onTileMsg sample_app \<lparr>msg_x = 3840, msg_y = 7680, msg_tileWidth = 3840, msg_tileHeight = 3840,
       msg_zoom = 10, msg_part = 2, msg_mode = None, msg_nviewid = 0, msg_wireId = 7, msg_id = None\<rparr>
       (Some ([1, 2], True)) initial_manager = Inr m \<and>
     tiles_ok m \<and> bitmaps_ok m \<and> length (tm_tileBitmapList m) \<le> 251" (is "\<exists>m. ?r = Inr m \<and> _")
proof (cases ?r)
  case (Inl e)
  then show ?thesis using no_exception [OF tiles.keeps_onTileMsg [OF reach_tiles_ok [OF manager_reach.start]]] by (metis isl_def)
next
  case (Inr m)
  then show ?thesis
    using manager_reachable_states [OF manager_reach.step [OF manager_reach.start manager_step.tile_message]] by blast
qed

text \<open>
  C23. In every state that the manager can reach, a tile message, a view update, a redraw, a change
  of the part, pruning, discarding the caches and rehydrating finish without an exception.
\<close>

theorem manager_never_throws:
  assumes "manager_reach m"
  shows "\<not> isl (onTileMsg app msg img m) \<and> \<not> isl (update app now view m) \<and> \<not> isl (redraw app now m) \<and>
    \<not> isl (updateOnChangePart app now m) \<and> \<not> isl (updateFileBasedView app now only z m) \<and>
    \<not> isl (pruneTiles app now m) \<and> \<not> isl (discardAllCache app now m) \<and> \<not> isl (rehydrateCurrentTiles app m) \<and>
    \<not> isl (preFetchTiles app now force m) \<and> \<not> isl (onWorkerError app now m)"
  using reach_tiles_ok [OF assms]
  by (intro conjI no_exception [OF tiles.keeps_onTileMsg] no_exception [OF tiles.keeps_update]
      no_exception [OF tiles.keeps_redraw] no_exception [OF tiles.keeps_updateOnChangePart]
      no_exception [OF tiles.keeps_updateFileBasedView] no_exception [OF tiles.keeps_pruneTiles]
      no_exception [OF tiles.keeps_discardAllCache] no_exception [OF tiles.keeps_rehydrateCurrentTiles]
      no_exception [OF tiles.keeps_preFetchTiles] no_exception [OF tiles.keeps_onWorkerError])

theorem manager_never_throws_witness:
  "\<not> isl (update sample_app 0 None initial_manager) \<and> \<not> isl (discardAllCache sample_app 0 initial_manager)"
  using manager_never_throws [OF manager_reach.start, of sample_app _ _ 0] by simp

end
