(* ===== verification/Tile_Collect.thy ===== *)
theory Tile_Collect
  imports Tile_Steps
begin

section \<open>What garbage collection does\<close>

text \<open>
  The garbage collection keeps every visible tile as it is and brings the compressed data and the
  number of the hidden tiles under their limits. The proofs work with the finite set of the keys
  of hidden tiles.
\<close>

definition hidden_keys :: "tile_manager \<Rightarrow> string set" where
  "hidden_keys m = {k. \<exists>t. get_tile k m = Some t \<and> ti_distanceFromView t \<noteq> 0}"

definition size_of :: "tile_manager \<Rightarrow> string \<Rightarrow> int" where
  "size_of m k = (case get_tile k m of None \<Rightarrow> 0 | Some t \<Rightarrow> delta_size t)"

lemma hidden_keys_subset: "hidden_keys m \<subseteq> set (map fst (tm_tiles m))"
  by (auto simp: hidden_keys_def dest: get_tile_keys)

lemma finite_hidden [simp]: "finite (hidden_keys m)"
  by (rule finite_subset [OF hidden_keys_subset]) simp

lemma delta_size_nonneg [simp]: "0 \<le> delta_size t"
  unfolding delta_size_def by (rule sum_list_nonneg) auto

lemma delta_size_Nil [simp]: "ti_rawDeltas t = [] \<Longrightarrow> delta_size t = 0"
  by (simp add: delta_size_def)

lemma hidden_lists:
  assumes "distinct (map fst (tm_tiles m))"
  shows "hidden_size m = sum (size_of m) (hidden_keys m)" and "length (hidden_tiles m) = card (hidden_keys m)"
proof -
  let ?hs = "filter (\<lambda>(k, t). ti_distanceFromView t \<noteq> 0) (tm_tiles m)"
  have tiles: "hidden_tiles m = map snd ?hs"
    by (simp add: hidden_tiles_def filter_map comp_def case_prod_unfold)
  have keys: "distinct (map fst ?hs)" "set (map fst ?hs) = hidden_keys m"
    using assms by (auto simp: hidden_keys_def get_tile_iff distinct_map_filter image_iff)
  have "map (delta_size \<circ> snd) ?hs = map (size_of m \<circ> fst) ?hs"
    by (auto simp: size_of_def dest!: iffD2 [OF get_tile_iff [OF assms]])
  then have "hidden_size m = sum_list (map (size_of m) (map fst ?hs))"
    by (simp add: hidden_size_def tiles del: map_eq_conv)
  also have "\<dots> = sum (size_of m) (set (map fst ?hs))" by (rule sum_list_distinct_conv_sum_set [OF keys(1)])
  finally show "hidden_size m = sum (size_of m) (hidden_keys m)" by (simp only: keys(2))
  show "length (hidden_tiles m) = card (hidden_keys m)"
    using distinct_card [OF keys(1)] keys(2) by (simp add: tiles)
qed

subsection \<open>Reclaiming memory\<close>

text \<open>What the first loop may do: drop the content of hidden tiles.\<close>

definition dropped :: "tile \<Rightarrow> tile \<Rightarrow> bool" where
  "dropped t t' \<longleftrightarrow> ti_distanceFromView t \<noteq> 0 \<and> ti_distanceFromView t' = ti_distanceFromView t \<and>
     ti_coords t' = ti_coords t \<and> ti_rawDeltas t' = [] \<and> ti_image t' = None \<and> needsFetch t'"

definition drops_hidden :: "tile_manager \<Rightarrow> tile_manager \<Rightarrow> bool" where
  "drops_hidden m m' \<longleftrightarrow> map fst (tm_tiles m') = map fst (tm_tiles m) \<and>
     (\<forall>k. rel_option (\<lambda>t t'. t' = t \<or> dropped t t') (get_tile k m) (get_tile k m'))"

lemma drops_hidden_refl [simp]: "drops_hidden m m"
  by (simp add: drops_hidden_def option.rel_refl)

lemma drops_rel: "drops_hidden m m' \<Longrightarrow> rel_option (\<lambda>t t'. t' = t \<or> dropped t t') (get_tile k m) (get_tile k m')"
  by (simp add: drops_hidden_def)

lemma drops_hidden_trans:
  assumes "drops_hidden m m'" and "drops_hidden m' m''"
  shows "drops_hidden m m''"
  unfolding drops_hidden_def
proof (intro conjI allI)
  show "map fst (tm_tiles m'') = map fst (tm_tiles m)" using assms by (simp add: drops_hidden_def)
  fix k
  show "rel_option (\<lambda>t t'. t' = t \<or> dropped t t') (get_tile k m) (get_tile k m'')"
    using drops_rel [OF assms(1), of k] drops_rel [OF assms(2), of k]
    by (cases "get_tile k m"; cases "get_tile k m'"; cases "get_tile k m''") (auto simp: dropped_def)
qed

lemma drops_hidden_get:
  assumes "drops_hidden m m'" and "get_tile k m = Some t"
  obtains t' where "get_tile k m' = Some t'" and "t' = t \<or> dropped t t'"
  using drops_rel [OF assms(1), of k] assms(2) that by (cases "get_tile k m'") auto

lemma drops_hidden_None: "drops_hidden m m' \<Longrightarrow> get_tile k m = None \<Longrightarrow> get_tile k m' = None"
  using drops_rel [of m m' k] by (cases "get_tile k m'") auto

lemma drops_hidden_keys:
  assumes "drops_hidden m m'"
  shows "hidden_keys m' = hidden_keys m"
proof -
  have "k \<in> hidden_keys m' \<longleftrightarrow> k \<in> hidden_keys m" for k
  proof (cases "get_tile k m")
    case (Some t)
    from drops_hidden_get [OF assms Some] obtain t' where "get_tile k m' = Some t'" "t' = t \<or> dropped t t'" .
    with Some show ?thesis by (auto simp: hidden_keys_def dropped_def)
  qed (use drops_hidden_None [OF assms] in \<open>simp add: hidden_keys_def\<close>)
  then show ?thesis by blast
qed

lemma drops_hidden_size:
  assumes "drops_hidden m m'" and "get_tile k m = Some t" and "ti_rawDeltas t = []"
  shows "size_of m' k = 0"
  by (rule drops_hidden_get [OF assms(1,2)]) (use assms(3) in \<open>auto simp: size_of_def dropped_def\<close>)

definition reclaim_step :: "string \<Rightarrow> tile_manager \<Rightarrow> tile_manager" where
  "reclaim_step k m = upd_tile k (\<lambda>t. forceKeyframe 0 (t\<lparr>ti_rawDeltas := []\<rparr>)) (reclaimTileBitmapMemory k m)"

lemma get_reclaim_step:
  assumes "get_tile k m = Some t" and "ti_distanceFromView t \<noteq> 0"
  obtains t' where "get_tile k (reclaim_step k m) = Some t'" and "dropped t t'"
  using assms that by (simp add: reclaim_step_def get_tile_reclaim forceKeyframe_def allowFastRequest_def
      updateLastRequest_def needsFetch_def dropped_def)

lemma reclaim_step_other: "k' \<noteq> k \<Longrightarrow> get_tile k' (reclaim_step k m) = get_tile k' m"
  by (simp add: reclaim_step_def get_tile_reclaim)

lemma drops_reclaim_step:
  assumes "get_tile k m = Some t" and "ti_distanceFromView t \<noteq> 0"
  shows "drops_hidden m (reclaim_step k m)"
proof -
  have "map fst (tm_tiles (reclaim_step k m)) = map fst (tm_tiles m)" by (simp add: reclaim_step_def)
  moreover have "rel_option (\<lambda>t t'. t' = t \<or> dropped t t') (get_tile k' m) (get_tile k' (reclaim_step k m))" for k'
  proof (cases "k' = k")
    case True
    from get_reclaim_step [OF assms] obtain t' where "get_tile k (reclaim_step k m) = Some t'" "dropped t t'" .
    with True assms(1) show ?thesis by simp
  qed (simp add: reclaim_step_other option.rel_refl)
  ultimately show ?thesis by (simp add: drops_hidden_def)
qed

lemma size_reclaim_step:
  assumes "get_tile k m = Some t" and "ti_distanceFromView t \<noteq> 0"
  shows "sum (size_of (reclaim_step k m)) (hidden_keys (reclaim_step k m)) = sum (size_of m) (hidden_keys m) - delta_size t"
proof -
  have k: "k \<in> hidden_keys m" using assms by (auto simp: hidden_keys_def)
  have keys: "hidden_keys (reclaim_step k m) = hidden_keys m"
    by (rule drops_hidden_keys [OF drops_reclaim_step [OF assms]])
  have "size_of (reclaim_step k m) k = 0" by (rule get_reclaim_step [OF assms]) (simp add: size_of_def dropped_def)
  moreover have "sum (size_of (reclaim_step k m)) (hidden_keys m - {k}) = sum (size_of m) (hidden_keys m - {k})"
    by (rule sum.cong) (auto simp: size_of_def reclaim_step_other)
  moreover have "size_of m k = delta_size t" by (simp add: size_of_def assms(1))
  ultimately show ?thesis using k by (simp add: keys sum.remove)
qed

lemma gc_memory_step:
  "gc_memory low (k # ks) s m =
     (if s > low then
        case get_tile k m of
          None \<Rightarrow> gc_memory low ks s m
        | Some t \<Rightarrow> if ti_rawDeltas t \<noteq> [] \<and> ti_distanceFromView t \<noteq> 0
            then gc_memory low ks (s - delta_size t) (reclaim_step k m) else gc_memory low ks s m
      else m)"
  by (simp add: reclaim_step_def split: option.split)

lemma gc_memory_drops: "drops_hidden m (gc_memory low ks s m)"
proof (induction ks arbitrary: s m)
  case (Cons k ks)
  then show ?case
    unfolding gc_memory_step by (auto split: option.split intro: drops_hidden_trans drops_reclaim_step)
qed simp

lemma gc_memory_size:
  assumes "s = sum (size_of m) (hidden_keys m)"
  shows "sum (size_of (gc_memory low ks s m)) (hidden_keys (gc_memory low ks s m)) \<le> low \<or>
    (\<forall>k \<in> set ks \<inter> hidden_keys m. size_of (gc_memory low ks s m) k = 0)"
  using assms
proof (induction ks arbitrary: s m)
  case (Cons k ks)
  show ?case
  proof (cases "s > low \<and> (\<exists>t. get_tile k m = Some t \<and> ti_rawDeltas t \<noteq> [] \<and> ti_distanceFromView t \<noteq> 0)")
    case True
    then obtain t where t: "get_tile k m = Some t" "ti_rawDeltas t \<noteq> []" "ti_distanceFromView t \<noteq> 0" and "s > low" by auto
    let ?m1 = "reclaim_step k m"
    have gc: "gc_memory low (k # ks) s m = gc_memory low ks (s - delta_size t) ?m1"
      unfolding gc_memory_step using t \<open>s > low\<close> by simp
    have keys: "hidden_keys ?m1 = hidden_keys m" using drops_hidden_keys [OF drops_reclaim_step] t by blast
    have "s - delta_size t = sum (size_of ?m1) (hidden_keys ?m1)"
      using size_reclaim_step [OF t(1,3)] Cons.prems by simp
    from Cons.IH [OF this] show ?thesis
    proof
      assume rest: "\<forall>k' \<in> set ks \<inter> hidden_keys ?m1. size_of (gc_memory low ks (s - delta_size t) ?m1) k' = 0"
      obtain t1 where "get_tile k ?m1 = Some t1" "dropped t t1" using get_reclaim_step [OF t(1,3)] by blast
      then have "size_of (gc_memory low ks (s - delta_size t) ?m1) k = 0"
        by (intro drops_hidden_size [OF gc_memory_drops]) (auto simp: dropped_def)
      with rest keys show ?thesis unfolding gc by auto
    qed (unfold gc, auto)
  next
    case False
    show ?thesis
    proof (cases "s > low")
      case True
      with False have gc: "gc_memory low (k # ks) s m = gc_memory low ks s m"
        unfolding gc_memory_step by (auto split: option.split)
      have "size_of (gc_memory low ks s m) k = 0" if k: "k \<in> hidden_keys m"
      proof -
        from k obtain t where "get_tile k m = Some t" "ti_rawDeltas t = []"
          using False True by (auto simp: hidden_keys_def)
        then show ?thesis by (rule drops_hidden_size [OF gc_memory_drops])
      qed
      with Cons.IH [OF Cons.prems] show ?thesis unfolding gc by auto
    qed (use Cons.prems in \<open>simp add: gc_memory_step\<close>)
  qed
qed simp

subsection \<open>Removing tiles\<close>

lemma get_gc_count:
  "get_tile k (gc_count ks m) = (case get_tile k m of None \<Rightarrow> None
     | Some t \<Rightarrow> if k \<in> set ks \<and> ti_distanceFromView t \<noteq> 0 then None else Some t)"
  by (induction ks m rule: gc_count.induct) (auto simp: get_tile_remove split: option.split)

lemma keys_gc_count: "distinct (map fst (tm_tiles m)) \<Longrightarrow> distinct (map fst (tm_tiles (gc_count ks m)))"
  by (induction ks m rule: gc_count.induct) (auto simp: keys_remove split: option.split)

lemma hidden_gc_count: "hidden_keys (gc_count ks m) = hidden_keys m - set ks"
  by (auto simp: hidden_keys_def get_gc_count split: option.splits if_splits)

lemma size_gc_count: "k \<in> hidden_keys (gc_count ks m) \<Longrightarrow> size_of (gc_count ks m) k = size_of m k"
  by (auto simp: hidden_keys_def size_of_def get_gc_count split: option.splits if_splits)

lemma sorted_keys:
  "mset (sortTileKeysByDistance m) = mset (map fst (tm_tiles m))"
  "set (sortTileKeysByDistance m) = set (map fst (tm_tiles m))"
  by (simp_all add: sortTileKeysByDistance_def)

lemma count_after_removal:
  assumes "hidden_keys m \<subseteq> set keys"
  shows "card (hidden_keys (gc_count (take (length keys - low) keys) m)) \<le> low"
proof -
  let ?ks = "take (length keys - low) keys"
  have "set keys = set ?ks \<union> set (drop (length keys - low) keys)" by (metis append_take_drop_id set_append)
  with assms have "hidden_keys m - set ?ks \<subseteq> set (drop (length keys - low) keys)" by blast
  then have "card (hidden_keys m - set ?ks) \<le> card (set (drop (length keys - low) keys))" by (intro card_mono) auto
  also have "\<dots> \<le> length (drop (length keys - low) keys)" by (rule card_length)
  also have "\<dots> \<le> low" by simp
  finally show ?thesis by (simp add: hidden_gc_count)
qed

lemma size_after_removal:
  "sum (size_of (gc_count ks m)) (hidden_keys (gc_count ks m)) \<le> sum (size_of m) (hidden_keys m)"
proof -
  have "sum (size_of (gc_count ks m)) (hidden_keys (gc_count ks m)) = sum (size_of m) (hidden_keys (gc_count ks m))"
    by (rule sum.cong) (auto simp: size_gc_count)
  also have "\<dots> \<le> sum (size_of m) (hidden_keys m)"
    by (rule sum_mono2) (auto simp: hidden_gc_count size_of_def split: option.split)
  finally show ?thesis .
qed

subsection \<open>The whole collection\<close>

text \<open>The collection as its two stages.\<close>

definition gc_stage1 :: "bool \<Rightarrow> tile_manager \<Rightarrow> tile_manager" where
  "gc_stage1 all' m = (let (highMem, lowMem, highCount, lowCount) = gc_limits all'
     in if hidden_size m > highMem then gc_memory lowMem (sortTileKeysByDistance m) (hidden_size m) m else m)"

lemma gc_limits_ok:
  "gc_limits all' = (highMem, lowMem, highCount, lowCount) \<Longrightarrow> 0 \<le> lowMem \<and> lowMem \<le> highMem \<and> lowCount \<le> highCount"
  by (auto simp: gc_limits_def split: if_splits)

lemma stage1_drops: "drops_hidden m (gc_stage1 all' m)"
  by (simp add: gc_stage1_def gc_memory_drops split: prod.split)

lemma garbageCollect_stages:
  assumes "gc_limits all' = (highMem, lowMem, highCount, lowCount)"
  obtains (small) "garbageCollect all' m = gc_stage1 all' m" and "length (hidden_tiles m) \<le> highCount"
  | (large) keys where "garbageCollect all' m = gc_count (take (length keys - lowCount) keys) (gc_stage1 all' m)"
      and "set keys = set (map fst (tm_tiles m))"
proof (cases "length (hidden_tiles m) > highCount")
  case True
  define keys where "keys = (if hidden_size m > highMem \<and> sortTileKeysByDistance m \<noteq> [] then sortTileKeysByDistance m
    else sortTileKeysByDistance (gc_stage1 all' m))"
  have "garbageCollect all' m = gc_count (take (length keys - lowCount) keys) (gc_stage1 all' m)"
    using True by (auto simp: garbageCollect_def gc_stage1_def assms keys_def Let_def)
  moreover have "set keys = set (map fst (tm_tiles m))"
    using stage1_drops [of m all'] by (auto simp: keys_def sorted_keys(2) drops_hidden_def simp del: set_map)
  ultimately show ?thesis by (rule large)
next
  case False
  then show ?thesis by (intro small) (auto simp: garbageCollect_def gc_stage1_def assms Let_def)
qed

lemma stage1_size:
  assumes "distinct (map fst (tm_tiles m))" and "gc_limits all' = (highMem, lowMem, highCount, lowCount)"
  shows "sum (size_of (gc_stage1 all' m)) (hidden_keys (gc_stage1 all' m)) \<le> highMem"
proof (cases "hidden_size m > highMem")
  case True
  let ?keys = "sortTileKeysByDistance m" and ?m = "gc_stage1 all' m"
  have stage: "?m = gc_memory lowMem ?keys (hidden_size m) m" using True by (simp add: gc_stage1_def assms(2))
  have "hidden_keys m \<subseteq> set ?keys" using hidden_keys_subset by (simp add: sorted_keys(2))
  with gc_memory_size [OF hidden_lists(1) [OF assms(1)], of lowMem ?keys]
  have "sum (size_of ?m) (hidden_keys ?m) \<le> lowMem \<or> (\<forall>k \<in> hidden_keys m. size_of ?m k = 0)"
    by (auto simp: stage)
  then show ?thesis
  proof
    assume "\<forall>k \<in> hidden_keys m. size_of ?m k = 0"
    then have "sum (size_of ?m) (hidden_keys ?m) = 0"
      using drops_hidden_keys [OF stage1_drops [of m all']] by simp
    then show ?thesis using gc_limits_ok [OF assms(2)] by simp
  qed (use gc_limits_ok [OF assms(2)] in simp)
next
  case False
  then show ?thesis using hidden_lists(1) [OF assms(1)] by (simp add: gc_stage1_def assms(2))
qed

subsection \<open>Properties\<close>

lemma gc_within_limits:
  assumes ok: "tiles_ok m" and lim: "gc_limits all' = (highMem, lowMem, highCount, lowCount)"
  shows "hidden_size (garbageCollect all' m) \<le> highMem" and "length (hidden_tiles (garbageCollect all' m)) \<le> highCount"
proof -
  have dist: "distinct (map fst (tm_tiles m))" using ok by (simp add: tiles_ok_def)
  have dist': "distinct (map fst (tm_tiles (garbageCollect all' m)))"
    using tiles.keeps_garbageCollect [OF ok] by (simp add: tiles_ok_def)
  have "sum (size_of (garbageCollect all' m)) (hidden_keys (garbageCollect all' m)) \<le> highMem \<and>
    card (hidden_keys (garbageCollect all' m)) \<le> highCount"
  proof (rule garbageCollect_stages [OF lim, of m], goal_cases small large)
    case small
    then show ?thesis
      using stage1_size [OF dist lim] drops_hidden_keys [OF stage1_drops [of m all']] hidden_lists(2) [OF dist] by simp
  next
    case (large keys)
    have "hidden_keys (gc_stage1 all' m) \<subseteq> set keys"
      unfolding drops_hidden_keys [OF stage1_drops] large(2) by (rule hidden_keys_subset)
    from count_after_removal [OF this, of lowCount] size_after_removal [of "take (length keys - lowCount) keys" "gc_stage1 all' m"]
    show ?thesis unfolding large(1) using stage1_size [OF dist lim] gc_limits_ok [OF lim] by linarith
  qed
  then show "hidden_size (garbageCollect all' m) \<le> highMem" "length (hidden_tiles (garbageCollect all' m)) \<le> highCount"
    by (simp_all add: hidden_lists [OF dist'])
qed

text \<open>
  C14. After a garbage collection the hidden tiles hold at most 120 MB of compressed data and are at
  most 2048; when everything is to be discarded, none of them is left.
\<close>

theorem garbage_collection_bounds:
  assumes "tiles_ok m"
  shows "hidden_size (garbageCollect False m) \<le> 120 * 1024 * 1024 \<and>
    length (hidden_tiles (garbageCollect False m)) \<le> 2048 \<and>
    hidden_tiles (garbageCollect True m) = []"
  using gc_within_limits [OF assms, of False] gc_within_limits [OF assms, of True] by (simp add: gc_limits_def)

definition sample_tiles :: tile_manager where
  "sample_tiles = (let c = TileCoordData sample_app 256 512 None None None;
       far = (new_Tile c)\<lparr>ti_distanceFromView := 9, ti_deltaId := 1,
         ti_rawDeltas := [\<lparr>rd_delta = [1, 2, 3], rd_id = 1, rd_isKeyframe = True\<rparr>]\<rparr>;
       c' = TileCoordData sample_app 0 0 None None None
     in initial_manager\<lparr>tm_tiles := [(tile_key c, far), (tile_key c', new_Tile c')]\<rparr>)"

theorem garbage_collection_bounds_witness:
  "tiles_ok sample_tiles \<and> hidden_tiles sample_tiles \<noteq> [] \<and> hidden_tiles (garbageCollect True sample_tiles) = []"
proof -
  have "tiles_ok sample_tiles" by code_simp
  moreover have "hidden_tiles sample_tiles \<noteq> []" by code_simp
  ultimately show ?thesis using garbage_collection_bounds by blast
qed

text \<open>
  C22. Garbage collection never touches a visible tile; a hidden one is kept as it is, removed, or
  loses all its content and will be fetched again.
\<close>

theorem collection_spares_visible:
  assumes "get_tile k m = Some t"
  shows "(ti_distanceFromView t = 0 \<longrightarrow> get_tile k (garbageCollect all' m) = Some t) \<and>
    (get_tile k (garbageCollect all' m) = None \<or> get_tile k (garbageCollect all' m) = Some t \<or>
     (\<exists>t'. get_tile k (garbageCollect all' m) = Some t' \<and> \<not> hasContent t' \<and> needsFetch t' \<and> ti_coords t' = ti_coords t))"
proof -
  obtain highMem lowMem highCount lowCount where lim: "gc_limits all' = (highMem, lowMem, highCount, lowCount)"
    by (metis surj_pair)
  from drops_hidden_get [OF stage1_drops [of m all'] assms] obtain t1
    where t1: "get_tile k (gc_stage1 all' m) = Some t1" "t1 = t \<or> dropped t t1" .
  show ?thesis
  proof (rule garbageCollect_stages [OF lim, of m], goal_cases small large)
    case small
    with t1 show ?thesis by (auto simp: dropped_def hasContent_def hasKeyframe_def)
  next
    case (large keys)
    with t1 show ?thesis by (auto simp: get_gc_count dropped_def hasContent_def hasKeyframe_def)
  qed
qed

theorem collection_spares_visible_witness:
  "get_tile ''0:0:10:0:0'' (garbageCollect True sample_tiles) = get_tile ''0:0:10:0:0'' sample_tiles"
proof -
  have *: "get_tile ''0:0:10:0:0'' sample_tiles = Some (new_Tile (TileCoordData sample_app 0 0 None None None))" by code_simp
  from collection_spares_visible [OF this, of True] show ?thesis by (simp add: * new_Tile_def)
qed

end
