(* ===== verification/Tile_Content.thy ===== *)
theory Tile_Content
  imports Tile_Collect
begin

section \<open>The content of tiles\<close>

text \<open>
  What the operations do to the content of tiles: which deltas are decompressed, the image they
  give, the protocol of invalidations, the order of the list of bitmaps, and what happens after the
  decompression has failed.
\<close>

subsection \<open>Which deltas are decompressed\<close>

lemma drop_is_filter:
  assumes ok: "deltas_ok t" and i: "i < length (ti_rawDeltas t)"
  shows "drop i (ti_rawDeltas t) = filter (\<lambda>d. rd_id (ti_rawDeltas t ! i) \<le> rd_id d) (ti_rawDeltas t)"
proof -
  let ?ds = "ti_rawDeltas t" and ?P = "\<lambda>d. rd_id (ti_rawDeltas t ! i) \<le> rd_id d"
  have "filter ?P (take i ?ds) = []"
    using i deltas_ok_id [OF ok] by (auto simp: filter_empty_conv in_set_conv_nth)
  moreover have "filter ?P (drop i ?ds) = drop i ?ds"
    using i deltas_ok_id [OF ok] by (auto simp: filter_id_conv in_set_conv_nth)
  moreover have "filter ?P ?ds = filter ?P (take i ?ds) @ filter ?P (drop i ?ds)"
    by (metis append_take_drop_id filter_append)
  ultimately show ?thesis by simp
qed

text \<open>The entry that \<open>rehydrateTile\<close> queues for a tile.\<close>

definition hydration :: "tile \<Rightarrow> bool \<Rightarrow> pending_delta" where
  "hydration t wireMessage =
     \<lparr>pd_key = Coords (ti_coords t),
      pd_rawDelta = concat (map rd_delta (filter (\<lambda>d. resume_id t \<le> rd_id d) (ti_rawDeltas t))),
      pd_isKeyframe = list_ex (\<lambda>d. rd_id d = resume_id t \<and> rd_isKeyframe d) (ti_rawDeltas t),
      pd_wireMessage = wireMessage, pd_ids = (resume_id t, ti_deltaId t)\<rparr>"

lemma first_is_keyframe:
  assumes ok: "deltas_ok t" and need: "needsRehydration t"
  shows "list_ex (\<lambda>d. rd_id d = resume_id t \<and> rd_isKeyframe d) (ti_rawDeltas t) = rd_isKeyframe (ti_rawDeltas t ! first_delta t)"
proof -
  note first = first_delta_ok [OF ok need]
  have "d = ti_rawDeltas t ! first_delta t" if "d \<in> set (ti_rawDeltas t)" "rd_id d = resume_id t" for d
  proof -
    from that(1) obtain i where i: "i < length (ti_rawDeltas t)" "d = ti_rawDeltas t ! i" by (auto simp: in_set_conv_nth)
    have "i = first_delta t"
      using that(2) first(2) unfolding i(2) deltas_ok_id [OF ok i(1)] deltas_ok_id [OF ok first(1)] by simp
    with i show ?thesis by simp
  qed
  with first nth_mem [OF first(1)] show ?thesis unfolding list_ex_iff by blast
qed

lemma rehydrateTile_posts:
  assumes ok: "deltas_ok t" and get: "get_tile k m = Some t" and need: "needsRehydration t"
  defines "m1 \<equiv> if ti_distanceFromView t = 0 \<and> \<not> tm_pausedForCoherency m
    then (effect PauseDrawing m)\<lparr>tm_pausedForCoherency := True\<rparr> else m"
  shows "rehydrateTile k w m = Inr ((upd_tile k (\<lambda>u. u\<lparr>ti_lastPendingId := ti_deltaId t\<rparr>) m1)
    \<lparr>tm_pendingDeltas := tm_pendingDeltas m @ [hydration t w]\<rparr>)"
proof -
  note first = first_delta_ok [OF ok need]
  have ne: "ti_rawDeltas t \<noteq> []" using need by (auto simp: needsRehydration_def)
  have get1: "get_tile k m1 = Some t" using get by (simp add: m1_def get_tile_def)
  have pend: "tm_pendingDeltas m1 = tm_pendingDeltas m" by (simp add: m1_def effect_def)
  have "rehydrateTile k w m = Inr (applyCompressedDelta k (drop (first_delta t) (ti_rawDeltas t))
      (rd_isKeyframe (ti_rawDeltas t ! first_delta t)) w (resume_id t, ti_deltaId t) m1)"
    using first(1) by (simp add: rehydrateTile_def get need m1_def [symmetric] Let_def first(2) deltas_ok_last [OF ok ne])
  then show ?thesis
    by (simp add: applyCompressedDelta_def get1 Let_def pend hydration_def first_is_keyframe [OF ok need]
        drop_is_filter [OF ok first(1)] first(2) upd_tile_def)
qed

text \<open>The newest keyframe of a tile, by the ids of the deltas.\<close>

definition newest_keyframe :: "tile \<Rightarrow> raw_delta \<Rightarrow> bool" where
  "newest_keyframe t kf \<longleftrightarrow> kf \<in> set (ti_rawDeltas t) \<and> rd_isKeyframe kf \<and>
     (\<forall>d \<in> set (ti_rawDeltas t). rd_isKeyframe d \<longrightarrow> rd_id d \<le> rd_id kf)"

lemma resume_id_keyframe:
  assumes ok: "deltas_ok t" and kf: "newest_keyframe t kf"
  shows "resume_id t = (if ti_lastPendingId t > rd_id kf then ti_lastPendingId t + 1 else rd_id kf)"
proof -
  let ?ds = "ti_rawDeltas t" and ?l = "last_keyframe (ti_rawDeltas t) (length (ti_rawDeltas t) - 1)"
  obtain i where i: "i < length ?ds" "kf = ?ds ! i" using kf by (auto simp: newest_keyframe_def in_set_conv_nth)
  then have ne: "?ds \<noteq> []" by auto
  note l = last_keyframe_length [OF ne]
  have "rd_isKeyframe (?ds ! ?l)" using last_keyframe_keyframe [OF ne] ok ne by (simp add: deltas_ok_def)
  then have "rd_id (?ds ! ?l) \<le> rd_id kf" using kf l by (simp add: newest_keyframe_def)
  moreover have "i \<le> length ?ds - 1" using i(1) by linarith
  then have "\<not> ?l < i" using last_keyframe_after [of ?ds "length ?ds - 1" i] i kf by (auto simp: newest_keyframe_def)
  then have "rd_id kf \<le> rd_id (?ds ! ?l)" using deltas_ok_id [OF ok] i l by simp
  ultimately show ?thesis by (simp add: resume_id_def Let_def)
qed

lemma from_keyframe:
  assumes ok: "deltas_ok t" and kf: "kf \<in> set (ti_rawDeltas t)"
  shows "filter (\<lambda>d. rd_id kf \<le> rd_id d) (ti_rawDeltas t) = kf # filter (\<lambda>d. rd_id kf < rd_id d) (ti_rawDeltas t)"
proof -
  obtain i where i: "i < length (ti_rawDeltas t)" "kf = ti_rawDeltas t ! i" using kf by (auto simp: in_set_conv_nth)
  have split: "drop i (ti_rawDeltas t) = kf # drop (Suc i) (ti_rawDeltas t)" using i by (simp add: Cons_nth_drop_Suc)
  have "rd_id kf < rd_id d" if "d \<in> set (drop (Suc i) (ti_rawDeltas t))" for d
    using that i deltas_ok_id [OF ok] by (auto simp: in_set_conv_nth)
  then have "filter (\<lambda>d. rd_id kf < rd_id d) (drop i (ti_rawDeltas t)) = drop (Suc i) (ti_rawDeltas t)"
    unfolding split by (simp add: filter_id_conv)
  moreover have "filter (\<lambda>d. rd_id kf < rd_id d) (take i (ti_rawDeltas t)) = []"
    using i deltas_ok_id [OF ok] by (auto simp: filter_empty_conv in_set_conv_nth)
  ultimately have "filter (\<lambda>d. rd_id kf < rd_id d) (ti_rawDeltas t) = drop (Suc i) (ti_rawDeltas t)"
    by (metis append_Nil append_take_drop_id filter_append)
  then show ?thesis using drop_is_filter [OF ok i(1)] split i(2) by simp
qed

text \<open>
  C19. Rehydrating a tile of a well-formed manager queues one entry: the compressed deltas from the newest
  keyframe on that have not been queued yet, in order, up to the newest. When the delta that was queued last is
  that keyframe itself, it is queued a second time before them, and the decompression starts over from it. Then
  the tile needs no rehydration.
\<close>

theorem rehydration_queues_missing:
  assumes "tiles_ok m" and "get_tile k m = Some t" and "needsRehydration t" and "newest_keyframe t kf"
  shows "\<exists>m' e. rehydrateTile k w m = Inr m' \<and> tm_pendingDeltas m' = tm_pendingDeltas m @ [e] \<and> pd_key e = Coords (ti_coords t) \<and>
    pd_rawDelta e = concat (map rd_delta ((if ti_lastPendingId t = rd_id kf then [kf] else []) @
      filter (\<lambda>d. ti_lastPendingId t < rd_id d \<and> rd_id kf \<le> rd_id d) (ti_rawDeltas t))) \<and>
    pd_isKeyframe e = (ti_lastPendingId t \<le> rd_id kf) \<and> snd (pd_ids e) = ti_deltaId t \<and>
    get_tile k m' = Some (t\<lparr>ti_lastPendingId := ti_deltaId t\<rparr>) \<and> \<not> needsRehydration (t\<lparr>ti_lastPendingId := ti_deltaId t\<rparr>)"
proof -
  have ok: "deltas_ok t" using assms(1,2) by (simp add: tiles_ok_iff)
  have kf: "kf \<in> set (ti_rawDeltas t)" "rd_isKeyframe kf" using assms(4) by (simp_all add: newest_keyframe_def)
  then have ne: "ti_rawDeltas t \<noteq> []" by auto
  note resume = resume_id_keyframe [OF ok assms(4)]
  consider "rd_id kf < ti_lastPendingId t" | "ti_lastPendingId t = rd_id kf" | "ti_lastPendingId t < rd_id kf" by linarith
  then have "filter (\<lambda>d. resume_id t \<le> rd_id d) (ti_rawDeltas t) = (if ti_lastPendingId t = rd_id kf then [kf] else []) @
      filter (\<lambda>d. ti_lastPendingId t < rd_id d \<and> rd_id kf \<le> rd_id d) (ti_rawDeltas t)"
  proof cases
    case 2
    have "filter (\<lambda>d. rd_id kf < rd_id d \<and> rd_id kf \<le> rd_id d) (ti_rawDeltas t) = filter (\<lambda>d. rd_id kf < rd_id d) (ti_rawDeltas t)"
      by (rule filter_cong) auto
    then show ?thesis using 2 from_keyframe [OF ok kf(1)] by (simp add: resume)
  qed (auto simp: resume intro!: filter_cong)
  moreover have "list_ex (\<lambda>d. rd_id d = resume_id t \<and> rd_isKeyframe d) (ti_rawDeltas t) = (ti_lastPendingId t \<le> rd_id kf)"
    using assms(4) kf by (auto simp: resume list_ex_iff newest_keyframe_def)
  ultimately show ?thesis unfolding rehydrateTile_posts [OF ok assms(2,3)]
    using assms(2) deltas_ok_last [OF ok ne]
    by (auto simp: hydration_def needsRehydration_def upd_tile_def get_tile_def AList.map_of_map_entry effect_def)
qed

theorem rehydration_queues_missing_witness:
  "\<exists>m'. rehydrateTile ''256:512:10:0:0'' False sample_tiles = Inr m' \<and> map pd_rawDelta (tm_pendingDeltas m') = [[1, 2, 3]]"
proof -
  let ?t = "(new_Tile (TileCoordData sample_app 256 512 None None None))\<lparr>ti_distanceFromView := 9, ti_deltaId := 1,
         ti_rawDeltas := [\<lparr>rd_delta = [1, 2, 3], rd_id = 1, rd_isKeyframe = True\<rparr>]\<rparr>"
  have "tiles_ok sample_tiles" "get_tile ''256:512:10:0:0'' sample_tiles = Some ?t" "needsRehydration ?t" by code_simp+
  moreover have "newest_keyframe ?t \<lparr>rd_delta = [1, 2, 3], rd_id = 1, rd_isKeyframe = True\<rparr>"
    by (simp add: newest_keyframe_def)
  ultimately obtain m' e where "rehydrateTile ''256:512:10:0:0'' False sample_tiles = Inr m'"
      "tm_pendingDeltas m' = tm_pendingDeltas sample_tiles @ [e]" "pd_rawDelta e = [1, 2, 3]"
    using rehydration_queues_missing [of sample_tiles "''256:512:10:0:0''" ?t _ False] by (force simp: new_Tile_def)
  moreover have "tm_pendingDeltas sample_tiles = []" by code_simp
  ultimately show ?thesis by simp
qed

subsection \<open>Invalidation\<close>

lemma hasContent_image: "hasContent t \<longleftrightarrow> ti_image t \<noteq> None \<or> ti_rawDeltas t \<noteq> []"
  by (simp add: hasContent_def hasKeyframe_def)

lemma get_store_message:
  assumes "tile_key (tileMsgToCoords app msg) = k" and "get_tile k m = Some t"
  shows "get_tile k (store_message app msg img m) = Some (fst (receive_delta msg img t))"
    and "tm_fetchKeyframeQueue (store_message app msg img m) =
      tm_fetchKeyframeQueue m @ (if snd (receive_delta msg img t) then [tileMsgToCoords app msg] else [])"
  using assms by (auto simp: store_message_def Let_def upd_tile_def get_tile_def AList.map_of_map_entry)

text \<open>
  C32. An invalidation with a wire id makes a tile with content be fetched. A message for the tile makes it valid
  again if and only if its wire id is later than that of the invalidation, with or without new content, unless it
  is a delta for which the tile has no keyframe: an answer that the server sent before the invalidation does not
  hide it.
\<close>

theorem invalidation_protocol:
  assumes "get_tile k m = Some t" and "hasContent t" and "w \<noteq> 0" and "tile_key (tileMsgToCoords app msg) = k"
  shows "tileNeedsFetch k (invalidateTile k w m) \<and>
    (tileNeedsFetch k (store_message app msg img (invalidateTile k w m)) \<longleftrightarrow>
       msg_wireId msg \<le> w \<or> (\<exists>data. img = Some (data, False) \<and> \<not> hasKeyframe t))"
proof -
  let ?t = "forceKeyframe w (t\<lparr>ti_invalidateCount := ti_invalidateCount t + 1\<rparr>)"
  have get: "get_tile k (invalidateTile k w m) = Some ?t"
    using assms(1-3) by (simp add: invalidateTile_def Let_def)
  have "needsFetch ?t"
    by (simp add: needsFetch_def forceKeyframe_def allowFastRequest_def updateLastRequest_def)
  moreover have "needsFetch (fst (receive_delta msg img ?t)) \<longleftrightarrow>
      msg_wireId msg \<le> w \<or> (\<exists>data. img = Some (data, False) \<and> \<not> hasKeyframe t)"
    using assms(2) by (cases img) (auto simp: receive_delta_def Let_def push_delta_def needsFetch_def forceKeyframe_def
        allowFastRequest_def updateLastRequest_def hasContent_image hasKeyframe_def)
  ultimately show ?thesis by (simp add: tileNeedsFetch_def get get_store_message [OF assms(4) get])
qed

definition sample_msg :: tile_msg where
  "sample_msg = \<lparr>msg_x = 3840, msg_y = 7680, msg_tileWidth = 3840, msg_tileHeight = 3840, msg_zoom = 10, msg_part = 0,
     msg_mode = None, msg_nviewid = 0, msg_wireId = 7, msg_id = None\<rparr>"

lemma sample_msg_key: "tile_key (tileMsgToCoords sample_app sample_msg) = ''256:512:10:0:0''"
proof -
  have "js_round (3840 / 3840) = 1" "js_round (7680 / 3840) = 2" using js_round_of_int [of 1] js_round_of_int [of 2] by simp_all
  then have coords: "tileMsgToCoords sample_app sample_msg = (TileCoordData sample_app 256 512 (Some 10) (Some 0) (Some 0))"
    by (simp add: tileMsgToCoords_def twipsToCoords_def sample_msg_def sample_app_def TileCoordData_def Let_def)
  have "tile_key (TileCoordData sample_app 256 512 (Some 10) (Some 0) (Some 0)) = ''256:512:10:0:0''" by code_simp
  then show ?thesis by (simp only: coords)
qed

theorem invalidation_protocol_witness:
  "\<exists>m. m = invalidateTile ''256:512:10:0:0'' 9 sample_tiles \<and> tileNeedsFetch ''256:512:10:0:0'' m \<and>
     tileNeedsFetch ''256:512:10:0:0'' (store_message sample_app sample_msg (Some ([1], False)) m) \<and>
     \<not> tileNeedsFetch ''256:512:10:0:0'' (store_message sample_app (sample_msg\<lparr>msg_wireId := 10\<rparr>) None m)"
proof -
  let ?t = "(new_Tile (TileCoordData sample_app 256 512 None None None))\<lparr>ti_distanceFromView := 9, ti_deltaId := 1,
         ti_rawDeltas := [\<lparr>rd_delta = [1, 2, 3], rd_id = 1, rd_isKeyframe = True\<rparr>]\<rparr>"
  have "get_tile ''256:512:10:0:0'' sample_tiles = Some ?t" "hasContent ?t" by code_simp+
  moreover have "tile_key (tileMsgToCoords sample_app (sample_msg\<lparr>msg_wireId := 10\<rparr>)) = ''256:512:10:0:0''"
    using sample_msg_key by (simp add: tileMsgToCoords_def twipsToCoords_def)
  ultimately show ?thesis
    using invalidation_protocol [OF _ _ _ sample_msg_key, of sample_tiles ?t 9 "Some ([1], False)"]
      invalidation_protocol [of "''256:512:10:0:0''" sample_tiles ?t 9 sample_app "sample_msg\<lparr>msg_wireId := 10\<rparr>" None]
    by (simp add: sample_msg_def)
qed

text \<open>
  A delta for a tile whose keyframe has been collected is not stored: the tile is marked to be
  fetched, and with the next acknowledgement it is requested again.
\<close>

theorem lost_keyframe_is_refetched:
  assumes "get_tile k m = Some t" and "\<not> hasKeyframe t" and "tile_key (tileMsgToCoords app msg) = k"
    and "m' = store_message app msg (Some (data, False)) m"
  shows "tileNeedsFetch k m' \<and> map_option ti_rawDeltas (get_tile k m') = Some [] \<and>
    tileMsgToCoords app msg \<in> set (tm_pendingTileCombineQueue (sendProcessedResponse now m'))"
proof -
  have "snd (receive_delta msg (Some (data, False)) t)" using assms(2) by (simp add: receive_delta_def hasKeyframe_def Let_def)
  moreover have "needsFetch (fst (receive_delta msg (Some (data, False)) t))"
    "ti_rawDeltas (fst (receive_delta msg (Some (data, False)) t)) = []"
    using assms(2) by (simp_all add: receive_delta_def hasKeyframe_def Let_def needsFetch_def forceKeyframe_def
        allowFastRequest_def updateLastRequest_def)
  ultimately show ?thesis
    by (simp add: assms(4) tileNeedsFetch_def get_store_message [OF assms(3,1)] sendProcessedResponse_def
        sendTileCombineRequest_def effect_def Let_def)
qed

theorem lost_keyframe_is_refetched_witness:
  "\<exists>m'. m' = store_message sample_app sample_msg (Some ([1], False))
       (sample_tiles\<lparr>tm_tiles := [(''256:512:10:0:0'', new_Tile (TileCoordData sample_app 256 512 None None None))]\<rparr>) \<and>
     tileNeedsFetch ''256:512:10:0:0'' m' \<and>
     tileMsgToCoords sample_app sample_msg \<in> set (tm_pendingTileCombineQueue (sendProcessedResponse 0 m'))"
  using lost_keyframe_is_refetched [OF _ _ sample_msg_key refl,
      of "sample_tiles\<lparr>tm_tiles := [(''256:512:10:0:0'', new_Tile (TileCoordData sample_app 256 512 None None None))]\<rparr>"
         "new_Tile (TileCoordData sample_app 256 512 None None None)" "[1]" 0]
  by (simp add: get_tile_def new_Tile_def hasKeyframe_def)

subsection \<open>The order of the bitmaps\<close>

interpretation by_distance: sort_order "\<lambda>a b. num_cmp (distance_of m a) (distance_of m b)" "\<lambda>k. - distance_of m k" for m
  by unfold_locales (simp add: num_cmp_def)

lemma sorted_uminus_rev: "sorted (map (\<lambda>x. - f x) (rev xs)) \<longleftrightarrow> sorted (map (f :: _ \<Rightarrow> num) xs)"
  by (induction xs) (auto simp: sorted_append)

lemma insertion_index_bounds: "low \<le> high \<Longrightarrow> low \<le> insertion_index ds d low high \<and> insertion_index ds d low high \<le> high"
proof (induction ds d low high rule: insertion_index.induct)
  case (1 ds d low high)
  let ?mid = "(low + high) div 2"
  show ?case
  proof (cases "low < high")
    case True
    then have "?mid + 1 \<le> high" "low \<le> ?mid" by auto
    with 1(1) [OF True refl] 1(2) [OF True refl] True show ?thesis
      unfolding insertion_index.simps [of ds d low high] Let_def by (cases "ds ! ?mid < d") auto
  next
    case False
    then show ?thesis using 1(3) unfolding insertion_index.simps [of ds d low high] by simp
  qed
qed

lemma insertion_index_splits:
  assumes "sorted ds" and "high \<le> length ds" and "\<forall>i < low. ds ! i < d" and "\<forall>i. high \<le> i \<and> i < length ds \<longrightarrow> d \<le> ds ! i"
  shows "(\<forall>i < insertion_index ds d low high. i < length ds \<longrightarrow> ds ! i < d) \<and>
    (\<forall>i. insertion_index ds d low high \<le> i \<and> i < length ds \<longrightarrow> d \<le> ds ! i)"
  using assms
proof (induction ds d low high rule: insertion_index.induct)
  case (1 ds d low high)
  show ?case
  proof (cases "low < high")
    case True
    let ?mid = "(low + high) div 2"
    have mid: "?mid < length ds" "low \<le> ?mid" "?mid < high" using True 1(4) by auto
    show ?thesis
    proof (cases "ds ! ?mid < d")
      case True
      have "\<forall>i < ?mid + 1. ds ! i < d"
      proof (intro allI impI)
        fix i assume "i < ?mid + 1"
        then have "ds ! i \<le> ds ! ?mid" using mid(1) by (intro sorted_nth_mono [OF 1(3)]) auto
        with True show "ds ! i < d" by simp
      qed
      from 1(1) [OF \<open>low < high\<close> refl True 1(3,4) this 1(6)] True \<open>low < high\<close> show ?thesis
        unfolding insertion_index.simps [of ds d low high] Let_def by simp
    next
      case False
      have "\<forall>i. ?mid \<le> i \<and> i < length ds \<longrightarrow> d \<le> ds ! i"
      proof (intro allI impI)
        fix i assume "?mid \<le> i \<and> i < length ds"
        then have "ds ! ?mid \<le> ds ! i" by (intro sorted_nth_mono [OF 1(3)]) auto
        with False show "d \<le> ds ! i" by simp
      qed
      from 1(2) [OF \<open>low < high\<close> refl False 1(3) less_imp_le [OF mid(1)] 1(5) this] False \<open>low < high\<close> show ?thesis
        unfolding insertion_index.simps [of ds d low high] Let_def by simp
    qed
  next
    case False
    then show ?thesis using 1(5,6) unfolding insertion_index.simps [of ds d low high] by auto
  qed
qed

lemma sorted_insert_at:
  assumes "sorted ds" and "i \<le> length ds" and "\<forall>j < i. ds ! j \<le> d" and "\<forall>j. i \<le> j \<and> j < length ds \<longrightarrow> d \<le> ds ! j"
  shows "sorted (list_insert_at i d ds)"
proof -
  have "x \<le> d" if "x \<in> set (take i ds)" for x using that assms(3) by (auto simp: in_set_conv_nth)
  moreover have "d \<le> x" if "x \<in> set (drop i ds)" for x using that assms(4) by (auto simp: in_set_conv_nth)
  moreover have "x \<le> y" if "x \<in> set (take i ds)" "y \<in> set (drop i ds)" for x y
    using calculation that by (meson order_trans)
  ultimately show ?thesis using assms(1) by (auto simp: list_insert_at_def sorted_append sorted_wrt_take sorted_wrt_drop)
qed

lemma distance_reclaim [simp]: "distance_of (reclaimTileBitmapMemory k m) = distance_of m"
  by (auto simp: fun_eq_iff distance_of_def get_tile_reclaim split: option.split)

lemma distance_upd_image [simp]: "distance_of (upd_tile k (\<lambda>t. t\<lparr>ti_image := b\<rparr>) m) = distance_of m"
  by (auto simp: fun_eq_iff distance_of_def split: option.split)

lemma distance_list [simp]: "distance_of (m\<lparr>tm_tileBitmapList := ks\<rparr>) = distance_of m"
  by (simp add: fun_eq_iff distance_of_def)

text \<open>
  The list of bitmaps stays sorted by the distance from the view when a bitmap is added, also
  when the last one has to go: the binary search finds the right place. Sorting the list gives
  that order from any list.
\<close>

theorem bitmap_list_sorted:
  assumes "sorted (map (distance_of m) (tm_tileBitmapList m))" and "\<forall>k' \<in> set (tm_tileBitmapList m). 0 \<le> distance_of m k'"
    and "m' = setBitmapOnTile k b m"
  shows "sorted (map (distance_of m') (tm_tileBitmapList m')) \<and>
    sorted (map (distance_of m'') (tm_tileBitmapList (sortTileBitmapList m'')))"
proof
  show "sorted (map (distance_of m'') (tm_tileBitmapList (sortTileBitmapList m'')))"
    using by_distance.sorted_js_sort [of m'' "tm_tileBitmapList m''"]
    unfolding sorted_uminus_rev by (simp add: sortTileBitmapList_def)
  show "sorted (map (distance_of m') (tm_tileBitmapList m'))"
  proof (cases rule: setBitmap_cases [of k m b])
    case (added t m1 i)
    let ?ks = "tm_tileBitmapList m1" and ?d = "distance_of m"
    have d1: "distance_of m1 = ?d" by (simp add: added(3))
    have ks: "?ks = tm_tileBitmapList m \<or> (\<exists>x. ?ks = remove1 x (tm_tileBitmapList m))"
      by (auto simp: added(3) list_reclaim split: option.split)
    have sorted1: "sorted (map ?d ?ks)"
      using ks assms(1) by (auto simp: sorted_map_remove1)
    have pos: "\<forall>x \<in> set ?ks. 0 \<le> ?d x" using ks assms(2) by (auto dest: set_remove1_subset [THEN subsetD])
    have dk: "?d k = ti_distanceFromView t" by (simp add: distance_of_def added(1))
    have "sorted (list_insert_at i (?d k) (map ?d ?ks))"
    proof (cases "?d k = 0")
      case True
      then show ?thesis
        using pos sorted1 by (intro sorted_insert_at) (auto simp: added(4) dk [symmetric])
    next
      case False
      then have "i = insertion_index (map ?d ?ks) (?d k) 0 (length ?ks)" by (simp add: added(4) d1 dk)
      with insertion_index_splits [OF sorted1, of "length ?ks" 0 "?d k"] insertion_index_bounds [of 0 "length ?ks" "map ?d ?ks" "?d k"]
      show ?thesis using sorted1 by (intro sorted_insert_at) (auto simp: less_imp_le)
    qed
    then show ?thesis
      unfolding assms(3) added(5) by (simp add: d1 list_insert_at_def take_map drop_map)
  qed (use assms in simp_all)
qed

theorem bitmap_list_sorted_witness:
  "\<exists>m'. m' = setBitmapOnTile ''256:512:10:0:0'' [7] (setBitmapOnTile ''0:0:10:0:0'' [8] sample_tiles) \<and>
     sorted (map (distance_of m') (tm_tileBitmapList m')) \<and> tm_tileBitmapList m' = [''0:0:10:0:0'', ''256:512:10:0:0'']"
proof -
  let ?m = "setBitmapOnTile ''0:0:10:0:0'' [8] sample_tiles"
  have list: "tm_tileBitmapList ?m = [''0:0:10:0:0'']" and dist: "distance_of ?m ''0:0:10:0:0'' = 0" by code_simp+
  have "sorted (map (distance_of ?m) (tm_tileBitmapList ?m))" "\<forall>k \<in> set (tm_tileBitmapList ?m). 0 \<le> distance_of ?m k"
    unfolding list by (simp_all only: list.map list.set sorted1 ball_simps dist order_refl simp_thms)
  from bitmap_list_sorted [OF this refl, of "''256:512:10:0:0''" "[7]"]
  have "sorted (map (distance_of (setBitmapOnTile ''256:512:10:0:0'' [7] ?m))
    (tm_tileBitmapList (setBitmapOnTile ''256:512:10:0:0'' [7] ?m)))" by blast
  moreover have "tm_tileBitmapList (setBitmapOnTile ''256:512:10:0:0'' [7] ?m) = [''0:0:10:0:0'', ''256:512:10:0:0'']"
    by code_simp
  ultimately show ?thesis by blast
qed

subsection \<open>After a failure\<close>

definition has_string_key :: "tile_manager \<Rightarrow> bool" where
  "has_string_key m \<longleftrightarrow> list_ex (\<lambda>d. case pd_key d of Key s \<Rightarrow> True | Coords c \<Rightarrow> False) (tm_pendingDeltas m)"

text \<open>What decompressing here leaves alone.\<close>

definition same_queue :: "tile_manager \<Rightarrow> tile_manager \<Rightarrow> bool" where
  "same_queue m m' \<longleftrightarrow> tm_pendingDeltas m' = tm_pendingDeltas m \<and> tm_transactionCallbacks m' = tm_transactionCallbacks m"

lemma same_queue_upd [simp]: "same_queue m (upd_tile k f m') = same_queue m m'"
  by (simp add: same_queue_def upd_tile_def)

lemma same_queue_decompress:
  "same_queue m m' \<Longrightarrow> pred_sum (same_queue m) (same_queue m) (decompress_here app k r kf m')"
  by (simp add: decompress_here_def applyDelta_def same_queue_def Let_def split: option.split sum.split prod.split)

lemma same_queue_bitmap:
  assumes "same_queue m m'"
  shows "pred_sum (same_queue m) (\<lambda>st. same_queue m (fst st)) (worker_bitmap app k x b t m' acc)"
proof -
  have "pred_sum (same_queue m) (\<lambda>st. same_queue m (fst st)) (sum_bind (decompress_here app k r kf m')
      (\<lambda>m3. Inr (m3, createTileBitmap k c m3 acc)))" for c r kf
    by (rule sum_bind_keeps [OF same_queue_decompress [OF assms]]) simp_all
  with assms show ?thesis by (simp add: worker_bitmap_def same_queue_def split: option.split)
qed

lemma same_queue_delta:
  assumes "same_queue m (fst st)"
  shows "pred_sum (same_queue m) (\<lambda>st. same_queue m (fst st)) (worker_delta app xb st)"
proof -
  obtain k x b m' acc where [simp]: "xb = ((k, x), b)" "st = (m', acc)" by (metis surj_pair)
  have "same_queue m (m'\<lparr>tm_nullDeltaUpdate := n\<rparr>)" for n using assms by (simp add: same_queue_def)
  moreover have "(upd_tile k f m')\<lparr>tm_nullDeltaUpdate := n\<rparr> = upd_tile k f (m'\<lparr>tm_nullDeltaUpdate := n\<rparr>)" for f m' n
    by (simp add: upd_tile_def)
  ultimately show ?thesis
    using assms by (simp add: worker_delta_def Let_def same_queue_bitmap split: option.split)
qed

lemma same_queue_deltas:
  "same_queue m (fst st) \<Longrightarrow> pred_sum (same_queue m) (\<lambda>st. same_queue m (fst st)) (worker_deltas app xs st)"
  by (induction app xs st rule: worker_deltas.induct) (auto intro: sum_bind_keeps [OF same_queue_delta])

lemma same_queue_worker:
  assumes "onWorkerEndTransaction app ds None m = Inl m'"
  shows "same_queue m m'"
proof -
  let ?m = "if tm_nPendingWorkerTasks m > 0 then m\<lparr>tm_nPendingWorkerTasks := tm_nPendingWorkerTasks m - 1\<rparr> else m"
  have start: "same_queue m (fst (?m, []))" by (simp add: same_queue_def)
  have "pred_sum (same_queue m) (\<lambda>_. True) (onWorkerEndTransaction app ds None m)"
    unfolding onWorkerEndTransaction_def Let_def
    by (rule sum_bind_keeps [OF same_queue_deltas [OF start]]) auto
  then show ?thesis by (simp add: assms)
qed

lemma keys_of_string:
  "list_ex (\<lambda>d. case pd_key d of Key s \<Rightarrow> True | Coords c \<Rightarrow> False) ds \<Longrightarrow> fst (keys_of ds) = None"
  "ds \<noteq> [] \<Longrightarrow> list_ex (\<lambda>d. case pd_key d of Key s \<Rightarrow> True | Coords c \<Rightarrow> False) (snd (keys_of ds))"
  by (induction ds) (auto simp: Let_def split: delta_key.splits option.splits prod.splits)

lemma failed_here:
  assumes "decompressPendingDeltas app m = Inl m'" and "ta_workers app = 0" and "tm_pendingDeltas m \<noteq> []"
  shows "has_string_key m' \<and> tm_transactionCallbacks m' = tm_transactionCallbacks m"
proof -
  obtain r ds where ks: "keys_of (tm_pendingDeltas m) = (r, ds)" by fastforce
  let ?m2 = "m\<lparr>tm_nPendingWorkerTasks := tm_nPendingWorkerTasks m + 1, tm_pendingDeltas := ds\<rparr>"
  have "same_queue ?m2 m'"
  proof (cases r)
    case None
    with assms(1,2) ks have "m' = ?m2" by (simp add: decompressPendingDeltas_def Let_def)
    then show ?thesis by (simp add: same_queue_def)
  next
    case (Some deltas)
    with assms(1,2) ks have "onWorkerEndTransaction app deltas None ?m2 = Inl m'"
      by (cases "onWorkerEndTransaction app deltas None ?m2") (simp_all add: decompressPendingDeltas_def Let_def sum_bind_def)
    then show ?thesis by (rule same_queue_worker)
  qed
  with keys_of_string(2) [OF assms(3)] ks show ?thesis by (simp add: same_queue_def has_string_key_def)
qed

lemma string_key_blocks:
  assumes "ta_workers app = 0" and key: "has_string_key m"
  shows "has_string_key (endTransaction app callback m) \<and> tm_tiles (endTransaction app callback m) = tm_tiles m \<and>
    tm_tileImageCache (endTransaction app callback m) = tm_tileImageCache m"
proof -
  have ne: "tm_pendingDeltas m \<noteq> []" using key by (auto simp: has_string_key_def)
  obtain ds where ks: "keys_of (tm_pendingDeltas m) = (None, ds)"
    using keys_of_string(1) key by (metis has_string_key_def prod.collapse)
  have ds: "has_string_key (m'\<lparr>tm_pendingDeltas := ds\<rparr>)" for m'
    using keys_of_string(2) [OF ne] by (simp add: has_string_key_def ks)
  have dec: "decompressPendingDeltas app m' =
      Inl (m'\<lparr>tm_nPendingWorkerTasks := tm_nPendingWorkerTasks m' + 1, tm_pendingDeltas := ds\<rparr>)"
    if "tm_pendingDeltas m' = tm_pendingDeltas m" for m'
    using assms(1) ks that by (simp add: decompressPendingDeltas_def Let_def)
  have frame: "has_string_key (effect e m') = has_string_key m'" "has_string_key (m'\<lparr>tm_inTransaction := n\<rparr>) = has_string_key m'"
    "has_string_key (m'\<lparr>tm_transactionCallbacks := cs\<rparr>) = has_string_key m'" for e m' n cs
    by (simp_all add: has_string_key_def effect_def)
  show ?thesis
    using key ne ds by (simp add: endTransaction_def Let_def dec run_callback_def frame split: option.split)
      (simp add: effect_def)
qed

text \<open>
  When decompressing without workers fails once, the queue keeps deltas whose coordinates have
  been replaced by keys, so every later transaction fails as well and changes no tile and no image;
  and the callback of the failed transaction has been called but stays queued, to be called again.
\<close>

theorem failed_decompression_sticks:
  assumes "ta_workers app = 0" and "tm_inTransaction m = 1" and "tm_pendingDeltas m \<noteq> []"
    and "isl (decompressPendingDeltas app
      (m\<lparr>tm_inTransaction := 0, tm_transactionCallbacks := tm_transactionCallbacks m @ [c]\<rparr>))"
    and "m1 = endTransaction app (Some c) m"
  shows "has_string_key m1 \<and> last (tm_effects m1) = RunCallback c \<and> c \<in> set (tm_transactionCallbacks m1) \<and>
    (\<forall>m' callback. has_string_key m' \<longrightarrow> (let m'' = endTransaction app callback m' in
      has_string_key m'' \<and> tm_tiles m'' = tm_tiles m' \<and> tm_tileImageCache m'' = tm_tileImageCache m'))"
proof -
  obtain m0 where fail: "decompressPendingDeltas app
      (m\<lparr>tm_inTransaction := 0, tm_transactionCallbacks := tm_transactionCallbacks m @ [c]\<rparr>) = Inl m0"
    using assms(4) by (auto simp: isl_def)
  have "has_string_key m0 \<and> tm_transactionCallbacks m0 = tm_transactionCallbacks m @ [c]"
    using failed_here [OF fail assms(1)] assms(3) by simp
  moreover have "m1 = effect (RunCallback c) ((effect DisableTaskWorkers m0)\<lparr>tm_inTransaction := 0\<rparr>)"
    using assms(2,3,5) fail by (simp add: endTransaction_def run_callback_def Let_def)
  ultimately have "has_string_key m1 \<and> last (tm_effects m1) = RunCallback c \<and> c \<in> set (tm_transactionCallbacks m1)"
    by (simp add: has_string_key_def effect_def)
  moreover have "has_string_key (endTransaction app callback m') \<and> tm_tiles (endTransaction app callback m') = tm_tiles m' \<and>
      tm_tileImageCache (endTransaction app callback m') = tm_tileImageCache m'" if "has_string_key m'" for m' callback
    using string_key_blocks [OF assms(1) that] .
  ultimately show ?thesis by (simp add: Let_def)
qed

definition broken_app :: tile_app where
  "broken_app = sample_app\<lparr>ta_decompress := (\<lambda>_. None)\<rparr>"

definition broken_manager :: tile_manager where
  "broken_manager = (case rehydrateTile ''256:512:10:0:0'' True (beginTransaction sample_tiles) of
     Inr m \<Rightarrow> m | Inl e \<Rightarrow> initial_manager)"

theorem failed_decompression_sticks_witness:
  "has_string_key (endTransaction broken_app (Some 3) broken_manager)"
proof -
  have "ta_workers broken_app = 0" "tm_inTransaction broken_manager = 1" "tm_pendingDeltas broken_manager \<noteq> []"
    "isl (decompressPendingDeltas broken_app (broken_manager\<lparr>tm_inTransaction := 0,
       tm_transactionCallbacks := tm_transactionCallbacks broken_manager @ [3]\<rparr>))"
    by code_simp+
  from failed_decompression_sticks [OF this refl] show ?thesis by blast
qed

end
