(* ===== verification/Tile_Image.thy ===== *)
theory Tile_Image
  imports Tile_Content
begin

section \<open>The image of a tile\<close>

text \<open>
  The composition of the message store, the transaction and the codec: decompressing what a tile has
  received gives the image that the server has drawn, however its deltas were grouped. The content
  of a delta is abstract here, an image or a list of drawing operations; \<open>carries\<close> relates it to the
  compressed bytes.
\<close>

datatype delta_content = Rows "pixel list list" | Ops "delta_op list"

fun content_bytes :: "delta_content \<Rightarrow> byte list" where
  "content_bytes (Rows rows) = rle_encode rows"
| "content_bytes (Ops ops) = encode_chunk ops"

fun draw :: "nat \<Rightarrow> delta_content \<Rightarrow> byte list \<Rightarrow> byte list" where
  "draw n (Rows rows) img = concat (concat rows)"
| "draw n (Ops ops) img = apply_ops n ops img"

fun content_ok :: "nat \<Rightarrow> delta_content \<Rightarrow> bool" where
  "content_ok n (Rows rows) \<longleftrightarrow> length rows = n \<and> (\<forall>row \<in> set rows. row_ok n row)"
| "content_ok n (Ops ops) \<longleftrightarrow> (\<forall>oper \<in> set ops. op_ok oper)"

fun is_image :: "delta_content \<Rightarrow> bool" where
  "is_image (Rows rows) \<longleftrightarrow> True"
| "is_image (Ops ops) \<longleftrightarrow> False"

definition carries :: "tile_app \<Rightarrow> raw_delta \<Rightarrow> delta_content \<Rightarrow> bool" where
  "carries app d c \<longleftrightarrow> content_ok (nat (ta_tileSize app)) c \<and> rd_isKeyframe d = is_image c \<and>
     ta_decompress app (rd_delta d) = Some (content_bytes c)"

text \<open>The frames of the zstd format are decompressed one after the other.\<close>

definition zstd_frames :: "(byte list \<Rightarrow> byte list option) \<Rightarrow> bool" where
  "zstd_frames D \<longleftrightarrow> (\<forall>a b x y. D a = Some x \<longrightarrow> D b = Some y \<longrightarrow> D (a @ b) = Some (x @ y))"

lemma decompress_concat:
  assumes "zstd_frames (ta_decompress app)" and "list_all2 (carries app) ds cs" and "ds \<noteq> []"
  shows "ta_decompress app (concat (map rd_delta ds)) = Some (concat (map content_bytes cs))"
  using assms(2,3)
proof (induction ds cs rule: list_all2_induct)
  case (Cons d ds c cs)
  show ?case
  proof (cases "ds = []")
    case True
    with Cons show ?thesis by (simp add: carries_def)
  next
    case False
    with Cons assms(1) show ?thesis by (simp add: carries_def zstd_frames_def)
  qed
qed simp

lemma ops_only: "\<forall>c \<in> set cs. \<not> is_image c \<Longrightarrow> \<exists>chunks. cs = map Ops chunks"
proof (induction cs)
  case (Cons c cs)
  then obtain chunks where "cs = map Ops chunks" by auto
  with Cons.prems show ?case by (cases c) (auto intro: exI [of _ "_ # chunks"])
qed simp

lemma draw_ops: "fold (draw n) (map Ops chunks) img = fold (apply_ops n) chunks img"
  by (induction chunks arbitrary: img) auto

lemma bytes_ops: "concat (map content_bytes (map Ops chunks)) = concat (map encode_chunk chunks)"
  by (simp add: comp_def)

lemma draw_image: "is_image c \<Longrightarrow> draw n c img = draw n c img'"
  by (cases c) auto

lemma fold_draw_image: "cs \<noteq> [] \<Longrightarrow> is_image (hd cs) \<Longrightarrow> fold (draw n) cs img = fold (draw n) cs img'"
  by (cases cs) (auto simp: draw_image [of _ n img img'])

text \<open>Decompressing a group of deltas draws their content.\<close>

lemma decompress_here_keyframe:
  assumes D: "ta_decompress app raw = Some (content_bytes (Rows rows) @ concat (map encode_chunk chunks))"
    and ok: "content_ok n (Rows rows)" "\<forall>ops \<in> set chunks. \<forall>oper \<in> set ops. op_ok oper"
    and n: "n = nat (ta_tileSize app)" "n \<le> 256" and get: "get_tile k m = Some t"
  shows "decompress_here app k raw True m = Inr (m\<lparr>tm_tileImageCache := (tm_tileImageCache m)
    (tile_toString (ti_coords t) \<mapsto> Some (fold (apply_ops n) chunks (concat (concat rows))))\<rparr>)"
proof -
  let ?data = "rle_encode rows @ concat (map encode_chunk chunks)"
  have "unrle ?data n n (replicate (n * n * 4) 0) 0 = Inr (Some (length (rle_encode rows)), concat (concat rows))"
    using ok(1) n(2) unrle_loop_correct [of rows n ?data "[]" "concat (map encode_chunk chunks)" 0 0 "replicate (n * n * 4) 0"]
    by (simp add: unrle_def)
  moreover have "updateImageFromDeltas (concat (concat rows)) ?data (length (rle_encode rows)) n =
      fold (apply_ops n) chunks (concat (concat rows))"
    unfolding updateImageFromDeltas_def by (rule deltas_loop_chunks [OF ok(2)])
  ultimately show ?thesis
    using D get by (simp add: decompress_here_def applyDelta_def Let_def n(1) [symmetric])
qed

lemma decompress_here_deltas:
  assumes D: "ta_decompress app raw = Some (concat (map encode_chunk chunks))"
    and ok: "\<forall>ops \<in> set chunks. \<forall>oper \<in> set ops. op_ok oper"
    and n: "n = nat (ta_tileSize app)" and get: "get_tile k m = Some t"
    and cache: "tm_tileImageCache m (tile_toString (ti_coords t)) = Some (Some img)"
  shows "decompress_here app k raw False m = Inr (m\<lparr>tm_tileImageCache := (tm_tileImageCache m)
    (tile_toString (ti_coords t) \<mapsto> Some (fold (apply_ops n) chunks img))\<rparr>)"
  using deltas_loop_chunks [OF ok, of img "[]" n] D get cache n
  by (simp add: decompress_here_def applyDelta_def Let_def updateImageFromDeltas_def)

subsection \<open>The content that a tile has queued\<close>

text \<open>The content of the deltas that have been decompressed or queued before.\<close>

definition drawn :: "tile \<Rightarrow> delta_content list \<Rightarrow> delta_content list" where
  "drawn t cs = map snd (filter (\<lambda>(d, c). rd_id d \<le> ti_lastPendingId t) (zip (ti_rawDeltas t) cs))"

lemma no_keyframe_after_first:
  assumes ok: "deltas_ok t" and need: "needsRehydration t" and j: "first_delta t < j" "j < length (ti_rawDeltas t)"
  shows "\<not> rd_isKeyframe (ti_rawDeltas t ! j)"
proof -
  let ?ds = "ti_rawDeltas t"
  define kf where "kf = last_keyframe ?ds (length ?ds - 1)"
  have ne: "?ds \<noteq> []" using j(2) by auto
  have "kf < length ?ds" using last_keyframe_length [OF ne] by (simp add: kf_def)
  moreover have "rd_id (?ds ! kf) \<le> rd_id (?ds ! first_delta t)"
    unfolding first_delta_ok(2) [OF ok need] by (simp add: resume_id_def kf_def Let_def)
  ultimately have "kf \<le> first_delta t" using first_delta_ok(1) [OF ok need] deltas_ok_id [OF ok] by simp
  then show ?thesis using last_keyframe_after [of ?ds "length ?ds - 1" j] j by (simp add: kf_def)
qed

lemma drawn_is_take:
  assumes ok: "deltas_ok t" and need: "needsRehydration t" and cs: "list_all2 (carries app) (ti_rawDeltas t) cs"
    and cont: "\<not> rd_isKeyframe (ti_rawDeltas t ! first_delta t)"
  shows "drawn t cs = take (first_delta t) cs"
proof -
  let ?ds = "ti_rawDeltas t" and ?i = "first_delta t" and ?P = "\<lambda>(d, c). rd_id d \<le> ti_lastPendingId t"
  note first = first_delta_ok [OF ok need]
  have len: "length cs = length ?ds" using cs by (simp add: list_all2_lengthD)
  have ne: "?ds \<noteq> []" using first(1) by auto
  have "?i \<noteq> last_keyframe ?ds (length ?ds - 1)"
    using cont last_keyframe_keyframe [OF ne] ok ne by (auto simp: deltas_ok_def)
  then have pend: "resume_id t = ti_lastPendingId t + 1"
    by (auto simp: resume_id_def first_delta_def Let_def split: if_splits)
  have id: "rd_id (?ds ! j) \<le> ti_lastPendingId t \<longleftrightarrow> j < ?i" if "j < length ?ds" for j
    using first(2) deltas_ok_id [OF ok that] deltas_ok_id [OF ok first(1)] pend by linarith
  have "filter ?P (take ?i (zip ?ds cs)) = take ?i (zip ?ds cs)"
    using id first(1) by (auto simp: filter_id_conv in_set_conv_nth)
  moreover have "filter ?P (drop ?i (zip ?ds cs)) = []"
    using id len by (auto simp: filter_empty_conv in_set_conv_nth)
  ultimately have "filter ?P (zip ?ds cs) = take ?i (zip ?ds cs)"
    by (metis append_Nil2 append_take_drop_id filter_append)
  then show ?thesis by (simp add: drawn_def take_map [symmetric] len)
qed

lemma hydration_content:
  assumes ok: "deltas_ok t" and need: "needsRehydration t" and cs: "list_all2 (carries app) (ti_rawDeltas t) cs"
    and zstd: "zstd_frames (ta_decompress app)" and n: "n = nat (ta_tileSize app)"
  obtains (key) rows chunks where "pd_isKeyframe (hydration t w)"
      and "ta_decompress app (pd_rawDelta (hydration t w)) = Some (content_bytes (Rows rows) @ concat (map encode_chunk chunks))"
      and "content_ok n (Rows rows)" and "\<forall>ops \<in> set chunks. \<forall>oper \<in> set ops. op_ok oper"
      and "fold (draw n) cs [] = fold (apply_ops n) chunks (concat (concat rows))"
  | (cont) chunks where "\<not> pd_isKeyframe (hydration t w)"
      and "ta_decompress app (pd_rawDelta (hydration t w)) = Some (concat (map encode_chunk chunks))"
      and "\<forall>ops \<in> set chunks. \<forall>oper \<in> set ops. op_ok oper"
      and "fold (draw n) cs [] = fold (apply_ops n) chunks (fold (draw n) (drawn t cs) [])"
proof -
  let ?ds = "ti_rawDeltas t" and ?i = "first_delta t"
  note first = first_delta_ok [OF ok need]
  have len: "length cs = length ?ds" using cs by (simp add: list_all2_lengthD)
  have raw: "pd_rawDelta (hydration t w) = concat (map rd_delta (drop ?i ?ds))"
    using drop_is_filter [OF ok first(1)] by (simp add: hydration_def first(2))
  have kf: "pd_isKeyframe (hydration t w) = rd_isKeyframe (?ds ! ?i)"
    by (simp add: hydration_def first_is_keyframe [OF ok need])
  have at: "carries app (?ds ! j) (cs ! j)" if "j < length ?ds" for j
    using cs that by (simp add: list_all2_conv_all_nth)
  have "list_all2 (carries app) (drop ?i ?ds) (drop ?i cs)" using cs by (rule list_all2_dropI)
  from decompress_concat [OF zstd this] first(1)
  have D: "ta_decompress app (pd_rawDelta (hydration t w)) = Some (concat (map content_bytes (drop ?i cs)))"
    by (simp add: raw)
  have cs_i: "drop ?i cs = cs ! ?i # drop (Suc ?i) cs" using first(1) len by (simp add: Cons_nth_drop_Suc)
  have "\<forall>c \<in> set (drop (Suc ?i) cs). \<not> is_image c"
    using at no_keyframe_after_first [OF ok need] len by (auto simp: in_set_conv_nth carries_def)
  then obtain chunks where chunks: "drop (Suc ?i) cs = map Ops chunks" using ops_only by blast
  have "\<forall>c \<in> set (drop ?i cs). content_ok n c"
    using at len by (auto simp: in_set_conv_nth carries_def n)
  then have okc: "content_ok n (cs ! ?i)" "\<forall>ops \<in> set chunks. \<forall>oper \<in> set ops. op_ok oper"
    by (auto simp: cs_i chunks)
  have split: "fold (draw n) cs [] = fold (draw n) (drop ?i cs) (fold (draw n) (take ?i cs) [])"
    by (metis append_take_drop_id comp_apply fold_append)
  show ?thesis
  proof (cases "cs ! ?i")
    case (Rows rows)
    then have "pd_isKeyframe (hydration t w)" using at [OF first(1)] by (simp add: kf carries_def)
    then show ?thesis
      using key [of rows chunks] D okc split by (simp add: cs_i chunks Rows bytes_ops [simplified] draw_ops)
  next
    case (Ops ops)
    then have not_kf: "\<not> rd_isKeyframe (?ds ! ?i)" using at [OF first(1)] by (simp add: carries_def)
    then show ?thesis
      using cont [of "ops # chunks"] D okc split drawn_is_take [OF ok need cs not_kf] kf
      by (simp add: cs_i chunks Ops bytes_ops [simplified] draw_ops)
  qed
qed

subsection \<open>The transaction\<close>

lemma worker_delta_draws:
  assumes get: "get_tile k m = Some t"
    and known: "pd_wireMessage x \<Longrightarrow> \<not> pd_isKeyframe x \<Longrightarrow> known_deltas t (pd_ids x)"
    and start: "pd_isKeyframe x \<or> ti_decompressedId t \<noteq> 0"
    and dec: "\<And>m' t'. get_tile k m' = Some t' \<Longrightarrow> ti_coords t' = ti_coords t \<Longrightarrow> tm_tileImageCache m' = tm_tileImageCache m \<Longrightarrow>
      decompress_here app k (pd_rawDelta x) (pd_isKeyframe x) m' =
        Inr (m'\<lparr>tm_tileImageCache := (tm_tileImageCache m')(tile_toString (ti_coords t) \<mapsto> Some img)\<rparr>)"
  obtains m' t' where "worker_delta app ((k, x), None) (m, []) = Inr (m', [(k, img)])"
    and "tm_tileImageCache m' = (tm_tileImageCache m)(tile_toString (ti_coords t) \<mapsto> Some img)"
    and "tm_effects m' = tm_effects m" and "get_tile k m' = Some t'"
    and "ti_decompressedId t' = snd (pd_ids x)" and "ti_lastPendingId t' = ti_lastPendingId t"
proof -
  let ?m1 = "upd_tile k (\<lambda>t. t\<lparr>ti_decompressedId := snd (pd_ids x)\<rparr>) m"
  define m2 where "m2 = (if pd_wireMessage x then upd_tile k (count_message (pd_isKeyframe x)) ?m1 else ?m1)"
  define t2 where "t2 = (if pd_wireMessage x then count_message (pd_isKeyframe x) (t\<lparr>ti_decompressedId := snd (pd_ids x)\<rparr>)
    else t\<lparr>ti_decompressedId := snd (pd_ids x)\<rparr>)"
  have m2: "get_tile k m2 = Some t2" "tm_tileImageCache m2 = tm_tileImageCache m" "tm_effects m2 = tm_effects m"
    using get by (simp_all add: m2_def t2_def upd_tile_def get_tile_def AList.map_of_map_entry)
  have t2: "ti_coords t2 = ti_coords t" "ti_decompressedId t2 = snd (pd_ids x)" "ti_lastPendingId t2 = ti_lastPendingId t"
    by (simp_all add: t2_def count_message_def)
  let ?m3 = "m2\<lparr>tm_tileImageCache := (tm_tileImageCache m2)(tile_toString (ti_coords t) \<mapsto> Some img)\<rparr>"
  have "worker_delta app ((k, x), None) (m, []) = worker_bitmap app k x None t m2 []"
    using known by (auto simp: worker_delta_def get Let_def m2_def)
  also have "\<dots> = Inr (?m3, [(k, img)])"
    using start dec [OF m2(1) t2(1) m2(2)] by (auto simp: worker_bitmap_def sum_bind_def createTileBitmap_def)
  finally show ?thesis using m2 t2 by (intro that [of ?m3 t2]) (simp_all add: get_tile_def)
qed

lemma sync_transaction:
  assumes "ta_workers app = 0" and "tm_inTransaction m = 1" and "tm_pendingDeltas m = [x]" and "pd_key x = Coords c"
    and "k = tile_key c"
    and step: "\<And>m1. m1 = m\<lparr>tm_inTransaction := 0, tm_pendingDeltas := [x\<lparr>pd_key := Key k\<rparr>]\<rparr> \<Longrightarrow>
      \<exists>m2 t'. worker_delta app ((k, x\<lparr>pd_key := Key k\<rparr>), None) (m1, []) = Inr (m2, [(k, img)]) \<and>
        Q m2 t' \<and> get_tile k m2 = Some t'"
  shows "\<exists>m2 t'. endTransaction app None m = (effect (CreateBitmaps [(k, img)]) m2)\<lparr>tm_pendingDeltas := []\<rparr> \<and>
    Q m2 t' \<and> get_tile k m2 = Some t'"
proof -
  define m1 where "m1 = m\<lparr>tm_inTransaction := 0, tm_pendingDeltas := [x\<lparr>pd_key := Key k\<rparr>]\<rparr>"
  obtain m2 t' where w: "worker_delta app ((k, x\<lparr>pd_key := Key k\<rparr>), None) (m1, []) = Inr (m2, [(k, img)])"
    "Q m2 t'" "get_tile k m2 = Some t'" using step [OF m1_def] by blast
  have "decompressPendingDeltas app (m\<lparr>tm_inTransaction := 0\<rparr>) =
      Inr ((effect (CreateBitmaps [(k, img)]) m2)\<lparr>tm_pendingDeltas := []\<rparr>)"
    using assms(1-5) w(1) by (simp add: decompressPendingDeltas_def onWorkerEndTransaction_def Let_def sum_bind_def m1_def)
  then have "endTransaction app None m = (effect (CreateBitmaps [(k, img)]) m2)\<lparr>tm_pendingDeltas := []\<rparr>"
    using assms(2,3) by (simp add: endTransaction_def Let_def)
  with w(2,3) show ?thesis by blast
qed

lemma hydration_known:
  assumes ok: "deltas_ok t" and need: "needsRehydration t"
  shows "known_deltas t (pd_ids (hydration t w))"
proof -
  let ?ds = "ti_rawDeltas t" and ?find = "\<lambda>i. js_findIndex (\<lambda>d. rd_id d = i) (ti_rawDeltas t)"
  have found: "?find (rd_id (?ds ! j)) = int j" if "j < length ?ds" for j
  proof -
    have "?find (rd_id (?ds ! j)) \<noteq> -1" unfolding js_findIndex_none using nth_mem [OF that] by blast
    from js_findIndex_found [OF refl this] show ?thesis
      using deltas_ok_id [OF ok] that by (auto simp: nat_less_iff)
  qed
  note first = first_delta_ok [OF ok need]
  have ne: "?ds \<noteq> []" using first(1) by auto
  have last: "?find (ti_deltaId t) = int (length ?ds - 1)"
    using found [of "length ?ds - 1"] deltas_ok_last [OF ok ne] ne by (simp add: last_conv_nth)
  have "?find (resume_id t) = int (first_delta t)" using found [OF first(1)] by (simp add: first(2))
  with last first(1) show ?thesis using ne by (simp add: known_deltas_def hydration_def)
qed

text \<open>Decompressing the delta of a rehydration draws the content of the tile into its image.\<close>

lemma hydration_decompressed:
  assumes "deltas_ok t" and "needsRehydration t" and "zstd_frames (ta_decompress app)" and "list_all2 (carries app) (ti_rawDeltas t) cs"
    and "n = nat (ta_tileSize app)" and "n \<le> 256"
    and "\<not> pd_isKeyframe (hydration t w) \<Longrightarrow> tm_tileImageCache m (tile_toString (ti_coords t)) = Some (Some (fold (draw n) (drawn t cs) []))"
    and "get_tile k m = Some t'" and "ti_coords t' = ti_coords t"
  shows "decompress_here app k (pd_rawDelta (hydration t w)) (pd_isKeyframe (hydration t w)) m =
    Inr (m\<lparr>tm_tileImageCache := (tm_tileImageCache m)(tile_toString (ti_coords t) \<mapsto> Some (fold (draw n) cs []))\<rparr>)"
proof (rule hydration_content [OF assms(1,2,4,3,5), of w], goal_cases)
  case (1 rows chunks)
  then show ?case using decompress_here_keyframe [OF 1(2-4) assms(5,6,8)] assms(9) by simp
next
  case (2 chunks)
  then show ?case using decompress_here_deltas [OF 2(2,3) assms(5,8)] assms(7,9) by simp
qed

text \<open>
  C1. What the client shows is what the server drew: when a tile has received a keyframe and any
  deltas after it, possibly with newer keyframes among them, and part of them may have been
  decompressed already, then rehydrating it and ending the transaction creates the bitmap of the
  last keyframe with all later drawing operations applied in order, and caches it. The zstd library
  is assumed to decompress frames one after the other.
\<close>

theorem tile_shows_server_content:
  assumes "tiles_ok m" and "get_tile k m = Some t" and "needsRehydration t"
    and "ta_workers app = 0" and "tm_inTransaction m = 1" and "tm_pendingDeltas m = []"
    and "zstd_frames (ta_decompress app)" and "list_all2 (carries app) (ti_rawDeltas t) cs"
    and "n = nat (ta_tileSize app)" and "n \<le> 256"
    and "\<not> pd_isKeyframe (hydration t w) \<Longrightarrow> ti_decompressedId t \<noteq> 0 \<and>
      tm_tileImageCache m (tile_toString (ti_coords t)) = Some (Some (fold (draw n) (drawn t cs) []))"
    and "img = fold (draw n) cs []"
  shows "\<exists>m1 m2 t2. rehydrateTile k w m = Inr m1 \<and> endTransaction app None m1 = m2 \<and>
    tm_effects m2 = tm_effects m1 @ [CreateBitmaps [(k, img)]] \<and>
    tm_tileImageCache m2 (tile_toString (ti_coords t)) = Some (Some img) \<and>
    get_tile k m2 = Some t2 \<and> isReady t2 \<and> ti_decompressedId t2 = ti_deltaId t"
proof -
  have ok: "deltas_ok t" and key: "k = tile_key (ti_coords t)" using assms(1,2) by (auto simp: tiles_ok_iff)
  obtain m1 where m1: "rehydrateTile k w m = Inr m1" and pending: "tm_pendingDeltas m1 = [hydration t w]"
    and get: "get_tile k m1 = Some (t\<lparr>ti_lastPendingId := ti_deltaId t\<rparr>)"
    and same: "tm_inTransaction m1 = 1" "tm_tileImageCache m1 = tm_tileImageCache m"
    using rehydrateTile_posts [OF ok assms(2,3), of w] assms(2,5,6)
    by (simp add: upd_tile_def get_tile_def AList.map_of_map_entry effect_def)
  let ?t = "t\<lparr>ti_lastPendingId := ti_deltaId t\<rparr>" and ?x = "(hydration t w)\<lparr>pd_key := Key k\<rparr>"
  let ?str = "tile_toString (ti_coords t)"
  have dec: "decompress_here app k (pd_rawDelta ?x) (pd_isKeyframe ?x) m' =
      Inr (m'\<lparr>tm_tileImageCache := (tm_tileImageCache m')(?str \<mapsto> Some img)\<rparr>)"
    if "get_tile k m' = Some t'" "ti_coords t' = ti_coords t" "tm_tileImageCache m' = tm_tileImageCache m" for m' t'
    using hydration_decompressed [OF ok assms(3,7-10) _ that(1,2), of w] assms(11,12) that(3) by simp
  have step: "\<exists>m2 t'. worker_delta app ((k, ?x), None) (m', []) = Inr (m2, [(k, img)]) \<and>
      (tm_tileImageCache m2 ?str = Some (Some img) \<and> tm_effects m2 = tm_effects m1 \<and>
       ti_decompressedId t' = ti_deltaId t \<and> isReady t') \<and> get_tile k m2 = Some t'"
    if "m' = m1\<lparr>tm_inTransaction := 0, tm_pendingDeltas := [?x]\<rparr>" for m'
  proof -
    have 1: "get_tile k m' = Some ?t" "tm_tileImageCache m' = tm_tileImageCache m" "tm_effects m' = tm_effects m1"
      using get same(2) by (simp_all add: that get_tile_def)
    have "known_deltas ?t (pd_ids ?x)" using hydration_known [OF ok assms(3), of w] by (simp add: known_deltas_def)
    moreover have "pd_isKeyframe ?x \<or> ti_decompressedId ?t \<noteq> 0"
      using assms(11) by (cases "pd_isKeyframe (hydration t w)") auto
    moreover have "decompress_here app k (pd_rawDelta ?x) (pd_isKeyframe ?x) m'' =
        Inr (m''\<lparr>tm_tileImageCache := (tm_tileImageCache m'')(tile_toString (ti_coords ?t) \<mapsto> Some img)\<rparr>)"
      if "get_tile k m'' = Some t''" "ti_coords t'' = ti_coords ?t" "tm_tileImageCache m'' = tm_tileImageCache m'" for m'' t''
      using dec [OF that(1)] that(2,3) 1(2) by simp
    ultimately obtain m2 t' where w: "worker_delta app ((k, ?x), None) (m', []) = Inr (m2, [(k, img)])"
      "tm_tileImageCache m2 = (tm_tileImageCache m')(tile_toString (ti_coords ?t) \<mapsto> Some img)"
      "tm_effects m2 = tm_effects m'" "get_tile k m2 = Some t'"
      "ti_decompressedId t' = snd (pd_ids ?x)" "ti_lastPendingId t' = ti_lastPendingId ?t"
      by (rule worker_delta_draws [OF 1(1)])
    have "snd (pd_ids ?x) = ti_deltaId t" by (simp add: hydration_def)
    then have "tm_tileImageCache m2 ?str = Some (Some img) \<and> tm_effects m2 = tm_effects m1 \<and>
       ti_decompressedId t' = ti_deltaId t \<and> isReady t'" using w(2,3,5,6) 1(3) by (simp add: isReady_def)
    with w(1,4) show ?thesis by blast
  qed
  have "pd_key (hydration t w) = Coords (ti_coords t)" by (simp add: hydration_def)
  from sync_transaction [where Q = "\<lambda>m2 t'. tm_tileImageCache m2 ?str = Some (Some img) \<and> tm_effects m2 = tm_effects m1 \<and>
       ti_decompressedId t' = ti_deltaId t \<and> isReady t'", OF assms(4) same(1) pending this key step]
  obtain m2 t' where "endTransaction app None m1 = (effect (CreateBitmaps [(k, img)]) m2)\<lparr>tm_pendingDeltas := []\<rparr>"
    "tm_tileImageCache m2 ?str = Some (Some img)" "tm_effects m2 = tm_effects m1"
    "ti_decompressedId t' = ti_deltaId t" "isReady t'" "get_tile k m2 = Some t'"
    by blast
  with m1 show ?thesis by (simp add: effect_def get_tile_def)
qed


text \<open>A tile of one pixel: a keyframe and an operation that replaces the pixel.\<close>

definition pixel_app :: tile_app where
  "pixel_app = sample_app\<lparr>ta_tileSize := 1\<rparr>"

definition pixel_contents :: "delta_content list" where
  "pixel_contents = [Rows [[[1, 2, 3, 4]]], Ops [NewRun 0 0 [[5, 6, 7, 8]]]]"

definition pixel_tile :: tile where
  "pixel_tile = (new_Tile (TileCoordData pixel_app 0 0 None None None))\<lparr>ti_deltaId := 2, ti_rawDeltas :=
     [\<lparr>rd_delta = content_bytes (pixel_contents ! 0), rd_id = 1, rd_isKeyframe = True\<rparr>,
      \<lparr>rd_delta = content_bytes (pixel_contents ! 1), rd_id = 2, rd_isKeyframe = False\<rparr>]\<rparr>"

definition pixel_manager :: tile_manager where
  "pixel_manager = initial_manager\<lparr>tm_inTransaction := 1, tm_tiles := [(''0:0:10:0:0'', pixel_tile)]\<rparr>"

theorem tile_shows_server_content_witness:
  "\<exists>m1. rehydrateTile ''0:0:10:0:0'' False pixel_manager = Inr m1 \<and>
     tm_tileImageCache (endTransaction pixel_app None m1) (tile_toString (ti_coords pixel_tile)) = Some (Some [5, 6, 7, 8])"
proof -
  have "tiles_ok pixel_manager" "get_tile ''0:0:10:0:0'' pixel_manager = Some pixel_tile" "needsRehydration pixel_tile"
    by code_simp+
  moreover have "ta_workers pixel_app = 0" "tm_inTransaction pixel_manager = 1" "tm_pendingDeltas pixel_manager = []"
    by code_simp+
  moreover have "zstd_frames (ta_decompress pixel_app)"
    by (simp add: zstd_frames_def pixel_app_def sample_app_def)
  moreover have "list_all2 (carries pixel_app) (ti_rawDeltas pixel_tile) pixel_contents"
    by (simp add: carries_def pixel_tile_def pixel_contents_def pixel_app_def sample_app_def row_ok_def)
  moreover have "1 = nat (ta_tileSize pixel_app)" "(1 :: nat) \<le> 256" by (simp_all add: pixel_app_def)
  moreover have "pd_isKeyframe (hydration pixel_tile False)" by code_simp
  moreover have "[5, 6, 7, 8] = fold (draw 1) pixel_contents []"
    by (simp add: pixel_contents_def apply_ops_def apply_op_def upt_rec Let_def)
  ultimately show ?thesis using tile_shows_server_content [of pixel_manager _ pixel_tile pixel_app pixel_contents 1 False] by blast
qed

end
