(* ===== verification/Tile_Queues.thy ===== *)
theory Tile_Queues
  imports Tile_Steps
begin

section \<open>The queues of requests\<close>

text \<open>
  What is requested from the server: no coordinates are lost or requested twice on the way from a
  queue to the messages, a message is about one part and mode, the exchange sort of the file based
  view sorts, and prefetching keeps its limits.
\<close>

subsection \<open>The order of the file based queue\<close>

definition reading_key :: "tile_coords \<Rightarrow> int \<times> int \<times> int" where
  "reading_key c = (tc_part c, tc_y c, tc_x c)"

lemma switchTiles_iff: "switchTiles a b \<longleftrightarrow> reading_key b < reading_key a"
  by (auto simp: switchTiles_def reading_key_def)

lemma exchange_loop_min:
  "exchange_loop a bs = (a', bs') \<Longrightarrow> add_mset a' (mset bs') = add_mset a (mset bs) \<and>
     reading_key a' \<le> reading_key a \<and> (\<forall>x \<in> set bs'. reading_key a' \<le> reading_key x)"
proof (induction a bs arbitrary: a' bs' rule: exchange_loop.induct)
  case (2 a b bs)
  show ?case
  proof (cases "switchTiles a b")
    case True
    obtain a1 bs1 where e: "exchange_loop b bs = (a1, bs1)" by fastforce
    with True 2(3) have "a' = a1" "bs' = a # bs1" by auto
    with 2(1) [OF True e] True show ?thesis by (auto simp: switchTiles_iff)
  next
    case False
    obtain a1 bs1 where e: "exchange_loop a bs = (a1, bs1)" by fastforce
    with False 2(3) have "a' = a1" "bs' = b # bs1" by auto
    with 2(2) [OF False e] False show ?thesis by (auto simp: switchTiles_iff)
  qed
qed auto

lemma sortFileBasedQueue_sorts:
  "mset (sortFileBasedQueue q) = mset q \<and> sorted (map reading_key (sortFileBasedQueue q))"
proof (induction q rule: sortFileBasedQueue.induct)
  case (2 a rest)
  obtain a' rest' where e: "exchange_loop a rest = (a', rest')" by fastforce
  from 2 [OF e [symmetric] refl] have IH: "mset (sortFileBasedQueue rest') = mset rest'"
    "sorted (map reading_key (sortFileBasedQueue rest'))" by auto
  from IH(1) have "set (sortFileBasedQueue rest') = set rest'" by (rule mset_eq_setD)
  with IH exchange_loop_min [OF e] show ?case by (simp add: e)
qed simp

text \<open>
  The two nested loops of \<open>sortFileBasedQueue\<close> compute the sorted order by part, row and column
  of the same coordinates.
\<close>

theorem file_based_queue_sorted:
  "map reading_key (sortFileBasedQueue q) = sort (map reading_key q) \<and> mset (sortFileBasedQueue q) = mset q"
  using sortFileBasedQueue_sorts [of q] by (auto intro!: properties_for_sort [symmetric])

subsection \<open>Buckets\<close>

definition bucket_ok :: "int \<times> tile_coords list \<Rightarrow> bool" where
  "bucket_ok b \<longleftrightarrow> snd b \<noteq> [] \<and> (\<forall>c \<in> set (snd b). pm_key c = fst b)"

lemma add_to_bucket_ok: "list_all bucket_ok bs \<Longrightarrow> list_all bucket_ok (add_to_bucket c bs)"
  by (induction c bs rule: add_to_bucket.induct) (auto simp: bucket_ok_def)

lemma add_to_bucket_mset: "mset (concat (map snd (add_to_bucket c bs))) = add_mset c (mset (concat (map snd bs)))"
  by (induction c bs rule: add_to_bucket.induct) auto

lemma partMode_ok:
  "list_all bucket_ok (partMode q)" "mset (concat (map snd (partMode q))) = mset q"
proof -
  have *: "list_all bucket_ok (fold add_to_bucket q bs) \<and>
      mset (concat (map snd (fold add_to_bucket q bs))) = mset q + mset (concat (map snd bs))"
    if "list_all bucket_ok bs" for bs
    using that by (induction q arbitrary: bs) (auto simp: add_to_bucket_ok add_to_bucket_mset)
  let ?bs = "fold add_to_bucket q []"
  have perm: "mset (partMode q) = mset ?bs"
    by (simp add: partMode_def Let_def not_le [symmetric] flip: multiset_partition)
  then have "set (partMode q) = set ?bs" by (rule mset_eq_setD)
  with * [of "[]"] show "list_all bucket_ok (partMode q)" by (simp add: list_all_iff)
  have concat: "mset (concat (map snd bs)) = sum_mset (image_mset (mset \<circ> snd) (mset bs))"
    for bs :: "(int \<times> tile_coords list) list" by (induction bs) auto
  have "mset (concat (map snd (partMode q))) = mset (concat (map snd ?bs))" by (simp only: concat perm)
  then show "mset (concat (map snd (partMode q))) = mset q" using * [of "[]"] by simp
qed

lemma pm_key_inject:
  assumes "0 \<le> tc_part c" "tc_part c < 2 ^ 23" "0 \<le> tc_mode c" "tc_mode c < 256"
    "0 \<le> tc_part c'" "tc_part c' < 2 ^ 23" "0 \<le> tc_mode c'" "tc_mode c' < 256" "pm_key c = pm_key c'"
  shows "tc_part c = tc_part c' \<and> tc_mode c = tc_mode c'"
proof -
  have "pm_key x = tc_part x * 256 + tc_mode x" if "0 \<le> tc_part x" "tc_part x < 2 ^ 23" for x
    using that by (simp add: pm_key_def)
  with assms have eq: "tc_mode c + tc_part c * 256 = tc_mode c' + tc_part c' * 256" by simp
  have split: "(b + a * 256) div 256 = a \<and> (b + a * 256) mod 256 = b" if "0 \<le> b" "b < 256" for a b :: int
    using that by simp
  show ?thesis using split [OF assms(3,4), of "tc_part c"] split [OF assms(7,8), of "tc_part c'"] eq by simp
qed

text \<open>
  A request is split into buckets without losing or repeating coordinates, and all coordinates of
  a bucket have the part and mode that its message names, for parts below \<open>2 ^ 23\<close> and modes
  below 256.
\<close>

theorem requests_by_part_and_mode:
  assumes "\<forall>c \<in> set q. 0 \<le> tc_part c \<and> tc_part c < 2 ^ 23 \<and> 0 \<le> tc_mode c \<and> tc_mode c < 256"
  shows "mset (concat (map snd (partMode q))) = mset q \<and>
    (\<forall>b \<in> set (partMode q). snd b \<noteq> [] \<and>
      (\<forall>c \<in> set (snd b). tc_part c = tc_part (hd (snd b)) \<and> tc_mode c = tc_mode (hd (snd b))))"
proof (intro conjI ballI)
  show perm: "mset (concat (map snd (partMode q))) = mset q" by (rule partMode_ok)
  fix b assume b: "b \<in> set (partMode q)"
  with partMode_ok(1) have ok: "bucket_ok b" by (auto simp: list_all_iff)
  then show "snd b \<noteq> []" by (simp add: bucket_ok_def)
  fix c assume c: "c \<in> set (snd b)"
  have sub: "set (snd b) \<subseteq> set q" using mset_eq_setD [OF perm] b by auto
  have "hd (snd b) \<in> set (snd b)" using c by (cases "snd b") auto
  with ok c have "pm_key c = pm_key (hd (snd b))" by (simp add: bucket_ok_def)
  with assms sub c \<open>hd (snd b) \<in> set (snd b)\<close>
  have "tc_part c = tc_part (hd (snd b)) \<and> tc_mode c = tc_mode (hd (snd b))" by (intro pm_key_inject) auto
  then show "tc_part c = tc_part (hd (snd b))" "tc_mode c = tc_mode (hd (snd b))" by auto
qed

theorem requests_by_part_and_mode_witness:
  "\<exists>q. q = [TileCoordData sample_app 0 0 None (Some 1) None, TileCoordData sample_app 0 256 None None None] \<and>
     mset (concat (map snd (partMode q))) = mset q \<and> length (partMode q) = 2"
proof -
  let ?q = "[TileCoordData sample_app 0 0 None (Some 1) None, TileCoordData sample_app 0 256 None None None]"
  have "\<forall>c \<in> set ?q. 0 \<le> tc_part c \<and> tc_part c < 2 ^ 23 \<and> 0 \<le> tc_mode c \<and> tc_mode c < 256"
    by (simp add: TileCoordData_def sample_app_def)
  moreover have "length (partMode ?q) = 2" by code_simp
  ultimately show ?thesis using requests_by_part_and_mode by blast
qed

subsection \<open>Each tile once\<close>

definition too_fast :: "int \<Rightarrow> tile_manager \<Rightarrow> string \<Rightarrow> bool" where
  "too_fast now m k = (case get_tile k m of None \<Rightarrow> False | Some t \<Rightarrow> requestingTooFast now t)"

definition added_keys :: "(tile_coords \<times> int) list \<Rightarrow> string list" where
  "added_keys added = map (tile_key \<circ> fst) added"

definition wire_id :: "tile_manager \<Rightarrow> string \<Rightarrow> int" where
  "wire_id m k = (case get_tile k m of None \<Rightarrow> 0 | Some t \<Rightarrow> ti_wireId t)"

lemma too_fast_update:
  "too_fast now m k' \<Longrightarrow> too_fast now (upd_tile k (updateLastRequest (Some now)) m) k'"
  "k' \<noteq> k \<Longrightarrow> too_fast now (upd_tile k (updateLastRequest (Some now')) m) k' = too_fast now m k'"
  by (auto simp: too_fast_def updateLastRequest_def requestingTooFast_def split: option.splits)

lemma wire_id_update [simp]: "wire_id (upd_tile k (updateLastRequest r) m) k' = wire_id m k'"
  by (simp add: wire_id_def updateLastRequest_def split: option.split)

lemma request_step:
  "request_tiles now (c # cs) added m =
     (if too_fast now m (tile_key c) \<or> tile_key c \<in> set (added_keys added) then request_tiles now cs added m
      else request_tiles now cs (added @ [(c, wire_id m (tile_key c))])
             (upd_tile (tile_key c) (updateLastRequest (Some now)) m))"
  by (simp add: too_fast_def added_keys_def wire_id_def Let_def)

lemma added_keys_snoc [simp]: "added_keys (added @ [(c, w)]) = added_keys added @ [tile_key c]"
  by (simp add: added_keys_def)

lemma request_tiles_keys:
  "distinct (added_keys added) \<Longrightarrow> distinct (added_keys (fst (request_tiles now cs added m))) \<and>
   set (added_keys (fst (request_tiles now cs added m))) =
     set (added_keys added) \<union> {k \<in> tile_key ` set cs. \<not> too_fast now m k}"
proof (induction cs arbitrary: added m)
  case (Cons c cs)
  let ?k = "tile_key c" and ?m = "upd_tile (tile_key c) (updateLastRequest (Some now)) m"
  show ?case
  proof (cases "too_fast now m ?k \<or> ?k \<in> set (added_keys added)")
    case True
    with Cons.IH [OF Cons.prems, of m] show ?thesis unfolding request_step by auto
  next
    case False
    then have "distinct (added_keys (added @ [(c, wire_id m ?k)]))" using Cons.prems by simp
    from Cons.IH [OF this, of ?m] False too_fast_update(2) [of _ ?k now now m] show ?thesis
      unfolding request_step by (auto dest: too_fast_update(1) [where k = ?k])
  qed
qed simp

lemma request_tiles_wids:
  "(c, w) \<in> set (fst (request_tiles now cs added m)) \<Longrightarrow> (c, w) \<in> set added \<or> c \<in> set cs \<and> w = wire_id m (tile_key c)"
proof (induction cs arbitrary: added m)
  case (Cons c' cs)
  from Cons.prems show ?case unfolding request_step by (auto split: if_splits dest!: Cons.IH)
qed simp

lemma request_tiles_time:
  "k \<in> set (added_keys (fst (request_tiles now cs added m))) \<Longrightarrow> k \<notin> set (added_keys added) \<Longrightarrow>
   get_tile k m = Some t \<Longrightarrow>
   \<exists>t'. get_tile k (snd (request_tiles now cs added m)) = Some t' \<and> ti_lastRequestTime t' = Some now"
proof (induction cs arbitrary: added m t)
  case (Cons c cs)
  let ?k = "tile_key c" and ?m = "upd_tile (tile_key c) (updateLastRequest (Some now)) m"
  let ?added = "added @ [(c, wire_id m (tile_key c))]"
  show ?case
  proof (cases "too_fast now m ?k \<or> ?k \<in> set (added_keys added)")
    case True
    then show ?thesis using Cons.IH [OF _ Cons.prems(2,3)] Cons.prems(1) unfolding request_step by simp
  next
    case False
    have keep: "\<exists>t'. get_tile k (snd (request_tiles now cs added' m')) = Some t' \<and> ti_lastRequestTime t' = Some now"
      if "get_tile k m' = Some t1" "ti_lastRequestTime t1 = Some now" for cs added' m' t1
      using that
    proof (induction cs arbitrary: added' m' t1)
      case (Cons c cs)
      then show ?case unfolding request_step
        by (cases "k = tile_key c") (auto simp: updateLastRequest_def)
    qed simp
    show ?thesis
    proof (cases "k = ?k")
      case True
      then have "get_tile k ?m = Some (t\<lparr>ti_lastRequestTime := Some now\<rparr>)"
        using Cons.prems(3) by (simp add: updateLastRequest_def)
      from keep [OF this] False show ?thesis unfolding request_step by simp
    next
      case other: False
      then have "get_tile k ?m = Some t" using Cons.prems(3) by simp
      with Cons.IH [of ?added ?m t] Cons.prems(1,2) False other show ?thesis unfolding request_step by simp
    qed
  qed
qed simp

text \<open>
  The request for a queue names exactly the tiles of the queue that were not requested within
  the last five seconds, each once and with the wire id that the client has of it; when the same
  queue comes again within five seconds, none of the known tiles is requested.
\<close>

theorem each_tile_requested_once:
  assumes "request_tiles now q [] m = (added, m1)" and "now \<le> now'" and "now' < now + 5000"
  shows "distinct (added_keys added) \<and> set (added_keys added) = {k \<in> tile_key ` set q. \<not> too_fast now m k} \<and>
    (\<forall>(c, w) \<in> set added. c \<in> set q \<and> w = wire_id m (tile_key c)) \<and>
    (\<forall>k \<in> set (added_keys added). get_tile k m \<noteq> None \<longrightarrow> k \<notin> set (added_keys (fst (request_tiles now' q [] m1))))"
proof -
  have keys: "distinct (added_keys added)" "set (added_keys added) = {k \<in> tile_key ` set q. \<not> too_fast now m k}"
    using request_tiles_keys [of "[]" now q m] by (simp_all add: assms(1) added_keys_def)
  have wids: "\<forall>(c, w) \<in> set added. c \<in> set q \<and> w = wire_id m (tile_key c)"
    using request_tiles_wids [of _ _ now q "[]" m] by (auto simp: assms(1))
  have "k \<notin> set (added_keys (fst (request_tiles now' q [] m1)))"
    if k: "k \<in> set (added_keys added)" and "get_tile k m \<noteq> None" for k
  proof -
    from that(2) obtain t where "get_tile k m = Some t" by auto
    with request_tiles_time [of k now q "[]" m t] k assms(1)
    obtain t' where "get_tile k m1 = Some t'" "ti_lastRequestTime t' = Some now" by (auto simp: added_keys_def)
    with assms(3) have "too_fast now' m1 k" by (simp add: too_fast_def requestingTooFast_def)
    with request_tiles_keys [of "[]" now' q m1] show ?thesis by (simp add: added_keys_def)
  qed
  with keys wids show ?thesis by blast
qed

theorem each_tile_requested_once_witness:
  "\<exists>c added m1. c = TileCoordData sample_app 0 0 None None None \<and>
     request_tiles 100 [c, c] [] (createTile c initial_manager) = (added, m1) \<and> length added = 1 \<and>
     fst (request_tiles 200 [c, c] [] m1) = []"
proof -
  let ?c = "TileCoordData sample_app 0 0 None None None"
  let ?m = "createTile ?c initial_manager"
  obtain added m1 where r: "request_tiles 100 [?c, ?c] [] ?m = (added, m1)" by fastforce
  have k: "get_tile (tile_key ?c) ?m \<noteq> None" "\<not> too_fast 100 ?m (tile_key ?c)"
    by (simp_all add: initial_manager_def get_tile_def too_fast_def createTile_def new_Tile_def requestingTooFast_def Let_def)
  have le: "(100 :: int) \<le> 200" "(200 :: int) < 100 + 5000" by simp_all
  note once = each_tile_requested_once [OF r le]
  have set: "set (added_keys added) = {tile_key ?c}" using once k(2) by (auto simp only: list.set image_insert image_empty)
  moreover have "distinct (added_keys added)" using once by blast
  ultimately have one: "length (added_keys added) = 1" by (metis distinct_card card_1_singleton_iff One_nat_def)
  let ?again = "fst (request_tiles 200 [?c, ?c] [] m1)"
  have "tile_key ?c \<notin> set (added_keys ?again)" using once set k(1) by blast
  moreover have "set (added_keys ?again) \<subseteq> {tile_key ?c}"
    using request_tiles_keys [of "[]" 200 "[?c, ?c]" m1] by (auto simp: added_keys_def simp del: request_tiles.simps)
  ultimately have "set (added_keys ?again) = {}" by (metis singletonI subset_singletonD)
  then have "?again = []" unfolding set_empty added_keys_def map_is_Nil_conv .
  with r one show ?thesis unfolding added_keys_def length_map by blast
qed

subsection \<open>From a queue to the pending requests\<close>

lemma group_rects_mset: "mset (concat (group_rects ts q)) = mset q"
proof (induction ts q rule: group_rects.induct)
  case (2 ts c cs)
  obtain r rest where t: "take_rect ts (tc_x c) (tc_y c) False False [] [c] cs = (r, rest)" by fastforce
  from 2 [OF t [symmetric] refl] take_rect_mset [of ts "tc_x c" "tc_y c" False False "[]" "[c]" cs]
  show ?case by (simp add: t)
qed simp

lemma pending_requests:
  "tm_pendingTileCombineQueue (fold (sendTileCombineRequest now) qs m) = tm_pendingTileCombineQueue m @ concat qs"
  by (induction qs arbitrary: m) (auto simp: sendTileCombineRequest_def effect_def Let_def)

lemma pending_ensure [simp]:
  "tm_pendingTileCombineQueue (fold (ensure_tile app cur) q m) = tm_pendingTileCombineQueue m"
  by (induction q arbitrary: m) (auto simp: ensure_tile_def createTile_def updateTileDistance_def upd_tile_def Let_def)

lemma get_ensure_mono: "get_tile k m \<noteq> None \<Longrightarrow> get_tile k (ensure_tile app cur c m) \<noteq> None"
  by (auto simp: ensure_tile_def updateTileDistance_def Let_def)

lemma get_ensure_self: "get_tile (tile_key c) (ensure_tile app cur c m) \<noteq> None"
  by (simp add: ensure_tile_def updateTileDistance_def Let_def)

lemma ensure_all: "c \<in> set q \<Longrightarrow> get_tile (tile_key c) (fold (ensure_tile app cur) q m) \<noteq> None"
proof -
  have mono: "get_tile k (fold (ensure_tile app cur) q m) \<noteq> None" if "get_tile k m \<noteq> None" for k q m
    using that by (induction q arbitrary: m) (simp_all add: get_ensure_mono del: not_None_eq)
  show "c \<in> set q \<Longrightarrow> ?thesis"
  proof (induction q arbitrary: m)
    case (Cons c' q)
    then show ?case using mono [OF get_ensure_self] by (cases "c = c'") (simp_all del: not_None_eq)
  qed simp
qed

lemma keep_relevant_queue: "tm_pendingTileCombineQueue (snd (keep_relevant app cs kept m)) = tm_pendingTileCombineQueue m"
  by (induction app cs kept m rule: keep_relevant.induct) auto

lemma keep_relevant_subset:
  "set (fst (keep_relevant app cs kept m)) \<subseteq> set kept \<union> {c \<in> set cs. \<not> irrelevant app m c}"
proof (induction app cs kept m rule: keep_relevant.induct)
  case (2 app c cs kept m)
  have "irrelevant app (m\<lparr>tm_moveTileRequests := ks\<rparr>) = irrelevant app m" for ks
    by (simp add: fun_eq_iff irrelevant_def tileNeedsFetch_def get_tile_def)
  with 2 show ?case by auto
qed simp

text \<open>
  Adding tiles loses none and invents none: the coordinates that the filter of the queue leaves
  are, in some order, appended to the pending requests, and each has a tile afterwards. What the
  filter leaves belongs to the view and needs fetching, except for the first element of the queue,
  which always stays.
\<close>

theorem add_tiles_requests_queue:
  assumes "removeIrrelevantsFromCoordsQueue app q m = (kept, m1)" and "m2 = addTiles app now q cur m"
  shows "\<exists>added. tm_pendingTileCombineQueue m2 = tm_pendingTileCombineQueue m @ added \<and> mset added = mset kept \<and>
    (\<forall>c \<in> set kept. get_tile (tile_key c) m2 \<noteq> None) \<and>
    (q \<noteq> [] \<longrightarrow> kept \<noteq> [] \<and> hd kept = hd q \<and> (\<forall>c \<in> set (tl kept). c \<in> set q \<and> \<not> irrelevant app m c))"
proof -
  let ?rects = "group_rects (ta_tileSize app) (js_sort row_cmp kept)"
  let ?m3 = "fold (sendTileCombineRequest now) ?rects (fold (ensure_tile app cur) kept m1)"
  have m2: "tm_pendingTileCombineQueue m2 = tm_pendingTileCombineQueue ?m3" "tm_tiles m2 = tm_tiles ?m3"
    by (auto simp: assms addTiles_def initPreFetchPartTiles_def effect_def Let_def)
  have m1: "tm_pendingTileCombineQueue m1 = tm_pendingTileCombineQueue m"
    using assms(1) keep_relevant_queue [of app _ "[]" m]
    by (auto simp: removeIrrelevantsFromCoordsQueue_def split: list.splits prod.splits) (metis snd_conv)
  have tiles: "tm_tiles (fold (sendTileCombineRequest now) qs m') = tm_tiles m'" for qs m'
    by (induction qs arbitrary: m') (auto simp: sendTileCombineRequest_def Let_def)
  have "mset (concat ?rects) = mset kept" by (simp add: group_rects_mset)
  moreover have "get_tile (tile_key c) m2 \<noteq> None" if "c \<in> set kept" for c
    using ensure_all [OF that] by (simp add: get_tile_def m2(2) tiles)
  moreover have "kept \<noteq> [] \<and> hd kept = hd q \<and> (\<forall>c \<in> set (tl kept). c \<in> set q \<and> \<not> irrelevant app m c)" if "q \<noteq> []"
  proof (cases q)
    case (Cons c cs)
    obtain ks m' where ks: "keep_relevant app (rev cs) [] m = (ks, m')" by fastforce
    with assms(1) Cons have "kept = c # ks" by (simp add: removeIrrelevantsFromCoordsQueue_def)
    with keep_relevant_subset [of app "rev cs" "[]" m] ks Cons show ?thesis by auto
  qed (use that in simp)
  ultimately show ?thesis using m1 m2(1) pending_requests by auto
qed

theorem add_tiles_requests_queue_witness:
  "\<exists>added. tm_pendingTileCombineQueue (addTiles sample_app 0 [TileCoordData sample_app 256 0 None None None,
       TileCoordData sample_app 0 0 None None None] True initial_manager) = added \<and>
     mset added = {#TileCoordData sample_app 256 0 None None None, TileCoordData sample_app 0 0 None None None#}"
proof -
  let ?q = "[TileCoordData sample_app 256 0 None None None, TileCoordData sample_app 0 0 None None None]"
  have kept: "removeIrrelevantsFromCoordsQueue sample_app ?q initial_manager = (?q, initial_manager)"
    by (simp add: removeIrrelevantsFromCoordsQueue_def irrelevant_def tileNeedsFetch_def get_tile_def initial_manager_def
        TileCoordData_def sample_app_def)
  have "tm_pendingTileCombineQueue initial_manager = []" by (simp add: initial_manager_def)
  with add_tiles_requests_queue [OF kept refl, of 0 True] show ?thesis by auto
qed

subsection \<open>Prefetching\<close>

definition prefetchable :: "tile_app \<Rightarrow> tile_manager \<Rightarrow> tile_coords list \<Rightarrow> bool" where
  "prefetchable app m final \<longleftrightarrow> distinct (map tile_key final) \<and>
     (\<forall>c \<in> set final. isValidTile app c \<and> tileNeedsFetch (tile_key c) m)"

lemma select_tiles_ok:
  assumes "select_tiles app m cs (final, left, pending) = (final', left', pending')" and "prefetchable app m final"
  shows "prefetchable app m final' \<and> length final' + left' = length final + left \<and>
    left' \<le> left \<and> (pending' \<longrightarrow> pending \<or> left' = 0)"
  using assms
proof (induction cs arbitrary: final left pending)
  case (Cons c cs)
  show ?case
  proof (cases "tile_key c \<in> set (map tile_key final) \<or> \<not> isValidTile app c \<or> \<not> tileNeedsFetch (tile_key c) m")
    case True
    with Cons.prems have "select_tiles app m cs (final, left, pending) = (final', left', pending')" by simp
    from Cons.IH [OF this Cons.prems(2)] show ?thesis .
  next
    case False
    then have c: "tile_key c \<notin> set (map tile_key final)" "isValidTile app c" "tileNeedsFetch (tile_key c) m" by auto
    show ?thesis
    proof (cases "left > 0")
      case True
      with Cons.prems(1) c have "select_tiles app m cs (final @ [c], left - 1, pending) = (final', left', pending')" by simp
      moreover have "prefetchable app m (final @ [c])" using c Cons.prems(2) by (auto simp: prefetchable_def)
      ultimately show ?thesis using Cons.IH [of "final @ [c]" "left - 1" pending] True by auto
    next
      case False
      with Cons.prems(1) c have "select_tiles app m cs (final, left, True) = (final', left', pending')" by simp
      from Cons.IH [OF this Cons.prems(2)] False show ?thesis by simp
    qed
  qed
qed simp

lemma pane_loop_ok:
  "pane_loop app m valid w queue p final left = (p', final', left') \<Longrightarrow> prefetchable app m final \<Longrightarrow>
   prefetchable app m final' \<and> length final' + left' = length final + left"
proof (induction app m valid w queue p final left arbitrary: p' final' left' rule: pane_loop.induct)
  case (1 app m valid w queue p final left)
  show ?case
  proof (cases "left > 0 \<and> pb_index p < w \<and> border_sides valid p \<noteq> (False, False, False, False)")
    case True
    obtain f l b where sel: "select_tiles app m (queue @ border_coords app m valid p) (final, left, False) = (f, l, b)"
      by (metis surj_pair)
    note ok = select_tiles_ok [OF sel 1(3)]
    show ?thesis
    proof (cases b)
      case b: True
      have "(p', final', left') = (p, f, l)"
        using 1(2) True b unfolding pane_loop.simps [of app m valid w queue p final left] by (simp add: Let_def sel)
      with ok show ?thesis by simp
    next
      case b: False
      have rec: "pane_loop app m valid w (queue @ border_coords app m valid p) (widen_border valid p) f l = (p', final', left')"
        using 1(2) True b unfolding pane_loop.simps [of app m valid w queue p final left] by (simp add: Let_def sel)
      from 1(1) [OF True refl refl sel [symmetric] refl b rec] ok show ?thesis by simp
    qed
  next
    case False
    then show ?thesis using 1(2,3) unfolding pane_loop.simps [of app m valid w queue p final left] by auto
  qed
qed

lemma panes_loop_ok:
  "panes_loop app m valid w ps final left = (ps', final') \<Longrightarrow> prefetchable app m final \<Longrightarrow>
   prefetchable app m final' \<and> length final' \<le> length final + left"
proof (induction ps arbitrary: final left ps' final')
  case (Cons p ps)
  obtain p1 f1 l1 where 1: "pane_loop app m valid w [] p final left = (p1, f1, l1)" by (metis surj_pair)
  obtain ps2 f2 where 2: "panes_loop app m valid w ps f1 l1 = (ps2, f2)" by fastforce
  from Cons.prems(1) 1 2 have "final' = f2" by simp
  with Cons.IH [OF 2] pane_loop_ok [OF 1 Cons.prems(2)] show ?case by auto
qed auto

text \<open>
  C40. One round of prefetching selects at most the allowed number of tiles, each once, all within
  the document and not yet there, in any number of panes; the walk through the borders ends.
\<close>

theorem prefetch_within_limits:
  assumes "prefetch_queue app m = (final, borders, allDone)"
  shows "length final \<le> getMaxTileCountToPrefetch app m \<and> distinct (map tile_key final) \<and>
    (\<forall>c \<in> set final. isValidTile app c \<and> tileNeedsFetch (tile_key c) m)"
proof -
  let ?w = "if tm_hasEditPerm m = Some True then 10 else 40"
  have "panes_loop app m (validTileRange app) ?w (tm_borders m) [] (getMaxTileCountToPrefetch app m) = (borders, final)"
    using assms by (auto simp: prefetch_queue_def Let_def split: prod.splits)
  from panes_loop_ok [OF this] show ?thesis by (simp add: prefetchable_def)
qed

theorem prefetch_within_limits_witness:
  "\<exists>final borders allDone. prefetch_queue sample_app (initial_manager\<lparr>tm_borders :=
       computeBorders sample_app (ta_pixelBounds sample_app)\<rparr>) = (final, borders, allDone) \<and>
     length final \<le> getMaxTileCountToPrefetch sample_app (initial_manager\<lparr>tm_borders :=
       computeBorders sample_app (ta_pixelBounds sample_app)\<rparr>)"
  using prefetch_within_limits by (metis surj_pair)

subsection \<open>The view\<close>

lemma needs_fetch_upd:
  assumes "\<And>t. ti_wireId (f t) = ti_wireId t" "\<And>t. ti_invalidFrom (f t) = ti_invalidFrom t"
    "\<And>t. ti_image (f t) = ti_image t" "\<And>t. ti_rawDeltas (f t) = ti_rawDeltas t"
  shows "tileNeedsFetch k' (upd_tile k f m) = tileNeedsFetch k' m"
  by (simp add: tileNeedsFetch_def needsFetch_def hasContent_def hasKeyframe_def assms split: option.split)

lemma needs_fetch_frame: "tm_tiles m' = tm_tiles m \<Longrightarrow> tileNeedsFetch k m' = tileNeedsFetch k m"
  by (simp add: tileNeedsFetch_def get_tile_def)

lemma needs_fetch_rehydrate: "rehydrateTile k w m = Inr m' \<Longrightarrow> tileNeedsFetch k' m' = tileNeedsFetch k' m"
proof -
  have app: "tileNeedsFetch k' (applyCompressedDelta k rs kf w ids m) = tileNeedsFetch k' m" for rs kf ids m
  proof (cases "get_tile k m")
    case (Some t)
    have "tileNeedsFetch k' (applyCompressedDelta k rs kf w ids m) =
        tileNeedsFetch k' (upd_tile k (\<lambda>t. t\<lparr>ti_lastPendingId := snd ids\<rparr>) m)"
      by (rule needs_fetch_frame) (simp add: applyCompressedDelta_def Some Let_def)
    then show ?thesis by (simp add: needs_fetch_upd)
  qed (simp add: applyCompressedDelta_def)
  have pause: "tileNeedsFetch k' (effect e m\<lparr>tm_pausedForCoherency := b\<rparr>) = tileNeedsFetch k' m" for e b
    by (rule needs_fetch_frame) simp
  show "rehydrateTile k w m = Inr m' \<Longrightarrow> ?thesis"
    by (auto simp: rehydrateTile_def Let_def app pause split: option.splits if_splits)
qed

lemma needs_fetch_current: "makeTileCurrent k m = Inr (b, m') \<Longrightarrow> tileNeedsFetch k' m' = tileNeedsFetch k' m"
  using needs_fetch_rehydrate [of k False]
  by (auto simp: makeTileCurrent_def needs_fetch_upd allowFastRequest_def updateLastRequest_def split: sum.splits)

lemma missing_loop_queue:
  "missing_loop app cur cs q m = Inr (q', m') \<Longrightarrow>
   q' = q @ filter (\<lambda>c. isValidTile app c \<and> tileNeedsFetch (tile_key c) m) cs"
proof (induction cs arbitrary: q m)
  case (Cons c cs)
  consider (skip) "\<not> isValidTile app c \<or> \<not> tileNeedsFetch (tile_key c) m \<and> \<not> cur"
    | (queue) "isValidTile app c" "tileNeedsFetch (tile_key c) m"
    | (current) "isValidTile app c" "\<not> tileNeedsFetch (tile_key c) m" "cur" by blast
  then show ?case
  proof cases
    case skip
    then have "missing_loop app cur cs q m = Inr (q', m')" using Cons.prems by (auto split: if_splits)
    from Cons.IH [OF this] skip show ?thesis by auto
  next
    case queue
    then have "missing_loop app cur cs (q @ [c]) m = Inr (q', m')" using Cons.prems by simp
    from Cons.IH [OF this] queue show ?thesis by simp
  next
    case current
    with Cons.prems obtain b m1 where "makeTileCurrent (tile_key c) m = Inr (b, m1)"
      "missing_loop app cur cs q m1 = Inr (q', m')"
      by (auto simp: sum_bind_def split: sum.splits prod.splits)
    with Cons.IH current needs_fetch_current show ?thesis by fastforce
  qed
qed simp

lemma needs_fetch_distances: "tileNeedsFetch k (updateDistances app zoom m) = tileNeedsFetch k m"
proof -
  have "tileNeedsFetch k (fold (\<lambda>k. updateTileDistance app k zoom) ks m) = tileNeedsFetch k m" for ks
    by (induction ks arbitrary: m) (simp_all add: updateTileDistance_def needs_fetch_upd)
  then show ?thesis unfolding updateDistances_def by (subst needs_fetch_frame [OF sort_frame])
qed

lemma shrink_distances: "tm_shrinkCurrentId (updateDistances app zoom m) = tm_shrinkCurrentId m"
proof -
  have "tm_shrinkCurrentId (fold (\<lambda>k. updateTileDistance app k zoom) ks m) = tm_shrinkCurrentId m" for ks
    by (induction ks arbitrary: m) (simp_all add: updateTileDistance_def upd_tile_def)
  then show ?thesis by (simp add: updateDistances_def sortTileBitmapList_def)
qed

text \<open>
  C31. The search for missing tiles ends and finds, in the order of the rows, exactly the tiles of the
  viewed area that lie in the document and have to be fetched; for the current view the area is
  extended towards the direction of scrolling.
\<close>

theorem missing_tiles_found:
  assumes "tiles_ok m" and "ta_hasLayout app" and "\<not> ta_compareChanges app" and "\<not> ta_multiPage app"
  shows "\<exists>m'. getMissingTiles app now b zoom cur m =
    Inr (filter (\<lambda>c. isValidTile app c \<and> tileNeedsFetch (tile_key c) m)
      (view_coords app zoom (cur \<and> \<not> tm_shrinkCurrentId m) (pxBoundsToTileRanges app b)), m')"
proof -
  have "\<not> isl (getMissingTiles app now b zoom cur m)"
    by (rule no_exception [OF tiles.keeps_getMissingTiles [OF assms(1)]])
  then obtain q m' where r: "getMissingTiles app now b zoom cur m = Inr (q, m')"
    by (cases "getMissingTiles app now b zoom cur m") auto
  let ?m1 = "if cur then updateDistances app zoom m else m"
  let ?cs = "view_coords app zoom (cur \<and> \<not> tm_shrinkCurrentId ?m1) (pxBoundsToTileRanges app b)"
  from r assms(2-4) obtain m2 where "missing_loop app cur ?cs [] (beginTransaction ?m1) = Inr (q, m2)"
    by (auto simp: getMissingTiles_def Let_def sum_bind_def split: sum.splits prod.splits if_splits)
  from missing_loop_queue [OF this]
  have "q = filter (\<lambda>c. isValidTile app c \<and> tileNeedsFetch (tile_key c) (beginTransaction ?m1)) ?cs" by simp
  moreover have "tileNeedsFetch k (beginTransaction ?m1) = tileNeedsFetch k m" for k
    using needs_fetch_frame [of "beginTransaction ?m1" ?m1 k] by (simp add: beginTransaction_def needs_fetch_distances)
  moreover have "tm_shrinkCurrentId ?m1 = tm_shrinkCurrentId m" by (simp add: shrink_distances)
  ultimately show ?thesis using r by simp
qed

theorem missing_tiles_found_witness:
  "\<exists>q m'. getMissingTiles sample_app 0 (ta_pixelBounds sample_app) 10 False initial_manager = Inr (q, m') \<and>
     map tile_key q = [''0:0:10:0:0'', ''256:0:10:0:0'']"
proof -
  have "tiles_ok initial_manager" by (rule reach_tiles_ok [OF manager_reach.start])
  moreover have "ta_hasLayout sample_app" "\<not> ta_compareChanges sample_app" "\<not> ta_multiPage sample_app"
    by (simp_all add: sample_app_def)
  ultimately obtain m' where "getMissingTiles sample_app 0 (ta_pixelBounds sample_app) 10 False initial_manager =
      Inr (filter (\<lambda>c. isValidTile sample_app c \<and> tileNeedsFetch (tile_key c) initial_manager)
        (view_coords sample_app 10 (False \<and> \<not> tm_shrinkCurrentId initial_manager)
          (pxBoundsToTileRanges sample_app (ta_pixelBounds sample_app))), m')"
    using missing_tiles_found [of initial_manager sample_app 0 "ta_pixelBounds sample_app" 10 False] by blast
  moreover have "map tile_key (filter (\<lambda>c. isValidTile sample_app c \<and> tileNeedsFetch (tile_key c) initial_manager)
        (view_coords sample_app 10 (False \<and> \<not> tm_shrinkCurrentId initial_manager)
          (pxBoundsToTileRanges sample_app (ta_pixelBounds sample_app)))) = [''0:0:10:0:0'', ''256:0:10:0:0'']"
    by code_simp
  ultimately show ?thesis by (intro exI conjI)
qed

end
