(* ===== verification/Server_Command.thy ===== *)
theory Server_Command
  imports Js_String
begin

section \<open>Messages from the server\<close>

text \<open>
  \<open>browser/src/app/ServerCommand.ts\<close>: a message is split at blanks and newlines, and every token of
  the form \<open>name=value\<close> with a known name sets a field. A field that is not set is \<open>undefined\<close>, the
  outer \<open>None\<close>; a number that cannot be read is \<open>NaN\<close>, the inner \<open>None\<close>.
\<close>

type_synonym js_number = "int option"

record server_command =
  sc_filename :: "string option"
  sc_url :: "string option"
  sc_type :: "string option"
  sc_mode :: "js_number option"
  sc_id :: "string option"
  sc_errorCmd :: "string option"
  sc_errorCode :: "string option"
  sc_errorKind :: "string option"
  sc_jail :: "string option"
  sc_dir :: "string option"
  sc_downloadid :: "string option"
  sc_name :: "string option"
  sc_port :: "string option"
  sc_font :: "string option"
  sc_char :: "string option"
  sc_viewid :: "string option"
  sc_nviewid :: "string option"
  sc_params :: "string list option"
  sc_rendercount :: "js_number option"
  sc_wireId :: "string option"
  sc_title :: "string option"
  sc_dialogwidth :: "string option"
  sc_dialogheight :: "string option"
  sc_rectangle :: "string option"
  sc_hiddenparts :: "js_number list option"
  sc_rtlParts :: "js_number list option"
  sc_protectedParts :: "js_number list option"
  sc_hash :: "string option"
  sc_nopng :: "bool option"
  sc_username :: "string option"
  sc_pageRectangleList :: "js_number list list option"
  sc_lastcolumn :: "js_number option"
  sc_lastrow :: "js_number option"
  sc_readonly :: "js_number option"
  sc_x :: "js_number option"
  sc_y :: "js_number option"
  sc_tileWidth :: "js_number option"
  sc_tileHeight :: "js_number option"
  sc_width :: "js_number option"
  sc_height :: "js_number option"
  sc_zoom :: "js_number option"
  sc_part :: "js_number option"
  sc_parts :: "js_number option"
  sc_selectedPart :: "js_number option"

definition empty_command :: server_command where
  "empty_command =
     \<lparr>sc_filename = None, sc_url = None, sc_type = None, sc_mode = None, sc_id = None, sc_errorCmd = None,
      sc_errorCode = None, sc_errorKind = None, sc_jail = None, sc_dir = None, sc_downloadid = None,
      sc_name = None, sc_port = None, sc_font = None, sc_char = None, sc_viewid = None, sc_nviewid = None,
      sc_params = None, sc_rendercount = None, sc_wireId = None, sc_title = None, sc_dialogwidth = None,
      sc_dialogheight = None, sc_rectangle = None, sc_hiddenparts = None, sc_rtlParts = None,
      sc_protectedParts = None, sc_hash = None, sc_nopng = None, sc_username = None,
      sc_pageRectangleList = None, sc_lastcolumn = None, sc_lastrow = None, sc_readonly = None,
      sc_x = None, sc_y = None, sc_tileWidth = None, sc_tileHeight = None, sc_width = None,
      sc_height = None, sc_zoom = None, sc_part = None, sc_parts = None, sc_selectedPart = None\<rparr>"

subsection \<open>Tokens\<close>

text \<open>\<open>split\<close> with the pattern \<open>/[ \n]+/\<close>: the separators are the maximal runs of blanks and newlines.\<close>

definition is_blank :: "char \<Rightarrow> bool" where
  "is_blank c \<longleftrightarrow> c = CHR '' '' \<or> c = CHR 0x0A"

function split_blanks :: "string \<Rightarrow> string list" where
  "split_blanks s =
     (let t = dropWhile (\<lambda>c. \<not> is_blank c) s
      in if t = [] then [takeWhile (\<lambda>c. \<not> is_blank c) s]
         else takeWhile (\<lambda>c. \<not> is_blank c) s # split_blanks (dropWhile is_blank t))"
  by pat_completeness auto
termination
proof (relation "measure length", simp_all)
  fix s
  assume "\<exists>x\<in>set s. is_blank x"
  then obtain c t where ct: "dropWhile (\<lambda>c. \<not> is_blank c) s = c # t"
    by (cases "dropWhile (\<lambda>c. \<not> is_blank c) s") (auto simp: dropWhile_eq_Nil_conv)
  then have "is_blank c" using hd_dropWhile [of "\<lambda>c. \<not> is_blank c" s] by simp
  with ct have "length (dropWhile is_blank (dropWhile (\<lambda>c. \<not> is_blank c) s)) < length (dropWhile (\<lambda>c. \<not> is_blank c) s)"
    using length_dropWhile_le [of is_blank t] by simp
  also have "\<dots> \<le> length s" by (rule length_dropWhile_le)
  finally show "length (dropWhile is_blank (dropWhile (\<lambda>c. \<not> is_blank c) s)) < length s" .
qed

declare split_blanks.simps [simp del]

definition getParameterValue :: "string \<Rightarrow> string option" where
  "getParameterValue s =
     (let t = dropWhile (\<lambda>c. c \<noteq> CHR ''='') s in if t = [] then None else Some (tl t))"

definition remove_newlines :: "string \<Rightarrow> string" where
  "remove_newlines s = filter (\<lambda>c. c \<noteq> CHR 0x0A \<and> c \<noteq> CHR 0x0D) s"

definition number_list :: "string \<Rightarrow> js_number list" where
  "number_list s = map parseInt (split_on CHR '','' s)"

text \<open>Missing coordinates are \<open>undefined\<close>, which \<open>parseInt\<close> reads as \<open>NaN\<close>.\<close>

definition page_rectangle :: "string \<Rightarrow> js_number list" where
  "page_rectangle rect =
     (let rectCoords = split_on CHR '','' rect
      in map (\<lambda>i. if i < length rectCoords then parseInt (rectCoords ! i) else None) [0, 1, 2, 3])"

subsection \<open>The table of fields\<close>

text \<open>
  The chain of conditions of \<open>parse\<close>, as the list of its branches: the update that a token gets
  from the branch, if its condition holds. The first branch that takes the token wins.
\<close>

type_synonym branch = "string \<Rightarrow> (server_command \<Rightarrow> server_command) option"

definition starts :: "string \<Rightarrow> (string \<Rightarrow> server_command \<Rightarrow> server_command) \<Rightarrow> branch" where
  "starts p f t = (if take (length p) t = p then Some (f (drop (length p) t)) else None)"

definition is_nopng :: branch where
  "is_nopng t = (if t = ''nopng'' then Some (sc_nopng_update (\<lambda>_. Some True)) else None)"

definition first_fields :: "(string \<times> (string \<Rightarrow> server_command \<Rightarrow> server_command)) list" where
  "first_fields =
    [(''tileposx='', \<lambda>v. sc_x_update (\<lambda>_. Some (parseInt v))),
     (''tileposy='', \<lambda>v. sc_y_update (\<lambda>_. Some (parseInt v))),
     (''x='', \<lambda>v. sc_x_update (\<lambda>_. Some (parseInt v))),
     (''y='', \<lambda>v. sc_y_update (\<lambda>_. Some (parseInt v))),
     (''tilewidth='', \<lambda>v. sc_tileWidth_update (\<lambda>_. Some (parseInt v))),
     (''tileheight='', \<lambda>v. sc_tileHeight_update (\<lambda>_. Some (parseInt v))),
     (''width='', \<lambda>v. sc_width_update (\<lambda>_. Some (parseInt v))),
     (''height='', \<lambda>v. sc_height_update (\<lambda>_. Some (parseInt v))),
     (''part='', \<lambda>v. sc_part_update (\<lambda>_. Some (parseInt v))),
     (''parts='', \<lambda>v. sc_parts_update (\<lambda>_. Some (parseInt v))),
     (''mode='', \<lambda>v. sc_mode_update (\<lambda>_. Some (parseInt v))),
     (''current='', \<lambda>v. sc_selectedPart_update (\<lambda>_. Some (parseInt v))),
     (''id='', \<lambda>v. sc_id_update (\<lambda>_. Some (remove_newlines v))),
     (''type='', \<lambda>v. sc_type_update (\<lambda>_. Some (remove_newlines v))),
     (''cmd='', \<lambda>v. sc_errorCmd_update (\<lambda>_. Some v)),
     (''code='', \<lambda>v. sc_errorCode_update (\<lambda>_. Some v)),
     (''kind='', \<lambda>v. sc_errorKind_update (\<lambda>_. Some v)),
     (''jail='', \<lambda>v. sc_jail_update (\<lambda>_. Some v)),
     (''dir='', \<lambda>v. sc_dir_update (\<lambda>_. Some v)),
     (''downloadid='', \<lambda>v. sc_downloadid_update (\<lambda>_. Some v)),
     (''name='', \<lambda>v. sc_name_update (\<lambda>_. Some v)),
     (''filename='', \<lambda>v. sc_filename_update (\<lambda>_. Some v)),
     (''port='', \<lambda>v. sc_port_update (\<lambda>_. Some v)),
     (''font='', \<lambda>v. sc_font_update (\<lambda>_. Some v)),
     (''char='', \<lambda>v. sc_char_update (\<lambda>_. Some v)),
     (''url='', \<lambda>v. sc_url_update (\<lambda>_. Some v)),
     (''viewid='', \<lambda>v. sc_viewid_update (\<lambda>_. Some v)),
     (''nviewid='', \<lambda>v. sc_nviewid_update (\<lambda>_. Some v)),
     (''params='', \<lambda>v. sc_params_update (\<lambda>_. Some (split_on CHR '','' v))),
     (''rendercount='', \<lambda>v. sc_rendercount_update (\<lambda>_. Some (parseInt v))),
     (''wid='', \<lambda>v. sc_wireId_update (\<lambda>_. getParameterValue (''wid='' @ v))),
     (''title='', \<lambda>v. sc_title_update (\<lambda>_. Some v)),
     (''dialogwidth='', \<lambda>v. sc_dialogwidth_update (\<lambda>_. Some v)),
     (''dialogheight='', \<lambda>v. sc_dialogheight_update (\<lambda>_. Some v)),
     (''rectangle='', \<lambda>v. sc_rectangle_update (\<lambda>_. Some v)),
     (''hiddenparts='', \<lambda>v. sc_hiddenparts_update (\<lambda>_. Some (number_list v))),
     (''rtlparts='', \<lambda>v. sc_rtlParts_update (\<lambda>_. Some (number_list v))),
     (''protectedparts='', \<lambda>v. sc_protectedParts_update (\<lambda>_. Some (number_list v))),
     (''hash='', \<lambda>v. sc_hash_update (\<lambda>_. Some v))]"

definition later_fields :: "(string \<times> (string \<Rightarrow> server_command \<Rightarrow> server_command)) list" where
  "later_fields =
    [(''username='', \<lambda>v. sc_username_update (\<lambda>_. Some v)),
     (''pagerectangles='', \<lambda>v. sc_pageRectangleList_update (\<lambda>_. Some (map page_rectangle (split_on CHR '';'' v)))),
     (''lastcolumn='', \<lambda>v. sc_lastcolumn_update (\<lambda>_. Some (parseInt v))),
     (''lastrow='', \<lambda>v. sc_lastrow_update (\<lambda>_. Some (parseInt v))),
     (''readonly='', \<lambda>v. sc_readonly_update (\<lambda>_. Some (parseInt v)))]"

definition branches :: "branch list" where
  "branches = map (\<lambda>(p, f). starts p f) first_fields @ [is_nopng] @ map (\<lambda>(p, f). starts p f) later_fields"

definition parse_token :: "string \<Rightarrow> server_command \<Rightarrow> server_command" where
  "parse_token t c = (case List.map_filter (\<lambda>b. b t) branches of [] \<Rightarrow> c | f # fs \<Rightarrow> f c)"

text \<open>What the zoom is computed from: the zoom of the map and the width of a tile in twips at that zoom.\<close>

record map_zoom =
  mz_docLayer :: bool
  mz_zoom :: num
  mz_tileWidthTwips :: num

definition zoom_of :: "map_zoom \<Rightarrow> int \<Rightarrow> js_number" where
  "zoom_of mz tileWidth =
     (let scale = of_int tileWidth / mz_tileWidthTwips mz
      in if scale > 0 then Some (js_round (mz_zoom mz - ln scale / ln 1.2)) else None)"

definition truthy :: "js_number option \<Rightarrow> bool" where
  "truthy v = (case v of Some (Some n) \<Rightarrow> n \<noteq> 0 | _ \<Rightarrow> False)"

definition with_zoom :: "map_zoom \<Rightarrow> server_command \<Rightarrow> server_command" where
  "with_zoom mz c =
     (if truthy (sc_tileWidth c) \<and> truthy (sc_tileHeight c) \<and> mz_docLayer mz
      then c\<lparr>sc_zoom := (case sc_tileWidth c of Some (Some w) \<Rightarrow> Some (zoom_of mz w) | _ \<Rightarrow> None)\<rparr> else c)"

definition parse_fields :: "string \<Rightarrow> server_command" where
  "parse_fields msg = fold parse_token (split_blanks msg) empty_command"

definition ServerCommand :: "string \<Rightarrow> map_zoom \<Rightarrow> server_command" where
  "ServerCommand msg mz = with_zoom mz (parse_fields msg)"

subsection \<open>Splitting\<close>

lemma split_blanks_token:
  assumes "\<And>c. c \<in> set p \<Longrightarrow> \<not> is_blank c"
  shows "split_blanks p = [p]"
  using assms by (subst split_blanks.simps) (simp add: dropWhile_eq_Nil_conv takeWhile_eq_all_conv)

lemma split_blanks_cons:
  assumes "\<And>c. c \<in> set p \<Longrightarrow> \<not> is_blank c" and "q = [] \<or> \<not> is_blank (hd q)"
  shows "split_blanks (p @ '' '' @ q) = p # split_blanks q"
proof -
  have "dropWhile (\<lambda>c. \<not> is_blank c) (p @ '' '' @ q) = '' '' @ q" "takeWhile (\<lambda>c. \<not> is_blank c) (p @ '' '' @ q) = p"
    using assms(1) by (auto simp: dropWhile_append3 takeWhile_append2 is_blank_def)
  moreover have "dropWhile is_blank ('' '' @ q) = q" using assms(2) by (cases q) (auto simp: is_blank_def)
  ultimately show ?thesis by (subst split_blanks.simps) simp
qed

lemma split_blanks_join:
  assumes "ps \<noteq> []" and "\<And>p. p \<in> set ps \<Longrightarrow> p \<noteq> [] \<and> (\<forall>c \<in> set p. \<not> is_blank c)"
  shows "split_blanks (join_with '' '' ps) = ps"
  using assms
proof (induction "'' ''" ps rule: join_with.induct)
  case 1
  then show ?case by simp
next
  case (2 p)
  then show ?case by (simp add: split_blanks_token)
next
  case (3 p q ps)
  have "\<not> is_blank (hd (join_with '' '' (q # ps)))"
    using 3(3) [of q] by (cases ps; cases q) auto
  moreover have "\<And>c. c \<in> set p \<Longrightarrow> \<not> is_blank c" using 3(3) [of p] by simp
  ultimately have "split_blanks (p @ '' '' @ join_with '' '' (q # ps)) = p # split_blanks (join_with '' '' (q # ps))"
    by (intro split_blanks_cons) simp_all
  also have "split_blanks (join_with '' '' (q # ps)) = q # ps" using 3 by auto
  finally show ?case by simp
qed

text \<open>Blanks at the end give an empty token.\<close>

lemma split_blanks_end:
  assumes "\<And>c. c \<in> set p \<Longrightarrow> \<not> is_blank c" and "s \<noteq> []" and "\<And>c. c \<in> set s \<Longrightarrow> is_blank c"
  shows "split_blanks (p @ s) = [p, []]"
proof -
  have "dropWhile (\<lambda>c. \<not> is_blank c) (p @ s) = s" "takeWhile (\<lambda>c. \<not> is_blank c) (p @ s) = p"
    using assms by (cases s; auto simp: dropWhile_append3 takeWhile_append2)+
  moreover have "dropWhile is_blank s = []" using assms(3) by simp
  moreover have "split_blanks [] = [[]]" by (subst split_blanks.simps) simp
  ultimately show ?thesis using assms(2) by (subst split_blanks.simps) (simp del: dropWhile_eq_Nil_conv)
qed

lemma split_blanks_join_end:
  assumes "ps \<noteq> []" and "\<And>p. p \<in> set ps \<Longrightarrow> p \<noteq> [] \<and> (\<forall>c \<in> set p. \<not> is_blank c)" and s: "\<forall>c \<in> set s. is_blank c"
  shows "split_blanks (join_with '' '' ps @ s) = ps @ (if s = [] then [] else [[]])"
proof (cases "s = []")
  case False
  from assms(1,2) show ?thesis
  proof (induction "'' ''" ps rule: join_with.induct)
    case (2 p)
    then show ?case using False s by (simp add: split_blanks_end)
  next
    case (3 p q ps)
    have "\<not> is_blank (hd (join_with '' '' (q # ps) @ s))"
      using 3(3) [of q] by (cases ps; cases q) auto
    moreover have "\<And>c. c \<in> set p \<Longrightarrow> \<not> is_blank c" using 3(3) [of p] by simp
    ultimately have "split_blanks (p @ '' '' @ (join_with '' '' (q # ps) @ s)) = p # split_blanks (join_with '' '' (q # ps) @ s)"
      by (intro split_blanks_cons) simp_all
    also have "split_blanks (join_with '' '' (q # ps) @ s) = (q # ps) @ [[]]" using 3 False by auto
    finally show ?case using False by simp
  qed simp
qed (use split_blanks_join [OF assms(1,2)] in simp)

subsection \<open>What a token does\<close>

definition all_fields :: "(string \<times> (string \<Rightarrow> server_command \<Rightarrow> server_command)) list" where
  "all_fields = first_fields @ later_fields"

lemma field_names:
  "list_all (\<lambda>(p, f). p \<noteq> [] \<and> last p = CHR ''='' \<and> CHR ''='' \<notin> set (butlast p)) all_fields"
  "distinct (map fst all_fields)"
  by code_simp+

lemma until_equals: "CHR ''='' \<notin> set n \<Longrightarrow> takeWhile (\<lambda>c. c \<noteq> CHR ''='') (n @ CHR ''='' # v) = n"
  by (induction n) auto

lemma equals_split:
  assumes "CHR ''='' \<notin> set n" and "p \<noteq> []" and "last p = CHR ''=''" and "CHR ''='' \<notin> set (butlast p)"
  shows "take (length p) (n @ ''='' @ v) = p \<longleftrightarrow> p = n @ ''=''"
proof
  assume eq: "take (length p) (n @ ''='' @ v) = p"
  have p: "p = butlast p @ ''=''" using assms(2,3) append_butlast_last_id [of p] by simp
  obtain q where "n @ ''='' @ v = p @ q" using eq by (metis append_take_drop_id)
  with p have "n @ CHR ''='' # v = butlast p @ CHR ''='' # q" by (metis append.assoc append_Cons append_Nil)
  then have "n = butlast p" using until_equals [OF assms(1), of v] until_equals [OF assms(4), of q] by simp
  with p show "p = n @ ''=''" by simp
qed simp

lemma map_filter_starts:
  assumes "CHR ''='' \<notin> set n" and "list_all (\<lambda>(p, f). p \<noteq> [] \<and> last p = CHR ''='' \<and> CHR ''='' \<notin> set (butlast p)) tab"
  shows "List.map_filter (\<lambda>b. b (n @ ''='' @ v)) (map (\<lambda>(p, f). starts p f) tab) =
    map (\<lambda>(p, f). f v) (filter (\<lambda>(p, f). p = n @ ''='') tab)"
  using assms(2)
proof (induction tab)
  case (Cons e tab)
  obtain p f where e: "e = (p, f)" by (cases e)
  have "take (length p) (n @ ''='' @ v) = p \<longleftrightarrow> p = n @ ''=''"
    using equals_split [OF assms(1)] Cons.prems e by simp
  then show ?case using Cons e by (auto simp: List.map_filter_def starts_def)
qed (simp add: List.map_filter_def)

lemma filter_map_of:
  "distinct (map fst tab) \<Longrightarrow> filter (\<lambda>(p, f). p = k) tab = (case map_of tab k of None \<Rightarrow> [] | Some f \<Rightarrow> [(k, f)])"
proof (induction tab)
  case (Cons e tab)
  then have "fst e = k \<Longrightarrow> map_of tab k = None" by (auto simp: map_of_eq_None_iff)
  with Cons show ?case by (cases e) auto
qed simp

text \<open>The chain of conditions is a lookup of the name: its order does not matter.\<close>

lemma parse_token_name:
  assumes "CHR ''='' \<notin> set n"
  shows "parse_token (n @ ''='' @ v) c = (case map_of all_fields (n @ ''='') of None \<Rightarrow> c | Some f \<Rightarrow> f v c)"
proof -
  have "is_nopng (n @ ''='' @ v) = None"
  proof -
    have "n @ ''='' @ v \<noteq> ''nopng''"
    proof
      assume "n @ ''='' @ v = ''nopng''"
      then have "CHR ''='' \<in> set ''nopng''" by (metis in_set_conv_decomp append_Cons append_Nil)
      then show False by simp
    qed
    then show ?thesis by (simp add: is_nopng_def)
  qed
  then have "List.map_filter (\<lambda>b. b (n @ ''='' @ v)) branches = map (\<lambda>(p, f). f v) (filter (\<lambda>(p, f). p = n @ ''='') all_fields)"
    using map_filter_starts [OF assms, of first_fields v] map_filter_starts [OF assms, of later_fields v] field_names(1)
    by (simp add: branches_def all_fields_def map_filter_def)
  also have "\<dots> = (case map_of all_fields (n @ ''='') of None \<Rightarrow> [] | Some f \<Rightarrow> [f v])"
    by (simp add: filter_map_of [OF field_names(2)] split: option.splits)
  finally show ?thesis by (simp add: parse_token_def split: option.splits)
qed

lemma parse_token_other:
  assumes "CHR ''='' \<notin> set t" and "t \<noteq> ''nopng''"
  shows "parse_token t c = c"
proof -
  have "starts p f t = None" if "(p, f) \<in> set all_fields" for p f
  proof -
    have "p \<noteq> []" "last p = CHR ''=''" using field_names(1) that by (auto simp: list_all_iff)
    then have "CHR ''='' \<in> set p" using last_in_set [of p] by simp
    then have "take (length p) t \<noteq> p" using assms(1) set_take_subset [of "length p" t] by auto
    then show ?thesis by (simp add: starts_def)
  qed
  then have "List.map_filter (\<lambda>b. b t) branches = []"
    using assms(2) by (auto simp: branches_def all_fields_def List.map_filter_def is_nopng_def filter_empty_conv)
  then show ?thesis by (simp add: parse_token_def)
qed

subsection \<open>The zoom\<close>

text \<open>
  The zoom is the whole number whose tile width in twips is nearest on the logarithmic scale.
\<close>

lemma zoom_of_width:
  assumes "0 < mz_tileWidthTwips mz"
    and "mz_tileWidthTwips mz * 1.2 powr (mz_zoom mz - of_int z - 1 / 2) < of_int w"
    and "of_int w \<le> mz_tileWidthTwips mz * 1.2 powr (mz_zoom mz - of_int z + 1 / 2)"
  shows "zoom_of mz w = Some z"
proof -
  let ?T = "mz_tileWidthTwips mz" and ?d = "mz_zoom mz"
  let ?s = "of_int w / ?T"
  have l: "0 < ln (1.2 :: real)" by simp
  have s: "1.2 powr (?d - of_int z - 1 / 2) < ?s" "?s \<le> 1.2 powr (?d - of_int z + 1 / 2)"
    using assms by (simp_all add: field_simps)
  have pos: "0 < ?s" using s(1) powr_ge_zero [of "1.2" "?d - of_int z - 1 / 2"] by linarith
  have "ln (1.2 powr (?d - of_int z - 1 / 2)) < ln ?s" by (rule ln_less_cancel_iff [THEN iffD2]) (use s(1) pos in simp_all)
  then have "(?d - of_int z - 1 / 2) * ln 1.2 < ln ?s" by (simp add: ln_powr)
  moreover have "ln ?s \<le> ln (1.2 powr (?d - of_int z + 1 / 2))" by (rule ln_le_cancel_iff [THEN iffD2]) (use s(2) pos in simp_all)
  then have "ln ?s \<le> (?d - of_int z + 1 / 2) * ln 1.2" by (simp add: ln_powr)
  ultimately have "?d - of_int z - 1 / 2 < ln ?s / ln 1.2" "ln ?s / ln 1.2 \<le> ?d - of_int z + 1 / 2"
    using l by (simp_all add: pos_less_divide_eq pos_divide_le_eq)
  then have "\<lfloor>?d - ln ?s / ln 1.2 + 1 / 2\<rfloor> = z" by (intro floor_unique) linarith+
  then show ?thesis using pos by (simp add: zoom_of_def js_round_def Let_def)
qed

end
