(* ===== verification/Tile_Messages.thy ===== *)
theory Tile_Messages
  imports Server_Command Tile_Requests
begin

section \<open>Tile messages on the wire\<close>

text \<open>
  The text of a tile message, as \<open>TileDesc::serialize\<close> of \<open>wsd/TileDesc.hpp\<close> writes it on the server
  and \<open>ServerCommand\<close> reads it on the client. The fields that the client knows are read back, and so
  the answer to a request is stored under the key of the tile that was requested.
\<close>

record tile_desc =
  td_canonicalViewId :: int
  td_part :: int
  td_width :: int
  td_height :: int
  td_tilePosX :: int
  td_tilePosY :: int
  td_tileWidth :: int
  td_tileHeight :: int
  td_oldWireId :: int
  td_wireId :: int
  td_ver :: int
  td_id :: int
  td_imgSize :: int
  td_mode :: int

definition field_token :: "string \<Rightarrow> int \<Rightarrow> string" where
  "field_token name v = name @ ''='' @ show_int v"

definition desc_tokens :: "tile_desc \<Rightarrow> string list" where
  "desc_tokens d =
     [field_token ''nviewid'' (td_canonicalViewId d), field_token ''part'' (td_part d),
      field_token ''width'' (td_width d), field_token ''height'' (td_height d),
      field_token ''tileposx'' (td_tilePosX d), field_token ''tileposy'' (td_tilePosY d),
      field_token ''tilewidth'' (td_tileWidth d), field_token ''tileheight'' (td_tileHeight d)] @
     (if td_oldWireId d \<noteq> 0 then [field_token ''oldwid'' (td_oldWireId d)] else []) @
     (if td_wireId d \<noteq> 0 then [field_token ''wid'' (td_wireId d)] else []) @
     [field_token ''ver'' (td_ver d)] @
     (if td_id d \<ge> 0 then [field_token ''id'' (td_id d)] else []) @
     (if td_imgSize d > 0 then [field_token ''imgsize'' (td_imgSize d)] else []) @
     (if td_mode d \<noteq> 0 then [field_token ''mode'' (td_mode d)] else [])"

definition serialize :: "string \<Rightarrow> string \<Rightarrow> tile_desc \<Rightarrow> string" where
  "serialize prefix suffix d = join_with '' '' (prefix # desc_tokens d) @ suffix"


subsection \<open>Reading a description back\<close>

lemma newline_is_space: "is_space (CHR 0x0A)" "is_space (CHR 0x0D)"
  by code_simp+

lemma show_int_no_blank: "c \<in> set (show_int i) \<Longrightarrow> \<not> is_blank c"
  using show_int_chars [of c i] newline_is_space by (auto simp only: is_blank_def)

lemma remove_newlines_show_int: "remove_newlines (show_int i) = show_int i"
proof -
  have "c \<noteq> CHR 0x0A \<and> c \<noteq> CHR 0x0D" if "c \<in> set (show_int i)" for c
    using show_int_chars [OF that] newline_is_space by metis
  then show ?thesis unfolding remove_newlines_def by (intro filter_True ballI) blast
qed

lemma parse_field_token:
  "CHR ''='' \<notin> set n \<Longrightarrow> parse_token (field_token n v) c =
     (case map_of all_fields (n @ ''='') of None \<Rightarrow> c | Some f \<Rightarrow> f (show_int v) c)"
  unfolding field_token_def by (rule parse_token_name)

lemma tile_fields:
  "parse_token (field_token ''nviewid'' v) c = c\<lparr>sc_nviewid := Some (show_int v)\<rparr>"
  "parse_token (field_token ''part'' v) c = c\<lparr>sc_part := Some (Some v)\<rparr>"
  "parse_token (field_token ''width'' v) c = c\<lparr>sc_width := Some (Some v)\<rparr>"
  "parse_token (field_token ''height'' v) c = c\<lparr>sc_height := Some (Some v)\<rparr>"
  "parse_token (field_token ''tileposx'' v) c = c\<lparr>sc_x := Some (Some v)\<rparr>"
  "parse_token (field_token ''tileposy'' v) c = c\<lparr>sc_y := Some (Some v)\<rparr>"
  "parse_token (field_token ''tilewidth'' v) c = c\<lparr>sc_tileWidth := Some (Some v)\<rparr>"
  "parse_token (field_token ''tileheight'' v) c = c\<lparr>sc_tileHeight := Some (Some v)\<rparr>"
  "parse_token (field_token ''oldwid'' v) c = c"
  "parse_token (field_token ''wid'' v) c = c\<lparr>sc_wireId := Some (show_int v)\<rparr>"
  "parse_token (field_token ''ver'' v) c = c"
  "parse_token (field_token ''id'' v) c = c\<lparr>sc_id := Some (show_int v)\<rparr>"
  "parse_token (field_token ''imgsize'' v) c = c"
  "parse_token (field_token ''mode'' v) c = c\<lparr>sc_mode := Some (Some v)\<rparr>"
  by (simp_all add: parse_field_token all_fields_def first_fields_def later_fields_def remove_newlines_show_int getParameterValue_def)

definition token_ok :: "string \<Rightarrow> bool" where
  "token_ok t \<longleftrightarrow> t \<noteq> [] \<and> (\<forall>c \<in> set t. \<not> is_blank c)"

lemma field_token_ok: "list_all (\<lambda>c. \<not> is_blank c) n \<Longrightarrow> token_ok (field_token n v)"
  using show_int_no_blank by (auto simp: token_ok_def field_token_def is_blank_def list_all_iff)

lemma desc_tokens_ok: "t \<in> set (desc_tokens d) \<Longrightarrow> token_ok t"
proof -
  have "list_all token_ok (desc_tokens d)"
    unfolding desc_tokens_def by (simp add: field_token_ok is_blank_def)
  then show "t \<in> set (desc_tokens d) \<Longrightarrow> token_ok t" by (simp add: list_all_iff)
qed

definition desc_command :: "tile_desc \<Rightarrow> server_command" where
  "desc_command d = empty_command\<lparr>sc_nviewid := Some (show_int (td_canonicalViewId d)), sc_part := Some (Some (td_part d)),
     sc_width := Some (Some (td_width d)), sc_height := Some (Some (td_height d)),
     sc_x := Some (Some (td_tilePosX d)), sc_y := Some (Some (td_tilePosY d)),
     sc_tileWidth := Some (Some (td_tileWidth d)), sc_tileHeight := Some (Some (td_tileHeight d)),
     sc_wireId := (if td_wireId d \<noteq> 0 then Some (show_int (td_wireId d)) else None),
     sc_id := (if td_id d \<ge> 0 then Some (show_int (td_id d)) else None),
     sc_mode := (if td_mode d \<noteq> 0 then Some (Some (td_mode d)) else None)\<rparr>"

lemma fold_desc_tokens: "fold parse_token (desc_tokens d) empty_command = desc_command d"
  by (simp add: desc_tokens_def desc_command_def tile_fields empty_command_def)

definition message_text :: "string \<Rightarrow> string \<Rightarrow> bool" where
  "message_text prefix suffix \<longleftrightarrow> prefix \<noteq> [] \<and> (\<forall>c \<in> set prefix. \<not> is_blank c \<and> c \<noteq> CHR ''='') \<and> prefix \<noteq> ''nopng'' \<and>
     (\<forall>c \<in> set suffix. is_blank c)"

lemma tile_message_text:
  assumes "message_text prefix suffix"
  shows "parse_fields (serialize prefix suffix d) = desc_command d"
proof -
  have "split_blanks (serialize prefix suffix d) = (prefix # desc_tokens d) @ (if suffix = [] then [] else [[]])"
    unfolding serialize_def
    by (rule split_blanks_join_end) (use assms desc_tokens_ok in \<open>auto simp: token_ok_def message_text_def\<close>)
  moreover have "parse_token prefix empty_command = empty_command"
    by (rule parse_token_other) (use assms in \<open>auto simp: message_text_def\<close>)
  moreover have "parse_token [] c = c" for c by (rule parse_token_other) auto
  ultimately show ?thesis by (simp add: parse_fields_def fold_desc_tokens)
qed

text \<open>What the client knows of a description: a negative id is no id.\<close>

definition known_fields :: "tile_desc \<Rightarrow> int list" where
  "known_fields d =
     [td_canonicalViewId d, td_part d, td_width d, td_height d, td_tilePosX d, td_tilePosY d, td_tileWidth d, td_tileHeight d,
      td_wireId d, max (- 1) (td_id d), td_mode d]"

text \<open>
  C21. The client reads the view, the part, the size, the position, the size in twips, the wire id, the id and the
  mode of a tile back from the text of a tile message that the server writes, and leaves every other field
  undefined; a wire id or mode of 0 and a negative id are undefined too. So two messages are read alike if and only
  if these fields are the same: nothing but the old wire id, the version and the size of the image, which the
  client has no names for, is lost.
\<close>

theorem tile_message_roundtrip:
  assumes "message_text prefix suffix" and "message_text prefix' suffix'"
  shows "parse_fields (serialize prefix suffix d) = desc_command d \<and>
    (parse_fields (serialize prefix suffix d) = parse_fields (serialize prefix' suffix' e) \<longleftrightarrow> known_fields d = known_fields e)"
  unfolding tile_message_text [OF assms(1)] tile_message_text [OF assms(2)]
  by (auto simp: desc_command_def empty_command_def known_fields_def max_def split: if_splits)

definition sample_desc :: tile_desc where
  "sample_desc = \<lparr>td_canonicalViewId = 1000, td_part = 2, td_width = 256, td_height = 256, td_tilePosX = 3840, td_tilePosY = 7680,
     td_tileWidth = 3840, td_tileHeight = 3840, td_oldWireId = 0, td_wireId = 17, td_ver = -1, td_id = -1, td_imgSize = 100, td_mode = 0\<rparr>"

theorem tile_message_roundtrip_witness:
  "parse_fields (serialize ''tile:'' [CHR 0x0A] sample_desc) = desc_command sample_desc \<and>
   parse_fields (serialize ''tile:'' [CHR 0x0A] sample_desc) \<noteq> parse_fields (serialize ''delta:'' [] (sample_desc\<lparr>td_part := 3\<rparr>))"
proof -
  have m: "message_text ''tile:'' [CHR 0x0A]" "message_text ''delta:'' []" by (simp_all add: is_blank_def message_text_def)
  have "known_fields sample_desc \<noteq> known_fields (sample_desc\<lparr>td_part := 3\<rparr>)" by (simp add: known_fields_def sample_desc_def)
  then show ?thesis using tile_message_roundtrip [OF m, of sample_desc "sample_desc\<lparr>td_part := 3\<rparr>"] by blast
qed

subsection \<open>From the request to the tile\<close>




end
