(* ===== verification/Layout_Service.thy ===== *)
theory Layout_Service
  imports Js_String
begin

section \<open>The layouting service\<close>

text \<open>
  \<open>browser/src/app/LayoutingService.ts\<close>, which runs tasks that change the page in animation frames, and
  \<open>flushLayoutingTasks\<close> of \<open>canvas/CanvasSectionContainer.ts\<close>, which runs them at once. The state holds
  the fields of the service and what it asked of the browser: the timeouts and the frames that are
  pending, by their handles, and the clock of \<open>performance.now\<close>. \<open>ly_rest\<close> is what else the tasks change.

  A task is a value of type \<open>'f\<close>; \<open>call\<close> says what calling it does, and is \<open>None\<close> where it does not
  return. The service catches and logs what a task throws, so that a call that throws is one
  with the effects that it had until then.
\<close>

record 'f layouting_task =
  lt_taskId :: string
  lt_func :: "'f option"

record ('f, 'x) layouting =
  ly_requestedFrame :: "nat option"
  ly_layoutTasks :: "'f layouting_task list"
  ly_layoutTaskFlush :: "nat option"
  ly_drainCallbacks :: "'f list"
  ly_lastTaskId :: nat
  ly_timeouts :: "nat list"
  ly_frames :: "nat list"
  ly_handles :: nat
  ly_now :: num
  ly_rest :: 'x

definition MAX_TASK_DURATION_MS :: num where
  "MAX_TASK_DURATION_MS = 35"

definition new_LayoutingService :: "num \<Rightarrow> 'x \<Rightarrow> ('f, 'x) layouting" where
  "new_LayoutingService now r =
     \<lparr>ly_requestedFrame = None, ly_layoutTasks = [], ly_layoutTaskFlush = None, ly_drainCallbacks = [],
      ly_lastTaskId = 0, ly_timeouts = [], ly_frames = [], ly_handles = 0, ly_now = now, ly_rest = r\<rparr>"

subsection \<open>The browser\<close>

text \<open>Handles of timeouts and frames are new and not zero, so that every handle is truthy.\<close>

definition setTimeout_ly :: "('f, 'x) layouting \<Rightarrow> nat \<times> ('f, 'x) layouting" where
  "setTimeout_ly s = (let h = Suc (ly_handles s) in (h, s\<lparr>ly_handles := h, ly_timeouts := ly_timeouts s @ [h]\<rparr>))"

definition requestAnimationFrame_ly :: "('f, 'x) layouting \<Rightarrow> nat \<times> ('f, 'x) layouting" where
  "requestAnimationFrame_ly s = (let h = Suc (ly_handles s) in (h, s\<lparr>ly_handles := h, ly_frames := ly_frames s @ [h]\<rparr>))"

definition cancelAnimationFrame_ly :: "nat \<Rightarrow> ('f, 'x) layouting \<Rightarrow> ('f, 'x) layouting" where
  "cancelAnimationFrame_ly h s = s\<lparr>ly_frames := filter (\<lambda>f. f \<noteq> h) (ly_frames s)\<rparr>"

subsection \<open>The operations\<close>

definition setupTimer :: "('f, 'x) layouting \<Rightarrow> ('f, 'x) layouting" where
  "setupTimer s = (let (h, s1) = setTimeout_ly s in s1\<lparr>ly_layoutTaskFlush := Some h\<rparr>)"

definition scheduleLayouting :: "('f, 'x) layouting \<Rightarrow> ('f, 'x) layouting" where
  "scheduleLayouting s = (if ly_layoutTaskFlush s \<noteq> None then s else setupTimer s)"

definition appendLayoutingTask :: "'f option \<Rightarrow> ('f, 'x) layouting \<Rightarrow> string \<times> ('f, 'x) layouting" where
  "appendLayoutingTask task s =
     (let taskId = show_nat (ly_lastTaskId s);
          s1 = s\<lparr>ly_lastTaskId := Suc (ly_lastTaskId s),
                 ly_layoutTasks := ly_layoutTasks s @ [\<lparr>lt_taskId = taskId, lt_func = task\<rparr>]\<rparr>
      in (taskId, scheduleLayouting s1))"

definition cancelLayoutingTask :: "string \<Rightarrow> ('f, 'x) layouting \<Rightarrow> ('f, 'x) layouting" where
  "cancelLayoutingTask i s = s\<lparr>ly_layoutTasks := filter (\<lambda>task. lt_taskId task \<noteq> i) (ly_layoutTasks s)\<rparr>"

definition hasTasksPending :: "('f, 'x) layouting \<Rightarrow> bool" where
  "hasTasksPending s \<longleftrightarrow> length (ly_layoutTasks s) > 0"

definition onDrain :: "'f \<Rightarrow> ('f, 'x) layouting \<Rightarrow> ('f, 'x) layouting" where
  "onDrain callback s = scheduleLayouting (s\<lparr>ly_drainCallbacks := ly_drainCallbacks s @ [callback]\<rparr>)"

definition runTheTopTask ::
    "('f \<Rightarrow> ('f, 'x) layouting \<Rightarrow> ('f, 'x) layouting option) \<Rightarrow> ('f, 'x) layouting \<Rightarrow> (bool \<times> ('f, 'x) layouting) option" where
  "runTheTopTask call s =
     (case ly_layoutTasks s of
        [] \<Rightarrow> Some (False, s)
      | task # ts \<Rightarrow>
          (let s1 = s\<lparr>ly_layoutTasks := ts\<rparr>
           in case lt_func task of None \<Rightarrow> Some (False, s1) | Some f \<Rightarrow> map_option (Pair True) (call f s1)))"

definition cancelFrame :: "('f, 'x) layouting \<Rightarrow> ('f, 'x) layouting" where
  "cancelFrame s =
     (let s1 = (case ly_requestedFrame s of None \<Rightarrow> s | Some h \<Rightarrow> cancelAnimationFrame_ly h s)
      in s1\<lparr>ly_requestedFrame := None\<rparr>)"

primrec run_drains ::
    "('f \<Rightarrow> ('f, 'x) layouting \<Rightarrow> ('f, 'x) layouting option) \<Rightarrow> 'f list \<Rightarrow> ('f, 'x) layouting \<Rightarrow> ('f, 'x) layouting option" where
  "run_drains call [] s = Some s"
| "run_drains call (cb # cbs) s = Option.bind (call cb s) (run_drains call cbs)"

definition runDrainCallbacks ::
    "('f \<Rightarrow> ('f, 'x) layouting \<Rightarrow> ('f, 'x) layouting option) \<Rightarrow> ('f, 'x) layouting \<Rightarrow> ('f, 'x) layouting option" where
  "runDrainCallbacks call s = run_drains call (ly_drainCallbacks s) (s\<lparr>ly_drainCallbacks := []\<rparr>)"

definition triggerDrainCallbacks ::
    "('f \<Rightarrow> ('f, 'x) layouting \<Rightarrow> ('f, 'x) layouting option) \<Rightarrow> ('f, 'x) layouting \<Rightarrow> ('f, 'x) layouting option" where
  "triggerDrainCallbacks call s = (if \<not> hasTasksPending s then runDrainCallbacks call s else Some s)"

definition reachedTaskTimeout :: "num \<Rightarrow> ('f, 'x) layouting \<Rightarrow> bool" where
  "reachedTaskTimeout start s \<longleftrightarrow> ly_now s - start > MAX_TASK_DURATION_MS"

text \<open>The loop of the frame; the result says whether it ended because the time was over.\<close>

partial_function (option) frame_loop ::
    "('f \<Rightarrow> ('f, 'x) layouting \<Rightarrow> ('f, 'x) layouting option) \<Rightarrow> num \<Rightarrow> ('f, 'x) layouting \<Rightarrow> (bool \<times> ('f, 'x) layouting) option" where
  [code]: "frame_loop call start s =
     Option.bind (runTheTopTask call s) (\<lambda>r.
       if fst r then (if reachedTaskTimeout start (snd r) then Some (True, snd r) else frame_loop call start (snd r))
       else Some (False, snd r))"

text \<open>The callback of the frame and that of the timeout; the browser has taken them from its lists.\<close>

definition frame_callback ::
    "('f \<Rightarrow> ('f, 'x) layouting \<Rightarrow> ('f, 'x) layouting option) \<Rightarrow> ('f, 'x) layouting \<Rightarrow> ('f, 'x) layouting option" where
  "frame_callback call s =
     (let s1 = s\<lparr>ly_requestedFrame := None\<rparr>
      in Option.bind (frame_loop call (ly_now s1) s1) (\<lambda>r.
           if fst r then Some (scheduleLayouting (snd r)) else runDrainCallbacks call (snd r)))"

definition flushLayoutingQueue ::
    "('f \<Rightarrow> ('f, 'x) layouting \<Rightarrow> ('f, 'x) layouting option) \<Rightarrow> ('f, 'x) layouting \<Rightarrow> ('f, 'x) layouting option" where
  "flushLayoutingQueue call s =
     (let s1 = s\<lparr>ly_layoutTaskFlush := None\<rparr>
      in if \<not> hasTasksPending s1 then runDrainCallbacks call s1
         else let (h, s2) = requestAnimationFrame_ly s1 in Some (s2\<lparr>ly_requestedFrame := Some h\<rparr>))"

partial_function (option) run_all_tasks ::
    "('f \<Rightarrow> ('f, 'x) layouting \<Rightarrow> ('f, 'x) layouting option) \<Rightarrow> ('f, 'x) layouting \<Rightarrow> ('f, 'x) layouting option" where
  [code]: "run_all_tasks call s =
     Option.bind (runTheTopTask call s) (\<lambda>r. if fst r then run_all_tasks call (snd r) else Some (snd r))"

definition flushLayoutingTasks ::
    "('f \<Rightarrow> ('f, 'x) layouting \<Rightarrow> ('f, 'x) layouting option) \<Rightarrow> ('f, 'x) layouting \<Rightarrow> ('f, 'x) layouting option" where
  "flushLayoutingTasks call s =
     Option.bind (run_all_tasks call (if hasTasksPending s then cancelFrame s else s)) (triggerDrainCallbacks call)"

subsection \<open>Steps\<close>

text \<open>
  What a client does with the service: it appends and cancels tasks, asks to be told when there are
  none, and changes the rest of the state while time goes on.
\<close>

datatype ('f, 'x) client_op = Append 'f | Cancel string | On_Drain 'f | Other "'x \<Rightarrow> 'x" num

primrec do_op :: "('f, 'x) client_op \<Rightarrow> ('f, 'x) layouting \<Rightarrow> ('f, 'x) layouting" where
  "do_op (Append f) s = snd (appendLayoutingTask (Some f) s)"
| "do_op (Cancel i) s = cancelLayoutingTask i s"
| "do_op (On_Drain f) s = onDrain f s"
| "do_op (Other g d) s = s\<lparr>ly_rest := g (ly_rest s), ly_now := ly_now s + \<bar>d\<bar>\<rparr>"

text \<open>Tasks are clients: a call that returns has done some such operations.\<close>

definition clients :: "('f \<Rightarrow> ('f, 'x) layouting \<Rightarrow> ('f, 'x) layouting option) \<Rightarrow> bool" where
  "clients call \<longleftrightarrow> (\<forall>f s s'. call f s = Some s' \<longrightarrow> (\<exists>ops. s' = fold do_op ops s))"

inductive layout_step ::
    "('f \<Rightarrow> ('f, 'x) layouting \<Rightarrow> ('f, 'x) layouting option) \<Rightarrow> ('f, 'x) layouting \<Rightarrow> ('f, 'x) layouting \<Rightarrow> bool"
  for call where
  client: "layout_step call s (do_op p s)"
| timeout: "h \<in> set (ly_timeouts s) \<Longrightarrow> flushLayoutingQueue call (s\<lparr>ly_timeouts := remove1 h (ly_timeouts s)\<rparr>) = Some s' \<Longrightarrow>
    layout_step call s s'"
| frame: "h \<in> set (ly_frames s) \<Longrightarrow> frame_callback call (s\<lparr>ly_frames := remove1 h (ly_frames s)\<rparr>) = Some s' \<Longrightarrow> layout_step call s s'"
| flush: "flushLayoutingTasks call s = Some s' \<Longrightarrow> layout_step call s s'"

inductive layout_reachable ::
    "('f \<Rightarrow> ('f, 'x) layouting \<Rightarrow> ('f, 'x) layouting option) \<Rightarrow> ('f, 'x) layouting \<Rightarrow> bool"
  for call where
  start: "layout_reachable call (new_LayoutingService now r)"
| step: "layout_reachable call s \<Longrightarrow> layout_step call s s' \<Longrightarrow> layout_reachable call s'"

subsection \<open>The invariant\<close>

text \<open>
  The timeout that the service remembers is the only one that is pending, the frame that it
  remembers is pending, tasks have functions and different ids.
\<close>

definition layout_ok :: "('f, 'x) layouting \<Rightarrow> bool" where
  "layout_ok s \<longleftrightarrow>
     ly_timeouts s = (case ly_layoutTaskFlush s of None \<Rightarrow> [] | Some h \<Rightarrow> [h]) \<and>
     (\<forall>h. ly_requestedFrame s = Some h \<longrightarrow> h \<in> set (ly_frames s)) \<and>
     distinct (ly_frames s) \<and> (\<forall>h \<in> set (ly_frames s). h \<le> ly_handles s) \<and>
     (\<forall>t \<in> set (ly_layoutTasks s). lt_func t \<noteq> None) \<and>
     distinct (map lt_taskId (ly_layoutTasks s)) \<and>
     (\<forall>t \<in> set (ly_layoutTasks s). \<exists>n < ly_lastTaskId s. lt_taskId t = show_nat n)"

text \<open>Work that is left is waited for.\<close>

definition scheduled :: "('f, 'x) layouting \<Rightarrow> bool" where
  "scheduled s \<longleftrightarrow>
     (ly_layoutTasks s \<noteq> [] \<or> ly_drainCallbacks s \<noteq> [] \<longrightarrow> ly_timeouts s \<noteq> [] \<or> ly_frames s \<noteq> [])"

lemma show_nat_inject [simp]: "show_nat m = show_nat n \<longleftrightarrow> m = n"
  by (metis digits_value_show_nat)

lemma layout_ok_tasks:
  assumes "layout_ok s" and "ly_layoutTasks s = t # ts"
  shows "layout_ok (s\<lparr>ly_layoutTasks := ts\<rparr>)" and "lt_func t \<noteq> None"
  using assms by (auto simp: layout_ok_def)

lemma layout_ok_frame [simp]: "ly_requestedFrame s' = None \<Longrightarrow> distinct (ly_frames s') \<Longrightarrow> set (ly_frames s') \<subseteq> set (ly_frames s) \<Longrightarrow>
    layout_ok s \<Longrightarrow> layout_ok (s\<lparr>ly_requestedFrame := None, ly_frames := ly_frames s'\<rparr>)"
  by (auto simp: layout_ok_def)

lemma schedule_timeouts: "layout_ok s \<Longrightarrow> ly_timeouts (scheduleLayouting s) \<noteq> []"
  by (auto simp: layout_ok_def scheduleLayouting_def setupTimer_def setTimeout_ly_def Let_def)

lemma schedule_ok:
  assumes "layout_ok s"
  shows "layout_ok (scheduleLayouting s)"
  using assms by (cases "ly_layoutTaskFlush s")
    (auto simp: layout_ok_def scheduleLayouting_def setupTimer_def setTimeout_ly_def Let_def)

lemma schedule_frame [simp]:
  "ly_layoutTasks (scheduleLayouting s) = ly_layoutTasks s" "ly_drainCallbacks (scheduleLayouting s) = ly_drainCallbacks s"
  "ly_frames (scheduleLayouting s) = ly_frames s" "ly_lastTaskId (scheduleLayouting s) = ly_lastTaskId s"
  "ly_requestedFrame (scheduleLayouting s) = ly_requestedFrame s" "ly_now (scheduleLayouting s) = ly_now s"
  "ly_rest (scheduleLayouting s) = ly_rest s"
  by (simp_all add: scheduleLayouting_def setupTimer_def setTimeout_ly_def Let_def)

lemma append_ok:
  assumes "layout_ok s"
  shows "layout_ok (s\<lparr>ly_lastTaskId := Suc (ly_lastTaskId s),
    ly_layoutTasks := ly_layoutTasks s @ [\<lparr>lt_taskId = show_nat (ly_lastTaskId s), lt_func = Some f\<rparr>]\<rparr>)"
proof -
  have "lt_taskId t \<noteq> show_nat (ly_lastTaskId s)" if "t \<in> set (ly_layoutTasks s)" for t
    using assms that by (auto simp: layout_ok_def)
  then show ?thesis using assms by (auto simp: layout_ok_def less_Suc_eq)
qed

lemma do_op_ok:
  assumes "layout_ok s"
  shows "layout_ok (do_op p s)"
proof (cases p)
  case (Append f)
  then show ?thesis using schedule_ok [OF append_ok [OF assms, of f]] by (simp add: appendLayoutingTask_def Let_def)
next
  case (Cancel i)
  then show ?thesis using assms by (auto simp: layout_ok_def cancelLayoutingTask_def distinct_map_filter)
next
  case (On_Drain f)
  have "layout_ok (s\<lparr>ly_drainCallbacks := ly_drainCallbacks s @ [f]\<rparr>)" using assms by (simp add: layout_ok_def)
  then show ?thesis using schedule_ok On_Drain by (simp add: onDrain_def)
next
  case (Other g d)
  then show ?thesis using assms by (simp add: layout_ok_def)
qed

lemma do_op_scheduled:
  assumes "layout_ok s" and "scheduled s"
  shows "scheduled (do_op p s)"
proof (cases p)
  case (Append f)
  then show ?thesis
    using schedule_timeouts [OF append_ok [OF assms(1), of f]] by (simp add: appendLayoutingTask_def Let_def scheduled_def)
next
  case (Cancel i)
  then show ?thesis using assms(2) by (auto simp: scheduled_def cancelLayoutingTask_def)
next
  case (On_Drain f)
  have "layout_ok (s\<lparr>ly_drainCallbacks := ly_drainCallbacks s @ [f]\<rparr>)" using assms by (simp add: layout_ok_def)
  from schedule_timeouts [OF this] On_Drain show ?thesis by (simp add: onDrain_def scheduled_def)
next
  case (Other g d)
  then show ?thesis using assms(2) by (simp add: scheduled_def)
qed

lemma ops_keep: "layout_ok s \<Longrightarrow> layout_ok (fold do_op ops s) \<and> (scheduled s \<longrightarrow> scheduled (fold do_op ops s))"
  by (induction ops arbitrary: s) (auto simp: do_op_ok do_op_scheduled)

lemma call_keeps:
  assumes "clients call" and "call f s = Some s'" and "layout_ok s"
  shows "layout_ok s'" and "scheduled s \<Longrightarrow> scheduled s'"
proof -
  obtain ops where "s' = fold do_op ops s" using assms(1,2) unfolding clients_def by blast
  then show "layout_ok s'" "scheduled s \<Longrightarrow> scheduled s'" using ops_keep [OF assms(3), of ops] by simp_all
qed

lemma run_drains_keeps:
  assumes "clients call" and "run_drains call cbs s = Some s'" and "layout_ok s" and "scheduled s"
  shows "layout_ok s' \<and> scheduled s'"
  using assms(2-4)
proof (induction cbs arbitrary: s)
  case (Cons cb cbs)
  then obtain s1 where "call cb s = Some s1" "run_drains call cbs s1 = Some s'" by (auto simp: bind_eq_Some_conv)
  then show ?case using Cons call_keeps [OF assms(1)] by blast
qed simp

lemma drain_keeps:
  assumes "clients call" and "runDrainCallbacks call s = Some s'" and "layout_ok s" and "ly_layoutTasks s = []"
  shows "layout_ok s' \<and> scheduled s'"
  by (rule run_drains_keeps [OF assms(1) assms(2) [unfolded runDrainCallbacks_def]])
    (use assms in \<open>auto simp: layout_ok_def scheduled_def\<close>)

lemma top_task_keeps:
  assumes "clients call" and "runTheTopTask call s = Some (b, s')" and "layout_ok s"
  shows "layout_ok s'" and "\<not> b \<Longrightarrow> ly_layoutTasks s' = []"
proof -
  have "layout_ok s' \<and> (\<not> b \<longrightarrow> ly_layoutTasks s' = [])"
  proof (cases "ly_layoutTasks s")
    case Nil
    then show ?thesis using assms by (simp add: runTheTopTask_def)
  next
    case (Cons t ts)
    then obtain f where "lt_func t = Some f" using layout_ok_tasks(2) [OF assms(3)] by blast
    then have "b" "call f (s\<lparr>ly_layoutTasks := ts\<rparr>) = Some s'" using Cons assms(2) by (auto simp: runTheTopTask_def)
    then show ?thesis using call_keeps(1) [OF assms(1)] layout_ok_tasks(1) [OF assms(3) Cons] by blast
  qed
  then show "layout_ok s'" "\<not> b \<Longrightarrow> ly_layoutTasks s' = []" by auto
qed

lemma frame_loop_keeps:
  assumes "clients call" and "frame_loop call start s = Some r" and "layout_ok s"
  shows "layout_ok (snd r) \<and> (fst r \<or> ly_layoutTasks (snd r) = [])"
proof -
  let ?P = "\<lambda>c st s r. c = call \<longrightarrow> layout_ok s \<longrightarrow> layout_ok (snd r) \<and> (fst r \<or> ly_layoutTasks (snd r) = [])"
  have "?P call start s r"
  proof (rule frame_loop.raw_induct [where P = ?P, OF _ assms(2)])
    fix loop c st s r
    assume IH: "\<And>c st s r. loop c st s = Some r \<Longrightarrow> ?P c st s r"
      and eq: "Option.bind (runTheTopTask c s) (\<lambda>r. if fst r then (if reachedTaskTimeout st (snd r) then Some (True, snd r)
        else loop c st (snd r)) else Some (False, snd r)) = Some r"
    show "?P c st s r"
    proof (intro impI)
      assume "c = call" and ok: "layout_ok s"
      with eq obtain b s1 where s1: "runTheTopTask call s = Some (b, s1)"
          "(if b then (if reachedTaskTimeout st s1 then Some (True, s1) else loop call st s1) else Some (False, s1)) = Some r"
        by (auto simp: bind_eq_Some_conv cong: if_cong)
      show "layout_ok (snd r) \<and> (fst r \<or> ly_layoutTasks (snd r) = [])"
        using s1(2) top_task_keeps [OF assms(1) s1(1) ok] IH [of call st s1 r] by (auto split: if_splits)
    qed
  qed
  then show ?thesis using assms(3) by blast
qed

lemma run_all_keeps:
  assumes "clients call" and "run_all_tasks call s = Some s'" and "layout_ok s"
  shows "layout_ok s' \<and> ly_layoutTasks s' = []"
proof -
  let ?P = "\<lambda>c s s'. c = call \<longrightarrow> layout_ok s \<longrightarrow> layout_ok s' \<and> ly_layoutTasks s' = []"
  have "?P call s s'"
  proof (rule run_all_tasks.raw_induct [where P = ?P, OF _ assms(2)])
    fix loop c s s'
    assume IH: "\<And>c s s'. loop c s = Some s' \<Longrightarrow> ?P c s s'"
      and eq: "Option.bind (runTheTopTask c s) (\<lambda>r. if fst r then loop c (snd r) else Some (snd r)) = Some s'"
    show "?P c s s'"
    proof (intro impI)
      assume "c = call" and ok: "layout_ok s"
      with eq obtain b s1 where s1: "runTheTopTask call s = Some (b, s1)" "(if b then loop call s1 else Some s1) = Some s'"
        by (auto simp: bind_eq_Some_conv cong: if_cong)
      show "layout_ok s' \<and> ly_layoutTasks s' = []"
        using s1(2) top_task_keeps [OF assms(1) s1(1) ok] IH [of call s1 s'] by (auto split: if_splits)
    qed
  qed
  then show ?thesis using assms(3) by blast
qed

lemma cancelFrame_ok: "layout_ok s \<Longrightarrow> layout_ok (cancelFrame s)"
  by (auto simp: layout_ok_def cancelFrame_def cancelAnimationFrame_ly_def Let_def split: option.splits)

lemma timeout_keeps:
  assumes "clients call" and "h \<in> set (ly_timeouts s)" and "layout_ok s"
    and "flushLayoutingQueue call (s\<lparr>ly_timeouts := remove1 h (ly_timeouts s)\<rparr>) = Some s'"
  shows "layout_ok s' \<and> scheduled s'"
proof -
  let ?s = "s\<lparr>ly_timeouts := remove1 h (ly_timeouts s), ly_layoutTaskFlush := None\<rparr>"
  have ok: "layout_ok ?s" using assms(2,3) by (auto simp: layout_ok_def split: option.splits)
  show ?thesis
  proof (cases "hasTasksPending ?s")
    case True
    then have "s' = ?s\<lparr>ly_handles := Suc (ly_handles s), ly_frames := ly_frames s @ [Suc (ly_handles s)],
        ly_requestedFrame := Some (Suc (ly_handles s))\<rparr>"
      using assms(4) by (simp add: flushLayoutingQueue_def requestAnimationFrame_ly_def Let_def)
    moreover have "Suc (ly_handles s) \<notin> set (ly_frames s)" using assms(3) by (auto simp: layout_ok_def)
    ultimately show ?thesis using ok by (auto simp: layout_ok_def scheduled_def)
  next
    case False
    then have "runDrainCallbacks call ?s = Some s'" using assms(4) by (simp add: flushLayoutingQueue_def hasTasksPending_def)
    then show ?thesis using drain_keeps [OF assms(1) _ ok] False by (simp add: hasTasksPending_def)
  qed
qed

lemma frame_keeps:
  assumes "clients call" and "layout_ok s" and "frame_callback call (s\<lparr>ly_frames := remove1 h (ly_frames s)\<rparr>) = Some s'"
  shows "layout_ok s' \<and> scheduled s'"
proof -
  let ?s = "s\<lparr>ly_frames := remove1 h (ly_frames s), ly_requestedFrame := None\<rparr>"
  have "layout_ok ?s" using assms(2) by (auto simp: layout_ok_def)
  moreover obtain b s1 where s1: "frame_loop call (ly_now s) ?s = Some (b, s1)"
      "(if b then Some (scheduleLayouting s1) else runDrainCallbacks call s1) = Some s'"
    using assms(3) by (auto simp: frame_callback_def bind_eq_Some_conv cong: if_cong)
  ultimately have "layout_ok s1" "b \<or> ly_layoutTasks s1 = []" using frame_loop_keeps [OF assms(1)] by fastforce+
  then show ?thesis
    using s1(2) schedule_ok [of s1] schedule_timeouts [of s1] drain_keeps [OF assms(1), of s1 s']
    by (cases b) (auto simp: scheduled_def)
qed

lemma flush_keeps:
  assumes "clients call" and "layout_ok s" and "flushLayoutingTasks call s = Some s'"
  shows "layout_ok s' \<and> scheduled s' \<and> (\<exists>s1. run_all_tasks call (if hasTasksPending s then cancelFrame s else s) = Some s1 \<and> ly_layoutTasks s1 = [])"
proof -
  have "layout_ok (if hasTasksPending s then cancelFrame s else s)" using assms(2) cancelFrame_ok by auto
  moreover obtain s1 where s1: "run_all_tasks call (if hasTasksPending s then cancelFrame s else s) = Some s1" "triggerDrainCallbacks call s1 = Some s'"
    using assms(3) by (auto simp: flushLayoutingTasks_def bind_eq_Some_conv)
  ultimately have "layout_ok s1" "ly_layoutTasks s1 = []" using run_all_keeps [OF assms(1)] by blast+
  then show ?thesis using drain_keeps [OF assms(1)] s1 by (auto simp: triggerDrainCallbacks_def hasTasksPending_def)
qed

lemma layout_step_keeps:
  assumes "clients call" and "layout_step call s s'" and "layout_ok s" and "scheduled s"
  shows "layout_ok s' \<and> scheduled s'"
  using assms(2)
proof (cases rule: layout_step.cases)
  case (client p)
  then show ?thesis using do_op_ok do_op_scheduled assms by blast
next
  case (timeout h)
  then show ?thesis using timeout_keeps [OF assms(1)] assms by blast
next
  case (frame h)
  then show ?thesis using frame_keeps [OF assms(1)] assms by blast
next
  case flush
  then show ?thesis using flush_keeps [OF assms(1)] assms by blast
qed

lemma filter_one_key:
  assumes "distinct (map k xs)" and "x \<in> set xs"
  shows "length (filter (\<lambda>y. k y \<noteq> k x) xs) = length xs - 1"
proof -
  have "remove1 x xs = filter (\<lambda>y. k y \<noteq> k x) xs"
    using assms
  proof (induction xs)
    case (Cons y ys)
    then have "\<forall>z \<in> set ys. k z \<noteq> k y" by (metis distinct.simps(2) image_eqI list.set_map list.simps(9))
    then show ?case using Cons by (auto simp: filter_id_conv)
  qed simp
  then show ?thesis using length_remove1 [of x xs] assms(2) by simp
qed

subsection \<open>Properties\<close>

text \<open>
  C10. Whatever tasks do with the service and in whatever order timeouts and frames arrive, work is
  never forgotten: while a task or a drain callback is left, a timeout or a frame is pending.
  At most one timeout is pending, and the ids of the tasks are different, so that cancelling
  takes one task away.
\<close>

theorem layout_never_stalls:
  assumes "clients call" and "layout_reachable call s"
  shows "(ly_layoutTasks s \<noteq> [] \<or> ly_drainCallbacks s \<noteq> [] \<longrightarrow> ly_timeouts s \<noteq> [] \<or> ly_frames s \<noteq> []) \<and>
    length (ly_timeouts s) \<le> 1 \<and> distinct (map lt_taskId (ly_layoutTasks s)) \<and>
    (\<forall>t \<in> set (ly_layoutTasks s). length (ly_layoutTasks (cancelLayoutingTask (lt_taskId t) s)) = length (ly_layoutTasks s) - 1)"
proof -
  have inv: "layout_ok s \<and> scheduled s"
    using assms(2)
  proof (induction rule: layout_reachable.induct)
    case (start now r)
    then show ?case by (simp add: layout_ok_def scheduled_def new_LayoutingService_def)
  next
    case (step s s')
    then show ?case using layout_step_keeps [OF assms(1)] by blast
  qed
  have dist: "distinct (map lt_taskId (ly_layoutTasks s))" using inv by (simp add: layout_ok_def)
  show ?thesis
    using inv filter_one_key [OF dist] dist
    by (auto simp: scheduled_def layout_ok_def cancelLayoutingTask_def split: option.splits)
qed

text \<open>Tasks that log their name and take 20 ms; the task 7 appends another one.\<close>

definition sample_call :: "nat \<Rightarrow> (nat, nat list) layouting \<Rightarrow> (nat, nat list) layouting option" where
  "sample_call f s =
     (let s1 = do_op (Other (\<lambda>l. l @ [f]) 20) s in Some (if f = 7 then do_op (Append 1) s1 else s1))"

lemma sample_call_clients: "clients sample_call"
  unfolding clients_def
proof (intro allI impI)
  fix f s s'
  assume "sample_call f s = Some s'"
  then have "s' = fold do_op (if f = 7 then [Other (\<lambda>l. l @ [f]) 20, Append 1] else [Other (\<lambda>l. l @ [f]) 20]) s"
    by (auto simp: sample_call_def Let_def)
  then show "\<exists>ops. s' = fold do_op ops s" by blast
qed

definition sample_layout :: "(nat, nat list) layouting" where
  "sample_layout = fold do_op [Append 3, Append 7, Append 5, On_Drain 9] (new_LayoutingService 0 [])"

theorem layout_never_stalls_witness:
  "\<exists>s. layout_reachable sample_call s \<and> map lt_func (ly_layoutTasks s) = [Some 3, Some 7, Some 5] \<and>
    (ly_timeouts s \<noteq> [] \<or> ly_frames s \<noteq> []) \<and> length (ly_timeouts s) \<le> 1"
proof -
  have fold: "layout_reachable sample_call s \<Longrightarrow> layout_reachable sample_call (fold do_op ops s)" for ops s
    by (induction ops arbitrary: s) (auto intro: layout_reachable.step layout_step.client)
  have "layout_reachable sample_call sample_layout"
    unfolding sample_layout_def by (rule fold) (rule layout_reachable.start)
  moreover have "map lt_func (ly_layoutTasks sample_layout) = [Some 3, Some 7, Some 5]" by code_simp
  ultimately show ?thesis using layout_never_stalls [OF sample_call_clients, of sample_layout] by auto
qed

text \<open>
  What a frame does with tasks that take their time and leave the service alone: it runs them in
  order until more than 35 ms have passed, and leaves the others to a new timeout, or calls
  the drain callbacks.
\<close>

definition timed_call :: "('f \<Rightarrow> num) \<Rightarrow> 'f \<Rightarrow> ('f, 'f list) layouting \<Rightarrow> ('f, 'f list) layouting option" where
  "timed_call cost f s = Some (do_op (Other (\<lambda>l. l @ [f]) (cost f)) s)"

text \<open>The tasks of a frame, given the time that is already used.\<close>

fun frame_share :: "('f \<Rightarrow> num) \<Rightarrow> num \<Rightarrow> 'f list \<Rightarrow> nat" where
  "frame_share cost used [] = 0"
| "frame_share cost used (f # fs) =
     (if used + \<bar>cost f\<bar> > MAX_TASK_DURATION_MS then 1 else Suc (frame_share cost (used + \<bar>cost f\<bar>) fs))"

lemma frame_share_le: "frame_share cost used fs \<le> length fs"
  by (induction fs arbitrary: used) auto

lemma frame_share_pos: "fs \<noteq> [] \<Longrightarrow> 0 < frame_share cost used fs"
  by (cases fs) auto

definition time_of :: "('f \<Rightarrow> num) \<Rightarrow> 'f list \<Rightarrow> num" where
  "time_of cost fs = sum_list (map (\<lambda>f. \<bar>cost f\<bar>) fs)"

lemma frame_loop_timed:
  fixes cost :: "'f \<Rightarrow> num" and start :: num
  assumes "map lt_func (ly_layoutTasks s) = map Some fs"
  defines "k \<equiv> frame_share cost (ly_now s - start) fs"
  shows "frame_loop (timed_call cost) start s =
    Some (fs \<noteq> [] \<and> ly_now s - start + time_of cost (take k fs) > MAX_TASK_DURATION_MS,
      s\<lparr>ly_layoutTasks := drop k (ly_layoutTasks s), ly_rest := ly_rest s @ take k fs, ly_now := ly_now s + time_of cost (take k fs)\<rparr>)"
  using assms(1) unfolding k_def
proof (induction fs arbitrary: s)
  case Nil
  then show ?case by (subst frame_loop.simps) (simp add: runTheTopTask_def time_of_def)
next
  case (Cons f fs)
  then obtain t ts where t: "ly_layoutTasks s = t # ts" "lt_func t = Some f" "map lt_func ts = map Some fs" by auto
  let ?s = "s\<lparr>ly_layoutTasks := ts, ly_rest := ly_rest s @ [f], ly_now := ly_now s + \<bar>cost f\<bar>\<rparr>"
  have top: "runTheTopTask (timed_call cost) s = Some (True, ?s)"
    using t by (simp add: runTheTopTask_def timed_call_def)
  show ?case
  proof (cases "ly_now s - start + \<bar>cost f\<bar> > MAX_TASK_DURATION_MS")
    case True
    then show ?thesis using top t
      by (subst frame_loop.simps) (simp add: reachedTaskTimeout_def time_of_def algebra_simps)
  next
    case False
    have "frame_loop (timed_call cost) start s = frame_loop (timed_call cost) start ?s"
      using top False by (subst frame_loop.simps) (simp add: reachedTaskTimeout_def algebra_simps)
    moreover have "fs = [] \<Longrightarrow> \<not> MAX_TASK_DURATION_MS < ly_now s - start + \<bar>cost f\<bar>" using False by simp
    ultimately show ?thesis
      using Cons.IH [of ?s] t False by (auto simp: time_of_def algebra_simps)
  qed
qed

lemma run_drains_timed:
  "run_drains (timed_call cost) cbs s = Some (s\<lparr>ly_rest := ly_rest s @ cbs, ly_now := ly_now s + time_of cost cbs\<rparr>)"
  by (induction cbs arbitrary: s) (simp_all add: timed_call_def time_of_def algebra_simps)

lemma frame_share_time:
  fixes cost :: "'f \<Rightarrow> num" and used :: num and fs :: "'f list"
  assumes "used \<le> MAX_TASK_DURATION_MS"
  defines "k \<equiv> frame_share cost used fs"
  shows "used + time_of cost (take (k - 1) fs) \<le> MAX_TASK_DURATION_MS"
    and "used + time_of cost (take k fs) \<le> MAX_TASK_DURATION_MS \<Longrightarrow> k = length fs"
  using assms(1) unfolding k_def
proof (induction fs arbitrary: used)
  case (Cons f fs)
  case 1
  show ?case
  proof (cases "fs = [] \<or> used + \<bar>cost f\<bar> > MAX_TASK_DURATION_MS")
    case True
    then show ?thesis using 1 by (auto simp: time_of_def)
  next
    case False
    then obtain j where "frame_share cost (used + \<bar>cost f\<bar>) fs = Suc j" using frame_share_pos gr0_conv_Suc by blast
    then show ?thesis using Cons(1) [of "used + \<bar>cost f\<bar>"] False by (simp add: time_of_def algebra_simps)
  qed
  case 2
  show ?case
  proof (cases "used + \<bar>cost f\<bar> > MAX_TASK_DURATION_MS")
    case True
    then show ?thesis using 2(1) by (simp add: time_of_def)
  next
    case False
    then show ?thesis using 2(1) Cons(2) [of "used + \<bar>cost f\<bar>"] by (simp add: time_of_def add.assoc)
  qed
qed (simp_all add: time_of_def)

text \<open>
  A frame runs the pending tasks in order, at least one, and starts none after 35 ms. If the
  time is over, the tasks that are left stay in order and a timeout is set for them;
  otherwise all have run and the drain callbacks are called, in order and once.
\<close>

theorem frame_runs_share:
  fixes cost :: "'f \<Rightarrow> num" and fs :: "'f list"
  assumes "map lt_func (ly_layoutTasks s) = map Some fs" and "fs \<noteq> []"
  defines "k \<equiv> frame_share cost 0 fs"
  shows "\<exists>s'. frame_callback (timed_call cost) s = Some s' \<and> 0 < k \<and> time_of cost (take (k - 1) fs) \<le> MAX_TASK_DURATION_MS \<and>
    ly_layoutTasks s' = drop k (ly_layoutTasks s) \<and>
    (if time_of cost (take k fs) > MAX_TASK_DURATION_MS
     then ly_rest s' = ly_rest s @ take k fs \<and> ly_drainCallbacks s' = ly_drainCallbacks s \<and> ly_layoutTaskFlush s' \<noteq> None
     else k = length fs \<and> ly_rest s' = ly_rest s @ fs @ ly_drainCallbacks s \<and> ly_drainCallbacks s' = [])"
proof -
  let ?s1 = "s\<lparr>ly_requestedFrame := None, ly_layoutTasks := drop k (ly_layoutTasks s),
    ly_rest := ly_rest s @ take k fs, ly_now := ly_now s + time_of cost (take k fs)\<rparr>"
  have loop: "frame_loop (timed_call cost) (ly_now s) (s\<lparr>ly_requestedFrame := None\<rparr>) =
      Some (time_of cost (take k fs) > MAX_TASK_DURATION_MS, ?s1)"
    using frame_loop_timed [of "s\<lparr>ly_requestedFrame := None\<rparr>" fs cost "ly_now s"] assms by simp
  have pos: "0 < k" unfolding k_def by (rule frame_share_pos [OF assms(2)])
  have zero: "0 \<le> MAX_TASK_DURATION_MS" by (simp add: MAX_TASK_DURATION_MS_def)
  have share: "time_of cost (take (k - 1) fs) \<le> MAX_TASK_DURATION_MS"
    "time_of cost (take k fs) \<le> MAX_TASK_DURATION_MS \<Longrightarrow> k = length fs"
    using frame_share_time [OF zero, of cost fs] unfolding k_def by simp_all
  show ?thesis
  proof (cases "time_of cost (take k fs) > MAX_TASK_DURATION_MS")
    case True
    then have "frame_callback (timed_call cost) s = Some (scheduleLayouting ?s1)"
      using loop by (simp add: frame_callback_def Let_def)
    moreover have "ly_layoutTaskFlush (scheduleLayouting ?s1) \<noteq> None"
      by (auto simp: scheduleLayouting_def setupTimer_def setTimeout_ly_def Let_def)
    ultimately show ?thesis using True pos share(1) by simp
  next
    case False
    then have "frame_callback (timed_call cost) s = runDrainCallbacks (timed_call cost) ?s1"
      using loop by (simp add: frame_callback_def Let_def)
    then show ?thesis using False pos share by (simp add: runDrainCallbacks_def run_drains_timed)
  qed
qed

theorem frame_runs_share_witness:
  "\<exists>s'. frame_callback (timed_call (\<lambda>f. 20)) sample_layout = Some s' \<and>
    ly_rest s' = [3, 7] \<and> map lt_func (ly_layoutTasks s') = [Some 5] \<and> ly_layoutTaskFlush s' \<noteq> None"
proof -
  have tasks: "map lt_func (ly_layoutTasks sample_layout) = map Some [3, 7, 5]" by code_simp
  have "frame_share (\<lambda>f. 20) 0 [3 :: nat, 7, 5] = 2" "time_of (\<lambda>f. 20) (take 2 [3 :: nat, 7, 5]) > MAX_TASK_DURATION_MS"
    "ly_rest sample_layout = []" "map lt_func (drop 2 (ly_layoutTasks sample_layout)) = [Some 5]" by code_simp+
  then show ?thesis using frame_runs_share [OF tasks, of "\<lambda>f. 20"] by auto
qed

end
