(* ===== verification/Activity_Timing.thy ===== *)
theory Activity_Timing
  imports Prelude
begin

section \<open>The time line of an activity\<close>

text \<open>
  The arithmetic of the activities of the slide show, under
  \<open>browser/src/slideshow/engine/activities/\<close>: \<open>calcAcceleratedTime\<close> of \<open>ActivityBase.ts\<close>, the
  position of an activity from the elapsed time in \<open>SimpleContinuousActivityBase.ts\<close>
  (\<open>perform\<close>, \<open>calcTimeLag\<close>), and the interpolation between key times, \<open>KeyStopLerp\<close> of
  \<open>ContinuousKeyTimeActivityBase.ts\<close>.
\<close>

definition clampN :: "num \<Rightarrow> num \<Rightarrow> num \<Rightarrow> num" where
  "clampN nValue nMinimum nMaximum = min (max nValue nMinimum) nMaximum"

subsection \<open>Acceleration\<close>

definition accelerated_area :: "num \<Rightarrow> num \<Rightarrow> num \<Rightarrow> num" where
  "accelerated_area nAcc nDec nT =
     (if nT < nAcc then 1 / 2 * nT * nT / nAcc
      else 1 / 2 * nAcc +
        (if nT \<le> 1 - nDec then nT - nAcc
         else (1 - nAcc - nDec) +
           (let nTRelative = nT - 1 + nDec in nTRelative - 1 / 2 * nTRelative * nTRelative / nDec)))"

definition calcAcceleratedTime :: "num \<Rightarrow> num \<Rightarrow> num \<Rightarrow> num" where
  "calcAcceleratedTime nAcc nDec nT0 =
     (let nT = clampN nT0 0 1
      in if (nAcc > 0 \<or> nDec > 0) \<and> nAcc + nDec \<le> 1
         then accelerated_area nAcc nDec nT / (1 - 1 / 2 * nAcc - 1 / 2 * nDec)
         else nT)"

subsection \<open>The position on the time line\<close>

text \<open>
  The repeat count is \<open>None\<close> where \<open>isRepeatCountValid\<close> is false (a missing, zero or indefinite
  count). The result is the relative time, the number of repeats and whether the activity ends.
\<close>

definition simple_time :: "num option \<Rightarrow> bool \<Rightarrow> num \<Rightarrow> num \<times> num \<times> bool" where
  "simple_time nRepeatCount bAutoReverse nT0 =
     (let (bActivityEnding, nT) =
        (case nRepeatCount of
           None \<Rightarrow> (False, nT0)
         | Some c \<Rightarrow>
             let nEffectiveRepeat = (if bAutoReverse then 2 * c else c)
             in if nEffectiveRepeat \<le> nT0 then (True, nEffectiveRepeat) else (False, nT0));
          nRepeats = \<lfloor>nT\<rfloor>;
          nFractional = nT - of_int nRepeats
      in if bAutoReverse
         then (if js_imod nRepeats 2 \<noteq> 0 then 1 - nFractional else nFractional, of_int nRepeats / 2, bActivityEnding)
         else case nRepeatCount of
                Some c \<Rightarrow> if of_int nRepeats \<ge> c then (1, of_int nRepeats - 1, bActivityEnding)
                          else (nFractional, of_int nRepeats, bActivityEnding)
              | None \<Rightarrow> (nFractional, of_int nRepeats, bActivityEnding))"

definition time_lag :: "num \<Rightarrow> num \<Rightarrow> nat \<Rightarrow> num \<Rightarrow> num" where
  "time_lag nCurrElapsedTime nMinSimpleDuration nCurrPerformCalls nMinNumberOfFrames =
     (let nFractionElapsedTime = nCurrElapsedTime / nMinSimpleDuration;
          nFractionRequiredCalls = of_nat nCurrPerformCalls / nMinNumberOfFrames
      in if nFractionElapsedTime < nFractionRequiredCalls then 0
         else (nFractionElapsedTime - nFractionRequiredCalls) * nMinSimpleDuration)"

subsection \<open>Key times\<close>

record key_stop_lerp =
  ks_aKeyStopList :: "num list"
  ks_nLastIndex :: nat
  ks_nKeyStopDistance :: num

definition first_distance :: "num list \<Rightarrow> num" where
  "first_distance xs = (let d = xs ! 1 - xs ! 0 in if d \<le> 0 then 1 / 1000 else d)"

text \<open>The input check throws when there are less than two key times.\<close>

definition new_KeyStopLerp :: "num list \<Rightarrow> js_error + key_stop_lerp" where
  "new_KeyStopLerp aValueList =
     (if length aValueList \<le> 1 then Inl (ErrorMsg ''key stop vector must have two entries or more'')
      else Inr \<lparr>ks_aKeyStopList = aValueList, ks_nLastIndex = 0, ks_nKeyStopDistance = first_distance aValueList\<rparr>)"

definition ks_reset :: "key_stop_lerp \<Rightarrow> js_error + key_stop_lerp" where
  "ks_reset l = new_KeyStopLerp (ks_aKeyStopList l)"

definition nUpperBoundIndex :: "key_stop_lerp \<Rightarrow> nat" where
  "nUpperBoundIndex l = length (ks_aKeyStopList l) - 2"

text \<open>The \<open>do\<close> loop: one step, repeated while the key times coincide.\<close>

function lerp_advance :: "key_stop_lerp \<Rightarrow> key_stop_lerp" where
  "lerp_advance l =
     (let i = min (ks_nLastIndex l + 1) (nUpperBoundIndex l);
          d = ks_aKeyStopList l ! (i + 1) - ks_aKeyStopList l ! i;
          l1 = l\<lparr>ks_nLastIndex := i, ks_nKeyStopDistance := d\<rparr>
      in if d \<le> 0 \<and> i < nUpperBoundIndex l then lerp_advance l1 else l1)"
  by pat_completeness auto
termination
  by (relation "measure (\<lambda>l. nUpperBoundIndex l - ks_nLastIndex l)") (auto simp: nUpperBoundIndex_def)

declare lerp_advance.simps [simp del]

text \<open>
  The quotient may be by zero when the last two key times coincide: it is \<open>NaN\<close> or an infinity
  then; the model has the relative position \<open>None\<close> for \<open>NaN\<close>.
\<close>

definition lerp :: "num \<Rightarrow> key_stop_lerp \<Rightarrow> (nat \<times> num option) \<times> key_stop_lerp" where
  "lerp nAlpha l =
     (let l1 = (if nAlpha > ks_aKeyStopList l ! (ks_nLastIndex l + 1) then lerp_advance l else l);
          num = nAlpha - ks_aKeyStopList l1 ! ks_nLastIndex l1;
          d = ks_nKeyStopDistance l1;
          nRawLerp = (if d \<noteq> 0 then Some (clampN (num / d) 0 1)
                      else if num = 0 then None else Some (if num > 0 then 1 else 0))
      in ((ks_nLastIndex l1, nRawLerp), l1))"

subsection \<open>The accelerated time line is monotone\<close>

lemma area_low:
  assumes "0 \<le> t" and "t < a"
  shows "0 \<le> accelerated_area a d t" and "accelerated_area a d t \<le> a / 2"
proof -
  have "t * t \<le> a * a" using assms by (intro mult_mono) auto
  then have "t * t / a \<le> a" using assms by (simp add: pos_divide_le_eq)
  then show "accelerated_area a d t \<le> a / 2" using assms by (simp add: accelerated_area_def)
  show "0 \<le> accelerated_area a d t" using assms by (simp add: accelerated_area_def)
qed

lemma decelerate_mono:
  fixes r s d :: real
  assumes "0 \<le> r" and "r \<le> s" and "s \<le> d" and "0 < d"
  shows "r - 1 / 2 * r * r / d \<le> s - 1 / 2 * s * s / d"
proof -
  have "(s - r) * (s + r) \<le> (s - r) * (2 * d)" using assms by (intro mult_left_mono) auto
  then have "s * s - r * r \<le> 2 * (s - r) * d" by (simp add: algebra_simps)
  then have "(s * s - r * r) / d \<le> 2 * (s - r)" using assms(4) by (simp only: pos_divide_le_eq)
  then show ?thesis by (simp add: diff_divide_distrib)
qed

lemma area_high:
  assumes "1 - d < t" and "t \<le> 1" and "a \<le> t" and "0 < d"
  shows "1 - a / 2 - d \<le> accelerated_area a d t"
    and "accelerated_area a d t \<le> 1 - a / 2 - d / 2"
proof -
  define r where "r = t - 1 + d"
  have r: "0 \<le> r" "r \<le> d" using assms by (auto simp: r_def)
  have "accelerated_area a d t = 1 - a / 2 - d + (r - 1 / 2 * r * r / d)"
    using assms by (simp add: accelerated_area_def r_def Let_def)
  moreover have "0 \<le> r - 1 / 2 * r * r / d" using decelerate_mono [of 0 r d] r assms(4) by simp
  moreover have "r - 1 / 2 * r * r / d \<le> d / 2" using decelerate_mono [of r d d] r assms(4) by simp
  ultimately show "1 - a / 2 - d \<le> accelerated_area a d t" "accelerated_area a d t \<le> 1 - a / 2 - d / 2" by auto
qed

lemma area_mono:
  assumes "0 \<le> a" "0 \<le> d" "a + d \<le> 1" "0 \<le> s" "s \<le> t" "t \<le> 1"
  shows "accelerated_area a d s \<le> accelerated_area a d t"
proof -
  have mid: "accelerated_area a d x = x - a / 2" if "a \<le> x" "x \<le> 1 - d" for x
    using that by (simp add: accelerated_area_def field_simps)
  consider "t < a" | "s < a" "a \<le> t" "t \<le> 1 - d" | "s < a" "1 - d < t" | "a \<le> s" "t \<le> 1 - d"
    | "a \<le> s" "s \<le> 1 - d" "1 - d < t" | "1 - d < s" using assms by linarith
  then show ?thesis
  proof cases
    case 1
    then have "s * s \<le> t * t" using assms by (intro mult_mono) auto
    then show ?thesis using 1 assms by (simp add: accelerated_area_def divide_right_mono)
  next
    case 2
    then show ?thesis using area_low(2) [of s a d] mid [of t] assms by simp
  next
    case 3
    then show ?thesis using area_low(2) [of s a d] area_high(1) [of d t a] assms by simp
  next
    case 4
    then show ?thesis using mid [of s] mid [of t] assms by simp
  next
    case 5
    then show ?thesis using mid [of s] area_high(1) [of d t a] assms by simp
  next
    case 6
    have r: "s - 1 + d - 1 / 2 * (s - 1 + d) * (s - 1 + d) / d \<le> t - 1 + d - 1 / 2 * (t - 1 + d) * (t - 1 + d) / d"
      using 6 assms by (intro decelerate_mono) auto
    have "accelerated_area a d x = 1 / 2 * a + (1 - a - d) + (x - 1 + d - 1 / 2 * (x - 1 + d) * (x - 1 + d) / d)"
      if "1 - d < x" for x using that assms by (simp add: accelerated_area_def Let_def)
    from this [of s] this [of t] r 6 assms(5) show ?thesis by simp
  qed
qed

lemma area_ends:
  assumes "0 \<le> a" "0 \<le> d" "a + d \<le> 1"
  shows "accelerated_area a d 0 = 0" and "accelerated_area a d 1 = 1 - 1 / 2 * a - 1 / 2 * d"
  using assms by (auto simp: accelerated_area_def Let_def)

subsection \<open>Interpolation between key times\<close>

lemma lerp_advance_forward:
  "ks_nLastIndex l \<le> nUpperBoundIndex l \<Longrightarrow> ks_nLastIndex l \<le> ks_nLastIndex (lerp_advance l) \<and>
   ks_nLastIndex (lerp_advance l) \<le> nUpperBoundIndex l \<and> ks_aKeyStopList (lerp_advance l) = ks_aKeyStopList l"
proof (induction l rule: lerp_advance.induct)
  case (1 l)
  define i where "i = min (ks_nLastIndex l + 1) (nUpperBoundIndex l)"
  define d where "d = ks_aKeyStopList l ! (i + 1) - ks_aKeyStopList l ! i"
  define l1 where "l1 = l\<lparr>ks_nLastIndex := i, ks_nKeyStopDistance := d\<rparr>"
  have l1: "ks_nLastIndex l \<le> ks_nLastIndex l1" "ks_nLastIndex l1 \<le> nUpperBoundIndex l"
    "nUpperBoundIndex l1 = nUpperBoundIndex l" "ks_aKeyStopList l1 = ks_aKeyStopList l"
    using 1(2) by (auto simp: l1_def i_def nUpperBoundIndex_def)
  have step: "lerp_advance l = (if d \<le> 0 \<and> i < nUpperBoundIndex l then lerp_advance l1 else l1)"
    by (subst lerp_advance.simps) (simp only: Let_def i_def d_def l1_def)
  show ?case
  proof (cases "d \<le> 0 \<and> i < nUpperBoundIndex l")
    case True
    have "ks_nLastIndex l1 \<le> ks_nLastIndex (lerp_advance l1) \<and>
        ks_nLastIndex (lerp_advance l1) \<le> nUpperBoundIndex l1 \<and> ks_aKeyStopList (lerp_advance l1) = ks_aKeyStopList l1"
      by (rule 1(1) [OF i_def d_def l1_def True]) (simp add: l1)
    with True l1 step show ?thesis by auto
  qed (use l1 step in auto)
qed

subsection \<open>Properties\<close>

text \<open>
  For all fractions of acceleration and deceleration the accelerated time maps 0 to 0 and
  1 to 1, never runs backwards, and stays between 0 and 1.
\<close>

theorem acceleration_reparametrises:
  assumes "0 \<le> nAcc" and "0 \<le> nDec"
  shows "calcAcceleratedTime nAcc nDec 0 = 0 \<and> calcAcceleratedTime nAcc nDec 1 = 1 \<and>
    (s \<le> t \<longrightarrow> calcAcceleratedTime nAcc nDec s \<le> calcAcceleratedTime nAcc nDec t) \<and>
    0 \<le> calcAcceleratedTime nAcc nDec t \<and> calcAcceleratedTime nAcc nDec t \<le> 1"
proof (cases "(nAcc > 0 \<or> nDec > 0) \<and> nAcc + nDec \<le> 1")
  case True
  define c where "c = 1 - 1 / 2 * nAcc - 1 / 2 * nDec"
  have c: "0 < c" using True by (simp add: c_def)
  define A where "A = (\<lambda>x. accelerated_area nAcc nDec (clampN x 0 1))"
  have calc: "calcAcceleratedTime nAcc nDec x = A x / c" for x
    using True by (simp add: calcAcceleratedTime_def A_def c_def Let_def)
  have mono: "A x \<le> A y" if "clampN x 0 1 \<le> clampN y 0 1" for x y
    unfolding A_def using assms True that by (intro area_mono) (auto simp: clampN_def)
  have ends: "A 0 = 0" "A 1 = c"
    using area_ends [OF assms] True by (simp_all add: A_def c_def clampN_def)
  have "s \<le> t \<longrightarrow> A s \<le> A t" using mono [of s t] by (auto simp: clampN_def)
  moreover have "A 0 \<le> A t" "A t \<le> A 1" using mono [of 0 t] mono [of t 1] by (auto simp: clampN_def)
  ultimately show ?thesis using c ends by (auto simp: calc divide_right_mono)
qed (auto simp: calcAcceleratedTime_def clampN_def)

theorem acceleration_reparametrises_witness:
  "calcAcceleratedTime (1 / 2) (1 / 4) (1 / 4) \<le> calcAcceleratedTime (1 / 2) (1 / 4) (7 / 8)"
  using acceleration_reparametrises [of "1 / 2" "1 / 4" "1 / 4" "7 / 8"] by simp

text \<open>
  The relative time of an activity is between 0 and 1; an activity with a whole number of
  repeats and no reversal ends exactly on its last value, in its last repeat, and not before.
\<close>

theorem activity_position:
  assumes "0 \<le> nT" and "simple_time nRepeatCount bAutoReverse nT = (nRelative, nRepeats, bEnding)"
    and "nRepeatCount = None \<or> (\<exists>c > 0. nRepeatCount = Some c)"
  shows "0 \<le> nRelative \<and> nRelative \<le> 1 \<and>
    (\<forall>k. nRepeatCount = Some (of_nat (Suc k)) \<and> \<not> bAutoReverse \<longrightarrow>
       bEnding = (of_nat (Suc k) \<le> nT) \<and> (bEnding \<longrightarrow> nRelative = 1 \<and> nRepeats = of_nat k) \<and>
       (\<not> bEnding \<longrightarrow> nT = nRepeats + nRelative \<and> nRelative < 1))"
proof -
  have frac: "0 \<le> x - of_int \<lfloor>x\<rfloor>" "x - of_int \<lfloor>x\<rfloor> < 1" for x :: real by linarith+
  have "nRelative = 1 \<or> (\<exists>x. nRelative = x - of_int \<lfloor>x\<rfloor> \<or> nRelative = 1 - (x - of_int \<lfloor>x\<rfloor>))"
    using assms(2) unfolding simple_time_def Let_def by (auto split: option.splits if_splits prod.splits)
  then have range: "0 \<le> nRelative \<and> nRelative \<le> 1" using frac by (auto simp: less_imp_le)
  have "bEnding = (of_nat (Suc k) \<le> nT) \<and> (bEnding \<longrightarrow> nRelative = 1 \<and> nRepeats = of_nat k) \<and>
       (\<not> bEnding \<longrightarrow> nT = nRepeats + nRelative \<and> nRelative < 1)"
    if "nRepeatCount = Some (of_nat (Suc k))" "\<not> bAutoReverse" for k
  proof (cases "real (Suc k) \<le> nT")
    case True
    have "\<lfloor>1 + real k\<rfloor> = 1 + int k" by linarith
    with True that assms(2) show ?thesis by (auto simp: simple_time_def Let_def)
  next
    case False
    then have "\<not> real (Suc k) \<le> of_int \<lfloor>nT\<rfloor>" by linarith
    with False that assms(2) frac(2) [of nT] show ?thesis by (auto simp: simple_time_def Let_def)
  qed
  with range show ?thesis by blast
qed

theorem activity_position_witness:
  "(\<lambda>(rel, rep, ending). rel = 1 \<and> rep = 1 \<and> ending) (simple_time (Some 2) False (5 / 2))"
proof -
  obtain rel rep ending where s: "simple_time (Some 2) False (5 / 2) = (rel, rep, ending)" by (metis prod_cases3)
  show ?thesis
    using activity_position [OF _ s] s by (auto dest!: spec [of _ "1 :: nat"])
qed

text \<open>
  The interpolation never goes back: a time before the interval it has reached is reported
  at the start of that interval, whatever earlier interval it lies in, although the time line
  starts over with every repeat.
\<close>

theorem lerp_does_not_rewind:
  assumes "ks_nLastIndex l \<le> nUpperBoundIndex l" and "0 < ks_nKeyStopDistance l"
    and "ks_aKeyStopList l ! ks_nLastIndex l < ks_aKeyStopList l ! (ks_nLastIndex l + 1)"
  shows "ks_nLastIndex l \<le> fst (fst (lerp nAlpha l)) \<and>
    (nAlpha \<le> ks_aKeyStopList l ! ks_nLastIndex l \<longrightarrow> lerp nAlpha l = ((ks_nLastIndex l, Some 0), l))"
proof -
  have "nAlpha \<le> ks_aKeyStopList l ! ks_nLastIndex l \<Longrightarrow>
      (nAlpha - ks_aKeyStopList l ! ks_nLastIndex l) / ks_nKeyStopDistance l \<le> 0"
    using assms(2) by (simp add: divide_nonpos_pos)
  then show ?thesis
    using assms lerp_advance_forward [OF assms(1)] by (auto simp: lerp_def Let_def clampN_def)
qed

theorem lerp_does_not_rewind_witness:
  "\<exists>l. lerp (3 / 4) \<lparr>ks_aKeyStopList = [0, 1 / 2, 1], ks_nLastIndex = 0, ks_nKeyStopDistance = 1 / 2\<rparr> =
     ((1, Some (1 / 2)), l) \<and> fst (lerp (1 / 4) l) = (1, Some 0)"
proof -
  define l where "l = \<lparr>ks_aKeyStopList = [0, 1 / 2, 1 :: num], ks_nLastIndex = 1, ks_nKeyStopDistance = 1 / 2\<rparr>"
  have "lerp (3 / 4) \<lparr>ks_aKeyStopList = [0, 1 / 2, 1], ks_nLastIndex = 0, ks_nKeyStopDistance = 1 / 2\<rparr> =
      ((1, Some (1 / 2)), l)"
    unfolding l_def by code_simp
  moreover have "fst (lerp (1 / 4) l) = (1, Some 0)"
    using lerp_does_not_rewind [of l "1 / 4"] by (simp add: l_def nUpperBoundIndex_def)
  ultimately show ?thesis by blast
qed

end
