(* ===== verification/Activity_Values.thy ===== *)
theory Activity_Values
  imports Activity_Timing
begin

section \<open>Activities\<close>

text \<open>
  The activities under \<open>browser/src/slideshow/engine/activities/\<close>: \<open>ActivityBase.ts\<close>, the continuous and the
  discrete ones on top of it, and the values they perform (\<open>FromToByActivity.ts\<close>, \<open>ValueListActivity.ts\<close>,
  \<open>SetActivity.ts\<close>, \<open>SimpleActivity.ts\<close>). \<open>Queue_wakeup\<close> sets the timeout of the wake-up event and adds it to the queue. What an activity calls of its animation and of the event queue is
  appended to \<open>ac_calls\<close>, in order; the value that an animated property has is an argument. The time that has
  elapsed since an activity was started is read from a timer (\<open>Elapsed_Time\<close>) and is an argument of \<open>perform\<close>.
  A subclass adds its fields as \<open>ac_sub\<close> and passes its methods.
\<close>

subsection \<open>The base\<close>

text \<open>The wake-up timeout is \<open>None\<close> for \<open>NaN\<close>.\<close>

datatype 'v act_call = An_start | An_perform 'v | An_end | Queue_endEvent | Dispose_endEvent | Queue_wakeup "num option" | Wakeup_setNextTimeout num | Start_wakeup | Dispose_wakeup | Reset_timer

record ('v, 's) activity =
  ac_bHasEndEvent :: bool
  ac_nRepeats :: "num option"
  ac_nAccelerationFraction :: num
  ac_nDecelerationFraction :: num
  ac_bAutoReverse :: bool
  ac_bFirstPerformCall :: bool
  ac_bIsActive :: bool
  ac_calls :: "'v act_call list"
  ac_sub :: 's

abbreviation emit :: "'v act_call \<Rightarrow> ('v, 's) activity \<Rightarrow> ('v, 's) activity" where
  "emit c a \<equiv> a\<lparr>ac_calls := ac_calls a @ [c]\<rparr>"

record ('v, 's) act_hooks =
  hk_startAnimation :: "('v, 's) activity \<Rightarrow> ('v, 's) activity"
  hk_performEnd :: "('v, 's) activity \<Rightarrow> ('v, 's) activity"
  hk_endAnimation :: "('v, 's) activity \<Rightarrow> ('v, 's) activity"

definition new_ActivityBase :: "bool \<Rightarrow> num option \<Rightarrow> num \<Rightarrow> num \<Rightarrow> bool \<Rightarrow> 's \<Rightarrow> ('v, 's) activity" where
  "new_ActivityBase bEndEvent nRepeatCount nAcc nDec bAutoReverse s =
     \<lparr>ac_bHasEndEvent = bEndEvent, ac_nRepeats = nRepeatCount, ac_nAccelerationFraction = nAcc, ac_nDecelerationFraction = nDec,
      ac_bAutoReverse = bAutoReverse, ac_bFirstPerformCall = True, ac_bIsActive = True, ac_calls = [], ac_sub = s\<rparr>"

definition base_activate :: "bool \<Rightarrow> ('v, 's) activity \<Rightarrow> ('v, 's) activity" where
  "base_activate bEndEvent a = a\<lparr>ac_bHasEndEvent := bEndEvent, ac_bFirstPerformCall := True, ac_bIsActive := True\<rparr>"

definition base_dispose :: "('v, 's) activity \<Rightarrow> ('v, 's) activity" where
  "base_dispose a =
     (let a1 = a\<lparr>ac_bIsActive := False\<rparr>
      in (if ac_bHasEndEvent a1 then emit Dispose_endEvent a1 else a1)\<lparr>ac_bHasEndEvent := False\<rparr>)"

definition isDisposed :: "('v, 's) activity \<Rightarrow> bool" where
  "isDisposed a \<longleftrightarrow> \<not> ac_bIsActive a \<and> \<not> ac_bHasEndEvent a"

definition base_perform :: "('v, 's) activity \<Rightarrow> js_error + bool" where
  "base_perform a =
     (if \<not> ac_bIsActive a then Inr False
      else if ac_bFirstPerformCall a then Inl (ErrorMsg ''ActivityBase.perform: assertion (!this.FirstPerformCall) failed'')
      else Inr True)"

definition base_calcTimeLag :: "('v, 's) act_hooks \<Rightarrow> ('v, 's) activity \<Rightarrow> num \<times> ('v, 's) activity" where
  "base_calcTimeLag H a =
     (0, if ac_bIsActive a \<and> ac_bFirstPerformCall a then hk_startAnimation H (a\<lparr>ac_bFirstPerformCall := False\<rparr>) else a)"

definition act_dequeued :: "('v, 's) act_hooks \<Rightarrow> ('v, 's) activity \<Rightarrow> ('v, 's) activity" where
  "act_dequeued H a = (if \<not> ac_bIsActive a then hk_endAnimation H a else a)"

definition endActivity :: "('v, 's) activity \<Rightarrow> ('v, 's) activity" where
  "endActivity a =
     (let a1 = a\<lparr>ac_bIsActive := False\<rparr>
      in (if ac_bHasEndEvent a1 then emit Queue_endEvent a1 else a1)\<lparr>ac_bHasEndEvent := False\<rparr>)"

definition isRepeatCountValid :: "('v, 's) activity \<Rightarrow> bool" where
  "isRepeatCountValid a \<longleftrightarrow> ac_nRepeats a \<noteq> None \<and> ac_nRepeats a \<noteq> Some 0"

definition act_end :: "('v, 's) act_hooks \<Rightarrow> ('v, 's) activity \<Rightarrow> ('v, 's) activity" where
  "act_end H a =
     (if \<not> ac_bIsActive a \<or> isDisposed a then a
      else let a1 = (if ac_bFirstPerformCall a then hk_startAnimation H (a\<lparr>ac_bFirstPerformCall := False\<rparr>) else a)
           in endActivity (hk_endAnimation H (hk_performEnd H a1)))"

definition accelerated :: "('v, 's) activity \<Rightarrow> num \<Rightarrow> num" where
  "accelerated a nT = calcAcceleratedTime (ac_nAccelerationFraction a) (ac_nDecelerationFraction a) nT"

subsection \<open>Continuous activities\<close>

record 'r continuous =
  ct_nMinSimpleDuration :: num
  ct_nMinNumberOfFrames :: num
  ct_nCurrPerformCalls :: nat
  ct_rest :: 'r

text \<open>\<open>SimpleContinuousActivityBase\<close>; the position on the time line is \<open>simple_time\<close>.\<close>

definition continuous_calcTimeLag ::
    "('v, 'r continuous) act_hooks \<Rightarrow> num \<Rightarrow> ('v, 'r continuous) activity \<Rightarrow> num \<times> ('v, 'r continuous) activity" where
  "continuous_calcTimeLag H nCurrElapsedTime a =
     (let a1 = snd (base_calcTimeLag H a)
      in (if \<not> ac_bIsActive a1 then 0
          else time_lag nCurrElapsedTime (ct_nMinSimpleDuration (ac_sub a1)) (ct_nCurrPerformCalls (ac_sub a1)) (ct_nMinNumberOfFrames (ac_sub a1)), a1))"

definition continuous_perform ::
    "(num \<Rightarrow> num \<Rightarrow> ('v, 'r continuous) activity \<Rightarrow> js_error + ('v, 'r continuous) activity) \<Rightarrow> num \<Rightarrow>
     ('v, 'r continuous) activity \<Rightarrow> js_error + bool \<times> ('v, 'r continuous) activity" where
  "continuous_perform simplePerform nCurrElapsedTime a =
     (case base_perform a of
        Inl e \<Rightarrow> Inl e
      | Inr False \<Rightarrow> Inr (False, a)
      | Inr True \<Rightarrow>
          let (nRelativeSimpleTime, nRepeats, bActivityEnding) =
                simple_time (if isRepeatCountValid a then ac_nRepeats a else None) (ac_bAutoReverse a)
                  (nCurrElapsedTime / ct_nMinSimpleDuration (ac_sub a))
          in case simplePerform nRelativeSimpleTime nRepeats a of
               Inl e \<Rightarrow> Inl e
             | Inr a1 \<Rightarrow>
                 let a2 = (if bActivityEnding then endActivity a1 else a1);
                     a3 = a2\<lparr>ac_sub := (ac_sub a2)\<lparr>ct_nCurrPerformCalls := ct_nCurrPerformCalls (ac_sub a2) + 1\<rparr>\<rparr>
                 in Inr (ac_bIsActive a3, a3))"

definition continuous_simplePerform where
  "continuous_simplePerform hook nSimpleTime nRepeatCount a = hook (accelerated a nSimpleTime) nRepeatCount a"

definition continuous_startAnimation :: "('v, 'r continuous) activity \<Rightarrow> ('v, 'r continuous) activity" where
  "continuous_startAnimation a = emit Reset_timer a"

text \<open>With key times: the rest of the activity is the \<open>aLerper\<close>.\<close>

definition new_keytime_lerper :: "num list \<Rightarrow> js_error + key_stop_lerp" where
  "new_keytime_lerper aDiscreteTimes =
     (if \<not> length aDiscreteTimes > 1
      then Inl (ErrorMsg ''ContinuousKeyTimeActivityBase constructor: assertion (aDiscreteTimes.length > 1) failed'')
      else if aDiscreteTimes ! 0 \<noteq> 0
      then Inl (ErrorMsg ''ContinuousKeyTimeActivityBase constructor: assertion (aDiscreteTimes.front() == 0.0) failed'')
      else if \<not> aDiscreteTimes ! (length aDiscreteTimes - 1) \<le> 1
      then Inl (ErrorMsg ''ContinuousKeyTimeActivityBase constructor: assertion (aDiscreteTimes.back() <= 1.0) failed'')
      else new_KeyStopLerp aDiscreteTimes)"

definition keytime_activate ::
    "bool \<Rightarrow> ('v, key_stop_lerp continuous) activity \<Rightarrow> js_error + ('v, key_stop_lerp continuous) activity" where
  "keytime_activate bEndEvent a =
     (let a1 = base_activate bEndEvent a
      in case ks_reset (ct_rest (ac_sub a1)) of
           Inl e \<Rightarrow> Inl e
         | Inr l \<Rightarrow> Inr (a1\<lparr>ac_sub := (ac_sub a1)\<lparr>ct_rest := l\<rparr>\<rparr>))"

definition keytime_simplePerform ::
    "(nat \<Rightarrow> num option \<Rightarrow> num \<Rightarrow> ('v, key_stop_lerp continuous) activity \<Rightarrow> js_error + ('v, key_stop_lerp continuous) activity) \<Rightarrow>
     num \<Rightarrow> num \<Rightarrow> ('v, key_stop_lerp continuous) activity \<Rightarrow> js_error + ('v, key_stop_lerp continuous) activity" where
  "keytime_simplePerform hook nSimpleTime nRepeatCount a =
     (let ((nIndex, nLerp), l) = lerp (accelerated a nSimpleTime) (ct_rest (ac_sub a))
      in hook nIndex nLerp nRepeatCount (a\<lparr>ac_sub := (ac_sub a)\<lparr>ct_rest := l\<rparr>\<rparr>))"

subsection \<open>Discrete activities\<close>

record 'r discrete =
  ds_bHasWakeupEvent :: bool
  ds_aDiscreteTimes :: "num list"
  ds_nMinSimpleDuration :: num
  ds_nCurrPerformCalls :: nat
  ds_rest :: 'r

definition discrete_activate :: "bool \<Rightarrow> ('v, 'r discrete) activity \<Rightarrow> ('v, 'r discrete) activity" where
  "discrete_activate bEndEvent a =
     (let a1 = base_activate bEndEvent a
      in emit (Wakeup_setNextTimeout 0) (a1\<lparr>ac_sub := (ac_sub a1)\<lparr>ds_bHasWakeupEvent := True, ds_nCurrPerformCalls := 0\<rparr>\<rparr>))"

text \<open>The remainder of a division by zero is \<open>NaN\<close>, here \<open>None\<close>.\<close>

definition calcFrameIndex :: "bool \<Rightarrow> nat \<Rightarrow> nat \<Rightarrow> nat option" where
  "calcFrameIndex bAutoReverse nCurrCalls nVectorSize =
     (if nVectorSize = 0 then None
      else if bAutoReverse
      then (let nFrameIndex = nCurrCalls mod (2 * nVectorSize)
            in Some (if nFrameIndex \<ge> nVectorSize then 2 * nVectorSize - nFrameIndex else nFrameIndex))
      else Some (nCurrCalls mod nVectorSize))"

definition calcRepeatCount :: "bool \<Rightarrow> nat \<Rightarrow> nat \<Rightarrow> nat" where
  "calcRepeatCount bAutoReverse nCurrCalls nVectorSize =
     (if bAutoReverse then nCurrCalls div (2 * nVectorSize) else nCurrCalls div nVectorSize)"

text \<open>
  The frame is performed; then the wake-up event is queued for the next one, or the activity ends. With no
  discrete times the reached repeat count is infinite, and the repeat count of the frame is not read by the hooks.
\<close>

definition discrete_perform ::
    "(nat option \<Rightarrow> nat \<Rightarrow> ('v, 'r discrete) activity \<Rightarrow> js_error + ('v, 'r discrete) activity) \<Rightarrow>
     ('v, 'r discrete) activity \<Rightarrow> js_error + bool \<times> ('v, 'r discrete) activity" where
  "discrete_perform performDiscreteHook a =
     (case base_perform a of
        Inl e \<Rightarrow> Inl e
      | Inr False \<Rightarrow> Inr (False, a)
      | Inr True \<Rightarrow>
          let nVectorSize = length (ds_aDiscreteTimes (ac_sub a)); k = ds_nCurrPerformCalls (ac_sub a)
          in case performDiscreteHook (calcFrameIndex (ac_bAutoReverse a) k nVectorSize) (calcRepeatCount (ac_bAutoReverse a) k nVectorSize) a of
               Inl e \<Rightarrow> Inl e
             | Inr a1 \<Rightarrow>
                 let k' = ds_nCurrPerformCalls (ac_sub a1) + 1;
                     a2 = a1\<lparr>ac_sub := (ac_sub a1)\<lparr>ds_nCurrPerformCalls := k'\<rparr>\<rparr>;
                     bMore = (\<not> isRepeatCountValid a2 \<or>
                       nVectorSize \<noteq> 0 \<and> of_nat k' / of_nat nVectorSize / (if ac_bAutoReverse a2 then 2 else 1) < the (ac_nRepeats a2))
                 in if bMore
                    then let nCurrentRepeatTime = Option.bind (calcFrameIndex (ac_bAutoReverse a2) k' nVectorSize)
                               (\<lambda>i. js_nth (ds_aDiscreteTimes (ac_sub a2)) (int i));
                             nNextTimeout = map_option (\<lambda>t. ds_nMinSimpleDuration (ac_sub a2) *
                               (of_nat (calcRepeatCount (ac_bAutoReverse a2) k' nVectorSize) + accelerated a2 t)) nCurrentRepeatTime
                         in if ds_bHasWakeupEvent (ac_sub a2) then Inr (False, emit (Queue_wakeup nNextTimeout) a2) else Inl TypeError
                    else Inr (False, endActivity (a2\<lparr>ac_sub := (ac_sub a2)\<lparr>ds_bHasWakeupEvent := False\<rparr>\<rparr>)))"

definition discrete_dispose :: "('v, 'r discrete) activity \<Rightarrow> ('v, 'r discrete) activity" where
  "discrete_dispose a =
     (let a1 = (if ds_bHasWakeupEvent (ac_sub a) then emit Dispose_wakeup a else a)
      in base_dispose (a1\<lparr>ac_sub := (ac_sub a1)\<lparr>ds_bHasWakeupEvent := False\<rparr>\<rparr>))"

subsection \<open>Values\<close>

text \<open>
  The operations of the type of the property, the interpolator and the formula of the node. The position between
  two values is \<open>None\<close> for \<open>NaN\<close>.
\<close>

record 'v value_ops =
  vo_equal :: "'v \<Rightarrow> 'v \<Rightarrow> bool"
  vo_add :: "'v \<Rightarrow> 'v \<Rightarrow> 'v"
  vo_scale :: "num \<Rightarrow> 'v \<Rightarrow> 'v"
  vo_interpolate :: "'v \<Rightarrow> 'v \<Rightarrow> num option \<Rightarrow> 'v"
  vo_aFormula :: "('v \<Rightarrow> 'v) option"

definition apply_formula :: "'v value_ops \<Rightarrow> 'v \<Rightarrow> 'v" where
  "apply_formula vo v = (case vo_aFormula vo of None \<Rightarrow> v | Some f \<Rightarrow> f v)"

record 'v value_list =
  vl_aValueList :: "'v list"
  vl_bCumulative :: bool

definition vl_aLastValue :: "'v value_list \<Rightarrow> 'v" where
  "vl_aLastValue vl = last (vl_aValueList vl)"

definition new_ValueListActivity :: "'v list \<Rightarrow> bool \<Rightarrow> bool \<Rightarrow> js_error + 'v value_list" where
  "new_ValueListActivity aValueList bAnimation bAccumulate =
     (if \<not> bAnimation then Inl (ErrorMsg ''ValueListActivity constructor: invalid animation object'')
      else if aValueList = [] then Inl (ErrorMsg ''ValueListActivity: value list is empty'')
      else Inr \<lparr>vl_aValueList = aValueList, vl_bCumulative = bAccumulate\<rparr>)"

definition cumulated :: "'v value_ops \<Rightarrow> 'v value_list \<Rightarrow> num \<Rightarrow> 'v \<Rightarrow> 'v" where
  "cumulated vo vl nRepeatCount v =
     (if vl_bCumulative vl then vo_add vo v (vo_scale vo nRepeatCount (vl_aLastValue vl)) else v)"

definition list_initAnimatedElement :: "'v value_ops \<Rightarrow> 'v value_list \<Rightarrow> ('v, 's) activity \<Rightarrow> ('v, 's) activity" where
  "list_initAnimatedElement vo vl a = emit (An_perform (apply_formula vo (hd (vl_aValueList vl)))) a"

definition list_performContinuousHook ::
    "'v value_ops \<Rightarrow> 'v value_list \<Rightarrow> nat \<Rightarrow> num option \<Rightarrow> num \<Rightarrow> ('v, 's) activity \<Rightarrow> js_error + ('v, 's) activity" where
  "list_performContinuousHook vo vl nIndex nFractionalIndex nRepeatCount a =
     (if isDisposed a then Inr a
      else if \<not> nIndex + 1 < length (vl_aValueList vl)
      then Inl (ErrorMsg ''ValueListActivity.performContinuousHook: assertion (nIndex + 1 < this.aValueList.length) failed'')
      else Inr (emit (An_perform (apply_formula vo (cumulated vo vl nRepeatCount
        (vo_interpolate vo (vl_aValueList vl ! nIndex) (vl_aValueList vl ! (nIndex + 1)) nFractionalIndex)))) a))"

text \<open>A frame that is not a number is not below the length.\<close>

definition list_performDiscreteHook ::
    "'v value_ops \<Rightarrow> 'v value_list \<Rightarrow> nat option \<Rightarrow> nat \<Rightarrow> ('v, 's) activity \<Rightarrow> js_error + ('v, 's) activity" where
  "list_performDiscreteHook vo vl nFrame nRepeatCount a =
     (if isDisposed a then Inr a
      else case nFrame of
             Some i \<Rightarrow>
               if i < length (vl_aValueList vl)
               then Inr (emit (An_perform (apply_formula vo (cumulated vo vl (of_nat nRepeatCount) (vl_aValueList vl ! i)))) a)
               else Inl (ErrorMsg ''ValueListActivity.performDiscreteHook: assertion ( nFrame < this.aValueList.length) failed'')
           | None \<Rightarrow> Inl (ErrorMsg ''ValueListActivity.performDiscreteHook: assertion ( nFrame < this.aValueList.length) failed''))"

definition list_performEnd :: "'v value_ops \<Rightarrow> 'v value_list \<Rightarrow> ('v, 's) activity \<Rightarrow> ('v, 's) activity" where
  "list_performEnd vo vl a = emit (An_perform (apply_formula vo (vl_aLastValue vl))) a"

text \<open>The start: that of the base class, then the animation; a value list that is disposed does not start.\<close>

definition list_startAnimation :: "(('v, 's) activity \<Rightarrow> ('v, 's) activity) \<Rightarrow> ('v, 's) activity \<Rightarrow> ('v, 's) activity" where
  "list_startAnimation super a = (if isDisposed a then a else emit An_start (super a))"

definition discrete_startAnimation :: "('v, 'r discrete) activity \<Rightarrow> ('v, 'r discrete) activity" where
  "discrete_startAnimation a = emit Start_wakeup a"

definition discrete_list_hooks :: "'v value_ops \<Rightarrow> 'v value_list \<Rightarrow> ('v, 'r discrete) act_hooks" where
  "discrete_list_hooks vo vl =
     \<lparr>hk_startAnimation = list_startAnimation discrete_startAnimation, hk_performEnd = list_performEnd vo vl, hk_endAnimation = emit An_end\<rparr>"

subsection \<open>From, to and by\<close>

text \<open>
  \<open>FromToByActivity\<close>. A value that is \<open>null\<close> or missing is \<open>None\<close>, and \<open>hasValue\<close> tells them apart. The
  underlying value of the animated property is an argument where it is read: \<open>u\<close> before the value is performed,
  \<open>u'\<close> after.
\<close>

record 'v from_to_by =
  fb_aFrom :: "'v option"
  fb_aTo :: "'v option"
  fb_aBy :: "'v option"
  fb_aStartValue :: "'v option"
  fb_aEndValue :: "'v option"
  fb_aPreviousValue :: "'v option"
  fb_aStartInterpolationValue :: "'v option"
  fb_bDynamicStartValue :: bool
  fb_nIteration :: num
  fb_bCumulative :: bool

definition new_FromToByActivity :: "'v option \<Rightarrow> 'v option \<Rightarrow> 'v option \<Rightarrow> bool \<Rightarrow> 'v from_to_by" where
  "new_FromToByActivity aFromValue aToValue aByValue bAccumulate =
     \<lparr>fb_aFrom = aFromValue, fb_aTo = aToValue, fb_aBy = aByValue, fb_aStartValue = None, fb_aEndValue = None,
      fb_aPreviousValue = None, fb_aStartInterpolationValue = None, fb_bDynamicStartValue = False, fb_nIteration = 0,
      fb_bCumulative = bAccumulate\<rparr>"

definition fromto_initAnimatedElement :: "'v option value_ops \<Rightarrow> 'v from_to_by \<Rightarrow> ('v option, 's) activity \<Rightarrow> ('v option, 's) activity" where
  "fromto_initAnimatedElement vo fb a = (if fb_aFrom fb \<noteq> None then emit (An_perform (apply_formula vo (fb_aFrom fb))) a else a)"

text \<open>The start and end values, by which of the three values are given.\<close>

definition start_values :: "'v option value_ops \<Rightarrow> 'v option \<Rightarrow> 'v from_to_by \<Rightarrow> 'v from_to_by" where
  "start_values vo u fb =
     (if fb_aFrom fb \<noteq> None
      then let fb1 = (if fb_aTo fb \<noteq> None then fb\<lparr>fb_aStartValue := fb_aFrom fb, fb_aEndValue := fb_aTo fb\<rparr>
                      else if fb_aBy fb \<noteq> None
                      then fb\<lparr>fb_aStartValue := fb_aFrom fb, fb_aEndValue := vo_add vo (fb_aFrom fb) (fb_aBy fb)\<rparr>
                      else fb)
           in fb1\<lparr>fb_aStartInterpolationValue := fb_aStartValue fb1\<rparr>
      else let fb1 = fb\<lparr>fb_aStartValue := u, fb_aStartInterpolationValue := u\<rparr>
           in if fb_aTo fb \<noteq> None
              then fb1\<lparr>fb_bDynamicStartValue := True, fb_aPreviousValue := u, fb_aEndValue := fb_aTo fb\<rparr>
              else if fb_aBy fb \<noteq> None then fb1\<lparr>fb_aStartValue := u, fb_aEndValue := vo_add vo u (fb_aBy fb)\<rparr>
              else fb1)"

definition fromto_startAnimation ::
    "'v option value_ops \<Rightarrow> 'v option \<Rightarrow> ('v option, 'v from_to_by continuous) activity \<Rightarrow> ('v option, 'v from_to_by continuous) activity" where
  "fromto_startAnimation vo u a =
     (if isDisposed a then a
      else let a1 = emit An_start (continuous_startAnimation a)
           in a1\<lparr>ac_sub := (ac_sub a1)\<lparr>ct_rest := start_values vo u (ct_rest (ac_sub a1))\<rparr>\<rparr>)"

text \<open>Where the interpolation starts: a \<^emph>\<open>to\<close> animation follows the underlying value.\<close>

definition interpolation_start :: "'v option value_ops \<Rightarrow> 'v option \<Rightarrow> num \<Rightarrow> 'v from_to_by \<Rightarrow> 'v from_to_by" where
  "interpolation_start vo u nRepeatCount fb =
     (if fb_bDynamicStartValue fb
      then if fb_nIteration fb \<noteq> nRepeatCount
           then fb\<lparr>fb_nIteration := nRepeatCount, fb_aStartInterpolationValue := fb_aStartValue fb\<rparr>
           else if \<not> vo_equal vo u (fb_aPreviousValue fb) then fb\<lparr>fb_aStartInterpolationValue := u\<rparr> else fb
      else fb)"

definition fromto_value :: "'v option value_ops \<Rightarrow> num \<Rightarrow> num \<Rightarrow> 'v from_to_by \<Rightarrow> 'v option" where
  "fromto_value vo nModifiedTime nRepeatCount fb =
     (let aValue = vo_interpolate vo (fb_aStartInterpolationValue fb) (fb_aEndValue fb) (Some nModifiedTime)
      in apply_formula vo
           (if fb_bCumulative fb \<and> \<not> fb_bDynamicStartValue fb then vo_add vo (vo_scale vo nRepeatCount (fb_aEndValue fb)) aValue
            else aValue))"

definition fromto_performContinuousHook ::
    "'v option value_ops \<Rightarrow> 'v option \<Rightarrow> 'v option \<Rightarrow> num \<Rightarrow> num \<Rightarrow> ('v option, 'v from_to_by continuous) activity \<Rightarrow>
     js_error + ('v option, 'v from_to_by continuous) activity" where
  "fromto_performContinuousHook vo u u' nModifiedTime nRepeatCount a =
     (if isDisposed a then Inr a
      else let fb = interpolation_start vo u nRepeatCount (ct_rest (ac_sub a));
               a1 = emit (An_perform (fromto_value vo nModifiedTime nRepeatCount fb)) a;
               fb1 = (if fb_bDynamicStartValue fb then fb\<lparr>fb_aPreviousValue := u'\<rparr> else fb)
           in Inr (a1\<lparr>ac_sub := (ac_sub a1)\<lparr>ct_rest := fb1\<rparr>\<rparr>))"

text \<open>A discrete one performs nothing.\<close>

definition fromto_performDiscreteHook :: "nat option \<Rightarrow> nat \<Rightarrow> ('v, 's) activity \<Rightarrow> js_error + ('v, 's) activity" where
  "fromto_performDiscreteHook nFrame nRepeatCount a = Inr a"

definition fromto_performEnd ::
    "'v option value_ops \<Rightarrow> ('v option, 'v from_to_by continuous) activity \<Rightarrow> ('v option, 'v from_to_by continuous) activity" where
  "fromto_performEnd vo a =
     emit (An_perform (apply_formula vo
       (if ac_bAutoReverse a then fb_aStartValue (ct_rest (ac_sub a)) else fb_aEndValue (ct_rest (ac_sub a))))) a"

definition linear_fromto_hooks :: "'v option value_ops \<Rightarrow> 'v option \<Rightarrow> ('v option, 'v from_to_by continuous) act_hooks" where
  "linear_fromto_hooks vo u =
     \<lparr>hk_startAnimation = fromto_startAnimation vo u, hk_performEnd = fromto_performEnd vo, hk_endAnimation = emit An_end\<rparr>"

definition linear_fromto_perform ::
    "'v option value_ops \<Rightarrow> 'v option \<Rightarrow> 'v option \<Rightarrow> num \<Rightarrow> ('v option, 'v from_to_by continuous) activity \<Rightarrow>
     js_error + bool \<times> ('v option, 'v from_to_by continuous) activity" where
  "linear_fromto_perform vo u u' = continuous_perform (continuous_simplePerform (fromto_performContinuousHook vo u u'))"

subsection \<open>Simple and set activities\<close>

text \<open>
  \<open>SimpleActivity\<close> performs a position, with whether it is the last one, and its rest is the direction, 1 or 0.
\<close>

definition nDirection_of :: "bool \<Rightarrow> num" where
  "nDirection_of bForward = (if bForward then 1 else 0)"

definition simple_startAnimation :: "('v, num continuous) activity \<Rightarrow> ('v, num continuous) activity" where
  "simple_startAnimation a = (if isDisposed a then a else emit An_start (continuous_startAnimation a))"

definition simple_performContinuousHook ::
    "num \<Rightarrow> num \<Rightarrow> (num \<times> bool, num continuous) activity \<Rightarrow> js_error + (num \<times> bool, num continuous) activity" where
  "simple_performContinuousHook nModifiedTime nRepeatCount a =
     (if isDisposed a then Inr a
      else let nDirection = ct_rest (ac_sub a); nT = 1 - nDirection + nModifiedTime * (2 * nDirection - 1)
           in Inr (emit (An_perform (nT, nT = nDirection)) a))"

definition simple_performEnd :: "(num \<times> bool, num continuous) activity \<Rightarrow> (num \<times> bool, num continuous) activity" where
  "simple_performEnd a = emit (An_perform (ct_rest (ac_sub a), True)) a"

record 'v set_activity =
  sa_bHasEndEvent :: bool
  sa_bHasTarget :: bool
  sa_aToAttr :: 'v
  sa_bIsActive :: bool
  sa_calls :: "'v act_call list"

definition set_activate :: "bool \<Rightarrow> 'v set_activity \<Rightarrow> 'v set_activity" where
  "set_activate bEndEvent a = a\<lparr>sa_bHasEndEvent := bEndEvent, sa_bIsActive := True\<rparr>"

text \<open>Whether the end event is charged is an argument.\<close>

definition set_dispose :: "bool \<Rightarrow> 'v set_activity \<Rightarrow> 'v set_activity" where
  "set_dispose bCharged a =
     (let a1 = a\<lparr>sa_bIsActive := False\<rparr>
      in if sa_bHasEndEvent a1 \<and> bCharged then a1\<lparr>sa_calls := sa_calls a1 @ [Dispose_endEvent]\<rparr> else a1)"

definition set_perform :: "'v set_activity \<Rightarrow> 'v set_activity" where
  "set_perform a =
     (if \<not> sa_bIsActive a then a
      else let a1 = a\<lparr>sa_bIsActive := False\<rparr>;
               a2 = (if sa_bHasTarget a1 then a1\<lparr>sa_calls := sa_calls a1 @ [An_start, An_perform (sa_aToAttr a1), An_end]\<rparr> else a1)
           in if sa_bHasEndEvent a2 then a2\<lparr>sa_calls := sa_calls a2 @ [Queue_endEvent]\<rparr> else a2)"

definition set_end :: "'v set_activity \<Rightarrow> 'v set_activity" where
  "set_end a = set_perform a"

definition set_setTargets :: "bool \<Rightarrow> 'v set_activity \<Rightarrow> js_error + 'v set_activity" where
  "set_setTargets bTarget a =
     (if \<not> bTarget then Inl (ErrorMsg ''SetActivity.setTargets: target element is not valid'') else Inr (a\<lparr>sa_bHasTarget := True\<rparr>))"

end
