(* ===== verification/Activity_Properties.thy ===== *)
theory Activity_Properties
  imports Activity_Values
begin

section \<open>What activities perform\<close>

text \<open>
  The values that a discrete activity over a list of values performs until it ends, that it stalls when it is
  reversed, and the value on which a linear activity ends when it is played and when it is skipped.
\<close>

subsection \<open>Frames of a discrete activity\<close>

definition performed :: "'v act_call list \<Rightarrow> 'v list" where
  "performed cs = concat (map (\<lambda>c. case c of An_perform v \<Rightarrow> [v] | _ \<Rightarrow> []) cs)"

lemma performed_append [simp]: "performed (cs @ ds) = performed cs @ performed ds"
  by (simp add: performed_def)

lemma performed_simps [simp]:
  "performed [] = []" "performed (An_perform v # cs) = v # performed cs" "performed (Queue_wakeup t # cs) = performed cs"
  "performed (Queue_endEvent # cs) = performed cs"
  by (simp_all add: performed_def)

text \<open>
  The first call of \<open>perform\<close> is made by the activity queue. For the others the activity has queued its wake-up
  event, and they are made when that event is fired: when the time has come, which for \<open>NaN\<close> it never does, since
  the event queue compares the time of an event with the current one (\<open>process_\<close> of \<open>TimerEventQueue.ts\<close>).
  \<open>list_run k\<close> is the state after \<open>k\<close> rounds of the two queues, each after enough time.
\<close>

definition wakeup_due :: "('v, 's) activity \<Rightarrow> bool" where
  "wakeup_due a = (case last (ac_calls a) of Queue_wakeup t \<Rightarrow> t \<noteq> None | _ \<Rightarrow> False)"

primrec list_run :: "'v value_ops \<Rightarrow> 'v value_list \<Rightarrow> nat \<Rightarrow> ('v, 'r discrete) activity \<Rightarrow> js_error + ('v, 'r discrete) activity" where
  "list_run vo vl 0 a = Inr a"
| "list_run vo vl (Suc k) a =
     (case list_run vo vl k a of Inl e \<Rightarrow> Inl e
      | Inr b \<Rightarrow> if k = 0 \<or> wakeup_due b then map_sum id snd (discrete_perform (list_performDiscreteHook vo vl) b) else Inr b)"

definition frame_value :: "'v value_ops \<Rightarrow> 'v value_list \<Rightarrow> nat \<Rightarrow> 'v" where
  "frame_value vo vl k =
     apply_formula vo (cumulated vo vl (of_nat (k div length (vl_aValueList vl))) (vl_aValueList vl ! (k mod length (vl_aValueList vl))))"

definition discrete_ready :: "'v value_list \<Rightarrow> num \<Rightarrow> nat \<Rightarrow> ('v, 'r discrete) activity \<Rightarrow> bool" where
  "discrete_ready vl r k a \<longleftrightarrow>
     ac_bIsActive a \<and> \<not> ac_bFirstPerformCall a \<and> ac_bHasEndEvent a \<and> ac_nRepeats a = Some r \<and> ds_bHasWakeupEvent (ac_sub a) \<and>
     length (ds_aDiscreteTimes (ac_sub a)) = length (vl_aValueList vl) \<and> vl_aValueList vl \<noteq> [] \<and> ds_nCurrPerformCalls (ac_sub a) = k"

definition reached_repeat :: "bool \<Rightarrow> nat \<Rightarrow> nat \<Rightarrow> num" where
  "reached_repeat bAutoReverse n k = of_nat k / of_nat n / (if bAutoReverse then 2 else 1)"

lemma perform_frame:
  assumes "discrete_ready vl r k a" and "0 < r" and "\<not> ac_bAutoReverse a \<or> k < length (vl_aValueList vl)"
    and "discrete_perform (list_performDiscreteHook vo vl) a = res"
  shows "\<exists>b t. res = Inr (False, b) \<and> performed (ac_calls b) = performed (ac_calls a) @ [frame_value vo vl k] \<and>
    (if reached_repeat (ac_bAutoReverse a) (length (vl_aValueList vl)) (Suc k) < r
     then discrete_ready vl r (Suc k) b \<and> ac_bAutoReverse b = ac_bAutoReverse a \<and>
       last (ac_calls b) = Queue_wakeup t \<and> (t = None \<longleftrightarrow> ac_bAutoReverse a \<and> Suc k = length (vl_aValueList vl))
     else \<not> ac_bIsActive b \<and> last (ac_calls b) = Queue_endEvent)"
proof -
  define n where "n = length (vl_aValueList vl)"
  have n: "0 < n" and frame: "calcFrameIndex (ac_bAutoReverse a) k n = Some (k mod n)"
    "calcRepeatCount (ac_bAutoReverse a) k n = k div n"
    using assms(1,3) by (auto simp: n_def discrete_ready_def calcFrameIndex_def calcRepeatCount_def)
  have hook: "list_performDiscreteHook vo vl (Some (k mod n)) (k div n) a = Inr (emit (An_perform (frame_value vo vl k)) a)"
    using assms(1) n by (simp add: list_performDiscreteHook_def isDisposed_def discrete_ready_def frame_value_def n_def)
  have a: "ac_bIsActive a" "\<not> ac_bFirstPerformCall a" "ac_bHasEndEvent a" "ac_nRepeats a = Some r" "ds_bHasWakeupEvent (ac_sub a)"
    "length (ds_aDiscreteTimes (ac_sub a)) = n" "ds_nCurrPerformCalls (ac_sub a) = k" "vl_aValueList vl \<noteq> []"
    using assms(1) by (simp_all add: discrete_ready_def n_def)
  have r: "isRepeatCountValid b" if "ac_nRepeats b = Some r" for b :: "('v, 'r discrete) activity"
    using that assms(2) by (simp add: isRepeatCountValid_def)
  define next_time where "next_time = Option.bind (calcFrameIndex (ac_bAutoReverse a) (Suc k) n) (\<lambda>i. js_nth (ds_aDiscreteTimes (ac_sub a)) (int i))"
  have none: "next_time = None \<longleftrightarrow> ac_bAutoReverse a \<and> Suc k = n"
    using assms(3) a(6) n by (auto simp: next_time_def calcFrameIndex_def js_nth_def simp flip: n_def split: if_splits)
  define t where "t = map_option (\<lambda>t. ds_nMinSimpleDuration (ac_sub a) *
      (of_nat (calcRepeatCount (ac_bAutoReverse a) (Suc k) n) + accelerated a t)) next_time"
  define b where "b = (emit (An_perform (frame_value vo vl k)) a)\<lparr>ac_sub := (ac_sub a)\<lparr>ds_nCurrPerformCalls := Suc k\<rparr>\<rparr>"
  have res: "res = Inr (False, if reached_repeat (ac_bAutoReverse a) n (Suc k) < r then emit (Queue_wakeup t) b
      else endActivity (b\<lparr>ac_sub := (ac_sub b)\<lparr>ds_bHasWakeupEvent := False\<rparr>\<rparr>))"
    unfolding assms(4) [symmetric] discrete_perform_def
    using n by (simp add: base_perform_def a frame hook r t_def next_time_def b_def reached_repeat_def accelerated_def)
  show ?thesis
  proof (cases "reached_repeat (ac_bAutoReverse a) n (Suc k) < r")
    case True
    show ?thesis
      unfolding n_def [symmetric] res if_P [OF True]
      by (intro exI [of _ "emit (Queue_wakeup t) b"] exI [of _ t])
        (use none a in \<open>simp add: b_def t_def discrete_ready_def flip: n_def\<close>)
  next
    case False
    show ?thesis
      unfolding n_def [symmetric] res if_not_P [OF False]
      by (intro exI conjI, rule refl) (use a in \<open>simp_all add: b_def endActivity_def\<close>)
  qed
qed

lemma run_frames:
  assumes "discrete_ready vl r 0 a" and "0 < r"
    and "\<And>j. j < k \<Longrightarrow> \<not> ac_bAutoReverse a \<or> j < length (vl_aValueList vl)"
    and "\<And>j. 0 < j \<Longrightarrow> j \<le> k \<Longrightarrow> reached_repeat (ac_bAutoReverse a) (length (vl_aValueList vl)) j < r"
  shows "\<exists>b. list_run vo vl k a = Inr b \<and> discrete_ready vl r k b \<and> ac_bAutoReverse b = ac_bAutoReverse a \<and>
    performed (ac_calls b) = performed (ac_calls a) @ map (frame_value vo vl) [0..<k] \<and>
    (0 < k \<longrightarrow> (\<exists>t. last (ac_calls b) = Queue_wakeup t \<and> (t = None \<longleftrightarrow> ac_bAutoReverse a \<and> k = length (vl_aValueList vl))))"
  using assms
proof (induction k)
  case (Suc k)
  obtain b where b: "list_run vo vl k a = Inr b" "discrete_ready vl r k b" "ac_bAutoReverse b = ac_bAutoReverse a"
    "performed (ac_calls b) = performed (ac_calls a) @ map (frame_value vo vl) [0..<k]"
    "0 < k \<Longrightarrow> \<exists>t. last (ac_calls b) = Queue_wakeup t \<and> (t = None \<longleftrightarrow> ac_bAutoReverse a \<and> k = length (vl_aValueList vl))"
    using Suc.IH [OF Suc.prems(1,2)] Suc.prems(3,4) by auto
  have more: "reached_repeat (ac_bAutoReverse b) (length (vl_aValueList vl)) (Suc k) < r"
    and rev: "\<not> ac_bAutoReverse b \<or> k < length (vl_aValueList vl)"
    using Suc.prems(3) [of k] Suc.prems(4) [of "Suc k"] b(3) by simp_all
  have due: "k = 0 \<or> wakeup_due b" using b(3,5) rev by (cases "k = 0") (auto simp: wakeup_due_def)
  show ?case
    using perform_frame [OF b(2) Suc.prems(2) rev refl, of vo] more due b(1,3,4) by (elim exE) simp
qed simp

subsection \<open>The end of a linear activity\<close>

text \<open>
  What a linear activity with \<open>k + 1\<close> repeats performs at its end, when it is skipped and when it is played.
\<close>

definition skipped_value :: "('v option, 'v from_to_by continuous) activity \<Rightarrow> 'v option" where
  "skipped_value a = (if ac_bAutoReverse a then fb_aStartValue (ct_rest (ac_sub a)) else fb_aEndValue (ct_rest (ac_sub a)))"

definition played_value :: "'v option value_ops \<Rightarrow> nat \<Rightarrow> ('v option, 'v from_to_by continuous) activity \<Rightarrow> 'v option" where
  "played_value vo k a =
     (let fb = ct_rest (ac_sub a)
      in if fb_bCumulative fb \<and> \<not> fb_bDynamicStartValue fb
         then vo_add vo (vo_scale vo (of_nat (if ac_bAutoReverse a then Suc k else k)) (fb_aEndValue fb)) (skipped_value a)
         else skipped_value a)"

definition linear_ready :: "nat \<Rightarrow> num \<Rightarrow> ('v option, 'v from_to_by continuous) activity \<Rightarrow> bool" where
  "linear_ready k nElapsed a \<longleftrightarrow>
     ac_bIsActive a \<and> \<not> ac_bFirstPerformCall a \<and> ac_bHasEndEvent a \<and> ac_nRepeats a = Some (of_nat (Suc k)) \<and>
     0 \<le> ac_nAccelerationFraction a \<and> 0 \<le> ac_nDecelerationFraction a \<and> 0 < ct_nMinSimpleDuration (ac_sub a) \<and>
     (if ac_bAutoReverse a then 2 else 1) * of_nat (Suc k) * ct_nMinSimpleDuration (ac_sub a) \<le> nElapsed"

lemma simple_time_end:
  assumes "(if bAutoReverse then 2 else 1) * of_nat (Suc k) \<le> nT"
  shows "simple_time (Some (of_nat (Suc k))) bAutoReverse nT =
    (if bAutoReverse then 0 else 1, of_nat (if bAutoReverse then Suc k else k), True)"
proof -
  have "\<lfloor>2 * real (Suc k)\<rfloor> = 2 * int (Suc k)" "\<lfloor>real (Suc k)\<rfloor> = int (Suc k)" by linarith+
  then show ?thesis using assms by (cases bAutoReverse) (simp_all add: simple_time_def js_imod_def Let_def del: of_nat_Suc)
qed

subsection \<open>Samples\<close>

definition number_ops :: "num value_ops" where
  "number_ops = \<lparr>vo_equal = (=), vo_add = (+), vo_scale = (*), vo_interpolate = (\<lambda>x y t. (1 - the t) * x + the t * y), vo_aFormula = None\<rparr>"

definition option_ops :: "num option value_ops" where
  "option_ops = \<lparr>vo_equal = (=), vo_add = (\<lambda>x y. Some (the x + the y)), vo_scale = (\<lambda>k x. Some (k * the x)),
     vo_interpolate = (\<lambda>x y t. if the t = 0 then x else if the t = 1 then y else Some ((1 - the t) * the x + the t * the y)), vo_aFormula = None\<rparr>"

definition two_frames :: "bool \<Rightarrow> num \<Rightarrow> (num, unit discrete) activity" where
  "two_frames bAutoReverse r =
     (new_ActivityBase True (Some r) 0 0 bAutoReverse
       \<lparr>ds_bHasWakeupEvent = True, ds_aDiscreteTimes = [0, 1 / 2], ds_nMinSimpleDuration = 1, ds_nCurrPerformCalls = 0, ds_rest = ()\<rparr>)
     \<lparr>ac_bFirstPerformCall := False\<rparr>"

definition two_repeats :: "bool \<Rightarrow> (num option, num from_to_by continuous) activity" where
  "two_repeats bAccumulate =
     (new_ActivityBase True (Some 2) 0 0 False
       \<lparr>ct_nMinSimpleDuration = 2, ct_nMinNumberOfFrames = 1, ct_nCurrPerformCalls = 0,
        ct_rest = start_values option_ops None (new_FromToByActivity (Some 0) (Some 3) None bAccumulate)\<rparr>)
     \<lparr>ac_bFirstPerformCall := False\<rparr>"

subsection \<open>Properties\<close>

text \<open>
  C26. A discrete activity that is not reversed performs its values in order, once per repeat (on top of the last
  value of the repeats before when it accumulates), stays active until the repeat count is reached, and then ends:
  with \<open>n\<close> values and a repeat count of \<open>r\<close> it performs \<open>\<lceil>r * n\<rceil>\<close> frames and queues its end event.
\<close>

theorem discrete_frames_played:
  assumes "new_ValueListActivity aValueList True bAccumulate = Inr vl" and "discrete_ready vl r 0 a" and "0 < r"
    and "\<not> ac_bAutoReverse a" and "m = nat \<lceil>r * of_nat (length aValueList)\<rceil>"
  shows "(\<exists>b. list_run vo vl m a = Inr b \<and> \<not> ac_bIsActive b \<and> last (ac_calls b) = Queue_endEvent \<and>
      performed (ac_calls b) = performed (ac_calls a) @ map (frame_value vo vl) [0..<m]) \<and>
    (\<forall>k < m. \<exists>b. list_run vo vl k a = Inr b \<and> ac_bIsActive b)"
proof -
  define n where "n = length (vl_aValueList vl)"
  have n: "0 < n" "length aValueList = n"
    using assms(1,2) by (auto simp: new_ValueListActivity_def discrete_ready_def n_def split: if_splits)
  have reach: "reached_repeat False n j < r \<longleftrightarrow> j < m" for j
    using n assms(5) by (simp add: reached_repeat_def pos_divide_less_eq) linarith
  have run: "\<exists>b. list_run vo vl k a = Inr b \<and> discrete_ready vl r k b \<and> \<not> ac_bAutoReverse b \<and>
      performed (ac_calls b) = performed (ac_calls a) @ map (frame_value vo vl) [0..<k] \<and> (k = 0 \<or> wakeup_due b)" if "k < m" for k
  proof -
    have "\<exists>b. list_run vo vl k a = Inr b \<and> discrete_ready vl r k b \<and> ac_bAutoReverse b = ac_bAutoReverse a \<and>
      performed (ac_calls b) = performed (ac_calls a) @ map (frame_value vo vl) [0..<k] \<and>
      (0 < k \<longrightarrow> (\<exists>t. last (ac_calls b) = Queue_wakeup t \<and> (t = None \<longleftrightarrow> ac_bAutoReverse a \<and> k = length (vl_aValueList vl))))"
      by (rule run_frames [OF assms(2,3)]) (use assms(4) reach that in \<open>simp_all flip: n_def\<close>)
    then show ?thesis using assms(4) by (cases "k = 0") (auto simp: wakeup_due_def)
  qed
  have "0 < r * of_nat n" using assms(3) n by simp
  then have "0 < m" using assms(5) n by simp
  then obtain k where m: "m = Suc k" by (cases m) auto
  obtain b where b: "list_run vo vl k a = Inr b" "discrete_ready vl r k b" "\<not> ac_bAutoReverse b"
      "performed (ac_calls b) = performed (ac_calls a) @ map (frame_value vo vl) [0..<k]" "k = 0 \<or> wakeup_due b"
    using run [of k] m by auto
  have "\<not> reached_repeat False n (Suc k) < r" using reach [of m] m by simp
  then have "\<exists>c. list_run vo vl m a = Inr c \<and> \<not> ac_bIsActive c \<and> last (ac_calls c) = Queue_endEvent \<and>
      performed (ac_calls c) = performed (ac_calls a) @ map (frame_value vo vl) [0..<m]"
    using perform_frame [OF b(2) assms(3) _ refl, of vo] b m by (auto simp flip: n_def)
  then show ?thesis using run by (auto simp: discrete_ready_def)
qed

theorem discrete_frames_played_witness:
  "\<exists>b. list_run number_ops \<lparr>vl_aValueList = [1, 5], vl_bCumulative = True\<rparr> 3 (two_frames False (3 / 2)) = Inr b \<and>
     performed (ac_calls b) = [1, 5, 6] \<and> \<not> ac_bIsActive b"
proof -
  have m: "3 = nat \<lceil>3 / 2 * real (length [1, 5 :: num])\<rceil>" by simp
  have run: "\<exists>b. list_run number_ops \<lparr>vl_aValueList = [1, 5], vl_bCumulative = True\<rparr> 3 (two_frames False (3 / 2)) = Inr b \<and> \<not> ac_bIsActive b \<and>
      performed (ac_calls b) = map (frame_value number_ops \<lparr>vl_aValueList = [1, 5], vl_bCumulative = True\<rparr>) [0..<3]"
    using discrete_frames_played [of "[1, 5]" True, OF _ _ _ _ m, where a = "two_frames False (3 / 2)" and vo = number_ops]
    by (auto simp: new_ValueListActivity_def discrete_ready_def two_frames_def new_ActivityBase_def)
  have "map (frame_value number_ops \<lparr>vl_aValueList = [1, 5], vl_bCumulative = True\<rparr>) [0..<3] = [1, 5, 6]"
    by (simp add: upt_rec frame_value_def number_ops_def cumulated_def vl_aLastValue_def apply_formula_def)
  with run show ?thesis by metis
qed

text \<open>
  C36. A discrete activity with auto-reverse stalls: it performs every value of its list once, and the frame after
  the last one of the forward pass has the index of the end of the list. The wake-up event for it is queued for no
  time (\<open>NaN\<close>), which the event queue never finds due, so from then on nothing changes: no value is performed on the
  way back, the activity stays active, and its end event is not queued. If the event is fired all the same, as when
  the queue is emptied by force, the assertion of \<open>performDiscreteHook\<close> throws.
\<close>

theorem discrete_reverse_stalls:
  assumes "discrete_ready vl r 0 a" and "1 / 2 < r" and "ac_bAutoReverse a"
  shows "\<exists>b. (\<forall>k \<ge> length (vl_aValueList vl). list_run vo vl k a = Inr b) \<and> ac_bIsActive b \<and> ac_bHasEndEvent b \<and>
    last (ac_calls b) = Queue_wakeup None \<and>
    performed (ac_calls b) = performed (ac_calls a) @ map (frame_value vo vl) [0..<length (vl_aValueList vl)] \<and>
    discrete_perform (list_performDiscreteHook vo vl) b =
      Inl (ErrorMsg ''ValueListActivity.performDiscreteHook: assertion ( nFrame < this.aValueList.length) failed'')"
proof -
  define n where "n = length (vl_aValueList vl)"
  have n: "0 < n" using assms(1) by (simp add: n_def discrete_ready_def)
  have "reached_repeat True n j < r" if "j \<le> n" for j
  proof -
    have "real j / real n \<le> 1" using that n by simp
    then show ?thesis using assms(2) by (simp add: reached_repeat_def)
  qed
  then obtain b where b: "list_run vo vl n a = Inr b" "discrete_ready vl r n b" "ac_bAutoReverse b" "last (ac_calls b) = Queue_wakeup None"
      "performed (ac_calls b) = performed (ac_calls a) @ map (frame_value vo vl) [0..<n]"
    using run_frames [OF assms(1), of n vo] assms(2,3) n by (auto simp flip: n_def)
  have "list_run vo vl (n + j) a = Inr b" for j
    by (induction j) (use b(1,4) n in \<open>simp_all add: wakeup_due_def\<close>)
  then have "\<forall>k \<ge> n. list_run vo vl k a = Inr b" by (metis le_add_diff_inverse)
  moreover have "discrete_perform (list_performDiscreteHook vo vl) b =
      Inl (ErrorMsg ''ValueListActivity.performDiscreteHook: assertion ( nFrame < this.aValueList.length) failed'')"
    using b(2,3) n
    by (simp add: discrete_perform_def discrete_ready_def base_perform_def calcFrameIndex_def list_performDiscreteHook_def isDisposed_def Let_def flip: n_def)
  ultimately show ?thesis using b by (auto simp: discrete_ready_def simp flip: n_def)
qed

theorem discrete_reverse_stalls_witness:
  "\<exists>b. list_run number_ops \<lparr>vl_aValueList = [1, 5], vl_bCumulative = False\<rparr> 100 (two_frames True 1) = Inr b \<and>
     length (performed (ac_calls b)) = 2 \<and> ac_bIsActive b"
  using discrete_reverse_stalls [of "\<lparr>vl_aValueList = [1, 5], vl_bCumulative = False\<rparr>" 1 "two_frames True 1" number_ops]
  by (auto simp: discrete_ready_def two_frames_def new_ActivityBase_def)

text \<open>
  C25. A linear from, to or by activity with a whole number of repeats that is played to its end performs its last
  value, ends, queues its end event and ends its animation when it is taken from the queue. The last value is the one
  that skipping the activity performs, the end value, or the start value with auto-reverse, except that it is on top
  of the repeats when the activity accumulates; skipping leaves the accumulated part out.
\<close>

theorem skipped_as_played:
  assumes "linear_ready k nElapsed a" and "\<forall>x y. vo_interpolate vo x y (Some 0) = x \<and> vo_interpolate vo x y (Some 1) = y"
    and "ac_bAutoReverse a \<Longrightarrow> \<not> fb_bDynamicStartValue (ct_rest (ac_sub a)) \<and>
      fb_aStartInterpolationValue (ct_rest (ac_sub a)) = fb_aStartValue (ct_rest (ac_sub a))"
  shows "\<exists>b. linear_fromto_perform vo u u' nElapsed a = Inr (False, b) \<and>
    ac_calls (act_dequeued (linear_fromto_hooks vo u) b) =
      ac_calls a @ [An_perform (apply_formula vo (played_value vo k a)), Queue_endEvent, An_end] \<and>
    ac_calls (act_end (linear_fromto_hooks vo u) a) =
      ac_calls a @ [An_perform (apply_formula vo (skipped_value a)), An_end, Queue_endEvent] \<and>
    isDisposed b \<and> isDisposed (act_end (linear_fromto_hooks vo u) a) \<and>
    (\<not> fb_bCumulative (ct_rest (ac_sub a)) \<longrightarrow> played_value vo k a = skipped_value a)"
proof -
  define t :: num where "t = (if ac_bAutoReverse a then 0 else 1)"
  define j where "j = (if ac_bAutoReverse a then Suc k else k)"
  define fb where "fb = interpolation_start vo u (of_nat j) (ct_rest (ac_sub a))"
  note ready = assms(1) [unfolded linear_ready_def]
  have time: "simple_time (if isRepeatCountValid a then ac_nRepeats a else None) (ac_bAutoReverse a)
      (nElapsed / ct_nMinSimpleDuration (ac_sub a)) = (t, of_nat j, True)"
    using ready simple_time_end [of "ac_bAutoReverse a" k "nElapsed / ct_nMinSimpleDuration (ac_sub a)"]
    by (simp add: isRepeatCountValid_def t_def j_def pos_le_divide_eq)
  have acc: "accelerated a t = t"
    using ready acceleration_reparametrises [of "ac_nAccelerationFraction a" "ac_nDecelerationFraction a"]
    by (simp add: accelerated_def t_def)
  have val: "fromto_value vo t (of_nat j) fb = apply_formula vo (played_value vo k a)"
    using assms(2,3)
    by (auto simp: fromto_value_def played_value_def skipped_value_def fb_def interpolation_start_def t_def j_def Let_def)
  define c where "c = (emit (An_perform (apply_formula vo (played_value vo k a))) a)\<lparr>ac_sub := (ac_sub a)
    \<lparr>ct_rest := if fb_bDynamicStartValue fb then fb\<lparr>fb_aPreviousValue := u'\<rparr> else fb\<rparr>\<rparr>"
  have hook: "continuous_simplePerform (fromto_performContinuousHook vo u u') t (of_nat j) a = Inr c"
    using ready acc val
    by (simp add: continuous_simplePerform_def fromto_performContinuousHook_def isDisposed_def c_def Let_def flip: fb_def)
  have play: "linear_fromto_perform vo u u' nElapsed a = Inr (False, (endActivity c)\<lparr>ac_sub := (ac_sub (endActivity c))
      \<lparr>ct_nCurrPerformCalls := ct_nCurrPerformCalls (ac_sub (endActivity c)) + 1\<rparr>\<rparr>)"
    using ready by (simp add: linear_fromto_perform_def continuous_perform_def base_perform_def time hook endActivity_def Let_def)
  have skip: "act_end (linear_fromto_hooks vo u) a = endActivity (emit An_end (emit (An_perform (apply_formula vo (skipped_value a))) a))"
    using ready by (simp add: act_end_def linear_fromto_hooks_def fromto_performEnd_def skipped_value_def isDisposed_def)
  show ?thesis
    using ready play skip
    by (auto simp: c_def act_dequeued_def linear_fromto_hooks_def endActivity_def isDisposed_def played_value_def Let_def)
qed

theorem skipped_as_played_witness:
  "\<exists>b. linear_fromto_perform option_ops None None 4 (two_repeats True) = Inr (False, b) \<and>
     ac_calls b = [An_perform (Some 6), Queue_endEvent] \<and>
     ac_calls (act_end (linear_fromto_hooks option_ops None) (two_repeats True)) = [An_perform (Some 3), An_end, Queue_endEvent]"
proof -
  note defs = two_repeats_def new_ActivityBase_def start_values_def new_FromToByActivity_def
  have "\<exists>b. linear_fromto_perform option_ops None None 4 (two_repeats True) = Inr (False, b) \<and>
    ac_calls (act_dequeued (linear_fromto_hooks option_ops None) b) =
      [An_perform (apply_formula option_ops (played_value option_ops 1 (two_repeats True))), Queue_endEvent, An_end] \<and>
    ac_calls (act_end (linear_fromto_hooks option_ops None) (two_repeats True)) =
      [An_perform (apply_formula option_ops (skipped_value (two_repeats True))), An_end, Queue_endEvent] \<and> isDisposed b"
    using skipped_as_played [of 1 4 "two_repeats True" option_ops None None]
    by (auto simp: linear_ready_def defs option_ops_def)
  then show ?thesis
    by (auto simp: played_value_def skipped_value_def defs option_ops_def apply_formula_def act_dequeued_def isDisposed_def linear_fromto_hooks_def Let_def)
qed

end
