(* ===== verification/Elapsed_Time.thy ===== *)
theory Elapsed_Time
  imports Prelude
begin

section \<open>The timers of the slide show\<close>

text \<open>
  \<open>browser/src/slideshow/engine/ElapsedTime.ts\<close>. A timer may take its time from another one
  (\<open>aTimeBase\<close>), and one timer is the base of many, so timers live in a store and a base is an
  address. A timer without a base reads the system clock, whose value in milliseconds is the
  argument \<open>sys\<close>. Following the bases may not end when they form a cycle: \<open>None\<close> is the result
  then. A base is only set by the constructor, to a timer that exists already, which is what
  \<open>timers_ok\<close> says; on such a store every operation returns.
\<close>

record elapsed_time =
  aTimeBase :: "nat option"
  nLastQueriedTime :: num
  nStartTime :: num
  nFrozenTime :: num
  bInPauseMode :: bool
  bInHoldMode :: bool

type_synonym timers = "nat \<rightharpoonup> elapsed_time"

definition frozen :: "elapsed_time \<Rightarrow> bool" where
  "frozen t \<longleftrightarrow> bInHoldMode t \<or> bInPauseMode t"

definition getSystemTime :: "num \<Rightarrow> num" where
  "getSystemTime sys = sys / 1000"

partial_function (option) getElapsedTimeImpl :: "timers \<Rightarrow> num \<Rightarrow> nat \<Rightarrow> num option" where
  [code]: "getElapsedTimeImpl h sys i =
     (case h i of
        None \<Rightarrow> None
      | Some t \<Rightarrow>
          if frozen t then Some (nFrozenTime t)
          else case aTimeBase t of
                 None \<Rightarrow> Some (getSystemTime sys - nStartTime t)
               | Some b \<Rightarrow>
                   Option.bind (getElapsedTimeImpl h sys b) (\<lambda>nCurTime. Some (nCurTime - nStartTime t)))"

definition getCurrentTime :: "timers \<Rightarrow> num \<Rightarrow> nat option \<Rightarrow> num option" where
  "getCurrentTime h sys base =
     (case base of None \<Rightarrow> Some (getSystemTime sys) | Some b \<Rightarrow> getElapsedTimeImpl h sys b)"

definition reset :: "timers \<Rightarrow> num \<Rightarrow> nat \<Rightarrow> timers option" where
  "reset h sys i =
     (case h i of
        None \<Rightarrow> None
      | Some t \<Rightarrow>
          map_option (\<lambda>now. h(i \<mapsto> t\<lparr>nLastQueriedTime := 0, nStartTime := now, nFrozenTime := 0,
                                  bInPauseMode := False, bInHoldMode := False\<rparr>))
            (getCurrentTime h sys (aTimeBase t)))"

definition blank_timer :: "nat option \<Rightarrow> elapsed_time" where
  "blank_timer base = \<lparr>aTimeBase = base, nLastQueriedTime = 0, nStartTime = 0, nFrozenTime = 0,
     bInPauseMode = False, bInHoldMode = False\<rparr>"

definition ElapsedTime :: "timers \<Rightarrow> num \<Rightarrow> nat \<Rightarrow> nat option \<Rightarrow> timers option" where
  "ElapsedTime h sys i base = reset (h(i \<mapsto> blank_timer base)) sys i"

definition getTimeBase :: "elapsed_time \<Rightarrow> nat option" where
  "getTimeBase t = aTimeBase t"

definition getElapsedTime :: "timers \<Rightarrow> num \<Rightarrow> nat \<Rightarrow> (num \<times> timers) option" where
  "getElapsedTime h sys i =
     (case (h i, getElapsedTimeImpl h sys i) of
        (Some t, Some now) \<Rightarrow> Some (now, h(i \<mapsto> t\<lparr>nLastQueriedTime := now\<rparr>))
      | _ \<Rightarrow> None)"

definition pauseTimer :: "timers \<Rightarrow> num \<Rightarrow> nat \<Rightarrow> timers option" where
  "pauseTimer h sys i =
     (case (h i, getElapsedTimeImpl h sys i) of
        (Some t, Some now) \<Rightarrow> Some (h(i \<mapsto> t\<lparr>nFrozenTime := now, bInPauseMode := True\<rparr>))
      | _ \<Rightarrow> None)"

definition continueTimer :: "timers \<Rightarrow> num \<Rightarrow> nat \<Rightarrow> timers option" where
  "continueTimer h sys i =
     (case h i of
        None \<Rightarrow> None
      | Some t \<Rightarrow>
          let t1 = t\<lparr>bInPauseMode := False\<rparr>; h1 = h(i \<mapsto> t1)
          in map_option (\<lambda>now. h1(i \<mapsto> t1\<lparr>nStartTime := nStartTime t1 + (now - nFrozenTime t1)\<rparr>))
               (getElapsedTimeImpl h1 sys i))"

definition adjustTimer :: "timers \<Rightarrow> nat \<Rightarrow> num \<Rightarrow> timers option" where
  "adjustTimer h i nOffset =
     (case h i of
        None \<Rightarrow> None
      | Some t \<Rightarrow>
          let t1 = t\<lparr>nStartTime := nStartTime t - nOffset\<rparr>
          in Some (h(i \<mapsto> if frozen t1 then t1\<lparr>nFrozenTime := nFrozenTime t1 + nOffset\<rparr> else t1)))"

definition holdTimer :: "timers \<Rightarrow> num \<Rightarrow> nat \<Rightarrow> timers option" where
  "holdTimer h sys i =
     (case (h i, getElapsedTimeImpl h sys i) of
        (Some t, Some now) \<Rightarrow> Some (h(i \<mapsto> t\<lparr>nFrozenTime := now, bInHoldMode := True\<rparr>))
      | _ \<Rightarrow> None)"

definition releaseTimer :: "timers \<Rightarrow> nat \<Rightarrow> timers option" where
  "releaseTimer h i = map_option (\<lambda>t. h(i \<mapsto> t\<lparr>bInHoldMode := False\<rparr>)) (h i)"

lemmas timer_ops = reset_def ElapsedTime_def getElapsedTime_def pauseTimer_def continueTimer_def
  adjustTimer_def holdTimer_def releaseTimer_def Let_def

subsection \<open>Well-formed stores\<close>

definition timers_ok :: "timers \<Rightarrow> bool" where
  "timers_ok h \<longleftrightarrow> (\<forall>i t b. h i = Some t \<and> aTimeBase t = Some b \<longrightarrow> b < i \<and> b \<in> dom h)"

lemma timers_okD:
  "timers_ok h \<Longrightarrow> h i = Some t \<Longrightarrow> aTimeBase t = Some b \<Longrightarrow> b < i \<and> b \<in> dom h"
  by (auto simp: timers_ok_def)

lemma timers_ok_update [intro]:
  assumes "timers_ok h" and "h i = Some t" and "aTimeBase t' = aTimeBase t"
  shows "timers_ok (h(i \<mapsto> t'))"
  using assms unfolding timers_ok_def by (metis domIff fun_upd_apply option.sel option.simps(3))

lemma timers_ok_new:
  assumes "timers_ok h" and "i \<notin> dom h" and "aTimeBase t = None \<or> (\<exists>b \<in> dom h. aTimeBase t = Some b \<and> b < i)"
  shows "timers_ok (h(i \<mapsto> t))"
  using assms unfolding timers_ok_def by (auto simp: domIff split: if_splits)

lemma elapsed_total:
  assumes "timers_ok h" and "i \<in> dom h"
  shows "\<exists>e. getElapsedTimeImpl h sys i = Some e"
  using assms(2)
proof (induction i rule: less_induct)
  case (less i)
  then obtain t where t: "h i = Some t" by auto
  show ?case
  proof (cases "aTimeBase t")
    case None
    with t show ?thesis by (subst getElapsedTimeImpl.simps) simp
  next
    case (Some b)
    with timers_okD [OF assms(1) t] less.IH [of b] have "\<exists>e. getElapsedTimeImpl h sys b = Some e" by blast
    with t Some show ?thesis by (subst getElapsedTimeImpl.simps) auto
  qed
qed

text \<open>A timer reads only itself and older ones.\<close>

lemma elapsed_frame:
  assumes "timers_ok h" and "j < i" and "j \<in> dom h"
  shows "getElapsedTimeImpl (h(i := x)) sys j = getElapsedTimeImpl h sys j"
  using assms(2,3)
proof (induction j rule: less_induct)
  case (less j)
  then obtain t where t: "h j = Some t" by auto
  have same: "(h(i := x)) j = h j" using less.prems by simp
  have "aTimeBase t = Some b \<Longrightarrow> getElapsedTimeImpl (h(i := x)) sys b = getElapsedTimeImpl h sys b" for b
    using timers_okD [OF assms(1) t, of b] less.IH [of b] less.prems by (simp del: fun_upd_apply)
  then show ?case
    using t same getElapsedTimeImpl.simps [of "h(i := x)" sys j] getElapsedTimeImpl.simps [of h sys j]
    by (simp del: fun_upd_apply split: option.splits)
qed

lemma current_frame:
  assumes "timers_ok h" and "h i = Some t"
  shows "getCurrentTime (h(i := x)) sys (aTimeBase t) = getCurrentTime h sys (aTimeBase t)"
  using assms timers_okD [OF assms] elapsed_frame [OF assms(1), of _ i x sys]
  by (auto simp: getCurrentTime_def split: option.splits)

lemma current_total:
  "timers_ok h \<Longrightarrow> h i = Some t \<Longrightarrow> \<exists>c. getCurrentTime h sys (aTimeBase t) = Some c"
  using timers_okD [of h i t] elapsed_total [of h _ sys] by (auto simp: getCurrentTime_def split: option.splits)

lemma elapsed_unfold:
  "h i = Some t \<Longrightarrow> getElapsedTimeImpl h sys i =
    (if frozen t then Some (nFrozenTime t)
     else map_option (\<lambda>now. now - nStartTime t) (getCurrentTime h sys (aTimeBase t)))"
  by (subst getElapsedTimeImpl.simps) (auto simp: getCurrentTime_def map_conv_bind_option comp_def split: option.splits)

lemma elapsed_updated:
  assumes "timers_ok h" and "h i = Some t" and "aTimeBase t' = aTimeBase t"
  shows "getElapsedTimeImpl (h(i \<mapsto> t')) sys i =
    (if frozen t' then Some (nFrozenTime t')
     else map_option (\<lambda>now. now - nStartTime t') (getCurrentTime h sys (aTimeBase t)))"
  using elapsed_unfold [of "h(i \<mapsto> t')" i t' sys] current_frame [OF assms(1,2), of "Some t'" sys] assms(3)
  by simp

text \<open>Every operation returns a well-formed store with the same addresses.\<close>

lemma timer_ops_ok:
  assumes ok: "timers_ok h" and i: "i \<in> dom h"
  shows "\<exists>h'. reset h sys i = Some h' \<and> timers_ok h' \<and> dom h' = dom h"
    and "\<exists>e h'. getElapsedTime h sys i = Some (e, h') \<and> timers_ok h' \<and> dom h' = dom h"
    and "\<exists>h'. pauseTimer h sys i = Some h' \<and> timers_ok h' \<and> dom h' = dom h"
    and "\<exists>h'. continueTimer h sys i = Some h' \<and> timers_ok h' \<and> dom h' = dom h"
    and "\<exists>h'. adjustTimer h i off = Some h' \<and> timers_ok h' \<and> dom h' = dom h"
    and "\<exists>h'. holdTimer h sys i = Some h' \<and> timers_ok h' \<and> dom h' = dom h"
    and "\<exists>h'. releaseTimer h i = Some h' \<and> timers_ok h' \<and> dom h' = dom h"
proof -
  obtain t where t: "h i = Some t" using i by auto
  obtain c where c: "getCurrentTime h sys (aTimeBase t) = Some c" using current_total [OF ok t] by auto
  obtain e where e: "getElapsedTimeImpl h sys i = Some e" using elapsed_total [OF ok i] by auto
  have upd: "aTimeBase t' = aTimeBase t \<Longrightarrow> timers_ok (h(i \<mapsto> t')) \<and> dom (h(i \<mapsto> t')) = dom h" for t'
    using ok t by auto
  have e': "\<exists>e. getElapsedTimeImpl (h(i \<mapsto> t\<lparr>bInPauseMode := False\<rparr>)) sys i = Some e"
    using upd by (intro elapsed_total) auto
  note facts = t c e upd timer_ops
  show "\<exists>h'. reset h sys i = Some h' \<and> timers_ok h' \<and> dom h' = dom h" using upd by (simp add: facts)
  show "\<exists>e h'. getElapsedTime h sys i = Some (e, h') \<and> timers_ok h' \<and> dom h' = dom h" using upd by (simp add: facts)
  show "\<exists>h'. pauseTimer h sys i = Some h' \<and> timers_ok h' \<and> dom h' = dom h" using upd by (simp add: facts)
  show "\<exists>h'. continueTimer h sys i = Some h' \<and> timers_ok h' \<and> dom h' = dom h" using upd e' by (auto simp: facts)
  show "\<exists>h'. adjustTimer h i off = Some h' \<and> timers_ok h' \<and> dom h' = dom h" using upd by (simp add: facts)
  show "\<exists>h'. holdTimer h sys i = Some h' \<and> timers_ok h' \<and> dom h' = dom h" using upd by (simp add: facts)
  show "\<exists>h'. releaseTimer h i = Some h' \<and> timers_ok h' \<and> dom h' = dom h" using upd by (simp add: facts)
qed

subsection \<open>Properties\<close>

text \<open>
  Pausing is transparent: a paused timer stands still at the time it had, and after it is
  continued it goes on from there, having lost exactly the time that its base passed during
  the pause.
\<close>

theorem pause_is_transparent:
  assumes "timers_ok h" and "h i = Some t" and "\<not> bInPauseMode t" and "\<not> bInHoldMode t"
  shows "\<exists>e h1 h2 c2. getElapsedTimeImpl h s1 i = Some e \<and>
    pauseTimer h s1 i = Some h1 \<and> (\<forall>s. getElapsedTimeImpl h1 s i = Some e) \<and>
    continueTimer h1 s2 i = Some h2 \<and> getCurrentTime h s2 (aTimeBase t) = Some c2 \<and>
    (\<forall>s3 c3. getCurrentTime h s3 (aTimeBase t) = Some c3 \<longrightarrow>
       getElapsedTimeImpl h2 s3 i = Some (e + (c3 - c2)))"
proof -
  obtain c1 where c1: "getCurrentTime h s1 (aTimeBase t) = Some c1" using current_total [OF assms(1,2)] by auto
  obtain c2 where c2: "getCurrentTime h s2 (aTimeBase t) = Some c2" using current_total [OF assms(1,2)] by auto
  define e where "e = c1 - nStartTime t"
  define tp where "tp = t\<lparr>nFrozenTime := e, bInPauseMode := True\<rparr>"
  define tc where "tc = tp\<lparr>bInPauseMode := False\<rparr>"
  have e: "getElapsedTimeImpl h s1 i = Some e"
    using elapsed_unfold [of h i t s1] assms c1 by (simp add: frozen_def e_def)
  have upd: "getElapsedTimeImpl (h(i \<mapsto> t')) s i = (if frozen t' then Some (nFrozenTime t')
      else map_option (\<lambda>now. now - nStartTime t') (getCurrentTime h s (aTimeBase t)))"
    if "aTimeBase t' = aTimeBase t" for t' s using elapsed_updated [OF assms(1,2) that] .
  have "continueTimer (h(i \<mapsto> tp)) s2 i = Some (h(i \<mapsto> tc\<lparr>nStartTime := nStartTime t + (c2 - nStartTime t - e)\<rparr>))"
    using upd [of tc s2] assms c2 by (simp add: continueTimer_def tc_def [symmetric] Let_def)
      (simp add: tc_def tp_def frozen_def)
  then show ?thesis
    using e c2 assms upd [of tp] upd [of "tc\<lparr>nStartTime := nStartTime t + (c2 - nStartTime t - e)\<rparr>"]
    by (intro exI [of _ e] exI [of _ "h(i \<mapsto> tp)"] exI conjI)
      (auto simp: pauseTimer_def tp_def tc_def frozen_def)
qed

definition sample_timers :: timers where
  "sample_timers = [0 \<mapsto> (blank_timer None)\<lparr>nStartTime := 1\<rparr>, 1 \<mapsto> (blank_timer (Some 0))\<lparr>nStartTime := 2\<rparr>]"

lemma sample_timers_ok: "timers_ok sample_timers"
  by (auto simp: timers_ok_def sample_timers_def blank_timer_def split: if_splits)

theorem pause_is_transparent_witness:
  "\<exists>h1 h2. pauseTimer sample_timers 5000 1 = Some h1 \<and> getElapsedTimeImpl h1 7000 1 = Some 2 \<and>
     continueTimer h1 9000 1 = Some h2 \<and> getElapsedTimeImpl h2 10000 1 = Some 3"
proof -
  have "getElapsedTimeImpl sample_timers 5000 1 = Some 2" by code_simp
  moreover have "getCurrentTime sample_timers 9000 (Some 0) = Some 8" by code_simp
  moreover have "getCurrentTime sample_timers 10000 (Some 0) = Some 9" by code_simp
  moreover have "sample_timers 1 = Some ((blank_timer (Some 0))\<lparr>nStartTime := 2\<rparr>)" by (simp add: sample_timers_def)
  ultimately show ?thesis
    using pause_is_transparent [OF sample_timers_ok, of 1 _ 5000 9000]
    by (fastforce simp: blank_timer_def)
qed

text \<open>
  Adjusting a timer moves its elapsed time by the offset whether it runs, is paused or is
  held, moves every running timer based on it with it, and leaves the older timers alone.
\<close>

theorem adjust_moves_elapsed:
  assumes "timers_ok h" and "h i = Some t"
  shows "\<exists>e h'. getElapsedTimeImpl h s i = Some e \<and> adjustTimer h i nOffset = Some h' \<and>
    getElapsedTimeImpl h' s i = Some (e + nOffset) \<and>
    (\<forall>j \<in> dom h. j < i \<longrightarrow> getElapsedTimeImpl h' s j = getElapsedTimeImpl h s j) \<and>
    (\<forall>j tj ej. h j = Some tj \<and> aTimeBase tj = Some i \<and> \<not> frozen tj \<and> getElapsedTimeImpl h s j = Some ej \<longrightarrow>
       getElapsedTimeImpl h' s j = Some (ej + nOffset))"
proof -
  define t' where "t' = (let t1 = t\<lparr>nStartTime := nStartTime t - nOffset\<rparr>
    in if frozen t1 then t1\<lparr>nFrozenTime := nFrozenTime t1 + nOffset\<rparr> else t1)"
  have t': "aTimeBase t' = aTimeBase t" "frozen t' = frozen t" "nFrozenTime t' = nFrozenTime t + (if frozen t then nOffset else 0)"
    "nStartTime t' = nStartTime t - nOffset" by (auto simp: t'_def frozen_def Let_def)
  obtain c where c: "getCurrentTime h s (aTimeBase t) = Some c" using current_total [OF assms] by auto
  define e where "e = (if frozen t then nFrozenTime t else c - nStartTime t)"
  have e: "getElapsedTimeImpl h s i = Some e" using elapsed_unfold [of h i t s] assms(2) c by (simp add: e_def)
  have e': "getElapsedTimeImpl (h(i \<mapsto> t')) s i = Some (e + nOffset)"
    using elapsed_updated [OF assms t'(1), of s] c t' by (simp add: e_def)
  have child: "getElapsedTimeImpl (h(i \<mapsto> t')) s j = Some (ej + nOffset)"
    if j: "h j = Some tj" "aTimeBase tj = Some i" "\<not> frozen tj" "getElapsedTimeImpl h s j = Some ej" for j tj ej
  proof -
    have "i < j" using timers_okD [OF assms(1) j(1,2)] by simp
    then have "(h(i \<mapsto> t')) j = Some tj" using j(1) by simp
    then show ?thesis
      using elapsed_unfold [of h j tj s] elapsed_unfold [of "h(i \<mapsto> t')" j tj s] j e e'
      by (simp add: getCurrentTime_def)
  qed
  have "adjustTimer h i nOffset = Some (h(i \<mapsto> t'))"
    using assms(2) by (simp add: adjustTimer_def t'_def Let_def)
  then show ?thesis
    using e e' child elapsed_frame [OF assms(1), of _ i "Some t'" s] by (intro exI conjI) (assumption | blast)+
qed

theorem adjust_moves_elapsed_witness:
  "\<exists>h'. adjustTimer sample_timers 0 (-1) = Some h' \<and> getElapsedTimeImpl h' 5000 0 = Some 3 \<and>
     getElapsedTimeImpl h' 5000 1 = Some 1"
proof -
  have "getElapsedTimeImpl sample_timers 5000 0 = Some 4" by code_simp
  moreover have "getElapsedTimeImpl sample_timers 5000 1 = Some 2" by code_simp
  moreover have "sample_timers 0 = Some ((blank_timer None)\<lparr>nStartTime := 1\<rparr>)"
    "sample_timers 1 = Some ((blank_timer (Some 0))\<lparr>nStartTime := 2\<rparr>)" by (simp_all add: sample_timers_def)
  ultimately show ?thesis
    using adjust_moves_elapsed [OF sample_timers_ok, of 0 _ 5000 "-1"]
    by (fastforce simp: blank_timer_def frozen_def)
qed

end
