(* ===== verification/Priority_Queue.thy ===== *)
theory Priority_Queue
  imports Js_Sort
begin

section \<open>The priority queue of the slide show\<close>

text \<open>
  \<open>PriorityQueue\<close> and \<open>PriorityEntry\<close> of \<open>browser/src/slideshow/engine/tools.ts\<close> and
  \<open>EventEntry\<close> of \<open>TimerEventQueue.ts\<close>. The queue is an array that is sorted after every push,
  by a comparison given to the constructor; the top is the last element.

  What the queue promises to its clients is proved in the locale \<open>sort_order\<close> of a comparison
  that orders by a key, the top of the queue having the least. Both comparisons of the engine
  are instances, with the activation time and with the negated priority as keys.
\<close>

type_synonym 'a pqueue = "'a list"

definition pq_top :: "'a pqueue \<Rightarrow> 'a option" where
  "pq_top q = js_last q"

definition pq_isEmpty :: "'a pqueue \<Rightarrow> bool" where
  "pq_isEmpty q \<longleftrightarrow> q = []"

definition pq_push :: "('a \<Rightarrow> 'a \<Rightarrow> int) \<Rightarrow> 'a \<Rightarrow> 'a pqueue \<Rightarrow> 'a pqueue" where
  "pq_push cmp x q = js_sort cmp (x # q)"

definition pq_clear :: "'a pqueue \<Rightarrow> 'a pqueue" where
  "pq_clear q = []"

definition pq_pop :: "'a pqueue \<Rightarrow> 'a option \<times> 'a pqueue" where
  "pq_pop q = (js_last q, butlast q)"

text \<open>The loop copies every element; the arrays of the engine have no holes.\<close>

definition pq_clone :: "'a pqueue \<Rightarrow> 'a pqueue" where
  "pq_clone q = fold (\<lambda>x dest. dest @ [x]) q []"

record 'a priority_entry =
  pe_aValue :: 'a
  pe_nPriority :: int

definition PriorityEntry_compare :: "'a priority_entry \<Rightarrow> 'a priority_entry \<Rightarrow> int" where
  "PriorityEntry_compare l r =
     (if pe_nPriority l < pe_nPriority r then -1 else if pe_nPriority l > pe_nPriority r then 1 else 0)"

record event_entry =
  ee_aEvent :: nat
  ee_nActivationTime :: num

definition EventEntry_compare :: "event_entry \<Rightarrow> event_entry \<Rightarrow> int" where
  "EventEntry_compare l r =
     (if ee_nActivationTime l > ee_nActivationTime r then -1
      else if ee_nActivationTime l < ee_nActivationTime r then 1 else 0)"

text \<open>The elements of a queue in the order in which popping until it is empty gives them.\<close>

function pq_drain :: "'a pqueue \<Rightarrow> 'a list" where
  "pq_drain q = (if pq_isEmpty q then [] else
     case pq_pop q of (None, q') \<Rightarrow> [] | (Some x, q') \<Rightarrow> x # pq_drain q')"
  by pat_completeness auto
termination
  by (relation "measure length") (auto simp: pq_isEmpty_def pq_pop_def)

declare pq_drain.simps [simp del]

lemma pq_drain_rev: "pq_drain q = rev q"
proof (induction q rule: rev_induct)
  case Nil
  then show ?case by (simp add: pq_drain.simps pq_isEmpty_def)
next
  case (snoc x q)
  then show ?case by (subst pq_drain.simps) (simp add: pq_isEmpty_def pq_pop_def js_last_def)
qed

lemma pq_clone_id: "pq_clone q = q"
proof -
  have "fold (\<lambda>x dest. dest @ [x]) q acc = acc @ q" for acc by (induction q arbitrary: acc) auto
  then show ?thesis by (simp add: pq_clone_def)
qed

lemma set_pq_push [simp]: "set (pq_push cmp x q) = insert x (set q)"
  by (simp add: pq_push_def)

subsection \<open>Filling and draining\<close>

context sort_order
begin

text \<open>A queue filled by pushes.\<close>

lemma fold_push:
  defines "q es \<equiv> fold (pq_push cmp) es []"
  shows "mset (q es) = mset es" and "sorted (map key (rev (q es)))"
    and "filter (\<lambda>y. k = key y) (q es) = rev (filter (\<lambda>y. k = key y) es)"
proof -
  have "mset (q es) = mset es \<and> sorted (map key (rev (q es))) \<and>
      filter (\<lambda>y. k = key y) (q es) = rev (filter (\<lambda>y. k = key y) es)"
    by (induction es rule: rev_induct) (auto simp: q_def pq_push_def sorted_js_sort stable_js_sort)
  then show "mset (q es) = mset es" "sorted (map key (rev (q es)))"
    "filter (\<lambda>y. k = key y) (q es) = rev (filter (\<lambda>y. k = key y) es)" by auto
qed

lemma drain_sorted_stable: "pq_drain (fold (pq_push cmp) es []) = sort_key key es"
proof -
  have "sort_key key es = rev (fold (pq_push cmp) es [])"
    by (rule properties_for_sort_key) (simp_all add: fold_push rev_filter [symmetric])
  then show ?thesis by (simp add: pq_drain_rev)
qed

text \<open>On a sorted queue the sort after a push only places the new element.\<close>

lemma push_sorted:
  assumes "sorted (map key (rev q))"
  shows "pq_push cmp x q = js_ins cmp x q" and "sorted (map key (rev (pq_push cmp x q)))"
proof -
  show "pq_push cmp x q = js_ins cmp x q" using js_sort_sorted [OF assms] by (simp add: pq_push_def js_sort_def)
  show "sorted (map key (rev (pq_push cmp x q)))" by (simp add: pq_push_def sorted_js_sort)
qed

lemma push_before:
  assumes "sorted (map key (rev (xs @ ys)))" and "\<forall>y \<in> set ys. key y \<le> key x"
  shows "pq_push cmp x (xs @ ys) = pq_push cmp x xs @ ys"
proof -
  have "sorted (map key (rev xs))" using assms(1) by (simp add: sorted_append)
  then show ?thesis using push_sorted(1) assms js_ins_before by simp
qed

lemma top_least:
  assumes "sorted (map key (rev q))" and "pq_top q = Some x" and "y \<in> set q"
  shows "key x \<le> key y"
proof -
  from assms(2) obtain q' where "q = q' @ [x]"
    by (cases q rule: rev_cases) (auto simp: pq_top_def js_last_def)
  with assms(1,3) show ?thesis by (auto simp: sorted_append)
qed

end

interpretation ee: sort_order EventEntry_compare ee_nActivationTime
  by unfold_locales (auto simp: EventEntry_compare_def)

interpretation pe: sort_order PriorityEntry_compare "\<lambda>e. - pe_nPriority e"
  by unfold_locales (auto simp: PriorityEntry_compare_def)

subsection \<open>Properties\<close>

text \<open>
  Events pushed in any order are popped by increasing activation time, and those of the
  same time in the order of the pushes.
\<close>

theorem events_pop_in_order:
  "pq_drain (fold (pq_push EventEntry_compare) es []) = sort_key ee_nActivationTime es"
  by (rule ee.drain_sorted_stable)

text \<open>
  Handlers are popped by decreasing priority, and those of the same priority in the order
  in which they were registered.
\<close>

theorem handlers_pop_in_order:
  "pq_drain (fold (pq_push PriorityEntry_compare) es []) = sort_key (\<lambda>e. - pe_nPriority e) es"
  by (rule pe.drain_sorted_stable)

end
