(* ===== verification/Slide_Events.thy ===== *)
theory Slide_Events
  imports Elapsed_Time Priority_Queue "HOL-Library.Sublist"
begin

section \<open>Events and activities of the slide show\<close>

text \<open>
  \<open>browser/src/slideshow/engine/\<close>: the events of \<open>Event.ts\<close>, \<open>TimerEventQueue.ts\<close>,
  \<open>ActivityQueue.ts\<close> and \<open>NextEffectEventArray.ts\<close>. The two queues share the timer of the show
  and call each other through the events, so they are one state: the system clock, the store
  of timers, the store of events (an event is its address, which also is its id), the array
  of the event queue, the three arrays of the activity queue, and \<open>sh_rest\<close>, whatever else
  the callbacks of the engine change.

  A callback is a value of type \<open>'f\<close>; \<open>run\<close> says what calling it does, and the record of
  methods says what the methods of an activity do (\<open>AnimationActivity\<close> is abstract). They may
  change any part of the state, including the queue that is being processed. An operation
  returns \<open>Some (Inr \<dots>)\<close>, throws as \<open>Some (Inl \<dots>)\<close>, or does not return as \<open>None\<close>. The debugging
  output is left out.
\<close>

datatype ('f, 'a) event =
    DelayEvent (de_aFunctor: 'f) (de_nTimeout: num) (de_bWasFired: bool)
  | WakeupEvent (we_aTimer: nat) (we_nNextTime: num) (we_aActivity: "'a option")

record ('f, 'a, 'x) show_state =
  sh_clock :: num
  sh_timers :: timers
  sh_aTimer :: nat
  sh_events :: "nat \<rightharpoonup> ('f, 'a) event"
  sh_queue :: "event_entry pqueue"
  sh_waiting :: "'a list"
  sh_reinsert :: "'a list"
  sh_dequeued :: "'a list"
  sh_rest :: 'x

type_synonym 'w outcome = "(js_error + 'w) option"

definition returns :: "'w \<Rightarrow> 'w outcome" where
  "returns w = Some (Inr w)"

definition throws :: "js_error \<Rightarrow> 'w outcome" where
  "throws e = Some (Inl e)"

definition andThen :: "'v outcome \<Rightarrow> ('v \<Rightarrow> 'w outcome) \<Rightarrow> 'w outcome" where
  "andThen m k = Option.bind m (\<lambda>r. case r of Inl e \<Rightarrow> Some (Inl e) | Inr v \<Rightarrow> k v)"

lemma andThen_simps [simp]:
  "andThen (Some (Inr v)) k = k v" "andThen (Some (Inl e)) k = Some (Inl e)" "andThen None k = None"
  by (simp_all add: andThen_def)

text \<open>Reading a timer of the state; a reading is remembered in the timer.\<close>

definition read_timer :: "nat \<Rightarrow> ('f, 'a, 'x) show_state \<Rightarrow> (num \<times> ('f, 'a, 'x) show_state) outcome" where
  "read_timer i w =
     map_option (\<lambda>(now, h). Inr (now, w\<lparr>sh_timers := h\<rparr>)) (getElapsedTime (sh_timers w) (sh_clock w) i)"

subsection \<open>Events\<close>

definition addActivity :: "'a option \<Rightarrow> ('f, 'a, 'x) show_state \<Rightarrow> bool \<times> ('f, 'a, 'x) show_state" where
  "addActivity aActivity w =
     (case aActivity of None \<Rightarrow> (False, w) | Some a \<Rightarrow> (True, w\<lparr>sh_waiting := sh_waiting w @ [a]\<rparr>))"

fun isCharged :: "('f, 'a) event \<Rightarrow> bool" where
  "isCharged (DelayEvent f nTimeout bWasFired) = (\<not> bWasFired)"
| "isCharged (WakeupEvent t nNextTime a) = True"

definition fire ::
    "('f \<Rightarrow> ('f, 'a, 'x) show_state \<Rightarrow> ('f, 'a, 'x) show_state outcome) \<Rightarrow> nat \<Rightarrow>
     ('f, 'a, 'x) show_state \<Rightarrow> (bool \<times> ('f, 'a, 'x) show_state) outcome" where
  "fire run i w =
     (case sh_events w i of
        None \<Rightarrow> throws TypeError
      | Some (DelayEvent f nTimeout bWasFired) \<Rightarrow>
          if \<not> isCharged (DelayEvent f nTimeout bWasFired :: ('f, 'a) event)
          then throws (ErrorMsg ''DelayEvent.fire: assertion isCharged failed'')
          else andThen (run f (w\<lparr>sh_events := (sh_events w)(i \<mapsto> DelayEvent f nTimeout True)\<rparr>))
                 (\<lambda>w'. returns (True, w'))
      | Some (WakeupEvent t nNextTime a) \<Rightarrow> (case a of None \<Rightarrow> returns (False, w) | Some _ \<Rightarrow> returns (addActivity a w)))"

definition getActivationTime ::
    "nat \<Rightarrow> num \<Rightarrow> ('f, 'a, 'x) show_state \<Rightarrow> (num \<times> ('f, 'a, 'x) show_state) outcome" where
  "getActivationTime i nCurrentTime w =
     (case sh_events w i of
        None \<Rightarrow> throws TypeError
      | Some (DelayEvent f nTimeout bWasFired) \<Rightarrow> returns (nTimeout + nCurrentTime, w)
      | Some (WakeupEvent t nNextTime a) \<Rightarrow>
          andThen (read_timer t w)
            (\<lambda>(nElapsedTime, w'). returns (max nCurrentTime (nCurrentTime - nElapsedTime + nNextTime), w')))"

fun dispose_event :: "('f, 'a) event \<Rightarrow> ('f, 'a) event" where
  "dispose_event (DelayEvent f nTimeout bWasFired) = DelayEvent f nTimeout (if \<not> bWasFired then True else bWasFired)"
| "dispose_event (WakeupEvent t nNextTime a) = WakeupEvent t nNextTime None"

fun charge :: "('f, 'a) event \<Rightarrow> ('f, 'a) event" where
  "charge (DelayEvent f nTimeout bWasFired) = DelayEvent f nTimeout (if bWasFired then False else bWasFired)"
| "charge e = e"

definition makeEvent :: "'f \<Rightarrow> ('f, 'a) event" where
  "makeEvent f = DelayEvent f 0 False"

definition makeDelay :: "'f \<Rightarrow> num \<Rightarrow> ('f, 'a) event" where
  "makeDelay f nTimeout = DelayEvent f nTimeout False"

text \<open>A wake-up event has a timer of its own, at the new address \<open>i\<close>, based on the given one.\<close>

definition new_WakeupEvent :: "timers \<Rightarrow> num \<Rightarrow> nat \<Rightarrow> nat \<Rightarrow> (('f, 'a) event \<times> timers) option" where
  "new_WakeupEvent h sys i aTimer = map_option (\<lambda>h'. (WakeupEvent i 0 None, h')) (ElapsedTime h sys i (Some aTimer))"

definition WakeupEvent_clone ::
    "timers \<Rightarrow> num \<Rightarrow> nat \<Rightarrow> ('f, 'a) event \<Rightarrow> (('f, 'a) event \<times> timers) option" where
  "WakeupEvent_clone h sys i e =
     (case e of
        WakeupEvent t nNextTime a \<Rightarrow>
          Option.bind (h t) (\<lambda>tm.
            map_option (\<lambda>h'. (WakeupEvent i nNextTime a, h')) (ElapsedTime h sys i (getTimeBase tm)))
      | DelayEvent _ _ _ \<Rightarrow> None)"

fun setNextTimeout :: "num \<Rightarrow> ('f, 'a) event \<Rightarrow> ('f, 'a) event" where
  "setNextTimeout n (WakeupEvent t nNextTime a) = WakeupEvent t n a"
| "setNextTimeout n e = e"

fun setActivity :: "'a \<Rightarrow> ('f, 'a) event \<Rightarrow> ('f, 'a) event" where
  "setActivity x (WakeupEvent t nNextTime a) = WakeupEvent t nNextTime (Some x)"
| "setActivity x e = e"

text \<open>\<open>WakeupEvent.start\<close>.\<close>

definition wakeup_start :: "timers \<Rightarrow> num \<Rightarrow> ('f, 'a) event \<Rightarrow> timers option" where
  "wakeup_start h sys e = (case e of WakeupEvent t _ _ \<Rightarrow> reset h sys t | DelayEvent _ _ _ \<Rightarrow> None)"

subsection \<open>The timer event queue\<close>

text \<open>The id of the event is read before the test for null, so a missing event throws.\<close>

definition addEvent ::
    "nat option \<Rightarrow> ('f, 'a, 'x) show_state \<Rightarrow> (bool \<times> ('f, 'a, 'x) show_state) outcome" where
  "addEvent aEvent w =
     (case aEvent of
        None \<Rightarrow> throws TypeError
      | Some i \<Rightarrow>
          andThen (read_timer (sh_aTimer w) w) (\<lambda>(now, w1).
          andThen (getActivationTime i now w1) (\<lambda>(nTime, w2).
            returns (True, w2\<lparr>sh_queue := pq_push EventEntry_compare
              \<lparr>ee_aEvent = i, ee_nActivationTime = nTime\<rparr> (sh_queue w2)\<rparr>))))"

text \<open>The loop of \<open>process_\<close>: the events may add others, so it may not end.\<close>

partial_function (option) process_loop ::
    "('f \<Rightarrow> ('f, 'a, 'x) show_state \<Rightarrow> ('f, 'a, 'x) show_state outcome) \<Rightarrow> bool \<Rightarrow> num \<Rightarrow>
     ('f, 'a, 'x) show_state \<Rightarrow> ('f, 'a, 'x) show_state outcome" where
  [code]: "process_loop run bFireAllEvents nCurrentTime w =
     (case pq_top (sh_queue w) of
        None \<Rightarrow> Some (Inr w)
      | Some aEventEntry \<Rightarrow>
          if bFireAllEvents \<or> ee_nActivationTime aEventEntry \<le> nCurrentTime then
            (let w1 = w\<lparr>sh_queue := snd (pq_pop (sh_queue w))\<rparr>
             in case sh_events w1 (ee_aEvent aEventEntry) of
                  None \<Rightarrow> Some (Inl TypeError)
                | Some aEvent \<Rightarrow>
                    if isCharged aEvent then
                      Option.bind (fire run (ee_aEvent aEventEntry) w1)
                        (\<lambda>r. case r of Inl e \<Rightarrow> Some (Inl e)
                                     | Inr v \<Rightarrow> process_loop run bFireAllEvents nCurrentTime (snd v))
                    else process_loop run bFireAllEvents nCurrentTime w1)
          else Some (Inr w))"

definition process_queue ::
    "('f \<Rightarrow> ('f, 'a, 'x) show_state \<Rightarrow> ('f, 'a, 'x) show_state outcome) \<Rightarrow> bool \<Rightarrow>
     ('f, 'a, 'x) show_state \<Rightarrow> ('f, 'a, 'x) show_state outcome" where
  "process_queue run bFireAllEvents w =
     andThen (read_timer (sh_aTimer w) w) (\<lambda>(nCurrentTime, w1). process_loop run bFireAllEvents nCurrentTime w1)"

definition process_events where
  "process_events run w = process_queue run False w"

definition forceEmpty where
  "forceEmpty run w = process_queue run True w"

definition max_value :: num where
  "max_value = (2 - 1 / 2 ^ 52) * 2 ^ 1023"

definition nextTimeout :: "('f, 'a, 'x) show_state \<Rightarrow> (num \<times> ('f, 'a, 'x) show_state) outcome" where
  "nextTimeout w =
     andThen (read_timer (sh_aTimer w) w) (\<lambda>(nCurrentTime, w1).
       returns (case pq_top (sh_queue w1) of
                  None \<Rightarrow> max_value | Some e \<Rightarrow> ee_nActivationTime e - nCurrentTime, w1))"

definition clear_events :: "('f, 'a, 'x) show_state \<Rightarrow> ('f, 'a, 'x) show_state" where
  "clear_events w = w\<lparr>sh_queue := pq_clear (sh_queue w)\<rparr>"

subsection \<open>The activity queue\<close>

record ('a, 'w) activity_methods =
  am_calcTimeLag :: "'a \<Rightarrow> 'w \<Rightarrow> (num \<times> 'w) outcome"
  am_perform :: "'a \<Rightarrow> 'w \<Rightarrow> (bool \<times> 'w) outcome"
  am_dequeued :: "'a \<Rightarrow> 'w \<Rightarrow> 'w outcome"
  am_end :: "'a \<Rightarrow> 'w \<Rightarrow> 'w outcome"

text \<open>
  A \<open>for\<close> loop over an array of the state whose length is read before the loop and whose
  elements are read as it goes; the number left to do counts down.
\<close>

fun for_live :: "('w \<Rightarrow> 'a list) \<Rightarrow> ('a \<Rightarrow> 'w \<Rightarrow> 'w outcome) \<Rightarrow> nat \<Rightarrow> nat \<Rightarrow> 'w \<Rightarrow> 'w outcome" where
  "for_live arr call i 0 w = returns w"
| "for_live arr call i (Suc n) w =
     (case js_nth (arr w) (int i) of
        None \<Rightarrow> throws TypeError | Some a \<Rightarrow> andThen (call a w) (for_live arr call (Suc i) n))"

fun lag_loop ::
    "('a, ('f, 'a, 'x) show_state) activity_methods \<Rightarrow> nat \<Rightarrow> nat \<Rightarrow> num \<Rightarrow>
     ('f, 'a, 'x) show_state \<Rightarrow> (num \<times> ('f, 'a, 'x) show_state) outcome" where
  "lag_loop am i 0 nLag w = returns (nLag, w)"
| "lag_loop am i (Suc n) nLag w =
     (case js_nth (sh_waiting w) (int i) of
        None \<Rightarrow> throws TypeError
      | Some a \<Rightarrow> andThen (am_calcTimeLag am a w) (\<lambda>(lag, w'). lag_loop am (Suc i) n (max nLag lag) w'))"

partial_function (option) perform_loop ::
    "('a, ('f, 'a, 'x) show_state) activity_methods \<Rightarrow> ('f, 'a, 'x) show_state \<Rightarrow>
     ('f, 'a, 'x) show_state outcome" where
  [code]: "perform_loop am w =
     (case sh_waiting w of
        [] \<Rightarrow> Some (Inr w)
      | a # rest \<Rightarrow>
          Option.bind (am_perform am a (w\<lparr>sh_waiting := rest\<rparr>))
            (\<lambda>r. case r of
               Inl e \<Rightarrow> Some (Inl e)
             | Inr v \<Rightarrow>
                 perform_loop am
                   (if fst v then (snd v)\<lparr>sh_reinsert := sh_reinsert (snd v) @ [a]\<rparr>
                    else (snd v)\<lparr>sh_dequeued := sh_dequeued (snd v) @ [a]\<rparr>)))"

definition adjust_show :: "num \<Rightarrow> ('f, 'a, 'x) show_state \<Rightarrow> ('f, 'a, 'x) show_state outcome" where
  "adjust_show off w = map_option (\<lambda>h. Inr (w\<lparr>sh_timers := h\<rparr>)) (adjustTimer (sh_timers w) (sh_aTimer w) off)"

definition process_activities ::
    "('a, ('f, 'a, 'x) show_state) activity_methods \<Rightarrow> ('f, 'a, 'x) show_state \<Rightarrow>
     ('f, 'a, 'x) show_state outcome" where
  "process_activities am w =
     andThen (lag_loop am 0 (length (sh_waiting w)) 0 w) (\<lambda>(nLag, w1).
     andThen (if nLag > 0 then adjust_show (- nLag) w1 else returns w1) (\<lambda>w2.
     andThen (perform_loop am w2) (\<lambda>w3.
       returns (if sh_reinsert w3 \<noteq> [] then w3\<lparr>sh_waiting := sh_reinsert w3, sh_reinsert := []\<rparr> else w3))))"

definition processDequeued where
  "processDequeued am w =
     andThen (for_live sh_dequeued (am_dequeued am) 0 (length (sh_dequeued w)) w)
       (\<lambda>w'. returns (w'\<lparr>sh_dequeued := []\<rparr>))"

definition no_activities :: "('f, 'a, 'x) show_state \<Rightarrow> bool" where
  "no_activities w \<longleftrightarrow> sh_waiting w = [] \<and> sh_reinsert w = []"

text \<open>\<open>clear\<close> and \<open>endAll\<close> differ in the method they call.\<close>

definition drop_activities where
  "drop_activities call w =
     andThen (for_live sh_waiting call 0 (length (sh_waiting w)) w) (\<lambda>w1.
       let w2 = w1\<lparr>sh_waiting := []\<rparr>
       in andThen (for_live sh_reinsert call 0 (length (sh_reinsert w2)) w2) (\<lambda>w3.
            returns (w3\<lparr>sh_reinsert := []\<rparr>)))"

definition clear_activities where
  "clear_activities am w = drop_activities (am_dequeued am) w"

definition endAll where
  "endAll am w = drop_activities (am_end am) w"

definition activities_size :: "('f, 'a, 'x) show_state \<Rightarrow> nat" where
  "activities_size w = length (sh_waiting w) + length (sh_reinsert w) + length (sh_dequeued w)"

subsection \<open>The events of the next effects\<close>

text \<open>\<open>NextEffectEventArray\<close>: an array of events without repetition; an event is its id.\<close>

fun has_event :: "nat list \<Rightarrow> nat \<Rightarrow> bool" where
  "has_event [] aEvent = False"
| "has_event (e # es) aEvent = (if e = aEvent then True else has_event es aEvent)"

definition appendEvent :: "nat \<Rightarrow> nat list \<Rightarrow> bool \<times> nat list" where
  "appendEvent aEvent es = (if has_event es aEvent then (False, es) else (True, es @ [aEvent]))"

definition clear_effects :: "nat list \<Rightarrow> nat list" where
  "clear_effects es = []"

end
