(* ===== verification/Slide_Properties.thy ===== *)
theory Slide_Properties
  imports Slide_Events
begin

section \<open>Properties of the events and activities of the slide show\<close>

text \<open>
  What the queues of \<open>Slide_Events\<close> do with their callbacks: which events \<open>process\<close> and
  \<open>forceEmpty\<close> fire and in which order, what becomes of the activities, when a wake-up event
  is due.
\<close>

declare returns_def [simp] throws_def [simp]

subsection \<open>Firing the due events\<close>

definition due :: "bool \<Rightarrow> num \<Rightarrow> event_entry \<Rightarrow> bool" where
  "due bAll now e \<longleftrightarrow> bAll \<or> ee_nActivationTime e \<le> now"

text \<open>
  Callbacks that do not look at the event queue and only add events to it that are not due
  in this round; what else they do is arbitrary.
\<close>

definition defers ::
    "bool \<Rightarrow> num \<Rightarrow> ('f \<Rightarrow> ('f, 'a, 'x) show_state \<Rightarrow> ('f, 'a, 'x) show_state outcome) \<Rightarrow> bool" where
  "defers bAll now run \<longleftrightarrow>
     (\<exists>g new. \<forall>f w.
        run f w = returns ((g f (w\<lparr>sh_queue := []\<rparr>))\<lparr>sh_queue :=
          fold (pq_push EventEntry_compare) (new f (w\<lparr>sh_queue := []\<rparr>)) (sh_queue w)\<rparr>) \<and>
        dom (sh_events w) \<subseteq> dom (sh_events (g f w)) \<and> (\<forall>e \<in> set (new f w). \<not> due bAll now e))"

text \<open>The reference: fire one entry if its event is charged.\<close>

definition fire_entry ::
    "('f \<Rightarrow> ('f, 'a, 'x) show_state \<Rightarrow> ('f, 'a, 'x) show_state outcome) \<Rightarrow> event_entry \<Rightarrow>
     ('f, 'a, 'x) show_state \<Rightarrow> ('f, 'a, 'x) show_state" where
  "fire_entry run e w =
     (case sh_events w (ee_aEvent e) of
        None \<Rightarrow> w
      | Some ev \<Rightarrow> if isCharged ev
          then (case fire run (ee_aEvent e) w of Some (Inr (b, w')) \<Rightarrow> w' | _ \<Rightarrow> w) else w)"

abbreviation sorted_queue :: "event_entry pqueue \<Rightarrow> bool" where
  "sorted_queue q \<equiv> sorted (map ee_nActivationTime (rev q))"

lemma sorted_fold_push:
  "sorted_queue q \<Longrightarrow> sorted_queue (fold (pq_push EventEntry_compare) es q)"
  by (induction es arbitrary: q) (simp_all add: ee.push_sorted(2))

lemma fold_push_before:
  assumes "sorted_queue (Q @ D)" and "\<forall>d \<in> set D. \<forall>e \<in> set es. ee_nActivationTime d \<le> ee_nActivationTime e"
  shows "fold (pq_push EventEntry_compare) es (Q @ D) = fold (pq_push EventEntry_compare) es Q @ D"
  using assms
proof (induction es arbitrary: Q)
  case (Cons e es)
  have before: "pq_push EventEntry_compare e (Q @ D) = pq_push EventEntry_compare e Q @ D"
    using Cons.prems by (intro ee.push_before) auto
  then have "sorted_queue (pq_push EventEntry_compare e Q @ D)"
    using ee.push_sorted(2) [OF Cons.prems(1), of e] by simp
  then show ?case using Cons before by simp
qed simp

lemma set_fold_push [simp]: "set (fold (pq_push cmp) es q) = set es \<union> set q"
  by (induction es arbitrary: q) auto

text \<open>
  Firing an entry does not depend on the due part of the queue, keeps it in place and keeps
  the queue sorted.
\<close>

lemma fire_entry_frame:
  assumes "defers bAll now run" and "sorted_queue (Q @ D)" and "\<forall>d \<in> set D. due bAll now d"
    and "sh_events w (ee_aEvent e) = Some ev" and "isCharged ev"
  shows "\<exists>b w'. fire run (ee_aEvent e) (w\<lparr>sh_queue := Q\<rparr>) = Some (Inr (b, w')) \<and>
    fire run (ee_aEvent e) (w\<lparr>sh_queue := Q @ D\<rparr>) = Some (Inr (b, w'\<lparr>sh_queue := sh_queue w' @ D\<rparr>)) \<and>
    sorted_queue (sh_queue w' @ D) \<and> dom (sh_events w) \<subseteq> dom (sh_events w') \<and>
    set (sh_queue w') \<subseteq> set Q \<union> {x. \<not> due bAll now x}"
proof (cases ev)
  case (DelayEvent f nTimeout fired)
  obtain g new where run: "\<And>f w. run f w = Some (Inr ((g f (w\<lparr>sh_queue := []\<rparr>))\<lparr>sh_queue :=
      fold (pq_push EventEntry_compare) (new f (w\<lparr>sh_queue := []\<rparr>)) (sh_queue w)\<rparr>))"
    and dom: "\<And>f w. dom (sh_events w) \<subseteq> dom (sh_events (g f w))"
    and later: "\<And>f w. \<forall>e \<in> set (new f w). \<not> due bAll now e"
    using assms(1) unfolding defers_def returns_def by metis
  define w0 where "w0 = w\<lparr>sh_events := (sh_events w)(ee_aEvent e \<mapsto> DelayEvent f nTimeout True), sh_queue := []\<rparr>"
  have times: "\<forall>d \<in> set D. \<forall>e \<in> set (new f w0). ee_nActivationTime d \<le> ee_nActivationTime e"
    using assms(3) later [of f w0] unfolding due_def by (meson linear order_trans)
  have "sh_queue (w'\<lparr>sh_queue := q\<rparr>) = q" for w' :: "('a, 'b, 'c) show_state" and q by simp
  moreover have "dom (sh_events w) \<subseteq> dom (sh_events (g f w0))"
    using dom [of w0 f] by (auto simp: w0_def)
  moreover note fold_push_before [OF assms(2) times] sorted_fold_push [OF assms(2), of "new f w0"] later [of f w0]
  ultimately show ?thesis
    using assms(4,5) DelayEvent run [of f]
    by (simp add: fire_def w0_def [symmetric]) (auto simp: w0_def)
next
  case (WakeupEvent t n a)
  then show ?thesis
    using assms(2,4) by (cases a) (auto simp: fire_def addActivity_def)
qed

lemma process_loop_fires:
  assumes "defers bAll now run" and "sorted_queue (Q @ D)" and "\<forall>d \<in> set D. due bAll now d"
    and "\<forall>d \<in> set Q. \<not> due bAll now d" and "\<forall>d \<in> set D. ee_aEvent d \<in> dom (sh_events w)"
  shows "process_loop run bAll now (w\<lparr>sh_queue := Q @ D\<rparr>) =
      Some (Inr (fold (fire_entry run) (rev D) (w\<lparr>sh_queue := Q\<rparr>)))"
    and "\<forall>d \<in> set (sh_queue (fold (fire_entry run) (rev D) (w\<lparr>sh_queue := Q\<rparr>))). \<not> due bAll now d"
proof -
  have "process_loop run bAll now (w\<lparr>sh_queue := Q @ D\<rparr>) =
      Some (Inr (fold (fire_entry run) (rev D) (w\<lparr>sh_queue := Q\<rparr>))) \<and>
      (\<forall>d \<in> set (sh_queue (fold (fire_entry run) (rev D) (w\<lparr>sh_queue := Q\<rparr>))). \<not> due bAll now d)"
    using assms(2-)
  proof (induction D arbitrary: Q w rule: rev_induct)
    case Nil
    then show ?case
      by (cases Q rule: rev_cases) (auto simp: process_loop.simps pq_top_def js_last_def due_def)
  next
    case (snoc e D)
    have top: "pq_top (Q @ D @ [e]) = Some e" "snd (pq_pop (Q @ D @ [e])) = Q @ D"
      by (simp_all add: pq_top_def pq_pop_def js_last_def butlast_append)
    have due: "bAll \<or> ee_nActivationTime e \<le> now" using snoc.prems(2) by (auto simp: due_def)
    obtain ev where ev: "sh_events w (ee_aEvent e) = Some ev" using snoc.prems by auto
    have sorted: "sorted_queue (Q @ D)" using snoc.prems(1) by (simp add: sorted_append)
    show ?case
    proof (cases "isCharged ev")
      case True
      obtain b w' where fire: "fire run (ee_aEvent e) (w\<lparr>sh_queue := Q\<rparr>) = Some (Inr (b, w'))"
        "fire run (ee_aEvent e) (w\<lparr>sh_queue := Q @ D\<rparr>) = Some (Inr (b, w'\<lparr>sh_queue := sh_queue w' @ D\<rparr>))"
        "sorted_queue (sh_queue w' @ D)" "dom (sh_events w) \<subseteq> dom (sh_events w')"
        "set (sh_queue w') \<subseteq> set Q \<union> {x. \<not> due bAll now x}"
        using fire_entry_frame [OF assms(1) sorted _ ev True] snoc.prems(2) by auto
      have "process_loop run bAll now (w'\<lparr>sh_queue := sh_queue w' @ D\<rparr>) =
          Some (Inr (fold (fire_entry run) (rev D) (w'\<lparr>sh_queue := sh_queue w'\<rparr>))) \<and>
          (\<forall>d \<in> set (sh_queue (fold (fire_entry run) (rev D) (w'\<lparr>sh_queue := sh_queue w'\<rparr>))). \<not> due bAll now d)"
      proof (rule snoc.IH)
        show "\<forall>d \<in> set D. ee_aEvent d \<in> dom (sh_events w')" using snoc.prems(4) fire(4) by fastforce
      qed (use snoc.prems fire in auto)
      then show ?thesis
        using top due ev True fire by (subst process_loop.simps) (simp add: fire_entry_def)
    next
      case False
      have "process_loop run bAll now (w\<lparr>sh_queue := Q @ D\<rparr>) =
          Some (Inr (fold (fire_entry run) (rev D) (w\<lparr>sh_queue := Q\<rparr>))) \<and>
          (\<forall>d \<in> set (sh_queue (fold (fire_entry run) (rev D) (w\<lparr>sh_queue := Q\<rparr>))). \<not> due bAll now d)"
        using snoc.prems sorted by (intro snoc.IH) auto
      then show ?thesis
        using top due ev False by (subst process_loop.simps) (simp add: fire_entry_def)
    qed
  qed
  then show "process_loop run bAll now (w\<lparr>sh_queue := Q @ D\<rparr>) =
      Some (Inr (fold (fire_entry run) (rev D) (w\<lparr>sh_queue := Q\<rparr>)))"
    "\<forall>d \<in> set (sh_queue (fold (fire_entry run) (rev D) (w\<lparr>sh_queue := Q\<rparr>))). \<not> due bAll now d" by auto
qed

lemma split_due:
  "sorted_queue q \<Longrightarrow> q = filter (\<lambda>e. \<not> due bAll now e) q @ filter (due bAll now) q"
  using ee.split_at_bound [of q now] by (cases bAll) (simp_all add: due_def [abs_def] not_le)

text \<open>Adding an event keeps the queue sorted.\<close>

lemma addEvent_sorted:
  assumes "addEvent (Some i) w = Some (Inr (b, w'))" and "sorted_queue (sh_queue w)"
  shows "sorted_queue (sh_queue w')"
  using assms
  by (auto simp: addEvent_def andThen_def read_timer_def getActivationTime_def ee.push_sorted(2)
      split: option.splits event.splits bind_splits sum.splits)

lemma read_timer_total:
  assumes "timers_ok (sh_timers w)" and "i \<in> dom (sh_timers w)"
    and "getElapsedTimeImpl (sh_timers w) (sh_clock w) i = Some now"
  shows "\<exists>h. read_timer i w = Some (Inr (now, w\<lparr>sh_timers := h\<rparr>)) \<and> timers_ok h \<and> dom h = dom (sh_timers w)"
proof -
  obtain e h where "getElapsedTime (sh_timers w) (sh_clock w) i = Some (e, h)" "timers_ok h" "dom h = dom (sh_timers w)"
    using timer_ops_ok(2) [OF assms(1,2)] by blast
  moreover from this(1) assms(3) have "e = now" by (simp add: getElapsedTime_def split: option.splits)
  ultimately show ?thesis by (auto simp: read_timer_def)
qed

subsection \<open>Activities\<close>

text \<open>Methods that return and leave the activity queue to itself.\<close>

definition same_activities :: "('f, 'a, 'x) show_state \<Rightarrow> ('f, 'a, 'x) show_state \<Rightarrow> bool" where
  "same_activities w w' \<longleftrightarrow> sh_waiting w' = sh_waiting w \<and> sh_reinsert w' = sh_reinsert w \<and>
     sh_dequeued w' = sh_dequeued w \<and> sh_aTimer w' = sh_aTimer w \<and> dom (sh_timers w) \<subseteq> dom (sh_timers w')"

definition orderly :: "('a, ('f, 'a, 'x) show_state) activity_methods \<Rightarrow> bool" where
  "orderly am \<longleftrightarrow> (\<forall>a w. (\<exists>lag w'. am_calcTimeLag am a w = returns (lag, w') \<and> same_activities w w') \<and>
     (\<exists>b w'. am_perform am a w = returns (b, w') \<and> same_activities w w'))"

lemma lag_loop_same:
  assumes "orderly am" and "i + n \<le> length (sh_waiting w)"
  shows "\<exists>m w'. lag_loop am i n nLag w = Some (Inr (m, w')) \<and> same_activities w w'"
  using assms(2)
proof (induction n arbitrary: i nLag w)
  case 0
  then show ?case by (simp add: same_activities_def)
next
  case (Suc n)
  define a where "a = sh_waiting w ! i"
  obtain lag w1 where w1: "am_calcTimeLag am a w = Some (Inr (lag, w1))" "same_activities w w1"
    using assms(1) unfolding orderly_def returns_def by blast
  obtain m w2 where "lag_loop am (Suc i) n (max nLag lag) w1 = Some (Inr (m, w2))" "same_activities w1 w2"
    using Suc.IH [of "Suc i" w1 "max nLag lag"] Suc.prems w1(2) by (auto simp: same_activities_def)
  with w1 Suc.prems show ?case by (auto simp: a_def [symmetric] same_activities_def)
qed

lemma perform_loop_splits:
  assumes "orderly am"
  shows "\<exists>w' keep out. perform_loop am w = Some (Inr w') \<and> sh_waiting w' = [] \<and>
    sh_reinsert w' = sh_reinsert w @ keep \<and> sh_dequeued w' = sh_dequeued w @ out \<and>
    sh_waiting w \<in> shuffles keep out"
proof (induction "sh_waiting w" arbitrary: w)
  case Nil
  then show ?case by (subst perform_loop.simps) simp
next
  case (Cons a rest)
  obtain b w1 where w1: "am_perform am a (w\<lparr>sh_waiting := rest\<rparr>) = Some (Inr (b, w1))"
    "same_activities (w\<lparr>sh_waiting := rest\<rparr>) w1"
    using assms unfolding orderly_def returns_def by blast
  define w2 where "w2 = (if b then w1\<lparr>sh_reinsert := sh_reinsert w1 @ [a]\<rparr>
    else w1\<lparr>sh_dequeued := sh_dequeued w1 @ [a]\<rparr>)"
  have rest: "rest = sh_waiting w2" using w1(2) by (simp add: w2_def same_activities_def)
  obtain w' keep out where w': "perform_loop am w2 = Some (Inr w')" "sh_waiting w' = []"
    "sh_reinsert w' = sh_reinsert w2 @ keep" "sh_dequeued w' = sh_dequeued w2 @ out" "rest \<in> shuffles keep out"
    using Cons.hyps(1) [OF rest] rest by auto
  have "perform_loop am w = Some (Inr w')"
    using Cons.hyps(2) [symmetric] w1(1) w'(1) by (cases b; subst perform_loop.simps) (simp_all add: w2_def)
  moreover have "sh_reinsert w' = sh_reinsert w @ (if b then a # keep else keep)"
    "sh_dequeued w' = sh_dequeued w @ (if b then out else a # out)"
    using w' w1(2) by (auto simp: w2_def same_activities_def)
  moreover have "a # rest \<in> shuffles (if b then a # keep else keep) (if b then out else a # out)"
    using w'(5) by (simp add: Cons_in_shuffles_leftI Cons_in_shuffles_rightI)
  ultimately show ?case using w'(2) Cons.hyps(2) by metis
qed

subsection \<open>Properties\<close>

text \<open>
  C15. Processing the event queue fires the charged events that are due (all of them when
  forced), earliest first, each seeing the effects of the ones before, and leaves the others
  and the later ones that were added; it returns when the callbacks only add events that
  are not due.
\<close>

theorem process_fires_due:
  assumes "timers_ok (sh_timers w)" and "sh_aTimer w \<in> dom (sh_timers w)"
    and "getElapsedTimeImpl (sh_timers w) (sh_clock w) (sh_aTimer w) = Some now"
    and "sorted_queue (sh_queue w)" and "\<forall>e \<in> set (sh_queue w). ee_aEvent e \<in> dom (sh_events w)"
    and "defers bAll now run"
  shows "\<exists>h w'. read_timer (sh_aTimer w) w = returns (now, w\<lparr>sh_timers := h\<rparr>) \<and>
    process_queue run bAll w = returns w' \<and>
    w' = fold (fire_entry run) (rev (filter (due bAll now) (sh_queue w)))
           (w\<lparr>sh_timers := h, sh_queue := filter (\<lambda>e. \<not> due bAll now e) (sh_queue w)\<rparr>) \<and>
    (\<forall>e \<in> set (sh_queue w'). \<not> due bAll now e)"
proof -
  obtain h where h: "read_timer (sh_aTimer w) w = Some (Inr (now, w\<lparr>sh_timers := h\<rparr>))"
    using read_timer_total [OF assms(1-3)] by auto
  define Q D where "Q = filter (\<lambda>e. \<not> due bAll now e) (sh_queue w)" and "D = filter (due bAll now) (sh_queue w)"
  have q: "sh_queue w = Q @ D" unfolding Q_def D_def by (rule split_due [OF assms(4)])
  have w1: "w\<lparr>sh_timers := h\<rparr> = w\<lparr>sh_timers := h, sh_queue := Q @ D\<rparr>"
    unfolding q [symmetric] by simp
  have "\<forall>d \<in> set D. due bAll now d" "\<forall>d \<in> set Q. \<not> due bAll now d"
    "\<forall>d \<in> set D. ee_aEvent d \<in> dom (sh_events (w\<lparr>sh_timers := h\<rparr>))"
    using assms(5) by (auto simp: Q_def D_def)
  moreover have "sorted_queue (Q @ D)" using assms(4) by (simp only: q)
  ultimately have loop: "process_loop run bAll now (w\<lparr>sh_timers := h, sh_queue := Q @ D\<rparr>) =
      Some (Inr (fold (fire_entry run) (rev D) (w\<lparr>sh_timers := h, sh_queue := Q\<rparr>)))"
    "\<forall>d \<in> set (sh_queue (fold (fire_entry run) (rev D) (w\<lparr>sh_timers := h, sh_queue := Q\<rparr>))). \<not> due bAll now d"
    using process_loop_fires [OF assms(6), of Q D "w\<lparr>sh_timers := h\<rparr>"] by blast+
  have "process_queue run bAll w = Some (Inr (fold (fire_entry run) (rev D) (w\<lparr>sh_timers := h, sh_queue := Q\<rparr>)))"
    unfolding process_queue_def h using loop(1) by (simp add: w1 [symmetric])
  then show ?thesis
    unfolding Q_def [symmetric] D_def [symmetric] returns_def using h loop(2) by blast
qed

text \<open>A show whose callbacks log their name; a timer at 4 s, events due at 2 s, 3 s and 7 s.\<close>

definition log_run :: "nat \<Rightarrow> (nat, nat, nat list) show_state \<Rightarrow> (nat, nat, nat list) show_state outcome" where
  "log_run f w = returns (w\<lparr>sh_rest := sh_rest w @ [f]\<rparr>)"

definition sample_show :: "(nat, nat, nat list) show_state" where
  "sample_show = \<lparr>sh_clock = 5000, sh_timers = sample_timers, sh_aTimer = 0,
     sh_events = [0 \<mapsto> DelayEvent 10 7 False, 1 \<mapsto> DelayEvent 11 3 False, 2 \<mapsto> DelayEvent 12 2 False],
     sh_queue = [\<lparr>ee_aEvent = 0, ee_nActivationTime = 7\<rparr>, \<lparr>ee_aEvent = 1, ee_nActivationTime = 3\<rparr>,
                 \<lparr>ee_aEvent = 2, ee_nActivationTime = 2\<rparr>],
     sh_waiting = [1, 2, 3], sh_reinsert = [], sh_dequeued = [], sh_rest = []\<rparr>"

lemma log_run_defers: "defers bAll now log_run"
  unfolding defers_def log_run_def
  by (rule exI [of _ "\<lambda>f w. w\<lparr>sh_rest := sh_rest w @ [f]\<rparr>"], rule exI [of _ "\<lambda>f w. []"]) simp

theorem process_fires_due_witness:
  "\<exists>w'. process_queue log_run False sample_show = returns w' \<and> (\<forall>e \<in> set (sh_queue w'). \<not> due False 4 e) \<and>
     sh_rest w' = [12, 11]"
proof -
  have now: "getElapsedTimeImpl (sh_timers sample_show) (sh_clock sample_show) (sh_aTimer sample_show) = Some 4"
    by code_simp
  have "sorted_queue (sh_queue sample_show)" by code_simp
  moreover have "\<forall>e \<in> set (sh_queue sample_show). ee_aEvent e \<in> dom (sh_events sample_show)"
    by (simp add: sample_show_def)
  moreover have "timers_ok (sh_timers sample_show)" "sh_aTimer sample_show \<in> dom (sh_timers sample_show)"
    using sample_timers_ok by (simp_all add: sample_show_def sample_timers_def)
  ultimately show ?thesis
    using process_fires_due [OF _ _ now _ _ log_run_defers, of False]
    by (auto simp: sample_show_def due_def fire_entry_def fire_def log_run_def)
qed

text \<open>
  A round of the activity queue performs every waiting activity once and loses none: those
  that ask to go on are waiting again, the others are appended to the dequeued ones, both in
  their order.
\<close>

theorem activities_kept:
  assumes "orderly am" and "sh_reinsert w = []" and "sh_aTimer w \<in> dom (sh_timers w)"
  shows "\<exists>w' out. process_activities am w = returns w' \<and> sh_reinsert w' = [] \<and>
    sh_waiting w \<in> shuffles (sh_waiting w') out \<and> sh_dequeued w' = sh_dequeued w @ out"
proof -
  obtain m w1 where w1: "lag_loop am 0 (length (sh_waiting w)) 0 w = Some (Inr (m, w1))" "same_activities w w1"
    using lag_loop_same [OF assms(1), of 0 "length (sh_waiting w)" w 0] by auto
  obtain t where "sh_timers w1 (sh_aTimer w1) = Some t" using w1(2) assms(3) by (auto simp: same_activities_def)
  then obtain h where h: "adjustTimer (sh_timers w1) (sh_aTimer w1) (- m) = Some h" by (simp add: adjustTimer_def Let_def)
  define w2 where "w2 = (if m > 0 then w1\<lparr>sh_timers := h\<rparr> else w1)"
  obtain w3 keep out where w3: "perform_loop am w2 = Some (Inr w3)" "sh_waiting w3 = []"
    "sh_reinsert w3 = sh_reinsert w2 @ keep" "sh_dequeued w3 = sh_dequeued w2 @ out" "sh_waiting w2 \<in> shuffles keep out"
    using perform_loop_splits [OF assms(1)] by blast
  have "process_activities am w =
      Some (Inr (if sh_reinsert w3 \<noteq> [] then w3\<lparr>sh_waiting := sh_reinsert w3, sh_reinsert := []\<rparr> else w3))"
    using w1(1) h w3(1) by (simp add: process_activities_def adjust_show_def w2_def split: if_splits)
  then show ?thesis using w3 w1(2) assms(2) by (auto simp: w2_def same_activities_def split: if_splits)
qed

definition sample_methods :: "(nat, (nat, nat, nat list) show_state) activity_methods" where
  "sample_methods = \<lparr>am_calcTimeLag = (\<lambda>a w. returns (1, w)), am_perform = (\<lambda>a w. returns (odd a, w)),
     am_dequeued = (\<lambda>a w. returns w), am_end = (\<lambda>a w. returns w)\<rparr>"

theorem activities_kept_witness:
  "\<exists>w' out. process_activities sample_methods sample_show = returns w' \<and> sh_reinsert w' = [] \<and>
     [1, 2, 3] \<in> shuffles (sh_waiting w') out \<and> sh_dequeued w' = out"
  using activities_kept [of sample_methods sample_show]
  by (simp add: orderly_def sample_methods_def same_activities_def sample_show_def sample_timers_def)

text \<open>
  A wake-up event that was started when the show timer read \<open>e0\<close> and is added when it
  reads \<open>e1\<close> is due \<open>nNextTime\<close> after the start, or at once when that has passed, however
  often it is added in between.
\<close>

theorem wakeup_due_after_start:
  assumes "timers_ok h" and "h t = Some tm" and "aTimeBase tm = Some a"
    and "getElapsedTimeImpl h s0 a = Some e0"
    and "wakeup_start h s0 (WakeupEvent t nNextTime act) = Some (sh_timers w)"
    and "sh_events w i = Some (WakeupEvent t nNextTime act)"
    and "getElapsedTimeImpl (sh_timers w) (sh_clock w) a = Some e1"
  shows "\<exists>w'. getActivationTime i e1 w = returns (max e1 (e0 + nNextTime), w')"
proof -
  define tm' where "tm' = tm\<lparr>nLastQueriedTime := 0, nStartTime := e0, nFrozenTime := 0, bInPauseMode := False, bInHoldMode := False\<rparr>"
  have h1: "sh_timers w = h(t \<mapsto> tm')"
    using assms(2-5) by (simp add: wakeup_start_def reset_def getCurrentTime_def tm'_def)
  have "a < t" "a \<in> dom h" using timers_okD [OF assms(1-3)] by auto
  then have "getElapsedTimeImpl h (sh_clock w) a = Some e1"
    using assms(7) elapsed_frame [OF assms(1), of a t "Some tm'" "sh_clock w"] by (simp add: h1)
  then have el: "getElapsedTimeImpl (sh_timers w) (sh_clock w) t = Some (e1 - e0)"
    using elapsed_updated [OF assms(1,2), of tm' "sh_clock w"] assms(3)
    by (simp add: h1 tm'_def frozen_def getCurrentTime_def)
  moreover have "timers_ok (sh_timers w)" unfolding h1 using assms(1,2) by (intro timers_ok_update) (auto simp: tm'_def)
  ultimately obtain w' where "read_timer t w = Some (Inr (e1 - e0, w'))"
    using read_timer_total [of w t] h1 by auto
  then show ?thesis using assms(6) by (simp add: getActivationTime_def add.commute)
qed

theorem wakeup_due_after_start_witness:
  "\<exists>w'. getActivationTime 0 6 (sample_show\<lparr>sh_clock := 7000,
       sh_timers := sample_timers(1 \<mapsto> (blank_timer (Some 0))\<lparr>nStartTime := 4\<rparr>),
       sh_events := [0 \<mapsto> WakeupEvent 1 3 (Some 8)]\<rparr>) = returns (7, w')"
proof -
  let ?w = "sample_show\<lparr>sh_clock := 7000, sh_timers := sample_timers(1 \<mapsto> (blank_timer (Some 0))\<lparr>nStartTime := 4\<rparr>),
     sh_events := [0 \<mapsto> WakeupEvent 1 3 (Some 8)]\<rparr>"
  have e0: "getElapsedTimeImpl sample_timers 5000 0 = Some 4" by code_simp
  have e1: "getElapsedTimeImpl (sh_timers ?w) (sh_clock ?w) 0 = Some 6" by code_simp
  have t: "sample_timers 1 = Some ((blank_timer (Some 0))\<lparr>nStartTime := 2\<rparr>)" by (simp add: sample_timers_def)
  have "wakeup_start sample_timers 5000 (WakeupEvent 1 3 (Some 8) :: (nat, nat) event) = Some (sh_timers ?w)"
    using t e0 by (simp add: wakeup_start_def reset_def getCurrentTime_def blank_timer_def)
  then show ?thesis
    using wakeup_due_after_start [OF sample_timers_ok t _ e0 _ _ e1, of 3 "Some 8" 0] by (simp add: blank_timer_def)
qed

end
