(* ===== verification/Animation_Node.thy ===== *)
theory Animation_Node
  imports Slide_Events
begin

section \<open>Animation nodes of the slide show\<close>

text \<open>
  The state machine of \<open>browser/src/slideshow/engine/animationnodes/BaseNode.ts\<close> and
  \<open>Duration.ts\<close>. The states are powers of two and \<open>nCurrentStateTransition\<close> is a mask of them, as
  are the entries of the transition tables; masks are sets of states here, with \<open>Invalid\<close>, the
  value 0, as the empty mask.

  What a subclass overrides (\<open>init_st\<close>, \<open>resolve_st\<close>, \<open>activate_st\<close>, \<open>deactivate_st\<close>) and what a
  node calls of others (its listeners, the event multiplexer, the slide show handler, the
  event queue) are hooks of the model. All of them may change the node: a listener may well
  end the node that notifies it. \<open>base_hooks\<close> has the methods of \<open>BaseNode\<close> itself.
\<close>

datatype node_state = Invalid | Unresolved | Resolved | Active | Frozen | Ended

datatype fill_mode = Fill_Default | Fill_Remove | Fill_Freeze | Fill_Hold | Fill_Transition | Fill_Auto

datatype restart_mode = Restart_Default | Restart_Always | Restart_WhenNotActive | Restart_Never

type_synonym state_mask = "node_state set"

definition flag :: "node_state \<Rightarrow> state_mask" where
  "flag s = (if s = Invalid then {} else {s})"

type_synonym transition_table = "node_state \<Rightarrow> state_mask"

subsection \<open>The transition tables\<close>

fun aTable0 :: transition_table where
  "aTable0 Invalid = {}"
| "aTable0 Unresolved = {Resolved, Ended}"
| "aTable0 Resolved = {Active, Ended}"
| "aTable0 Active = {Ended}"
| "aTable0 Frozen = {}"
| "aTable0 Ended = {Ended}"

fun aTable1 :: transition_table where
  "aTable1 Invalid = {}"
| "aTable1 Unresolved = {Resolved, Ended}"
| "aTable1 Resolved = {Active, Ended}"
| "aTable1 Active = {Frozen, Ended}"
| "aTable1 Frozen = {Ended}"
| "aTable1 Ended = {Ended}"

fun aTable2 :: transition_table where
  "aTable2 Invalid = {}"
| "aTable2 Unresolved = {Resolved, Ended}"
| "aTable2 Resolved = {Active, Ended}"
| "aTable2 Active = {Ended}"
| "aTable2 Frozen = {}"
| "aTable2 Ended = {Resolved, Active, Ended}"

fun aTable3 :: transition_table where
  "aTable3 Invalid = {}"
| "aTable3 Unresolved = {Resolved, Ended}"
| "aTable3 Resolved = {Active, Ended}"
| "aTable3 Active = {Frozen, Ended}"
| "aTable3 Frozen = {Resolved, Active, Ended}"
| "aTable3 Ended = {Resolved, Active, Ended}"

fun aTable4 :: transition_table where
  "aTable4 Invalid = {}"
| "aTable4 Unresolved = {Resolved, Ended}"
| "aTable4 Resolved = {Active, Ended}"
| "aTable4 Active = {Resolved, Active, Ended}"
| "aTable4 Frozen = {}"
| "aTable4 Ended = {Resolved, Active, Ended}"

fun aTable5 :: transition_table where
  "aTable5 Invalid = {}"
| "aTable5 Unresolved = {Resolved, Ended}"
| "aTable5 Resolved = {Active, Ended}"
| "aTable5 Active = {Resolved, Active, Frozen, Ended}"
| "aTable5 Frozen = {Resolved, Active, Ended}"
| "aTable5 Ended = {Resolved, Active, Ended}"

text \<open>The two nested maps; \<open>undefined\<close> for a mode that has no entry.\<close>

definition keeps_effect :: "fill_mode \<Rightarrow> bool" where
  "keeps_effect f \<longleftrightarrow> f = Fill_Freeze \<or> f = Fill_Hold \<or> f = Fill_Transition"

definition aStateTransitionTable :: "restart_mode \<Rightarrow> fill_mode \<Rightarrow> transition_table option" where
  "aStateTransitionTable r f =
     (if f = Fill_Remove then
        (case r of Restart_Default \<Rightarrow> None | Restart_Never \<Rightarrow> Some aTable0
           | Restart_WhenNotActive \<Rightarrow> Some aTable2 | Restart_Always \<Rightarrow> Some aTable4)
      else if keeps_effect f then
        (case r of Restart_Default \<Rightarrow> None | Restart_Never \<Rightarrow> Some aTable1
           | Restart_WhenNotActive \<Rightarrow> Some aTable3 | Restart_Always \<Rightarrow> Some aTable5)
      else None)"

definition getTransitionTable :: "restart_mode \<Rightarrow> fill_mode \<Rightarrow> transition_table option" where
  "getTransitionTable eRestartMode eFillMode =
     (let r = (if eRestartMode = Restart_Default then Restart_Never else eRestartMode);
          f = (if eFillMode = Fill_Default \<or> eFillMode = Fill_Auto then Fill_Remove else eFillMode)
      in aStateTransitionTable r f)"

subsection \<open>Durations\<close>

record duration =
  du_bIndefinite :: bool
  du_bMedia :: bool
  du_nValue :: "num option"
  du_bDefined :: bool

text \<open>The clock value of the text is computed by \<open>Timing.parseClockValue\<close>, here an argument.\<close>

definition new_Duration :: "(string \<Rightarrow> num option) \<Rightarrow> string \<Rightarrow> duration" where
  "new_Duration parseClockValue sDuration =
     (let d = \<lparr>du_bIndefinite = False, du_bMedia = False, du_nValue = None, du_bDefined = False\<rparr>
      in if sDuration = '''' then d
         else if sDuration = ''indefinite'' then d\<lparr>du_bIndefinite := True, du_bDefined := True\<rparr>
         else if sDuration = ''media'' then d\<lparr>du_bMedia := True, du_bDefined := True\<rparr>
         else d\<lparr>du_nValue := map_option (\<lambda>v. if v \<le> 0 then 1 / 1000 else v) (parseClockValue sDuration),
                du_bDefined := True\<rparr>)"

definition du_isValue :: "duration \<Rightarrow> bool" where
  "du_isValue d \<longleftrightarrow> du_nValue d \<noteq> None"

subsection \<open>Nodes\<close>

datatype node_call = Activate | Deactivate

type_synonym node_event = "(node_call, unit) event"

record 'x node =
  nd_bIsFirstAutoEffect :: bool
  nd_bContextInvalid :: bool
  nd_nStartDelay :: num
  nd_eCurrentState :: node_state
  nd_nCurrentStateTransition :: state_mask
  nd_aDeactivatingListenerArray :: "nat list"
  nd_aActivationEvent :: "node_event option"
  nd_aDeactivationEvent :: "node_event option"
  nd_nBeginOffset :: num
  nd_bHasEnd :: bool
  nd_aDuration :: "duration option"
  nd_bIsMainSequenceRootNode :: bool
  nd_bParentIsMainSequenceRoot :: bool
  nd_eFillMode :: fill_mode
  nd_eRestartMode :: restart_mode
  nd_nRepeatCount :: "num option"
  nd_nAccelerate :: num
  nd_nDecelerate :: num
  nd_aStateTransTable :: transition_table
  nd_rest :: 'x

text \<open>The constructor; the table is set by \<open>parseNodeInfo\<close> and empty before.\<close>

definition new_node :: "bool \<Rightarrow> num \<Rightarrow> 'x \<Rightarrow> 'x node" where
  "new_node bContextInvalid nStartDelay rest =
     \<lparr>nd_bIsFirstAutoEffect = False, nd_bContextInvalid = bContextInvalid, nd_nStartDelay = nStartDelay,
      nd_eCurrentState = Unresolved, nd_nCurrentStateTransition = {}, nd_aDeactivatingListenerArray = [],
      nd_aActivationEvent = None, nd_aDeactivationEvent = None, nd_nBeginOffset = 0, nd_bHasEnd = False,
      nd_aDuration = None, nd_bIsMainSequenceRootNode = False, nd_bParentIsMainSequenceRoot = False,
      nd_eFillMode = Fill_Freeze, nd_eRestartMode = Restart_Never, nd_nRepeatCount = None,
      nd_nAccelerate = 0, nd_nDecelerate = 0, nd_aStateTransTable = (\<lambda>_. {}), nd_rest = rest\<rparr>"

text \<open>What a node calls of the other objects.\<close>

datatype node_effect =
    NotifyDeactivating nat
  | NotifyBeginEvent
  | NotifyEndEvent
  | NotifyNextEffectEndEvent
  | NotifyAnimationsEndEvent
  | NotifyFirstAutoEffectStarted
  | NotifyFirstAutoEffectEnded
  | RegisterActivationEvent
  | AddTimerEvent node_event

record 'x node_hooks =
  h_init_st :: "'x node \<Rightarrow> bool \<times> 'x node"
  h_resolve_st :: "'x node \<Rightarrow> bool \<times> 'x node"
  h_activate_st :: "'x node \<Rightarrow> 'x node"
  h_deactivate_st :: "node_state \<Rightarrow> 'x node \<Rightarrow> 'x node"
  h_call :: "node_effect \<Rightarrow> 'x node \<Rightarrow> 'x node"

definition isTransition :: "'x node \<Rightarrow> node_state \<Rightarrow> node_state \<Rightarrow> bool" where
  "isTransition n eFromState eToState \<longleftrightarrow> nd_aStateTransTable n eFromState \<inter> flag eToState \<noteq> {}"

definition inStateOrTransition :: "'x node \<Rightarrow> state_mask \<Rightarrow> bool" where
  "inStateOrTransition n nMask \<longleftrightarrow>
     flag (nd_eCurrentState n) \<inter> nMask \<noteq> {} \<or> nd_nCurrentStateTransition n \<inter> nMask \<noteq> {}"

definition checkValidNode :: "'x node \<Rightarrow> bool" where
  "checkValidNode n \<longleftrightarrow> nd_eCurrentState n \<noteq> Invalid"

subsection \<open>The modes of a node\<close>

text \<open>
  The resolution at the end of \<open>parseNodeInfo\<close>, for a node whose attributes are read: the
  modes of the parent, if there is one, then the transition table. The repeat count \<open>None\<close> is
  \<open>NaN\<close>, the value of an indefinite repetition.
\<close>

definition resolve_fill :: "fill_mode option \<Rightarrow> 'x node \<Rightarrow> fill_mode" where
  "resolve_fill parent n =
     (let f1 = (if nd_eFillMode n = Fill_Default
                then (case parent of Some f \<Rightarrow> f | None \<Rightarrow> Fill_Auto) else nd_eFillMode n)
      in if f1 = Fill_Auto then
           (if nd_bHasEnd n \<or> nd_nRepeatCount n \<noteq> Some 1 \<or>
               (case nd_aDuration n of None \<Rightarrow> False | Some d \<Rightarrow> \<not> du_bIndefinite d)
            then Fill_Remove else Fill_Freeze)
         else f1)"

definition resolve_restart :: "restart_mode option \<Rightarrow> 'x node \<Rightarrow> restart_mode" where
  "resolve_restart parent n =
     (if nd_eRestartMode n = Restart_Default
      then (case parent of Some r \<Rightarrow> r | None \<Rightarrow> Restart_Always) else nd_eRestartMode n)"

definition resolve_modes :: "(fill_mode \<times> restart_mode) option \<Rightarrow> 'x node \<Rightarrow> 'x node option" where
  "resolve_modes parent n =
     (let n1 = n\<lparr>nd_eFillMode := resolve_fill (map_option fst parent) n\<rparr>;
          n2 = n1\<lparr>nd_eRestartMode := resolve_restart (map_option snd parent) n1\<rparr>;
          n3 = (if nd_nAccelerate n2 + nd_nDecelerate n2 > 1
                then n2\<lparr>nd_nAccelerate := 0, nd_nDecelerate := 0\<rparr> else n2)
      in map_option (\<lambda>t. n3\<lparr>nd_aStateTransTable := t\<rparr>)
           (getTransitionTable (nd_eRestartMode n3) (nd_eFillMode n3)))"

subsection \<open>Transitions\<close>

text \<open>\<open>StateTransition\<close>: the node and the state that was entered, \<open>Invalid\<close> for none.\<close>

definition enter ::
    "node_state \<Rightarrow> bool \<Rightarrow> node_state \<times> 'x node \<Rightarrow> bool \<times> node_state \<times> 'x node" where
  "enter eNodeState bForce tr =
     (let (eToState, n) = tr
      in if eToState \<noteq> Invalid then (False, eToState, n)
         else if \<not> bForce \<and> \<not> isTransition n (nd_eCurrentState n) eNodeState then (False, eToState, n)
         else if nd_nCurrentStateTransition n \<inter> flag eNodeState \<noteq> {} then (False, eToState, n)
         else (True, eNodeState,
               n\<lparr>nd_nCurrentStateTransition := nd_nCurrentStateTransition n \<union> flag eNodeState\<rparr>))"

definition clear_transition :: "node_state \<times> 'x node \<Rightarrow> node_state \<times> 'x node" where
  "clear_transition tr =
     (let (eToState, n) = tr
      in if eToState \<noteq> Invalid
         then (Invalid, n\<lparr>nd_nCurrentStateTransition := nd_nCurrentStateTransition n - flag eToState\<rparr>)
         else tr)"

definition commit :: "node_state \<times> 'x node \<Rightarrow> node_state \<times> 'x node" where
  "commit tr =
     (let (eToState, n) = tr
      in if eToState \<noteq> Invalid then clear_transition (eToState, n\<lparr>nd_eCurrentState := eToState\<rparr>) else tr)"

subsection \<open>Operations\<close>

definition dispose_events :: "'x node \<Rightarrow> 'x node" where
  "dispose_events n =
     n\<lparr>nd_aActivationEvent := map_option dispose_event (nd_aActivationEvent n),
       nd_aDeactivationEvent := map_option dispose_event (nd_aDeactivationEvent n)\<rparr>"

definition init :: "'x node_hooks \<Rightarrow> 'x node \<Rightarrow> bool \<times> 'x node" where
  "init H n =
     (if \<not> checkValidNode n then (False, n)
      else h_init_st H ((dispose_events n)\<lparr>nd_eCurrentState := Unresolved\<rparr>))"

definition resolve :: "'x node_hooks \<Rightarrow> 'x node \<Rightarrow> bool \<times> 'x node" where
  "resolve H n =
     (if nd_bContextInvalid n \<or> \<not> checkValidNode n then (False, n)
      else let (entered, to, n1) = enter Resolved False (Invalid, n)
           in if entered \<and> isTransition n1 Resolved Active
              then let (ok, n2) = h_resolve_st H n1
                   in if ok
                      then let n3 = snd (commit (to, n2));
                               n4 = n3\<lparr>nd_aActivationEvent := Some
                                 (case nd_aActivationEvent n3 of
                                    Some e \<Rightarrow> charge e
                                  | None \<Rightarrow> makeDelay Activate (nd_nBeginOffset n3 + nd_nStartDelay n3))\<rparr>
                           in (True, h_call H RegisterActivationEvent n4)
                      else (False, n2)
              else (False, n1))"

definition activate :: "'x node_hooks \<Rightarrow> 'x node \<Rightarrow> bool \<times> 'x node" where
  "activate H n =
     (if \<not> checkValidNode n then (False, n)
      else let (entered, to, n1) = enter Active False (Invalid, n)
           in if entered
              then let n2 = snd (commit (to, h_activate_st H n1));
                       n3 = (if nd_bIsFirstAutoEffect n2 then h_call H NotifyFirstAutoEffectStarted n2 else n2)
                   in (True, h_call H NotifyBeginEvent n3)
              else (False, n1))"

text \<open>The listeners are counted before the loop and read as it goes.\<close>

fun notify_listeners :: "'x node_hooks \<Rightarrow> nat \<Rightarrow> nat \<Rightarrow> 'x node \<Rightarrow> 'x node option" where
  "notify_listeners H i 0 n = Some n"
| "notify_listeners H i (Suc k) n =
     (case js_nth (nd_aDeactivatingListenerArray n) (int i) of
        None \<Rightarrow> None
      | Some l \<Rightarrow> notify_listeners H (Suc i) k (h_call H (NotifyDeactivating l) n))"

text \<open>\<open>None\<close> is the \<open>TypeError\<close> of a listener that a listener has removed.\<close>

definition notifyEndListeners :: "'x node_hooks \<Rightarrow> 'x node \<Rightarrow> 'x node option" where
  "notifyEndListeners H n =
     map_option (\<lambda>n1.
       let n2 = h_call H NotifyEndEvent n1;
           n3 = (if nd_bParentIsMainSequenceRoot n2 then h_call H NotifyNextEffectEndEvent n2 else n2)
       in (if nd_bIsMainSequenceRootNode n3 then h_call H NotifyAnimationsEndEvent n3 else n3))
     (notify_listeners H 0 (length (nd_aDeactivatingListenerArray n)) n)"

text \<open>The tail that \<open>deactivate\<close> and \<open>end\<close> share.\<close>

definition finish_deactivation :: "'x node_hooks \<Rightarrow> 'x node \<Rightarrow> 'x node" where
  "finish_deactivation H n =
     dispose_events (if nd_bIsFirstAutoEffect n then h_call H NotifyFirstAutoEffectEnded n else n)"

definition end_node :: "'x node_hooks \<Rightarrow> 'x node \<Rightarrow> 'x node option" where
  "end_node H n =
     (let bIsFrozenOrInTransitionToFrozen = inStateOrTransition n {Frozen}
      in if inStateOrTransition n {Ended} \<or> \<not> checkValidNode n then Some n
         else let (entered, to, n1) = enter Ended True (Invalid, n)
              in if entered
                 then let n2 = snd (commit (to, h_deactivate_st H Ended n1))
                      in map_option (finish_deactivation H)
                           (if bIsFrozenOrInTransitionToFrozen then Some n2 else notifyEndListeners H n2)
                 else Some n1)"

definition deactivate :: "'x node_hooks \<Rightarrow> 'x node \<Rightarrow> 'x node option" where
  "deactivate H n =
     (if inStateOrTransition n {Ended, Frozen} \<or> \<not> checkValidNode n then Some n
      else if isTransition n (nd_eCurrentState n) Frozen
      then let (entered, to, n1) = enter Frozen True (Invalid, n)
           in if entered
              then let n2 = snd (commit (to, h_deactivate_st H Frozen n1))
                   in map_option (finish_deactivation H) (notifyEndListeners H n2)
              else Some n1
      else end_node H n)"

definition dispose_node :: "'x node \<Rightarrow> 'x node" where
  "dispose_node n = (dispose_events n)\<lparr>nd_aDeactivatingListenerArray := []\<rparr>"

definition registerDeactivatingListener :: "nat option \<Rightarrow> 'x node \<Rightarrow> bool \<times> 'x node" where
  "registerDeactivatingListener aNotifiee n =
     (if \<not> checkValidNode n then (False, n)
      else case aNotifiee of
             None \<Rightarrow> (False, n)
           | Some l \<Rightarrow> (True, n\<lparr>nd_aDeactivatingListenerArray := nd_aDeactivatingListenerArray n @ [l]\<rparr>))"

text \<open>A delay that is not a number is \<open>None\<close>.\<close>

definition makeDeactivationEvent :: "num option \<Rightarrow> 'x node \<Rightarrow> node_event option \<times> 'x node" where
  "makeDeactivationEvent nDelay n =
     (let e = (case nd_aDeactivationEvent n of
                 Some e \<Rightarrow> Some (charge e)
               | None \<Rightarrow> map_option (makeDelay Deactivate) nDelay)
      in (e, n\<lparr>nd_aDeactivationEvent := e\<rparr>))"

definition scheduleDeactivationEvent :: "'x node_hooks \<Rightarrow> node_event option \<Rightarrow> 'x node \<Rightarrow> 'x node" where
  "scheduleDeactivationEvent H aEvent n =
     (let (e, n1) =
        (case aEvent of
           Some e \<Rightarrow> (Some e, n)
         | None \<Rightarrow>
             (case nd_aDuration n of
                Some d \<Rightarrow> if du_isValue d then makeDeactivationEvent (du_nValue d) n else (None, n)
              | None \<Rightarrow> (None, n)))
      in case e of Some ev \<Rightarrow> h_call H (AddTimerEvent ev) n1 | None \<Rightarrow> n1)"

text \<open>The hooks of \<open>BaseNode\<close>, around a given dispatch of its calls.\<close>

definition base_hooks :: "(node_effect \<Rightarrow> 'x node \<Rightarrow> 'x node) \<Rightarrow> 'x node_hooks" where
  "base_hooks dispatch =
     (let H0 = \<lparr>h_init_st = (\<lambda>n. (True, n)), h_resolve_st = (\<lambda>n. (True, n)), h_activate_st = id,
                h_deactivate_st = (\<lambda>_. id), h_call = dispatch\<rparr>
      in H0\<lparr>h_activate_st := scheduleDeactivationEvent H0 None\<rparr>)"

end
