(* ===== verification/Node_Properties.thy ===== *)
theory Node_Properties
  imports Animation_Node
begin

section \<open>The state machine of an animation node\<close>

text \<open>
  A contract for the hooks of a node, under which every operation follows the transition
  table, and the consequences for all reachable nodes. The contract is closed under the
  operations: a hook that itself calls operations of the node keeps it too.
\<close>

lemma flag_simps [simp]:
  "flag Invalid = {}" "s \<noteq> Invalid \<Longrightarrow> flag s = {s}"
  by (simp_all add: flag_def)

subsection \<open>The tables\<close>

definition is_table :: "transition_table \<Rightarrow> bool" where
  "is_table tab \<longleftrightarrow> (\<exists>r f. getTransitionTable r f = Some tab)"

lemma is_table_cases:
  "is_table tab \<longleftrightarrow> tab \<in> {aTable0, aTable1, aTable2, aTable3, aTable4, aTable5}"
proof
  assume "is_table tab"
  then show "tab \<in> {aTable0, aTable1, aTable2, aTable3, aTable4, aTable5}"
    by (auto simp: is_table_def getTransitionTable_def aStateTransitionTable_def Let_def
        split: if_splits restart_mode.splits)
next
  assume "tab \<in> {aTable0, aTable1, aTable2, aTable3, aTable4, aTable5}"
  moreover have "is_table aTable0" "is_table aTable1" "is_table aTable2" "is_table aTable3" "is_table aTable4" "is_table aTable5"
    unfolding is_table_def getTransitionTable_def aStateTransitionTable_def keeps_effect_def Let_def
    by (rule exI [of _ Restart_Never] exI [of _ Restart_WhenNotActive] exI [of _ Restart_Always],
        rule exI [of _ Fill_Remove] exI [of _ Fill_Freeze], simp; fail)+
  ultimately show "is_table tab" by blast
qed

text \<open>Facts that all tables share; a state is live when it is one a node can be in.\<close>

definition live :: "transition_table \<Rightarrow> node_state \<Rightarrow> bool" where
  "live tab s \<longleftrightarrow> s \<noteq> Invalid \<and> (s = Frozen \<longrightarrow> Frozen \<in> tab Active)"

lemma table_facts:
  assumes "is_table tab"
  shows "Active \<in> tab Resolved" and "live tab s \<Longrightarrow> Ended \<in> tab s"
    and "live tab s \<Longrightarrow> s' \<in> tab s \<Longrightarrow> live tab s'" and "live tab Unresolved"
    and "Frozen \<in> tab s \<Longrightarrow> s = Active"
  using assms by (cases s; auto simp: is_table_cases live_def)+

lemma restart_never_sink:
  assumes "getTransitionTable Restart_Never f = Some tab"
  shows "tab Ended = {Ended}"
  using assms
  by (auto simp: getTransitionTable_def aStateTransitionTable_def Let_def split: if_splits)

definition moves :: "transition_table \<Rightarrow> node_state \<Rightarrow> node_state \<Rightarrow> bool" where
  "moves tab = (\<lambda>s s'. s' \<in> tab s)\<^sup>*\<^sup>*"

lemma moves_refl [simp, intro]: "moves tab s s"
  by (simp add: moves_def)

lemma moves_trans: "moves tab s s' \<Longrightarrow> moves tab s' s'' \<Longrightarrow> moves tab s s''"
  unfolding moves_def by (rule rtranclp_trans)

lemma moves_edge: "s' \<in> tab s \<Longrightarrow> moves tab s s'"
  by (auto simp: moves_def)

lemma moves_live: "moves tab s s' \<Longrightarrow> is_table tab \<Longrightarrow> live tab s \<Longrightarrow> live tab s'"
  unfolding moves_def by (induction rule: rtranclp_induct) (auto dest: table_facts)

lemma moves_sink: "moves tab Ended s \<Longrightarrow> tab Ended = {Ended} \<Longrightarrow> s = Ended"
  unfolding moves_def by (induction rule: rtranclp_induct) auto

subsection \<open>The contract of the hooks\<close>

definition same_machine :: "'x node \<Rightarrow> 'x node \<Rightarrow> bool" where
  "same_machine n n' \<longleftrightarrow> nd_eCurrentState n' = nd_eCurrentState n \<and>
     nd_nCurrentStateTransition n' = nd_nCurrentStateTransition n \<and> nd_aStateTransTable n' = nd_aStateTransTable n"

definition follows_table :: "'x node \<Rightarrow> 'x node \<Rightarrow> bool" where
  "follows_table n n' \<longleftrightarrow> moves (nd_aStateTransTable n) (nd_eCurrentState n) (nd_eCurrentState n') \<and>
     nd_nCurrentStateTransition n' = nd_nCurrentStateTransition n \<and> nd_aStateTransTable n' = nd_aStateTransTable n"

definition node_ok :: "'x node \<Rightarrow> bool" where
  "node_ok n \<longleftrightarrow> is_table (nd_aStateTransTable n) \<and> live (nd_aStateTransTable n) (nd_eCurrentState n)"

text \<open>
  The hooks between the start of a transition and its commit leave the machine alone; the
  calls of other objects may move the node, along the table.
\<close>

definition hooks_ok :: "'x node_hooks \<Rightarrow> bool" where
  "hooks_ok H \<longleftrightarrow> (\<forall>n. same_machine n (snd (h_init_st H n)) \<and> fst (h_resolve_st H n) \<and>
     same_machine n (snd (h_resolve_st H n)) \<and> same_machine n (h_activate_st H n) \<and>
     (\<forall>s. same_machine n (h_deactivate_st H s n)) \<and>
     (\<forall>e. node_ok n \<longrightarrow> follows_table n (h_call H e n)))"

lemma hooks_okD:
  assumes "hooks_ok H"
  shows "same_machine n (snd (h_init_st H n))" "fst (h_resolve_st H n)" "same_machine n (snd (h_resolve_st H n))"
    "same_machine n (h_activate_st H n)" "same_machine n (h_deactivate_st H s n)"
    "node_ok n \<Longrightarrow> follows_table n (h_call H e n)"
  using assms by (auto simp: hooks_ok_def)

lemma follows_refl [simp, intro]: "follows_table n n"
  by (simp add: follows_table_def)

lemma follows_trans: "follows_table n n' \<Longrightarrow> follows_table n' n'' \<Longrightarrow> follows_table n n''"
  by (auto simp: follows_table_def intro: moves_trans)

lemma follows_same: "same_machine n n' \<Longrightarrow> follows_table n n'"
  by (simp add: follows_table_def same_machine_def)

lemma node_ok_follows: "follows_table n n' \<Longrightarrow> node_ok n \<Longrightarrow> node_ok n'"
  by (auto simp: follows_table_def node_ok_def intro: moves_live)

lemma same_dispose [simp]: "same_machine n (dispose_events n)"
  by (simp add: same_machine_def dispose_events_def)

text \<open>Entering a state, running a quiet hook, committing.\<close>

lemma enter_commit:
  assumes "enter to force (Invalid, n) = (True, to', n1)" and "same_machine n1 n2" and "to \<noteq> Invalid"
  shows "nd_eCurrentState (snd (commit (to', n2))) = to"
    and "nd_nCurrentStateTransition (snd (commit (to', n2))) = nd_nCurrentStateTransition n"
    and "nd_aStateTransTable (snd (commit (to', n2))) = nd_aStateTransTable n"
    and "force \<or> isTransition n (nd_eCurrentState n) to"
proof -
  have n1: "to' = to" "n1 = n\<lparr>nd_nCurrentStateTransition := nd_nCurrentStateTransition n \<union> {to}\<rparr>"
    "to \<notin> nd_nCurrentStateTransition n" "force \<or> isTransition n (nd_eCurrentState n) to"
    using assms(1,3) by (auto simp: enter_def split: if_splits)
  then show "nd_eCurrentState (snd (commit (to', n2))) = to"
    "nd_nCurrentStateTransition (snd (commit (to', n2))) = nd_nCurrentStateTransition n"
    "nd_aStateTransTable (snd (commit (to', n2))) = nd_aStateTransTable n"
    "force \<or> isTransition n (nd_eCurrentState n) to"
    using assms(2,3) by (auto simp: commit_def clear_transition_def same_machine_def)
qed

lemma enter_fails: "enter to force (Invalid, n) = (False, to', n1) \<Longrightarrow> n1 = n"
  by (auto simp: enter_def split: if_splits)

lemma commit_follows:
  assumes "enter to force (Invalid, n) = (True, to', n1)" and "same_machine n1 n2" and "to \<noteq> Invalid"
    and "to \<in> nd_aStateTransTable n (nd_eCurrentState n)"
  shows "follows_table n (snd (commit (to', n2)))"
  using enter_commit [OF assms(1-3)] assms(4) by (simp add: follows_table_def moves_edge)

lemma isTransition_in: "to \<noteq> Invalid \<Longrightarrow> isTransition n s to \<longleftrightarrow> to \<in> nd_aStateTransTable n s"
  by (simp add: isTransition_def)

subsection \<open>The operations follow the table\<close>

lemma call_follows:
  "hooks_ok H \<Longrightarrow> node_ok n0 \<Longrightarrow> follows_table n0 n \<Longrightarrow> follows_table n0 (h_call H e n)"
  using hooks_okD(6) node_ok_follows follows_trans by metis

lemma resolve_follows:
  assumes "hooks_ok H" and "node_ok n"
  shows "follows_table n (snd (resolve H n))"
proof (cases "nd_bContextInvalid n \<or> \<not> checkValidNode n")
  case False
  obtain entered to n1 where en: "enter Resolved False (Invalid, n) = (entered, to, n1)" by (metis prod_cases3)
  show ?thesis
  proof (cases entered)
    case True
    with en have en': "enter Resolved False (Invalid, n) = (True, to, n1)" by simp
    have tab: "nd_aStateTransTable n1 = nd_aStateTransTable n"
      using en' by (auto simp: enter_def split: if_splits)
    then have act: "isTransition n1 Resolved Active"
      using assms(2) table_facts(1) by (simp add: isTransition_in node_ok_def)
    obtain n2 where n2: "h_resolve_st H n1 = (True, n2)" "same_machine n1 n2"
      using hooks_okD(2,3) [OF assms(1), of n1] by (metis prod.collapse)
    have "follows_table n (snd (commit (to, n2)))"
      using commit_follows [OF en' n2(2)] enter_commit(4) [OF en' n2(2)] by (simp add: isTransition_in)
    then have "follows_table n ((snd (commit (to, n2)))\<lparr>nd_aActivationEvent := e\<rparr>)" for e
      by (simp add: follows_table_def)
    then show ?thesis
      using False en' act n2(1) call_follows [OF assms] by (simp add: resolve_def Let_def)
  qed (use False en enter_fails [of Resolved False n to n1] in \<open>simp add: resolve_def Let_def\<close>)
qed (simp add: resolve_def)

lemma activate_follows:
  assumes "hooks_ok H" and "node_ok n"
  shows "follows_table n (snd (activate H n))"
proof (cases "checkValidNode n")
  case True
  obtain entered to n1 where en: "enter Active False (Invalid, n) = (entered, to, n1)" by (metis prod_cases3)
  show ?thesis
  proof (cases entered)
    case entered: True
    with en have en': "enter Active False (Invalid, n) = (True, to, n1)" by simp
    have "follows_table n (snd (commit (to, h_activate_st H n1)))"
      using commit_follows [OF en' hooks_okD(4) [OF assms(1)]] enter_commit(4) [OF en' hooks_okD(4) [OF assms(1)]]
      by (simp add: isTransition_in)
    then show ?thesis
      using True en' call_follows [OF assms] by (simp add: activate_def Let_def)
  qed (use True en enter_fails [of Active False n to n1] in \<open>simp add: activate_def Let_def\<close>)
qed (simp add: activate_def)

lemma listeners_follow:
  "hooks_ok H \<Longrightarrow> node_ok n0 \<Longrightarrow> follows_table n0 n \<Longrightarrow> notify_listeners H i k n = Some n' \<Longrightarrow> follows_table n0 n'"
  by (induction H i k n rule: notify_listeners.induct) (auto simp: call_follows split: option.splits)

lemma notifyEnd_follows:
  assumes "hooks_ok H" and "node_ok n0" and "follows_table n0 n" and "notifyEndListeners H n = Some n'"
  shows "follows_table n0 n'"
  using assms listeners_follow [OF assms(1-3)]
  by (auto simp: notifyEndListeners_def Let_def call_follows)

lemma finish_follows:
  "hooks_ok H \<Longrightarrow> node_ok n0 \<Longrightarrow> follows_table n0 n \<Longrightarrow> follows_table n0 (finish_deactivation H n)"
  by (auto simp: finish_deactivation_def intro!: follows_trans [OF _ follows_same [OF same_dispose]] call_follows)

lemma end_follows:
  assumes "hooks_ok H" and "node_ok n" and "end_node H n = Some n'"
  shows "follows_table n n'"
proof (cases "inStateOrTransition n {Ended} \<or> \<not> checkValidNode n")
  case False
  obtain entered to n1 where en: "enter Ended True (Invalid, n) = (entered, to, n1)" by (metis prod_cases3)
  show ?thesis
  proof (cases entered)
    case True
    with en have en': "enter Ended True (Invalid, n) = (True, to, n1)" by simp
    have "Ended \<in> nd_aStateTransTable n (nd_eCurrentState n)"
      using assms(2) table_facts(2) by (simp add: node_ok_def)
    then have "follows_table n (snd (commit (to, h_deactivate_st H Ended n1)))"
      using commit_follows [OF en' hooks_okD(5) [OF assms(1)]] by simp
    with False en' assms(3) show ?thesis
      by (auto simp: end_node_def Let_def finish_follows [OF assms(1,2)] notifyEnd_follows [OF assms(1,2)] split: if_splits)
  qed (use False en assms(3) enter_fails [of Ended True n to n1] in \<open>simp add: end_node_def Let_def\<close>)
qed (use assms(3) in \<open>simp add: end_node_def\<close>)

lemma deactivate_follows:
  assumes "hooks_ok H" and "node_ok n" and "deactivate H n = Some n'"
  shows "follows_table n n'"
proof (cases "inStateOrTransition n {Ended, Frozen} \<or> \<not> checkValidNode n")
  case False
  show ?thesis
  proof (cases "isTransition n (nd_eCurrentState n) Frozen")
    case True
    obtain entered to n1 where en: "enter Frozen True (Invalid, n) = (entered, to, n1)" by (metis prod_cases3)
    show ?thesis
    proof (cases entered)
      case entered: True
      with en have en': "enter Frozen True (Invalid, n) = (True, to, n1)" by simp
      have "follows_table n (snd (commit (to, h_deactivate_st H Frozen n1)))"
        using commit_follows [OF en' hooks_okD(5) [OF assms(1)]] True by (simp add: isTransition_in)
      with False True en' assms(3) show ?thesis
        by (auto simp: deactivate_def Let_def finish_follows [OF assms(1,2)] notifyEnd_follows [OF assms(1,2)])
    qed (use False True en assms(3) enter_fails [of Frozen True n to n1] in \<open>simp add: deactivate_def Let_def\<close>)
  next
    case no: False
    with False assms(3) have "end_node H n = Some n'" by (simp add: deactivate_def)
    then show ?thesis by (rule end_follows [OF assms(1,2)])
  qed
qed (use assms(3) in \<open>simp add: deactivate_def\<close>)

subsection \<open>Reachable nodes\<close>

inductive node_op :: "'x node_hooks \<Rightarrow> 'x node \<Rightarrow> 'x node \<Rightarrow> bool" for H where
  op_resolve: "node_op H n (snd (resolve H n))"
| op_activate: "node_op H n (snd (activate H n))"
| op_deactivate: "deactivate H n = Some n' \<Longrightarrow> node_op H n n'"
| op_end: "end_node H n = Some n' \<Longrightarrow> node_op H n n'"
| op_listen: "node_op H n (snd (registerDeactivatingListener l n))"
| op_dispose: "node_op H n (dispose_node n)"

inductive node_step :: "'x node_hooks \<Rightarrow> 'x node \<Rightarrow> 'x node \<Rightarrow> bool" for H where
  step_init: "node_step H n (snd (init H n))"
| step_op: "node_op H n n' \<Longrightarrow> node_step H n n'"

lemma node_op_follows: "node_op H n n' \<Longrightarrow> hooks_ok H \<Longrightarrow> node_ok n \<Longrightarrow> follows_table n n'"
proof (induction rule: node_op.induct)
  case (op_listen n l)
  then show ?case by (auto simp: registerDeactivatingListener_def follows_table_def split: option.splits)
next
  case (op_dispose n)
  then show ?case by (simp add: dispose_node_def dispose_events_def follows_table_def)
qed (simp_all add: resolve_follows activate_follows deactivate_follows end_follows)

lemma node_ops_follow: "(node_op H)\<^sup>*\<^sup>* n n' \<Longrightarrow> hooks_ok H \<Longrightarrow> node_ok n \<Longrightarrow> follows_table n n'"
  by (induction rule: rtranclp_induct) (auto intro: follows_trans node_op_follows node_ok_follows)

lemma init_keeps:
  assumes "hooks_ok H" and "node_ok n"
  shows "node_ok (snd (init H n))" and "nd_nCurrentStateTransition (snd (init H n)) = nd_nCurrentStateTransition n"
    and "nd_aStateTransTable (snd (init H n)) = nd_aStateTransTable n"
  using hooks_okD(1) [OF assms(1), of "(dispose_events n)\<lparr>nd_eCurrentState := Unresolved\<rparr>"] assms(2) table_facts(4)
  by (auto simp: init_def same_machine_def node_ok_def dispose_events_def)

lemma node_steps_keep:
  assumes "(node_step H)\<^sup>*\<^sup>* n n'" and "hooks_ok H" and "node_ok n"
  shows "node_ok n' \<and> nd_nCurrentStateTransition n' = nd_nCurrentStateTransition n \<and>
    nd_aStateTransTable n' = nd_aStateTransTable n"
  using assms
proof (induction rule: rtranclp_induct)
  case (step n1 n2)
  from step.hyps(2) show ?case
  proof cases
    case step_init
    with step show ?thesis by (simp add: init_keeps)
  next
    case step_op
    with step have "follows_table n1 n2" by (intro node_op_follows) auto
    with step show ?thesis by (auto simp: follows_table_def intro: node_ok_follows [of n1 n2])
  qed
qed simp

lemma resolve_modes_table:
  assumes "resolve_modes parent n0 = Some n"
  shows "getTransitionTable (nd_eRestartMode n) (nd_eFillMode n) = Some (nd_aStateTransTable n)"
    and "nd_eCurrentState n = nd_eCurrentState n0"
    and "nd_nCurrentStateTransition n = nd_nCurrentStateTransition n0"
  using assms by (auto simp: resolve_modes_def Let_def split: if_splits)

lemma remove_table_not_frozen:
  "getTransitionTable r Fill_Remove = Some tab \<Longrightarrow> Frozen \<notin> tab Active"
  by (cases r) (auto simp: getTransitionTable_def aStateTransitionTable_def)

subsection \<open>The calls of a base node\<close>

text \<open>The hooks of \<open>BaseNode\<close> with a dispatch that only records the calls.\<close>

definition record_call :: "node_effect \<Rightarrow> node_effect list node \<Rightarrow> node_effect list node" where
  "record_call e n = n\<lparr>nd_rest := nd_rest n @ [e]\<rparr>"

definition recording :: "node_effect list node_hooks" where
  "recording = base_hooks record_call"

lemma same_schedule: "same_machine n (scheduleDeactivationEvent (H\<lparr>h_call := record_call\<rparr>) e n)"
  by (auto simp: scheduleDeactivationEvent_def makeDeactivationEvent_def same_machine_def record_call_def Let_def
      split: option.splits)

lemma recording_ok: "hooks_ok recording"
proof -
  have "same_machine n (h_activate_st recording n)" for n
    using same_schedule [of n "\<lparr>h_init_st = (\<lambda>n. (True, n)), h_resolve_st = (\<lambda>n. (True, n)), h_activate_st = id,
        h_deactivate_st = (\<lambda>_. id), h_call = record_call\<rparr>" None]
    by (simp add: recording_def base_hooks_def Let_def)
  then show ?thesis
    unfolding hooks_ok_def
    by (simp add: recording_def base_hooks_def record_call_def same_machine_def follows_table_def Let_def)
qed

lemma recording_call [simp]: "h_call recording e n = n\<lparr>nd_rest := nd_rest n @ [e]\<rparr>"
  by (simp add: recording_def base_hooks_def record_call_def Let_def)

lemma recording_deactivate_st [simp]: "h_deactivate_st recording s n = n"
  by (simp add: recording_def base_hooks_def Let_def)

lemma recording_listeners:
  "i + k \<le> length (nd_aDeactivatingListenerArray n) \<Longrightarrow> notify_listeners recording i k n =
    Some (n\<lparr>nd_rest := nd_rest n @ map NotifyDeactivating (take k (drop i (nd_aDeactivatingListenerArray n)))\<rparr>)"
proof (induction k arbitrary: i n)
  case (Suc k)
  then have "take (Suc k) (drop i (nd_aDeactivatingListenerArray n)) =
      nd_aDeactivatingListenerArray n ! i # take k (drop (Suc i) (nd_aDeactivatingListenerArray n))"
    by (simp add: Cons_nth_drop_Suc [symmetric])
  with Suc show ?case by simp
qed simp

definition end_calls :: "'x node \<Rightarrow> node_effect list" where
  "end_calls n = map NotifyDeactivating (nd_aDeactivatingListenerArray n) @ [NotifyEndEvent] @
     (if nd_bParentIsMainSequenceRoot n then [NotifyNextEffectEndEvent] else []) @
     (if nd_bIsMainSequenceRootNode n then [NotifyAnimationsEndEvent] else [])"

definition first_effect_call :: "'x node \<Rightarrow> node_effect list" where
  "first_effect_call n = (if nd_bIsFirstAutoEffect n then [NotifyFirstAutoEffectEnded] else [])"

lemma recording_notifyEnd:
  "notifyEndListeners recording n = Some (n\<lparr>nd_rest := nd_rest n @ end_calls n\<rparr>)"
  using recording_listeners [of 0 "length (nd_aDeactivatingListenerArray n)" n]
  by (simp add: notifyEndListeners_def end_calls_def Let_def)

lemma recording_finish:
  "finish_deactivation recording n = dispose_events (n\<lparr>nd_rest := nd_rest n @ first_effect_call n\<rparr>)"
  by (simp add: finish_deactivation_def first_effect_call_def)

lemma enter_commit_idle:
  assumes "nd_nCurrentStateTransition n = {}" and "to \<noteq> Invalid"
  shows "enter to True (Invalid, n) = (True, to, n\<lparr>nd_nCurrentStateTransition := {to}\<rparr>)"
    and "snd (commit (to, n\<lparr>nd_nCurrentStateTransition := {to}\<rparr>)) = n\<lparr>nd_eCurrentState := to\<rparr>"
  using assms by (simp_all add: enter_def commit_def clear_transition_def)

subsection \<open>Properties\<close>

text \<open>
  C16. Whatever the operations called on a node, its state only moves along the transition
  table of its restart and fill modes, also where a transition is forced, and no transition
  is left marked.
\<close>

theorem node_ops_follow_table:
  assumes "hooks_ok H" and "node_ok n" and "(node_op H)\<^sup>*\<^sup>* n n'"
  shows "moves (nd_aStateTransTable n) (nd_eCurrentState n) (nd_eCurrentState n') \<and>
    nd_nCurrentStateTransition n' = nd_nCurrentStateTransition n \<and> nd_aStateTransTable n' = nd_aStateTransTable n"
  using node_ops_follow [OF assms(3,1,2)] by (simp add: follows_table_def)

text \<open>An active node with two listeners that keeps its effect.\<close>

definition sample_node :: "node_effect list node" where
  "sample_node = (new_node False 0 [])\<lparr>nd_aStateTransTable := aTable1, nd_eCurrentState := Active,
     nd_aDeactivatingListenerArray := [3, 4]\<rparr>"

lemma sample_node_ok: "node_ok sample_node"
  by (simp add: node_ok_def sample_node_def is_table_cases live_def)

theorem node_ops_follow_table_witness:
  "moves aTable1 Active (nd_eCurrentState (snd (activate recording sample_node))) \<and>
   nd_nCurrentStateTransition (snd (activate recording sample_node)) = {}"
  using node_ops_follow_table [OF recording_ok sample_node_ok r_into_rtranclp [of "node_op recording"], OF op_activate]
  by (simp add: sample_node_def new_node_def)

text \<open>
  C39. A node that starts unresolved with its modes resolved never becomes invalid, has no
  transition marked between calls, and is never frozen when it removes its effect, whatever
  operations and initialisations happen to it.
\<close>

theorem node_reachable_states:
  assumes "hooks_ok H" and "resolve_modes parent n0 = Some n"
    and "nd_eCurrentState n0 = Unresolved" and "nd_nCurrentStateTransition n0 = {}"
    and "(node_step H)\<^sup>*\<^sup>* n n'"
  shows "nd_eCurrentState n' \<noteq> Invalid \<and> nd_nCurrentStateTransition n' = {} \<and>
    (nd_eFillMode n = Fill_Remove \<longrightarrow> nd_eCurrentState n' \<noteq> Frozen)"
proof -
  note tab = resolve_modes_table [OF assms(2)]
  then have "is_table (nd_aStateTransTable n)" by (auto simp: is_table_def)
  then have "node_ok n" using tab(2) assms(3) table_facts(4) by (simp add: node_ok_def)
  note keep = node_steps_keep [OF assms(5,1) this]
  then show ?thesis
    using tab assms(4) remove_table_not_frozen [of "nd_eRestartMode n" "nd_aStateTransTable n"]
    by (auto simp: node_ok_def live_def)
qed

definition sample_root :: "node_effect list node" where
  "sample_root = the (resolve_modes None ((new_node False 0 [])\<lparr>nd_eFillMode := Fill_Default\<rparr>))"

lemma sample_root_resolved:
  "resolve_modes None ((new_node False 0 [])\<lparr>nd_eFillMode := Fill_Default\<rparr>) = Some sample_root \<and>
   nd_eFillMode sample_root = Fill_Remove"
  by (simp add: sample_root_def resolve_modes_def resolve_fill_def resolve_restart_def new_node_def
      getTransitionTable_def aStateTransitionTable_def)

theorem node_reachable_states_witness:
  "nd_eCurrentState (snd (resolve recording sample_root)) \<notin> {Invalid, Frozen} \<and>
   nd_nCurrentStateTransition (snd (resolve recording sample_root)) = {}"
  using node_reachable_states [OF recording_ok conjunct1 [OF sample_root_resolved] _ _
      r_into_rtranclp [of "node_step recording"], OF _ _ step_op [OF op_resolve]] sample_root_resolved
  by (simp add: new_node_def)

text \<open>
  Without a restart an ended node stays ended until it is initialised again.
\<close>

theorem ended_is_sink:
  assumes "hooks_ok H" and "getTransitionTable Restart_Never f = Some (nd_aStateTransTable n)"
    and "nd_eCurrentState n = Ended" and "(node_op H)\<^sup>*\<^sup>* n n'"
  shows "nd_eCurrentState n' = Ended"
proof -
  have "node_ok n" using assms(2,3) by (auto simp: node_ok_def is_table_def live_def)
  then have "moves (nd_aStateTransTable n) Ended (nd_eCurrentState n')"
    using node_ops_follow [OF assms(4,1)] assms(3) by (simp add: follows_table_def)
  then show ?thesis using restart_never_sink [OF assms(2)] by (rule moves_sink)
qed

theorem ended_is_sink_witness:
  "nd_eCurrentState (snd (activate recording (sample_node\<lparr>nd_eCurrentState := Ended\<rparr>))) = Ended"
  using ended_is_sink [OF recording_ok, of Fill_Hold "sample_node\<lparr>nd_eCurrentState := Ended\<rparr>",
      OF _ _ r_into_rtranclp [of "node_op recording", OF op_activate]]
  by (simp add: sample_node_def getTransitionTable_def aStateTransitionTable_def keeps_effect_def)

text \<open>
  Deactivating a base node that is not frozen or ended freezes it if it is active and
  keeps its effect, and ends it otherwise; the listeners are notified once each in their
  order, then the end event, the next effect and the end of the animations where they apply.
  Ending the frozen node afterwards notifies none of them again.
\<close>

theorem deactivate_notifies_once:
  assumes "node_ok n" and "nd_nCurrentStateTransition n = {}" and "nd_eCurrentState n \<notin> {Frozen, Ended}"
  shows "\<exists>n'. deactivate recording n = Some n' \<and>
    nd_eCurrentState n' = (if Frozen \<in> nd_aStateTransTable n (nd_eCurrentState n) then Frozen else Ended) \<and>
    nd_rest n' = nd_rest n @ end_calls n @ first_effect_call n \<and>
    (\<exists>n''. end_node recording n' = Some n'' \<and> nd_eCurrentState n'' = Ended \<and>
       (nd_eCurrentState n' = Frozen \<longrightarrow> nd_rest n'' = nd_rest n' @ first_effect_call n))"
proof -
  define to where "to = (if Frozen \<in> nd_aStateTransTable n (nd_eCurrentState n) then Frozen else Ended)"
  define n' where "n' = dispose_events (n\<lparr>nd_eCurrentState := to, nd_rest := nd_rest n @ end_calls n @ first_effect_call n\<rparr>)"
  have valid: "checkValidNode n" using assms(1) by (simp add: node_ok_def live_def checkValidNode_def)
  have idle: "\<not> inStateOrTransition n M" if "nd_eCurrentState n \<notin> M" for M
    using assms(2) valid that by (simp add: inStateOrTransition_def checkValidNode_def)
  note go = enter_commit_idle [OF assms(2), of to]
  have calls: "end_calls (n\<lparr>nd_eCurrentState := s\<rparr>) = end_calls n"
    "first_effect_call (n\<lparr>nd_eCurrentState := s, nd_rest := r\<rparr>) = first_effect_call n" for s r
    by (simp_all add: end_calls_def first_effect_call_def)
  have de: "deactivate recording n = Some n'"
  proof (cases "to = Frozen")
    case True
    then have "isTransition n (nd_eCurrentState n) Frozen" by (simp add: to_def isTransition_in split: if_splits)
    then show ?thesis
      using True valid idle [of "{Ended, Frozen}"] assms(3) go calls
      by (simp add: deactivate_def recording_notifyEnd recording_finish n'_def)
  next
    case False
    then have "\<not> isTransition n (nd_eCurrentState n) Frozen" "to = Ended"
      by (auto simp: to_def isTransition_in split: if_splits)
    then show ?thesis
      using valid idle [of "{Ended, Frozen}"] idle [of "{Ended}"] idle [of "{Frozen}"] assms(3) go calls
      by (simp add: deactivate_def end_node_def recording_notifyEnd recording_finish n'_def)
  qed
  have n': "nd_eCurrentState n' = to" "nd_nCurrentStateTransition n' = {}" "nd_bIsFirstAutoEffect n' = nd_bIsFirstAutoEffect n"
    "nd_rest n' = nd_rest n @ end_calls n @ first_effect_call n"
    using assms(2) by (simp_all add: n'_def dispose_events_def)
  have "\<exists>n''. end_node recording n' = Some n'' \<and> nd_eCurrentState n'' = Ended \<and>
       (to = Frozen \<longrightarrow> nd_rest n'' = nd_rest n' @ first_effect_call n)"
  proof (cases "to = Frozen")
    case True
    then show ?thesis
      using enter_commit_idle [OF n'(2), of Ended] n'
      by (simp add: end_node_def inStateOrTransition_def checkValidNode_def recording_finish dispose_events_def
          first_effect_call_def)
  next
    case False
    then have "to = Ended" by (simp add: to_def split: if_splits)
    then show ?thesis using n' by (simp add: end_node_def inStateOrTransition_def)
  qed
  with de n' show ?thesis by (simp add: to_def)
qed

theorem deactivate_notifies_once_witness:
  "\<exists>n'. deactivate recording sample_node = Some n' \<and> nd_eCurrentState n' = Frozen \<and>
     nd_rest n' = [NotifyDeactivating 3, NotifyDeactivating 4, NotifyEndEvent]"
  using deactivate_notifies_once [OF sample_node_ok]
  by (auto simp: sample_node_def new_node_def end_calls_def first_effect_call_def)

text \<open>
  After the modes are resolved neither is left to be inherited, provided the parent's are
  resolved, so the fallbacks of \<open>getTransitionTable\<close> are not used; a node without a parent
  can always restart; acceleration and deceleration are dropped together when they exceed 1.
\<close>

theorem modes_are_resolved:
  assumes "\<forall>f r. parent = Some (f, r) \<longrightarrow> f \<notin> {Fill_Default, Fill_Auto} \<and> r \<noteq> Restart_Default"
  shows "\<exists>n'. resolve_modes parent n = Some n' \<and> nd_eFillMode n' \<notin> {Fill_Default, Fill_Auto} \<and>
    nd_eRestartMode n' \<noteq> Restart_Default \<and>
    aStateTransitionTable (nd_eRestartMode n') (nd_eFillMode n') = Some (nd_aStateTransTable n') \<and>
    (parent = None \<and> nd_eRestartMode n = Restart_Default \<longrightarrow> nd_eRestartMode n' = Restart_Always) \<and>
    (nd_nAccelerate n' + nd_nDecelerate n' \<le> 1)"
proof -
  define f where "f = resolve_fill (map_option fst parent) n"
  define r where "r = resolve_restart (map_option snd parent) n"
  have f: "f \<notin> {Fill_Default, Fill_Auto}"
    using assms by (auto simp: f_def resolve_fill_def Let_def split: option.splits if_splits)
  have r: "r \<noteq> Restart_Default" "parent = None \<and> nd_eRestartMode n = Restart_Default \<longrightarrow> r = Restart_Always"
    using assms by (auto simp: r_def resolve_restart_def split: option.splits if_splits)
  have "resolve_restart p (n\<lparr>nd_eFillMode := f\<rparr>) = resolve_restart p n" for p by (simp add: resolve_restart_def)
  moreover obtain tab where "aStateTransitionTable r f = Some tab"
    using f r(1) by (cases f; cases r) (auto simp: aStateTransitionTable_def keeps_effect_def)
  ultimately show ?thesis
    using f r by (simp add: resolve_modes_def Let_def f_def [symmetric] r_def [symmetric] getTransitionTable_def)
qed

theorem modes_are_resolved_witness:
  "\<exists>n'. resolve_modes (Some (Fill_Hold, Restart_Never))
       ((new_node False 0 [] :: node_effect list node)\<lparr>nd_eFillMode := Fill_Default\<rparr>) = Some n' \<and>
     nd_eFillMode n' \<notin> {Fill_Default, Fill_Auto}"
  using modes_are_resolved [of "Some (Fill_Hold, Restart_Never)" "(new_node False 0 [])\<lparr>nd_eFillMode := Fill_Default\<rparr>"]
  by auto

end
