(* ===== verification/Timing_Text.thy ===== *)
theory Timing_Text
  imports Js_String
begin

section \<open>Timing descriptions\<close>

text \<open>
  \<open>Timing\<close> of \<open>browser/src/slideshow/engine/Timing.ts\<close>: the text that says when an animation begins or
  ends is a clock value, an event with an offset, or \<open>indefinite\<close>. The regular expressions of
  \<open>parseClockValue\<close> are written out as functions on the text; a greedy match is the only one that
  succeeds, because what follows a number is never a digit. A number that may be \<open>NaN\<close> is a
  \<open>js_real\<close>; the result of \<open>parseClockValue\<close> may also be \<open>undefined\<close>, the outer \<open>None\<close>.
\<close>

datatype timing_type = Timing_Unknown | Timing_Offset | Timing_WallClock | Timing_Indefinite | Timing_Event | Timing_SyncBase | Timing_Media

datatype event_trigger =
    Trigger_Unknown | Trigger_OnBegin | Trigger_OnEnd | Trigger_BeginEvent | Trigger_EndEvent | Trigger_OnClick
  | Trigger_OnDblClick | Trigger_OnMouseEnter | Trigger_OnMouseLeave | Trigger_OnNext | Trigger_OnPrev | Trigger_Repeat

type_synonym js_real = "num option"

definition getEventTriggerType :: "string \<Rightarrow> event_trigger" where
  "getEventTriggerType s =
     (if s = ''BeginEvent'' then Trigger_BeginEvent
      else if s = ''EndEvent'' then Trigger_EndEvent
      else if s = ''OnNext'' then Trigger_OnNext
      else if s = ''OnPrev'' then Trigger_OnPrev
      else if s = ''OnClick'' then Trigger_OnClick
      else Trigger_Unknown)"

text \<open>Splitting at \<open>/ */\<close> and joining removes the blanks.\<close>

definition removeWhiteSpaces :: "string \<Rightarrow> string" where
  "removeWhiteSpaces s = filter (\<lambda>c. c \<noteq> CHR '' '') s"

subsection \<open>Clock values\<close>

abbreviation is_dec :: "char \<Rightarrow> bool" where
  "is_dec \<equiv> is_digit_of 10"

definition dec :: "string \<Rightarrow> num" where
  "dec s = of_nat (digits_value 10 0 s)"

text \<open>The optional group \<open>(.[0-9]+)?\<close>, in which the dot stands for any character of the line.\<close>

definition opt_group :: "string \<Rightarrow> string option \<times> string" where
  "opt_group s =
     (case s of
        [] \<Rightarrow> (None, [])
      | c # t \<Rightarrow>
          let ds = takeWhile is_dec t
          in if c \<noteq> CHR 0x0A \<and> c \<noteq> CHR 0x0D \<and> ds \<noteq> [] then (Some (c # ds), dropWhile is_dec t) else (None, s))"

text \<open>\<open>parseFloat\<close> on the text of such a group: a character and digits.\<close>

definition group_float :: "string \<Rightarrow> js_real" where
  "group_float g =
     (case g of
        [] \<Rightarrow> None
      | c # ds \<Rightarrow>
          if c = CHR ''.'' then Some (dec ds / 10 ^ length ds)
          else if c = CHR ''-'' then Some (- dec ds)
          else if c = CHR ''+'' \<or> is_space c then Some (dec ds)
          else if is_dec c then Some (dec (c # ds))
          else None)"

definition add_group :: "num \<Rightarrow> string option \<Rightarrow> js_real" where
  "add_group n g = (case g of None \<Rightarrow> Some n | Some t \<Rightarrow> map_option (\<lambda>f. n + f) (group_float t))"

definition sixty :: "char \<Rightarrow> char \<Rightarrow> bool" where
  "sixty a b \<longleftrightarrow> is_digit_of 6 a \<and> is_dec b"

definition full_clock :: "string \<Rightarrow> js_real option" where
  "full_clock s =
     (let h = takeWhile is_dec s
      in case dropWhile is_dec s of
           c1 # m1 # m2 # c2 # s1 # s2 # rest \<Rightarrow>
             if h \<noteq> [] \<and> c1 = CHR '':'' \<and> sixty m1 m2 \<and> c2 = CHR '':'' \<and> sixty s1 s2 \<and> snd (opt_group rest) = []
             then Some (map_option (\<lambda>sec. (dec h * 60 + dec [m1, m2]) * 60 + sec) (add_group (dec [s1, s2]) (fst (opt_group rest))))
             else None
         | _ \<Rightarrow> None)"

definition partial_clock :: "string \<Rightarrow> js_real option" where
  "partial_clock s =
     (case s of
        m1 # m2 # c # s1 # s2 # rest \<Rightarrow>
          if sixty m1 m2 \<and> c = CHR '':'' \<and> sixty s1 s2 \<and> snd (opt_group rest) = []
          then Some (map_option (\<lambda>sec. dec [m1, m2] * 60 + sec) (add_group (dec [s1, s2]) (fst (opt_group rest))))
          else None
      | _ \<Rightarrow> None)"

definition unit_factor :: "string \<Rightarrow> num option" where
  "unit_factor u =
     (if u = '''' then Some 1 else if u = ''h'' then Some 3600 else if u = ''min'' then Some 60
      else if u = ''s'' then Some 1 else if u = ''ms'' then Some (1 / 1000) else None)"

definition time_count :: "string \<Rightarrow> js_real option" where
  "time_count s =
     (let n = takeWhile is_dec s; r = dropWhile is_dec s; (g, u) = opt_group r
      in if n = [] then None
         else case unit_factor u of
                Some k \<Rightarrow> Some (map_option (\<lambda>t. t * k) (add_group (dec n) g))
              | None \<Rightarrow> None)"

text \<open>\<open>toFixed(3)\<close> and \<open>parseFloat\<close>: the nearest multiple of a thousandth, half away from zero.\<close>

definition to_fixed3 :: "num \<Rightarrow> num" where
  "to_fixed3 x = (if \<bar>x\<bar> \<ge> 10 ^ 21 then x else sgn x * of_int \<lfloor>\<bar>x\<bar> * 1000 + 1 / 2\<rfloor> / 1000)"

definition parseClockValue :: "string \<Rightarrow> js_real option" where
  "parseClockValue s =
     (if s = '''' then Some (Some 0)
      else map_option (map_option to_fixed3)
        (case full_clock s of
           Some t \<Rightarrow> Some t
         | None \<Rightarrow> (case partial_clock s of Some t \<Rightarrow> Some t | None \<Rightarrow> time_count s)))"

subsection \<open>Descriptions\<close>

record timing =
  tim_eTimingType :: timing_type
  tim_sTimingDescription :: string
  tim_nOffset :: js_real
  tim_sEventBaseElementId :: string
  tim_eEventType :: event_trigger

definition new_Timing :: "string \<Rightarrow> timing" where
  "new_Timing sTimingAttribute =
     \<lparr>tim_eTimingType = Timing_Unknown, tim_sTimingDescription = removeWhiteSpaces sTimingAttribute,
      tim_nOffset = Some 0, tim_sEventBaseElementId = '''', tim_eEventType = Trigger_Unknown\<rparr>"

definition signed :: "bool \<Rightarrow> js_real \<Rightarrow> js_real" where
  "signed bPositiveOffset t = (if bPositiveOffset then t else map_option uminus t)"

definition parse_offset :: "string \<Rightarrow> timing \<Rightarrow> timing" where
  "parse_offset s this =
     (let c = hd s; bPositiveOffset = (c \<noteq> CHR ''-'');
          sClockValue = (if c = CHR ''+'' \<or> c = CHR ''-'' then tl s else s)
      in case parseClockValue sClockValue of
           None \<Rightarrow> this
         | Some t \<Rightarrow> this\<lparr>tim_eTimingType := Timing_Offset, tim_nOffset := signed bPositiveOffset t\<rparr>)"

definition split_sign :: "string \<Rightarrow> bool \<times> string \<times> string" where
  "split_sign s =
     (if CHR ''+'' \<in> set s then (True, split_on CHR ''+'' s ! 0, split_on CHR ''+'' s ! 1)
      else if CHR ''-'' \<in> set s then (False, split_on CHR ''-'' s ! 0, split_on CHR ''-'' s ! 1)
      else (True, s, ''''))"

definition parse_event :: "string \<Rightarrow> timing \<Rightarrow> timing" where
  "parse_event s this =
     (let (bPositiveOffset, e, clock) = split_sign s;
          t1 = (if CHR ''.'' \<in> set e
                then this\<lparr>tim_sEventBaseElementId := split_on CHR ''.'' e ! 0,
                          tim_eEventType := getEventTriggerType (split_on CHR ''.'' e ! 1)\<rparr>
                else this\<lparr>tim_eEventType := getEventTriggerType e\<rparr>)
      in if tim_eEventType t1 = Trigger_Unknown then t1
         else
           let t2 = t1\<lparr>tim_eTimingType :=
                 (if tim_eEventType t1 = Trigger_BeginEvent \<or> tim_eEventType t1 = Trigger_EndEvent then Timing_SyncBase else Timing_Event)\<rparr>
           in if clock = '''' then t2
              else case parseClockValue clock of
                     Some t \<Rightarrow> t2\<lparr>tim_nOffset := signed bPositiveOffset t\<rparr>
                   | None \<Rightarrow> t2\<lparr>tim_eTimingType := Timing_Unknown\<rparr>)"

definition parse_timing :: "timing \<Rightarrow> timing" where
  "parse_timing this =
     (let s = tim_sTimingDescription this
      in if s = '''' then this\<lparr>tim_eTimingType := Timing_Offset\<rparr>
         else if s = ''indefinite'' then this\<lparr>tim_eTimingType := Timing_Indefinite\<rparr>
         else if hd s = CHR ''+'' \<or> hd s = CHR ''-'' \<or> is_dec (hd s) then parse_offset s this
         else parse_event s this)"

subsection \<open>Clock values are read back\<close>

definition two :: "nat \<Rightarrow> string" where
  "two n = [digit_char (n div 10), digit_char (n mod 10)]"

definition three :: "nat \<Rightarrow> string" where
  "three n = digit_char (n div 100) # two (n mod 100)"

lemma dec_two: "n < 100 \<Longrightarrow> dec (two n) = of_nat n"
  by (simp add: dec_def two_def)

lemma dec_three: "n < 1000 \<Longrightarrow> dec (three n) = of_nat n"
  by (simp add: dec_def three_def two_def algebra_simps)

lemma dec_show_nat [simp]: "dec (show_nat n) = of_nat n"
  by (simp add: dec_def digits_value_show_nat)

lemma sixty_two: "n < 60 \<Longrightarrow> sixty (digit_char (n div 10)) (digit_char (n mod 10))"
  by (simp add: sixty_def is_digit_of_def)

lemma is_dec_three: "n < 1000 \<Longrightarrow> list_all is_dec (three n)"
  by (simp add: three_def two_def)

lemma opt_group_fraction:
  assumes "n < 1000" and "r = [] \<or> \<not> is_dec (hd r)"
  shows "opt_group (CHR ''.'' # three n @ r) = (Some (CHR ''.'' # three n), r)"
proof -
  have "takeWhile is_dec (three n @ r) = three n" "dropWhile is_dec (three n @ r) = r"
    using is_dec_three [OF assms(1)] assms(2) by (cases r; auto simp: list_all_iff takeWhile_append2 dropWhile_append3)+
  then show ?thesis by (simp add: opt_group_def three_def)
qed

lemma add_fraction: "n < 1000 \<Longrightarrow> add_group x (Some (CHR ''.'' # three n)) = Some (x + of_nat n / 1000)"
  by (simp add: add_group_def group_float_def dec_three) (simp add: three_def two_def)

lemma to_fixed3_thousandths: "to_fixed3 (of_nat n / 1000) = of_nat n / 1000"
proof -
  have "\<lfloor>\<bar>of_nat n / 1000\<bar> * 1000 + 1 / 2 :: num\<rfloor> = int n" by (intro floor_unique) simp_all
  then show ?thesis by (simp add: to_fixed3_def sgn_if)
qed

lemma no_colon:
  assumes "CHR '':'' \<notin> set s"
  shows "full_clock s = None" and "partial_clock s = None"
proof -
  have "CHR '':'' \<notin> set (dropWhile is_dec s)" using assms set_dropWhileD by fast
  then show "full_clock s = None" by (auto simp: full_clock_def Let_def split: list.splits)
  show "partial_clock s = None" using assms by (auto simp: partial_clock_def split: list.splits)
qed

lemma not_dec_chars [simp]: "\<not> is_dec CHR '':''" "\<not> is_dec CHR ''.''" "\<not> is_dec CHR ''s''" "\<not> is_dec CHR ''m''"
    "\<not> is_dec CHR ''i''" "\<not> is_dec CHR ''+''" "\<not> is_dec CHR ''-''"
  by code_simp+

lemma digits_then:
  assumes "\<not> is_dec c"
  shows "takeWhile is_dec (show_nat n @ c # r) = show_nat n" and "dropWhile is_dec (show_nat n @ c # r) = c # r"
  using assms show_nat_digits [of _ n] by (auto simp: takeWhile_append2 dropWhile_append3)

text \<open>
  The three notations of clock values are read exactly: hours, minutes, seconds and thousandths,
  minutes, seconds and thousandths, and a number of seconds or milliseconds.
\<close>

theorem clock_values_read:
  assumes "m < 60" and "s < 60" and "ms < 1000"
  shows "parseClockValue (show_nat h @ '':'' @ two m @ '':'' @ two s @ ''.'' @ three ms) =
      Some (Some ((of_nat h * 60 + of_nat m) * 60 + of_nat s + of_nat ms / 1000)) \<and>
    parseClockValue (two m @ '':'' @ two s @ ''.'' @ three ms) = Some (Some (of_nat m * 60 + of_nat s + of_nat ms / 1000)) \<and>
    parseClockValue (show_nat h @ ''.'' @ three ms @ ''s'') = Some (Some (of_nat h + of_nat ms / 1000)) \<and>
    parseClockValue (show_nat h @ ''ms'') = Some (Some (of_nat h / 1000))"
proof (intro conjI)
  note frac = opt_group_fraction [OF assms(3), of "[]"] add_fraction [OF assms(3)]
  have two: "two n = [digit_char (n div 10), digit_char (n mod 10)]" for n by (simp add: two_def)
  have sum: "to_fixed3 (of_nat n + of_nat ms / 1000) = of_nat n + of_nat ms / 1000" for n
    using to_fixed3_thousandths [of "n * 1000 + ms"] by (simp add: add_divide_distrib)
  have "full_clock (show_nat h @ '':'' @ two m @ '':'' @ two s @ ''.'' @ three ms) =
      Some (Some ((of_nat h * 60 + of_nat m) * 60 + (of_nat s + of_nat ms / 1000)))"
    using frac assms dec_two [of m] dec_two [of s] sixty_two [of m] sixty_two [of s]
    by (simp add: full_clock_def Let_def two digits_then)
  then show "parseClockValue (show_nat h @ '':'' @ two m @ '':'' @ two s @ ''.'' @ three ms) =
      Some (Some ((of_nat h * 60 + of_nat m) * 60 + of_nat s + of_nat ms / 1000))"
    using sum [of "(h * 60 + m) * 60 + s"] by (simp add: parseClockValue_def algebra_simps)
  have "full_clock (two m @ '':'' @ two s @ ''.'' @ three ms) = None"
    using assms by (simp add: full_clock_def Let_def two three_def)
  moreover have "partial_clock (two m @ '':'' @ two s @ ''.'' @ three ms) = Some (Some (of_nat m * 60 + (of_nat s + of_nat ms / 1000)))"
    using frac assms dec_two [of m] dec_two [of s] sixty_two [of m] sixty_two [of s] by (simp add: partial_clock_def two)
  ultimately show "parseClockValue (two m @ '':'' @ two s @ ''.'' @ three ms) = Some (Some (of_nat m * 60 + of_nat s + of_nat ms / 1000))"
    using sum [of "m * 60 + s"] by (simp add: parseClockValue_def two add.assoc)
  have no: "CHR '':'' \<notin> set (show_nat n)" "CHR '':'' \<notin> set (three ms)" for n
    using show_nat_digits [of "CHR '':''" n] is_dec_three [OF assms(3)] not_dec_chars(1) by (auto simp: list_all_iff)
  have "time_count (show_nat h @ ''.'' @ three ms @ ''s'') = Some (Some (of_nat h + of_nat ms / 1000))"
    using opt_group_fraction [OF assms(3), of "''s''"] add_fraction [OF assms(3)]
    by (simp add: time_count_def Let_def digits_then unit_factor_def)
  then show "parseClockValue (show_nat h @ ''.'' @ three ms @ ''s'') = Some (Some (of_nat h + of_nat ms / 1000))"
    using no_colon [of "show_nat h @ ''.'' @ three ms @ ''s''"] no sum [of h] by (simp add: parseClockValue_def)
  have "time_count (show_nat h @ ''ms'') = Some (Some (of_nat h / 1000))"
    by (simp add: time_count_def Let_def digits_then unit_factor_def opt_group_def add_group_def)
  then show "parseClockValue (show_nat h @ ''ms'') = Some (Some (of_nat h / 1000))"
    using no_colon [of "show_nat h @ ''ms''"] no to_fixed3_thousandths [of h] by (simp add: parseClockValue_def)
qed

theorem clock_values_read_witness:
  "(2::nat) < 60 \<and> (3::nat) < 60 \<and> (250::nat) < 1000 \<and>
    parseClockValue ''1:02:03.250'' = Some (Some ((1 * 60 + 2) * 60 + 3 + 250 / 1000)) \<and>
    parseClockValue ''02:03.250'' = Some (Some (2 * 60 + 3 + 250 / 1000)) \<and>
    parseClockValue ''1.250s'' = Some (Some (1 + 250 / 1000)) \<and> parseClockValue ''1ms'' = Some (Some (1 / 1000))"
proof -
  have texts: "show_nat 1 = ''1''" "two 2 = ''02''" "two 3 = ''03''" "three 250 = ''250''" by code_simp+
  show ?thesis using clock_values_read [of 2 3 250 1] unfolding texts by simp
qed

subsection \<open>Events with an offset\<close>

lemma event_trigger_names:
  assumes "getEventTriggerType e \<noteq> Trigger_Unknown"
  shows "CHR ''+'' \<notin> set e" and "CHR ''-'' \<notin> set e" and "CHR ''.'' \<notin> set e" and "CHR '' '' \<notin> set e"
proof -
  have "e \<in> {''BeginEvent'', ''EndEvent'', ''OnNext'', ''OnPrev'', ''OnClick''}"
    using assms unfolding getEventTriggerType_def by (simp split: if_splits)
  then show "CHR ''+'' \<notin> set e" and "CHR ''-'' \<notin> set e" and "CHR ''.'' \<notin> set e" and "CHR '' '' \<notin> set e"
    by (elim insertE emptyE; simp)+
qed

lemma split_sign_offset:
  assumes "CHR ''+'' \<notin> set p" and "CHR ''-'' \<notin> set p" and "CHR ''+'' \<notin> set q" and "CHR ''-'' \<notin> set q"
  shows "split_sign (p @ (if pos then CHR ''+'' else CHR ''-'') # q) = (pos, p, q)"
  using assms by (simp add: split_sign_def split_on_append_sep split_on_no_sep)

definition event_timing_type :: "event_trigger \<Rightarrow> timing_type" where
  "event_timing_type e = (if e = Trigger_BeginEvent \<or> e = Trigger_EndEvent then Timing_SyncBase else Timing_Event)"

lemma removeWhiteSpaces_id: "CHR '' '' \<notin> set s \<Longrightarrow> removeWhiteSpaces s = s"
  by (auto simp: removeWhiteSpaces_def filter_id_conv)

lemma parse_event_offset:
  assumes "s = ident @ CHR ''.'' # e @ (if pos then CHR ''+'' else CHR ''-'') # clock"
    and "getEventTriggerType e \<noteq> Trigger_Unknown" and "CHR ''.'' \<notin> set ident"
    and "CHR ''+'' \<notin> set ident" and "CHR ''-'' \<notin> set ident" and "CHR ''+'' \<notin> set clock" and "CHR ''-'' \<notin> set clock"
    and "clock \<noteq> []" and "parseClockValue clock = Some t"
  shows "parse_event s this = this\<lparr>tim_eTimingType := event_timing_type (getEventTriggerType e),
      tim_sEventBaseElementId := ident, tim_eEventType := getEventTriggerType e, tim_nOffset := signed pos t\<rparr>"
proof -
  note names = event_trigger_names [OF assms(2)]
  have "CHR ''+'' \<notin> set (ident @ CHR ''.'' # e)" "CHR ''-'' \<notin> set (ident @ CHR ''.'' # e)"
    using names(1,2) assms(4,5) by simp_all
  from split_sign_offset [OF this assms(6,7), of pos] have "split_sign s = (pos, ident @ CHR ''.'' # e, clock)"
    by (simp add: assms(1))
  moreover have "split_on CHR ''.'' (ident @ CHR ''.'' # e) = [ident, e]"
    using assms(3) names by (simp add: split_on_append_sep split_on_no_sep)
  ultimately show ?thesis using assms(2,8,9) by (simp add: parse_event_def Let_def event_timing_type_def)
qed

text \<open>
  The description of an event, blanks removed, is read into its parts: the element, the trigger,
  the kind of timing that belongs to the trigger and the signed offset of the clock value. A clock
  value alone, with or without a sign, is an offset.
\<close>

theorem timing_descriptions_read:
  assumes "parseClockValue clock = Some t" and "clock \<noteq> []" and "is_dec (hd clock)"
    and "getEventTriggerType e \<noteq> Trigger_Unknown" and "ident \<noteq> []" and "\<not> is_dec (hd ident)" and "CHR ''.'' \<notin> set ident"
    and "CHR ''+'' \<notin> set ident" and "CHR ''-'' \<notin> set ident"
    and "CHR ''+'' \<notin> set clock" and "CHR ''-'' \<notin> set clock" and "CHR '' '' \<notin> set clock"
    and "removeWhiteSpaces text = ident @ CHR ''.'' # e @ (if pos then CHR ''+'' else CHR ''-'') # clock"
  shows "parse_timing (new_Timing text) =
      \<lparr>tim_eTimingType = event_timing_type (getEventTriggerType e), tim_sTimingDescription = removeWhiteSpaces text,
       tim_nOffset = signed pos t, tim_sEventBaseElementId = ident, tim_eEventType = getEventTriggerType e\<rparr> \<and>
    parse_timing (new_Timing clock) = (new_Timing clock)\<lparr>tim_eTimingType := Timing_Offset, tim_nOffset := t\<rparr> \<and>
    parse_timing (new_Timing (CHR ''-'' # clock)) =
      (new_Timing (CHR ''-'' # clock))\<lparr>tim_eTimingType := Timing_Offset, tim_nOffset := map_option uminus t\<rparr>"
proof -
  let ?s = "removeWhiteSpaces text"
  have hd: "?s \<noteq> []" "hd ?s = hd ident" "CHR ''.'' \<in> set ?s" using assms(5,13) by simp_all
  have ne: "s \<noteq> ''indefinite''" if "CHR ''.'' \<in> set s \<or> is_dec (hd s) \<or> hd s = CHR ''-''" for s
    using that by auto
  have "hd ident \<in> set ident" "hd clock \<in> set clock" using assms(2,5) by simp_all
  then have signs: "hd ident \<noteq> CHR ''+''" "hd ident \<noteq> CHR ''-''" "hd clock \<noteq> CHR ''+''" "hd clock \<noteq> CHR ''-''"
    using assms(8-11) by metis+
  have "parse_timing (new_Timing text) = parse_event ?s (new_Timing text)"
    using hd ne [of ?s] signs assms(6) by (simp add: parse_timing_def new_Timing_def Let_def)
  also have "\<dots> = \<lparr>tim_eTimingType = event_timing_type (getEventTriggerType e), tim_sTimingDescription = ?s,
       tim_nOffset = signed pos t, tim_sEventBaseElementId = ident, tim_eEventType = getEventTriggerType e\<rparr>"
    using parse_event_offset [OF assms(13,4,7-11) assms(2,1)] by (simp add: new_Timing_def)
  finally have event: "parse_timing (new_Timing text) = \<dots>" .
  have blank: "removeWhiteSpaces clock = clock" "removeWhiteSpaces (CHR ''-'' # clock) = CHR ''-'' # clock"
    using removeWhiteSpaces_id [OF assms(12)] removeWhiteSpaces_id [of "CHR ''-'' # clock"] assms(12) by simp_all
  have "parse_timing (new_Timing clock) = (new_Timing clock)\<lparr>tim_eTimingType := Timing_Offset, tim_nOffset := t\<rparr>"
    using blank(1) ne [of clock] signs assms(1,2,3) by (simp add: parse_timing_def new_Timing_def parse_offset_def signed_def Let_def)
  moreover have "parse_timing (new_Timing (CHR ''-'' # clock)) =
      (new_Timing (CHR ''-'' # clock))\<lparr>tim_eTimingType := Timing_Offset, tim_nOffset := map_option uminus t\<rparr>"
    using blank(2) assms(1) by (simp add: parse_timing_def new_Timing_def parse_offset_def signed_def Let_def)
  ultimately show ?thesis using event by blast
qed

theorem timing_descriptions_read_witness:
  "parseClockValue ''1.5s'' = Some (Some (3 / 2)) \<and> removeWhiteSpaces ''id3.EndEvent + 1.5s'' = ''id3.EndEvent+1.5s'' \<and>
    parse_timing (new_Timing ''id3.EndEvent + 1.5s'') =
      \<lparr>tim_eTimingType = Timing_SyncBase, tim_sTimingDescription = ''id3.EndEvent+1.5s'', tim_nOffset = Some (3 / 2),
       tim_sEventBaseElementId = ''id3'', tim_eEventType = Trigger_EndEvent\<rparr>"
proof -
  have pc: "parseClockValue ''1.5s'' = Some (Some (3 / 2))" by code_simp
  have rw: "removeWhiteSpaces ''id3.EndEvent + 1.5s'' = ''id3.EndEvent+1.5s''" by code_simp
  have ty: "getEventTriggerType ''EndEvent'' = Trigger_EndEvent" "event_timing_type Trigger_EndEvent = Timing_SyncBase"
    "signed True (Some (3 / 2)) = Some (3 / 2)" by (simp_all add: getEventTriggerType_def event_timing_type_def signed_def)
  have "parse_timing (new_Timing ''id3.EndEvent + 1.5s'') =
      \<lparr>tim_eTimingType = event_timing_type (getEventTriggerType ''EndEvent''),
       tim_sTimingDescription = removeWhiteSpaces ''id3.EndEvent + 1.5s'',
       tim_nOffset = signed True (Some (3 / 2)), tim_sEventBaseElementId = ''id3'', tim_eEventType = getEventTriggerType ''EndEvent''\<rparr>"
    by (rule timing_descriptions_read [where clock = "''1.5s''" and pos = True, OF pc, THEN conjunct1]) code_simp+
  then show ?thesis using pc unfolding rw ty by blast
qed

text \<open>
  The point of a fraction is written \<open>.\<close> in the regular expressions and is not escaped, so that
  any character takes its place: a letter there gives an offset that is not a number, and the
  timing is still of the kind of an offset; two digits of seconds that run on are added to it.
\<close>

theorem separator_not_checked:
  assumes "\<not> is_dec c" and "\<not> is_space c" and "c \<notin> {CHR ''.'', CHR ''+'', CHR ''-'', CHR '':''}"
  shows "parseClockValue (show_nat n @ c # show_nat k @ ''s'') = Some None \<and>
    (let tm = parse_timing (new_Timing (show_nat n @ c # show_nat k @ ''s''))
     in tim_eTimingType tm = Timing_Offset \<and> tim_nOffset tm = None) \<and>
    parseClockValue ''00:00:00525'' = Some (Some 525)"
proof -
  let ?s = "show_nat n @ c # show_nat k @ ''s''"
  have c: "c \<noteq> CHR 0x0A" "c \<noteq> CHR 0x0D" "c \<noteq> CHR '' ''" using assms(2) by (auto simp: is_space_def)
  have group: "opt_group (c # show_nat k @ ''s'') = (Some (c # show_nat k), ''s'')"
    using c digits_then [of "CHR ''s''" k "[]"] by (simp add: opt_group_def Let_def)
  have nan: "add_group x (Some (c # show_nat k)) = None" for x
    using assms by (simp add: add_group_def group_float_def)
  have "time_count ?s = Some None"
    using group nan digits_then [OF assms(1), of n] by (simp add: time_count_def Let_def unit_factor_def)
  moreover have "CHR '':'' \<notin> set ?s" using assms(3) show_nat_chars [of "CHR '':''"] by auto
  ultimately have pc: "parseClockValue ?s = Some None" using no_colon by (simp add: parseClockValue_def)
  have "removeWhiteSpaces ?s = ?s" using c show_nat_chars [of "CHR '' ''"] by (intro removeWhiteSpaces_id) auto
  moreover have hd: "is_dec (hd ?s)" using show_nat_digits [of "hd (show_nat n)" n] by simp
  moreover have "?s \<noteq> ''indefinite''" using hd by auto
  moreover have "hd ?s \<noteq> CHR ''+'' \<and> hd ?s \<noteq> CHR ''-''" using hd not_dec_chars by metis
  ultimately have "parse_timing (new_Timing ?s) = (new_Timing ?s)\<lparr>tim_eTimingType := Timing_Offset, tim_nOffset := None\<rparr>"
    using pc by (simp add: parse_timing_def new_Timing_def parse_offset_def signed_def Let_def)
  moreover have "parseClockValue ''00:00:00525'' = Some (Some 525)" by code_simp
  ultimately show ?thesis using pc by simp
qed

theorem separator_not_checked_witness:
  "\<not> is_dec CHR ''x'' \<and> \<not> is_space CHR ''x'' \<and> parseClockValue ''5x3s'' = Some None"
proof -
  have c: "\<not> is_dec CHR ''x''" "\<not> is_space CHR ''x''" by code_simp+
  have t: "show_nat 5 = ''5''" "show_nat 3 = ''3''" by code_simp+
  show ?thesis using separator_not_checked [OF c, of 5 3] c unfolding t by simp
qed

end
