(* ===== verification/Event_Multiplexer.thy ===== *)
theory Event_Multiplexer
  imports Slide_Properties Timing_Text
begin

section \<open>The event multiplexer\<close>

text \<open>
  \<open>browser/src/slideshow/engine/EventMultiplexer.ts\<close>: where animation nodes register the events that
  a trigger puts into the timer event queue, and where handlers of mouse events and of the ends of
  effects register. The multiplexer is the part \<open>sh_rest\<close> of the state of the show; \<open>mx_rest\<close> is
  what else the callbacks change. A map or an array is \<open>None\<close> after \<open>clear\<close> has set it to null, and
  then every use of it throws. The event queue is that of the state. The debugging output is left out.
\<close>

text \<open>The id of a notifier is a number or a string and is used as a string.\<close>

datatype notifier = Number_Id int | String_Id string

primrec notifier_text :: "notifier \<Rightarrow> string" where
  "notifier_text (Number_Id i) = show_int i"
| "notifier_text (String_Id s) = s"

text \<open>A handler \<open>'f\<close> takes no argument, \<open>'e\<close> is one that takes an element; \<open>'c\<close> handles mouse events.\<close>

record ('f, 'e, 'c, 'y) multiplexer =
  mx_nId :: nat
  mx_aEventMap :: "(event_trigger \<rightharpoonup> (string \<rightharpoonup> nat list)) option"
  mx_aAnimationsEndHandler :: "'f option"
  mx_aSkipEffectEndHandlerSet :: "'f list option"
  mx_aMouseClickHandlerSet :: "'c option priority_entry pqueue option"
  mx_aSkipEffectEvent :: "nat option"
  mx_aRewindCurrentEffectEvent :: "nat option"
  mx_aRewindLastEffectEvent :: "nat option"
  mx_aSkipInteractiveEffectEventSet :: "(int \<rightharpoonup> nat) option"
  mx_aRewindRunningInteractiveEffectEventSet :: "(int \<rightharpoonup> nat) option"
  mx_aRewindEndedInteractiveEffectEventSet :: "(int \<rightharpoonup> nat) option"
  mx_aRewindedEffectHandlerSet :: "(string \<rightharpoonup> 'f) option"
  mx_aElementChangedHandlerSet :: "(string \<rightharpoonup> 'e) option"
  mx_rest :: 'y

type_synonym ('f, 'a, 'e, 'c, 'y) mx_show = "('f, 'a, ('f, 'e, 'c, 'y) multiplexer) show_state"

text \<open>The counter of the class is the argument and the second result.\<close>

definition new_EventMultiplexer :: "nat \<Rightarrow> 'y \<Rightarrow> ('f, 'e, 'c, 'y) multiplexer \<times> nat" where
  "new_EventMultiplexer CURR_UNIQUE_ID r =
     (\<lparr>mx_nId = Suc CURR_UNIQUE_ID, mx_aEventMap = Some Map.empty, mx_aAnimationsEndHandler = None,
       mx_aSkipEffectEndHandlerSet = Some [], mx_aMouseClickHandlerSet = Some [], mx_aSkipEffectEvent = None,
       mx_aRewindCurrentEffectEvent = None, mx_aRewindLastEffectEvent = None,
       mx_aSkipInteractiveEffectEventSet = Some Map.empty, mx_aRewindRunningInteractiveEffectEventSet = Some Map.empty,
       mx_aRewindEndedInteractiveEffectEventSet = Some Map.empty, mx_aRewindedEffectHandlerSet = Some Map.empty,
       mx_aElementChangedHandlerSet = Some Map.empty, mx_rest = r\<rparr>, Suc CURR_UNIQUE_ID)"

abbreviation set_mx ::
    "(('f, 'e, 'c, 'y) multiplexer \<Rightarrow> ('f, 'e, 'c, 'y) multiplexer) \<Rightarrow> ('f, 'a, 'e, 'c, 'y) mx_show \<Rightarrow> ('f, 'a, 'e, 'c, 'y) mx_show" where
  "set_mx f w \<equiv> w\<lparr>sh_rest := f (sh_rest w)\<rparr>"

text \<open>Using a field that \<open>clear\<close> may have set to null.\<close>

definition not_null :: "'b option \<Rightarrow> ('b \<Rightarrow> 'w outcome) \<Rightarrow> 'w outcome" where
  "not_null x k = (case x of None \<Rightarrow> throws TypeError | Some v \<Rightarrow> k v)"

definition clear_multiplexer :: "('f, 'a, 'e, 'c, 'y) mx_show \<Rightarrow> ('f, 'a, 'e, 'c, 'y) mx_show outcome" where
  "clear_multiplexer w =
     (let mx = sh_rest w
      in not_null (mx_aEventMap mx) (\<lambda>_. not_null (mx_aMouseClickHandlerSet mx) (\<lambda>_.
         not_null (mx_aSkipInteractiveEffectEventSet mx) (\<lambda>_. not_null (mx_aRewindRunningInteractiveEffectEventSet mx) (\<lambda>_.
         not_null (mx_aRewindEndedInteractiveEffectEventSet mx) (\<lambda>_. not_null (mx_aRewindedEffectHandlerSet mx) (\<lambda>_.
         not_null (mx_aElementChangedHandlerSet mx) (\<lambda>_.
           returns (w\<lparr>sh_rest := mx\<lparr>mx_aEventMap := None, mx_aSkipEffectEndHandlerSet := None, mx_aMouseClickHandlerSet := None,
             mx_aSkipInteractiveEffectEventSet := None, mx_aRewindRunningInteractiveEffectEventSet := None,
             mx_aRewindEndedInteractiveEffectEventSet := None, mx_aRewindedEffectHandlerSet := None,
             mx_aElementChangedHandlerSet := None\<rparr>\<rparr>)))))))))"

subsection \<open>Mouse handlers\<close>

text \<open>The methods of a handler of mouse events, either of which may be missing; they say whether they accept.\<close>

record mouse_event =
  me_x :: num
  me_y :: num

record ('c, 'w) mouse_methods =
  mm_handleClick :: "'c \<Rightarrow> (mouse_event \<Rightarrow> 'w \<Rightarrow> (bool \<times> 'w) outcome) option"
  mm_onMouseMove :: "'c \<Rightarrow> (num \<Rightarrow> num \<Rightarrow> 'w \<Rightarrow> (bool \<times> 'w) outcome) option"

definition hasRegisteredMouseClickHandlers :: "('f, 'a, 'e, 'c, 'y) mx_show \<Rightarrow> bool outcome" where
  "hasRegisteredMouseClickHandlers w =
     not_null (mx_aMouseClickHandlerSet (sh_rest w)) (\<lambda>q. returns (\<not> pq_isEmpty q))"

definition registerMouseClickHandler ::
    "'c option \<Rightarrow> int \<Rightarrow> ('f, 'a, 'e, 'c, 'y) mx_show \<Rightarrow> ('f, 'a, 'e, 'c, 'y) mx_show outcome" where
  "registerMouseClickHandler aHandler nPriority w =
     not_null (mx_aMouseClickHandlerSet (sh_rest w)) (\<lambda>q.
       returns (set_mx (mx_aMouseClickHandlerSet_update (\<lambda>_.
         Some (pq_push PriorityEntry_compare \<lparr>pe_aValue = aHandler, pe_nPriority = nPriority\<rparr> q))) w))"

text \<open>The loop over a copy of the queue, until a handler accepts; \<open>call\<close> is the method, if there is one.\<close>

function offer_loop ::
    "('c \<Rightarrow> ('w \<Rightarrow> (bool \<times> 'w) outcome) option) \<Rightarrow> 'c option priority_entry pqueue \<Rightarrow> 'w \<Rightarrow> 'w outcome" where
  "offer_loop call q w =
     (if pq_isEmpty q then returns w
      else case pq_top q of
             None \<Rightarrow> throws TypeError
           | Some aHandlerEntry \<Rightarrow>
               (case Option.bind (pe_aValue aHandlerEntry) call of
                  None \<Rightarrow> offer_loop call (snd (pq_pop q)) w
                | Some handle \<Rightarrow>
                    andThen (handle w) (\<lambda>r. if fst r then returns (snd r) else offer_loop call (snd (pq_pop q)) (snd r))))"
  by pat_completeness auto
termination
  by (relation "measure (\<lambda>(call, q, w). length q)") (auto simp: pq_isEmpty_def pq_pop_def)

declare offer_loop.simps [simp del]

definition notifyMouseClick ::
    "('c, ('f, 'a, 'e, 'c, 'y) mx_show) mouse_methods \<Rightarrow> mouse_event \<Rightarrow> ('f, 'a, 'e, 'c, 'y) mx_show \<Rightarrow>
     ('f, 'a, 'e, 'c, 'y) mx_show outcome" where
  "notifyMouseClick mm aMouseEvent w =
     not_null (mx_aMouseClickHandlerSet (sh_rest w)) (\<lambda>q.
       offer_loop (\<lambda>c. map_option (\<lambda>m. m aMouseEvent) (mm_handleClick mm c)) (pq_clone q) w)"

definition notifyMouseMove ::
    "('c, ('f, 'a, 'e, 'c, 'y) mx_show) mouse_methods \<Rightarrow> mouse_event \<Rightarrow> ('f, 'a, 'e, 'c, 'y) mx_show \<Rightarrow>
     ('f, 'a, 'e, 'c, 'y) mx_show outcome" where
  "notifyMouseMove mm aMouseEvent w =
     not_null (mx_aMouseClickHandlerSet (sh_rest w)) (\<lambda>q.
       offer_loop (\<lambda>c. map_option (\<lambda>m. m (me_x aMouseEvent) (me_y aMouseEvent)) (mm_onMouseMove mm c)) (pq_clone q) w)"

subsection \<open>Events of a trigger\<close>

definition registerEvent ::
    "event_trigger \<Rightarrow> notifier \<Rightarrow> nat \<Rightarrow> ('f, 'a, 'e, 'c, 'y) mx_show \<Rightarrow> ('f, 'a, 'e, 'c, 'y) mx_show outcome" where
  "registerEvent eEventType aNotifierId aEvent w =
     (let sNotifierId = notifier_text aNotifierId
      in not_null (mx_aEventMap (sh_rest w)) (\<lambda>m.
           let m1 = (case m eEventType of None \<Rightarrow> m(eEventType \<mapsto> Map.empty) | Some _ \<Rightarrow> m);
               inner = the (m1 eEventType);
               inner1 = (case inner sNotifierId of None \<Rightarrow> inner(sNotifierId \<mapsto> []) | Some _ \<Rightarrow> inner);
               inner2 = inner1(sNotifierId \<mapsto> the (inner1 sNotifierId) @ [aEvent])
           in returns (set_mx (mx_aEventMap_update (\<lambda>_. Some (m1(eEventType \<mapsto> inner2)))) w)))"

fun add_all :: "nat list \<Rightarrow> ('f, 'a, 'x) show_state \<Rightarrow> ('f, 'a, 'x) show_state outcome" where
  "add_all [] w = returns w"
| "add_all (aEvent # es) w = andThen (addEvent (Some aEvent) w) (\<lambda>r. add_all es (snd r))"

definition notifyEvent ::
    "event_trigger \<Rightarrow> notifier \<Rightarrow> ('f, 'a, 'e, 'c, 'y) mx_show \<Rightarrow> ('f, 'a, 'e, 'c, 'y) mx_show outcome" where
  "notifyEvent eEventType aNotifierId w =
     not_null (mx_aEventMap (sh_rest w)) (\<lambda>m.
       case m eEventType of
         None \<Rightarrow> returns w
       | Some inner \<Rightarrow>
           (case inner (notifier_text aNotifierId) of None \<Rightarrow> returns w | Some aEventArray \<Rightarrow> add_all aEventArray w))"

subsection \<open>Ends of effects\<close>

definition registerAnimationsEndHandler :: "'f option \<Rightarrow> ('f, 'a, 'e, 'c, 'y) mx_show \<Rightarrow> ('f, 'a, 'e, 'c, 'y) mx_show" where
  "registerAnimationsEndHandler aHandler w = set_mx (mx_aAnimationsEndHandler_update (\<lambda>_. aHandler)) w"

definition notifyAnimationsEndEvent ::
    "('f \<Rightarrow> ('f, 'a, 'e, 'c, 'y) mx_show \<Rightarrow> ('f, 'a, 'e, 'c, 'y) mx_show outcome) \<Rightarrow>
     ('f, 'a, 'e, 'c, 'y) mx_show \<Rightarrow> ('f, 'a, 'e, 'c, 'y) mx_show outcome" where
  "notifyAnimationsEndEvent run w =
     (case mx_aAnimationsEndHandler (sh_rest w) of None \<Rightarrow> returns w | Some f \<Rightarrow> run f w)"

definition registerNextEffectEndHandler ::
    "'f \<Rightarrow> ('f, 'a, 'e, 'c, 'y) mx_show \<Rightarrow> ('f, 'a, 'e, 'c, 'y) mx_show outcome" where
  "registerNextEffectEndHandler aHandler w =
     not_null (mx_aSkipEffectEndHandlerSet (sh_rest w)) (\<lambda>hs.
       returns (set_mx (mx_aSkipEffectEndHandlerSet_update (\<lambda>_. Some (hs @ [aHandler]))) w))"

text \<open>The elements are read as the loop goes; an array that is null or too short by then throws.\<close>

definition end_handlers :: "('f, 'a, 'e, 'c, 'y) mx_show \<Rightarrow> 'f list" where
  "end_handlers w = (case mx_aSkipEffectEndHandlerSet (sh_rest w) of None \<Rightarrow> [] | Some hs \<Rightarrow> hs)"

definition notifyNextEffectEndEvent ::
    "('f \<Rightarrow> ('f, 'a, 'e, 'c, 'y) mx_show \<Rightarrow> ('f, 'a, 'e, 'c, 'y) mx_show outcome) \<Rightarrow>
     ('f, 'a, 'e, 'c, 'y) mx_show \<Rightarrow> ('f, 'a, 'e, 'c, 'y) mx_show outcome" where
  "notifyNextEffectEndEvent run w =
     not_null (mx_aSkipEffectEndHandlerSet (sh_rest w)) (\<lambda>hs.
       andThen (for_live end_handlers run 0 (length hs) w) (\<lambda>w'.
         returns (set_mx (mx_aSkipEffectEndHandlerSet_update (\<lambda>_. Some [])) w')))"

subsection \<open>Skipping and rewinding\<close>

text \<open>An event that is registered for one notification: it is added and forgotten.\<close>

definition notify_once ::
    "nat option \<Rightarrow> (('f, 'e, 'c, 'y) multiplexer \<Rightarrow> ('f, 'e, 'c, 'y) multiplexer) \<Rightarrow>
     ('f, 'a, 'e, 'c, 'y) mx_show \<Rightarrow> ('f, 'a, 'e, 'c, 'y) mx_show outcome" where
  "notify_once slot forget w =
     (case slot of
        None \<Rightarrow> returns w
      | Some aEvent \<Rightarrow> andThen (addEvent (Some aEvent) w) (\<lambda>r. returns (set_mx forget (snd r))))"

definition registerSkipEffectEvent where
  "registerSkipEffectEvent aEvent w = set_mx (mx_aSkipEffectEvent_update (\<lambda>_. aEvent)) w"

definition notifySkipEffectEvent where
  "notifySkipEffectEvent w = notify_once (mx_aSkipEffectEvent (sh_rest w)) (mx_aSkipEffectEvent_update (\<lambda>_. None)) w"

definition registerRewindCurrentEffectEvent where
  "registerRewindCurrentEffectEvent aEvent w = set_mx (mx_aRewindCurrentEffectEvent_update (\<lambda>_. aEvent)) w"

definition notifyRewindCurrentEffectEvent where
  "notifyRewindCurrentEffectEvent w =
     notify_once (mx_aRewindCurrentEffectEvent (sh_rest w)) (mx_aRewindCurrentEffectEvent_update (\<lambda>_. None)) w"

definition registerRewindLastEffectEvent where
  "registerRewindLastEffectEvent aEvent w = set_mx (mx_aRewindLastEffectEvent_update (\<lambda>_. aEvent)) w"

definition notifyRewindLastEffectEvent where
  "notifyRewindLastEffectEvent w =
     notify_once (mx_aRewindLastEffectEvent (sh_rest w)) (mx_aRewindLastEffectEvent_update (\<lambda>_. None)) w"

text \<open>The events of interactive sequences, by the id of the notifier; they stay registered.\<close>

definition notify_in ::
    "(int \<rightharpoonup> nat) option \<Rightarrow> int \<Rightarrow> ('f, 'a, 'e, 'c, 'y) mx_show \<Rightarrow> ('f, 'a, 'e, 'c, 'y) mx_show outcome" where
  "notify_in m nNotifierId w =
     not_null m (\<lambda>es. case es nNotifierId of
       None \<Rightarrow> returns w | Some aEvent \<Rightarrow> andThen (addEvent (Some aEvent) w) (\<lambda>r. returns (snd r)))"

definition registerSkipInteractiveEffectEvent where
  "registerSkipInteractiveEffectEvent nNotifierId aEvent w =
     not_null (mx_aSkipInteractiveEffectEventSet (sh_rest w)) (\<lambda>es.
       returns (set_mx (mx_aSkipInteractiveEffectEventSet_update (\<lambda>_. Some (es(nNotifierId \<mapsto> aEvent)))) w))"

definition notifySkipInteractiveEffectEvent where
  "notifySkipInteractiveEffectEvent nNotifierId w = notify_in (mx_aSkipInteractiveEffectEventSet (sh_rest w)) nNotifierId w"

definition registerRewindRunningInteractiveEffectEvent where
  "registerRewindRunningInteractiveEffectEvent nNotifierId aEvent w =
     not_null (mx_aRewindRunningInteractiveEffectEventSet (sh_rest w)) (\<lambda>es.
       returns (set_mx (mx_aRewindRunningInteractiveEffectEventSet_update (\<lambda>_. Some (es(nNotifierId \<mapsto> aEvent)))) w))"

definition notifyRewindRunningInteractiveEffectEvent where
  "notifyRewindRunningInteractiveEffectEvent nNotifierId w =
     notify_in (mx_aRewindRunningInteractiveEffectEventSet (sh_rest w)) nNotifierId w"

definition registerRewindEndedInteractiveEffectEvent where
  "registerRewindEndedInteractiveEffectEvent nNotifierId aEvent w =
     not_null (mx_aRewindEndedInteractiveEffectEventSet (sh_rest w)) (\<lambda>es.
       returns (set_mx (mx_aRewindEndedInteractiveEffectEventSet_update (\<lambda>_. Some (es(nNotifierId \<mapsto> aEvent)))) w))"

definition notifyRewindEndedInteractiveEffectEvent where
  "notifyRewindEndedInteractiveEffectEvent nNotifierId w =
     notify_in (mx_aRewindEndedInteractiveEffectEventSet (sh_rest w)) nNotifierId w"

definition registerRewindedEffectHandler where
  "registerRewindedEffectHandler aNotifierId aHandler w =
     not_null (mx_aRewindedEffectHandlerSet (sh_rest w)) (\<lambda>hs.
       returns (set_mx (mx_aRewindedEffectHandlerSet_update (\<lambda>_. Some (hs(notifier_text aNotifierId \<mapsto> aHandler)))) w))"

definition notifyRewindedEffectEvent where
  "notifyRewindedEffectEvent run aNotifierId w =
     not_null (mx_aRewindedEffectHandlerSet (sh_rest w)) (\<lambda>hs.
       case hs (notifier_text aNotifierId) of None \<Rightarrow> returns w | Some f \<Rightarrow> run f w)"

definition registerElementChangedHandler where
  "registerElementChangedHandler aNotifierId aHandler w =
     not_null (mx_aElementChangedHandlerSet (sh_rest w)) (\<lambda>hs.
       returns (set_mx (mx_aElementChangedHandlerSet_update (\<lambda>_. Some (hs(aNotifierId \<mapsto> aHandler)))) w))"

definition notifyElementChangedEvent where
  "notifyElementChangedEvent run1 aNotifierId aElement w =
     not_null (mx_aElementChangedHandlerSet (sh_rest w)) (\<lambda>hs.
       case hs aNotifierId of None \<Rightarrow> returns w | Some f \<Rightarrow> run1 f aElement w)"

end
