(* ===== verification/Multiplexer_Properties.thy ===== *)
theory Multiplexer_Properties
  imports Event_Multiplexer
begin

section \<open>Properties of the event multiplexer\<close>

text \<open>
  What a notification does with what was registered: the events of the trigger enter the timer event
  queue, the mouse handlers are asked by priority, the handlers of the end of an effect are called
  once.
\<close>

text \<open>A sequence of calls.\<close>

primrec seq_ops :: "('w \<Rightarrow> 'w outcome) list \<Rightarrow> 'w \<Rightarrow> 'w outcome" where
  "seq_ops [] w = returns w"
| "seq_ops (f # fs) w = andThen (f w) (seq_ops fs)"

subsection \<open>Adding events to the queue\<close>

lemma read_timer_again:
  assumes "timers_ok (sh_timers w)" and "i \<in> dom (sh_timers w)"
    and "getElapsedTimeImpl (sh_timers w) (sh_clock w) i = Some now"
  shows "\<exists>h. read_timer i w = Some (Inr (now, w\<lparr>sh_timers := h\<rparr>)) \<and> timers_ok h \<and> dom h = dom (sh_timers w) \<and>
    getElapsedTimeImpl h (sh_clock w) i = Some now"
proof -
  from assms(2) obtain t where t: "sh_timers w i = Some t" by auto
  let ?t = "t\<lparr>nLastQueriedTime := now\<rparr>"
  have "getElapsedTimeImpl ((sh_timers w)(i \<mapsto> ?t)) (sh_clock w) i = Some now"
    using elapsed_updated [OF assms(1) t, of ?t "sh_clock w"] elapsed_unfold [of "sh_timers w" i t "sh_clock w"] t assms(3)
    by (simp add: frozen_def)
  moreover have "timers_ok ((sh_timers w)(i \<mapsto> ?t))" by (rule timers_ok_update [OF assms(1) t]) simp
  moreover have "read_timer i w = Some (Inr (now, w\<lparr>sh_timers := (sh_timers w)(i \<mapsto> ?t)\<rparr>))"
    using t assms(3) by (simp add: read_timer_def getElapsedTime_def)
  ultimately show ?thesis using t by (metis dom_fun_upd insert_dom option.distinct(1))
qed

definition delay_of :: "(nat \<rightharpoonup> ('f, 'a) event) \<Rightarrow> nat \<Rightarrow> num" where
  "delay_of evs i = (case evs i of Some (DelayEvent f d b) \<Rightarrow> d | _ \<Rightarrow> 0)"

definition entry_at :: "(nat \<rightharpoonup> ('f, 'a) event) \<Rightarrow> num \<Rightarrow> nat \<Rightarrow> event_entry" where
  "entry_at evs now i = \<lparr>ee_aEvent = i, ee_nActivationTime = delay_of evs i + now\<rparr>"

definition is_delay :: "(nat \<rightharpoonup> ('f, 'a) event) \<Rightarrow> nat \<Rightarrow> bool" where
  "is_delay evs i \<longleftrightarrow> (case evs i of Some (DelayEvent f d b) \<Rightarrow> True | _ \<Rightarrow> False)"

lemma addEvent_delay:
  assumes "timers_ok (sh_timers w)" and "sh_aTimer w \<in> dom (sh_timers w)"
    and "getElapsedTimeImpl (sh_timers w) (sh_clock w) (sh_aTimer w) = Some now" and "is_delay (sh_events w) i"
  shows "\<exists>h. addEvent (Some i) w = Some (Inr (True, w\<lparr>sh_timers := h,
      sh_queue := pq_push EventEntry_compare (entry_at (sh_events w) now i) (sh_queue w)\<rparr>)) \<and>
    timers_ok h \<and> dom h = dom (sh_timers w) \<and> getElapsedTimeImpl h (sh_clock w) (sh_aTimer w) = Some now"
proof -
  obtain h where h: "read_timer (sh_aTimer w) w = Some (Inr (now, w\<lparr>sh_timers := h\<rparr>))" "timers_ok h"
      "dom h = dom (sh_timers w)" "getElapsedTimeImpl h (sh_clock w) (sh_aTimer w) = Some now"
    using read_timer_again [OF assms(1-3)] by blast
  obtain f d b where "sh_events w i = Some (DelayEvent f d b)"
    using assms(4) by (auto simp: is_delay_def split: option.splits event.splits)
  then have "addEvent (Some i) w = Some (Inr (True, w\<lparr>sh_timers := h,
      sh_queue := pq_push EventEntry_compare (entry_at (sh_events w) now i) (sh_queue w)\<rparr>))"
    using h(1) by (simp add: addEvent_def getActivationTime_def entry_at_def delay_of_def)
  with h show ?thesis by blast
qed

lemma add_all_delays:
  assumes "timers_ok (sh_timers w)" and "sh_aTimer w \<in> dom (sh_timers w)"
    and "getElapsedTimeImpl (sh_timers w) (sh_clock w) (sh_aTimer w) = Some now" and "\<forall>i \<in> set es. is_delay (sh_events w) i"
  shows "\<exists>h. add_all es w = Some (Inr (w\<lparr>sh_timers := h,
      sh_queue := fold (pq_push EventEntry_compare) (map (entry_at (sh_events w) now) es) (sh_queue w)\<rparr>))"
  using assms
proof (induction es arbitrary: w)
  case Nil
  then show ?case by (auto intro: exI [of _ "sh_timers w"])
next
  case (Cons i es)
  obtain h where h: "addEvent (Some i) w = Some (Inr (True, w\<lparr>sh_timers := h,
      sh_queue := pq_push EventEntry_compare (entry_at (sh_events w) now i) (sh_queue w)\<rparr>))"
      "timers_ok h" "dom h = dom (sh_timers w)" "getElapsedTimeImpl h (sh_clock w) (sh_aTimer w) = Some now"
    using addEvent_delay [OF Cons.prems(1-3), of i] Cons.prems(4) by auto
  have "\<exists>h'. add_all es (w\<lparr>sh_timers := h, sh_queue := pq_push EventEntry_compare (entry_at (sh_events w) now i) (sh_queue w)\<rparr>) =
      Some (Inr (w\<lparr>sh_timers := h', sh_queue := fold (pq_push EventEntry_compare) (map (entry_at (sh_events w) now) es)
        (pq_push EventEntry_compare (entry_at (sh_events w) now i) (sh_queue w))\<rparr>))"
    using Cons.IH [of "w\<lparr>sh_timers := h, sh_queue := pq_push EventEntry_compare (entry_at (sh_events w) now i) (sh_queue w)\<rparr>"]
      Cons.prems h(2-4) by simp
  then show ?case using h(1) by simp
qed

subsection \<open>What is registered for a trigger\<close>

definition registered :: "(event_trigger \<rightharpoonup> (string \<rightharpoonup> nat list)) \<Rightarrow> event_trigger \<Rightarrow> string \<Rightarrow> nat list" where
  "registered m t s = (case m t of None \<Rightarrow> [] | Some inner \<Rightarrow> (case inner s of None \<Rightarrow> [] | Some es \<Rightarrow> es))"

lemma registerEvent_registered:
  assumes "mx_aEventMap (sh_rest w) = Some m"
  shows "\<exists>m'. registerEvent t n e w = Some (Inr (set_mx (mx_aEventMap_update (\<lambda>_. Some m')) w)) \<and>
    (\<forall>t' s. registered m' t' s = registered m t' s @ (if t' = t \<and> s = notifier_text n then [e] else []))"
proof (intro exI conjI)
  let ?inner = "case m t of None \<Rightarrow> Map.empty | Some i \<Rightarrow> i" and ?s = "notifier_text n"
  let ?m = "m(t \<mapsto> ?inner(?s \<mapsto> registered m t ?s @ [e]))"
  show "registerEvent t n e w = Some (Inr (set_mx (mx_aEventMap_update (\<lambda>_. Some ?m)) w))"
    using assms by (cases "m t"; cases "?inner ?s") (simp_all add: registerEvent_def not_null_def registered_def)
  show "\<forall>t' s. registered ?m t' s = registered m t' s @ (if t' = t \<and> s = ?s then [e] else [])"
    by (cases "m t") (auto simp: registered_def)
qed

lemma notifyEvent_registered:
  "mx_aEventMap (sh_rest w) = Some m \<Longrightarrow> notifyEvent t n w = add_all (registered m t (notifier_text n)) w"
  by (simp add: notifyEvent_def not_null_def registered_def split: option.splits)

definition of_trigger :: "event_trigger \<Rightarrow> notifier \<Rightarrow> (event_trigger \<times> notifier \<times> nat) list \<Rightarrow> nat list" where
  "of_trigger t n regs =
     map (\<lambda>(_, _, e). e) (filter (\<lambda>(t', n', _). t' = t \<and> notifier_text n' = notifier_text n) regs)"

lemma register_all:
  assumes "mx_aEventMap (sh_rest w) = Some m"
  shows "\<exists>m'. seq_ops (map (\<lambda>(t, n, e). registerEvent t n e) regs) w = Some (Inr (set_mx (mx_aEventMap_update (\<lambda>_. Some m')) w)) \<and>
    (\<forall>t n. registered m' t (notifier_text n) = registered m t (notifier_text n) @ of_trigger t n regs)"
  using assms
proof (induction regs arbitrary: w m)
  case Nil
  then show ?case by (auto simp: of_trigger_def intro!: exI [of _ m])
next
  case (Cons r regs)
  obtain t n e where r: "r = (t, n, e)" by (cases r)
  obtain m1 where m1: "registerEvent t n e w = Some (Inr (set_mx (mx_aEventMap_update (\<lambda>_. Some m1)) w))"
      "\<forall>t' s. registered m1 t' s = registered m t' s @ (if t' = t \<and> s = notifier_text n then [e] else [])"
    using registerEvent_registered [OF Cons.prems] by blast
  obtain m' where "seq_ops (map (\<lambda>(t, n, e). registerEvent t n e) regs) (set_mx (mx_aEventMap_update (\<lambda>_. Some m1)) w) =
      Some (Inr (set_mx (mx_aEventMap_update (\<lambda>_. Some m')) w))"
      "\<forall>t n. registered m' t (notifier_text n) = registered m1 t (notifier_text n) @ of_trigger t n regs"
    using Cons.IH [of "set_mx (mx_aEventMap_update (\<lambda>_. Some m1)) w" m1] by auto
  with m1 show ?case by (auto simp: r of_trigger_def intro!: exI [of _ m'])
qed

text \<open>
  C18. A notification puts the events that were registered for its trigger and notifier, and no
  others, into the timer event queue, in the order of their registration, each due after its delay;
  the queue stays sorted. The id of a notifier may be given as a number or as a string.
\<close>

theorem notify_schedules_registered:
  assumes "mx_aEventMap (sh_rest w) = Some Map.empty" and "sorted_queue (sh_queue w)"
    and "timers_ok (sh_timers w)" and "sh_aTimer w \<in> dom (sh_timers w)"
    and "getElapsedTimeImpl (sh_timers w) (sh_clock w) (sh_aTimer w) = Some now"
    and "\<forall>(t, n, e) \<in> set regs. is_delay (sh_events w) e"
  shows "\<exists>w1 h. seq_ops (map (\<lambda>(t, n, e). registerEvent t n e) regs) w = returns w1 \<and>
    notifyEvent t n w1 = returns (w1\<lparr>sh_timers := h,
      sh_queue := fold (pq_push EventEntry_compare) (map (entry_at (sh_events w) now) (of_trigger t n regs)) (sh_queue w)\<rparr>) \<and>
    sorted_queue (fold (pq_push EventEntry_compare) (map (entry_at (sh_events w) now) (of_trigger t n regs)) (sh_queue w))"
proof -
  obtain m where m: "seq_ops (map (\<lambda>(t, n, e). registerEvent t n e) regs) w = Some (Inr (set_mx (mx_aEventMap_update (\<lambda>_. Some m)) w))"
      "registered m t (notifier_text n) = of_trigger t n regs"
    using register_all [OF assms(1), of regs] by (auto simp: registered_def)
  let ?w = "set_mx (mx_aEventMap_update (\<lambda>_. Some m)) w"
  have "\<forall>i \<in> set (of_trigger t n regs). is_delay (sh_events ?w) i" using assms(6) by (auto simp: of_trigger_def)
  then obtain h where "add_all (of_trigger t n regs) ?w = Some (Inr (?w\<lparr>sh_timers := h,
      sh_queue := fold (pq_push EventEntry_compare) (map (entry_at (sh_events w) now) (of_trigger t n regs)) (sh_queue w)\<rparr>))"
    using add_all_delays [of ?w now "of_trigger t n regs"] assms(3-5) by auto
  moreover have "notifyEvent t n ?w = add_all (of_trigger t n regs) ?w"
    using notifyEvent_registered [of ?w m t n] m(2) by simp
  ultimately show ?thesis using m(1) sorted_fold_push [OF assms(2)] by auto
qed

text \<open>
  A show with an empty multiplexer: the part \<open>mx_rest\<close> is the list of the calls.
\<close>

definition sample_mx :: "(nat, nat, nat, nat, nat list) mx_show" where
  "sample_mx = \<lparr>sh_clock = sh_clock sample_show, sh_timers = sh_timers sample_show, sh_aTimer = sh_aTimer sample_show,
     sh_events = sh_events sample_show, sh_queue = sh_queue sample_show, sh_waiting = [], sh_reinsert = [], sh_dequeued = [],
     sh_rest = fst (new_EventMultiplexer 0 [])\<rparr>"

theorem notify_schedules_registered_witness:
  "\<exists>w1 h. seq_ops (map (\<lambda>(t, n, e). registerEvent t n e)
      [(Trigger_EndEvent, Number_Id 7, 0), (Trigger_OnClick, Number_Id 7, 2), (Trigger_EndEvent, String_Id ''7'', 1)]) sample_mx = returns w1 \<and>
    notifyEvent Trigger_EndEvent (String_Id ''7'') w1 = returns (w1\<lparr>sh_timers := h,
      sh_queue := [\<lparr>ee_aEvent = 0, ee_nActivationTime = 11\<rparr>, \<lparr>ee_aEvent = 1, ee_nActivationTime = 7\<rparr>,
        \<lparr>ee_aEvent = 0, ee_nActivationTime = 7\<rparr>, \<lparr>ee_aEvent = 1, ee_nActivationTime = 3\<rparr>, \<lparr>ee_aEvent = 2, ee_nActivationTime = 2\<rparr>]\<rparr>)"
proof -
  let ?regs = "[(Trigger_EndEvent, Number_Id 7, 0), (Trigger_OnClick, Number_Id 7, 2), (Trigger_EndEvent, String_Id ''7'', 1)]"
  have now: "getElapsedTimeImpl (sh_timers sample_mx) (sh_clock sample_mx) (sh_aTimer sample_mx) = Some 4" by code_simp
  have seven: "show_int 7 = ''7''" by code_simp
  have "sorted_queue (sh_queue sample_mx)" by code_simp
  moreover have "timers_ok (sh_timers sample_mx)" "sh_aTimer sample_mx \<in> dom (sh_timers sample_mx)"
    using sample_timers_ok by (simp_all add: sample_mx_def sample_show_def sample_timers_def)
  moreover have "mx_aEventMap (sh_rest sample_mx) = Some Map.empty" by (simp add: sample_mx_def new_EventMultiplexer_def)
  moreover have "\<forall>(t, n, e) \<in> set ?regs. is_delay (sh_events sample_mx) e" by (simp add: sample_mx_def sample_show_def is_delay_def)
  moreover have these: "of_trigger Trigger_EndEvent (String_Id ''7'') ?regs = [0, 1]" by (simp add: of_trigger_def seven)
  moreover have "fold (pq_push EventEntry_compare) (map (entry_at (sh_events sample_mx) 4) [0, 1]) (sh_queue sample_mx) =
      [\<lparr>ee_aEvent = 0, ee_nActivationTime = 11\<rparr>, \<lparr>ee_aEvent = 1, ee_nActivationTime = 7\<rparr>,
        \<lparr>ee_aEvent = 0, ee_nActivationTime = 7\<rparr>, \<lparr>ee_aEvent = 1, ee_nActivationTime = 3\<rparr>, \<lparr>ee_aEvent = 2, ee_nActivationTime = 2\<rparr>]"
    by code_simp
  ultimately show ?thesis
    using notify_schedules_registered [of sample_mx 4 ?regs Trigger_EndEvent "String_Id ''7''"] now by (simp only: these) blast
qed

subsection \<open>Mouse handlers by priority\<close>

text \<open>The reference: the handlers are asked in turn until one accepts.\<close>

primrec offer :: "('c \<Rightarrow> ('w \<Rightarrow> (bool \<times> 'w) outcome) option) \<Rightarrow> 'c option list \<Rightarrow> 'w \<Rightarrow> 'w outcome" where
  "offer call [] w = returns w"
| "offer call (h # hs) w =
     (case Option.bind h call of
        None \<Rightarrow> offer call hs w
      | Some handle \<Rightarrow> andThen (handle w) (\<lambda>r. if fst r then returns (snd r) else offer call hs (snd r)))"

lemma offer_loop_rev: "offer_loop call q w = offer call (map pe_aValue (rev q)) w"
proof (induction q arbitrary: w rule: rev_induct)
  case Nil
  then show ?case by (subst offer_loop.simps) (simp add: pq_isEmpty_def)
next
  case (snoc e q)
  then show ?case
    by (subst offer_loop.simps) (simp add: pq_isEmpty_def pq_top_def pq_pop_def split: option.split cong: if_cong)
qed

lemma register_handlers:
  fixes es :: "'c option priority_entry list"
  assumes "mx_aMouseClickHandlerSet (sh_rest w) = Some q"
  shows "seq_ops (map (\<lambda>e. registerMouseClickHandler (pe_aValue e) (pe_nPriority e)) es) w =
    Some (Inr (set_mx (mx_aMouseClickHandlerSet_update (\<lambda>_. Some (fold (pq_push PriorityEntry_compare) es q))) w))"
  using assms
proof (induction es arbitrary: w q)
  case (Cons e es)
  let ?w = "set_mx (mx_aMouseClickHandlerSet_update (\<lambda>_. Some (pq_push PriorityEntry_compare e q))) w"
  have "registerMouseClickHandler (pe_aValue e) (pe_nPriority e) w = Some (Inr ?w)"
    using Cons.prems by (cases e) (simp add: registerMouseClickHandler_def not_null_def)
  then show ?case using Cons.IH [of ?w] by simp
qed simp

text \<open>
  C28. A click and a move of the mouse are offered to the registered handlers by decreasing
  priority, those of the same priority in the order of registration, until one accepts; a handler
  without the method is passed over.
\<close>

theorem mouse_handlers_by_priority:
  fixes es :: "'c option priority_entry list"
  assumes "mx_aMouseClickHandlerSet (sh_rest w) = Some []"
  shows "\<exists>w1. seq_ops (map (\<lambda>e. registerMouseClickHandler (pe_aValue e) (pe_nPriority e)) es) w = returns w1 \<and>
    notifyMouseClick mm ev w1 =
      offer (\<lambda>c. map_option (\<lambda>m. m ev) (mm_handleClick mm c)) (map pe_aValue (sort_key (\<lambda>e. - pe_nPriority e) es)) w1 \<and>
    notifyMouseMove mm ev w1 =
      offer (\<lambda>c. map_option (\<lambda>m. m (me_x ev) (me_y ev)) (mm_onMouseMove mm c)) (map pe_aValue (sort_key (\<lambda>e. - pe_nPriority e) es)) w1"
proof -
  have "rev (fold (pq_push PriorityEntry_compare) es []) = sort_key (\<lambda>e. - pe_nPriority e) es"
    using pe.drain_sorted_stable [of es] by (simp add: pq_drain_rev)
  then show ?thesis
    using register_handlers [OF assms, of es]
    by (simp add: notifyMouseClick_def notifyMouseMove_def not_null_def pq_clone_id offer_loop_rev)
qed

text \<open>Handlers that log their name and accept when it is even.\<close>

definition sample_mouse :: "(nat, (nat, nat, nat, nat, nat list) mx_show) mouse_methods" where
  "sample_mouse = \<lparr>mm_handleClick = (\<lambda>c. if c = 9 then None
       else Some (\<lambda>ev w. returns (even c, set_mx (mx_rest_update (\<lambda>l. l @ [c])) w))), mm_onMouseMove = (\<lambda>c. None)\<rparr>"

theorem mouse_handlers_by_priority_witness:
  "\<exists>w1 w2. seq_ops (map (\<lambda>e. registerMouseClickHandler (pe_aValue e) (pe_nPriority e))
      [\<lparr>pe_aValue = Some 4, pe_nPriority = 1\<rparr>, \<lparr>pe_aValue = Some 3, pe_nPriority = 2\<rparr>, \<lparr>pe_aValue = Some 9, pe_nPriority = 5\<rparr>,
       \<lparr>pe_aValue = Some 6, pe_nPriority = 2\<rparr>]) sample_mx = returns w1 \<and>
    notifyMouseClick sample_mouse \<lparr>me_x = 0, me_y = 0\<rparr> w1 = returns w2 \<and> mx_rest (sh_rest w2) = mx_rest (sh_rest w1) @ [3, 6]"
  using mouse_handlers_by_priority [of sample_mx
      "[\<lparr>pe_aValue = Some 4, pe_nPriority = 1\<rparr>, \<lparr>pe_aValue = Some 3, pe_nPriority = 2\<rparr>, \<lparr>pe_aValue = Some 9, pe_nPriority = 5\<rparr>,
        \<lparr>pe_aValue = Some 6, pe_nPriority = 2\<rparr>]" sample_mouse "\<lparr>me_x = 0, me_y = 0\<rparr>"]
  by (auto simp: sample_mx_def new_EventMultiplexer_def sample_mouse_def)

subsection \<open>Ends of effects\<close>

text \<open>Handlers that may register others but do not take any away.\<close>

definition only_registers :: "('f \<Rightarrow> ('f, 'a, 'e, 'c, 'y) mx_show \<Rightarrow> ('f, 'a, 'e, 'c, 'y) mx_show outcome) \<Rightarrow> bool" where
  "only_registers run \<longleftrightarrow>
     (\<forall>f w w' hs. mx_aSkipEffectEndHandlerSet (sh_rest w) = Some hs \<and> run f w = returns w' \<longrightarrow>
        (\<exists>extra. mx_aSkipEffectEndHandlerSet (sh_rest w') = Some (hs @ extra)))"

lemma for_live_end_handlers:
  assumes "only_registers run" and "mx_aSkipEffectEndHandlerSet (sh_rest w) = Some (done @ hs @ extra)"
  shows "for_live end_handlers run (length done) (length hs) w = seq_ops (map run hs) w"
  using assms(2)
proof (induction hs arbitrary: w "done" extra)
  case (Cons h hs)
  have nth: "js_nth (end_handlers w) (int (length done)) = Some h" using Cons.prems by (simp add: end_handlers_def)
  have step: "for_live end_handlers run (Suc (length done)) (length hs) w' = seq_ops (map run hs) w'" if r: "run h w = Some (Inr w')" for w'
  proof -
    obtain m where "mx_aSkipEffectEndHandlerSet (sh_rest w') = Some ((done @ [h]) @ hs @ extra @ m)"
      using assms(1) [unfolded only_registers_def, rule_format, of w "done @ (h # hs) @ extra" h w'] Cons.prems r by auto
    from Cons.IH [OF this] show ?thesis by simp
  qed
  show ?case using nth step by (cases "run h w") (auto simp: andThen_def split: sum.splits)
qed simp

text \<open>
  The end of an effect calls the handlers that are registered at that time, each once and in
  order, and forgets them: a second notification calls none of them. It forgets the handlers
  that these calls register as well, which are never called.
\<close>

theorem end_handlers_called_once:
  assumes "only_registers run" and "mx_aSkipEffectEndHandlerSet (sh_rest w) = Some hs"
  shows "notifyNextEffectEndEvent run w =
      andThen (seq_ops (map run hs) w) (\<lambda>w'. returns (set_mx (mx_aSkipEffectEndHandlerSet_update (\<lambda>_. Some [])) w')) \<and>
    (\<forall>w'. notifyNextEffectEndEvent run w = returns w' \<longrightarrow>
      mx_aSkipEffectEndHandlerSet (sh_rest w') = Some [] \<and> notifyNextEffectEndEvent run w' = returns w')"
proof -
  have "for_live end_handlers run 0 (length hs) w = seq_ops (map run hs) w"
    using for_live_end_handlers [OF assms(1), of w "[]" hs "[]"] assms(2) by simp
  then have eq: "notifyNextEffectEndEvent run w =
      andThen (seq_ops (map run hs) w) (\<lambda>w'. returns (set_mx (mx_aSkipEffectEndHandlerSet_update (\<lambda>_. Some [])) w'))"
    using assms(2) by (simp add: notifyNextEffectEndEvent_def not_null_def)
  moreover have "mx_aSkipEffectEndHandlerSet (sh_rest w') = Some [] \<and> notifyNextEffectEndEvent run w' = returns w'"
    if "notifyNextEffectEndEvent run w = returns w'" for w'
  proof -
    have "mx_aSkipEffectEndHandlerSet (sh_rest w') = Some []"
      using that unfolding eq by (auto simp: andThen_def split: option.splits sum.splits bind_splits)
    then show ?thesis by (simp add: notifyNextEffectEndEvent_def not_null_def)
  qed
  ultimately show ?thesis by blast
qed

text \<open>A handler that logs its name, and registers another when its name is 1.\<close>

definition sample_handler :: "nat \<Rightarrow> (nat, nat, nat, nat, nat list) mx_show \<Rightarrow> (nat, nat, nat, nat, nat list) mx_show outcome" where
  "sample_handler f w =
     (let w1 = set_mx (mx_rest_update (\<lambda>l. l @ [f])) w
      in if f = 1 then registerNextEffectEndHandler 8 w1 else returns w1)"

theorem end_handlers_called_once_witness:
  "\<exists>w1 w2. seq_ops [registerNextEffectEndHandler 1, registerNextEffectEndHandler 2] sample_mx = returns w1 \<and>
    notifyNextEffectEndEvent sample_handler w1 = returns w2 \<and> mx_rest (sh_rest w2) = [1, 2] \<and>
    notifyNextEffectEndEvent sample_handler w2 = returns w2"
proof -
  have only: "only_registers sample_handler"
    by (auto simp: only_registers_def sample_handler_def registerNextEffectEndHandler_def not_null_def Let_def split: if_splits)
  obtain w1 where w1: "seq_ops [registerNextEffectEndHandler 1, registerNextEffectEndHandler 2] sample_mx = returns w1"
      "mx_aSkipEffectEndHandlerSet (sh_rest w1) = Some [1, 2]" "mx_rest (sh_rest w1) = []"
    by (simp add: registerNextEffectEndHandler_def not_null_def sample_mx_def new_EventMultiplexer_def)
  note once = end_handlers_called_once [OF only w1(2)]
  obtain w2 where "notifyNextEffectEndEvent sample_handler w1 = returns w2" "mx_rest (sh_rest w2) = [1, 2]"
    using once [THEN conjunct1] w1(2,3) by (simp add: sample_handler_def registerNextEffectEndHandler_def not_null_def)
  then show ?thesis using once [THEN conjunct2] w1(1) by blast
qed

end
