(* ===== verification/Slide_Navigator.thy ===== *)
theory Slide_Navigator
  imports Slide_Events
begin

section \<open>Navigation of the slide show\<close>

text \<open>
  \<open>MetaPresentation\<close> and \<open>SlideShowNavigator\<close> of \<open>browser/src/slideshow/engine/\<close>, with \<open>fetchAndRun\<close> of
  \<open>SlideCompositor.ts\<close> and \<open>LayersCompositor.ts\<close> and \<open>hitTest\<close> and \<open>sendSlideShowFollowMessage\<close> of
  \<open>SlideShowPresenter.ts\<close>: which slide a key, a click or a swipe leads to.

  A slide is displayed once it is available, at once or later: the callback waits in one slot, which
  is \<open>nv_onGotSlideCallback\<close>, and \<open>slide_arrives\<close> runs it. What the handler of the effects, the
  presenter and the compositor do is an argument, a record of calls on the whole state: they may call
  the navigator in turn. The debugging output is left out.
\<close>

subsection \<open>The presentation\<close>

record click_rect =
  cr_x :: num
  cr_y :: num
  cr_width :: num
  cr_height :: num

definition hitTest :: "click_rect \<Rightarrow> num \<Rightarrow> num \<Rightarrow> bool" where
  "hitTest bounds x y \<longleftrightarrow>
     x \<ge> cr_x bounds \<and> x \<le> cr_x bounds + cr_width bounds \<and> y \<ge> cr_y bounds \<and> y \<le> cr_y bounds + cr_height bounds"

datatype click_action =
    Act_bookmark (bookmark_of: string) | Act_prevpage | Act_nextpage | Act_firstpage | Act_lastpage | Act_stoppresentation
  | Act_other string

record interaction =
  ia_bounds :: click_rect
  ia_clickAction :: "click_action option"

record video_info = click_rect +
  vi_id :: int

record slide_info =
  si_hash :: string
  si_index :: int
  si_name :: string
  si_hidden :: bool
  si_videos :: "video_info list option"
  si_interactions :: "interaction list option"
  si_next :: "string option"
  si_prev :: "string option"
  si_indexInSlideShow :: "int option"
  si_nextSlideDuration :: "num option"
  si_transitionLabel :: "string option"
  si_a11y :: "string option"

record presentation_info =
  pi_slides :: "slide_info list"
  pi_docWidth :: num
  pi_docHeight :: num

text \<open>The maps are undefined until \<open>update\<close> has seen a slide.\<close>

record meta_pres =
  mp_docWidth :: num
  mp_docHeight :: num
  mp_numberOfSlides :: int
  mp_firstSlideHash :: "string option"
  mp_lastSlideHash :: "string option"
  mp_metaSlides :: "(string \<rightharpoonup> slide_info) option"
  mp_partHashes :: "(int \<rightharpoonup> string) option"

definition linked_slide :: "slide_info list \<Rightarrow> nat \<Rightarrow> slide_info" where
  "linked_slide slides i =
     (slides ! i)\<lparr>si_indexInSlideShow := Some (int i),
       si_prev := (if i = 0 then None else Some (si_hash (slides ! (i - 1)))),
       si_next := (if i + 1 < length slides then Some (si_hash (slides ! (i + 1))) else None)\<rparr>"

definition update_pres :: "presentation_info \<Rightarrow> meta_pres \<Rightarrow> meta_pres" where
  "update_pres info mp =
     (let mp1 = mp\<lparr>mp_docWidth := pi_docWidth info, mp_docHeight := pi_docHeight info,
                   mp_numberOfSlides := int (length (pi_slides info))\<rparr>;
          slides = pi_slides info; ls = map (linked_slide slides) [0..<length slides]
      in if slides = [] then mp1
         else mp1\<lparr>mp_firstSlideHash := Some (si_hash (slides ! 0)),
                  mp_lastSlideHash := Some (si_hash (slides ! (length slides - 1))),
                  mp_metaSlides := Some (fold (\<lambda>s m. m(si_hash s \<mapsto> s)) ls Map.empty),
                  mp_partHashes := Some (fold (\<lambda>s m. m(si_index s \<mapsto> si_hash s)) ls Map.empty)\<rparr>)"

definition new_MetaPresentation :: "presentation_info \<Rightarrow> meta_pres" where
  "new_MetaPresentation info =
     update_pres info \<lparr>mp_docWidth = 0, mp_docHeight = 0, mp_numberOfSlides = 0, mp_firstSlideHash = None,
       mp_lastSlideHash = None, mp_metaSlides = None, mp_partHashes = None\<rparr>"

text \<open>Looking up a slide throws while the maps are undefined; a key that is undefined is never found.\<close>

definition getSlideHash :: "int option \<Rightarrow> meta_pres \<Rightarrow> js_error + string option" where
  "getSlideHash slideIndex mp =
     (case mp_partHashes mp of None \<Rightarrow> Inl TypeError | Some m \<Rightarrow> Inr (Option.bind slideIndex m))"

definition getMetaSlide :: "string option \<Rightarrow> meta_pres \<Rightarrow> js_error + slide_info option" where
  "getMetaSlide slideHash mp =
     (case mp_metaSlides mp of None \<Rightarrow> Inl TypeError | Some m \<Rightarrow> Inr (Option.bind slideHash m))"

definition getMetaSlideByIndex :: "int option \<Rightarrow> meta_pres \<Rightarrow> js_error + slide_info option" where
  "getMetaSlideByIndex slideIndex mp = sum_bind (getSlideHash slideIndex mp) (\<lambda>h. getMetaSlide h mp)"

definition getSlideInfo :: "string option \<Rightarrow> meta_pres \<Rightarrow> js_error + slide_info option" where
  "getSlideInfo slideHash mp = getMetaSlide slideHash mp"

text \<open>An empty hash is falsy.\<close>

definition getSlideInfoByIndex :: "int option \<Rightarrow> meta_pres \<Rightarrow> js_error + slide_info option" where
  "getSlideInfoByIndex slideIndex mp =
     sum_bind (getSlideHash slideIndex mp) (\<lambda>h.
       case h of None \<Rightarrow> Inr None | Some s \<Rightarrow> if s = [] then Inr None else getSlideInfo h mp)"

definition isFirstSlide :: "string \<Rightarrow> meta_pres \<Rightarrow> bool" where
  "isFirstSlide hash mp \<longleftrightarrow> Some hash = mp_firstSlideHash mp"

definition isLastSlide :: "string \<Rightarrow> meta_pres \<Rightarrow> bool" where
  "isLastSlide hash mp \<longleftrightarrow> Some hash = mp_lastSlideHash mp"

subsection \<open>The state of the navigator\<close>

datatype follow_msg =
    Msg_dispatcheffect | Msg_rewindeffect | Msg_skipalleffect
  | Msg_displayslide "int option" | Msg_followvideo "int option" int

record fetch_callback =
  fc_nNewSlide :: int
  fc_bSkipTransition :: bool
  fc_nStartEffect :: "int option"

record 'x navigator =
  nv_theMetaPres :: meta_pres
  nv_currentSlide :: "int option"
  nv_prevSlide :: "int option"
  nv_isEnabled :: bool
  nv_isRewindingToPrevSlide :: bool
  nv_lastClickTime :: num
  nv_currentLeaderSlide :: int
  nv_currentLeaderEffect :: js_int
  nv_handleClick :: bool
  nv_onGotSlideCallback :: "fetch_callback option"
  nv_isLeader :: bool
  nv_sent :: "follow_msg list"
  nv_rest :: 'x

text \<open>
  The calls of the navigator. \<open>nc_requestSlide\<close> says whether the image of the slide is there already,
  \<open>nc_hasMouseHandlers\<close> whether the multiplexer of the current slide, if it has one, has handlers.
\<close>

record 'w nav_calls =
  nc_nextEffect :: "'w \<Rightarrow> (bool \<times> 'w) outcome"
  nc_skipPlayingOrNextEffect :: "'w \<Rightarrow> (bool \<times> 'w) outcome"
  nc_skipAllEffects :: "'w \<Rightarrow> (bool \<times> 'w) outcome"
  nc_rewindEffect :: "'w \<Rightarrow> 'w outcome"
  nc_rewindAllEffects :: "'w \<Rightarrow> 'w outcome"
  nc_skipNEffects :: "js_int \<Rightarrow> 'w \<Rightarrow> 'w outcome"
  nc_displaySlide :: "int \<Rightarrow> int option \<Rightarrow> bool \<Rightarrow> int option \<Rightarrow> 'w \<Rightarrow> 'w outcome"
  nc_exitSlideShow :: "'w \<Rightarrow> 'w outcome"
  nc_setStarting :: "'w \<Rightarrow> 'w"
  nc_checkAlreadyPresenting :: "'w \<Rightarrow> bool"
  nc_endPresentation :: "bool \<Rightarrow> 'w \<Rightarrow> 'w outcome"
  nc_isFollower :: "'w \<Rightarrow> bool"
  nc_isFollowing :: "'w \<Rightarrow> bool"
  nc_setFollowing :: "bool \<Rightarrow> 'w \<Rightarrow> 'w outcome"
  nc_requestSlide :: "int \<Rightarrow> 'w \<Rightarrow> bool \<times> 'w"
  nc_now :: "'w \<Rightarrow> num"
  nc_canvasSize :: "'w \<Rightarrow> num \<times> num"
  nc_videoClick :: "string \<Rightarrow> video_info option \<Rightarrow> 'w \<Rightarrow> 'w outcome"
  nc_hasMouseHandlers :: "slide_info \<Rightarrow> 'w \<Rightarrow> bool"
  nc_notifyMouseClick :: "'w \<Rightarrow> 'w outcome"
  nc_notifyMouseMove :: "num \<Rightarrow> num \<Rightarrow> 'w \<Rightarrow> 'w outcome"

type_synonym 'x nav_op = "'x navigator \<Rightarrow> 'x navigator outcome"

definition new_SlideShowNavigator :: "meta_pres \<Rightarrow> bool \<Rightarrow> 'x \<Rightarrow> 'x navigator" where
  "new_SlideShowNavigator mp leader r =
     \<lparr>nv_theMetaPres = mp, nv_currentSlide = None, nv_prevSlide = None, nv_isEnabled = False,
      nv_isRewindingToPrevSlide = False, nv_lastClickTime = 0, nv_currentLeaderSlide = -1,
      nv_currentLeaderEffect = Fin (-1), nv_handleClick = True, nv_onGotSlideCallback = None,
      nv_isLeader = leader, nv_sent = [], nv_rest = r\<rparr>"

definition sendSlideShowFollowMessage :: "follow_msg \<Rightarrow> 'x navigator \<Rightarrow> 'x navigator" where
  "sendSlideShowFollowMessage msg w = (if nv_isLeader w then w\<lparr>nv_sent := nv_sent w @ [msg]\<rparr> else w)"

definition lift_sum :: "js_error + 'a \<Rightarrow> ('a \<Rightarrow> 'w outcome) \<Rightarrow> 'w outcome" where
  "lift_sum r k = (case r of Inl e \<Rightarrow> throws e | Inr v \<Rightarrow> k v)"

subsection \<open>Displaying a slide\<close>

definition quit :: "'x navigator nav_calls \<Rightarrow> 'x nav_op" where
  "quit nc w =
     andThen (nc_exitSlideShow nc w) (\<lambda>w1. andThen (nc_endPresentation nc True w1) (\<lambda>w2.
       returns (w2\<lparr>nv_currentSlide := None, nv_prevSlide := None, nv_handleClick := False\<rparr>)))"

text \<open>The callback of \<open>fetchAndRun\<close>.\<close>

definition fetched :: "'x navigator nav_calls \<Rightarrow> fetch_callback \<Rightarrow> 'x nav_op" where
  "fetched nc cb w =
     (let prev = (case nv_currentSlide w of
                    None \<Rightarrow> None | Some c \<Rightarrow> if c \<ge> mp_numberOfSlides (nv_theMetaPres w) then None else Some c);
          w1 = w\<lparr>nv_prevSlide := prev, nv_currentSlide := Some (fc_nNewSlide cb)\<rparr>
      in if prev = Some (fc_nNewSlide cb) then returns w1
         else andThen (nc_displaySlide nc (fc_nNewSlide cb) prev (fc_bSkipTransition cb) (fc_nStartEffect cb) w1) (\<lambda>w2.
                if nv_isRewindingToPrevSlide w2
                then andThen (nc_skipAllEffects nc w2) (\<lambda>r. returns ((snd r)\<lparr>nv_isRewindingToPrevSlide := False\<rparr>))
                else returns w2))"

definition slide_arrives :: "'x navigator nav_calls \<Rightarrow> 'x nav_op" where
  "slide_arrives nc w =
     (case nv_onGotSlideCallback w of
        None \<Rightarrow> returns w
      | Some cb \<Rightarrow> fetched nc cb (w\<lparr>nv_onGotSlideCallback := None\<rparr>))"

definition fetchAndRun :: "'x navigator nav_calls \<Rightarrow> int \<Rightarrow> fetch_callback \<Rightarrow> 'x nav_op" where
  "fetchAndRun nc slideNumber cb w =
     (let (there, w1) = nc_requestSlide nc slideNumber (w\<lparr>nv_onGotSlideCallback := Some cb\<rparr>)
      in if there then slide_arrives nc w1 else returns w1)"

definition slide_ready :: "slide_info option \<Rightarrow> bool" where
  "slide_ready aNewMetaSlide \<longleftrightarrow> (case aNewMetaSlide of None \<Rightarrow> False | Some s \<Rightarrow> \<not> si_hidden s)"

definition slide_offset :: "int \<Rightarrow> int option \<Rightarrow> int" where
  "slide_offset nNewSlide currentSlide = (case currentSlide of None \<Rightarrow> 1 | Some c \<Rightarrow> sgn (nNewSlide - c))"

definition slide_distance :: "int option \<Rightarrow> 'x navigator \<Rightarrow> nat" where
  "slide_distance nNewSlide w =
     (case nNewSlide of
        None \<Rightarrow> 0
      | Some n \<Rightarrow>
          if slide_offset n (nv_currentSlide w) = 1 then nat (mp_numberOfSlides (nv_theMetaPres w) - n) else nat (n + 1))"

lemma send_same [simp]:
  "nv_currentSlide (sendSlideShowFollowMessage msg w) = nv_currentSlide w"
  "nv_theMetaPres (sendSlideShowFollowMessage msg w) = nv_theMetaPres w"
  "nv_isRewindingToPrevSlide (sendSlideShowFollowMessage msg w) = nv_isRewindingToPrevSlide w"
  "nv_onGotSlideCallback (sendSlideShowFollowMessage msg w) = nv_onGotSlideCallback w"
  "nv_rest (sendSlideShowFollowMessage msg w) = nv_rest w"
  by (simp_all add: sendSlideShowFollowMessage_def)

lemma slide_offset_next:
  "slide_offset n c \<noteq> 0 \<Longrightarrow> slide_offset (n + slide_offset n c) c = slide_offset n c"
  by (cases c) (auto simp: slide_offset_def sgn_if)

lemma slide_offset_range: "slide_offset n c \<in> {-1, 0, 1}"
  by (cases c) (auto simp: slide_offset_def sgn_if)

function displaySlide :: "'x navigator nav_calls \<Rightarrow> int option \<Rightarrow> bool \<Rightarrow> int option \<Rightarrow> 'x nav_op" where
  "displaySlide nc nNewSlide bSkipTransition nStartEffect w0 =
     (let w = sendSlideShowFollowMessage (Msg_displayslide nNewSlide) w0
      in if \<not> nc_checkAlreadyPresenting nc w then quit nc w
         else case nNewSlide of
           None \<Rightarrow> returns w
         | Some n \<Rightarrow>
             if n < 0 then returns w
             else if n \<ge> mp_numberOfSlides (nv_theMetaPres w) then
               (let w1 = w\<lparr>nv_currentSlide := Some n\<rparr>
                in if n > mp_numberOfSlides (nv_theMetaPres w) then quit nc w1 else nc_endPresentation nc False w1)
             else lift_sum (getMetaSlideByIndex (Some n) (nv_theMetaPres w)) (\<lambda>aNewMetaSlide.
               if \<not> slide_ready aNewMetaSlide then
                 (let offset = slide_offset n (nv_currentSlide w)
                  in if offset = 0 then returns w
                     else displaySlide nc (Some (n + offset)) bSkipTransition None w)
               else fetchAndRun nc n
                      \<lparr>fc_nNewSlide = n, fc_bSkipTransition = bSkipTransition, fc_nStartEffect = nStartEffect\<rparr> w))"
  by pat_completeness auto

termination
proof (relation "measure (\<lambda>(nc, n, skip, eff, w). slide_distance n w)", simp)
  fix nc :: "'x navigator nav_calls" and nNewSlide bSkipTransition nStartEffect w0 w n x offset
  assume "w = sendSlideShowFollowMessage (Msg_displayslide nNewSlide) w0" "nNewSlide = Some n" "\<not> n < 0"
    "\<not> mp_numberOfSlides (nv_theMetaPres w) \<le> n" "offset = slide_offset n (nv_currentSlide w)" "offset \<noteq> 0"
  then show "((nc, Some (n + offset), bSkipTransition, None, w), nc, nNewSlide, bSkipTransition, nStartEffect, w0)
      \<in> measure (\<lambda>(nc, n, skip, eff, w). slide_distance n w)"
    using slide_offset_next [of n "nv_currentSlide w"] slide_offset_range [of n "nv_currentSlide w"]
    by (auto simp: slide_distance_def)
qed

declare displaySlide.simps [simp del]

definition startPresentation :: "'x navigator nav_calls \<Rightarrow> int \<Rightarrow> bool \<Rightarrow> int option \<Rightarrow> 'x nav_op" where
  "startPresentation nc nStartSlide bSkipTransition nStartEffect w =
     displaySlide nc (Some nStartSlide) bSkipTransition nStartEffect
       ((nc_setStarting nc w)\<lparr>nv_isRewindingToPrevSlide := False, nv_currentSlide := None, nv_prevSlide := None\<rparr>)"

definition switchSlide :: "'x navigator nav_calls \<Rightarrow> int \<Rightarrow> bool \<Rightarrow> 'x nav_op" where
  "switchSlide nc nOffset bSkipTransition w =
     (case nv_currentSlide w of
        None \<Rightarrow> returns w
      | Some c \<Rightarrow> displaySlide nc (Some (c + nOffset)) bSkipTransition None w)"

definition goToFirstSlide :: "'x navigator nav_calls \<Rightarrow> 'x nav_op" where
  "goToFirstSlide nc w = startPresentation nc 0 False None w"

definition goToLastSlide :: "'x navigator nav_calls \<Rightarrow> 'x nav_op" where
  "goToLastSlide nc w = displaySlide nc (Some (mp_numberOfSlides (nv_theMetaPres w) - 1)) True None w"

fun bookmark_loop :: "'x navigator nav_calls \<Rightarrow> string \<Rightarrow> int list \<Rightarrow> 'x nav_op" where
  "bookmark_loop nc bookmark [] w = returns w"
| "bookmark_loop nc bookmark (i # is) w =
     lift_sum (getSlideHash (Some i) (nv_theMetaPres w)) (\<lambda>h. lift_sum (getSlideInfo h (nv_theMetaPres w)) (\<lambda>s.
       case s of
         None \<Rightarrow> throws TypeError
       | Some slideInfo \<Rightarrow>
           if si_name slideInfo = bookmark then displaySlide nc (Some i) True None w else bookmark_loop nc bookmark is w))"

definition goToSlideAtBookmark :: "'x navigator nav_calls \<Rightarrow> string \<Rightarrow> 'x nav_op" where
  "goToSlideAtBookmark nc bookmark w = bookmark_loop nc bookmark [0..mp_numberOfSlides (nv_theMetaPres w) - 1] w"

definition backToLastSlide :: "'x navigator nav_calls \<Rightarrow> 'x navigator \<Rightarrow> (bool \<times> 'x navigator) outcome" where
  "backToLastSlide nc w =
     (case nv_currentSlide w of
        None \<Rightarrow> returns (False, w)
      | Some c \<Rightarrow>
          if c \<ge> mp_numberOfSlides (nv_theMetaPres w) then andThen (goToLastSlide nc w) (\<lambda>w1. returns (True, w1))
          else returns (False, w))"

definition rewindToPreviousSlide :: "'x navigator nav_calls \<Rightarrow> 'x nav_op" where
  "rewindToPreviousSlide nc w =
     andThen (if nv_currentSlide w = Some 0 then goToFirstSlide nc w else returns w) (\<lambda>w1.
       let prevSlide = (case nv_currentSlide w1 of None \<Rightarrow> 0 | Some c \<Rightarrow> if c > 0 then c - 1 else 0)
       in andThen (displaySlide nc (Some prevSlide) True None (w1\<lparr>nv_isRewindingToPrevSlide := True\<rparr>)) (\<lambda>w2.
            returns (sendSlideShowFollowMessage Msg_skipalleffect (w2\<lparr>nv_isRewindingToPrevSlide := False\<rparr>))))"

subsection \<open>Effects\<close>

text \<open>When there is no effect left, the next slide is displayed.\<close>

definition or_next_slide ::
    "'x navigator nav_calls \<Rightarrow> bool \<Rightarrow> (bool \<times> 'x navigator) outcome \<Rightarrow> 'x navigator outcome" where
  "or_next_slide nc bSkipTransition r =
     andThen r (\<lambda>v. if fst v then returns (snd v) else switchSlide nc 1 bSkipTransition (snd v))"

definition dispatchEffect :: "'x navigator nav_calls \<Rightarrow> 'x nav_op" where
  "dispatchEffect nc w =
     (let w1 = sendSlideShowFollowMessage Msg_dispatcheffect w;
          currentTime = nc_now nc w1; timeDiff = currentTime - nv_lastClickTime w1;
          w2 = w1\<lparr>nv_lastClickTime := currentTime\<rparr>
      in if timeDiff < 500 \<and> timeDiff > 0 then or_next_slide nc True (nc_skipPlayingOrNextEffect nc w2)
         else or_next_slide nc False (nc_nextEffect nc w2))"

definition skipEffect :: "'x navigator nav_calls \<Rightarrow> 'x nav_op" where
  "skipEffect nc w = or_next_slide nc True (nc_skipPlayingOrNextEffect nc w)"

definition skipAllEffects_nav :: "'x navigator nav_calls \<Rightarrow> 'x nav_op" where
  "skipAllEffects_nav nc w = or_next_slide nc True (nc_skipAllEffects nc w)"

definition rewindEffect_nav :: "'x navigator nav_calls \<Rightarrow> 'x nav_op" where
  "rewindEffect_nav nc w =
     andThen (backToLastSlide nc (sendSlideShowFollowMessage Msg_rewindeffect w)) (\<lambda>r.
       if fst r then returns (snd r) else nc_rewindEffect nc (snd r))"

definition rewindAllEffects_nav :: "'x navigator nav_calls \<Rightarrow> 'x nav_op" where
  "rewindAllEffects_nav nc w =
     andThen (backToLastSlide nc w) (\<lambda>r. if fst r then returns (snd r) else nc_rewindAllEffects nc (snd r))"

subsection \<open>Following the leader\<close>

definition setLeaderSlide :: "int \<Rightarrow> 'x navigator \<Rightarrow> 'x navigator" where
  "setLeaderSlide currentSlide w = w\<lparr>nv_currentLeaderSlide := currentSlide\<rparr>"

definition resetLeaderSlide :: "'x navigator \<Rightarrow> 'x navigator" where
  "resetLeaderSlide w = w\<lparr>nv_currentLeaderSlide := -1\<rparr>"

definition setLeaderEffect :: "js_int \<Rightarrow> 'x navigator \<Rightarrow> 'x navigator" where
  "setLeaderEffect currentEffect w = w\<lparr>nv_currentLeaderEffect := currentEffect\<rparr>"

definition resetLeaderEffect :: "'x navigator \<Rightarrow> 'x navigator" where
  "resetLeaderEffect w = w\<lparr>nv_currentLeaderEffect := Fin (-1)\<rparr>"

definition followLeaderSlide :: "'x navigator nav_calls \<Rightarrow> 'x nav_op" where
  "followLeaderSlide nc w =
     (if nc_isFollowing nc w then returns w
      else andThen (nc_setFollowing nc True w) (\<lambda>w1.
           andThen (if Some (nv_currentLeaderSlide w1) = nv_currentSlide w1 then nc_rewindAllEffects nc w1
                    else displaySlide nc (Some (nv_currentLeaderSlide w1)) True None w1) (\<lambda>w2.
             nc_skipNEffects nc (nv_currentLeaderEffect w2) w2)))"

subsection \<open>Clicks, keys and swipes\<close>

definition onExecuteInteraction :: "'x navigator nav_calls \<Rightarrow> click_action option \<Rightarrow> 'x nav_op" where
  "onExecuteInteraction nc action w =
     (case action of
        None \<Rightarrow> dispatchEffect nc w
      | Some Act_prevpage \<Rightarrow> switchSlide nc (-1) True w
      | Some Act_nextpage \<Rightarrow> switchSlide nc 1 True w
      | Some Act_firstpage \<Rightarrow> goToFirstSlide nc w
      | Some Act_lastpage \<Rightarrow> goToLastSlide nc w
      | Some (Act_bookmark b) \<Rightarrow> goToSlideAtBookmark nc b w
      | Some Act_stoppresentation \<Rightarrow> quit nc w
      | Some (Act_other s) \<Rightarrow> returns w)"

definition some_of :: "'a list option \<Rightarrow> bool" where
  "some_of xs \<longleftrightarrow> (case xs of None \<Rightarrow> False | Some ys \<Rightarrow> length ys > 0)"

definition js_find :: "('a \<Rightarrow> bool) \<Rightarrow> 'a list option \<Rightarrow> js_error + 'a option" where
  "js_find P xs = (case xs of None \<Rightarrow> Inl TypeError | Some ys \<Rightarrow> Inr (List.find P ys))"

definition stop_following :: "'x navigator nav_calls \<Rightarrow> 'x nav_op" where
  "stop_following nc w = (if nc_isFollower nc w then nc_setFollowing nc False w else returns w)"

text \<open>The coordinates of the document under the pointer; canvases have a size.\<close>

definition doc_point :: "'x navigator nav_calls \<Rightarrow> num \<Rightarrow> num \<Rightarrow> 'x navigator \<Rightarrow> num \<times> num" where
  "doc_point nc offsetX offsetY w =
     (offsetX / fst (nc_canvasSize nc w) * mp_docWidth (nv_theMetaPres w),
      offsetY / snd (nc_canvasSize nc w) * mp_docHeight (nv_theMetaPres w))"

definition click_targets :: "'x navigator nav_calls \<Rightarrow> slide_info \<Rightarrow> num \<Rightarrow> num \<Rightarrow> 'x nav_op" where
  "click_targets nc slideInfo x y w =
     lift_sum (js_find (\<lambda>shape. hitTest (ia_bounds shape) x y) (si_interactions slideInfo)) (\<lambda>shape.
     lift_sum (js_find (\<lambda>v. hitTest (click_rect.truncate v) x y) (si_videos slideInfo)) (\<lambda>videoInfo.
       case shape of
         Some s \<Rightarrow> onExecuteInteraction nc (ia_clickAction s) w
       | None \<Rightarrow>
           (case videoInfo of
              Some v \<Rightarrow>
                nc_videoClick nc (si_hash slideInfo) (Some v)
                  (sendSlideShowFollowMessage (Msg_followvideo (nv_currentSlide w) (vi_id v)) w)
            | None \<Rightarrow> dispatchEffect nc w)))"

definition clickHandler :: "'x navigator nav_calls \<Rightarrow> int \<Rightarrow> num \<Rightarrow> num \<Rightarrow> 'x nav_op" where
  "clickHandler nc button offsetX offsetY w =
     andThen (stop_following nc w) (\<lambda>w1.
       if button = 0 then
         lift_sum (getSlideInfoByIndex (nv_currentSlide w1) (nv_theMetaPres w1)) (\<lambda>info.
           case info of
             None \<Rightarrow> dispatchEffect nc w1
           | Some slideInfo \<Rightarrow>
               if \<not> some_of (si_interactions slideInfo) \<and> \<not> some_of (si_videos slideInfo) then dispatchEffect nc w1
               else (case doc_point nc offsetX offsetY w1 of (x, y) \<Rightarrow> click_targets nc slideInfo x y w1))
       else if button = 2 then switchSlide nc (-1) False w1
       else returns w1)"

definition followVideo :: "'x navigator nav_calls \<Rightarrow> int \<Rightarrow> int \<Rightarrow> 'x nav_op" where
  "followVideo nc currentSlide videoInfoId w =
     lift_sum (getSlideInfoByIndex (Some currentSlide) (nv_theMetaPres w)) (\<lambda>info.
       case info of
         None \<Rightarrow> throws TypeError
       | Some slideInfo \<Rightarrow>
           lift_sum (js_find (\<lambda>v. videoInfoId = vi_id v) (si_videos slideInfo)) (\<lambda>videoInfo.
             nc_videoClick nc (si_hash slideInfo) videoInfo w))"

definition has_handlers :: "'x navigator nav_calls \<Rightarrow> slide_info option \<Rightarrow> 'x navigator \<Rightarrow> bool" where
  "has_handlers nc metaSlide w \<longleftrightarrow> (case metaSlide of None \<Rightarrow> False | Some s \<Rightarrow> nc_hasMouseHandlers nc s w)"

definition onClick :: "'x navigator nav_calls \<Rightarrow> int \<Rightarrow> num \<Rightarrow> num \<Rightarrow> 'x nav_op" where
  "onClick nc button offsetX offsetY w =
     (if \<not> nv_isEnabled w then returns w
      else lift_sum (getMetaSlideByIndex (nv_currentSlide w) (nv_theMetaPres w)) (\<lambda>metaSlide.
             if has_handlers nc metaSlide w then nc_notifyMouseClick nc w
             else clickHandler nc button offsetX offsetY w))"

definition onMouseMove :: "'x navigator nav_calls \<Rightarrow> num \<Rightarrow> num \<Rightarrow> 'x nav_op" where
  "onMouseMove nc offsetX offsetY w =
     (if \<not> nv_isEnabled w then returns w
      else lift_sum (getMetaSlideByIndex (nv_currentSlide w) (nv_theMetaPres w)) (\<lambda>metaSlide.
             if has_handlers nc metaSlide w
             then (case doc_point nc offsetX offsetY w of (x, y) \<Rightarrow> nc_notifyMouseMove nc x y w)
             else returns w))"

definition keyHandlerMap :: "'x navigator nav_calls \<Rightarrow> (string \<times> 'x nav_op) list" where
  "keyHandlerMap nc =
     [(''ArrowLeft'', rewindEffect_nav nc), (''ArrowRight'', dispatchEffect nc), (''ArrowUp'', rewindEffect_nav nc),
      (''ArrowDown'', skipEffect nc), (''PageUp'', rewindAllEffects_nav nc), (''PageDown'', skipAllEffects_nav nc),
      (''Home'', goToFirstSlide nc), (''End'', goToLastSlide nc), (''Space'', dispatchEffect nc),
      (''Backspace'', rewindEffect_nav nc), (''Escape'', quit nc)]"

definition onKeyDown :: "'x navigator nav_calls \<Rightarrow> string \<Rightarrow> 'x nav_op" where
  "onKeyDown nc code w =
     (if \<not> nv_isEnabled w \<and> code \<noteq> ''Escape'' then returns w
      else case map_of (keyHandlerMap nc) code of
             None \<Rightarrow> returns w
           | Some handler \<Rightarrow> andThen (stop_following nc w) handler)"

datatype swipe = Swipe_Right | Swipe_Left | Swipe_Up | Swipe_Down | Swipe_Other

fun swipeHandlerMap :: "'x navigator nav_calls \<Rightarrow> swipe \<Rightarrow> 'x nav_op option" where
  "swipeHandlerMap nc Swipe_Right = Some (rewindEffect_nav nc)"
| "swipeHandlerMap nc Swipe_Left = Some (dispatchEffect nc)"
| "swipeHandlerMap nc Swipe_Up = Some (quit nc)"
| "swipeHandlerMap nc Swipe_Down = Some (quit nc)"
| "swipeHandlerMap nc Swipe_Other = None"

definition onSwipe :: "'x navigator nav_calls \<Rightarrow> swipe \<Rightarrow> 'x nav_op" where
  "onSwipe nc direction w =
     (if \<not> nv_isEnabled w \<and> direction \<noteq> Swipe_Down \<and> direction \<noteq> Swipe_Up then returns w
      else case swipeHandlerMap nc direction of None \<Rightarrow> returns w | Some handler \<Rightarrow> handler w)"

definition enable :: "'x navigator \<Rightarrow> 'x navigator" where
  "enable w = w\<lparr>nv_isEnabled := True\<rparr>"

definition disable :: "'x navigator \<Rightarrow> 'x navigator" where
  "disable w = w\<lparr>nv_isEnabled := False\<rparr>"

end
