(* ===== verification/Navigator_Properties.thy ===== *)
theory Navigator_Properties
  imports Slide_Navigator
begin

section \<open>Properties of the navigation\<close>

text \<open>
  Where a request for a slide leads when slides are hidden, that the slide on the screen is never a
  hidden one, that forward and back are inverse, and what is lost when a slide has to be fetched.
\<close>

subsection \<open>Where a request leads\<close>

definition has_slides :: "meta_pres \<Rightarrow> bool" where
  "has_slides mp \<longleftrightarrow> mp_metaSlides mp \<noteq> None \<and> mp_partHashes mp \<noteq> None"

definition ready :: "meta_pres \<Rightarrow> int \<Rightarrow> bool" where
  "ready mp i \<longleftrightarrow> (case getMetaSlideByIndex (Some i) mp of Inl e \<Rightarrow> False | Inr s \<Rightarrow> slide_ready s)"

lemma has_slides_found:
  assumes "has_slides mp"
  obtains s where "getMetaSlideByIndex i mp = Inr s" and "\<And>n. i = Some n \<Longrightarrow> slide_ready s \<longleftrightarrow> ready mp n"
  using assms that by (auto simp: has_slides_def getMetaSlideByIndex_def getSlideHash_def getMetaSlide_def sum_bind_def ready_def)

text \<open>The nearest slide that is not hidden, from the given one on in the direction of the request.\<close>

definition landing :: "meta_pres \<Rightarrow> int \<Rightarrow> int \<Rightarrow> int option" where
  "landing mp d n =
     (if d = 1 then List.find (ready mp) [n..mp_numberOfSlides mp - 1]
      else if d = -1 then List.find (ready mp) (rev [0..n])
      else if ready mp n then Some n else None)"

lemma landing_step:
  assumes "0 \<le> n" and "n < mp_numberOfSlides mp" and "\<not> ready mp n" and "d = 1 \<or> d = -1"
  shows "landing mp d (n + d) = landing mp d n"
proof -
  have "[n..mp_numberOfSlides mp - 1] = n # [n + 1..mp_numberOfSlides mp - 1]" using assms(2) by (simp add: upto_rec1)
  moreover have "rev [0..n] = n # rev [0..n - 1]" using assms(1) upto_rec2 [of 0 n] by simp
  ultimately show ?thesis using assms(3,4) by (auto simp: landing_def)
qed

lemma landing_here: "ready mp n \<Longrightarrow> 0 \<le> n \<Longrightarrow> n < mp_numberOfSlides mp \<Longrightarrow> landing mp d n = Some n"
  using upto_rec1 [of n "mp_numberOfSlides mp - 1"] upto_rec2 [of 0 n] by (simp add: landing_def)

definition presenting :: "'x navigator nav_calls \<Rightarrow> 'x navigator \<Rightarrow> bool" where
  "presenting nc w \<longleftrightarrow> (\<forall>m. nc_checkAlreadyPresenting nc (w\<lparr>nv_sent := m\<rparr>))"

lemma displaySlide_presenting:
  assumes "presenting nc w"
  shows "\<exists>m. displaySlide nc (Some n) skip eff w =
    (let w1 = w\<lparr>nv_sent := nv_sent w @ m\<rparr>
     in if n < 0 then returns w1
        else if n \<ge> mp_numberOfSlides (nv_theMetaPres w) then
          (let w2 = w1\<lparr>nv_currentSlide := Some n\<rparr>
           in if n > mp_numberOfSlides (nv_theMetaPres w) then quit nc w2 else nc_endPresentation nc False w2)
        else lift_sum (getMetaSlideByIndex (Some n) (nv_theMetaPres w)) (\<lambda>s.
          if \<not> slide_ready s then
            (if slide_offset n (nv_currentSlide w) = 0 then returns w1
             else displaySlide nc (Some (n + slide_offset n (nv_currentSlide w))) skip None w1)
          else fetchAndRun nc n \<lparr>fc_nNewSlide = n, fc_bSkipTransition = skip, fc_nStartEffect = eff\<rparr> w1))"
proof -
  obtain m where m: "sendSlideShowFollowMessage (Msg_displayslide (Some n)) w = w\<lparr>nv_sent := nv_sent w @ m\<rparr>"
    by (cases w, cases "nv_isLeader w") (auto simp: sendSlideShowFollowMessage_def intro: that [of "[]"] that)
  have "nc_checkAlreadyPresenting nc (w\<lparr>nv_sent := nv_sent w @ m\<rparr>)" using assms by (simp add: presenting_def)
  then show ?thesis by (intro exI [of _ m]) (subst displaySlide.simps, simp add: m Let_def cong: if_cong)
qed

lemma presenting_sent: "presenting nc w \<Longrightarrow> presenting nc (w\<lparr>nv_sent := m\<rparr>)"
  by (simp add: presenting_def)

definition landed :: "'x navigator nav_calls \<Rightarrow> int \<Rightarrow> int \<Rightarrow> bool \<Rightarrow> int option \<Rightarrow> follow_msg list \<Rightarrow> 'x nav_op" where
  "landed nc d n skip eff m w =
     (case landing (nv_theMetaPres w) d n of
        Some i \<Rightarrow> fetchAndRun nc i \<lparr>fc_nNewSlide = i, fc_bSkipTransition = skip, fc_nStartEffect = (if i = n then eff else None)\<rparr>
                    (w\<lparr>nv_sent := nv_sent w @ m\<rparr>)
      | None \<Rightarrow> if d = 1 then nc_endPresentation nc False
                    (w\<lparr>nv_sent := nv_sent w @ m, nv_currentSlide := Some (mp_numberOfSlides (nv_theMetaPres w))\<rparr>)
                else returns (w\<lparr>nv_sent := nv_sent w @ m\<rparr>))"

lemma landed_step:
  assumes "landing (nv_theMetaPres w) d (n + d) = landing (nv_theMetaPres w) d n" and "landing (nv_theMetaPres w) d n \<noteq> Some n"
  shows "landed nc d (n + d) skip None m' (w\<lparr>nv_sent := nv_sent w @ m\<rparr>) = landed nc d n skip eff (m @ m') w"
  using assms by (cases "landing (nv_theMetaPres w) d n") (auto simp: landed_def)

lemma displaySlide_walk:
  assumes "presenting nc w" and "has_slides (nv_theMetaPres w)" and "0 \<le> n" and "n < mp_numberOfSlides (nv_theMetaPres w)"
    and "d = slide_offset n (nv_currentSlide w)"
  shows "\<exists>m. displaySlide nc (Some n) skip eff w = landed nc d n skip eff m w"
  using assms
proof (induction "slide_distance (Some n) w" arbitrary: n w eff rule: less_induct)
  case less
  let ?mp = "nv_theMetaPres w"
  obtain m where m: "displaySlide nc (Some n) skip eff w =
      (let w1 = w\<lparr>nv_sent := nv_sent w @ m\<rparr>
       in lift_sum (getMetaSlideByIndex (Some n) ?mp) (\<lambda>s.
          if \<not> slide_ready s then (if d = 0 then returns w1 else displaySlide nc (Some (n + d)) skip None w1)
          else fetchAndRun nc n \<lparr>fc_nNewSlide = n, fc_bSkipTransition = skip, fc_nStartEffect = eff\<rparr> w1))"
    using displaySlide_presenting [OF less.prems(1), of n skip eff] less.prems(3-5) by (auto simp: Let_def)
  let ?w = "w\<lparr>nv_sent := nv_sent w @ m\<rparr>"
  obtain s where s: "getMetaSlideByIndex (Some n) ?mp = Inr s" "slide_ready s \<longleftrightarrow> ready ?mp n"
    using has_slides_found [OF less.prems(2), of "Some n"] by metis
  show ?case
  proof (cases "ready ?mp n \<or> d = 0")
    case True
    then show ?thesis using m s landing_here [of ?mp n d] less.prems(3,4) 
      by (auto simp: lift_sum_def Let_def landing_def landed_def intro!: exI [of _ m])
  next
    case False
    then have d: "d = 1 \<or> d = -1" using slide_offset_range [of n "nv_currentSlide w"] less.prems(5) by auto
    have step: "displaySlide nc (Some n) skip eff w = displaySlide nc (Some (n + d)) skip None ?w"
      using m s False by (simp add: lift_sum_def Let_def)
    have off: "d = slide_offset (n + d) (nv_currentSlide ?w)"
      using slide_offset_next [of n "nv_currentSlide w"] less.prems(5) d by auto
    note land = landing_step [OF less.prems(3,4) _ d]
    show ?thesis
    proof (cases "0 \<le> n + d \<and> n + d < mp_numberOfSlides ?mp")
      case True
      then have "slide_distance (Some (n + d)) ?w < slide_distance (Some n) w"
        using d off less.prems(3-5) by (auto simp: slide_distance_def)
      from less.hyps [OF this presenting_sent [OF less.prems(1)] _ _ _ off, of None] True less.prems(2)
      obtain m' where m': "displaySlide nc (Some (n + d)) skip None ?w = landed nc d (n + d) skip None m' ?w" by auto
      have "landing ?mp d n \<noteq> Some n" using False by (auto simp: landing_def find_Some_iff)
      with land False have "landed nc d (n + d) skip None m' ?w = landed nc d n skip eff (m @ m') w" by (intro landed_step) auto
      with m' step show ?thesis by auto
    next
      case outside: False
      obtain m' where "displaySlide nc (Some (n + d)) skip None ?w =
          (let w1 = ?w\<lparr>nv_sent := nv_sent ?w @ m'\<rparr>
           in if n + d < 0 then returns w1 else nc_endPresentation nc False (w1\<lparr>nv_currentSlide := Some (n + d)\<rparr>))"
        using displaySlide_presenting [OF presenting_sent [OF less.prems(1)], of "n + d" skip None "nv_sent w @ m"] outside d less.prems(3,4)
        by (auto simp: Let_def)
      moreover have "landing ?mp d n = None" using land outside d less.prems(3,4) False by (auto simp: landing_def)
      moreover have "d = 1 \<Longrightarrow> mp_numberOfSlides ?mp = n + 1" using outside less.prems(3,4) by auto
      ultimately show ?thesis
        using step outside d less.prems(3,4) by (intro exI [of _ "m @ m'"]) (auto simp: Let_def landed_def)
    qed
  qed
qed

text \<open>A presentation of five slides, the second and the last of which are hidden.\<close>

definition sample_slide :: "string \<Rightarrow> int \<Rightarrow> bool \<Rightarrow> slide_info" where
  "sample_slide s i h = \<lparr>si_hash = s, si_index = i, si_name = ''Slide '' @ s, si_hidden = h,
     si_videos = Some [], si_interactions = Some [], si_next = None, si_prev = None, si_indexInSlideShow = None,
     si_nextSlideDuration = None, si_transitionLabel = None, si_a11y = None\<rparr>"

definition sample_pres :: meta_pres where
  "sample_pres = new_MetaPresentation \<lparr>pi_slides = [sample_slide ''a'' 0 False, sample_slide ''b'' 1 True, sample_slide ''c'' 2 False,
     sample_slide ''d'' 3 False, sample_slide ''e'' 4 True], pi_docWidth = 100, pi_docHeight = 50\<rparr>"

text \<open>
  Calls that record the slides that are displayed, the number of calls that skip all effects and
  whether a slide is there when it is requested, and do nothing else.
\<close>

type_synonym sample_rest = "int list \<times> nat \<times> bool"

definition sample_nc :: "sample_rest navigator nav_calls" where
  "sample_nc = \<lparr>nc_nextEffect = (\<lambda>w. returns (False, w)), nc_skipPlayingOrNextEffect = (\<lambda>w. returns (False, w)),
     nc_skipAllEffects = (\<lambda>w. returns (True, w\<lparr>nv_rest := (\<lambda>(l, n, b). (l, Suc n, b)) (nv_rest w)\<rparr>)),
     nc_rewindEffect = returns, nc_rewindAllEffects = returns, nc_skipNEffects = (\<lambda>n. returns),
     nc_displaySlide = (\<lambda>i p s e w. returns (w\<lparr>nv_rest := (\<lambda>(l, n, b). (l @ [i], n, b)) (nv_rest w)\<rparr>)),
     nc_exitSlideShow = returns, nc_setStarting = (\<lambda>w. w), nc_checkAlreadyPresenting = (\<lambda>w. True),
     nc_endPresentation = (\<lambda>b. returns), nc_isFollower = (\<lambda>w. False), nc_isFollowing = (\<lambda>w. False),
     nc_setFollowing = (\<lambda>b. returns), nc_requestSlide = (\<lambda>i w. (snd (snd (nv_rest w)), w)), nc_now = (\<lambda>w. 0),
     nc_canvasSize = (\<lambda>w. (10, 10)), nc_videoClick = (\<lambda>h v. returns), nc_hasMouseHandlers = (\<lambda>s w. False),
     nc_notifyMouseClick = returns, nc_notifyMouseMove = (\<lambda>x y. returns)\<rparr>"

definition sample_nav :: "int option \<Rightarrow> bool \<Rightarrow> sample_rest navigator" where
  "sample_nav cur there = (new_SlideShowNavigator sample_pres True ([], 0, there))\<lparr>nv_currentSlide := cur\<rparr>"

lemma sample_ready: "map (ready sample_pres) [0..4] = [True, False, True, True, False]" "mp_numberOfSlides sample_pres = 5"
  "has_slides sample_pres" "landing sample_pres 1 1 = Some 2" "landing sample_pres 1 4 = None"
  by code_simp+

lemma sample_presenting: "presenting sample_nc w"
  by (simp add: presenting_def sample_nc_def)

text \<open>
  C11. A request for a slide of the presentation leads to the nearest slide that is not hidden, in
  the direction from the current slide, forward at the start. When there is none forward, the
  presentation ends; when there is none backward, nothing is displayed.
\<close>

theorem request_lands_on_visible:
  assumes "presenting nc w" and "has_slides (nv_theMetaPres w)" and "0 \<le> n" and "n < mp_numberOfSlides (nv_theMetaPres w)"
  shows "\<exists>m. displaySlide nc (Some n) skip eff w =
    (case landing (nv_theMetaPres w) (slide_offset n (nv_currentSlide w)) n of
       Some i \<Rightarrow> fetchAndRun nc i \<lparr>fc_nNewSlide = i, fc_bSkipTransition = skip, fc_nStartEffect = (if i = n then eff else None)\<rparr>
                   (w\<lparr>nv_sent := nv_sent w @ m\<rparr>)
     | None \<Rightarrow> if slide_offset n (nv_currentSlide w) = 1 then nc_endPresentation nc False
                   (w\<lparr>nv_sent := nv_sent w @ m, nv_currentSlide := Some (mp_numberOfSlides (nv_theMetaPres w))\<rparr>)
               else returns (w\<lparr>nv_sent := nv_sent w @ m\<rparr>))"
  using displaySlide_walk [OF assms refl, of skip eff] by (simp add: landed_def)

theorem request_lands_on_visible_witness:
  "\<exists>m. displaySlide sample_nc (Some 1) True None (sample_nav (Some 0) False) =
    fetchAndRun sample_nc 2 \<lparr>fc_nNewSlide = 2, fc_bSkipTransition = True, fc_nStartEffect = None\<rparr>
      ((sample_nav (Some 0) False)\<lparr>nv_sent := nv_sent (sample_nav (Some 0) False) @ m\<rparr>)"
proof -
  have "nv_theMetaPres (sample_nav (Some 0) False) = sample_pres" "nv_currentSlide (sample_nav (Some 0) False) = Some 0"
    by (simp_all add: sample_nav_def new_SlideShowNavigator_def)
  then show ?thesis
    using request_lands_on_visible [OF sample_presenting, of "sample_nav (Some 0) False" 1 True None] sample_ready
    by (simp add: slide_offset_def)
qed

text \<open>
  The key \<open>End\<close> leads to the last slide; when that is hidden, it does not lead to the last visible
  slide but ends the presentation, because the search goes on forward.
\<close>

theorem hidden_last_slide_ends:
  assumes "presenting nc w" and "has_slides (nv_theMetaPres w)" and "nv_currentSlide w = Some c"
    and "0 \<le> c" and "c < mp_numberOfSlides (nv_theMetaPres w) - 1" and "\<not> ready (nv_theMetaPres w) (mp_numberOfSlides (nv_theMetaPres w) - 1)"
  shows "\<exists>m. goToLastSlide nc w = nc_endPresentation nc False
    (w\<lparr>nv_sent := nv_sent w @ m, nv_currentSlide := Some (mp_numberOfSlides (nv_theMetaPres w))\<rparr>)"
proof -
  let ?n = "mp_numberOfSlides (nv_theMetaPres w) - 1"
  have "slide_offset ?n (nv_currentSlide w) = 1" using assms(3,5) by (simp add: slide_offset_def)
  moreover have "landing (nv_theMetaPres w) 1 ?n = None" using assms(6) by (simp add: landing_def)
  ultimately show ?thesis
    using displaySlide_walk [OF assms(1,2), of ?n 1 True None] assms(4,5) by (simp add: goToLastSlide_def landed_def)
qed

theorem hidden_last_slide_ends_witness:
  "\<exists>m. goToLastSlide sample_nc (sample_nav (Some 0) True) = returns ((sample_nav (Some 0) True)\<lparr>nv_sent := m, nv_currentSlide := Some 5\<rparr>)"
proof -
  have mp: "nv_theMetaPres (sample_nav (Some 0) True) = sample_pres" "nv_currentSlide (sample_nav (Some 0) True) = Some 0"
    by (simp_all add: sample_nav_def new_SlideShowNavigator_def)
  have "\<not> ready sample_pres 4" by code_simp
  then show ?thesis
    using hidden_last_slide_ends [OF sample_presenting, of "sample_nav (Some 0) True" 0] mp sample_ready
    by (auto simp: sample_nc_def)
qed

subsection \<open>Forward and back\<close>

text \<open>Calls that leave the position of the navigator alone.\<close>

definition keeps_position :: "'x navigator nav_calls \<Rightarrow> bool" where
  "keeps_position nc \<longleftrightarrow>
     (\<forall>n p s e w. \<exists>r m. nc_displaySlide nc n p s e w = returns (w\<lparr>nv_rest := r, nv_sent := m\<rparr>)) \<and>
     (\<forall>w. \<exists>b r m. nc_skipAllEffects nc w = returns (b, w\<lparr>nv_rest := r, nv_sent := m\<rparr>)) \<and>
     (\<forall>n w. \<exists>b r. nc_requestSlide nc n w = (b, w\<lparr>nv_rest := r\<rparr>)) \<and> (\<forall>w. presenting nc w)"

text \<open>A request and the arrival of the slide.\<close>

definition and_arrive :: "'x navigator nav_calls \<Rightarrow> 'x navigator outcome \<Rightarrow> 'x navigator outcome" where
  "and_arrive nc r = andThen r (slide_arrives nc)"

definition left_slide :: "'x navigator \<Rightarrow> int option" where
  "left_slide w = (case nv_currentSlide w of None \<Rightarrow> None | Some c \<Rightarrow> if c \<ge> mp_numberOfSlides (nv_theMetaPres w) then None else Some c)"

lemma left_slide_same: "nv_currentSlide w' = nv_currentSlide w \<Longrightarrow> nv_theMetaPres w' = nv_theMetaPres w \<Longrightarrow> left_slide w' = left_slide w"
  by (simp add: left_slide_def split: option.split)

lemma fetched_position:
  assumes "keeps_position nc"
  shows "\<exists>w'. fetched nc cb w = Some (Inr w') \<and> nv_theMetaPres w' = nv_theMetaPres w \<and> nv_currentSlide w' = Some (fc_nNewSlide cb) \<and>
    nv_prevSlide w' = left_slide w \<and>
    nv_onGotSlideCallback w' = nv_onGotSlideCallback w"
proof -
  let ?p = "left_slide w"
  let ?w = "w\<lparr>nv_prevSlide := ?p, nv_currentSlide := Some (fc_nNewSlide cb)\<rparr>"
  obtain r m where shown: "nc_displaySlide nc (fc_nNewSlide cb) ?p (fc_bSkipTransition cb) (fc_nStartEffect cb) ?w = Some (Inr (?w\<lparr>nv_rest := r, nv_sent := m\<rparr>))"
    using assms unfolding keeps_position_def returns_def by blast
  obtain b r' m' where skip: "nc_skipAllEffects nc (?w\<lparr>nv_rest := r, nv_sent := m\<rparr>) = Some (Inr (b, ?w\<lparr>nv_rest := r, nv_sent := m, nv_rest := r', nv_sent := m'\<rparr>))"
    using assms unfolding keeps_position_def returns_def by blast
  show ?thesis
    unfolding fetched_def Let_def left_slide_def [symmetric] using shown skip by (auto simp: returns_def)
qed

lemma fetchAndRun_position:
  assumes "keeps_position nc" and "fc_nNewSlide cb = n"
  shows "\<exists>w'. and_arrive nc (fetchAndRun nc n cb w) = Some (Inr w') \<and> nv_theMetaPres w' = nv_theMetaPres w \<and> nv_currentSlide w' = Some n \<and>
    nv_prevSlide w' = left_slide w \<and>
    nv_onGotSlideCallback w' = None"
proof -
  obtain b r where req: "nc_requestSlide nc n (w\<lparr>nv_onGotSlideCallback := Some cb\<rparr>) = (b, w\<lparr>nv_onGotSlideCallback := Some cb, nv_rest := r\<rparr>)"
    using assms(1) unfolding keeps_position_def by blast
  let ?w = "w\<lparr>nv_rest := r, nv_onGotSlideCallback := None\<rparr>"
  obtain w' where "fetched nc cb ?w = Some (Inr w')" "nv_theMetaPres w' = nv_theMetaPres w" "nv_currentSlide w' = Some n"
      "nv_prevSlide w' = left_slide w"
      "nv_onGotSlideCallback w' = None"
    using fetched_position [OF assms(1), of cb ?w] assms(2) left_slide_same [of ?w w] by auto
  then show ?thesis
    using req by (cases b) (auto simp: and_arrive_def fetchAndRun_def slide_arrives_def returns_def)
qed

lemma switch_position:
  assumes "keeps_position nc" and "has_slides (nv_theMetaPres w)" and "nv_currentSlide w = Some c" and "0 \<le> c + d" and "c < mp_numberOfSlides (nv_theMetaPres w)"
    and "c + d < mp_numberOfSlides (nv_theMetaPres w)" and "d = 1 \<or> d = -1" and "landing (nv_theMetaPres w) d (c + d) = Some i"
  shows "\<exists>w'. and_arrive nc (switchSlide nc d skip w) = Some (Inr w') \<and> nv_theMetaPres w' = nv_theMetaPres w \<and>
    nv_currentSlide w' = Some i \<and> nv_prevSlide w' = Some c"
proof -
  have "presenting nc w" using assms(1) by (simp add: keeps_position_def)
  moreover have "d = slide_offset (c + d) (nv_currentSlide w)" using assms(3,7) by (auto simp: slide_offset_def)
  ultimately obtain m where "displaySlide nc (Some (c + d)) skip None w = landed nc d (c + d) skip None m w"
    using displaySlide_walk [of nc w "c + d" d skip None] assms(2,4,6) by auto
  then have "switchSlide nc d skip w = fetchAndRun nc i \<lparr>fc_nNewSlide = i, fc_bSkipTransition = skip, fc_nStartEffect = None\<rparr> (w\<lparr>nv_sent := nv_sent w @ m\<rparr>)"
    using assms(3,8) by (simp add: switchSlide_def landed_def)
  moreover have "left_slide (w\<lparr>nv_sent := nv_sent w @ m\<rparr>) = Some c" using assms(3,5) by (simp add: left_slide_def)
  ultimately show ?thesis
    using fetchAndRun_position [OF assms(1), of "\<lparr>fc_nNewSlide = i, fc_bSkipTransition = skip, fc_nStartEffect = None\<rparr>" i "w\<lparr>nv_sent := nv_sent w @ m\<rparr>"] assms(3,5)
    by auto
qed

lemma landing_back:
  assumes "ready mp c" and "0 \<le> c" and "c \<le> n" and "\<forall>j. c < j \<and> j \<le> n \<longrightarrow> \<not> ready mp j"
  shows "landing mp (-1) n = Some c"
proof -
  have "[0..n] = [0..c] @ [c + 1..n]" using assms(2,3) by (rule upto_split2)
  moreover have "List.find (ready mp) (rev [c + 1..n]) = None" using assms(4) by (auto simp: find_None_iff)
  moreover have "List.find P (xs @ ys) = List.find P ys" if "List.find P xs = None" for P and xs ys :: "int list"
    using that by (induction xs) (auto split: if_splits)
  moreover have "List.find (ready mp) (rev [0..c]) = Some c" using assms(1,2) upto_rec2 [of 0 c] by simp
  ultimately show ?thesis by (simp add: landing_def)
qed

text \<open>
  C27. From a visible slide, going to the next slide and back leads to the slide one came from,
  whatever slides in between are hidden and whether or not they have to be fetched.
\<close>

theorem next_then_previous:
  assumes "keeps_position nc" and "has_slides (nv_theMetaPres w)" and "nv_currentSlide w = Some c"
    and "0 \<le> c" and "c < i" and "i < mp_numberOfSlides (nv_theMetaPres w)" and "ready (nv_theMetaPres w) c" and "ready (nv_theMetaPres w) i"
    and "\<forall>j. c < j \<and> j < i \<longrightarrow> \<not> ready (nv_theMetaPres w) j"
  shows "\<exists>w1 w2. and_arrive nc (switchSlide nc 1 skip w) = returns w1 \<and> nv_currentSlide w1 = Some i \<and> nv_prevSlide w1 = Some c \<and>
    and_arrive nc (switchSlide nc (-1) skip' w1) = returns w2 \<and> nv_currentSlide w2 = Some c \<and> nv_prevSlide w2 = Some i"
proof -
  let ?mp = "nv_theMetaPres w"
  have "[c + 1..mp_numberOfSlides ?mp - 1] = [c + 1..i - 1] @ i # [i + 1..mp_numberOfSlides ?mp - 1]"
    using assms(5,6) by (intro upto_split3) auto
  moreover have "List.find (ready ?mp) (xs @ i # ys) = Some i" if "\<forall>x \<in> set xs. \<not> ready ?mp x" for xs ys
    using that assms(8) by (induction xs) auto
  ultimately have forward: "landing ?mp 1 (c + 1) = Some i" using assms(9) by (simp add: landing_def)
  obtain w1 where w1: "and_arrive nc (switchSlide nc 1 skip w) = Some (Inr w1)" "nv_theMetaPres w1 = ?mp" "nv_currentSlide w1 = Some i" "nv_prevSlide w1 = Some c"
    using switch_position [OF assms(1-3), of 1 i skip] forward assms(4-6) by auto
  have "landing ?mp (-1) (i - 1) = Some c" using landing_back [of ?mp c "i - 1"] assms(4,5,7,9) by auto
  then obtain w2 where "and_arrive nc (switchSlide nc (-1) skip' w1) = Some (Inr w2)" "nv_currentSlide w2 = Some c" "nv_prevSlide w2 = Some i"
    using switch_position [OF assms(1), of w1 i "-1" c skip'] w1 assms(2,4-6) by auto
  with w1 show ?thesis by (auto simp: returns_def)
qed

lemma sample_keeps_position: "keeps_position sample_nc"
proof -
  have "\<exists>r m. nc_displaySlide sample_nc n p s e w = returns (w\<lparr>nv_rest := r, nv_sent := m\<rparr>)" for n p s e w
    by (rule exI [of _ "(\<lambda>(l, n', b). (l @ [n], n', b)) (nv_rest w)"], rule exI [of _ "nv_sent w"], cases w)
      (simp add: sample_nc_def)
  moreover have "\<exists>b r m. nc_skipAllEffects sample_nc w = returns (b, w\<lparr>nv_rest := r, nv_sent := m\<rparr>)" for w
    by (rule exI [of _ True], rule exI [of _ "(\<lambda>(l, n, b). (l, Suc n, b)) (nv_rest w)"], rule exI [of _ "nv_sent w"], cases w)
      (simp add: sample_nc_def)
  moreover have "\<exists>b r. nc_requestSlide sample_nc n w = (b, w\<lparr>nv_rest := r\<rparr>)" for n w
    by (rule exI [of _ "snd (snd (nv_rest w))"], rule exI [of _ "nv_rest w"], cases w) (simp add: sample_nc_def)
  ultimately show ?thesis using sample_presenting by (simp add: keeps_position_def)
qed

theorem next_then_previous_witness:
  "\<exists>w1 w2. and_arrive sample_nc (switchSlide sample_nc 1 True (sample_nav (Some 0) False)) = returns w1 \<and> nv_currentSlide w1 = Some 2 \<and>
    and_arrive sample_nc (switchSlide sample_nc (-1) True w1) = returns w2 \<and> nv_currentSlide w2 = Some 0"
proof -
  have mp: "nv_theMetaPres (sample_nav (Some 0) False) = sample_pres" "nv_currentSlide (sample_nav (Some 0) False) = Some 0"
    by (simp_all add: sample_nav_def new_SlideShowNavigator_def)
  have r: "ready sample_pres 0" "ready sample_pres 2" "\<not> ready sample_pres 1" by code_simp+
  have "\<forall>j. 0 < j \<and> j < 2 \<longrightarrow> \<not> ready sample_pres j"
  proof (intro allI impI)
    fix j :: int
    assume "0 < j \<and> j < 2"
    then have "j = 1" by auto
    then show "\<not> ready sample_pres j" using r by simp
  qed
  then show ?thesis
    using next_then_previous [OF sample_keeps_position, of "sample_nav (Some 0) False" 0 2 True True] mp r sample_ready by auto
qed

subsection \<open>Rewinding to the previous slide\<close>

lemma rewind_request:
  assumes "keeps_position nc" and "has_slides (nv_theMetaPres w)" and "nv_currentSlide w = Some c" and "0 < c"
    and "c < mp_numberOfSlides (nv_theMetaPres w)" and "ready (nv_theMetaPres w) (c - 1)"
  shows "\<exists>m. rewindToPreviousSlide nc w =
    andThen (fetchAndRun nc (c - 1) \<lparr>fc_nNewSlide = c - 1, fc_bSkipTransition = True, fc_nStartEffect = None\<rparr>
      (w\<lparr>nv_isRewindingToPrevSlide := True, nv_sent := nv_sent w @ m\<rparr>)) (\<lambda>w2.
      returns (sendSlideShowFollowMessage Msg_skipalleffect (w2\<lparr>nv_isRewindingToPrevSlide := False\<rparr>)))"
proof -
  let ?w = "w\<lparr>nv_isRewindingToPrevSlide := True\<rparr>"
  have "presenting nc ?w" using assms(1) by (simp add: keeps_position_def)
  moreover have "slide_offset (c - 1) (nv_currentSlide ?w) = -1" using assms(3) by (simp add: slide_offset_def)
  moreover have "landing (nv_theMetaPres ?w) (-1) (c - 1) = Some (c - 1)" using landing_here [OF assms(6), of "-1"] assms(4,5) by simp
  ultimately obtain m where "displaySlide nc (Some (c - 1)) True None ?w =
      fetchAndRun nc (c - 1) \<lparr>fc_nNewSlide = c - 1, fc_bSkipTransition = True, fc_nStartEffect = None\<rparr> (?w\<lparr>nv_sent := nv_sent w @ m\<rparr>)"
    using displaySlide_walk [of nc ?w "c - 1" "-1" True None] assms(2,4,5) by (auto simp: landed_def)
  then show ?thesis using assms(3,4) by (auto simp: rewindToPreviousSlide_def Let_def returns_def intro!: exI [of _ m])
qed

text \<open>The arrival of the previous slide, which is displayed, and whose effects are skipped if the flag is set.\<close>

lemma previous_arrives:
  assumes "keeps_position nc" and "nv_onGotSlideCallback v = Some \<lparr>fc_nNewSlide = c - 1, fc_bSkipTransition = True, fc_nStartEffect = None\<rparr>"
    and "nv_currentSlide v = Some c" and "c < mp_numberOfSlides (nv_theMetaPres v)"
  defines "s \<equiv> v\<lparr>nv_onGotSlideCallback := None, nv_prevSlide := Some c, nv_currentSlide := Some (c - 1)\<rparr>"
  shows "\<exists>u. nc_displaySlide nc (c - 1) (Some c) True None s = Some (Inr u) \<and>
    slide_arrives nc v =
      (if nv_isRewindingToPrevSlide v then andThen (nc_skipAllEffects nc u) (\<lambda>r. returns ((snd r)\<lparr>nv_isRewindingToPrevSlide := False\<rparr>))
       else Some (Inr u))"
proof -
  obtain r m where u: "nc_displaySlide nc (c - 1) (Some c) True None s = returns (s\<lparr>nv_rest := r, nv_sent := m\<rparr>)"
    using assms(1) unfolding keeps_position_def by blast
  then show ?thesis using assms(2-4) by (simp add: slide_arrives_def fetched_def Let_def returns_def s_def)
qed

text \<open>
  C33. Going back from the first effect of a slide displays the previous slide and skips all its
  effects only when the image of that slide is there at once. When it has to be fetched, the flag
  that asks for the skipping is reset before the slide arrives, and its effects are not skipped.
\<close>

theorem rewind_skips_only_cached:
  assumes "keeps_position nc" and "nc_requestSlide nc = (\<lambda>n w. (there, w))" and "has_slides (nv_theMetaPres w)"
    and "nv_currentSlide w = Some c" and "0 < c" and "c < mp_numberOfSlides (nv_theMetaPres w)" and "ready (nv_theMetaPres w) (c - 1)"
  shows "if there
    then \<exists>w1. nv_rest w1 = nv_rest w \<and> rewindToPreviousSlide nc w = andThen (nc_displaySlide nc (c - 1) (Some c) True None w1) (\<lambda>w2.
        andThen (nc_skipAllEffects nc w2) (\<lambda>r. returns (sendSlideShowFollowMessage Msg_skipalleffect ((snd r)\<lparr>nv_isRewindingToPrevSlide := False\<rparr>))))
    else \<exists>w1 w2. rewindToPreviousSlide nc w = returns w1 \<and> nv_rest w2 = nv_rest w \<and> slide_arrives nc w1 = nc_displaySlide nc (c - 1) (Some c) True None w2"
proof -
  let ?cb = "\<lparr>fc_nNewSlide = c - 1, fc_bSkipTransition = True, fc_nStartEffect = None\<rparr>"
  let ?shown = "\<lambda>v. v\<lparr>nv_onGotSlideCallback := None, nv_prevSlide := Some c, nv_currentSlide := Some (c - 1)\<rparr>"
  obtain m where rw: "rewindToPreviousSlide nc w =
      andThen (fetchAndRun nc (c - 1) ?cb (w\<lparr>nv_isRewindingToPrevSlide := True, nv_sent := nv_sent w @ m\<rparr>)) (\<lambda>w2.
        returns (sendSlideShowFollowMessage Msg_skipalleffect (w2\<lparr>nv_isRewindingToPrevSlide := False\<rparr>)))"
    using rewind_request [OF assms(1,3-7)] by blast
  let ?v = "w\<lparr>nv_isRewindingToPrevSlide := True, nv_sent := nv_sent w @ m, nv_onGotSlideCallback := Some ?cb\<rparr>"
  show ?thesis
  proof (cases there)
    case True
    obtain u where u: "nc_displaySlide nc (c - 1) (Some c) True None (?shown ?v) = Some (Inr u)"
        "slide_arrives nc ?v = andThen (nc_skipAllEffects nc u) (\<lambda>r. returns ((snd r)\<lparr>nv_isRewindingToPrevSlide := False\<rparr>))"
      using previous_arrives [OF assms(1), of ?v c] assms(4,6) by auto
    moreover have "rewindToPreviousSlide nc w = andThen (slide_arrives nc ?v) (\<lambda>w2.
        returns (sendSlideShowFollowMessage Msg_skipalleffect (w2\<lparr>nv_isRewindingToPrevSlide := False\<rparr>)))"
      using rw assms(2) True by (simp add: fetchAndRun_def)
    moreover obtain b r m' where "nc_skipAllEffects nc u = Some (Inr (b, u\<lparr>nv_rest := r, nv_sent := m'\<rparr>))"
      using assms(1) unfolding keeps_position_def returns_def by blast
    ultimately show ?thesis using True by (intro iffD2 [OF if_P] exI [of _ "?shown ?v"]) (simp_all add: returns_def)
  next
    case False
    let ?v1 = "sendSlideShowFollowMessage Msg_skipalleffect (?v\<lparr>nv_isRewindingToPrevSlide := False\<rparr>)"
    have "rewindToPreviousSlide nc w = returns ?v1" using rw assms(2) False by (simp add: fetchAndRun_def returns_def)
    moreover have "slide_arrives nc ?v1 = nc_displaySlide nc (c - 1) (Some c) True None (?shown ?v1)"
      using previous_arrives [OF assms(1), of ?v1 c] assms(4,6) by auto
    moreover have "nv_rest (?shown ?v1) = nv_rest w" by simp
    ultimately show ?thesis using False by (simp only: if_False) blast
  qed
qed

theorem rewind_skips_only_cached_witness:
  "\<exists>w1 w2. rewindToPreviousSlide (sample_nc\<lparr>nc_requestSlide := \<lambda>n w. (False, w)\<rparr>) (sample_nav (Some 3) False) = returns w1 \<and>
    slide_arrives (sample_nc\<lparr>nc_requestSlide := \<lambda>n w. (False, w)\<rparr>) w1 = returns w2 \<and> nv_rest w2 = ([2], 0, False)"
proof -
  let ?nc = "sample_nc\<lparr>nc_requestSlide := \<lambda>n w. (False, w)\<rparr>" and ?w = "sample_nav (Some 3) False"
  have "\<exists>b r. nc_requestSlide ?nc n w = (b, w\<lparr>nv_rest := r\<rparr>)" for n w
    by (rule exI [of _ False], rule exI [of _ "nv_rest w"], cases w) simp
  moreover have "presenting ?nc w" for w by (simp add: presenting_def sample_nc_def)
  ultimately have "keeps_position ?nc" using sample_keeps_position by (simp add: keeps_position_def)
  moreover have "nv_theMetaPres ?w = sample_pres" "nv_currentSlide ?w = Some 3" "nv_rest ?w = ([], 0, False)"
    by (simp_all add: sample_nav_def new_SlideShowNavigator_def)
  moreover have "ready sample_pres 2" by code_simp
  ultimately obtain w1 w2 where "rewindToPreviousSlide ?nc ?w = returns w1" "nv_rest w2 = ([], 0, False)"
      "slide_arrives ?nc w1 = nc_displaySlide ?nc 2 (Some 3) True None w2"
    using rewind_skips_only_cached [of ?nc False ?w 3] sample_ready by auto
  moreover from this(2) have "nc_displaySlide ?nc 2 (Some 3) True None w2 = returns (w2\<lparr>nv_rest := ([2], 0, False)\<rparr>)"
    by (simp add: sample_nc_def)
  ultimately show ?thesis by (intro exI [of _ w1] exI [of _ "w2\<lparr>nv_rest := ([2], 0, False)\<rparr>"]) simp
qed

subsection \<open>Clicks on slides with videos or interactions\<close>

text \<open>
  A click looks for a shape and for a video whenever the slide has one of the two: when the
  information of the slide has the list of the one kind and lacks that of the other, the
  handler throws.
\<close>

theorem click_needs_both_lists:
  assumes "getSlideInfoByIndex (nv_currentSlide w) (nv_theMetaPres w) = Inr (Some info)" and "\<not> nc_isFollower nc w"
    and "si_interactions info = None \<and> some_of (si_videos info) \<or> some_of (si_interactions info) \<and> si_videos info = None"
  shows "clickHandler nc 0 x y w = throws TypeError"
proof -
  have "click_targets nc info x' y' w = throws TypeError" for x' y'
    using assms(3) by (auto simp: click_targets_def js_find_def lift_sum_def throws_def split: sum.splits option.splits)
  then show ?thesis
    using assms by (auto simp: clickHandler_def stop_following_def lift_sum_def returns_def doc_point_def throws_def)
qed

theorem click_needs_both_lists_witness:
  "clickHandler sample_nc 0 1 1 ((sample_nav (Some 0) True)\<lparr>nv_theMetaPres := new_MetaPresentation
    \<lparr>pi_slides = [(sample_slide ''a'' 0 False)\<lparr>si_videos := Some [\<lparr>cr_x = 0, cr_y = 0, cr_width = 9, cr_height = 9, vi_id = 1\<rparr>],
       si_interactions := None\<rparr>], pi_docWidth = 100, pi_docHeight = 50\<rparr>\<rparr>) = throws TypeError"
  by (rule click_needs_both_lists [where info = "(sample_slide ''a'' 0 False)\<lparr>si_videos := Some [\<lparr>cr_x = 0, cr_y = 0, cr_width = 9, cr_height = 9, vi_id = 1\<rparr>],
       si_interactions := None, si_indexInSlideShow := Some 0\<rparr>"])
    (simp_all add: sample_nav_def new_SlideShowNavigator_def new_MetaPresentation_def update_pres_def linked_slide_def sample_slide_def
      getSlideInfoByIndex_def getSlideHash_def getSlideInfo_def getMetaSlide_def sum_bind_def sample_nc_def some_of_def Let_def)

subsection \<open>No hidden slide is shown\<close>

definition nav_ok :: "meta_pres \<Rightarrow> 'x navigator \<Rightarrow> bool" where
  "nav_ok mp w \<longleftrightarrow> nv_theMetaPres w = mp \<and>
     (\<forall>c. nv_currentSlide w = Some c \<longrightarrow> 0 \<le> c \<and> (c < mp_numberOfSlides mp \<longrightarrow> ready mp c)) \<and>
     (\<forall>c. nv_prevSlide w = Some c \<longrightarrow> 0 \<le> c \<and> c < mp_numberOfSlides mp \<and> ready mp c) \<and>
     (\<forall>cb. nv_onGotSlideCallback w = Some cb \<longrightarrow>
        0 \<le> fc_nNewSlide cb \<and> fc_nNewSlide cb < mp_numberOfSlides mp \<and> ready mp (fc_nNewSlide cb))"

text \<open>
  A predicate of every result that is returned, by the structure of the computation. The contract of
  the calls is that they keep the invariant: they may call the navigator in turn.
\<close>

definition good :: "('v \<Rightarrow> bool) \<Rightarrow> 'v outcome \<Rightarrow> bool" where
  "good P m \<longleftrightarrow> (\<forall>v. m = returns v \<longrightarrow> P v)"

definition calls_keep :: "('x navigator \<Rightarrow> bool) \<Rightarrow> 'x navigator nav_calls \<Rightarrow> bool" where
  "calls_keep I nc \<longleftrightarrow>
     (\<forall>w. I w \<longrightarrow> good (\<lambda>r. I (snd r)) (nc_nextEffect nc w) \<and> good (\<lambda>r. I (snd r)) (nc_skipPlayingOrNextEffect nc w) \<and>
        good (\<lambda>r. I (snd r)) (nc_skipAllEffects nc w) \<and> good I (nc_rewindEffect nc w) \<and> good I (nc_rewindAllEffects nc w) \<and>
        (\<forall>n. good I (nc_skipNEffects nc n w)) \<and> (\<forall>n p s e. good I (nc_displaySlide nc n p s e w)) \<and> good I (nc_exitSlideShow nc w) \<and>
        I (nc_setStarting nc w) \<and> (\<forall>b. good I (nc_endPresentation nc b w)) \<and> (\<forall>b. good I (nc_setFollowing nc b w)) \<and>
        (\<forall>n. I (snd (nc_requestSlide nc n w))) \<and> (\<forall>h v. good I (nc_videoClick nc h v w)) \<and>
        good I (nc_notifyMouseClick nc w) \<and> (\<forall>x y. good I (nc_notifyMouseMove nc x y w)))"

lemma good_returns: "P v \<Longrightarrow> good P (returns v)"
  by (simp add: good_def returns_def)

lemma good_throws: "good P (throws e)"
  by (simp add: good_def returns_def throws_def)

lemma good_andThen:
  assumes "good Q m" and "\<And>u. Q u \<Longrightarrow> good P (k u)"
  shows "good P (andThen m k)"
  using assms by (cases m) (auto simp: good_def andThen_def returns_def split: sum.splits)

lemma good_lift_sum: "(\<And>u. r = Inr u \<Longrightarrow> good P (k u)) \<Longrightarrow> good P (lift_sum r k)"
  by (auto simp: lift_sum_def good_throws split: sum.splits)

lemmas good_rules = good_returns good_throws good_lift_sum

lemma calls_keepD:
  assumes "calls_keep I nc" and "I w"
  shows "good (\<lambda>r. I (snd r)) (nc_nextEffect nc w)" "good (\<lambda>r. I (snd r)) (nc_skipPlayingOrNextEffect nc w)"
    "good (\<lambda>r. I (snd r)) (nc_skipAllEffects nc w)" "good I (nc_rewindEffect nc w)" "good I (nc_rewindAllEffects nc w)"
    "good I (nc_skipNEffects nc n w)" "good I (nc_displaySlide nc i p s e w)" "good I (nc_exitSlideShow nc w)"
    "I (nc_setStarting nc w)" "good I (nc_endPresentation nc b w)" "good I (nc_setFollowing nc b w)"
    "I (snd (nc_requestSlide nc i w))" "good I (nc_videoClick nc h v w)" "good I (nc_notifyMouseClick nc w)"
    "good I (nc_notifyMouseMove nc x y w)"
  using assms(1) [unfolded calls_keep_def, THEN spec, THEN mp, OF assms(2)] by simp_all

lemma nav_ok_fields:
  "nav_ok mp w \<Longrightarrow> nav_ok mp (sendSlideShowFollowMessage msg w)"
  "nav_ok mp w \<Longrightarrow> nav_ok mp (w\<lparr>nv_isRewindingToPrevSlide := b\<rparr>)"
  "nav_ok mp w \<Longrightarrow> nav_ok mp (w\<lparr>nv_lastClickTime := t\<rparr>)"
  "nav_ok mp w \<Longrightarrow> nav_ok mp (w\<lparr>nv_onGotSlideCallback := None\<rparr>)"
  "nav_ok mp w \<Longrightarrow> nav_ok mp (w\<lparr>nv_currentSlide := None, nv_prevSlide := None, nv_handleClick := b\<rparr>)"
  "nav_ok mp w \<Longrightarrow> nav_ok mp (w\<lparr>nv_isRewindingToPrevSlide := b, nv_currentSlide := None, nv_prevSlide := None\<rparr>)"
  by (simp_all add: nav_ok_def sendSlideShowFollowMessage_def)

lemma quit_good: "calls_keep (nav_ok mp) nc \<Longrightarrow> nav_ok mp w \<Longrightarrow> good (nav_ok mp) (quit nc w)"
  unfolding quit_def by (intro good_andThen [OF calls_keepD(8)] good_andThen [OF calls_keepD(10)] good_returns nav_ok_fields(5))

lemma fetched_good:
  assumes "calls_keep (nav_ok mp) nc" and "nav_ok mp w"
    and "0 \<le> fc_nNewSlide cb" and "fc_nNewSlide cb < mp_numberOfSlides mp" and "ready mp (fc_nNewSlide cb)"
  shows "good (nav_ok mp) (fetched nc cb w)"
proof -
  let ?w = "w\<lparr>nv_prevSlide := left_slide w, nv_currentSlide := Some (fc_nNewSlide cb)\<rparr>"
  have ok: "nav_ok mp ?w" using assms(2-5) by (auto simp: nav_ok_def left_slide_def split: option.splits if_splits)
  then have "good (nav_ok mp) (andThen (nc_displaySlide nc (fc_nNewSlide cb) (left_slide w) (fc_bSkipTransition cb) (fc_nStartEffect cb) ?w) (\<lambda>w2.
      if nv_isRewindingToPrevSlide w2 then andThen (nc_skipAllEffects nc w2) (\<lambda>r. returns ((snd r)\<lparr>nv_isRewindingToPrevSlide := False\<rparr>))
      else returns w2))"
    using assms(1) by (intro good_andThen [where Q = "nav_ok mp"] calls_keepD(7))
      (auto intro!: good_returns nav_ok_fields(2) good_andThen [OF calls_keepD(3)])
  with good_returns [of "nav_ok mp", OF ok] show ?thesis
    by (cases "left_slide w = Some (fc_nNewSlide cb)") (simp_all add: fetched_def Let_def left_slide_def [symmetric])
qed

lemma slide_arrives_good: "calls_keep (nav_ok mp) nc \<Longrightarrow> nav_ok mp w \<Longrightarrow> good (nav_ok mp) (slide_arrives nc w)"
  unfolding slide_arrives_def
  by (cases "nv_onGotSlideCallback w") (auto intro!: good_returns fetched_good nav_ok_fields(4) simp: nav_ok_def)

lemma fetchAndRun_good:
  assumes "calls_keep (nav_ok mp) nc" and "nav_ok mp w"
    and "0 \<le> fc_nNewSlide cb" and "fc_nNewSlide cb < mp_numberOfSlides mp" and "ready mp (fc_nNewSlide cb)"
  shows "good (nav_ok mp) (fetchAndRun nc n cb w)"
proof -
  have "nav_ok mp (w\<lparr>nv_onGotSlideCallback := Some cb\<rparr>)" using assms(2-5) by (simp add: nav_ok_def)
  then have "nav_ok mp (snd (nc_requestSlide nc n (w\<lparr>nv_onGotSlideCallback := Some cb\<rparr>)))" by (rule calls_keepD(12) [OF assms(1)])
  then show ?thesis
    using slide_arrives_good [OF assms(1)] by (auto simp: fetchAndRun_def Let_def good_returns split: prod.split)
qed

lemma displaySlide_good:
  assumes "calls_keep (nav_ok mp) nc" and "nav_ok mp w"
  shows "good (nav_ok mp) (displaySlide nc n skip eff w)"
  using assms
proof (induction nc n skip eff w rule: displaySlide.induct)
  case (1 nc nNewSlide skip eff w0)
  define w where "w = sendSlideShowFollowMessage (Msg_displayslide nNewSlide) w0"
  have ok: "nav_ok mp w" unfolding w_def by (rule nav_ok_fields(1) [OF 1(3)])
  have mp: "nv_theMetaPres w = mp" using ok by (simp add: nav_ok_def)
  note body = displaySlide.simps [of nc nNewSlide skip eff w0, unfolded w_def [symmetric] Let_def]
  show ?case
  proof (cases "nc_checkAlreadyPresenting nc w \<and> (\<exists>n. nNewSlide = Some n \<and> \<not> n < 0)")
    case False
    then show ?thesis
      unfolding body by (auto intro!: quit_good [OF 1(2) ok] good_returns ok split: option.splits)
  next
    case True
    then obtain n where n: "nNewSlide = Some n" "\<not> n < 0" and pres: "nc_checkAlreadyPresenting nc w" by blast
    show ?thesis
    proof (cases "n \<ge> mp_numberOfSlides mp")
      case True
      then have "nav_ok mp (w\<lparr>nv_currentSlide := Some n\<rparr>)" using ok n by (simp add: nav_ok_def)
      then show ?thesis
        using True n pres mp quit_good [OF 1(2)] calls_keepD(10) [OF 1(2)] unfolding body by simp
    next
      case False
      have "good (nav_ok mp) (if \<not> slide_ready s then
            (if slide_offset n (nv_currentSlide w) = 0 then returns w
             else displaySlide nc (Some (n + slide_offset n (nv_currentSlide w))) skip None w)
          else fetchAndRun nc n \<lparr>fc_nNewSlide = n, fc_bSkipTransition = skip, fc_nStartEffect = eff\<rparr> w)"
        if s: "getMetaSlideByIndex (Some n) mp = Inr s" for s
        using 1(1) [OF w_def _ n(1,2) _ _ refl _ 1(2) ok] pres False mp s n fetchAndRun_good [OF 1(2) ok]
        by (auto simp: good_returns ok ready_def)
      then show ?thesis
        using False n pres mp unfolding body by (auto intro!: good_lift_sum)
    qed
  qed
qed

text \<open>The events of a show: what the user, the handler of the effects, the presenter and the network do.\<close>

inductive nav_step :: "'x navigator nav_calls \<Rightarrow> 'x navigator \<Rightarrow> 'x navigator \<Rightarrow> bool" for nc where
  key: "onKeyDown nc code w = returns w' \<Longrightarrow> nav_step nc w w'"
| click: "onClick nc button x y w = returns w' \<Longrightarrow> nav_step nc w w'"
| canvas_click: "clickHandler nc button x y w = returns w' \<Longrightarrow> nav_step nc w w'"
| move: "onMouseMove nc x y w = returns w' \<Longrightarrow> nav_step nc w w'"
| swiped: "onSwipe nc direction w = returns w' \<Longrightarrow> nav_step nc w w'"
| arrival: "slide_arrives nc w = returns w' \<Longrightarrow> nav_step nc w w'"
| begin_show: "startPresentation nc n skip eff w = returns w' \<Longrightarrow> nav_step nc w w'"
| switching: "switchSlide nc d skip w = returns w' \<Longrightarrow> nav_step nc w w'"
| rewinding: "rewindToPreviousSlide nc w = returns w' \<Longrightarrow> nav_step nc w w'"
| following: "followLeaderSlide nc w = returns w' \<Longrightarrow> nav_step nc w w'"
| follow_video: "followVideo nc i v w = returns w' \<Longrightarrow> nav_step nc w w'"
| quitting: "quit nc w = returns w' \<Longrightarrow> nav_step nc w w'"
| leader_slide: "nav_step nc w (resetLeaderEffect (setLeaderSlide i w))"
| leader_effect: "nav_step nc w (setLeaderEffect e w)"
| enabling: "nav_step nc w (enable w)"
| disabling: "nav_step nc w (disable w)"

inductive nav_reachable :: "'x navigator nav_calls \<Rightarrow> meta_pres \<Rightarrow> 'x navigator \<Rightarrow> bool" for nc mp where
  start: "nav_reachable nc mp (new_SlideShowNavigator mp leader r)"
| step: "nav_reachable nc mp w \<Longrightarrow> nav_step nc w w' \<Longrightarrow> nav_reachable nc mp w'"

lemma switch_good: "calls_keep (nav_ok mp) nc \<Longrightarrow> nav_ok mp w \<Longrightarrow> good (nav_ok mp) (switchSlide nc d skip w)"
  by (cases "nv_currentSlide w") (simp_all add: switchSlide_def good_returns displaySlide_good)

lemma start_good: "calls_keep (nav_ok mp) nc \<Longrightarrow> nav_ok mp w \<Longrightarrow> good (nav_ok mp) (startPresentation nc n skip eff w)"
  unfolding startPresentation_def by (intro displaySlide_good nav_ok_fields(6) calls_keepD(9) [where I = "nav_ok mp"])

lemma goto_good:
  assumes "calls_keep (nav_ok mp) nc" and "nav_ok mp w"
  shows "good (nav_ok mp) (goToFirstSlide nc w)" and "good (nav_ok mp) (goToLastSlide nc w)"
    and "good (nav_ok mp) (goToSlideAtBookmark nc b w)"
proof -
  show "good (nav_ok mp) (goToFirstSlide nc w)" "good (nav_ok mp) (goToLastSlide nc w)"
    unfolding goToFirstSlide_def goToLastSlide_def by (rule start_good [OF assms]) (rule displaySlide_good [OF assms])
  have "good (nav_ok mp) (bookmark_loop nc b is w)" for "is"
    by (induction "is") (auto intro!: good_returns good_lift_sum good_throws displaySlide_good [OF assms] assms(2) split: option.split)
  then show "good (nav_ok mp) (goToSlideAtBookmark nc b w)" by (simp add: goToSlideAtBookmark_def)
qed

lemma or_go_on:
  assumes "calls_keep (nav_ok mp) nc" and "good (\<lambda>r. nav_ok mp (snd r)) m"
  shows "good (nav_ok mp) (or_next_slide nc skip m)"
  unfolding or_next_slide_def using switch_good [OF assms(1)] by (intro good_andThen [OF assms(2)]) (auto intro: good_returns)

lemma effects_good:
  assumes "calls_keep (nav_ok mp) nc" and "nav_ok mp w"
  shows "good (nav_ok mp) (dispatchEffect nc w)" and "good (nav_ok mp) (skipEffect nc w)" and "good (nav_ok mp) (skipAllEffects_nav nc w)"
    and "good (nav_ok mp) (rewindEffect_nav nc w)" and "good (nav_ok mp) (rewindAllEffects_nav nc w)"
proof -
  note go_on = or_go_on [OF assms(1)] and fields = nav_ok_fields(1,3) and calls = calls_keepD [OF assms(1)]
  show "good (nav_ok mp) (dispatchEffect nc w)"
    unfolding dispatchEffect_def Let_def using assms(2) by (auto intro!: go_on calls(1,2) fields)
  show "good (nav_ok mp) (skipEffect nc w)" "good (nav_ok mp) (skipAllEffects_nav nc w)"
    unfolding skipEffect_def skipAllEffects_nav_def by (rule go_on [OF calls(2) [OF assms(2)]]) (rule go_on [OF calls(3) [OF assms(2)]])
  have last_slide: "good (\<lambda>r. nav_ok mp (snd r)) (backToLastSlide nc v)" if "nav_ok mp v" for v
    using that by (auto simp: backToLastSlide_def intro!: good_returns good_andThen [OF goto_good(2) [OF assms(1)]] split: option.split)
  show "good (nav_ok mp) (rewindEffect_nav nc w)"
    unfolding rewindEffect_nav_def using assms(2) by (intro good_andThen [OF last_slide]) (auto intro!: good_returns calls(4) fields)
  show "good (nav_ok mp) (rewindAllEffects_nav nc w)"
    unfolding rewindAllEffects_nav_def using assms(2) by (intro good_andThen [OF last_slide]) (auto intro!: good_returns calls(5))
qed

lemma rewind_slide_good:
  assumes "calls_keep (nav_ok mp) nc" and "nav_ok mp w"
  shows "good (nav_ok mp) (rewindToPreviousSlide nc w)"
  unfolding rewindToPreviousSlide_def Let_def using assms
  by (intro good_andThen [where Q = "nav_ok mp"]) (auto intro!: good_returns goto_good(1) displaySlide_good nav_ok_fields(1,2))

lemma follow_good:
  assumes "calls_keep (nav_ok mp) nc" and "nav_ok mp w"
  shows "good (nav_ok mp) (followLeaderSlide nc w)"
proof -
  note calls = calls_keepD [OF assms(1)]
  have "good (nav_ok mp) (andThen (if Some (nv_currentLeaderSlide v) = nv_currentSlide v then nc_rewindAllEffects nc v
      else displaySlide nc (Some (nv_currentLeaderSlide v)) True None v) (\<lambda>w2. nc_skipNEffects nc (nv_currentLeaderEffect w2) w2))"
    if "nav_ok mp v" for v
    using that by (intro good_andThen [where Q = "nav_ok mp"]) (auto intro!: calls(5,6) displaySlide_good [OF assms(1)])
  then show ?thesis
    unfolding followLeaderSlide_def using assms(2) by (auto intro!: good_returns good_andThen [OF calls(11)])
qed

lemma stop_following_good: "calls_keep (nav_ok mp) nc \<Longrightarrow> nav_ok mp w \<Longrightarrow> good (nav_ok mp) (stop_following nc w)"
  by (simp add: stop_following_def good_returns calls_keepD(11))

lemma interaction_good:
  assumes "calls_keep (nav_ok mp) nc" and "nav_ok mp w"
  shows "good (nav_ok mp) (onExecuteInteraction nc a w)"
  using assms
  by (auto simp: onExecuteInteraction_def intro!: effects_good switch_good goto_good quit_good good_returns split: option.split click_action.split)

lemma click_good:
  assumes "calls_keep (nav_ok mp) nc" and "nav_ok mp w"
  shows "good (nav_ok mp) (clickHandler nc button x y w)"
proof -
  have "good (nav_ok mp) (click_targets nc info x' y' v)" if "nav_ok mp v" for info x' y' v
    unfolding click_targets_def using that
    by (auto intro!: good_lift_sum interaction_good [OF assms(1)] effects_good(1) [OF assms(1)] calls_keepD(13) [OF assms(1)] nav_ok_fields(1) split: option.split)
  then show ?thesis
    unfolding clickHandler_def
    by (intro good_andThen [OF stop_following_good [OF assms]])
      (auto intro!: good_lift_sum good_returns effects_good(1) [OF assms(1)] switch_good [OF assms(1)] split: option.split prod.split)
qed

lemma input_good:
  assumes "calls_keep (nav_ok mp) nc" and "nav_ok mp w"
  shows "good (nav_ok mp) (onClick nc button x y w)" and "good (nav_ok mp) (onMouseMove nc x y w)"
    and "good (nav_ok mp) (onKeyDown nc code w)" and "good (nav_ok mp) (onSwipe nc direction w)"
proof -
  note calls = calls_keepD [OF assms]
  show "good (nav_ok mp) (onClick nc button x y w)"
    unfolding onClick_def by (auto intro!: good_returns good_lift_sum calls(14) click_good assms)
  show "good (nav_ok mp) (onMouseMove nc x y w)"
    unfolding onMouseMove_def by (auto intro!: good_returns good_lift_sum calls(15) assms split: prod.split)
  have "good (nav_ok mp) (h v)" if "(c, h) \<in> set (keyHandlerMap nc)" "nav_ok mp v" for c h v
    using that by (auto simp: keyHandlerMap_def intro: effects_good goto_good quit_good assms(1))
  then show "good (nav_ok mp) (onKeyDown nc code w)"
    unfolding onKeyDown_def
    by (auto intro!: good_returns good_andThen [OF stop_following_good [OF assms]] assms(2) dest!: map_of_SomeD split: option.split)
  show "good (nav_ok mp) (onSwipe nc direction w)"
    unfolding onSwipe_def by (cases direction) (auto intro!: good_returns effects_good quit_good assms)
qed

lemma video_good: "calls_keep (nav_ok mp) nc \<Longrightarrow> nav_ok mp w \<Longrightarrow> good (nav_ok mp) (followVideo nc i v w)"
  by (auto simp: followVideo_def intro!: good_lift_sum good_throws calls_keepD(13) split: option.split)

lemma goodD: "good (nav_ok mp) m \<Longrightarrow> m = returns w \<Longrightarrow> nav_ok mp w"
  by (simp add: good_def)

lemma nav_step_ok:
  assumes "calls_keep (nav_ok mp) nc" and "nav_step nc w w'" and "nav_ok mp w"
  shows "nav_ok mp w'"
proof -
  note rules = input_good [OF assms(1,3)] click_good [OF assms(1,3)] slide_arrives_good [OF assms(1,3)] start_good [OF assms(1,3)]
    switch_good [OF assms(1,3)] rewind_slide_good [OF assms(1,3)] follow_good [OF assms(1,3)] video_good [OF assms(1,3)] quit_good [OF assms(1,3)]
  have "nav_ok mp (resetLeaderEffect (setLeaderSlide i w))" "nav_ok mp (setLeaderEffect e w)" "nav_ok mp (enable w)" "nav_ok mp (disable w)" for i e
    using assms(3) by (simp_all add: nav_ok_def resetLeaderEffect_def setLeaderSlide_def setLeaderEffect_def enable_def disable_def)
  with assms(2) show ?thesis
    by cases (blast intro: goodD [OF rules(1)] goodD [OF rules(2)] goodD [OF rules(3)] goodD [OF rules(4)] goodD [OF rules(5)]
        goodD [OF rules(6)] goodD [OF rules(7)] goodD [OF rules(8)] goodD [OF rules(9)] goodD [OF rules(10)] goodD [OF rules(11)]
        goodD [OF rules(12)])+
qed

text \<open>
  C4. Whatever keys, clicks, swipes, timers, messages of the leader and slides that arrive there
  are, in any order, the current slide is never a hidden one, nor is the previous one or the one
  that is waited for; an index outside the presentation only stands for its end.
\<close>

theorem no_hidden_slide_shown:
  assumes "calls_keep (nav_ok mp) nc" and "nav_reachable nc mp w"
  shows "(\<forall>c. nv_currentSlide w = Some c \<longrightarrow> 0 \<le> c \<and> (c < mp_numberOfSlides mp \<longrightarrow> ready mp c)) \<and>
    (\<forall>p. nv_prevSlide w = Some p \<longrightarrow> 0 \<le> p \<and> p < mp_numberOfSlides mp \<and> ready mp p) \<and>
    (\<forall>cb. nv_onGotSlideCallback w = Some cb \<longrightarrow> ready mp (fc_nNewSlide cb))"
proof -
  from assms(2) have "nav_ok mp w"
  proof (induction rule: nav_reachable.induct)
    case (start leader r)
    show ?case by (simp add: nav_ok_def new_SlideShowNavigator_def)
  next
    case (step w w')
    then show ?case using nav_step_ok [OF assms(1)] by blast
  qed
  then show ?thesis by (simp add: nav_ok_def)
qed

lemma nav_ok_rest: "nav_ok mp (w\<lparr>nv_rest := r\<rparr>) \<longleftrightarrow> nav_ok mp w"
  by (simp add: nav_ok_def)

lemma sample_calls_keep: "calls_keep (nav_ok mp) sample_nc"
  by (simp add: calls_keep_def sample_nc_def good_returns nav_ok_rest)

theorem no_hidden_slide_shown_witness:
  "\<exists>w. nav_reachable sample_nc sample_pres w \<and> nv_currentSlide w = Some 2 \<and> ready sample_pres 2"
proof -
  let ?w = "new_SlideShowNavigator sample_pres True ([], 0, True)"
  let ?v = "(nc_setStarting sample_nc ?w)\<lparr>nv_isRewindingToPrevSlide := False, nv_currentSlide := None, nv_prevSlide := None\<rparr>"
  have none: "nv_currentSlide ?v = None" "nv_theMetaPres ?v = sample_pres"
    by (simp_all add: sample_nc_def new_SlideShowNavigator_def)
  obtain m where "startPresentation sample_nc 1 True None ?w = landed sample_nc 1 1 True None m ?v"
    unfolding startPresentation_def using displaySlide_walk [OF sample_presenting, of ?v 1 1 True None] none sample_ready
    by (auto simp: slide_offset_def)
  then obtain w' where w': "startPresentation sample_nc 1 True None ?w = returns w'" "nv_currentSlide w' = Some 2"
    using sample_ready none by (simp add: landed_def fetchAndRun_def slide_arrives_def fetched_def sample_nc_def new_SlideShowNavigator_def Let_def returns_def)
  have "nav_reachable sample_nc sample_pres w'"
    by (rule nav_reachable.step [OF nav_reachable.start [of sample_nc sample_pres True "([], 0, True)"]]) (rule nav_step.begin_show [OF w'(1)])
  then show ?thesis
    using no_hidden_slide_shown [OF sample_calls_keep [of sample_pres], of w'] w'(2) sample_ready(2) by auto
qed

end
