(* ===== verification/Slide_Handler.thy ===== *)
theory Slide_Handler
  imports Event_Multiplexer Slide_Navigator
begin

section \<open>The handler of the slide show\<close>

text \<open>
  \<open>SlideShowHandler.ts\<close>, \<open>Effect.ts\<close>, \<open>FrameSynchronization.ts\<close> and \<open>InteractiveAnimationSequence.ts\<close> of
  \<open>browser/src/slideshow/engine/\<close>: the frame loop over the queues of \<open>Slide_Events\<close>, the effects that were
  started, skipping and rewinding them, and the transition from slide to slide.

  The handler is the part \<open>mx_rest\<close> of the state, so that the multiplexer of the current slide is \<open>sh_rest\<close>.
  The context keeps its references to the multiplexer and to the array of the next effects when \<open>dispose\<close>
  sets those of the handler to null; whether they are null is \<open>hd_bHasMultiplexer\<close> and \<open>hd_bHasEffectArray\<close>.
  The objects of other slides are kept by their animations. Timeouts of the browser are in the state
  (\<open>hd_timeouts\<close>). What the handler calls of other objects is \<open>sc_call\<close>, which may change the whole state and
  call the handler in turn; \<open>run\<close> calls the functions that events and handlers are made of. An exception
  carries no state, so what an exception of a frame leaves that \<open>displaySlide\<close> catches is \<open>sc_caught\<close>.
\<close>

subsection \<open>Effects\<close>

datatype effect_state = NotStarted | Playing | Effect_Ended

record effect =
  ef_nId :: int
  ef_eState :: effect_state

definition new_Effect :: "int \<Rightarrow> effect" where
  "new_Effect nId = \<lparr>ef_nId = nId, ef_eState = NotStarted\<rparr>"

definition isMainEffect :: "effect \<Rightarrow> bool" where
  "isMainEffect e \<longleftrightarrow> ef_nId e = -1"

definition isPlaying :: "effect \<Rightarrow> bool" where
  "isPlaying e \<longleftrightarrow> ef_eState e = Playing"

definition isEnded :: "effect \<Rightarrow> bool" where
  "isEnded e \<longleftrightarrow> ef_eState e = Effect_Ended"

definition effect_start :: "effect \<Rightarrow> js_error + effect" where
  "effect_start e =
     (if ef_eState e = NotStarted then Inr (e\<lparr>ef_eState := Playing\<rparr>) else Inl (ErrorMsg ''Effect.start: wrong state.''))"

definition effect_end :: "effect \<Rightarrow> js_error + effect" where
  "effect_end e =
     (if ef_eState e = Playing then Inr (e\<lparr>ef_eState := Effect_Ended\<rparr>) else Inl (ErrorMsg ''Effect.end: wrong state.''))"

subsection \<open>State\<close>

text \<open>The functions of the handler that are bound to events, handlers and timeouts; \<open>'g\<close> are those of others.\<close>

datatype 'g handler_fn =
    Fn_notifyNextEffectEnd | Fn_notifyAnimationsEnd | Fn_notifyTransitionEnd int "int option"
  | Fn_sequenceStart nat | Fn_sequenceEnd nat | Fn_other 'g

datatype timeout_call = TO_update | TO_switchSlide int bool | TO_a11y string

record show_timeout =
  to_id :: nat
  to_call :: timeout_call
  to_delay :: num

text \<open>The number of a timeout, or an object that remembers the effect that was current when it was cancelled.\<close>

datatype advance_timeout = Adv_null | Adv_timeout nat | Adv_rewinded int

record frame_sync =
  fs_nFrameDuration :: num
  fs_aTimer :: nat
  fs_nNextFrameTargetTime :: num
  fs_bIsActive :: bool

record inter_sequence =
  is_bIsRunning :: bool
  is_aStartEvent :: "nat option"
  is_aEndEvent :: "nat option"

record 'y handler =
  hd_theMetaPres :: meta_pres
  hd_aFrameSynchronization :: frame_sync
  hd_aNextEffectEventArray :: "nat list"
  hd_bHasEffectArray :: bool
  hd_bHasMultiplexer :: bool
  hd_aInteractiveAnimationSequenceMap :: "nat \<rightharpoonup> inter_sequence"
  hd_bIsIdle :: bool
  hd_bIsEnabled :: bool
  hd_bIsTransitionRunning :: bool
  hd_nCurrentEffect :: int
  hd_bIsNextEffectRunning :: bool
  hd_bIsRewinding :: bool
  hd_bIsSkipping :: bool
  hd_bIsSkippingAll :: bool
  hd_nTotalInteractivePlayingEffects :: int
  hd_aStartedEffectList :: "effect list"
  hd_aStartedEffectIndexMap :: "int \<rightharpoonup> nat"
  hd_automaticAdvanceTimeout :: advance_timeout
  hd_enteringSlideTexture :: "nat option"
  hd_isStarting :: bool
  hd_bIsFirstAutoEffectRunning :: bool
  hd_nEventId :: nat
  hd_nTimeoutId :: nat
  hd_timeouts :: "show_timeout list"
  hd_rest :: 'y

type_synonym ('g, 'a, 'e, 'c, 'y) hd_show = "('g handler_fn, 'a, 'e, 'c, 'y handler) mx_show"

abbreviation hd_of :: "('g, 'a, 'e, 'c, 'y) hd_show \<Rightarrow> 'y handler" where
  "hd_of w \<equiv> mx_rest (sh_rest w)"

abbreviation set_hd :: "('y handler \<Rightarrow> 'y handler) \<Rightarrow> ('g, 'a, 'e, 'c, 'y) hd_show \<Rightarrow> ('g, 'a, 'e, 'c, 'y) hd_show" where
  "set_hd f w \<equiv> set_mx (mx_rest_update f) w"

text \<open>What the handler calls of the other objects.\<close>

datatype show_effect =
    A11y string | SendFollowEffect int | PauseVideos "string option" | HideSlide int
  | CompositorTransitionStart | CompositorTransitionEnd "string option" | FireTransitionStart int | FireTransitionEnd int
  | PresentSlide int | StopLoader | ElementNextEffectStart nat int | ElementSlideEnd nat | ElementSlideStart nat
  | AnimationsStart string | AnimationsEnd string bool | RewindToPreviousSlide | SwitchSlide int bool | SetCursor string

text \<open>
  \<open>sc_elements\<close> are the animated elements of a slide that has animations; \<open>sc_createTransition\<close> makes the
  parameters and the activity of a transition whose end event is given: \<open>Inl\<close> when it throws.
\<close>

record ('a, 'w) show_calls =
  sc_call :: "show_effect \<Rightarrow> 'w \<Rightarrow> 'w outcome"
  sc_enableA11y :: bool
  sc_currentSlideIndex :: "'w \<Rightarrow> int option"
  sc_elements :: "string \<Rightarrow> 'w \<Rightarrow> nat list option"
  sc_elementTitle :: "nat \<Rightarrow> string"
  sc_elementsParsed :: "string \<Rightarrow> 'w \<Rightarrow> bool"
  sc_isAnimated :: "string \<Rightarrow> 'w \<Rightarrow> bool"
  sc_checkAlreadyPresenting :: "'w \<Rightarrow> bool"
  sc_isGlSupported :: "'w \<Rightarrow> bool"
  sc_transitionValid :: "string \<Rightarrow> bool"
  sc_createTransition :: "int \<Rightarrow> int option \<Rightarrow> nat \<Rightarrow> 'w \<Rightarrow> (unit + nat option \<times> 'a option) \<times> 'w"
  sc_caught :: "'w \<Rightarrow> 'w"
  sc_tick :: "num \<Rightarrow> num"

definition new_event :: "'g handler_fn \<Rightarrow> ('g, 'a, 'e, 'c, 'y) hd_show \<Rightarrow> nat \<times> ('g, 'a, 'e, 'c, 'y) hd_show" where
  "new_event f w =
     (let i = Suc (hd_nEventId (hd_of w))
      in (i, set_hd (hd_nEventId_update (\<lambda>_. i)) (w\<lparr>sh_events := (sh_events w)(i \<mapsto> makeEvent f)\<rparr>)))"

definition setTimeout_show ::
    "timeout_call \<Rightarrow> num \<Rightarrow> ('g, 'a, 'e, 'c, 'y) hd_show \<Rightarrow> nat \<times> ('g, 'a, 'e, 'c, 'y) hd_show" where
  "setTimeout_show c ms w =
     (let i = Suc (hd_nTimeoutId (hd_of w))
      in (i, set_hd (\<lambda>h. h\<lparr>hd_nTimeoutId := i, hd_timeouts := hd_timeouts h @ [\<lparr>to_id = i, to_call = c, to_delay = ms\<rparr>]\<rparr>) w))"

definition clearTimeout_show :: "nat \<Rightarrow> ('g, 'a, 'e, 'c, 'y) hd_show \<Rightarrow> ('g, 'a, 'e, 'c, 'y) hd_show" where
  "clearTimeout_show i w = set_hd (hd_timeouts_update (filter (\<lambda>t. to_id t \<noteq> i))) w"

text \<open>Clearing what \<open>automaticAdvanceTimeout\<close> holds: an object is the number of no timeout.\<close>

definition clear_advance :: "('g, 'a, 'e, 'c, 'y) hd_show \<Rightarrow> ('g, 'a, 'e, 'c, 'y) hd_show" where
  "clear_advance w =
     (case hd_automaticAdvanceTimeout (hd_of w) of Adv_timeout i \<Rightarrow> clearTimeout_show i w | _ \<Rightarrow> w)"

definition addA11yString ::
    "('a, ('g, 'a, 'e, 'c, 'y) hd_show) show_calls \<Rightarrow> string \<Rightarrow> ('g, 'a, 'e, 'c, 'y) hd_show \<Rightarrow> ('g, 'a, 'e, 'c, 'y) hd_show outcome" where
  "addA11yString sc s w = (if sc_enableA11y sc then sc_call sc (A11y s) w else returns w)"

text \<open>Using the multiplexer of the handler, which is null after \<open>dispose\<close>.\<close>

definition with_multiplexer ::
    "(('g, 'a, 'e, 'c, 'y) hd_show \<Rightarrow> 'v outcome) \<Rightarrow> ('g, 'a, 'e, 'c, 'y) hd_show \<Rightarrow> 'v outcome" where
  "with_multiplexer k w = (if hd_bHasMultiplexer (hd_of w) then k w else throws TypeError)"

definition js_assert :: "bool \<Rightarrow> string \<Rightarrow> 'v outcome \<Rightarrow> 'v outcome" where
  "js_assert b msg k = (if b then k else throws (ErrorMsg msg))"

subsection \<open>Frames\<close>

definition markCurrentFrame :: "('g, 'a, 'e, 'c, 'y) hd_show \<Rightarrow> ('g, 'a, 'e, 'c, 'y) hd_show outcome" where
  "markCurrentFrame w =
     andThen (read_timer (fs_aTimer (hd_aFrameSynchronization (hd_of w))) w) (\<lambda>(now, w1).
       returns (set_hd (hd_aFrameSynchronization_update (\<lambda>fs.
         fs\<lparr>fs_nNextFrameTargetTime := now + fs_nFrameDuration fs\<rparr>)) w1))"

text \<open>Busy waiting: the clock goes on with every reading, by \<open>tick\<close>.\<close>

partial_function (option) busy_wait ::
    "(num \<Rightarrow> num) \<Rightarrow> ('g, 'a, 'e, 'c, 'y) hd_show \<Rightarrow> ('g, 'a, 'e, 'c, 'y) hd_show outcome" where
  [code]: "busy_wait tick w =
     Option.bind (read_timer (fs_aTimer (hd_aFrameSynchronization (hd_of w))) w) (\<lambda>r.
       case r of
         Inl e \<Rightarrow> Some (Inl e)
       | Inr v \<Rightarrow>
           if fst v < fs_nNextFrameTargetTime (hd_aFrameSynchronization (hd_of (snd v)))
           then busy_wait tick ((snd v)\<lparr>sh_clock := tick (sh_clock (snd v))\<rparr>)
           else Some (Inr (snd v)))"

definition synchronize ::
    "(num \<Rightarrow> num) \<Rightarrow> ('g, 'a, 'e, 'c, 'y) hd_show \<Rightarrow> ('g, 'a, 'e, 'c, 'y) hd_show outcome" where
  "synchronize tick w =
     andThen (if fs_bIsActive (hd_aFrameSynchronization (hd_of w)) then busy_wait tick w else returns w) markCurrentFrame"

abbreviation set_frame_active :: "bool \<Rightarrow> ('g, 'a, 'e, 'c, 'y) hd_show \<Rightarrow> ('g, 'a, 'e, 'c, 'y) hd_show" where
  "set_frame_active b w \<equiv> set_hd (hd_aFrameSynchronization_update (fs_bIsActive_update (\<lambda>_. b))) w"

definition MINIMUM_TIMEOUT :: num where
  "MINIMUM_TIMEOUT = 1 / 120"

definition MAXIMUM_TIMEOUT :: num where
  "MAXIMUM_TIMEOUT = 4"

definition PREFERRED_FRAME_RATE :: num where
  "PREFERRED_FRAME_RATE = 1 / 60"

definition hold_show :: "('f, 'a, 'x) show_state \<Rightarrow> ('f, 'a, 'x) show_state outcome" where
  "hold_show w = map_option (\<lambda>h. Inr (w\<lparr>sh_timers := h\<rparr>)) (holdTimer (sh_timers w) (sh_clock w) (sh_aTimer w))"

definition release_show :: "('f, 'a, 'x) show_state \<Rightarrow> ('f, 'a, 'x) show_state outcome" where
  "release_show w = map_option (\<lambda>h. Inr (w\<lparr>sh_timers := h\<rparr>)) (releaseTimer (sh_timers w) (sh_aTimer w))"

text \<open>The end of \<open>update\<close>: the next frame.\<close>

definition schedule_update :: "('g, 'a, 'e, 'c, 'y) hd_show \<Rightarrow> ('g, 'a, 'e, 'c, 'y) hd_show outcome" where
  "schedule_update w =
     (let bActivitiesLeft = \<not> no_activities w; bTimerEventsLeft = \<not> pq_isEmpty (sh_queue w)
      in if bActivitiesLeft \<or> bTimerEventsLeft
         then andThen (if bActivitiesLeft then returns (MINIMUM_TIMEOUT, set_frame_active True w)
                       else andThen (nextTimeout w) (\<lambda>(n, w1).
                              returns (if n < MINIMUM_TIMEOUT then MINIMUM_TIMEOUT
                                       else if n > MAXIMUM_TIMEOUT then MAXIMUM_TIMEOUT else n, set_frame_active False w1)))
                (\<lambda>(nNextTimeout, w2).
                   returns (snd (setTimeout_show TO_update (nNextTimeout * 1000) (set_hd (hd_bIsIdle_update (\<lambda>_. False)) w2))))
         else returns (set_hd (hd_bIsIdle_update (\<lambda>_. True)) w))"

definition update_show ::
    "('a, ('g, 'a, 'e, 'c, 'y) hd_show) show_calls \<Rightarrow> ('a, ('g, 'a, 'e, 'c, 'y) hd_show) activity_methods \<Rightarrow>
     ('g handler_fn \<Rightarrow> ('g, 'a, 'e, 'c, 'y) hd_show \<Rightarrow> ('g, 'a, 'e, 'c, 'y) hd_show outcome) \<Rightarrow>
     ('g, 'a, 'e, 'c, 'y) hd_show \<Rightarrow> ('g, 'a, 'e, 'c, 'y) hd_show outcome" where
  "update_show sc am run w =
     andThen (hold_show w) (\<lambda>w1.
     andThen (process_events run w1) (\<lambda>w2.
     andThen (process_activities am w2) (\<lambda>w3.
     andThen (if \<not> hd_bIsTransitionRunning (hd_of w3) then synchronize (sc_tick sc) w3 else returns w3) (\<lambda>w4.
     andThen (processDequeued am w4) (\<lambda>w5.
     andThen (release_show w5) schedule_update)))))"

definition dispose_show ::
    "('a, ('g, 'a, 'e, 'c, 'y) hd_show) activity_methods \<Rightarrow> ('g, 'a, 'e, 'c, 'y) hd_show \<Rightarrow> ('g, 'a, 'e, 'c, 'y) hd_show outcome" where
  "dispose_show am w =
     andThen (clear_activities am (clear_events w)) (\<lambda>w1.
       returns (set_hd (\<lambda>h. h\<lparr>hd_bHasEffectArray := False, hd_bHasMultiplexer := False, hd_automaticAdvanceTimeout := Adv_null\<rparr>) w1))"

text \<open>
  The constructor: the show has two timers of its own, the one of the queues and the one of the frames;
  \<open>getElapsedTime\<close> of a new timer is zero.
\<close>

definition new_handler :: "meta_pres \<Rightarrow> nat \<Rightarrow> nat \<Rightarrow> 'y \<Rightarrow> 'y handler" where
  "new_handler mp aFrameTimer nEventId r =
     \<lparr>hd_theMetaPres = mp,
      hd_aFrameSynchronization = \<lparr>fs_nFrameDuration = PREFERRED_FRAME_RATE, fs_aTimer = aFrameTimer,
        fs_nNextFrameTargetTime = PREFERRED_FRAME_RATE, fs_bIsActive = False\<rparr>,
      hd_aNextEffectEventArray = [], hd_bHasEffectArray = False, hd_bHasMultiplexer = False,
      hd_aInteractiveAnimationSequenceMap = Map.empty, hd_bIsIdle = True, hd_bIsEnabled = True,
      hd_bIsTransitionRunning = False, hd_nCurrentEffect = 0, hd_bIsNextEffectRunning = False, hd_bIsRewinding = False,
      hd_bIsSkipping = False, hd_bIsSkippingAll = False, hd_nTotalInteractivePlayingEffects = 0,
      hd_aStartedEffectList = [], hd_aStartedEffectIndexMap = Map.empty, hd_automaticAdvanceTimeout = Adv_null,
      hd_enteringSlideTexture = None, hd_isStarting = False, hd_bIsFirstAutoEffectRunning = False,
      hd_nEventId = nEventId, hd_nTimeoutId = 0, hd_timeouts = [], hd_rest = r\<rparr>"

text \<open>\<open>setSlideEvents\<close>: the objects of a slide become those of the handler and of the context.\<close>

definition setSlideEvents ::
    "nat list \<Rightarrow> (nat \<rightharpoonup> inter_sequence) \<Rightarrow> ('g handler_fn, 'e, 'c, unit) multiplexer \<Rightarrow>
     ('g, 'a, 'e, 'c, 'y) hd_show \<Rightarrow> ('g, 'a, 'e, 'c, 'y) hd_show" where
  "setSlideEvents arr seqs mx w =
     w\<lparr>sh_rest := \<lparr>mx_nId = mx_nId mx, mx_aEventMap = mx_aEventMap mx, mx_aAnimationsEndHandler = mx_aAnimationsEndHandler mx,
       mx_aSkipEffectEndHandlerSet = mx_aSkipEffectEndHandlerSet mx, mx_aMouseClickHandlerSet = mx_aMouseClickHandlerSet mx,
       mx_aSkipEffectEvent = mx_aSkipEffectEvent mx, mx_aRewindCurrentEffectEvent = mx_aRewindCurrentEffectEvent mx,
       mx_aRewindLastEffectEvent = mx_aRewindLastEffectEvent mx,
       mx_aSkipInteractiveEffectEventSet = mx_aSkipInteractiveEffectEventSet mx,
       mx_aRewindRunningInteractiveEffectEventSet = mx_aRewindRunningInteractiveEffectEventSet mx,
       mx_aRewindEndedInteractiveEffectEventSet = mx_aRewindEndedInteractiveEffectEventSet mx,
       mx_aRewindedEffectHandlerSet = mx_aRewindedEffectHandlerSet mx,
       mx_aElementChangedHandlerSet = mx_aElementChangedHandlerSet mx,
       mx_rest = (hd_of w)\<lparr>hd_aNextEffectEventArray := arr, hd_bHasEffectArray := True, hd_bHasMultiplexer := True,
         hd_aInteractiveAnimationSequenceMap := seqs, hd_nCurrentEffect := 0\<rparr>\<rparr>\<rparr>"

subsection \<open>Interactive sequences\<close>

definition isInteractiveEffectPlaying :: "('g, 'a, 'e, 'c, 'y) hd_show \<Rightarrow> bool" where
  "isInteractiveEffectPlaying w \<longleftrightarrow> hd_nTotalInteractivePlayingEffects (hd_of w) > 0"

definition isAnyEffectPlaying :: "('g, 'a, 'e, 'c, 'y) hd_show \<Rightarrow> bool" where
  "isAnyEffectPlaying w \<longleftrightarrow> hd_bIsNextEffectRunning (hd_of w) \<or> isInteractiveEffectPlaying w"

definition hasAnyEffectStarted :: "('g, 'a, 'e, 'c, 'y) hd_show \<Rightarrow> bool" where
  "hasAnyEffectStarted w \<longleftrightarrow> length (hd_aStartedEffectList (hd_of w)) > 0"

text \<open>The ids of nodes are numbers from 1 on; the id of an effect of the main sequence is -1. A new effect is started and appended, with its place remembered under its id.\<close>

definition push_effect :: "int \<Rightarrow> ('g, 'a, 'e, 'c, 'y) hd_show \<Rightarrow> ('g, 'a, 'e, 'c, 'y) hd_show outcome" where
  "push_effect nId w =
     lift_sum (effect_start (new_Effect nId)) (\<lambda>aEffect.
       returns (set_hd (\<lambda>h. h\<lparr>hd_aStartedEffectIndexMap := (hd_aStartedEffectIndexMap h)(nId \<mapsto> length (hd_aStartedEffectList h)),
         hd_aStartedEffectList := hd_aStartedEffectList h @ [aEffect]\<rparr>) w))"

definition end_effect :: "int \<Rightarrow> ('g, 'a, 'e, 'c, 'y) hd_show \<Rightarrow> ('g, 'a, 'e, 'c, 'y) hd_show outcome" where
  "end_effect nId w =
     (case hd_aStartedEffectIndexMap (hd_of w) nId of
        None \<Rightarrow> returns w
      | Some i \<Rightarrow>
          (case js_nth (hd_aStartedEffectList (hd_of w)) (int i) of
             None \<Rightarrow> returns w
           | Some aEffect \<Rightarrow>
               lift_sum (effect_end aEffect) (\<lambda>e. returns (set_hd (hd_aStartedEffectList_update (\<lambda>es. es[i := e])) w))))"

definition notifyInteractiveAnimationSequenceStart ::
    "nat \<Rightarrow> ('g, 'a, 'e, 'c, 'y) hd_show \<Rightarrow> ('g, 'a, 'e, 'c, 'y) hd_show outcome" where
  "notifyInteractiveAnimationSequenceStart nNodeId w =
     push_effect (int nNodeId) (set_hd (hd_nTotalInteractivePlayingEffects_update (\<lambda>n. n + 1)) w)"

definition notifyInteractiveAnimationSequenceEnd ::
    "nat \<Rightarrow> ('g, 'a, 'e, 'c, 'y) hd_show \<Rightarrow> ('g, 'a, 'e, 'c, 'y) hd_show outcome" where
  "notifyInteractiveAnimationSequenceEnd nNodeId w =
     js_assert (isInteractiveEffectPlaying w)
       ''SlideShow.notifyInteractiveAnimationSequenceEnd: no interactive effect playing.''
       (andThen (end_effect (int nNodeId) w) (\<lambda>w1.
          returns (set_hd (hd_nTotalInteractivePlayingEffects_update (\<lambda>n. n - 1)) w1)))"

abbreviation set_running :: "nat \<Rightarrow> bool \<Rightarrow> ('g, 'a, 'e, 'c, 'y) hd_show \<Rightarrow> ('g, 'a, 'e, 'c, 'y) hd_show" where
  "set_running nId b w \<equiv> set_hd (hd_aInteractiveAnimationSequenceMap_update (\<lambda>m.
     m(nId := map_option (is_bIsRunning_update (\<lambda>_. b)) (m nId)))) w"

definition sequence_start :: "nat \<Rightarrow> ('g, 'a, 'e, 'c, 'y) hd_show \<Rightarrow> ('g, 'a, 'e, 'c, 'y) hd_show outcome" where
  "sequence_start nId w = andThen (notifyInteractiveAnimationSequenceStart nId w) (\<lambda>w1. returns (set_running nId True w1))"

definition sequence_end :: "nat \<Rightarrow> ('g, 'a, 'e, 'c, 'y) hd_show \<Rightarrow> ('g, 'a, 'e, 'c, 'y) hd_show outcome" where
  "sequence_end nId w = andThen (notifyInteractiveAnimationSequenceEnd nId w) (\<lambda>w1. returns (set_running nId False w1))"

definition getStartEvent ::
    "nat \<Rightarrow> inter_sequence \<Rightarrow> ('g, 'a, 'e, 'c, 'y) hd_show \<Rightarrow> nat \<times> inter_sequence \<times> ('g, 'a, 'e, 'c, 'y) hd_show" where
  "getStartEvent nId s w =
     (case is_aStartEvent s of
        Some i \<Rightarrow> (i, s, w)
      | None \<Rightarrow> (let (i, w1) = new_event (Fn_sequenceStart nId) w in (i, s\<lparr>is_aStartEvent := Some i\<rparr>, w1)))"

definition getEndEvent ::
    "nat \<Rightarrow> inter_sequence \<Rightarrow> ('g, 'a, 'e, 'c, 'y) hd_show \<Rightarrow> nat \<times> inter_sequence \<times> ('g, 'a, 'e, 'c, 'y) hd_show" where
  "getEndEvent nId s w =
     (case is_aEndEvent s of
        Some i \<Rightarrow> (i, s, w)
      | None \<Rightarrow> (let (i, w1) = new_event (Fn_sequenceEnd nId) w in (i, s\<lparr>is_aEndEvent := Some i\<rparr>, w1)))"

definition charge_at :: "nat option \<Rightarrow> ('f, 'a, 'x) show_state \<Rightarrow> ('f, 'a, 'x) show_state" where
  "charge_at e w =
     (case e of None \<Rightarrow> w | Some i \<Rightarrow> w\<lparr>sh_events := (sh_events w)(i := map_option charge (sh_events w i))\<rparr>)"

definition chargeEvents :: "inter_sequence \<Rightarrow> ('f, 'a, 'x) show_state \<Rightarrow> ('f, 'a, 'x) show_state" where
  "chargeEvents s w = charge_at (is_aEndEvent s) (charge_at (is_aStartEvent s) w)"

subsection \<open>Starting and ending the next effect\<close>

definition currentSlideHash ::
    "('a, ('g, 'a, 'e, 'c, 'y) hd_show) show_calls \<Rightarrow> ('g, 'a, 'e, 'c, 'y) hd_show \<Rightarrow> js_error + string option" where
  "currentSlideHash sc w = getSlideHash (sc_currentSlideIndex sc w) (hd_theMetaPres (hd_of w))"

text \<open>The animated elements of a slide; \<open>None\<close> when there is no slide or it has no animations.\<close>

definition slide_elements ::
    "('a, ('g, 'a, 'e, 'c, 'y) hd_show) show_calls \<Rightarrow> slide_info option \<Rightarrow> ('g, 'a, 'e, 'c, 'y) hd_show \<Rightarrow> nat list" where
  "slide_elements sc s w =
     (case s of None \<Rightarrow> [] | Some info \<Rightarrow> (case sc_elements sc (si_hash info) w of None \<Rightarrow> [] | Some es \<Rightarrow> es))"

fun each_element :: "(nat \<Rightarrow> 'w \<Rightarrow> 'w outcome) \<Rightarrow> nat list \<Rightarrow> 'w \<Rightarrow> 'w outcome" where
  "each_element f [] w = returns w"
| "each_element f (e # es) w = andThen (f e w) (each_element f es)"

fun start_elements ::
    "('a, ('g, 'a, 'e, 'c, 'y) hd_show) show_calls \<Rightarrow> int \<Rightarrow> int \<Rightarrow> nat list \<Rightarrow>
     ('g, 'a, 'e, 'c, 'y) hd_show \<Rightarrow> ('g, 'a, 'e, 'c, 'y) hd_show outcome" where
  "start_elements sc currentEffect k [] w = returns w"
| "start_elements sc currentEffect k (e # es) w =
     andThen (sc_call sc (ElementNextEffectStart e currentEffect) w) (\<lambda>w1.
       start_elements sc currentEffect (k + 1) es
         (if k = currentEffect
          then snd (setTimeout_show (TO_a11y (''Animation Start: '' @ sc_elementTitle sc e)) 500 w1) else w1))"

definition notifyNextEffectStart ::
    "('a, ('g, 'a, 'e, 'c, 'y) hd_show) show_calls \<Rightarrow> ('g, 'a, 'e, 'c, 'y) hd_show \<Rightarrow> ('g, 'a, 'e, 'c, 'y) hd_show outcome" where
  "notifyNextEffectStart sc w =
     js_assert (\<not> hd_bIsNextEffectRunning (hd_of w)) ''SlideShowHandler.notifyNextEffectStart: an effect is already started.''
       (with_multiplexer (\<lambda>w0.
        andThen (registerNextEffectEndHandler Fn_notifyNextEffectEnd w0) (\<lambda>w1.
        andThen (push_effect (-1) w1) (\<lambda>w2.
        lift_sum (currentSlideHash sc w2) (\<lambda>h.
        lift_sum (getMetaSlide h (hd_theMetaPres (hd_of w2))) (\<lambda>s.
          start_elements sc (hd_nCurrentEffect (hd_of w2)) 0 (slide_elements sc s w2) w2)))))
       (set_hd (hd_bIsNextEffectRunning_update (\<lambda>_. True)) w))"

text \<open>A slide without information, or without a duration, does not advance by itself.\<close>

definition notifyAnimationsEnd ::
    "('a, ('g, 'a, 'e, 'c, 'y) hd_show) show_calls \<Rightarrow> ('g, 'a, 'e, 'c, 'y) hd_show \<Rightarrow> ('g, 'a, 'e, 'c, 'y) hd_show outcome" where
  "notifyAnimationsEnd sc w =
     lift_sum (currentSlideHash sc w) (\<lambda>h.
       if h = mp_lastSlideHash (hd_theMetaPres (hd_of w)) then returns w
       else js_assert (hd_automaticAdvanceTimeout (hd_of w) = Adv_null) ''SlideShow.notifyAnimationsEnd: Timeout already set.''
         (lift_sum (getSlideInfo h (hd_theMetaPres (hd_of w))) (\<lambda>info.
            case Option.bind info si_nextSlideDuration of
              None \<Rightarrow> returns w
            | Some d \<Rightarrow>
                if d > 0 then (let (i, w1) = setTimeout_show (TO_switchSlide 1 False) d w
                               in returns (set_hd (hd_automaticAdvanceTimeout_update (\<lambda>_. Adv_timeout i)) w1))
                else returns w)))"

definition notifyNextEffectEnd ::
    "('a, ('g, 'a, 'e, 'c, 'y) hd_show) show_calls \<Rightarrow> ('g, 'a, 'e, 'c, 'y) hd_show \<Rightarrow> ('g, 'a, 'e, 'c, 'y) hd_show outcome" where
  "notifyNextEffectEnd sc w =
     js_assert (hd_bIsNextEffectRunning (hd_of w)) ''SlideShow.notifyNextEffectEnd: effect already ended.''
       (andThen (end_effect (-1) (set_hd (hd_bIsNextEffectRunning_update (\<lambda>_. False)) w)) (\<lambda>w1.
          if hd_automaticAdvanceTimeout (hd_of w1) = Adv_rewinded (hd_nCurrentEffect (hd_of w1))
          then notifyAnimationsEnd sc (set_hd (hd_automaticAdvanceTimeout_update (\<lambda>_. Adv_null)) w1)
          else returns w1))"

subsection \<open>The start of a slide\<close>

definition notifySlideStart ::
    "('a, ('g, 'a, 'e, 'c, 'y) hd_show) show_calls \<Rightarrow> int \<Rightarrow> int option \<Rightarrow>
     ('g, 'a, 'e, 'c, 'y) hd_show \<Rightarrow> ('g, 'a, 'e, 'c, 'y) hd_show outcome" where
  "notifySlideStart sc nNewSlideIndex nOldSlideIndex w =
     (let w0 = set_hd (\<lambda>h. h\<lparr>hd_nCurrentEffect := 0, hd_bIsRewinding := False, hd_bIsSkipping := False, hd_bIsSkippingAll := False,
                  hd_nTotalInteractivePlayingEffects := 0, hd_aStartedEffectList := [], hd_aStartedEffectIndexMap := Map.empty\<rparr>) w
      in andThen (case nOldSlideIndex of
                    None \<Rightarrow> returns w0
                  | Some old \<Rightarrow> lift_sum (getMetaSlideByIndex (Some old) (hd_theMetaPres (hd_of w0))) (\<lambda>s.
                      each_element (\<lambda>e. sc_call sc (ElementSlideEnd e)) (slide_elements sc s w0) w0)) (\<lambda>w1.
         lift_sum (getMetaSlideByIndex (Some nNewSlideIndex) (hd_theMetaPres (hd_of w1))) (\<lambda>s.
         andThen (each_element (\<lambda>e. sc_call sc (ElementSlideStart e)) (slide_elements sc s w1) w1) (\<lambda>w2.
         andThen (sc_call sc CompositorTransitionStart w2) (\<lambda>w3.
         andThen (sc_call sc (FireTransitionStart nNewSlideIndex) w3) (\<lambda>w4.
         lift_sum (getSlideInfoByIndex (Some nNewSlideIndex) (hd_theMetaPres (hd_of w4))) (\<lambda>info.
           case info of
             None \<Rightarrow> throws TypeError
           | Some slideInfo \<Rightarrow>
               (case si_transitionLabel slideInfo of
                  None \<Rightarrow> returns w4
                | Some l \<Rightarrow>
                    returns (if l = [] then w4 else snd (setTimeout_show (TO_a11y (''Transition Start: '' @ l)) 500 w4))))))))))"

text \<open>The end of a transition, in parts: starting the animations of the slide, presenting the slide.\<close>

definition start_animations ::
    "('a, ('g, 'a, 'e, 'c, 'y) hd_show) show_calls \<Rightarrow> slide_info option \<Rightarrow>
     ('g, 'a, 'e, 'c, 'y) hd_show \<Rightarrow> ('g, 'a, 'e, 'c, 'y) hd_show outcome" where
  "start_animations sc aCurrentSlide w =
     (case aCurrentSlide of
        None \<Rightarrow> notifyAnimationsEnd sc w
      | Some cur \<Rightarrow>
          if sc_elements sc (si_hash cur) w \<noteq> None \<and> sc_elementsParsed sc (si_hash cur) w
          then andThen (sc_call sc (AnimationsStart (si_hash cur)) w)
                 (with_multiplexer (\<lambda>w1. returns (registerAnimationsEndHandler (Some Fn_notifyAnimationsEnd) w1)))
          else notifyAnimationsEnd sc w)"

definition transition_shown ::
    "('a, ('g, 'a, 'e, 'c, 'y) hd_show) show_calls \<Rightarrow> ('a, ('g, 'a, 'e, 'c, 'y) hd_show) activity_methods \<Rightarrow>
     ('g handler_fn \<Rightarrow> ('g, 'a, 'e, 'c, 'y) hd_show \<Rightarrow> ('g, 'a, 'e, 'c, 'y) hd_show outcome) \<Rightarrow>
     int \<Rightarrow> ('g, 'a, 'e, 'c, 'y) hd_show \<Rightarrow> ('g, 'a, 'e, 'c, 'y) hd_show outcome" where
  "transition_shown sc am run nNewSlide w =
     lift_sum (currentSlideHash sc w) (\<lambda>sCurSlideHash.
     andThen (sc_call sc (CompositorTransitionEnd sCurSlideHash) w) (\<lambda>w2.
     andThen (sc_call sc (PresentSlide nNewSlide) w2) (\<lambda>w3.
     andThen (sc_call sc (FireTransitionEnd nNewSlide) w3) (\<lambda>w4a.
     let w4 = set_hd (\<lambda>h. h\<lparr>hd_enteringSlideTexture := None, hd_isStarting := False\<rparr>) w4a
     in if hd_bIsEnabled (hd_of w4) then
          andThen (dispose_show am w4) (\<lambda>w5.
          lift_sum (getMetaSlide sCurSlideHash (hd_theMetaPres (hd_of w5))) (\<lambda>s.
          andThen (start_animations sc s w5) (update_show sc am run)))
        else notifyAnimationsEnd sc w4))))"

definition notifyTransitionEnd ::
    "('a, ('g, 'a, 'e, 'c, 'y) hd_show) show_calls \<Rightarrow> ('a, ('g, 'a, 'e, 'c, 'y) hd_show) activity_methods \<Rightarrow>
     ('g handler_fn \<Rightarrow> ('g, 'a, 'e, 'c, 'y) hd_show \<Rightarrow> ('g, 'a, 'e, 'c, 'y) hd_show outcome) \<Rightarrow>
     int \<Rightarrow> int option \<Rightarrow> ('g, 'a, 'e, 'c, 'y) hd_show \<Rightarrow> ('g, 'a, 'e, 'c, 'y) hd_show outcome" where
  "notifyTransitionEnd sc am run nNewSlide nOldSlide w =
     lift_sum (getSlideInfoByIndex (Some nNewSlide) (hd_theMetaPres (hd_of w))) (\<lambda>info.
       case info of
         None \<Rightarrow> throws TypeError
       | Some slideInfo \<Rightarrow>
           andThen (if si_transitionLabel slideInfo \<notin> {None, Some []} then addA11yString sc ''Transition End: '' w else returns w) (\<lambda>w1a.
           let w1 = set_hd (hd_bIsTransitionRunning_update (\<lambda>_. False)) w1a
           in if \<not> sc_checkAlreadyPresenting sc w1 then returns w1
              else if hd_bIsRewinding (hd_of w1) then
                lift_sum (getMetaSlideByIndex (Some nNewSlide) (hd_theMetaPres (hd_of w1))) (\<lambda>s.
                  if s = None then throws TypeError
                  else andThen (sc_call sc (HideSlide nNewSlide) w1) (\<lambda>w2.
                       andThen (sc_call sc RewindToPreviousSlide w2) (\<lambda>w3.
                         returns (set_hd (hd_bIsRewinding_update (\<lambda>_. False)) w3))))
              else transition_shown sc am run nNewSlide w1))"

end
