(* ===== verification/Slide_Effects.thy ===== *)
theory Slide_Effects
  imports Slide_Handler
begin

section \<open>Playing, skipping and rewinding effects\<close>

text \<open>
  The operations of \<open>SlideShowHandler.ts\<close> that the navigator calls: the next effect, skipping, rewinding and
  displaying a slide. The loops of \<open>skipAllEffects\<close> and \<open>rewindAllEffects\<close> may not end and are partial
  functions; the other loops run over a list whose length is read before.
\<close>

type_synonym ('g, 'a, 'e, 'c, 'y) hd_calls = "('a, ('g, 'a, 'e, 'c, 'y) hd_show) show_calls"
type_synonym ('g, 'a, 'e, 'c, 'y) hd_acts = "('a, ('g, 'a, 'e, 'c, 'y) hd_show) activity_methods"
type_synonym ('g, 'a, 'e, 'c, 'y) hd_run =
  "'g handler_fn \<Rightarrow> ('g, 'a, 'e, 'c, 'y) hd_show \<Rightarrow> ('g, 'a, 'e, 'c, 'y) hd_show outcome"
type_synonym ('g, 'a, 'e, 'c, 'y) hd_op = "('g, 'a, 'e, 'c, 'y) hd_show \<Rightarrow> ('g, 'a, 'e, 'c, 'y) hd_show outcome"
type_synonym ('g, 'a, 'e, 'c, 'y) hd_test = "('g, 'a, 'e, 'c, 'y) hd_show \<Rightarrow> (bool \<times> ('g, 'a, 'e, 'c, 'y) hd_show) outcome"

abbreviation set_skipping :: "bool \<Rightarrow> ('g, 'a, 'e, 'c, 'y) hd_show \<Rightarrow> ('g, 'a, 'e, 'c, 'y) hd_show" where
  "set_skipping b w \<equiv> set_hd (hd_bIsSkipping_update (\<lambda>_. b)) w"

abbreviation set_rewinding :: "bool \<Rightarrow> ('g, 'a, 'e, 'c, 'y) hd_show \<Rightarrow> ('g, 'a, 'e, 'c, 'y) hd_show" where
  "set_rewinding b w \<equiv> set_hd (hd_bIsRewinding_update (\<lambda>_. b)) w"

abbreviation set_skipping_all :: "bool \<Rightarrow> ('g, 'a, 'e, 'c, 'y) hd_show \<Rightarrow> ('g, 'a, 'e, 'c, 'y) hd_show" where
  "set_skipping_all b w \<equiv> set_hd (hd_bIsSkippingAll_update (\<lambda>_. b)) w"

abbreviation busy :: "('g, 'a, 'e, 'c, 'y) hd_show \<Rightarrow> bool" where
  "busy w \<equiv> hd_bIsSkipping (hd_of w) \<or> hd_bIsRewinding (hd_of w)"

definition then_true :: "'w outcome \<Rightarrow> (bool \<times> 'w) outcome" where
  "then_true r = andThen r (\<lambda>w. returns (True, w))"

text \<open>The next effect is there when its array is not null and not exhausted.\<close>

definition effect_left :: "('g, 'a, 'e, 'c, 'y) hd_show \<Rightarrow> bool" where
  "effect_left w \<longleftrightarrow> hd_nCurrentEffect (hd_of w) < int (length (hd_aNextEffectEventArray (hd_of w)))"

text \<open>\<open>at(nCurrentEffect).fire()\<close>; the array has no element at a negative index.\<close>

definition fire_current :: "('g, 'a, 'e, 'c, 'y) hd_run \<Rightarrow> ('g, 'a, 'e, 'c, 'y) hd_op" where
  "fire_current run w =
     (if \<not> hd_bHasEffectArray (hd_of w) then throws TypeError
      else case js_nth (hd_aNextEffectEventArray (hd_of w)) (hd_nCurrentEffect (hd_of w)) of
        None \<Rightarrow> throws TypeError
      | Some i \<Rightarrow> andThen (fire run i w) (\<lambda>r. returns (snd r)))"

subsection \<open>Skipping\<close>

definition skipTransition ::
    "('g, 'a, 'e, 'c, 'y) hd_calls \<Rightarrow> ('g, 'a, 'e, 'c, 'y) hd_acts \<Rightarrow> ('g, 'a, 'e, 'c, 'y) hd_run \<Rightarrow> ('g, 'a, 'e, 'c, 'y) hd_op" where
  "skipTransition sc am run w =
     (if busy w then returns w
      else andThen (endAll am (set_skipping True w)) (\<lambda>w1.
           andThen (forceEmpty run w1) (\<lambda>w2.
           andThen (endAll am w2) (\<lambda>w3.
           andThen (update_show sc am run w3) (\<lambda>w4. returns (set_skipping False w4))))))"

definition skipFirstAutoEffect ::
    "('g, 'a, 'e, 'c, 'y) hd_calls \<Rightarrow> ('g, 'a, 'e, 'c, 'y) hd_acts \<Rightarrow> ('g, 'a, 'e, 'c, 'y) hd_run \<Rightarrow> ('g, 'a, 'e, 'c, 'y) hd_op" where
  "skipFirstAutoEffect sc am run w =
     andThen (with_multiplexer notifySkipEffectEvent (set_skipping True w)) (\<lambda>w1.
     andThen (update_show sc am run w1) (\<lambda>w2. returns (set_skipping False w2)))"

text \<open>The loop of \<open>skipAllPlayingEffects\<close>; the length is read again in every round.\<close>

partial_function (option) skip_playing :: "nat \<Rightarrow> ('g, 'a, 'e, 'c, 'y) hd_op" where
  [code]: "skip_playing i w =
     (if i < length (hd_aStartedEffectList (hd_of w))
      then let aEffect = hd_aStartedEffectList (hd_of w) ! i
           in Option.bind
                (if isPlaying aEffect
                 then with_multiplexer (if isMainEffect aEffect then notifySkipEffectEvent
                                        else notifySkipInteractiveEffectEvent (ef_nId aEffect)) w
                 else Some (Inr w))
                (\<lambda>r. case r of Inl e \<Rightarrow> Some (Inl e) | Inr w1 \<Rightarrow> skip_playing (Suc i) w1)
      else Some (Inr w))"

definition skipAllPlayingEffects ::
    "('g, 'a, 'e, 'c, 'y) hd_calls \<Rightarrow> ('g, 'a, 'e, 'c, 'y) hd_acts \<Rightarrow> ('g, 'a, 'e, 'c, 'y) hd_run \<Rightarrow> ('g, 'a, 'e, 'c, 'y) hd_test" where
  "skipAllPlayingEffects sc am run w =
     andThen (addA11yString sc ''Skip All'' w) (\<lambda>w0.
       if busy w0 then returns (True, w0)
       else andThen (skip_playing 0 (set_skipping True w0)) (\<lambda>w1.
            andThen (update_show sc am run w1) (\<lambda>w2. returns (True, set_skipping False w2))))"

definition skipNextEffect ::
    "('g, 'a, 'e, 'c, 'y) hd_calls \<Rightarrow> ('g, 'a, 'e, 'c, 'y) hd_acts \<Rightarrow> ('g, 'a, 'e, 'c, 'y) hd_run \<Rightarrow> ('g, 'a, 'e, 'c, 'y) hd_test" where
  "skipNextEffect sc am run w =
     (if busy w then returns (True, w)
      else js_assert (\<not> isAnyEffectPlaying w) ''SlideShowHandler.skipNextEffect''
        (if \<not> hd_bHasEffectArray (hd_of w) \<or> \<not> effect_left w then returns (False, w)
         else andThen (notifyNextEffectStart sc w) (\<lambda>w1.
              andThen (fire_current run (set_skipping True w1)) (\<lambda>w2.
              andThen (with_multiplexer notifySkipEffectEvent w2) (\<lambda>w3.
              andThen (update_show sc am run (set_hd (hd_nCurrentEffect_update (\<lambda>n. n + 1)) w3)) (\<lambda>w4.
                returns (True, set_skipping False w4)))))))"

text \<open>At most \<open>nEffectNumber + 1\<close> effects are skipped.\<close>

fun skip_upto ::
    "('g, 'a, 'e, 'c, 'y) hd_calls \<Rightarrow> ('g, 'a, 'e, 'c, 'y) hd_acts \<Rightarrow> ('g, 'a, 'e, 'c, 'y) hd_run \<Rightarrow> nat \<Rightarrow> ('g, 'a, 'e, 'c, 'y) hd_op" where
  "skip_upto sc am run 0 w = returns w"
| "skip_upto sc am run (Suc k) w =
     andThen (skipNextEffect sc am run w) (\<lambda>r. if fst r then skip_upto sc am run k (snd r) else returns (snd r))"

definition skipNEffects where
  "skipNEffects sc am run nEffectNumber w = skip_upto sc am run (nat (nEffectNumber + 1)) w"

definition skipPlayingOrNextEffect ::
    "('g, 'a, 'e, 'c, 'y) hd_calls \<Rightarrow> ('g, 'a, 'e, 'c, 'y) hd_acts \<Rightarrow> ('g, 'a, 'e, 'c, 'y) hd_run \<Rightarrow> ('g, 'a, 'e, 'c, 'y) hd_test" where
  "skipPlayingOrNextEffect sc am run w =
     andThen (addA11yString sc ''Skip'' w) (\<lambda>w0.
       if hd_bIsTransitionRunning (hd_of w0) then then_true (skipTransition sc am run w0)
       else if hd_bIsFirstAutoEffectRunning (hd_of w0) then then_true (skipFirstAutoEffect sc am run w0)
       else if isAnyEffectPlaying w0 then skipAllPlayingEffects sc am run w0
       else skipNextEffect sc am run w0)"

partial_function (option) skip_all_loop ::
    "('g, 'a, 'e, 'c, 'y) hd_calls \<Rightarrow> ('g, 'a, 'e, 'c, 'y) hd_acts \<Rightarrow> ('g, 'a, 'e, 'c, 'y) hd_run \<Rightarrow> ('g, 'a, 'e, 'c, 'y) hd_op" where
  [code]: "skip_all_loop sc am run w =
     (if \<not> hd_bHasEffectArray (hd_of w) then Some (Inl TypeError)
      else if effect_left w
      then Option.bind (skipNextEffect sc am run w)
             (\<lambda>r. case r of Inl e \<Rightarrow> Some (Inl e) | Inr v \<Rightarrow> skip_all_loop sc am run (snd v))
      else Some (Inr w))"

text \<open>The playing effects, or else the next ones if there are any, then all that follow.\<close>

definition skip_rest ::
    "('g, 'a, 'e, 'c, 'y) hd_calls \<Rightarrow> ('g, 'a, 'e, 'c, 'y) hd_acts \<Rightarrow> ('g, 'a, 'e, 'c, 'y) hd_run \<Rightarrow> ('g, 'a, 'e, 'c, 'y) hd_test" where
  "skip_rest sc am run w =
     (if \<not> isAnyEffectPlaying w \<and> (\<not> hd_bHasEffectArray (hd_of w) \<or> \<not> effect_left w)
      then returns (False, set_skipping_all False w)
      else andThen (if isAnyEffectPlaying w then andThen (skipAllPlayingEffects sc am run w) (\<lambda>r. returns (snd r)) else returns w) (\<lambda>w1.
           andThen (skip_all_loop sc am run w1) (\<lambda>w2. returns (True, set_skipping_all False w2))))"

definition skipAllEffects ::
    "('g, 'a, 'e, 'c, 'y) hd_calls \<Rightarrow> ('g, 'a, 'e, 'c, 'y) hd_acts \<Rightarrow> ('g, 'a, 'e, 'c, 'y) hd_run \<Rightarrow> ('g, 'a, 'e, 'c, 'y) hd_test" where
  "skipAllEffects sc am run w =
     (if hd_bIsSkippingAll (hd_of w) then returns (True, w)
      else let w0 = set_skipping_all True w
           in andThen (if hd_bIsTransitionRunning (hd_of w0) then skipTransition sc am run w0 else returns w0) (\<lambda>w1.
              andThen (if hd_bIsFirstAutoEffectRunning (hd_of w1) then skipFirstAutoEffect sc am run w1 else returns w1)
                (skip_rest sc am run)))"

definition nextEffect ::
    "('g, 'a, 'e, 'c, 'y) hd_calls \<Rightarrow> ('g, 'a, 'e, 'c, 'y) hd_acts \<Rightarrow> ('g, 'a, 'e, 'c, 'y) hd_run \<Rightarrow> ('g, 'a, 'e, 'c, 'y) hd_test" where
  "nextEffect sc am run w =
     (if \<not> hd_bIsEnabled (hd_of w) then returns (False, w)
      else andThen (addA11yString sc ''Next'' w) (\<lambda>w0.
        if hd_bIsTransitionRunning (hd_of w0) then then_true (skipTransition sc am run w0)
        else if hd_bIsFirstAutoEffectRunning (hd_of w0) then then_true (skipFirstAutoEffect sc am run w0)
        else if isAnyEffectPlaying w0
        then andThen (skipAllPlayingEffects sc am run w0) (\<lambda>r. returns (True, snd r))
        else if \<not> hd_bHasEffectArray (hd_of w0) \<or> \<not> effect_left w0 then returns (False, w0)
        else andThen (sc_call sc (SendFollowEffect (hd_nCurrentEffect (hd_of w0))) w0) (\<lambda>w1.
             andThen (notifyNextEffectStart sc w1) (\<lambda>w2.
             andThen (fire_current run w2) (\<lambda>w3.
               then_true (update_show sc am run (set_hd (hd_nCurrentEffect_update (\<lambda>n. n + 1)) w3)))))))"

subsection \<open>Rewinding\<close>

definition rewindTransition ::
    "('g, 'a, 'e, 'c, 'y) hd_calls \<Rightarrow> ('g, 'a, 'e, 'c, 'y) hd_acts \<Rightarrow> ('g, 'a, 'e, 'c, 'y) hd_run \<Rightarrow> ('g, 'a, 'e, 'c, 'y) hd_op" where
  "rewindTransition sc am run w =
     (if busy w then returns w
      else andThen (endAll am (set_rewinding True w)) (\<lambda>w1.
           andThen (update_show sc am run w1) (\<lambda>w2. returns (set_rewinding False w2))))"

definition rewindFirstAutoEffect ::
    "('g, 'a, 'e, 'c, 'y) hd_calls \<Rightarrow> ('g, 'a, 'e, 'c, 'y) hd_acts \<Rightarrow> ('g, 'a, 'e, 'c, 'y) hd_run \<Rightarrow> ('g, 'a, 'e, 'c, 'y) hd_op" where
  "rewindFirstAutoEffect sc am run w =
     andThen (with_multiplexer notifyRewindCurrentEffectEvent (set_rewinding True w)) (\<lambda>w1.
     andThen (update_show sc am run w1) (\<lambda>w2. returns (set_rewinding False w2)))"

definition rewindToPreviousSlide_show ::
    "('g, 'a, 'e, 'c, 'y) hd_calls \<Rightarrow> ('g, 'a, 'e, 'c, 'y) hd_acts \<Rightarrow> ('g, 'a, 'e, 'c, 'y) hd_run \<Rightarrow> ('g, 'a, 'e, 'c, 'y) hd_op" where
  "rewindToPreviousSlide_show sc am run w =
     andThen (if hd_bIsFirstAutoEffectRunning (hd_of w) then rewindFirstAutoEffect sc am run w else returns w) (\<lambda>w1.
       if hd_bIsTransitionRunning (hd_of w1) then rewindTransition sc am run w1
       else if isAnyEffectPlaying w1 then returns w1
       else sc_call sc RewindToPreviousSlide w1)"

text \<open>The current effect moves back, but not below the first.\<close>

abbreviation step_back :: "('g, 'a, 'e, 'c, 'y) hd_show \<Rightarrow> ('g, 'a, 'e, 'c, 'y) hd_show" where
  "step_back w \<equiv> set_hd (hd_nCurrentEffect_update (\<lambda>n. if n > 0 then n - 1 else n)) w"

text \<open>The notification for one effect; an effect that has not started is passed over.\<close>

definition rewind_one :: "effect \<Rightarrow> ('g, 'a, 'e, 'c, 'y) hd_op" where
  "rewind_one aEffect w =
     (if isPlaying aEffect then
        (if isMainEffect aEffect
         then andThen (with_multiplexer notifyRewindCurrentEffectEvent w) (\<lambda>w1. returns (step_back w1))
         else with_multiplexer (notifyRewindRunningInteractiveEffectEvent (ef_nId aEffect)) w)
      else if isEnded aEffect then
        (if isMainEffect aEffect
         then andThen (with_multiplexer notifyRewindLastEffectEvent w) (\<lambda>w1. returns (step_back w1))
         else with_multiplexer (notifyRewindEndedInteractiveEffectEvent (ef_nId aEffect)) w)
      else returns w)"

text \<open>
  The loop from the last effect down to the first playing one, \<open>k\<close> of them. The list does not change in
  it; an element that is missing would throw.
\<close>

fun rewind_down :: "nat \<Rightarrow> nat \<Rightarrow> ('g, 'a, 'e, 'c, 'y) hd_op" where
  "rewind_down first 0 w = returns w"
| "rewind_down first (Suc k) w =
     (case js_nth (hd_aStartedEffectList (hd_of w)) (int (first + k)) of
        None \<Rightarrow> throws TypeError
      | Some aEffect \<Rightarrow> andThen (rewind_one aEffect w) (rewind_down first k))"

text \<open>\<open>pop\<close>, and the place of an interactive effect is forgotten. The element is undefined when there is none.\<close>

definition pop_effect :: "('g, 'a, 'e, 'c, 'y) hd_show \<Rightarrow> effect option \<times> ('g, 'a, 'e, 'c, 'y) hd_show" where
  "pop_effect w =
     (case js_last (hd_aStartedEffectList (hd_of w)) of
        None \<Rightarrow> (None, w)
      | Some e \<Rightarrow>
          (Some e, set_hd (\<lambda>h. h\<lparr>hd_aStartedEffectList := butlast (hd_aStartedEffectList h),
             hd_aStartedEffectIndexMap := (if isMainEffect e then hd_aStartedEffectIndexMap h
                                           else (hd_aStartedEffectIndexMap h)(ef_nId e := None))\<rparr>) w))"

fun pop_effects :: "nat \<Rightarrow> ('g, 'a, 'e, 'c, 'y) hd_show \<Rightarrow> ('g, 'a, 'e, 'c, 'y) hd_show" where
  "pop_effects 0 w = w"
| "pop_effects (Suc k) w = pop_effects k (snd (pop_effect w))"

definition first_playing :: "effect list \<Rightarrow> nat option" where
  "first_playing es = List.find (\<lambda>i. isPlaying (es ! i)) [0..<length es]"

text \<open>The test before the timeout is cancelled: an object that remembers the effect 0 passes it again.\<close>

fun advance_pending :: "advance_timeout \<Rightarrow> bool" where
  "advance_pending Adv_null = False"
| "advance_pending (Adv_timeout i) = True"
| "advance_pending (Adv_rewinded n) = (n = 0)"

text \<open>The effects that are rewound: from the first playing one on, or the last one.\<close>

definition rewind_started ::
    "('g, 'a, 'e, 'c, 'y) hd_calls \<Rightarrow> ('g, 'a, 'e, 'c, 'y) hd_acts \<Rightarrow> ('g, 'a, 'e, 'c, 'y) hd_run \<Rightarrow> ('g, 'a, 'e, 'c, 'y) hd_op" where
  "rewind_started sc am run w =
     (case first_playing (hd_aStartedEffectList (hd_of w)) of
        Some nFirst \<Rightarrow>
          andThen (rewind_down nFirst (length (hd_aStartedEffectList (hd_of w)) - nFirst) w) (\<lambda>w1.
          andThen (update_show sc am run w1) (\<lambda>w2.
            returns (pop_effects (length (hd_aStartedEffectList (hd_of w2)) - nFirst) w2)))
      | None \<Rightarrow>
          (case pop_effect w of
             (None, w1) \<Rightarrow> throws TypeError
           | (Some aEffect, w1) \<Rightarrow>
               andThen (if isEnded aEffect then rewind_one aEffect w1 else returns w1) (update_show sc am run)))"

definition rewindEffect ::
    "('g, 'a, 'e, 'c, 'y) hd_calls \<Rightarrow> ('g, 'a, 'e, 'c, 'y) hd_acts \<Rightarrow> ('g, 'a, 'e, 'c, 'y) hd_run \<Rightarrow> ('g, 'a, 'e, 'c, 'y) hd_op" where
  "rewindEffect sc am run w =
     (if busy w then returns w
      else let w0 = (if advance_pending (hd_automaticAdvanceTimeout (hd_of w))
                     then set_hd (\<lambda>h. h\<lparr>hd_automaticAdvanceTimeout := Adv_rewinded (hd_nCurrentEffect h)\<rparr>) (clear_advance w)
                     else w)
           in andThen (addA11yString sc ''Previous'' w0) (\<lambda>w1.
              if \<not> hasAnyEffectStarted w1 then rewindToPreviousSlide_show sc am run w1
              else andThen (rewind_started sc am run (set_rewinding True w1)) (\<lambda>w2.
                   sc_call sc (SendFollowEffect (hd_nCurrentEffect (hd_of w2) - 1)) (set_rewinding False w2))))"

partial_function (option) rewind_all_loop ::
    "('g, 'a, 'e, 'c, 'y) hd_calls \<Rightarrow> ('g, 'a, 'e, 'c, 'y) hd_acts \<Rightarrow> ('g, 'a, 'e, 'c, 'y) hd_run \<Rightarrow> ('g, 'a, 'e, 'c, 'y) hd_op" where
  [code]: "rewind_all_loop sc am run w =
     (if hasAnyEffectStarted w
      then Option.bind (rewindEffect sc am run w)
             (\<lambda>r. case r of Inl e \<Rightarrow> Some (Inl e) | Inr w1 \<Rightarrow> rewind_all_loop sc am run w1)
      else Some (Inr w))"

definition rewindAllEffects ::
    "('g, 'a, 'e, 'c, 'y) hd_calls \<Rightarrow> ('g, 'a, 'e, 'c, 'y) hd_acts \<Rightarrow> ('g, 'a, 'e, 'c, 'y) hd_run \<Rightarrow> ('g, 'a, 'e, 'c, 'y) hd_op" where
  "rewindAllEffects sc am run w =
     andThen (addA11yString sc ''First'' w) (\<lambda>w1.
       if \<not> hasAnyEffectStarted w1 then rewindToPreviousSlide_show sc am run w1 else rewind_all_loop sc am run w1)"

subsection \<open>Displaying a slide\<close>

definition exitSlideShow :: "('g, 'a, 'e, 'c, 'y) hd_calls \<Rightarrow> ('g, 'a, 'e, 'c, 'y) hd_op" where
  "exitSlideShow sc w =
     andThen (addA11yString sc ''End Show'' w) (\<lambda>w1.
       returns (set_hd (hd_automaticAdvanceTimeout_update (\<lambda>_. Adv_null)) w1))"

definition disable_show :: "('g, 'a, 'e, 'c, 'y) hd_acts \<Rightarrow> ('g, 'a, 'e, 'c, 'y) hd_op" where
  "disable_show am w = dispose_show am (set_hd (hd_bIsEnabled_update (\<lambda>_. False)) w)"

definition cleanLeavingSlideStatus ::
    "('g, 'a, 'e, 'c, 'y) hd_calls \<Rightarrow> ('g, 'a, 'e, 'c, 'y) hd_acts \<Rightarrow> int option \<Rightarrow> bool \<Rightarrow> ('g, 'a, 'e, 'c, 'y) hd_op" where
  "cleanLeavingSlideStatus sc am nOldSlide bSkipSlideTransition w =
     (case nOldSlide of
        None \<Rightarrow> returns w
      | Some old \<Rightarrow>
          lift_sum (getSlideHash (Some old) (hd_theMetaPres (hd_of w))) (\<lambda>h.
          andThen (sc_call sc (PauseVideos h) w) (\<lambda>w1.
          lift_sum (getMetaSlideByIndex (Some old) (hd_theMetaPres (hd_of w1))) (\<lambda>s.
          andThen (if hd_bIsEnabled (hd_of w1)
                   then (case s of
                           None \<Rightarrow> throws TypeError
                         | Some info \<Rightarrow>
                             if sc_elements sc (si_hash info) w1 \<noteq> None \<and> sc_isAnimated sc (si_hash info) w1
                             then andThen (sc_call sc (AnimationsEnd (si_hash info) bSkipSlideTransition) w1) (dispose_show am)
                             else returns w1)
                   else returns w1) (\<lambda>w2.
            returns (if hd_automaticAdvanceTimeout (hd_of w2) \<noteq> Adv_null
                     then set_hd (hd_automaticAdvanceTimeout_update (\<lambda>_. Adv_null)) (clear_advance w2) else w2))))))"

definition page_label :: "int \<Rightarrow> int option \<Rightarrow> meta_pres \<Rightarrow> string option" where
  "page_label nNewSlide nOldSlide mp =
     (if mp_numberOfSlides mp - 1 = nNewSlide then Some ''Last Slide''
      else if nNewSlide = 0 then Some ''First Slide''
      else case nOldSlide of
             None \<Rightarrow> None
           | Some old \<Rightarrow> if nNewSlide = old + 1 then Some ''Next Slide''
                         else if nNewSlide = old - 1 then Some ''Previous Slide'' else None)"

text \<open>A transition is played at the start and forward, when it is not skipped.\<close>

definition plays_transition ::
    "('g, 'a, 'e, 'c, 'y) hd_calls \<Rightarrow> int \<Rightarrow> int option \<Rightarrow> bool \<Rightarrow> ('g, 'a, 'e, 'c, 'y) hd_show \<Rightarrow> bool" where
  "plays_transition sc nNewSlide nOldSlide bSkipSlideTransition w \<longleftrightarrow>
     hd_bIsEnabled (hd_of w) \<and> sc_isGlSupported sc w \<and> \<not> bSkipSlideTransition \<and>
     (case nOldSlide of None \<Rightarrow> hd_isStarting (hd_of w) | Some old \<Rightarrow> nNewSlide > old)"

text \<open>The part of \<open>displaySlide\<close> that starts the transition; \<open>False\<close> when there is none to wait for.\<close>

definition start_transition ::
    "('g, 'a, 'e, 'c, 'y) hd_calls \<Rightarrow> ('g, 'a, 'e, 'c, 'y) hd_acts \<Rightarrow> ('g, 'a, 'e, 'c, 'y) hd_run \<Rightarrow> int \<Rightarrow> int option \<Rightarrow>
     ('g, 'a, 'e, 'c, 'y) hd_test" where
  "start_transition sc am run nNewSlide nOldSlide w =
     lift_sum (getMetaSlideByIndex (Some nNewSlide) (hd_theMetaPres (hd_of w))) (\<lambda>s.
       case s of
         None \<Rightarrow> throws TypeError
       | Some info \<Rightarrow>
           if \<not> sc_transitionValid sc (si_hash info) then returns (False, w)
           else let (aTransitionEndEvent, w1) = new_event (Fn_notifyTransitionEnd nNewSlide nOldSlide) w
                in (case sc_createTransition sc nNewSlide nOldSlide aTransitionEndEvent w1 of
                      (Inl u, w2) \<Rightarrow> returns (False, w2)
                    | (Inr (tex, act), w2) \<Rightarrow>
                        let w3 = set_hd (hd_enteringSlideTexture_update (\<lambda>_. tex)) w2
                        in (case act of
                              None \<Rightarrow> returns (False, w3)
                            | Some a \<Rightarrow>
                                let w4 = snd (addActivity (Some a) (set_hd (hd_bIsTransitionRunning_update (\<lambda>_. True)) w3))
                                in (case andThen (update_show sc am run w4) (sc_call sc StopLoader) of
                                      None \<Rightarrow> None
                                    | Some (Inl e) \<Rightarrow> returns (False, sc_caught sc w4)
                                    | Some (Inr w5) \<Rightarrow> returns (True, w5)))))"

definition displaySlide_show ::
    "('g, 'a, 'e, 'c, 'y) hd_calls \<Rightarrow> ('g, 'a, 'e, 'c, 'y) hd_acts \<Rightarrow> ('g, 'a, 'e, 'c, 'y) hd_run \<Rightarrow>
     int \<Rightarrow> int option \<Rightarrow> bool \<Rightarrow> int option \<Rightarrow> ('g, 'a, 'e, 'c, 'y) hd_op" where
  "displaySlide_show sc am run nNewSlide nOldSlide bSkipSlideTransition nSlideEffect w =
     andThen (if nNewSlide \<ge> mp_numberOfSlides (hd_theMetaPres (hd_of w)) then exitSlideShow sc w else returns w) (\<lambda>w1.
     andThen (case page_label nNewSlide nOldSlide (hd_theMetaPres (hd_of w1)) of
                None \<Rightarrow> returns w1 | Some l \<Rightarrow> addA11yString sc l w1) (\<lambda>w2.
     andThen (if hd_bIsTransitionRunning (hd_of w2) then skipTransition sc am run w2 else returns w2) (\<lambda>w3.
     andThen (if hd_bIsFirstAutoEffectRunning (hd_of w3) then skipFirstAutoEffect sc am run w3 else returns w3) (\<lambda>w4.
     andThen (cleanLeavingSlideStatus sc am nOldSlide bSkipSlideTransition w4) (\<lambda>w5.
     andThen (notifySlideStart sc nNewSlide nOldSlide w5) (\<lambda>w6.
     andThen (if plays_transition sc nNewSlide nOldSlide bSkipSlideTransition w6
              then start_transition sc am run nNewSlide nOldSlide w6 else returns (False, w6)) (\<lambda>r.
       if fst r then returns (snd r)
       else andThen (notifyTransitionEnd sc am run nNewSlide nOldSlide (snd r)) (\<lambda>w8.
              case nSlideEffect of None \<Rightarrow> returns w8 | Some n \<Rightarrow> skipNEffects sc am run n w8))))))))"

definition notifyFirstAutoEffectStarted :: "('g, 'a, 'e, 'c, 'y) hd_show \<Rightarrow> ('g, 'a, 'e, 'c, 'y) hd_show" where
  "notifyFirstAutoEffectStarted w = set_hd (hd_bIsFirstAutoEffectRunning_update (\<lambda>_. True)) w"

definition notifyFirstAutoEffectEnded :: "('g, 'a, 'e, 'c, 'y) hd_show \<Rightarrow> ('g, 'a, 'e, 'c, 'y) hd_show" where
  "notifyFirstAutoEffectEnded w = set_hd (hd_bIsFirstAutoEffectRunning_update (\<lambda>_. False)) w"

text \<open>What calling a function of the handler does, around the functions of others and the calls below.\<close>

definition call_fn ::
    "('g, 'a, 'e, 'c, 'y) hd_calls \<Rightarrow> ('g, 'a, 'e, 'c, 'y) hd_acts \<Rightarrow> ('g, 'a, 'e, 'c, 'y) hd_run \<Rightarrow>
     ('g \<Rightarrow> ('g, 'a, 'e, 'c, 'y) hd_op) \<Rightarrow> ('g, 'a, 'e, 'c, 'y) hd_run" where
  "call_fn sc am run other f w =
     (case f of
        Fn_notifyNextEffectEnd \<Rightarrow> notifyNextEffectEnd sc w
      | Fn_notifyAnimationsEnd \<Rightarrow> notifyAnimationsEnd sc w
      | Fn_notifyTransitionEnd n old \<Rightarrow> notifyTransitionEnd sc am run n old w
      | Fn_sequenceStart i \<Rightarrow> sequence_start i w
      | Fn_sequenceEnd i \<Rightarrow> sequence_end i w
      | Fn_other g \<Rightarrow> other g w)"

text \<open>A timeout of the browser is due.\<close>

definition fire_timeout ::
    "('g, 'a, 'e, 'c, 'y) hd_calls \<Rightarrow> ('g, 'a, 'e, 'c, 'y) hd_acts \<Rightarrow> ('g, 'a, 'e, 'c, 'y) hd_run \<Rightarrow> show_timeout \<Rightarrow> ('g, 'a, 'e, 'c, 'y) hd_op" where
  "fire_timeout sc am run t w =
     (let w1 = set_hd (hd_timeouts_update (remove1 t)) w
      in case to_call t of
           TO_update \<Rightarrow> update_show sc am run w1
         | TO_switchSlide nOffset bSkip \<Rightarrow> sc_call sc (SwitchSlide nOffset bSkip) w1
         | TO_a11y s \<Rightarrow> addA11yString sc s w1)"

subsection \<open>Elements that start interactive sequences\<close>

text \<open>\<open>SourceEventElement.ts\<close>: a shape that is clicked. The cursor of the canvas is a call.\<close>

record source_element =
  se_sId :: string
  se_bounds :: click_rect
  se_bClickHandled :: bool
  se_bIsPointerOver :: bool

definition new_SourceEventElement ::
    "string \<Rightarrow> click_rect \<Rightarrow> int \<Rightarrow> 'c \<Rightarrow> ('g, 'a, 'e, 'c, 'y) hd_show \<Rightarrow> (source_element \<times> ('g, 'a, 'e, 'c, 'y) hd_show) outcome" where
  "new_SourceEventElement sId bounds priority this w =
     andThen (registerMouseClickHandler (Some this) (1000 + priority) w) (\<lambda>w1.
       returns (\<lparr>se_sId = sId, se_bounds = bounds, se_bClickHandled = False, se_bIsPointerOver = False\<rparr>, w1))"

definition setPointerCursor :: "('g, 'a, 'e, 'c, 'y) hd_calls \<Rightarrow> source_element \<Rightarrow> ('g, 'a, 'e, 'c, 'y) hd_op" where
  "setPointerCursor sc se w = (if se_bClickHandled se then returns w else sc_call sc (SetCursor ''pointer'') w)"

definition charge_element ::
    "('g, 'a, 'e, 'c, 'y) hd_calls \<Rightarrow> source_element \<Rightarrow> ('g, 'a, 'e, 'c, 'y) hd_show \<Rightarrow> (source_element \<times> ('g, 'a, 'e, 'c, 'y) hd_show) outcome" where
  "charge_element sc se w =
     (let se1 = se\<lparr>se_bClickHandled := False\<rparr> in andThen (setPointerCursor sc se1 w) (\<lambda>w1. returns (se1, w1)))"

definition element_mouseMove ::
    "('g, 'a, 'e, 'c, 'y) hd_calls \<Rightarrow> num \<Rightarrow> num \<Rightarrow> source_element \<Rightarrow> ('g, 'a, 'e, 'c, 'y) hd_show \<Rightarrow>
     (bool \<times> source_element \<times> ('g, 'a, 'e, 'c, 'y) hd_show) outcome" where
  "element_mouseMove sc cursorX cursorY se w =
     (let bIsOver = hitTest (se_bounds se) cursorX cursorY; se1 = se\<lparr>se_bIsPointerOver := bIsOver\<rparr>
      in if bIsOver \<noteq> se_bIsPointerOver se
         then andThen (if bIsOver then setPointerCursor sc se1 w else sc_call sc (SetCursor ''default'') w) (\<lambda>w1. returns (bIsOver, se1, w1))
         else returns (bIsOver, se, w))"

definition element_handleClick ::
    "('g, 'a, 'e, 'c, 'y) hd_calls \<Rightarrow> ('g, 'a, 'e, 'c, 'y) hd_acts \<Rightarrow> ('g, 'a, 'e, 'c, 'y) hd_run \<Rightarrow> source_element \<Rightarrow>
     ('g, 'a, 'e, 'c, 'y) hd_show \<Rightarrow> (bool \<times> source_element \<times> ('g, 'a, 'e, 'c, 'y) hd_show) outcome" where
  "element_handleClick sc am run se w =
     (if \<not> se_bIsPointerOver se \<or> se_bClickHandled se then returns (False, se, w)
      else andThen (notifyEvent Trigger_OnClick (String_Id (se_sId se)) w) (\<lambda>w1.
           andThen (update_show sc am run w1) (\<lambda>w2.
           andThen (sc_call sc (SetCursor ''default'') w2) (\<lambda>w3. returns (True, se\<lparr>se_bClickHandled := True\<rparr>, w3)))))"

end
