(* ===== verification/Handler_Frames.thy ===== *)
theory Handler_Frames
  imports Slide_Effects
begin

section \<open>The frame loop of the slide show\<close>

text \<open>
  What the callbacks keep of the state of the handler, every frame keeps: this is proved once, in the locale
  \<open>handler_relation\<close>, for any relation that does not look at the frames. What an invariant has to satisfy for
  the primitive steps, so that every operation on the effects keeps it, is the locale \<open>show_invariant\<close>.
\<close>

lemma lift_sum_simps [simp]: "lift_sum (Inr v) k = k v" "lift_sum (Inl e) k = Some (Inl e)"
  by (simp_all add: lift_sum_def)

lemma andThen_returns: "andThen m k = Some (Inr w') \<longleftrightarrow> (\<exists>v. m = Some (Inr v) \<and> k v = Some (Inr w'))"
  by (auto simp: andThen_def split: bind_splits sum.splits)

lemma bind_returns:
  "Option.bind m (\<lambda>r. case r of Inl e \<Rightarrow> Some (Inl e) | Inr v \<Rightarrow> k v) = Some (Inr w) \<longleftrightarrow>
     (\<exists>v. m = Some (Inr v) \<and> k v = Some (Inr w))"
  by (auto split: bind_splits sum.splits)

lemma lift_sum_returns: "lift_sum m k = Some (Inr w') \<longleftrightarrow> (\<exists>v. m = Inr v \<and> k v = Some (Inr w'))"
  by (cases m) (auto simp: lift_sum_def)

lemma read_timer_rest: "read_timer i w = Some (Inr (now, w')) \<Longrightarrow> \<exists>h. w' = w\<lparr>sh_timers := h\<rparr>"
  by (auto simp: read_timer_def)

text \<open>
  What holds when an operation returns. The rules compute the weakest condition over the ways in which
  operations are put together; the operations themselves have rules of the form \<open>ensuresI\<close>.
\<close>

definition ensures :: "'v outcome \<Rightarrow> ('v \<Rightarrow> bool) \<Rightarrow> bool" where
  "ensures m P \<longleftrightarrow> (\<forall>v. m = Some (Inr v) \<longrightarrow> P v)"

lemma ensures_simps [simp]:
  "ensures (Some (Inr v)) P = P v" "ensures (Some (Inl e)) P" "ensures None P"
  "ensures (andThen m k) P = ensures m (\<lambda>v. ensures (k v) P)"
  "ensures (lift_sum r k') P = (\<forall>v. r = Inr v \<longrightarrow> ensures (k' v) P)"
  "ensures (js_assert b msg n) P = (b \<longrightarrow> ensures n P)"
  "ensures (with_multiplexer k'' w) P = (hd_bHasMultiplexer (hd_of w) \<longrightarrow> ensures (k'' w) P)"
  "ensures (then_true m') Q = ensures m' (\<lambda>v. Q (True, v))"
  by (auto simp: ensures_def andThen_returns lift_sum_returns js_assert_def with_multiplexer_def then_true_def)

lemma ensures_if [simp]: "ensures (if b then m else n) P = (if b then ensures m P else ensures n P)"
  by simp

lemma ensuresI: "(\<And>v. m = Some (Inr v) \<Longrightarrow> P v) \<Longrightarrow> ensures m P"
  by (simp add: ensures_def)

lemma ensures_andThenI: "ensures m (\<lambda>v. ensures (k v) P) \<Longrightarrow> ensures (andThen m k) P"
  by simp

lemma ensures_mono: "ensures m Q \<Longrightarrow> (\<And>v. Q v \<Longrightarrow> P v) \<Longrightarrow> ensures m P"
  by (simp add: ensures_def)

lemma ensuresD: "ensures m P \<Longrightarrow> m = Some (Inr v) \<Longrightarrow> P v"
  by (simp add: ensures_def)

text \<open>The next frame: none when the queues are empty, otherwise within the bounds.\<close>

lemma schedule_cases:
  assumes "schedule_update w = Some (Inr w')"
  obtains (idle) "no_activities w" "sh_queue w = []" "w' = set_hd (hd_bIsIdle_update (\<lambda>_. True)) w"
  | (frame) n h where "MINIMUM_TIMEOUT \<le> n" "n \<le> MAXIMUM_TIMEOUT" "\<not> no_activities w \<Longrightarrow> n = MINIMUM_TIMEOUT"
      "\<not> no_activities w \<or> sh_queue w \<noteq> []"
      "w' = snd (setTimeout_show TO_update (n * 1000)
         (set_hd (hd_bIsIdle_update (\<lambda>_. False)) (set_frame_active (\<not> no_activities w) (w\<lparr>sh_timers := h\<rparr>))))"
proof (cases "no_activities w")
  case True
  show ?thesis
  proof (cases "sh_queue w = []")
    case True
    with \<open>no_activities w\<close> assms idle show ?thesis by (simp add: schedule_update_def pq_isEmpty_def)
  next
    case False
    then obtain n w1 where n: "nextTimeout w = Some (Inr (n, w1))"
      "w' = snd (setTimeout_show TO_update ((if n < MINIMUM_TIMEOUT then MINIMUM_TIMEOUT
          else if n > MAXIMUM_TIMEOUT then MAXIMUM_TIMEOUT else n) * 1000)
        (set_hd (hd_bIsIdle_update (\<lambda>_. False)) (set_frame_active False w1)))"
      using assms True by (auto simp: schedule_update_def pq_isEmpty_def andThen_returns)
    obtain h where "w1 = w\<lparr>sh_timers := h\<rparr>"
      using n(1) by (auto simp: nextTimeout_def andThen_returns dest!: read_timer_rest)
    with n(2) True False show ?thesis
      by (intro frame) (auto simp: MINIMUM_TIMEOUT_def MAXIMUM_TIMEOUT_def)
  qed
next
  case False
  then show ?thesis
    using assms by (intro frame [of MINIMUM_TIMEOUT "sh_timers w"])
      (auto simp: schedule_update_def MINIMUM_TIMEOUT_def MAXIMUM_TIMEOUT_def)
qed

subsection \<open>Relations that callbacks keep\<close>

text \<open>Every callback that returns relates the handler before to the one after.\<close>

definition callbacks_keep ::
    "('y handler \<Rightarrow> 'y handler \<Rightarrow> bool) \<Rightarrow> ('g, 'a, 'e, 'c, 'y) hd_run \<Rightarrow> ('g, 'a, 'e, 'c, 'y) hd_acts \<Rightarrow> bool" where
  "callbacks_keep rel run am \<longleftrightarrow>
     (\<forall>f w w'. run f w = Some (Inr w') \<longrightarrow> rel (hd_of w) (hd_of w')) \<and>
     (\<forall>a w n w'. am_calcTimeLag am a w = Some (Inr (n, w')) \<longrightarrow> rel (hd_of w) (hd_of w')) \<and>
     (\<forall>a w b w'. am_perform am a w = Some (Inr (b, w')) \<longrightarrow> rel (hd_of w) (hd_of w')) \<and>
     (\<forall>a w w'. am_dequeued am a w = Some (Inr w') \<longrightarrow> rel (hd_of w) (hd_of w')) \<and>
     (\<forall>a w w'. am_end am a w = Some (Inr w') \<longrightarrow> rel (hd_of w) (hd_of w'))"

lemma callbacks_keepD:
  assumes "callbacks_keep rel run am"
  shows "run f w = Some (Inr w') \<Longrightarrow> rel (hd_of w) (hd_of w')"
    and "am_calcTimeLag am a w = Some (Inr (n, w')) \<Longrightarrow> rel (hd_of w) (hd_of w')"
    and "am_perform am a w = Some (Inr (b, w')) \<Longrightarrow> rel (hd_of w) (hd_of w')"
    and "am_dequeued am a w = Some (Inr w') \<Longrightarrow> rel (hd_of w) (hd_of w')"
    and "am_end am a w = Some (Inr w') \<Longrightarrow> rel (hd_of w) (hd_of w')"
  using assms unfolding callbacks_keep_def by blast+

locale handler_relation =
  fixes rel :: "'y handler \<Rightarrow> 'y handler \<Rightarrow> bool"
  assumes refl [simp]: "rel h h"
    and trans: "rel h1 h2 \<Longrightarrow> rel h2 h3 \<Longrightarrow> rel h1 h3"
    and idle [simp]: "rel h (h\<lparr>hd_bIsIdle := b\<rparr>)"
    and frame [simp]: "rel h (h\<lparr>hd_aFrameSynchronization := fs\<rparr>)"
    and timeout [simp]: "rel h (h\<lparr>hd_nTimeoutId := Suc (hd_nTimeoutId h), hd_timeouts := hd_timeouts h @
      [\<lparr>to_id = Suc (hd_nTimeoutId h), to_call = TO_update, to_delay = d\<rparr>]\<rparr>)"
begin

lemma frame_update [simp]: "rel h (hd_aFrameSynchronization_update f h)"
proof -
  have "hd_aFrameSynchronization_update f h = h\<lparr>hd_aFrameSynchronization := f (hd_aFrameSynchronization h)\<rparr>"
    by (cases h) simp
  then show ?thesis by (metis frame)
qed

lemma for_live_rel:
  assumes "\<And>a w w'. call a w = Some (Inr w') \<Longrightarrow> rel (hd_of w) (hd_of w')"
  shows "for_live arr call i n w = Some (Inr w') \<Longrightarrow> rel (hd_of w) (hd_of w')"
  by (induction n arbitrary: i w)
    (auto simp: andThen_returns split: option.splits intro: trans [OF assms])

lemma drop_activities_rel:
  assumes "\<And>a w w'. call a w = Some (Inr w') \<Longrightarrow> rel (hd_of w) (hd_of w')"
    and "drop_activities call w = Some (Inr w')"
  shows "rel (hd_of w) (hd_of w')"
proof -
  obtain w1 w3 where w1: "for_live sh_waiting call 0 (length (sh_waiting w)) w = Some (Inr w1)"
    and w3: "for_live sh_reinsert call 0 (length (sh_reinsert w1)) (w1\<lparr>sh_waiting := []\<rparr>) = Some (Inr w3)"
    and w': "w' = w3\<lparr>sh_reinsert := []\<rparr>"
    using assms(2) by (auto simp: drop_activities_def andThen_returns)
  have "rel (hd_of w) (hd_of w1)" by (rule for_live_rel [OF assms(1) w1])
  moreover have "rel (hd_of (w1\<lparr>sh_waiting := []\<rparr>)) (hd_of w3)" by (rule for_live_rel [OF assms(1) w3])
  ultimately show ?thesis using trans by (simp add: w')
qed

lemma fire_rel:
  assumes "callbacks_keep rel run am" and "fire run i w = Some (Inr (b, w'))"
  shows "rel (hd_of w) (hd_of w')"
  using assms(2) callbacks_keepD(1) [OF assms(1)]
  by (fastforce simp: fire_def andThen_returns addActivity_def split: option.splits event.splits if_splits)

lemma process_loop_rel:
  assumes "callbacks_keep rel run am" and "process_loop run bAll now w = Some (Inr w')"
  shows "rel (hd_of w) (hd_of w')"
proof -
  have "callbacks_keep rel run am \<longrightarrow> (\<forall>w'. y = Inr w' \<longrightarrow> rel (hd_of w) (hd_of w'))"
    if "process_loop run bAll now w = Some y" for y
  proof (rule process_loop.raw_induct [OF _ that], intro impI allI)
    fix loop run bAll now w y w'
    assume IH: "\<And>run bAll now w y. loop run bAll now w = Some y \<Longrightarrow>
        callbacks_keep rel run am \<longrightarrow> (\<forall>w'. y = Inr w' \<longrightarrow> rel (hd_of w) (hd_of w'))"
      and body: "(case pq_top (sh_queue w) of
        None \<Rightarrow> Some (Inr w)
      | Some aEventEntry \<Rightarrow>
          if bAll \<or> ee_nActivationTime aEventEntry \<le> now then
            (let w1 = w\<lparr>sh_queue := snd (pq_pop (sh_queue w))\<rparr>
             in case sh_events w1 (ee_aEvent aEventEntry) of
                  None \<Rightarrow> Some (Inl TypeError)
                | Some aEvent \<Rightarrow>
                    if isCharged aEvent then
                      Option.bind (fire run (ee_aEvent aEventEntry) w1)
                        (\<lambda>r. case r of Inl e \<Rightarrow> Some (Inl e) | Inr v \<Rightarrow> loop run bAll now (snd v))
                    else loop run bAll now w1)
          else Some (Inr w)) = Some y"
      and keep: "callbacks_keep rel run am" and y: "y = Inr w'"
    have step: "rel (hd_of v) (hd_of w')" if "loop run bAll now v = Some (Inr w')" for v
      using IH [OF that] keep by simp
    show "rel (hd_of w) (hd_of w')"
    proof (cases "pq_top (sh_queue w)")
      case (Some e)
      define w1 where "w1 = w\<lparr>sh_queue := snd (pq_pop (sh_queue w))\<rparr>"
      have same: "hd_of w1 = hd_of w" by (simp add: w1_def)
      note body = body [unfolded Some option.case Let_def w1_def [symmetric] y]
      show ?thesis
      proof (cases "bAll \<or> ee_nActivationTime e \<le> now")
        case True
        with body obtain ev where ev: "sh_events w1 (ee_aEvent e) = Some ev" by (cases "sh_events w1 (ee_aEvent e)") auto
        show ?thesis
        proof (cases "isCharged ev")
          case charged: True
          then obtain v where v: "fire run (ee_aEvent e) w1 = Some (Inr v)" "loop run bAll now (snd v) = Some (Inr w')"
            using body True ev by (auto simp: bind_returns)
          have "rel (hd_of w1) (hd_of (snd v))" using v(1) by (cases v) (simp add: fire_rel [OF keep])
          then show ?thesis using step [OF v(2)] trans by (simp add: same)
        next
          case False
          then show ?thesis using body True ev step [of w1] by (simp add: same)
        qed
      next
        case False
        then show ?thesis using body by simp
      qed
    qed (use body y in simp)
  qed
  with assms show ?thesis by blast
qed

lemma process_queue_rel:
  assumes "callbacks_keep rel run am" and "process_queue run bAll w = Some (Inr w')"
  shows "rel (hd_of w) (hd_of w')"
proof -
  obtain now h where "process_loop run bAll now (w\<lparr>sh_timers := h\<rparr>) = Some (Inr w')"
    using assms(2) by (auto simp: process_queue_def andThen_returns dest!: read_timer_rest)
  from process_loop_rel [OF assms(1) this] show ?thesis by simp
qed

lemma lag_loop_rel:
  assumes "callbacks_keep rel run am"
  shows "lag_loop am i n nLag w = Some (Inr (m, w')) \<Longrightarrow> rel (hd_of w) (hd_of w')"
proof (induction n arbitrary: i nLag w)
  case (Suc n)
  then obtain a lag w1 where "am_calcTimeLag am a w = Some (Inr (lag, w1))"
    "lag_loop am (Suc i) n (max nLag lag) w1 = Some (Inr (m, w'))"
    by (auto simp: andThen_returns split: option.split_asm)
  then show ?case using callbacks_keepD(2) [OF assms] Suc.IH trans by blast
qed simp

lemma perform_loop_rel:
  assumes "callbacks_keep rel run am" and "perform_loop am w = Some (Inr w')"
  shows "rel (hd_of w) (hd_of w')"
proof -
  have "callbacks_keep rel run am \<longrightarrow> (\<forall>w'. y = Inr w' \<longrightarrow> rel (hd_of w) (hd_of w'))"
    if "perform_loop am w = Some y" for y
  proof (rule perform_loop.raw_induct [OF _ that], intro impI allI)
    fix loop am w y w'
    assume IH: "\<And>am w y. loop am w = Some y \<Longrightarrow>
        callbacks_keep rel run am \<longrightarrow> (\<forall>w'. y = Inr w' \<longrightarrow> rel (hd_of w) (hd_of w'))"
      and body: "(case sh_waiting w of
        [] \<Rightarrow> Some (Inr w)
      | a # rest \<Rightarrow>
          Option.bind (am_perform am a (w\<lparr>sh_waiting := rest\<rparr>))
            (\<lambda>r. case r of
               Inl e \<Rightarrow> Some (Inl e)
             | Inr v \<Rightarrow>
                 loop am
                   (if fst v then (snd v)\<lparr>sh_reinsert := sh_reinsert (snd v) @ [a]\<rparr>
                    else (snd v)\<lparr>sh_dequeued := sh_dequeued (snd v) @ [a]\<rparr>))) = Some y"
      and keep: "callbacks_keep rel run am" and y: "y = Inr w'"
    show "rel (hd_of w) (hd_of w')"
    proof (cases "sh_waiting w")
      case (Cons a rest)
      then obtain b v where v: "am_perform am a (w\<lparr>sh_waiting := rest\<rparr>) = Some (Inr (b, v))"
        and go: "loop am (if b then v\<lparr>sh_reinsert := sh_reinsert v @ [a]\<rparr>
                    else v\<lparr>sh_dequeued := sh_dequeued v @ [a]\<rparr>) = Some (Inr w')"
        using body y by (auto simp: bind_returns cong: if_cong)
      have "rel (hd_of w) (hd_of v)" using callbacks_keepD(3) [OF keep v] by simp
      moreover have "rel (hd_of v) (hd_of w')" using IH [OF go] keep by (simp split: if_splits)
      ultimately show ?thesis by (rule trans)
    qed (use body y in simp)
  qed
  with assms show ?thesis by blast
qed

lemma process_activities_rel:
  assumes "callbacks_keep rel run am" and "process_activities am w = Some (Inr w')"
  shows "rel (hd_of w) (hd_of w')"
proof -
  obtain n w1 w2 w3 where w1: "lag_loop am 0 (length (sh_waiting w)) 0 w = Some (Inr (n, w1))"
    and w2: "(if n > 0 then adjust_show (- n) w1 else returns w1) = Some (Inr w2)"
    and w3: "perform_loop am w2 = Some (Inr w3)"
    and w': "w' = (if sh_reinsert w3 \<noteq> [] then w3\<lparr>sh_waiting := sh_reinsert w3, sh_reinsert := []\<rparr> else w3)"
    using assms(2) by (auto simp: process_activities_def andThen_returns)
  have "hd_of w2 = hd_of w1" using w2 by (auto simp: adjust_show_def split: if_splits)
  then show ?thesis
    using lag_loop_rel [OF assms(1) w1] perform_loop_rel [OF assms(1) w3] trans by (simp add: w')
qed

lemma busy_wait_rel:
  assumes "busy_wait tick w = Some (Inr w')"
  shows "rel (hd_of w) (hd_of w')"
proof -
  have "\<forall>w'. y = Inr w' \<longrightarrow> hd_of w' = hd_of w" if "busy_wait tick w = Some y" for y
  proof (rule busy_wait.raw_induct [OF _ that], intro allI impI)
    fix loop tick w y w'
    assume IH: "\<And>tick w y. loop tick w = Some y \<Longrightarrow> \<forall>w'. y = Inr w' \<longrightarrow> hd_of w' = hd_of w"
      and body: "Option.bind (read_timer (fs_aTimer (hd_aFrameSynchronization (hd_of w))) w) (\<lambda>r.
       case r of
         Inl e \<Rightarrow> Some (Inl e)
       | Inr v \<Rightarrow>
           if fst v < fs_nNextFrameTargetTime (hd_aFrameSynchronization (hd_of (snd v)))
           then loop tick ((snd v)\<lparr>sh_clock := tick (sh_clock (snd v))\<rparr>)
           else Some (Inr (snd v))) = Some y"
      and y: "y = Inr w'"
    obtain now v where v: "read_timer (fs_aTimer (hd_aFrameSynchronization (hd_of w))) w = Some (Inr (now, v))"
      and go: "(if now < fs_nNextFrameTargetTime (hd_aFrameSynchronization (hd_of v))
           then loop tick (v\<lparr>sh_clock := tick (sh_clock v)\<rparr>) else Some (Inr v)) = Some (Inr w')"
      using body y by (auto simp: bind_returns cong: if_cong)
    have same: "hd_of v = hd_of w" using read_timer_rest [OF v] by auto
    show "hd_of w' = hd_of w"
    proof (cases "now < fs_nNextFrameTargetTime (hd_aFrameSynchronization (hd_of v))")
      case True
      then have "loop tick (v\<lparr>sh_clock := tick (sh_clock v)\<rparr>) = Some (Inr w')" using go by simp
      from IH [OF this] same show ?thesis by simp
    qed (use go same in simp)
  qed
  from this [OF assms] show ?thesis by simp
qed

lemma synchronize_rel:
  assumes "synchronize tick w = Some (Inr w')"
  shows "rel (hd_of w) (hd_of w')"
proof -
  obtain w1 where w1: "(if fs_bIsActive (hd_aFrameSynchronization (hd_of w)) then busy_wait tick w else Some (Inr w)) = Some (Inr w1)"
    and w': "markCurrentFrame w1 = Some (Inr w')"
    using assms by (auto simp: synchronize_def andThen_returns cong: if_cong)
  have "rel (hd_of w) (hd_of w1)" using w1 busy_wait_rel by (auto split: if_splits)
  moreover have "rel (hd_of w1) (hd_of w')"
    using w' by (auto simp: markCurrentFrame_def andThen_returns dest!: read_timer_rest)
  ultimately show ?thesis by (rule trans)
qed

lemma schedule_rel:
  assumes "schedule_update w = Some (Inr w')"
  shows "rel (hd_of w) (hd_of w')"
  using assms
proof (cases rule: schedule_cases)
  case (frame n h)
  show ?thesis
    unfolding frame(5) using trans [OF trans [OF frame_update idle] timeout]
    by (simp add: setTimeout_show_def Let_def)
qed simp

lemma update_before:
  assumes "callbacks_keep rel run am" and "update_show sc am run w = Some (Inr w')"
  obtains w6 where "rel (hd_of w) (hd_of w6)" "schedule_update w6 = Some (Inr w')"
proof -
  obtain w1 w2 w3 w4 w5 w6 where w1: "hold_show w = Some (Inr w1)"
    and w2: "process_events run w1 = Some (Inr w2)" and w3: "process_activities am w2 = Some (Inr w3)"
    and w4: "(if \<not> hd_bIsTransitionRunning (hd_of w3) then synchronize (sc_tick sc) w3 else returns w3) = Some (Inr w4)"
    and w5: "processDequeued am w4 = Some (Inr w5)" and w6: "release_show w5 = Some (Inr w6)"
    and w': "schedule_update w6 = Some (Inr w')"
    using assms(2) by (auto simp: update_show_def andThen_returns)
  have "rel (hd_of w1) (hd_of w2)" using w2 by (simp add: process_events_def process_queue_rel [OF assms(1)])
  moreover have "hd_of w1 = hd_of w" "hd_of w6 = hd_of w5" using w1 w6 by (auto simp: hold_show_def release_show_def)
  moreover have "rel (hd_of w3) (hd_of w4)" using w4 synchronize_rel by (auto split: if_splits)
  moreover have "rel (hd_of w4) (hd_of w5)"
  proof -
    obtain v where "for_live sh_dequeued (am_dequeued am) 0 (length (sh_dequeued w4)) w4 = Some (Inr v)"
      and w5: "w5 = v\<lparr>sh_dequeued := []\<rparr>"
      using w5 by (auto simp: processDequeued_def andThen_returns)
    from for_live_rel [OF callbacks_keepD(4) [OF assms(1)] this(1)] w5 show ?thesis by simp
  qed
  ultimately have "rel (hd_of w) (hd_of w2)" "rel (hd_of w2) (hd_of w3)" "rel (hd_of w3) (hd_of w4)" "rel (hd_of w4) (hd_of w6)"
    using process_activities_rel [OF assms(1) w3] by simp_all
  from trans [OF trans [OF trans [OF this(1,2)] this(3)] this(4)] w' show ?thesis by (rule that)
qed

lemma update_rel:
  assumes "callbacks_keep rel run am" and "update_show sc am run w = Some (Inr w')"
  shows "rel (hd_of w) (hd_of w')"
proof -
  obtain w6 where "rel (hd_of w) (hd_of w6)" and w6: "schedule_update w6 = Some (Inr w')" by (rule update_before [OF assms])
  from this(1) schedule_rel [OF w6] show ?thesis by (rule trans)
qed

end

subsection \<open>Notifications\<close>

text \<open>Notifications of the multiplexer put events into the queue and leave the handler alone.\<close>

lemma getActivationTime_rest: "getActivationTime i n w = Some (Inr (t, w')) \<Longrightarrow> sh_rest w' = sh_rest w"
  unfolding getActivationTime_def
  by (cases "sh_events w i"; cases "the (sh_events w i)") (auto simp: andThen_returns dest!: read_timer_rest)

lemma addEvent_rest: "addEvent e w = Some (Inr (b, w')) \<Longrightarrow> sh_rest w' = sh_rest w"
  unfolding addEvent_def by (cases e) (auto simp: andThen_returns dest!: read_timer_rest getActivationTime_rest)

lemma notify_hd:
  "notifySkipEffectEvent w = Some (Inr w') \<Longrightarrow> hd_of w' = hd_of w"
  "notifyRewindCurrentEffectEvent w = Some (Inr w') \<Longrightarrow> hd_of w' = hd_of w"
  "notifyRewindLastEffectEvent w = Some (Inr w') \<Longrightarrow> hd_of w' = hd_of w"
  "notifySkipInteractiveEffectEvent i w = Some (Inr w') \<Longrightarrow> hd_of w' = hd_of w"
  "notifyRewindRunningInteractiveEffectEvent i w = Some (Inr w') \<Longrightarrow> hd_of w' = hd_of w"
  "notifyRewindEndedInteractiveEffectEvent i w = Some (Inr w') \<Longrightarrow> hd_of w' = hd_of w"
  by (auto simp: notifySkipEffectEvent_def notifyRewindCurrentEffectEvent_def notifyRewindLastEffectEvent_def
      notifySkipInteractiveEffectEvent_def notifyRewindRunningInteractiveEffectEvent_def notifyRewindEndedInteractiveEffectEvent_def
      notify_once_def notify_in_def not_null_def andThen_returns split: if_split_asm option.split_asm dest!: addEvent_rest)

lemma fire_current_cases:
  assumes "fire_current run w = Some (Inr w')"
  obtains i b where "js_nth (hd_aNextEffectEventArray (hd_of w)) (hd_nCurrentEffect (hd_of w)) = Some i"
    "fire run i w = Some (Inr (b, w'))"
  using assms by (auto simp: fire_current_def andThen_returns split: if_split_asm option.split_asm)

lemma skip_playing_hd:
  assumes "skip_playing i w = Some (Inr w')"
  shows "hd_of w' = hd_of w"
proof -
  have "\<forall>w'. y = Inr w' \<longrightarrow> hd_of w' = hd_of w" if "skip_playing i w = Some y" for y
  proof (rule skip_playing.raw_induct [OF _ that], intro allI impI)
    fix loop i w y w'
    assume IH: "\<And>i w y. loop i w = Some y \<Longrightarrow> \<forall>w'. y = Inr w' \<longrightarrow> hd_of w' = hd_of w"
      and body: "(if i < length (hd_aStartedEffectList (hd_of w))
      then let aEffect = hd_aStartedEffectList (hd_of w) ! i
           in Option.bind
                (if isPlaying aEffect
                 then with_multiplexer (if isMainEffect aEffect then notifySkipEffectEvent
                                        else notifySkipInteractiveEffectEvent (ef_nId aEffect)) w
                 else Some (Inr w))
                (\<lambda>r. case r of Inl e \<Rightarrow> Some (Inl e) | Inr w1 \<Rightarrow> loop (Suc i) w1)
      else Some (Inr w)) = Some y"
      and y: "y = Inr w'"
    show "hd_of w' = hd_of w"
    proof (cases "i < length (hd_aStartedEffectList (hd_of w))")
      case True
      define e where "e = hd_aStartedEffectList (hd_of w) ! i"
      from body True obtain w1 where w1: "(if isPlaying e then with_multiplexer (if isMainEffect e then notifySkipEffectEvent
            else notifySkipInteractiveEffectEvent (ef_nId e)) w else Some (Inr w)) = Some (Inr w1)" "loop (Suc i) w1 = Some (Inr w')"
        by (simp add: e_def [symmetric] Let_def bind_returns y) blast
      have "hd_of w1 = hd_of w" using w1(1) notify_hd(1,4) by (auto simp: with_multiplexer_def split: if_split_asm)
      then show ?thesis using IH [OF w1(2)] by simp
    qed (use body y in simp)
  qed
  from this [OF assms] show ?thesis by simp
qed

lemma add_all_rest: "add_all es w = Some (Inr w') \<Longrightarrow> sh_rest w' = sh_rest w"
  by (induction es arbitrary: w) (auto simp: andThen_returns dest!: addEvent_rest)

lemma notifyEvent_hd: "notifyEvent trig n w = Some (Inr w') \<Longrightarrow> hd_of w' = hd_of w"
  by (auto simp: notifyEvent_def not_null_def split: option.split_asm dest!: add_all_rest)

lemma notify_ensures:
  assumes "\<And>w'. hd_of w' = hd_of w \<Longrightarrow> P w'"
  shows "ensures (notifySkipEffectEvent w) P" "ensures (notifyRewindCurrentEffectEvent w) P"
    "ensures (notifyRewindLastEffectEvent w) P" "ensures (notifySkipInteractiveEffectEvent i w) P"
    "ensures (notifyRewindRunningInteractiveEffectEvent i w) P" "ensures (notifyRewindEndedInteractiveEffectEvent i w) P"
  using assms notify_hd by (blast intro: ensuresI)+

lemma skip_playing_ensures: "(\<And>w'. hd_of w' = hd_of w \<Longrightarrow> P w') \<Longrightarrow> ensures (skip_playing i w) P"
  using skip_playing_hd by (blast intro: ensuresI)

text \<open>The notifications of a rewind only move the current effect back.\<close>

lemma rewind_one_ensures:
  assumes "\<And>w' f. hd_of w' = hd_nCurrentEffect_update f (hd_of w) \<Longrightarrow> P w'"
  shows "ensures (rewind_one e w) P"
proof -
  have same: "P w'" if "hd_of w' = hd_of w" for w' using assms [of w' id] that by simp
  show ?thesis
    unfolding rewind_one_def by (auto intro!: notify_ensures intro: same assms)
qed

lemma rewind_down_ensures:
  assumes "\<And>w' f. hd_of w' = hd_nCurrentEffect_update f (hd_of w) \<Longrightarrow> P w'"
  shows "ensures (rewind_down i k w) P"
  using assms
proof (induction k arbitrary: w)
  case 0
  then show ?case using 0 [of w id] by simp
next
  case (Suc k)
  show ?case
  proof (cases "js_nth (hd_aStartedEffectList (hd_of w)) (int (i + k))")
    case (Some e)
    then show ?thesis
      using Suc.prems by (simp del: of_nat_add) (intro rewind_one_ensures Suc.IH, simp)
  qed (simp del: of_nat_add)
qed

lemma end_effect_cases:
  assumes "end_effect n w = Some (Inr w')"
  obtains (none) "w' = w" "\<And>i. hd_aStartedEffectIndexMap (hd_of w) n = Some i \<Longrightarrow> length (hd_aStartedEffectList (hd_of w)) \<le> i"
  | (ended) i where "hd_aStartedEffectIndexMap (hd_of w) n = Some i" "i < length (hd_aStartedEffectList (hd_of w))"
      "isPlaying (hd_aStartedEffectList (hd_of w) ! i)"
      "w' = set_hd (hd_aStartedEffectList_update (\<lambda>es. es[i := (es ! i)\<lparr>ef_eState := Effect_Ended\<rparr>])) w"
proof (cases "hd_aStartedEffectIndexMap (hd_of w) n")
  case (Some i)
  show ?thesis
  proof (cases "i < length (hd_aStartedEffectList (hd_of w))")
    case True
    with Some assms show ?thesis
      by (intro ended [of i]) (auto simp: end_effect_def lift_sum_returns effect_end_def isPlaying_def split: if_split_asm)
  next
    case False
    then show ?thesis using Some assms none by (auto simp: end_effect_def js_nth_def)
  qed
qed (use assms none in \<open>auto simp: end_effect_def\<close>)

subsection \<open>Invariants of the operations\<close>

text \<open>
  \<open>I\<close> holds between operations, \<open>J\<close> is what a frame needs and \<open>K\<close> holds while an effect is started and not
  yet counted; \<open>good\<close> is what the invariant trusts the calls and callbacks with.
\<close>

fun plain_call :: "show_effect \<Rightarrow> bool" where
  "plain_call (A11y s) = True"
| "plain_call (SendFollowEffect n) = True"
| "plain_call RewindToPreviousSlide = True"
| "plain_call (SwitchSlide n b) = True"
| "plain_call (SetCursor c) = True"
| "plain_call eff = False"

text \<open>The operations on the effects of a slide, the timeouts of the browser and the clicks on elements.\<close>

inductive effect_step ::
    "('g, 'a, 'e, 'c, 'y) hd_calls \<Rightarrow> ('g, 'a, 'e, 'c, 'y) hd_acts \<Rightarrow> ('g, 'a, 'e, 'c, 'y) hd_run \<Rightarrow>
     ('g, 'a, 'e, 'c, 'y) hd_show \<Rightarrow> ('g, 'a, 'e, 'c, 'y) hd_show \<Rightarrow> bool"
  for sc am run where
  next_effect: "nextEffect sc am run w = returns (b, w') \<Longrightarrow> effect_step sc am run w w'"
| skip_effect: "skipPlayingOrNextEffect sc am run w = returns (b, w') \<Longrightarrow> effect_step sc am run w w'"
| skip_all: "skipAllEffects sc am run w = returns (b, w') \<Longrightarrow> effect_step sc am run w w'"
| skip_some: "skipNEffects sc am run n w = returns w' \<Longrightarrow> effect_step sc am run w w'"
| rewind: "rewindEffect sc am run w = returns w' \<Longrightarrow> effect_step sc am run w w'"
| rewind_all: "rewindAllEffects sc am run w = returns w' \<Longrightarrow> effect_step sc am run w w'"
| timeout: "t \<in> set (hd_timeouts (hd_of w)) \<Longrightarrow> fire_timeout sc am run t w = returns w' \<Longrightarrow> effect_step sc am run w w'"
| click: "element_handleClick sc am run se w = returns (b, se', w') \<Longrightarrow> effect_step sc am run w w'"

locale show_invariant =
  fixes good :: "('g, 'a, 'e, 'c, 'y) hd_calls \<Rightarrow> ('g, 'a, 'e, 'c, 'y) hd_acts \<Rightarrow> ('g, 'a, 'e, 'c, 'y) hd_run \<Rightarrow> bool"
    and I J K :: "('g, 'a, 'e, 'c, 'y) hd_show \<Rightarrow> bool"
  assumes I_J: "I w \<Longrightarrow> J w"
    and same: "hd_of w' = hd_of w \<Longrightarrow> J w \<Longrightarrow> J w'" "hd_of w' = hd_of w \<Longrightarrow> K w \<Longrightarrow> K w'"
    and flags [simp]: "I (set_skipping b w) = I w" "I (set_rewinding b w) = I w" "I (set_skipping_all b w) = I w"
      "J (set_skipping b w) = J w" "J (set_rewinding b w) = J w" "K (set_skipping b w) = K w"
    and frame: "good sc am run \<Longrightarrow> J w \<Longrightarrow> update_show sc am run w = Some (Inr w') \<Longrightarrow> I w'"
    and ends: "good sc am run \<Longrightarrow> J w \<Longrightarrow> endAll am w = Some (Inr w') \<Longrightarrow> J w'"
    and empties: "good sc am run \<Longrightarrow> J w \<Longrightarrow> forceEmpty run w = Some (Inr w') \<Longrightarrow> J w'"
    and starts: "good sc am run \<Longrightarrow> I w \<Longrightarrow> notifyNextEffectStart sc w = Some (Inr w') \<Longrightarrow> K w'"
    and fires: "good sc am run \<Longrightarrow> K w \<Longrightarrow> fire_current run w = Some (Inr w') \<Longrightarrow> K w'"
    and counts: "K w \<Longrightarrow> J (set_hd (hd_nCurrentEffect_update (\<lambda>n. n + 1)) w)"
    and calls: "good sc am run \<Longrightarrow> plain_call eff \<Longrightarrow> I w \<Longrightarrow> sc_call sc eff w = Some (Inr w') \<Longrightarrow> I w'"
    and rewinds: "good sc am run \<Longrightarrow> I w \<Longrightarrow> rewind_started sc am run w = Some (Inr w') \<Longrightarrow> I w'"
    and advances: "I w \<Longrightarrow> I (set_hd (\<lambda>h. h\<lparr>hd_automaticAdvanceTimeout := Adv_rewinded (hd_nCurrentEffect h)\<rparr>) (clear_advance w))"
    and expires: "I w \<Longrightarrow> J (set_hd (hd_timeouts_update (remove1 t)) w)"
      "I w \<Longrightarrow> to_call t \<noteq> TO_update \<Longrightarrow> I (set_hd (hd_timeouts_update (remove1 t)) w)"
begin

lemma update_ensures:
  "good sc am run \<Longrightarrow> J w \<Longrightarrow> (\<And>w'. I w' \<Longrightarrow> P w') \<Longrightarrow> ensures (update_show sc am run w) P"
  using frame by (blast intro: ensuresI)

lemma call_ensures:
  "good sc am run \<Longrightarrow> I w \<Longrightarrow> plain_call eff \<Longrightarrow> (\<And>w'. I w' \<Longrightarrow> P w') \<Longrightarrow> ensures (sc_call sc eff w) P"
  using calls by (blast intro: ensuresI)

lemma a11y_ensures:
  "good sc am run \<Longrightarrow> I w \<Longrightarrow> (\<And>w'. I w' \<Longrightarrow> P w') \<Longrightarrow> ensures (addA11yString sc t w) P"
  unfolding addA11yString_def by (simp add: call_ensures)

lemma endAll_ensures:
  "good sc am run \<Longrightarrow> J w \<Longrightarrow> (\<And>w'. J w' \<Longrightarrow> P w') \<Longrightarrow> ensures (endAll am w) P"
  using ends by (blast intro: ensuresI)

lemma forceEmpty_ensures:
  "good sc am run \<Longrightarrow> J w \<Longrightarrow> (\<And>w'. J w' \<Longrightarrow> P w') \<Longrightarrow> ensures (forceEmpty run w) P"
  using empties by (blast intro: ensuresI)

lemma start_ensures:
  "good sc am run \<Longrightarrow> I w \<Longrightarrow> (\<And>w'. K w' \<Longrightarrow> P w') \<Longrightarrow> ensures (notifyNextEffectStart sc w) P"
  using starts by (blast intro: ensuresI)

lemma fire_current_ensures:
  "good sc am run \<Longrightarrow> K w \<Longrightarrow> (\<And>w'. K w' \<Longrightarrow> P w') \<Longrightarrow> ensures (fire_current run w) P"
  using fires by (blast intro: ensuresI)

lemma skip_notify_ensures: "K w \<Longrightarrow> (\<And>w'. K w' \<Longrightarrow> P w') \<Longrightarrow> ensures (notifySkipEffectEvent w) P"
  using same(2) by (auto intro!: notify_ensures)

lemma notify_frame_ensures:
  assumes "J w" and "\<And>w'. J w' \<Longrightarrow> P w'"
  shows "ensures (notifySkipEffectEvent w) P" "ensures (notifyRewindCurrentEffectEvent w) P" "ensures (skip_playing i w) P"
  using assms same(1) by (auto intro!: notify_ensures skip_playing_ensures)

lemma skipTransition_ensures:
  assumes "good sc am run" and "I w" and "\<And>w'. I w' \<Longrightarrow> P w'"
  shows "ensures (skipTransition sc am run w) P"
  using assms
  by (auto simp: skipTransition_def I_J intro!: endAll_ensures [OF assms(1)] forceEmpty_ensures [OF assms(1)]
      update_ensures [OF assms(1)])

lemma skipFirstAutoEffect_ensures:
  assumes "good sc am run" and "I w" and "\<And>w'. I w' \<Longrightarrow> P w'"
  shows "ensures (skipFirstAutoEffect sc am run w) P"
  using assms by (auto simp: skipFirstAutoEffect_def I_J intro!: notify_frame_ensures update_ensures [OF assms(1)])

lemma skipAllPlayingEffects_ensures:
  assumes "good sc am run" and "I w" and "\<And>w'. I w' \<Longrightarrow> P (True, w')"
  shows "ensures (skipAllPlayingEffects sc am run w) P"
  using assms by (auto simp: skipAllPlayingEffects_def I_J intro!: a11y_ensures [OF assms(1)] notify_frame_ensures
      update_ensures [OF assms(1)])

lemma skipNextEffect_ensures:
  assumes "good sc am run" and "I w" and "\<And>b w'. I w' \<Longrightarrow> P (b, w')"
  shows "ensures (skipNextEffect sc am run w) P"
  using assms
  by (auto simp: skipNextEffect_def I_J intro!: start_ensures [OF assms(1)] fire_current_ensures [OF assms(1)]
      skip_notify_ensures counts update_ensures [OF assms(1)])

lemma skip_upto_ensures:
  assumes "good sc am run" and "I w" and "\<And>w'. I w' \<Longrightarrow> P w'"
  shows "ensures (skip_upto sc am run k w) P"
  using assms(2) by (induction k arbitrary: w) (auto intro!: skipNextEffect_ensures [OF assms(1)] simp: assms(3))

lemma skipPlayingOrNextEffect_ensures:
  assumes "good sc am run" and "I w" and "\<And>b w'. I w' \<Longrightarrow> P (b, w')"
  shows "ensures (skipPlayingOrNextEffect sc am run w) P"
  using assms
  by (auto simp: skipPlayingOrNextEffect_def intro!: a11y_ensures [OF assms(1)] skipTransition_ensures [OF assms(1)]
      skipFirstAutoEffect_ensures [OF assms(1)] skipAllPlayingEffects_ensures [OF assms(1)] skipNextEffect_ensures [OF assms(1)])

lemma skip_all_loop_keeps:
  assumes "good sc am run" and "I w" and "skip_all_loop sc am run w = Some (Inr w')"
  shows "I w'"
proof -
  have "good sc am run \<longrightarrow> I w \<longrightarrow> (\<forall>w'. y = Inr w' \<longrightarrow> I w')" if "skip_all_loop sc am run w = Some y" for y
  proof (rule skip_all_loop.raw_induct [OF _ that], intro allI impI)
    fix loop sc am run w y w'
    assume IH: "\<And>sc am run w y. loop sc am run w = Some y \<Longrightarrow> good sc am run \<longrightarrow> I w \<longrightarrow> (\<forall>w'. y = Inr w' \<longrightarrow> I w')"
      and body: "(if \<not> hd_bHasEffectArray (hd_of w) then Some (Inl TypeError)
      else if effect_left w
      then Option.bind (skipNextEffect sc am run w)
             (\<lambda>r. case r of Inl e \<Rightarrow> Some (Inl e) | Inr v \<Rightarrow> loop sc am run (snd v))
      else Some (Inr w)) = Some y"
      and good: "good sc am run" and inv: "I w" and y: "y = Inr w'"
    show "I w'"
    proof (cases "effect_left w")
      case True
      with body y obtain v where v: "skipNextEffect sc am run w = Some (Inr v)" "loop sc am run (snd v) = Some (Inr w')"
        by (auto simp: bind_returns split: if_split_asm)
      have "I (snd v)" by (rule ensuresD [OF skipNextEffect_ensures [OF good inv] v(1)]) simp
      then show ?thesis using IH [OF v(2)] good by simp
    qed (use body y inv in \<open>simp split: if_split_asm\<close>)
  qed
  with assms show ?thesis by blast
qed

lemma skip_all_loop_ensures:
  "good sc am run \<Longrightarrow> I w \<Longrightarrow> (\<And>w'. I w' \<Longrightarrow> P w') \<Longrightarrow> ensures (skip_all_loop sc am run w) P"
  using skip_all_loop_keeps by (blast intro: ensuresI)

text \<open>The two skips at the start of \<open>skipAllEffects\<close> and \<open>displaySlide\<close>.\<close>

lemma skip_running_ensures:
  assumes "good sc am run" and "I w" and "\<And>w'. I w' \<Longrightarrow> P w'"
  shows "ensures (if hd_bIsTransitionRunning (hd_of w) then skipTransition sc am run w else returns w) P"
    and "ensures (if hd_bIsFirstAutoEffectRunning (hd_of w) then skipFirstAutoEffect sc am run w else returns w) P"
  using assms skipTransition_ensures [OF assms] skipFirstAutoEffect_ensures [OF assms] by simp_all

lemma skipAllEffects_ensures:
  assumes "good sc am run" and "I w" and "\<And>b w'. I w' \<Longrightarrow> P (b, w')"
  shows "ensures (skipAllEffects sc am run w) P"
proof (cases "hd_bIsSkippingAll (hd_of w)")
  case False
  have tail: "ensures (skip_rest sc am run v) P" if "I v" for v
    using that assms
    by (auto simp: skip_rest_def intro!: skipAllPlayingEffects_ensures [OF assms(1)] skip_all_loop_ensures [OF assms(1)])
  have "I (set_skipping_all True w)" using assms(2) by simp
  then show ?thesis
    unfolding skipAllEffects_def Let_def using False
    by (simp only: if_False ensures_simps) (intro skip_running_ensures [OF assms(1)] tail)
qed (use assms in \<open>simp add: skipAllEffects_def\<close>)

lemma nextEffect_ensures:
  assumes "good sc am run" and "I w" and "\<And>b w'. I w' \<Longrightarrow> P (b, w')"
  shows "ensures (nextEffect sc am run w) P"
  using assms
  by (auto simp: nextEffect_def I_J intro!: a11y_ensures [OF assms(1)] skipTransition_ensures [OF assms(1)]
      skipFirstAutoEffect_ensures [OF assms(1)] skipAllPlayingEffects_ensures [OF assms(1)] call_ensures [OF assms(1)]
      start_ensures [OF assms(1)] fire_current_ensures [OF assms(1)] counts update_ensures [OF assms(1)])

lemma rewindTransition_ensures:
  assumes "good sc am run" and "I w" and "\<And>w'. I w' \<Longrightarrow> P w'"
  shows "ensures (rewindTransition sc am run w) P"
  using assms by (auto simp: rewindTransition_def I_J intro!: endAll_ensures [OF assms(1)] update_ensures [OF assms(1)])

lemma rewindFirstAutoEffect_ensures:
  assumes "good sc am run" and "I w" and "\<And>w'. I w' \<Longrightarrow> P w'"
  shows "ensures (rewindFirstAutoEffect sc am run w) P"
  using assms by (auto simp: rewindFirstAutoEffect_def I_J intro!: notify_frame_ensures update_ensures [OF assms(1)])

lemma rewindToPreviousSlide_ensures:
  assumes "good sc am run" and "I w" and "\<And>w'. I w' \<Longrightarrow> P w'"
  shows "ensures (rewindToPreviousSlide_show sc am run w) P"
  using assms
  by (auto simp: rewindToPreviousSlide_show_def intro!: rewindFirstAutoEffect_ensures [OF assms(1)]
      rewindTransition_ensures [OF assms(1)] call_ensures [OF assms(1)])

lemma rewind_started_ensures:
  "good sc am run \<Longrightarrow> I w \<Longrightarrow> (\<And>w'. I w' \<Longrightarrow> P w') \<Longrightarrow> ensures (rewind_started sc am run w) P"
  using rewinds by (blast intro: ensuresI)

lemma rewindEffect_ensures:
  assumes "good sc am run" and "I w" and "\<And>w'. I w' \<Longrightarrow> P w'"
  shows "ensures (rewindEffect sc am run w) P"
proof (cases "busy w")
  case False
  define w0 where "w0 = (if advance_pending (hd_automaticAdvanceTimeout (hd_of w))
     then set_hd (\<lambda>h. h\<lparr>hd_automaticAdvanceTimeout := Adv_rewinded (hd_nCurrentEffect h)\<rparr>) (clear_advance w) else w)"
  have "I w0" using assms(2) advances [OF assms(2)] by (simp add: w0_def)
  then show ?thesis
    unfolding rewindEffect_def w0_def [symmetric] using False assms(3)
    by (auto intro!: rewind_started_ensures [OF assms(1)] a11y_ensures [OF assms(1)] rewindToPreviousSlide_ensures [OF assms(1)] call_ensures [OF assms(1)])
qed (use assms in \<open>simp add: rewindEffect_def\<close>)

lemma rewind_all_loop_keeps:
  assumes "good sc am run" and "I w" and "rewind_all_loop sc am run w = Some (Inr w')"
  shows "I w'"
proof -
  have "good sc am run \<longrightarrow> I w \<longrightarrow> (\<forall>w'. y = Inr w' \<longrightarrow> I w')" if "rewind_all_loop sc am run w = Some y" for y
  proof (rule rewind_all_loop.raw_induct [OF _ that], intro allI impI)
    fix loop sc am run w y w'
    assume IH: "\<And>sc am run w y. loop sc am run w = Some y \<Longrightarrow> good sc am run \<longrightarrow> I w \<longrightarrow> (\<forall>w'. y = Inr w' \<longrightarrow> I w')"
      and body: "(if hasAnyEffectStarted w
      then Option.bind (rewindEffect sc am run w)
             (\<lambda>r. case r of Inl e \<Rightarrow> Some (Inl e) | Inr w1 \<Rightarrow> loop sc am run w1)
      else Some (Inr w)) = Some y"
      and good: "good sc am run" and inv: "I w" and y: "y = Inr w'"
    show "I w'"
    proof (cases "hasAnyEffectStarted w")
      case True
      with body y obtain v where v: "rewindEffect sc am run w = Some (Inr v)" "loop sc am run v = Some (Inr w')"
        by (auto simp: bind_returns)
      have "I v" by (rule ensuresD [OF rewindEffect_ensures [OF good inv] v(1)]) simp
      then show ?thesis using IH [OF v(2)] good by simp
    qed (use body y inv in simp)
  qed
  with assms show ?thesis by blast
qed

lemma rewindAllEffects_ensures:
  assumes "good sc am run" and "I w" and "\<And>w'. I w' \<Longrightarrow> P w'"
  shows "ensures (rewindAllEffects sc am run w) P"
proof -
  have "ensures (rewind_all_loop sc am run v) P" if "I v" for v
    using rewind_all_loop_keeps [OF assms(1) that] assms(3) by (blast intro: ensuresI)
  then show ?thesis
    unfolding rewindAllEffects_def using assms
    by (auto intro!: a11y_ensures [OF assms(1)] rewindToPreviousSlide_ensures [OF assms(1)])
qed

lemma fire_timeout_ensures:
  assumes "good sc am run" and "I w"
  shows "ensures (fire_timeout sc am run t w) I"
proof (cases "to_call t = TO_update")
  case True
  then show ?thesis using expires(1) [OF assms(2)] by (auto simp: fire_timeout_def intro!: update_ensures [OF assms(1)])
next
  case False
  then show ?thesis
    using expires(2) [OF assms(2) False]
    by (cases "to_call t") (auto simp: fire_timeout_def intro!: call_ensures [OF assms(1)] a11y_ensures [OF assms(1)])
qed

lemma handleClick_ensures:
  assumes "good sc am run" and "I w"
  shows "ensures (element_handleClick sc am run se w) (\<lambda>r. I (snd (snd r)))"
proof -
  have "ensures (notifyEvent trig n w) (\<lambda>v. ensures (update_show sc am run v) (\<lambda>u. ensures (sc_call sc (SetCursor c) u) I))"
    for trig n c
    using same(1) [OF notifyEvent_hd I_J [OF assms(2)]]
    by (intro ensuresI [of "notifyEvent trig n w"] update_ensures [OF assms(1)] call_ensures [OF assms(1)]) auto
  then show ?thesis using assms(2) by (simp add: element_handleClick_def)
qed

lemma effect_step_keeps:
  assumes "good sc am run" and "effect_step sc am run w w'" and "I w"
  shows "I w'"
  using assms(2)
proof cases
  case next_effect
  then show ?thesis using nextEffect_ensures [OF assms(1,3), of "\<lambda>r. I (snd r)"] by (simp add: ensures_def)
next
  case skip_effect
  then show ?thesis using skipPlayingOrNextEffect_ensures [OF assms(1,3), of "\<lambda>r. I (snd r)"] by (simp add: ensures_def)
next
  case skip_all
  then show ?thesis using skipAllEffects_ensures [OF assms(1,3), of "\<lambda>r. I (snd r)"] by (simp add: ensures_def)
next
  case skip_some
  then show ?thesis using skip_upto_ensures [OF assms(1,3), of I] by (simp add: ensures_def skipNEffects_def)
next
  case rewind
  then show ?thesis using rewindEffect_ensures [OF assms(1,3), of I] by (simp add: ensures_def)
next
  case rewind_all
  then show ?thesis using rewindAllEffects_ensures [OF assms(1,3), of I] by (simp add: ensures_def)
next
  case timeout
  then show ?thesis using fire_timeout_ensures [OF assms(1,3)] by (simp add: ensures_def)
next
  case click
  then show ?thesis using handleClick_ensures [OF assms(1,3)] by (auto simp: ensures_def)
qed

end

end
