(* ===== verification/Handler_Display.thy ===== *)
theory Handler_Display
  imports Handler_Frames
begin

section \<open>Displaying slides\<close>

text \<open>
  What an invariant of the operations on effects has to satisfy besides, so that the display of slides keeps
  it: the locale \<open>display_invariant\<close>. A call that \<open>leaves_work\<close> may leave work that no frame waits for, as a
  frame follows it or the queues are cleared.
\<close>

fun leaves_work :: "show_effect \<Rightarrow> bool" where
  "leaves_work (AnimationsStart h) = True"
| "leaves_work (AnimationsEnd h b) = True"
| "leaves_work (ElementNextEffectStart e n) = True"
| "leaves_work eff = False"

lemma notifyAnimationsEnd_cases:
  assumes "notifyAnimationsEnd sc w = Some (Inr w')"
  obtains "w' = w"
  | i w1 d where "setTimeout_show (TO_switchSlide 1 False) d w = (i, w1)"
      "w' = set_hd (hd_automaticAdvanceTimeout_update (\<lambda>_. Adv_timeout i)) w1"
proof -
  obtain h where h: "(if h = mp_lastSlideHash (hd_theMetaPres (hd_of w)) then returns w
       else js_assert (hd_automaticAdvanceTimeout (hd_of w) = Adv_null) ''SlideShow.notifyAnimationsEnd: Timeout already set.''
         (lift_sum (getSlideInfo h (hd_theMetaPres (hd_of w))) (\<lambda>info.
            case Option.bind info si_nextSlideDuration of
              None \<Rightarrow> returns w
            | Some d \<Rightarrow>
                if d > 0 then (let (i, w1) = setTimeout_show (TO_switchSlide 1 False) d w
                               in returns (set_hd (hd_automaticAdvanceTimeout_update (\<lambda>_. Adv_timeout i)) w1))
                else returns w))) = Some (Inr w')"
    using assms unfolding notifyAnimationsEnd_def lift_sum_returns by blast
  show ?thesis
  proof (cases "w' = w")
    case False
    with h obtain info :: "slide_info option" where "(case Option.bind info si_nextSlideDuration of
              None \<Rightarrow> returns w
            | Some d \<Rightarrow>
                if d > 0 then (let (i, w1) = setTimeout_show (TO_switchSlide 1 False) d w
                               in returns (set_hd (hd_automaticAdvanceTimeout_update (\<lambda>_. Adv_timeout i)) w1))
                else returns w) = Some (Inr w')"
      by (cases "h = mp_lastSlideHash (hd_theMetaPres (hd_of w))"; cases "hd_automaticAdvanceTimeout (hd_of w) = Adv_null";
          cases "getSlideInfo h (hd_theMetaPres (hd_of w))") (auto simp: js_assert_def)
    with False obtain d where "(let (i, w1) = setTimeout_show (TO_switchSlide 1 False) d w
            in returns (set_hd (hd_automaticAdvanceTimeout_update (\<lambda>_. Adv_timeout i)) w1)) = Some (Inr w')"
      by (cases "Option.bind info si_nextSlideDuration") (auto split: if_split_asm)
    then show ?thesis using that(2) by (cases "setTimeout_show (TO_switchSlide 1 False) d w") simp
  qed (use that in simp)
qed

subsection \<open>The functions of the handler as callbacks\<close>

text \<open>A relation that the ends of effects keep, and one that all functions of the handler keep when events call them.\<close>

locale ending_relation = handler_relation rel
  for rel :: "'y handler \<Rightarrow> 'y handler \<Rightarrow> bool" +
  assumes running: "rel h (h\<lparr>hd_bIsNextEffectRunning := b\<rparr>)"
    and ended: "rel h (hd_aStartedEffectList_update (\<lambda>es. es[i := (es ! i)\<lparr>ef_eState := Effect_Ended\<rparr>]) h)"
    and advance_null: "rel h (h\<lparr>hd_automaticAdvanceTimeout := Adv_null\<rparr>)"
    and advance: "rel h (h\<lparr>hd_nTimeoutId := Suc (hd_nTimeoutId h), hd_timeouts := hd_timeouts h @
      [\<lparr>to_id = Suc (hd_nTimeoutId h), to_call = TO_switchSlide 1 False, to_delay = d\<rparr>],
      hd_automaticAdvanceTimeout := Adv_timeout (Suc (hd_nTimeoutId h))\<rparr>)"
begin

lemma end_effect_rel: "end_effect n w = Some (Inr w') \<Longrightarrow> rel (hd_of w) (hd_of w')"
  by (auto elim!: end_effect_cases intro: ended)

lemma notifyAnimationsEnd_rel: "notifyAnimationsEnd sc w = Some (Inr w') \<Longrightarrow> rel (hd_of w) (hd_of w')"
  using advance [of "hd_of w"] by (auto simp: setTimeout_show_def Let_def elim!: notifyAnimationsEnd_cases)

lemma notifyNextEffectEnd_rel:
  assumes "notifyNextEffectEnd sc w = Some (Inr w')"
  shows "rel (hd_of w) (hd_of w')"
proof -
  obtain w1 where w1: "end_effect (-1) (set_hd (hd_bIsNextEffectRunning_update (\<lambda>_. False)) w) = Some (Inr w1)"
    and rest: "(if hd_automaticAdvanceTimeout (hd_of w1) = Adv_rewinded (hd_nCurrentEffect (hd_of w1))
        then notifyAnimationsEnd sc (set_hd (hd_automaticAdvanceTimeout_update (\<lambda>_. Adv_null)) w1) else returns w1) = Some (Inr w')"
    using assms by (auto simp: notifyNextEffectEnd_def js_assert_def andThen_returns split: if_split_asm)
  have "rel (hd_of w) (hd_of w1)" using trans [OF running end_effect_rel [OF w1, simplified]] .
  moreover have "rel (hd_of w1) (hd_of w')"
    using rest trans [OF advance_null notifyAnimationsEnd_rel [where w = "set_hd (hd_automaticAdvanceTimeout_update (\<lambda>_. Adv_null)) w1", simplified]]
    by (simp split: if_split_asm)
  ultimately show ?thesis by (rule trans)
qed

end

locale callback_relation = ending_relation rel
  for rel :: "'y handler \<Rightarrow> 'y handler \<Rightarrow> bool" +
  assumes total: "rel h (hd_nTotalInteractivePlayingEffects_update g h)"
    and sequences: "rel h (hd_aInteractiveAnimationSequenceMap_update m h)"
    and pushed: "n \<noteq> -1 \<Longrightarrow> rel h (h\<lparr>hd_aStartedEffectIndexMap := im,
      hd_aStartedEffectList := hd_aStartedEffectList h @ [\<lparr>ef_nId = n, ef_eState = Playing\<rparr>]\<rparr>)"
begin

lemma push_effect_rel: "push_effect n w = Some (Inr w') \<Longrightarrow> n \<noteq> -1 \<Longrightarrow> rel (hd_of w) (hd_of w')"
  by (auto simp: push_effect_def effect_start_def new_Effect_def intro: pushed)

lemma call_fn_rel:
  assumes "call_fn sc am run other f w = Some (Inr w')" and "\<forall>n old. f \<noteq> Fn_notifyTransitionEnd n old"
    and "\<And>g w w'. other g w = Some (Inr w') \<Longrightarrow> rel (hd_of w) (hd_of w')"
  shows "rel (hd_of w) (hd_of w')"
proof (cases f)
  case (Fn_sequenceStart i)
  then obtain w1 where w1: "push_effect (int i) (set_hd (hd_nTotalInteractivePlayingEffects_update (\<lambda>n. n + 1)) w) = Some (Inr w1)"
    and w': "w' = set_running i True w1"
    using assms(1) by (auto simp: call_fn_def sequence_start_def notifyInteractiveAnimationSequenceStart_def andThen_returns)
  have "rel (hd_of w) (hd_of w1)" using trans [OF total push_effect_rel [OF w1, simplified]] by simp
  then show ?thesis using trans [OF _ sequences] by (simp add: w')
next
  case (Fn_sequenceEnd i)
  then obtain w1 where w1: "end_effect (int i) w = Some (Inr w1)"
    and w': "w' = set_running i False (set_hd (hd_nTotalInteractivePlayingEffects_update (\<lambda>n. n - 1)) w1)"
    using assms(1) by (auto simp: call_fn_def sequence_end_def notifyInteractiveAnimationSequenceEnd_def andThen_returns js_assert_def split: if_split_asm)
  have "rel (hd_of w1) (hd_of w')" using trans [OF total sequences] by (simp add: w')
  with end_effect_rel [OF w1] show ?thesis by (rule trans)
qed (use assms notifyNextEffectEnd_rel notifyAnimationsEnd_rel in \<open>auto simp: call_fn_def\<close>)

end

subsection \<open>Displaying a slide\<close>

inductive show_step ::
    "('g, 'a, 'e, 'c, 'y) hd_calls \<Rightarrow> ('g, 'a, 'e, 'c, 'y) hd_acts \<Rightarrow> ('g, 'a, 'e, 'c, 'y) hd_run \<Rightarrow>
     ('g, 'a, 'e, 'c, 'y) hd_show \<Rightarrow> ('g, 'a, 'e, 'c, 'y) hd_show \<Rightarrow> bool"
  for sc am run where
  effect: "effect_step sc am run w w' \<Longrightarrow> show_step sc am run w w'"
| display: "displaySlide_show sc am run new old bSkip n w = returns w' \<Longrightarrow> show_step sc am run w w'"
| quit: "exitSlideShow sc w = returns w' \<Longrightarrow> show_step sc am run w w'"
| disable: "disable_show am w = returns w' \<Longrightarrow> show_step sc am run w w'"

text \<open>\<open>notifySlideStart\<close> first forgets the effects of the slide before.\<close>

abbreviation forget_effects :: "('g, 'a, 'e, 'c, 'y) hd_show \<Rightarrow> ('g, 'a, 'e, 'c, 'y) hd_show" where
  "forget_effects w \<equiv> set_hd (\<lambda>h. h\<lparr>hd_nCurrentEffect := 0, hd_bIsRewinding := False, hd_bIsSkipping := False, hd_bIsSkippingAll := False,
      hd_nTotalInteractivePlayingEffects := 0, hd_aStartedEffectList := [], hd_aStartedEffectIndexMap := Map.empty\<rparr>) w"

locale display_invariant = show_invariant good I J K
  for good :: "('g, 'a, 'e, 'c, 'y) hd_calls \<Rightarrow> ('g, 'a, 'e, 'c, 'y) hd_acts \<Rightarrow> ('g, 'a, 'e, 'c, 'y) hd_run \<Rightarrow> bool"
    and I J K :: "('g, 'a, 'e, 'c, 'y) hd_show \<Rightarrow> bool" +
  assumes shows_call: "good sc am run \<Longrightarrow> \<not> leaves_work eff \<Longrightarrow> I w \<Longrightarrow> sc_call sc eff w = Some (Inr w') \<Longrightarrow> I w'"
    and animates: "good sc am run \<Longrightarrow> J w \<Longrightarrow> sc_call sc (AnimationsStart h) w = Some (Inr w') \<Longrightarrow> J w'"
      "good sc am run \<Longrightarrow> J w \<Longrightarrow> sc_call sc (AnimationsEnd h b) w = Some (Inr w') \<Longrightarrow> J w'"
    and disposes: "good sc am run \<Longrightarrow> J w \<Longrightarrow> dispose_show am w = Some (Inr w') \<Longrightarrow> I w'"
    and creates: "good sc am run \<Longrightarrow> I w \<Longrightarrow> I (snd (sc_createTransition sc n old i w))"
    and catches: "good sc am run \<Longrightarrow> J w \<Longrightarrow> I (sc_caught sc w)"
    and ends_animations: "I w \<Longrightarrow> notifyAnimationsEnd sc w = Some (Inr w') \<Longrightarrow> I w'"
    and makes_event: "I w \<Longrightarrow> I (snd (new_event f w))"
    and sets_timeout: "I w \<Longrightarrow> I (snd (setTimeout_show c d w))"
    and clears: "I w \<Longrightarrow> I (clear_advance w)" "I w \<Longrightarrow> I (set_hd (hd_automaticAdvanceTimeout_update (\<lambda>_. Adv_null)) w)"
    and forgets: "I w \<Longrightarrow> I (forget_effects w)"
    and entered: "I w \<Longrightarrow> I (set_hd (\<lambda>h. h\<lparr>hd_enteringSlideTexture := None, hd_isStarting := False\<rparr>) w)"
    and display_flags [simp]: "I (set_hd (hd_bIsTransitionRunning_update f1) w) = I w"
      "I (set_hd (hd_enteringSlideTexture_update f2) w) = I w" "J (set_hd (hd_bIsEnabled_update f1) w) = J w"
begin

lemma shows_call_ensures:
  "good sc am run \<Longrightarrow> I w \<Longrightarrow> \<not> leaves_work eff \<Longrightarrow> (\<And>w'. I w' \<Longrightarrow> P w') \<Longrightarrow> ensures (sc_call sc eff w) P"
  using shows_call by (blast intro: ensuresI)

lemma animates_ensures:
  assumes "good sc am run" and "J w" and "\<And>w'. J w' \<Longrightarrow> P w'"
  shows "ensures (sc_call sc (AnimationsStart h) w) P" "ensures (sc_call sc (AnimationsEnd h b) w) P"
  using assms animates by (blast intro: ensuresI)+

lemma each_element_ensures:
  assumes "good sc am run" and "I w" and "\<And>w'. I w' \<Longrightarrow> P w'"
  shows "ensures (each_element (\<lambda>e. sc_call sc (ElementSlideEnd e)) es w) P"
    and "ensures (each_element (\<lambda>e. sc_call sc (ElementSlideStart e)) es w) P"
proof -
  show "ensures (each_element (\<lambda>e. sc_call sc (ElementSlideEnd e)) es w) P"
    using assms(2) by (induction es arbitrary: w) (auto simp: assms(3) intro!: shows_call_ensures [OF assms(1)])
  show "ensures (each_element (\<lambda>e. sc_call sc (ElementSlideStart e)) es w) P"
    using assms(2) by (induction es arbitrary: w) (auto simp: assms(3) intro!: shows_call_ensures [OF assms(1)])
qed

lemma notifySlideStart_ensures:
  assumes "good sc am run" and "I w" and "\<And>w'. I w' \<Longrightarrow> P w'"
  shows "ensures (notifySlideStart sc new old w) P"
proof -
  define w0 where "w0 = forget_effects w"
  have "I w0" unfolding w0_def by (rule forgets [OF assms(2)])
  then show ?thesis
    unfolding notifySlideStart_def w0_def [symmetric] Let_def
    by (cases old) (auto simp: assms(3) sets_timeout split: option.split
        intro!: each_element_ensures [OF assms(1)] shows_call_ensures [OF assms(1)])
qed

lemma ends_animations_ensures:
  "I w \<Longrightarrow> (\<And>w'. I w' \<Longrightarrow> P w') \<Longrightarrow> ensures (notifyAnimationsEnd sc w) P"
  using ends_animations by (blast intro: ensuresI)

lemma start_animations_ensures:
  assumes "good sc am run" and "I w" and "\<And>w'. J w' \<Longrightarrow> P w'"
  shows "ensures (start_animations sc s w) P"
proof -
  have "J (registerAnimationsEndHandler f v)" if "J v" for f v
    by (rule same(1) [OF _ that]) (simp add: registerAnimationsEndHandler_def)
  then show ?thesis
    unfolding start_animations_def using assms(2,3)
    by (cases s) (auto simp: I_J intro!: ends_animations_ensures animates_ensures [OF assms(1)])
qed

lemma dispose_ensures:
  "good sc am run \<Longrightarrow> J w \<Longrightarrow> (\<And>w'. I w' \<Longrightarrow> P w') \<Longrightarrow> ensures (dispose_show am w) P"
  using disposes by (blast intro: ensuresI)

lemma transition_shown_ensures:
  assumes "good sc am run" and "I w" and "\<And>w'. I w' \<Longrightarrow> P w'"
  shows "ensures (transition_shown sc am run new w) P"
  unfolding transition_shown_def Let_def using assms(2,3)
  by (auto simp: entered I_J intro!: shows_call_ensures [OF assms(1)] dispose_ensures [OF assms(1)]
      start_animations_ensures [OF assms(1)] update_ensures [OF assms(1)] ends_animations_ensures)

lemma notifyTransitionEnd_ensures:
  assumes "good sc am run" and "I w" and "\<And>w'. I w' \<Longrightarrow> P w'"
  shows "ensures (notifyTransitionEnd sc am run new old w) P"
  unfolding notifyTransitionEnd_def Let_def using assms(2,3)
  by (auto split: option.split intro!: a11y_ensures [OF assms(1)] shows_call_ensures [OF assms(1)] transition_shown_ensures [OF assms(1)])

lemma cleanLeavingSlideStatus_ensures:
  assumes "good sc am run" and "I w" and "\<And>w'. I w' \<Longrightarrow> P w'"
  shows "ensures (cleanLeavingSlideStatus sc am old bSkip w) P"
  unfolding cleanLeavingSlideStatus_def using assms(2,3)
  by (auto simp: I_J split: option.split intro!: clears shows_call_ensures [OF assms(1), where eff = "PauseVideos h" for h]
      animates_ensures(2) [OF assms(1)] dispose_ensures [OF assms(1)])

lemma start_transition_ensures:
  assumes "good sc am run" and "I w" and "\<And>b w'. I w' \<Longrightarrow> P (b, w')"
  shows "ensures (start_transition sc am run new old w) P"
proof -
  define i w1 where "i = fst (new_event (Fn_notifyTransitionEnd new old) w)"
    and "w1 = snd (new_event (Fn_notifyTransitionEnd new old) w)"
  have ev: "new_event (Fn_notifyTransitionEnd new old) w = (i, w1)" by (simp add: i_def w1_def)
  have "I w1" using makes_event [OF assms(2)] by (simp add: w1_def)
  then have w2: "I (snd (sc_createTransition sc new old i w1))" by (rule creates [OF assms(1)])
  have shown: "P (True, u)" if "J v" "andThen (update_show sc am run v) (sc_call sc StopLoader) = Some (Inr u)" for u v
  proof -
    have "ensures (andThen (update_show sc am run v) (sc_call sc StopLoader)) I"
      using that(1) by (auto intro!: update_ensures [OF assms(1)] shows_call_ensures [OF assms(1)])
    then show ?thesis using that(2) assms(3) by (blast dest: ensuresD)
  qed
  have adds: "J (snd (addActivity (Some a) (set_hd (hd_bIsTransitionRunning_update (\<lambda>_. True)) (set_hd (hd_enteringSlideTexture_update (\<lambda>_. tex)) v))))"
    if "I v" for a tex v
  proof -
    have "I (set_hd (hd_bIsTransitionRunning_update (\<lambda>_. True)) (set_hd (hd_enteringSlideTexture_update (\<lambda>_. tex)) v))"
      using that by (simp only: display_flags)
    from same(1) [OF _ I_J [OF this]] show ?thesis by (simp add: addActivity_def)
  qed
  obtain r v where r: "sc_createTransition sc new old i w1 = (r, v)" by fastforce
  show ?thesis
    using w2 r assms(2,3) adds catches [OF assms(1)]
    by (auto simp: start_transition_def ev Let_def simp del: ensures_simps(4) split: option.split sum.split intro: shown [rotated])
qed

lemma exit_ensures:
  assumes "good sc am run" and "I w" and "\<And>w'. I w' \<Longrightarrow> P w'"
  shows "ensures (exitSlideShow sc w) P"
  using assms(2,3) by (auto simp: exitSlideShow_def clears intro!: a11y_ensures [OF assms(1)])

lemma displaySlide_ensures:
  assumes "good sc am run" and "I w" and "\<And>w'. I w' \<Longrightarrow> P w'"
  shows "ensures (displaySlide_show sc am run new old bSkip effect w) P"
proof -
  have exit: "ensures (if b then exitSlideShow sc w else returns w) Q" if "\<And>w'. I w' \<Longrightarrow> Q w'" for b Q
    using exit_ensures [OF assms(1,2)] assms(2) that by simp
  have label: "ensures (case l of None \<Rightarrow> returns v | Some t \<Rightarrow> addA11yString sc t v) Q"
    if "I v" "\<And>w'. I w' \<Longrightarrow> Q w'" for l v Q
    using that by (auto split: option.split intro!: a11y_ensures [OF assms(1)])
  have rest: "ensures (andThen (if plays_transition sc new old bSkip v then start_transition sc am run new old v else returns (False, v)) (\<lambda>r.
      if fst r then returns (snd r)
      else andThen (notifyTransitionEnd sc am run new old (snd r)) (\<lambda>w8.
             case effect of None \<Rightarrow> returns w8 | Some n \<Rightarrow> skipNEffects sc am run n w8))) P" if "I v" for v
    using that assms(3)
    by (auto simp: skipNEffects_def split: option.split
        intro!: start_transition_ensures [OF assms(1)] notifyTransitionEnd_ensures [OF assms(1)] skip_upto_ensures [OF assms(1)])
  show ?thesis
    unfolding displaySlide_show_def
    by (intro rest ensures_andThenI exit label skip_running_ensures [OF assms(1)] cleanLeavingSlideStatus_ensures [OF assms(1)]
        notifySlideStart_ensures [OF assms(1)])
qed

lemma show_step_keeps:
  assumes "good sc am run" and "show_step sc am run w w'" and "I w"
  shows "I w'"
  using assms(2)
proof cases
  case effect
  then show ?thesis by (rule effect_step_keeps [OF assms(1) _ assms(3)])
next
  case display
  then show ?thesis using displaySlide_ensures [OF assms(1,3), of I] by (simp add: ensures_def)
next
  case quit
  then show ?thesis using exit_ensures [OF assms(1,3), of I] by (simp add: ensures_def)
next
  case disable
  then show ?thesis
    using dispose_ensures [OF assms(1), of "set_hd (hd_bIsEnabled_update (\<lambda>_. False)) w" I] I_J [OF assms(3)]
    by (simp add: ensures_def disable_show_def)
qed

lemma show_steps_keep:
  assumes "good sc am run" and "(show_step sc am run)\<^sup>*\<^sup>* w w'" and "I w"
  shows "I w'"
  using assms(2,3) by (induction rule: rtranclp_induct) (auto intro: show_step_keeps [OF assms(1)])

end

end
