(* ===== verification/Handler_Books.thy ===== *)
theory Handler_Books
  imports Handler_Display
begin

section \<open>The effects that were started\<close>

text \<open>
  \<open>nCurrentEffect\<close> and \<open>aStartedEffectList\<close> are kept apart: the first is moved by playing, skipping and
  rewinding, the second by the starts of effects and by rewinding. They agree: the current effect is the number
  of effects of the main sequence in the list. This is a second interpretation of \<open>display_invariant\<close>.
\<close>

subsection \<open>What callbacks keep\<close>

definition main_effects :: "effect list \<Rightarrow> nat" where
  "main_effects es = length (filter isMainEffect es)"

definition all_started :: "effect list \<Rightarrow> bool" where
  "all_started es \<longleftrightarrow> (\<forall>e \<in> set es. ef_eState e \<noteq> NotStarted)"

text \<open>
  A callback may start interactive effects and end effects; it starts no effect of the main sequence, removes
  none and does not move the current effect.
\<close>

definition effects_kept :: "'y handler \<Rightarrow> 'y handler \<Rightarrow> bool" where
  "effects_kept h h' \<longleftrightarrow> hd_nCurrentEffect h' = hd_nCurrentEffect h \<and>
     (\<exists>ids. map ef_nId (hd_aStartedEffectList h') = map ef_nId (hd_aStartedEffectList h) @ ids \<and> -1 \<notin> set ids) \<and>
     (all_started (hd_aStartedEffectList h) \<longrightarrow> all_started (hd_aStartedEffectList h'))"

lemma effects_kept_refl: "effects_kept h h"
  by (simp add: effects_kept_def)

lemma effects_kept_trans:
  assumes "effects_kept h1 h2" and "effects_kept h2 h3"
  shows "effects_kept h1 h3"
proof -
  from assms obtain ids ids' where "map ef_nId (hd_aStartedEffectList h2) = map ef_nId (hd_aStartedEffectList h1) @ ids" "-1 \<notin> set ids"
    "map ef_nId (hd_aStartedEffectList h3) = map ef_nId (hd_aStartedEffectList h2) @ ids'" "-1 \<notin> set ids'"
    unfolding effects_kept_def by blast
  then have "map ef_nId (hd_aStartedEffectList h3) = map ef_nId (hd_aStartedEffectList h1) @ (ids @ ids')" "-1 \<notin> set (ids @ ids')"
    by simp_all
  then show ?thesis using assms unfolding effects_kept_def by (metis (no_types))
qed

lemma effects_kept_same:
  assumes "hd_nCurrentEffect h' = hd_nCurrentEffect h" and "hd_aStartedEffectList h' = hd_aStartedEffectList h"
  shows "effects_kept h h'"
  using assms by (simp add: effects_kept_def)

lemma ids_ended: "map ef_nId (es[i := (es ! i)\<lparr>ef_eState := Effect_Ended\<rparr>]) = map ef_nId es"
  by (cases "i < length es") (simp_all add: map_update list_update_same_conv list_update_beyond)

lemma all_started_ended: "all_started es \<Longrightarrow> all_started (es[i := (es ! i)\<lparr>ef_eState := Effect_Ended\<rparr>])"
  by (auto simp: all_started_def dest!: set_update_subset_insert [THEN subsetD])

interpretation ek: callback_relation effects_kept
proof unfold_locales
  fix h :: "'a handler" and i n im
  show "effects_kept h (hd_aStartedEffectList_update (\<lambda>es. es[i := (es ! i)\<lparr>ef_eState := Effect_Ended\<rparr>]) h)"
    by (simp add: effects_kept_def ids_ended all_started_ended)
  show "effects_kept h (h\<lparr>hd_aStartedEffectIndexMap := im,
      hd_aStartedEffectList := hd_aStartedEffectList h @ [\<lparr>ef_nId = n, ef_eState = Playing\<rparr>]\<rparr>)" if "n \<noteq> -1"
    using that by (simp add: effects_kept_def all_started_def)
qed (auto intro: effects_kept_trans effects_kept_same)

lemma main_effects_ids: "main_effects es = length (filter (\<lambda>n. n = -1) (map ef_nId es))"
  by (simp add: main_effects_def isMainEffect_def [abs_def] filter_map comp_def)

lemma main_effects_simps [simp]:
  "main_effects [] = 0" "main_effects (es @ fs) = main_effects es + main_effects fs"
  "main_effects (e # es) = (if isMainEffect e then 1 else 0) + main_effects es"
  by (simp_all add: main_effects_def)

lemma all_started_simps [simp]:
  "all_started []" "all_started (es @ fs) = (all_started es \<and> all_started fs)"
  "all_started (e # es) = (ef_eState e \<noteq> NotStarted \<and> all_started es)"
  by (auto simp: all_started_def)

lemma all_started_sub: "all_started es \<Longrightarrow> set fs \<subseteq> set es \<Longrightarrow> all_started fs"
  by (auto simp: all_started_def)

text \<open>The effects of the main sequence from a place on are the same when effects are only appended.\<close>

lemma kept_main:
  assumes "effects_kept h h'" and "n \<le> length (hd_aStartedEffectList h)"
  shows "main_effects (take n (hd_aStartedEffectList h')) = main_effects (take n (hd_aStartedEffectList h))"
    and "main_effects (drop n (hd_aStartedEffectList h')) = main_effects (drop n (hd_aStartedEffectList h))"
    and "n \<le> length (hd_aStartedEffectList h')"
proof -
  obtain ids where ids: "map ef_nId (hd_aStartedEffectList h') = map ef_nId (hd_aStartedEffectList h) @ ids" "-1 \<notin> set ids"
    using assms(1) unfolding effects_kept_def by blast
  show "main_effects (take n (hd_aStartedEffectList h')) = main_effects (take n (hd_aStartedEffectList h))"
    "main_effects (drop n (hd_aStartedEffectList h')) = main_effects (drop n (hd_aStartedEffectList h))"
    using ids assms(2) by (auto simp: main_effects_ids take_map [symmetric] drop_map [symmetric] filter_empty_conv)
  have "length (hd_aStartedEffectList h') = length (hd_aStartedEffectList h) + length ids"
    using ids(1) by (metis length_append length_map)
  with assms(2) show "n \<le> length (hd_aStartedEffectList h')" by simp
qed

subsection \<open>The current effect\<close>

text \<open>\<open>k\<close> effects of the main sequence are started and not counted.\<close>

definition counted :: "nat \<Rightarrow> ('g, 'a, 'e, 'c, 'y) hd_show \<Rightarrow> bool" where
  "counted k w \<longleftrightarrow> all_started (hd_aStartedEffectList (hd_of w)) \<and>
     hd_nCurrentEffect (hd_of w) + int k = int (main_effects (hd_aStartedEffectList (hd_of w)))"

lemma counted_kept: "counted k w \<Longrightarrow> effects_kept (hd_of w) (hd_of w') \<Longrightarrow> counted k w'"
  using kept_main(2) [of "hd_of w" "hd_of w'" 0] by (auto simp: counted_def effects_kept_def)

lemma counted_same:
  assumes "counted k w" and "hd_nCurrentEffect (hd_of w') = hd_nCurrentEffect (hd_of w)"
    and "hd_aStartedEffectList (hd_of w') = hd_aStartedEffectList (hd_of w)"
  shows "counted k w'"
  using assms by (simp add: counted_def)

text \<open>
  What the other objects are trusted with: callbacks and the starts of elements keep the effects, the other
  calls, among which are those that change the slide, keep the count.
\<close>

definition orderly :: "('g, 'a, 'e, 'c, 'y) hd_calls \<Rightarrow> ('g, 'a, 'e, 'c, 'y) hd_acts \<Rightarrow> ('g, 'a, 'e, 'c, 'y) hd_run \<Rightarrow> bool" where
  "orderly sc am run \<longleftrightarrow> callbacks_keep effects_kept run am \<and>
     (\<forall>eff w w'. sc_call sc eff w = Some (Inr w') \<longrightarrow> counted 0 w \<longrightarrow> counted 0 w') \<and>
     (\<forall>e n w w'. sc_call sc (ElementNextEffectStart e n) w = Some (Inr w') \<longrightarrow> effects_kept (hd_of w) (hd_of w')) \<and>
     (\<forall>n old i w. counted 0 w \<longrightarrow> counted 0 (snd (sc_createTransition sc n old i w))) \<and>
     (\<forall>w. counted 0 w \<longrightarrow> counted 0 (sc_caught sc w))"

lemma orderlyD:
  assumes "orderly sc am run"
  shows "callbacks_keep effects_kept run am"
    and "sc_call sc eff w = Some (Inr w') \<Longrightarrow> counted 0 w \<Longrightarrow> counted 0 w'"
    and "sc_call sc (ElementNextEffectStart e n) w = Some (Inr w') \<Longrightarrow> effects_kept (hd_of w) (hd_of w')"
    and "counted 0 w \<Longrightarrow> counted 0 (snd (sc_createTransition sc n old i w))"
    and "counted 0 w \<Longrightarrow> counted 0 (sc_caught sc w)"
  using assms unfolding orderly_def by blast+

subsection \<open>Starting an effect\<close>

lemma start_elements_kept:
  assumes "orderly sc am run" and "counted k w" and "\<And>w'. counted k w' \<Longrightarrow> P w'"
  shows "ensures (start_elements sc n i es w) P"
  using assms(2)
proof (induction es arbitrary: i w)
  case (Cons e es)
  have "counted k (snd (setTimeout_show c d v)) = counted k v" for c d and v :: "('b, 'a, 'c, 'd, 'e) hd_show"
    by (simp add: setTimeout_show_def Let_def counted_def)
  moreover have "counted k v" if "sc_call sc (ElementNextEffectStart e n) w = Some (Inr v)" for v
    using counted_kept [OF Cons.prems orderlyD(3) [OF assms(1) that]] .
  ultimately show ?case using Cons.IH by (auto intro!: ensuresI [of "sc_call sc (ElementNextEffectStart e n) w"])
qed (use assms(3) in simp)

lemma notifyNextEffectStart_counted:
  assumes "orderly sc am run" and "counted 0 w" and "notifyNextEffectStart sc w = Some (Inr w')"
  shows "counted 1 w'"
proof -
  have "ensures (notifyNextEffectStart sc w) (counted 1)"
    using assms(2)
    by (auto simp: notifyNextEffectStart_def registerNextEffectEndHandler_def not_null_def push_effect_def effect_start_def
      new_Effect_def counted_def isMainEffect_def split: option.split intro!: start_elements_kept [OF assms(1), where k = 1])
  then show ?thesis using assms(3) by (simp add: ensures_def)
qed

subsection \<open>Rewinding\<close>

lemma rewind_one_exact:
  assumes "ef_eState e \<noteq> NotStarted"
    and "\<And>w'. hd_of w' = hd_nCurrentEffect_update (\<lambda>n. if isMainEffect e \<and> n > 0 then n - 1 else n) (hd_of w) \<Longrightarrow> P w'"
  shows "ensures (rewind_one e w) P"
proof -
  have "isPlaying e \<or> isEnded e" using assms(1) by (cases "ef_eState e") (simp_all add: isPlaying_def isEnded_def)
  then show ?thesis
    unfolding rewind_one_def using assms(2) by (auto intro!: notify_ensures)
qed

lemma rewind_down_exact:
  fixes w :: "('g, 'a, 'e, 'c, 'y) hd_show"
  assumes "all_started (hd_aStartedEffectList (hd_of w))" and "i + k \<le> length (hd_aStartedEffectList (hd_of w))"
    and "int (main_effects (take k (drop i (hd_aStartedEffectList (hd_of w))))) \<le> hd_nCurrentEffect (hd_of w)"
    and "\<And>w'. hd_of w' = hd_nCurrentEffect_update (\<lambda>n. n - int (main_effects (take k (drop i (hd_aStartedEffectList (hd_of w)))))) (hd_of w) \<Longrightarrow> P w'"
  shows "ensures (rewind_down i k w) P"
  using assms
proof (induction k arbitrary: w)
  case 0
  then show ?case using 0(4) [of w] by simp
next
  case (Suc k)
  define es where "es = hd_aStartedEffectList (hd_of w)"
  have e: "js_nth es (int (i + k)) = Some (es ! (i + k))"
    using Suc.prems(2) unfolding es_def by (simp only: js_nth_def nat_int) simp
  have "es ! (i + k) \<in> set es" using Suc.prems(2) by (simp add: es_def)
  then have st: "ef_eState (es ! (i + k)) \<noteq> NotStarted" using Suc.prems(1) by (auto simp: all_started_def es_def)
  have split: "main_effects (take (Suc k) (drop i es)) = main_effects (take k (drop i es)) + (if isMainEffect (es ! (i + k)) then 1 else 0)"
    using Suc.prems(2) by (simp add: take_Suc_conv_app_nth es_def)
  have "ensures (rewind_one (es ! (i + k)) w) (\<lambda>v. ensures (rewind_down i k v) P)"
  proof (rule rewind_one_exact [OF st])
    fix v :: "('g, 'a, 'e, 'c, 'y) hd_show"
    assume v: "hd_of v = hd_nCurrentEffect_update (\<lambda>n. if isMainEffect (es ! (i + k)) \<and> n > 0 then n - 1 else n) (hd_of w)"
    show "ensures (rewind_down i k v) P"
    proof (rule Suc.IH)
      fix u :: "('g, 'a, 'e, 'c, 'y) hd_show"
      assume u: "hd_of u = hd_nCurrentEffect_update (\<lambda>n. n - int (main_effects (take k (drop i (hd_aStartedEffectList (hd_of v)))))) (hd_of v)"
      have "hd_of u = hd_nCurrentEffect_update (\<lambda>n. n - int (main_effects (take (Suc k) (drop i es)))) (hd_of w)"
        unfolding u v using Suc.prems(3) split by (cases "hd_of w") (auto simp: es_def)
      then show "P u" using Suc.prems(4) by (simp add: es_def)
    qed (use Suc.prems(1-3) split v in \<open>auto simp: es_def\<close>)
  qed
  with e show ?case by (simp add: es_def del: of_nat_add)
qed

lemma pop_effect_list:
  "hd_aStartedEffectList (hd_of (snd (pop_effect w))) = butlast (hd_aStartedEffectList (hd_of w))"
  "hd_nCurrentEffect (hd_of (snd (pop_effect w))) = hd_nCurrentEffect (hd_of w)"
  by (auto simp: pop_effect_def js_last_def split: option.split)

lemma pop_effect_Some:
  assumes "pop_effect w = (Some e, v)"
  shows "v = snd (pop_effect w)" and "\<exists>fs. hd_aStartedEffectList (hd_of w) = fs @ [e]"
  using assms by (auto simp: pop_effect_def js_last_def split: if_split_asm intro: append_butlast_last_id [symmetric])

lemma pop_effects_list:
  "hd_aStartedEffectList (hd_of (pop_effects k w)) = take (length (hd_aStartedEffectList (hd_of w)) - k) (hd_aStartedEffectList (hd_of w))"
  "hd_nCurrentEffect (hd_of (pop_effects k w)) = hd_nCurrentEffect (hd_of w)"
  by (induction k arbitrary: w) (simp_all add: pop_effect_list butlast_conv_take min_def)

lemma main_effects_parts: "main_effects es = main_effects (take i es) + main_effects (drop i es)"
  by (metis append_take_drop_id main_effects_simps(2))

lemma rewind_playing_counted:
  fixes w :: "('g, 'a, 'e, 'c, 'y) hd_show"
  assumes "orderly sc am run" and "counted 0 w" and "i \<le> length (hd_aStartedEffectList (hd_of w))"
  shows "ensures (rewind_down i (length (hd_aStartedEffectList (hd_of w)) - i) w)
    (\<lambda>v. ensures (update_show sc am run v) (\<lambda>u. counted 0 (pop_effects (length (hd_aStartedEffectList (hd_of u)) - i) u)))"
proof (rule rewind_down_exact)
  fix v :: "('g, 'a, 'e, 'c, 'y) hd_show"
  assume v: "hd_of v = hd_nCurrentEffect_update (\<lambda>n. n - int (main_effects (take (length (hd_aStartedEffectList (hd_of w)) - i)
    (drop i (hd_aStartedEffectList (hd_of w)))))) (hd_of w)"
  show "ensures (update_show sc am run v) (\<lambda>u. counted 0 (pop_effects (length (hd_aStartedEffectList (hd_of u)) - i) u))"
  proof (rule ensuresI)
    fix u assume "update_show sc am run v = Some (Inr u)"
    then have kept: "effects_kept (hd_of v) (hd_of u)" by (rule ek.update_rel [OF orderlyD(1) [OF assms(1)]])
    have "all_started (hd_aStartedEffectList (hd_of u))"
      "hd_nCurrentEffect (hd_of u) = int (main_effects (take i (hd_aStartedEffectList (hd_of w))))"
      using kept assms(2) main_effects_parts [of "hd_aStartedEffectList (hd_of w)" i]
      unfolding effects_kept_def counted_def by (auto simp: v)
    then show "counted 0 (pop_effects (length (hd_aStartedEffectList (hd_of u)) - i) u)"
      using kept_main(1,3) [OF kept, of i] assms(3)
      by (auto simp: counted_def pop_effects_list v intro: all_started_sub [OF _ set_take_subset])
  qed
qed (use assms(2,3) main_effects_parts [of "hd_aStartedEffectList (hd_of w)" i] in \<open>auto simp: counted_def\<close>)

lemma rewind_last_counted:
  fixes w :: "('g, 'a, 'e, 'c, 'y) hd_show"
  assumes "orderly sc am run" and "counted 0 w" and "first_playing (hd_aStartedEffectList (hd_of w)) = None"
    and "pop_effect w = (Some e, v)"
  shows "isEnded e" and "ensures (rewind_one e v) (\<lambda>u. ensures (update_show sc am run u) (counted 0))"
proof -
  obtain fs where es: "hd_aStartedEffectList (hd_of w) = fs @ [e]" using pop_effect_Some(2) [OF assms(4)] by blast
  have "ef_eState e \<noteq> Playing" using assms(3) es by (auto simp: first_playing_def find_None_iff isPlaying_def nth_append)
  moreover have st: "ef_eState e \<noteq> NotStarted" using assms(2) es by (simp add: counted_def)
  ultimately show "isEnded e" by (cases "ef_eState e") (simp_all add: isEnded_def)
  show "ensures (rewind_one e v) (\<lambda>u. ensures (update_show sc am run u) (counted 0))"
  proof (rule rewind_one_exact [OF st])
    fix u :: "('g, 'a, 'e, 'c, 'y) hd_show"
    assume u: "hd_of u = hd_nCurrentEffect_update (\<lambda>n. if isMainEffect e \<and> n > 0 then n - 1 else n) (hd_of v)"
    have "counted 0 u" using assms(2) es by (auto simp: counted_def u pop_effect_Some(1) [OF assms(4)] pop_effect_list)
    then show "ensures (update_show sc am run u) (counted 0)"
      by (auto intro!: ensuresI intro: counted_kept ek.update_rel [OF orderlyD(1) [OF assms(1)]])
  qed
qed

lemma rewind_started_counted:
  assumes "orderly sc am run" and "counted 0 w" and "rewind_started sc am run w = Some (Inr w')"
  shows "counted 0 w'"
proof -
  have "ensures (rewind_started sc am run w) (counted 0)"
  proof (cases "first_playing (hd_aStartedEffectList (hd_of w))")
    case (Some i)
    then have "i \<le> length (hd_aStartedEffectList (hd_of w))" by (auto simp: first_playing_def find_Some_iff)
    from rewind_playing_counted [OF assms(1,2) this] Some show ?thesis by (simp add: rewind_started_def)
  next
    case None
    with rewind_last_counted [OF assms(1,2) None] show ?thesis
      by (auto simp: rewind_started_def split: prod.split option.split)
  qed
  then show ?thesis using assms(3) by (simp add: ensures_def)
qed

subsection \<open>Operations\<close>

lemma counted_fields [simp]:
  "counted k (set_hd (hd_bIsSkipping_update f1) w) = counted k w" "counted k (set_hd (hd_bIsRewinding_update f1) w) = counted k w"
  "counted k (set_hd (hd_bIsSkippingAll_update f1) w) = counted k w" "counted k (set_hd (hd_bIsTransitionRunning_update f1) w) = counted k w"
  "counted k (set_hd (hd_bIsEnabled_update f1) w) = counted k w" "counted k (set_hd (hd_enteringSlideTexture_update f2) w) = counted k w"
  "counted k (set_hd (hd_timeouts_update f3) w) = counted k w" "counted k (set_hd (hd_automaticAdvanceTimeout_update f4) w) = counted k w"
  "counted k (clear_advance w) = counted k w" "counted k (snd (setTimeout_show c d w)) = counted k w"
  "counted k (snd (new_event f w)) = counted k w" "counted 0 (forget_effects w)"
  by (simp_all add: counted_def clear_advance_def clearTimeout_show_def setTimeout_show_def new_event_def Let_def split: advance_timeout.split)

lemma counted_adv:
  "counted k (set_hd (\<lambda>h. h\<lparr>hd_automaticAdvanceTimeout := Adv_rewinded (hd_nCurrentEffect h)\<rparr>) w) = counted k w"
  "counted k (set_hd (\<lambda>h. h\<lparr>hd_enteringSlideTexture := t, hd_isStarting := b\<rparr>) w) = counted k w"
  by (simp_all add: counted_def)

lemma counted_notifyAnimationsEnd: "notifyAnimationsEnd sc w = Some (Inr w') \<Longrightarrow> counted k w' = counted k w"
  by (auto simp: counted_def setTimeout_show_def Let_def elim!: notifyAnimationsEnd_cases)

interpretation bk: display_invariant orderly "counted 0" "counted 0" "counted 1"
proof unfold_locales
  fix sc am run w w' eff h b
  assume orderly: "orderly sc am run"
  note keep = orderlyD(1) [OF orderly]
  show "counted 0 w'" if "counted 0 w" "update_show sc am run w = Some (Inr w')"
    by (rule counted_kept [OF that(1) ek.update_rel [OF keep that(2)]])
  show "counted 0 w'" if "counted 0 w" "endAll am w = Some (Inr w')"
    by (rule counted_kept [OF that(1) ek.drop_activities_rel [OF callbacks_keepD(5) [OF keep] that(2) [unfolded endAll_def]]])
  show "counted 0 w'" if "counted 0 w" "forceEmpty run w = Some (Inr w')"
    by (rule counted_kept [OF that(1) ek.process_queue_rel [OF keep that(2) [unfolded forceEmpty_def]]])
  show "counted 1 w'" if "counted 0 w" "notifyNextEffectStart sc w = Some (Inr w')"
    by (rule notifyNextEffectStart_counted [OF orderly that])
  show "counted 1 w'" if "counted 1 w" "fire_current run w = Some (Inr w')"
    using that(2) by (rule fire_current_cases) (rule counted_kept [OF that(1) ek.fire_rel [OF keep]])
  show "counted 0 w'" if "counted 0 w" "rewind_started sc am run w = Some (Inr w')"
    by (rule rewind_started_counted [OF orderly that])
  show "counted 0 w'" if w: "counted 0 w" "dispose_show am w = Some (Inr w')"
  proof -
    obtain v where v: "drop_activities (am_dequeued am) (clear_events w) = Some (Inr v)"
      "w' = set_hd (\<lambda>h. h\<lparr>hd_bHasEffectArray := False, hd_bHasMultiplexer := False, hd_automaticAdvanceTimeout := Adv_null\<rparr>) v"
      using w(2) by (auto simp: dispose_show_def clear_activities_def andThen_returns)
    have "counted 0 v"
      using w(1) by (intro counted_kept [OF _ ek.drop_activities_rel [OF callbacks_keepD(4) [OF keep] v(1)]]) (simp add: counted_def clear_events_def)
    then show ?thesis by (simp add: counted_def v(2))
  qed
qed (simp_all add: orderlyD(2-5) counted_adv counted_notifyAnimationsEnd, simp_all add: counted_def)

end
