(* ===== verification/Handler_Timeouts.thy ===== *)
theory Handler_Timeouts
  imports Handler_Display
begin

section \<open>Pending frames of the slide show\<close>

text \<open>
  Work that is left in the queues always has a frame pending: an invariant of the operations on effects (an
  interpretation of \<open>show_invariant\<close>) and of the display of slides.
\<close>

subsection \<open>Timeouts\<close>

text \<open>The numbers of timeouts are new, and the one that advances the slides does not run a frame.\<close>

definition timeouts_ok :: "'y handler \<Rightarrow> bool" where
  "timeouts_ok h \<longleftrightarrow> (\<forall>t \<in> set (hd_timeouts h). to_id t \<le> hd_nTimeoutId h) \<and>
     (\<forall>i. hd_automaticAdvanceTimeout h = Adv_timeout i \<longrightarrow>
        i \<le> hd_nTimeoutId h \<and> (\<forall>t \<in> set (hd_timeouts h). to_id t = i \<longrightarrow> to_call t \<noteq> TO_update))"

lemma timeouts_ok_append:
  assumes "timeouts_ok h"
  shows "timeouts_ok (h\<lparr>hd_nTimeoutId := Suc (hd_nTimeoutId h), hd_timeouts := hd_timeouts h @
      [\<lparr>to_id = Suc (hd_nTimeoutId h), to_call = c, to_delay = d\<rparr>]\<rparr>)"
proof -
  have old: "to_id t \<le> Suc (hd_nTimeoutId h)" if "t \<in> set (hd_timeouts h)" for t
    using assms that by (simp add: timeouts_ok_def le_SucI)
  have "i \<le> hd_nTimeoutId h \<and> (\<forall>t \<in> set (hd_timeouts h). to_id t = i \<longrightarrow> to_call t \<noteq> TO_update)"
    if "hd_automaticAdvanceTimeout h = Adv_timeout i" for i
    using assms that by (simp add: timeouts_ok_def)
  with old show ?thesis by (fastforce simp: timeouts_ok_def)
qed

definition timers_kept :: "'y handler \<Rightarrow> 'y handler \<Rightarrow> bool" where
  "timers_kept h h' \<longleftrightarrow> (timeouts_ok h \<longrightarrow> timeouts_ok h')"

interpretation tk: handler_relation timers_kept
  by unfold_locales (simp_all add: timers_kept_def timeouts_ok_append, simp_all add: timeouts_ok_def)

text \<open>Work that is left, and a pending frame for it.\<close>

definition work_left :: "('f, 'a, 'x) show_state \<Rightarrow> bool" where
  "work_left w \<longleftrightarrow> \<not> no_activities w \<or> sh_queue w \<noteq> []"

definition is_frame :: "show_timeout \<Rightarrow> bool" where
  "is_frame t \<longleftrightarrow> to_call t = TO_update \<and> MINIMUM_TIMEOUT * 1000 \<le> to_delay t \<and> to_delay t \<le> MAXIMUM_TIMEOUT * 1000"

definition awake :: "('g, 'a, 'e, 'c, 'y) hd_show \<Rightarrow> bool" where
  "awake w \<longleftrightarrow> timeouts_ok (hd_of w) \<and> (work_left w \<longrightarrow> (\<exists>t \<in> set (hd_timeouts (hd_of w)). is_frame t))"

text \<open>Whatever the callbacks do, a frame that returns has scheduled the next one if there is work left.\<close>

lemma schedule_awake:
  assumes "schedule_update w = Some (Inr w')" and "timeouts_ok (hd_of w)"
  shows "awake w'"
  using assms(1)
proof (cases rule: schedule_cases)
  case idle
  then show ?thesis using assms(2) by (simp add: awake_def work_left_def no_activities_def timeouts_ok_def)
next
  case (frame n h)
  have "timeouts_ok (hd_of w')" using tk.schedule_rel [OF assms(1)] assms(2) by (simp add: timers_kept_def)
  then show ?thesis
    using frame(1,2) unfolding awake_def frame(5) by (auto simp: setTimeout_show_def Let_def is_frame_def)
qed

lemma update_awake:
  assumes "callbacks_keep timers_kept run am" and "update_show sc am run w = Some (Inr w')" and "timeouts_ok (hd_of w)"
  shows "awake w'"
proof -
  obtain w6 where "timers_kept (hd_of w) (hd_of w6)" and w6: "schedule_update w6 = Some (Inr w')"
    by (rule tk.update_before [OF assms(1,2)])
  then show ?thesis using schedule_awake [OF w6] assms(3) by (simp add: timers_kept_def)
qed

subsection \<open>Operations\<close>

text \<open>
  What the other objects are trusted with: they keep the timeouts in order, and a call that no frame
  follows leaves no work behind that nothing waits for. Starting animations and the elements of an effect
  may leave work, as \<open>update\<close> follows; ending animations may, as the queues are cleared. An activity that is
  dequeued adds no event and no activity.
\<close>

definition calm :: "('g, 'a, 'e, 'c, 'y) hd_calls \<Rightarrow> ('g, 'a, 'e, 'c, 'y) hd_acts \<Rightarrow> ('g, 'a, 'e, 'c, 'y) hd_run \<Rightarrow> bool" where
  "calm sc am run \<longleftrightarrow> callbacks_keep timers_kept run am \<and>
     (\<forall>eff w w'. sc_call sc eff w = Some (Inr w') \<longrightarrow>
        timers_kept (hd_of w) (hd_of w') \<and> (\<not> leaves_work eff \<longrightarrow> awake w \<longrightarrow> awake w')) \<and>
     (\<forall>n old i w. awake w \<longrightarrow> awake (snd (sc_createTransition sc n old i w))) \<and>
     (\<forall>w. timeouts_ok (hd_of w) \<longrightarrow> awake (sc_caught sc w)) \<and>
     (\<forall>a w w'. am_dequeued am a w = Some (Inr w') \<longrightarrow> sh_queue w' = sh_queue w \<and> sh_waiting w' = sh_waiting w)"

lemma calmD:
  assumes "calm sc am run"
  shows "callbacks_keep timers_kept run am"
    and "sc_call sc eff w = Some (Inr w') \<Longrightarrow> timers_kept (hd_of w) (hd_of w')"
    and "sc_call sc eff w = Some (Inr w') \<Longrightarrow> \<not> leaves_work eff \<Longrightarrow> awake w \<Longrightarrow> awake w'"
    and "awake w \<Longrightarrow> awake (snd (sc_createTransition sc n old i w))"
    and "timeouts_ok (hd_of w) \<Longrightarrow> awake (sc_caught sc w)"
    and "am_dequeued am a w = Some (Inr w') \<Longrightarrow> sh_queue w' = sh_queue w \<and> sh_waiting w' = sh_waiting w"
  using assms unfolding calm_def by blast+

lemma awake_ok: "awake w \<Longrightarrow> timeouts_ok (hd_of w)"
  by (simp add: awake_def)

text \<open>The fields of the handler that \<open>awake\<close> does not look at.\<close>

lemma awake_same:
  assumes "awake w" and "sh_queue w' = sh_queue w" and "sh_waiting w' = sh_waiting w" and "sh_reinsert w' = sh_reinsert w"
    and "hd_timeouts (hd_of w') = hd_timeouts (hd_of w)" and "hd_nTimeoutId (hd_of w') = hd_nTimeoutId (hd_of w)"
    and "hd_automaticAdvanceTimeout (hd_of w') \<in> {hd_automaticAdvanceTimeout (hd_of w), Adv_null, Adv_rewinded n}"
  shows "awake w'"
  using assms by (auto simp: awake_def work_left_def no_activities_def timeouts_ok_def)

lemma setTimeout_awake:
  assumes "awake w" shows "awake (snd (setTimeout_show c d w))"
  using assms timeouts_ok_append [of "hd_of w" c d]
  by (auto simp: setTimeout_show_def Let_def awake_def work_left_def no_activities_def)

lemma clear_advance_awake:
  assumes "awake w" shows "awake (clear_advance w)"
  using assms
  by (auto simp: clear_advance_def clearTimeout_show_def awake_def work_left_def no_activities_def timeouts_ok_def is_frame_def
      split: advance_timeout.splits)

interpretation tk: callback_relation timers_kept
  by unfold_locales (auto simp: timers_kept_def timeouts_ok_def le_SucI dest: bspec)

lemma notifyAnimationsEnd_awake:
  assumes "notifyAnimationsEnd sc w = Some (Inr w')" and "awake w"
  shows "awake w'"
  using assms(1)
proof (cases rule: notifyAnimationsEnd_cases)
  case (2 i w1 d)
  have "timeouts_ok (hd_of w')" using tk.notifyAnimationsEnd_rel [OF assms(1)] assms(2) by (simp add: timers_kept_def awake_def)
  then show ?thesis
    using assms(2) 2 by (auto simp: awake_def work_left_def no_activities_def setTimeout_show_def Let_def)
qed (use assms(2) in simp)

lemma for_live_keeps:
  assumes "\<And>a w w'. call a w = Some (Inr w') \<Longrightarrow> sh_queue w' = sh_queue w \<and> sh_waiting w' = sh_waiting w"
  shows "for_live arr call i n w = Some (Inr w') \<Longrightarrow> sh_queue w' = sh_queue w \<and> sh_waiting w' = sh_waiting w"
proof (induction n arbitrary: i w)
  case (Suc n)
  then obtain a w1 where w1: "call a w = Some (Inr w1)" "for_live arr call (Suc i) n w1 = Some (Inr w')"
    by (auto simp: andThen_returns split: option.split_asm)
  show ?case using assms [OF w1(1)] Suc.IH [OF w1(2)] by simp
qed simp

lemma dispose_awake:
  assumes "calm sc am run" and "dispose_show am w = Some (Inr w')" and "timeouts_ok (hd_of w)"
  shows "awake w'"
proof -
  obtain w1 where w1: "drop_activities (am_dequeued am) (clear_events w) = Some (Inr w1)"
    and w': "w' = set_hd (\<lambda>h. h\<lparr>hd_bHasEffectArray := False, hd_bHasMultiplexer := False, hd_automaticAdvanceTimeout := Adv_null\<rparr>) w1"
    using assms(2) by (auto simp: dispose_show_def clear_activities_def andThen_returns)
  obtain v u where v: "for_live sh_waiting (am_dequeued am) 0 (length (sh_waiting w)) (clear_events w) = Some (Inr v)"
    and u: "for_live sh_reinsert (am_dequeued am) 0 (length (sh_reinsert v)) (v\<lparr>sh_waiting := []\<rparr>) = Some (Inr u)"
    and "w1 = u\<lparr>sh_reinsert := []\<rparr>"
    using w1 by (auto simp: drop_activities_def andThen_returns clear_events_def)
  then have "\<not> work_left w1"
    using for_live_keeps [OF calmD(6) [OF assms(1)] v] for_live_keeps [OF calmD(6) [OF assms(1)] u]
    by (simp add: work_left_def no_activities_def clear_events_def pq_clear_def)
  moreover have "timeouts_ok (hd_of w1)"
    using tk.drop_activities_rel [OF callbacks_keepD(4) [OF calmD(1) [OF assms(1)]] w1] assms(3)
    by (simp add: timers_kept_def clear_events_def)
  ultimately show ?thesis
    by (simp add: awake_def work_left_def no_activities_def timeouts_ok_def w')
qed

lemma awake_fields [simp]:
  "awake (set_hd (hd_bIsSkipping_update f1) w) = awake w" "awake (set_hd (hd_bIsRewinding_update f1) w) = awake w"
  "awake (set_hd (hd_bIsSkippingAll_update f1) w) = awake w" "awake (set_hd (hd_bIsTransitionRunning_update f1) w) = awake w"
  "awake (set_hd (hd_bIsEnabled_update f1) w) = awake w" "awake (set_hd (hd_nCurrentEffect_update f2) w) = awake w"
  "awake (set_hd (hd_enteringSlideTexture_update f3) w) = awake w"
  by (simp_all add: awake_def work_left_def no_activities_def timeouts_ok_def)

lemma set_timeouts_ok [simp]:
  "timeouts_ok (hd_bIsSkipping_update f1 h) = timeouts_ok h" "timeouts_ok (hd_bIsRewinding_update f1 h) = timeouts_ok h"
  "timeouts_ok (hd_bIsSkippingAll_update f1 h) = timeouts_ok h" "timeouts_ok (hd_bIsTransitionRunning_update f1 h) = timeouts_ok h"
  "timeouts_ok (hd_bIsEnabled_update f1 h) = timeouts_ok h" "timeouts_ok (hd_nCurrentEffect_update f2 h) = timeouts_ok h"
  "timeouts_ok (hd_enteringSlideTexture_update f3 h) = timeouts_ok h" "timeouts_ok (hd_bIsNextEffectRunning_update f1 h) = timeouts_ok h"
  "timeouts_ok (hd_aStartedEffectList_update f4 h) = timeouts_ok h" "timeouts_ok (hd_aStartedEffectIndexMap_update f5 h) = timeouts_ok h"
  by (simp_all add: timeouts_ok_def)

lemma call_timers_ensures:
  assumes "calm sc am run" and "timeouts_ok (hd_of w)" and "\<And>w'. timeouts_ok (hd_of w') \<Longrightarrow> P w'"
  shows "ensures (sc_call sc eff w) P"
  using assms calmD(2) unfolding timers_kept_def by (blast intro: ensuresI)

lemma frame_awake_ensures:
  assumes "calm sc am run" and "timeouts_ok (hd_of w)" and "\<And>w'. awake w' \<Longrightarrow> P w'"
  shows "ensures (update_show sc am run w) P"
  using assms update_awake calmD(1) by (blast intro: ensuresI)

lemma start_elements_ensures:
  assumes "calm sc am run" and "timeouts_ok (hd_of w)" and "\<And>w'. timeouts_ok (hd_of w') \<Longrightarrow> P w'"
  shows "ensures (start_elements sc n k es w) P"
  using assms(2)
proof (induction es arbitrary: k w)
  case (Cons e es)
  have "timeouts_ok (hd_of (snd (setTimeout_show c d v)))" if "timeouts_ok (hd_of v)" for c d and v :: "('b, 'a, 'c, 'd, 'e) hd_show"
    using timeouts_ok_append [OF that] by (simp add: setTimeout_show_def Let_def)
  then show ?case using Cons by (auto intro!: call_timers_ensures [OF assms(1)])
qed (use assms(3) in simp)

lemma notifyNextEffectStart_ensures:
  assumes "calm sc am run" and "timeouts_ok (hd_of w)" and "\<And>w'. timeouts_ok (hd_of w') \<Longrightarrow> P w'"
  shows "ensures (notifyNextEffectStart sc w) P"
  using assms(2,3)
  by (auto simp: notifyNextEffectStart_def registerNextEffectEndHandler_def not_null_def push_effect_def effect_start_def
      new_Effect_def split: option.split intro!: start_elements_ensures [OF assms(1)])

lemma pop_effects_awake [simp]: "awake (pop_effects k w) = awake w"
proof (induction k arbitrary: w)
  case (Suc k)
  have "awake (snd (pop_effect w)) = awake w"
    by (auto simp: pop_effect_def awake_def work_left_def no_activities_def timeouts_ok_def split: option.split)
  then show ?case using Suc by simp
qed simp

lemma pop_effect_ok: "pop_effect w = (e, w') \<Longrightarrow> timeouts_ok (hd_of w') = timeouts_ok (hd_of w)"
  by (auto simp: pop_effect_def timeouts_ok_def split: option.split_asm)

lemma rewind_frame_awake:
  assumes "calm sc am run" and "timeouts_ok (hd_of w)" and "\<And>w'. awake w' \<Longrightarrow> P w'"
  shows "ensures (rewind_started sc am run w) P"
proof (cases "first_playing (hd_aStartedEffectList (hd_of w))")
  case (Some i)
  then show ?thesis
    using assms by (auto simp: rewind_started_def intro!: rewind_down_ensures frame_awake_ensures [OF assms(1)])
next
  case None
  then show ?thesis
    using assms pop_effect_ok
    by (auto simp: rewind_started_def split: prod.split option.split intro!: rewind_one_ensures frame_awake_ensures [OF assms(1)])
qed

lemma awake_remove:
  assumes "awake w" and "to_call t \<noteq> TO_update"
  shows "awake (set_hd (hd_timeouts_update (remove1 t)) w)"
proof -
  have left: "u \<in> set (remove1 t (hd_timeouts (hd_of w)))" if "u \<in> set (hd_timeouts (hd_of w))" "is_frame u" for u
    using that assms(2) by (metis in_set_remove1 is_frame_def)
  have "timeouts_ok (hd_timeouts_update (remove1 t) (hd_of w))"
    using awake_ok [OF assms(1)] set_remove1_subset [of t "hd_timeouts (hd_of w)"] by (auto simp: timeouts_ok_def)
  moreover have "\<exists>u \<in> set (remove1 t (hd_timeouts (hd_of w))). is_frame u" if "work_left w"
    using assms(1) that left by (auto simp: awake_def)
  ultimately show ?thesis by (simp add: awake_def work_left_def no_activities_def)
qed

lemma rewind_started_awake:
  assumes "calm sc am run" and "awake w" and "rewind_started sc am run w = Some (Inr w')"
  shows "awake w'"
  using rewind_frame_awake [OF assms(1) awake_ok [OF assms(2)], of awake] assms(3) by (simp add: ensures_def)

lemma awake_advances:
  assumes "awake w"
  shows "awake (set_hd (\<lambda>h. h\<lparr>hd_automaticAdvanceTimeout := Adv_rewinded (hd_nCurrentEffect h)\<rparr>) (clear_advance w))"
  by (rule awake_same [OF clear_advance_awake [OF assms], where n = "hd_nCurrentEffect (hd_of (clear_advance w))"]) simp_all

lemma remove_ok: "awake w \<Longrightarrow> timeouts_ok (hd_of (set_hd (hd_timeouts_update (remove1 t)) w))"
  using awake_ok [of w] set_remove1_subset [of t "hd_timeouts (hd_of w)"] by (auto simp: timeouts_ok_def)

interpretation aw: show_invariant calm awake "\<lambda>w. timeouts_ok (hd_of w)" "\<lambda>w. timeouts_ok (hd_of w)"
proof unfold_locales
  fix sc am run w w' eff t
  assume calm: "calm sc am run"
  note keep = calmD(1) [OF calm]
  show "awake w'" if "timeouts_ok (hd_of w)" "update_show sc am run w = Some (Inr w')"
    using update_awake [OF keep that(2,1)] .
  show "timeouts_ok (hd_of w')" if "timeouts_ok (hd_of w)" "endAll am w = Some (Inr w')"
    using tk.drop_activities_rel [OF callbacks_keepD(5) [OF keep] that(2) [unfolded endAll_def]] that(1) by (simp add: timers_kept_def)
  show "timeouts_ok (hd_of w')" if "timeouts_ok (hd_of w)" "forceEmpty run w = Some (Inr w')"
    using tk.process_queue_rel [OF keep that(2) [unfolded forceEmpty_def]] that(1) by (simp add: timers_kept_def)
  show "timeouts_ok (hd_of w')" if "awake w" "notifyNextEffectStart sc w = Some (Inr w')"
    using notifyNextEffectStart_ensures [OF calm awake_ok [OF that(1)], of "\<lambda>w. timeouts_ok (hd_of w)"] that(2) by (simp add: ensures_def)
  show "timeouts_ok (hd_of w')" if "timeouts_ok (hd_of w)" "fire_current run w = Some (Inr w')"
    using that(2)
  proof (rule fire_current_cases)
    fix i b assume "fire run i w = Some (Inr (b, w'))"
    from tk.fire_rel [OF keep this] that(1) show ?thesis by (simp add: timers_kept_def)
  qed
  show "awake w'" if "plain_call eff" "awake w" "sc_call sc eff w = Some (Inr w')"
    using calmD(3) [OF calm that(3) _ that(2)] that(1) by (cases eff) simp_all
  show "awake w'" if "awake w" "rewind_started sc am run w = Some (Inr w')"
    by (rule rewind_started_awake [OF calm that])
qed (auto intro: awake_remove awake_advances remove_ok [simplified] dest: awake_ok)

subsection \<open>Displaying a slide\<close>

lemma fields_awake:
  "awake w \<Longrightarrow> awake (set_hd (hd_automaticAdvanceTimeout_update (\<lambda>_. Adv_null)) w)"
  "awake w \<Longrightarrow> awake (forget_effects w)"
  "awake w \<Longrightarrow> awake (set_hd (\<lambda>h. h\<lparr>hd_enteringSlideTexture := None, hd_isStarting := False\<rparr>) w)"
  "awake w \<Longrightarrow> awake (snd (new_event f w))"
  by (auto simp: new_event_def Let_def elim!: awake_same)

interpretation aw: display_invariant calm awake "\<lambda>w. timeouts_ok (hd_of w)" "\<lambda>w. timeouts_ok (hd_of w)"
proof unfold_locales
  fix sc am run w w' eff h b
  assume calm: "calm sc am run"
  show "timeouts_ok (hd_of w')" if "timeouts_ok (hd_of w)" "sc_call sc (AnimationsStart h) w = Some (Inr w')"
    using calmD(2) [OF calm that(2)] that(1) by (simp add: timers_kept_def)
  show "timeouts_ok (hd_of w')" if "timeouts_ok (hd_of w)" "sc_call sc (AnimationsEnd h b) w = Some (Inr w')"
    using calmD(2) [OF calm that(2)] that(1) by (simp add: timers_kept_def)
  show "awake w'" if "\<not> leaves_work eff" "awake w" "sc_call sc eff w = Some (Inr w')"
    by (rule calmD(3) [OF calm that(3,1,2)])
  show "awake w'" if "timeouts_ok (hd_of w)" "dispose_show am w = Some (Inr w')"
    by (rule dispose_awake [OF calm that(2,1)])
qed (auto intro: fields_awake [simplified] calmD(4,5) notifyAnimationsEnd_awake setTimeout_awake clear_advance_awake)

end
