(* ===== verification/Handler_Properties.thy ===== *)
theory Handler_Properties
  imports Handler_Timeouts
begin

section \<open>Properties of the handler of the slide show\<close>

text \<open>
  The steps of a show are the operations that the navigator calls, the clicks on elements and the timeouts
  of the browser. In every state that they reach, work that is left has a frame pending for it.
\<close>

subsection \<open>A sample show\<close>

text \<open>Calls that do nothing; a callback adds the event of its number; a transition does not end.\<close>

type_synonym sample_state = "(nat, nat, unit, unit, unit) hd_show"

definition sample_calls :: "(nat, sample_state) show_calls" where
  "sample_calls = \<lparr>sc_call = (\<lambda>eff w. returns w), sc_enableA11y = True, sc_currentSlideIndex = (\<lambda>w. Some 0),
     sc_elements = (\<lambda>h w. None), sc_elementTitle = (\<lambda>e. []), sc_elementsParsed = (\<lambda>h w. False),
     sc_isAnimated = (\<lambda>h w. False), sc_checkAlreadyPresenting = (\<lambda>w. True), sc_isGlSupported = (\<lambda>w. False),
     sc_transitionValid = (\<lambda>h. False), sc_createTransition = (\<lambda>n old i w. (Inl (), w)),
     sc_caught = (\<lambda>w. w\<lparr>sh_queue := [], sh_waiting := [], sh_reinsert := []\<rparr>), sc_tick = (\<lambda>n. n + 1)\<rparr>"

definition sample_acts :: "(nat, sample_state) activity_methods" where
  "sample_acts = \<lparr>am_calcTimeLag = (\<lambda>a w. returns (0, w)), am_perform = (\<lambda>a w. returns (False, w)),
     am_dequeued = (\<lambda>a w. returns w), am_end = (\<lambda>a w. returns w)\<rparr>"

definition sample_run :: "nat handler_fn \<Rightarrow> sample_state \<Rightarrow> sample_state outcome" where
  "sample_run f w =
     (case f of
        Fn_notifyTransitionEnd n old \<Rightarrow> throws TypeError
      | _ \<Rightarrow> call_fn sample_calls sample_acts (\<lambda>_ _. throws TypeError)
               (\<lambda>g w. andThen (addEvent (Some g) w) (\<lambda>r. returns (snd r))) f w)"

definition sample_handler :: "unit handler" where
  "sample_handler =
     (new_handler \<lparr>mp_docWidth = 100, mp_docHeight = 100, mp_numberOfSlides = 1, mp_firstSlideHash = None, mp_lastSlideHash = None,
        mp_metaSlides = Some Map.empty, mp_partHashes = Some Map.empty\<rparr> 1 9 ())
     \<lparr>hd_aNextEffectEventArray := [5], hd_bHasEffectArray := True, hd_bHasMultiplexer := True\<rparr>"

definition sample_hd_show :: sample_state where
  "sample_hd_show = \<lparr>sh_clock = 5000, sh_timers = [0 \<mapsto> blank_timer None, 1 \<mapsto> blank_timer None], sh_aTimer = 0,
     sh_events = [5 \<mapsto> DelayEvent (Fn_other 6) 0 False, 6 \<mapsto> DelayEvent (Fn_other 7) 3 False], sh_queue = [],
     sh_waiting = [], sh_reinsert = [], sh_dequeued = [], sh_rest = fst (new_EventMultiplexer 0 sample_handler)\<rparr>"

definition sample_next :: "sample_state" where
  "sample_next = (case nextEffect sample_calls sample_acts sample_run sample_hd_show of Some (Inr (b, w)) \<Rightarrow> w | _ \<Rightarrow> sample_hd_show)"

lemma sample_next_eval:
  "nextEffect sample_calls sample_acts sample_run sample_hd_show = Some (Inr (True, sample_next))"
  "map ee_aEvent (sh_queue sample_next) = [6]" "map to_delay (hd_timeouts (hd_of sample_next)) = [3000]"
proof -
  have "case nextEffect sample_calls sample_acts sample_run sample_hd_show of
      Some (Inr (b, w)) \<Rightarrow> b \<and> map ee_aEvent (sh_queue w) = [6] \<and> map to_delay (hd_timeouts (hd_of w)) = [3000]
    | _ \<Rightarrow> False" by code_simp
  then show "nextEffect sample_calls sample_acts sample_run sample_hd_show = Some (Inr (True, sample_next))"
    "map ee_aEvent (sh_queue sample_next) = [6]" "map to_delay (hd_timeouts (hd_of sample_next)) = [3000]"
    by (auto simp: sample_next_def split: option.splits sum.splits)
qed

text \<open>
  C5. The show never stalls: after any sequence of operations, clicks and timeouts that return, whenever an
  event or an activity is left, a timeout for the next frame is pending, at least 1/120 s and at most 4 s long. This
  holds for all callbacks that keep the timeouts of the handler in order.
\<close>

theorem show_never_stalls:
  assumes "calm sc am run" and "(show_step sc am run)\<^sup>*\<^sup>* w0 w"
    and "hd_timeouts (hd_of w0) = []" and "hd_automaticAdvanceTimeout (hd_of w0) = Adv_null" and "\<not> work_left w0"
  shows "work_left w \<longrightarrow> (\<exists>t \<in> set (hd_timeouts (hd_of w)).
    to_call t = TO_update \<and> 1000 / 120 \<le> to_delay t \<and> to_delay t \<le> 4000)"
proof -
  have "awake w0" using assms(3-5) by (simp add: awake_def timeouts_ok_def)
  then have "awake w" by (rule aw.show_steps_keep [OF assms(1,2)])
  then show ?thesis by (auto simp: awake_def is_frame_def MINIMUM_TIMEOUT_def MAXIMUM_TIMEOUT_def)
qed

lemma sample_keeps:
  assumes "callback_relation rel"
  shows "callbacks_keep rel sample_run sample_acts"
proof -
  have refl: "rel h h" for h using assms unfolding callback_relation_def ending_relation_def handler_relation_def by blast
  have other: "rel (hd_of w) (hd_of w')"
    if "andThen (addEvent (Some g) w) (\<lambda>r. returns (snd r)) = Some (Inr w')" for g and w w' :: sample_state
    using that refl by (auto simp: andThen_returns dest!: addEvent_rest)
  have "rel (hd_of w) (hd_of w')" if "sample_run f w = Some (Inr w')" for f w w'
  proof (cases "\<exists>n old. f = Fn_notifyTransitionEnd n old")
    case False
    then have "call_fn sample_calls sample_acts (\<lambda>_ _. throws TypeError)
        (\<lambda>g w. andThen (addEvent (Some g) w) (\<lambda>r. returns (snd r))) f w = Some (Inr w')"
      using that by (cases f) (simp_all add: sample_run_def)
    then show ?thesis by (rule callback_relation.call_fn_rel [OF assms]) (use False other in auto)
  qed (use that in \<open>auto simp: sample_run_def\<close>)
  then show ?thesis by (auto simp: callbacks_keep_def sample_acts_def refl)
qed

lemma sample_calm: "calm sample_calls sample_acts sample_run"
  using sample_keeps [OF tk.callback_relation_axioms]
  by (auto simp: calm_def sample_calls_def sample_acts_def awake_def work_left_def no_activities_def timers_kept_def)

theorem show_never_stalls_witness:
  "work_left sample_next \<and> (\<exists>t \<in> set (hd_timeouts (hd_of sample_next)).
     to_call t = TO_update \<and> 1000 / 120 \<le> to_delay t \<and> to_delay t \<le> 4000)"
proof -
  have "(show_step sample_calls sample_acts sample_run)\<^sup>*\<^sup>* sample_hd_show sample_next"
    using sample_next_eval(1) by (intro r_into_rtranclp effect next_effect) simp
  moreover have "hd_timeouts (hd_of sample_hd_show) = []" "hd_automaticAdvanceTimeout (hd_of sample_hd_show) = Adv_null"
    "\<not> work_left sample_hd_show"
    by (simp_all add: sample_hd_show_def sample_handler_def new_EventMultiplexer_def new_handler_def work_left_def no_activities_def)
  moreover have "work_left sample_next" using sample_next_eval(2) by (auto simp: work_left_def)
  ultimately show ?thesis using show_never_stalls [OF sample_calm] by blast
qed

subsection \<open>The next frame\<close>

definition next_delay :: "('g, 'a, 'e, 'c, 'y) hd_show \<Rightarrow> num" where
  "next_delay w =
     (if \<not> no_activities w then 1 / 120
      else case (pq_top (sh_queue w), sh_timers w (sh_aTimer w)) of
             (Some e, Some tm) \<Rightarrow> max (1 / 120) (min 4 (ee_nActivationTime e - nLastQueriedTime tm))
           | _ \<Rightarrow> 0)"

lemma nextTimeout_read:
  assumes "nextTimeout w = Some (Inr (n, w'))" and "sh_queue w \<noteq> []"
  obtains e tm h where "pq_top (sh_queue w) = Some e" "w' = w\<lparr>sh_timers := h\<rparr>" "h (sh_aTimer w) = Some tm"
    "n = ee_nActivationTime e - nLastQueriedTime tm"
proof -
  obtain now where now: "read_timer (sh_aTimer w) w = Some (Inr (now, w'))"
    and n: "n = (case pq_top (sh_queue w') of None \<Rightarrow> max_value | Some e \<Rightarrow> ee_nActivationTime e - now)"
    using assms(1) by (auto simp: nextTimeout_def andThen_returns)
  obtain h tm where h: "w' = w\<lparr>sh_timers := h\<rparr>" "h (sh_aTimer w) = Some tm" "nLastQueriedTime tm = now"
    using now by (auto simp: read_timer_def getElapsedTime_def split: option.split_asm)
  have "pq_top (sh_queue w) = Some (last (sh_queue w))" using assms(2) by (simp add: pq_top_def)
  with that h n show ?thesis by simp
qed

lemma schedule_exact:
  assumes "schedule_update w = Some (Inr w')" and "work_left w"
  shows "\<exists>t. hd_timeouts (hd_of w') = hd_timeouts (hd_of w) @ [t] \<and> to_call t = TO_update \<and> to_delay t = next_delay w' * 1000 \<and>
    \<not> hd_bIsIdle (hd_of w') \<and> work_left w'"
proof (cases "no_activities w")
  case True
  with assms(2) have q: "sh_queue w \<noteq> []" by (simp add: work_left_def)
  with assms(1) True obtain n w1 where n: "nextTimeout w = Some (Inr (n, w1))"
    and w': "w' = snd (setTimeout_show TO_update ((if n < MINIMUM_TIMEOUT then MINIMUM_TIMEOUT
        else if n > MAXIMUM_TIMEOUT then MAXIMUM_TIMEOUT else n) * 1000)
      (set_hd (hd_bIsIdle_update (\<lambda>_. False)) (set_frame_active False w1)))"
    by (auto simp: schedule_update_def pq_isEmpty_def andThen_returns)
  obtain e tm h where e: "pq_top (sh_queue w) = Some e" "w1 = w\<lparr>sh_timers := h\<rparr>" "h (sh_aTimer w) = Some tm"
    "n = ee_nActivationTime e - nLastQueriedTime tm"
    by (rule nextTimeout_read [OF n q])
  have "(if n < MINIMUM_TIMEOUT then MINIMUM_TIMEOUT else if n > MAXIMUM_TIMEOUT then MAXIMUM_TIMEOUT else n) =
      max (1 / 120) (min 4 n)"
    by (simp add: MINIMUM_TIMEOUT_def MAXIMUM_TIMEOUT_def)
  then show ?thesis
    using True q e unfolding w'
    by (simp add: setTimeout_show_def Let_def next_delay_def no_activities_def work_left_def)
next
  case False
  with assms(1) show ?thesis
    by (auto simp: schedule_update_def setTimeout_show_def Let_def next_delay_def no_activities_def work_left_def MINIMUM_TIMEOUT_def)
qed

definition timeouts_grow :: "'y handler \<Rightarrow> 'y handler \<Rightarrow> bool" where
  "timeouts_grow h h' \<longleftrightarrow> set (hd_timeouts h) \<subseteq> set (hd_timeouts h')"

interpretation tg: callback_relation timeouts_grow
  by unfold_locales (auto simp: timeouts_grow_def)

text \<open>
  C24. A frame that returns schedules the next one by what is left: after the shortest timeout when an activity
  is left, else after the time to the earliest event, held between 1/120 s and 4 s; when nothing is left the show
  is idle and no frame is added. The timeouts that were pending before stay, so that a frame which an
  operation runs in between leaves one more frame pending.
\<close>

theorem next_frame_by_work:
  assumes "update_show sc am run w = returns w'" and "callbacks_keep timeouts_grow run am"
  shows "hd_bIsIdle (hd_of w') = (\<not> work_left w') \<and>
    (\<exists>before new. hd_timeouts (hd_of w') = before @ new \<and> set (hd_timeouts (hd_of w)) \<subseteq> set before \<and>
       map (\<lambda>t. (to_call t, to_delay t)) new = (if work_left w' then [(TO_update, next_delay w' * 1000)] else []))"
proof -
  obtain v where before: "timeouts_grow (hd_of w) (hd_of v)" and v: "schedule_update v = Some (Inr w')"
    by (rule tg.update_before [OF assms(2) assms(1) [unfolded returns_def]])
  show ?thesis
  proof (cases "work_left v")
    case True
    then obtain t where "hd_timeouts (hd_of w') = hd_timeouts (hd_of v) @ [t]" "to_call t = TO_update"
      "to_delay t = next_delay w' * 1000" "\<not> hd_bIsIdle (hd_of w')" "work_left w'"
      using schedule_exact [OF v] by blast
    then show ?thesis
      using before
      by (intro conjI exI [of _ "hd_timeouts (hd_of v)"] exI [of _ "[t]"]) (simp_all add: timeouts_grow_def)
  next
    case False
    then have "w' = set_hd (hd_bIsIdle_update (\<lambda>_. True)) v"
      using v by (simp add: schedule_update_def work_left_def pq_isEmpty_def)
    then show ?thesis using False before by (auto simp: timeouts_grow_def work_left_def no_activities_def)
  qed
qed

definition sample_frame :: sample_state where
  "sample_frame = (case update_show sample_calls sample_acts sample_run sample_next of Some (Inr w) \<Rightarrow> w | _ \<Rightarrow> sample_next)"

lemma sample_frame_eval: "update_show sample_calls sample_acts sample_run sample_next = Some (Inr sample_frame)"
proof -
  have "case update_show sample_calls sample_acts sample_run sample_next of Some (Inr w) \<Rightarrow> True | _ \<Rightarrow> False" by code_simp
  then show ?thesis by (auto simp: sample_frame_def split: option.splits sum.splits)
qed

theorem next_frame_by_work_witness:
  "hd_bIsIdle (hd_of sample_frame) = (\<not> work_left sample_frame) \<and>
    (\<exists>before new. hd_timeouts (hd_of sample_frame) = before @ new \<and> set (hd_timeouts (hd_of sample_next)) \<subseteq> set before \<and>
       map (\<lambda>t. (to_call t, to_delay t)) new = (if work_left sample_frame then [(TO_update, next_delay sample_frame * 1000)] else []))"
  using sample_keeps [OF tg.callback_relation_axioms] next_frame_by_work [of sample_calls sample_acts sample_run sample_next sample_frame]
    sample_frame_eval by simp

end
