(* ===== verification/Handler_Loops.thy ===== *)
theory Handler_Loops
  imports Handler_Books Handler_Properties
begin

section \<open>The loops over all effects\<close>

text \<open>
  \<open>skipAllEffects\<close> skips the next effect until none is left, \<open>rewindAllEffects\<close> rewinds until none is started.
  Both loops end when every round returns and the callbacks do not interfere; both run forever when a round
  starts with \<open>bIsSkipping\<close> or \<open>bIsRewinding\<close> set, as it then does nothing.
\<close>

subsection \<open>Callbacks that do not interfere\<close>

text \<open>
  They do not move the current effect and leave the flags alone. The nodes append the events of further
  effects to the array, while effects are skipped.
\<close>

definition steady :: "'y handler \<Rightarrow> 'y handler \<Rightarrow> bool" where
  "steady h h' \<longleftrightarrow> hd_nCurrentEffect h' = hd_nCurrentEffect h \<and>
     (\<exists>more. hd_aNextEffectEventArray h' = hd_aNextEffectEventArray h @ more) \<and>
     hd_bHasEffectArray h' = hd_bHasEffectArray h \<and> hd_bIsSkipping h' = hd_bIsSkipping h \<and> hd_bIsRewinding h' = hd_bIsRewinding h"

interpretation st: callback_relation steady
  by unfold_locales (auto simp: steady_def)

definition steady_show :: "('g, 'a, 'e, 'c, 'y) hd_calls \<Rightarrow> ('g, 'a, 'e, 'c, 'y) hd_acts \<Rightarrow> ('g, 'a, 'e, 'c, 'y) hd_run \<Rightarrow> bool" where
  "steady_show sc am run \<longleftrightarrow> callbacks_keep steady run am \<and>
     (\<forall>eff w w'. plain_call eff \<or> leaves_work eff \<longrightarrow> sc_call sc eff w = Some (Inr w') \<longrightarrow> steady (hd_of w) (hd_of w'))"

lemma steady_showD:
  assumes "steady_show sc am run"
  shows "callbacks_keep steady run am"
    and "plain_call eff \<or> leaves_work eff \<Longrightarrow> sc_call sc eff w = Some (Inr w') \<Longrightarrow> steady (hd_of w) (hd_of w')"
  using assms unfolding steady_show_def by blast+

lemma steady_call_ensures:
  assumes "steady_show sc am run" and "plain_call eff \<or> leaves_work eff" and "\<And>w'. steady (hd_of w) (hd_of w') \<Longrightarrow> P w'"
  shows "ensures (sc_call sc eff w) P"
  using assms steady_showD(2) by (blast intro: ensuresI)

lemma steady_frame_ensures:
  assumes "steady_show sc am run" and "\<And>w'. steady (hd_of w) (hd_of w') \<Longrightarrow> P w'"
  shows "ensures (update_show sc am run w) P"
  using assms st.update_rel steady_showD(1) by (blast intro: ensuresI)

lemma steady_fire_ensures:
  assumes "steady_show sc am run" and "\<And>w'. steady (hd_of w) (hd_of w') \<Longrightarrow> P w'"
  shows "ensures (fire_current run w) P"
  using assms(2) st.fire_rel [OF steady_showD(1) [OF assms(1)]] by (auto intro!: ensuresI elim!: fire_current_cases)

subsection \<open>One round of the skipping loop\<close>

definition effects_here :: "int \<Rightarrow> nat list \<Rightarrow> bool \<Rightarrow> ('g, 'a, 'e, 'c, 'y) hd_show \<Rightarrow> bool" where
  "effects_here n arr rw w \<longleftrightarrow> hd_nCurrentEffect (hd_of w) = n \<and> (\<exists>more. hd_aNextEffectEventArray (hd_of w) = arr @ more) \<and>
     hd_bHasEffectArray (hd_of w) \<and> hd_bIsRewinding (hd_of w) = rw"

lemma effects_here_steady:
  fixes w w' :: "('g, 'a, 'e, 'c, 'y) hd_show"
  shows "effects_here n arr rw w \<Longrightarrow> steady (hd_of w) (hd_of w') \<Longrightarrow> effects_here n arr rw w'"
  by (auto simp: effects_here_def steady_def)

lemma effects_here_fields [simp]:
  "effects_here n arr rw (snd (setTimeout_show c d v)) = effects_here n arr rw v" "effects_here n arr rw (set_skipping b v) = effects_here n arr rw v"
  by (simp_all add: setTimeout_show_def Let_def effects_here_def)

lemma start_elements_here:
  assumes "steady_show sc am run" and "effects_here n arr rw w" and "\<And>w'. effects_here n arr rw w' \<Longrightarrow> P w'"
  shows "ensures (start_elements sc m i es w) P"
  using assms(2)
proof (induction es arbitrary: i w)
  case (Cons e es)
  show ?case
    using effects_here_steady [OF Cons.prems] by (auto simp: Cons.IH intro!: steady_call_ensures [OF assms(1)])
qed (use assms(3) in simp)

lemma notifyNextEffectStart_here:
  assumes "steady_show sc am run" and "effects_here n arr rw w" and "\<And>w'. effects_here n arr rw w' \<Longrightarrow> P w'"
  shows "ensures (notifyNextEffectStart sc w) P"
  using assms(2,3)
  by (auto simp: notifyNextEffectStart_def registerNextEffectEndHandler_def not_null_def push_effect_def effect_start_def
      new_Effect_def effects_here_def split: option.split intro!: start_elements_here [OF assms(1), where n = n and arr = arr and rw = rw])

lemma skipNextEffect_here:
  fixes w w' :: "('g, 'a, 'e, 'c, 'y) hd_show"
  assumes "steady_show sc am run" and "effects_here n arr False w" and "\<not> hd_bIsSkipping (hd_of w)" and "n < int (length arr)"
    and "skipNextEffect sc am run w = Some (Inr (b, w'))"
  shows "b \<and> effects_here (n + 1) arr False w' \<and> \<not> hd_bIsSkipping (hd_of w')"
proof -
  have left: "\<not> busy w" "hd_bHasEffectArray (hd_of w)" "effect_left w"
    using assms(2-4) by (auto simp: effects_here_def effect_left_def)
  have "ensures (notifyNextEffectStart sc w) (\<lambda>v. ensures (fire_current run (set_skipping True v)) (\<lambda>u. hd_bHasMultiplexer (hd_of u) \<longrightarrow>
      ensures (notifySkipEffectEvent u) (\<lambda>t. ensures (update_show sc am run (set_hd (hd_nCurrentEffect_update (\<lambda>n. n + 1)) t))
        (\<lambda>s. effects_here (n + 1) arr False s))))"
  proof (rule notifyNextEffectStart_here [OF assms(1,2)], rule steady_fire_ensures [OF assms(1)], intro impI,
      rule notify_ensures(1), rule steady_frame_ensures [OF assms(1)])
    fix v u t s :: "('g, 'a, 'e, 'c, 'y) hd_show"
    assume "effects_here n arr False v" "steady (hd_of (set_skipping True v)) (hd_of u)" "hd_of t = hd_of u"
      "steady (hd_of (set_hd (hd_nCurrentEffect_update (\<lambda>n. n + 1)) t)) (hd_of s)"
    then show "effects_here (n + 1) arr False s" by (auto simp: effects_here_def steady_def)
  qed
  then have "ensures (skipNextEffect sc am run w) (\<lambda>r. fst r \<and> effects_here (n + 1) arr False (snd r) \<and> \<not> hd_bIsSkipping (hd_of (snd r)))"
    using left by (simp add: skipNextEffect_def)
  then show ?thesis using assms(5) by (simp add: ensures_def)
qed

subsection \<open>The skipping loop\<close>

text \<open>One round of the loop, when it returns.\<close>

definition skip_round :: "('g, 'a, 'e, 'c, 'y) hd_calls \<Rightarrow> ('g, 'a, 'e, 'c, 'y) hd_acts \<Rightarrow> ('g, 'a, 'e, 'c, 'y) hd_run \<Rightarrow>
    ('g, 'a, 'e, 'c, 'y) hd_show \<Rightarrow> ('g, 'a, 'e, 'c, 'y) hd_show \<Rightarrow> bool" where
  "skip_round sc am run w w' \<longleftrightarrow> effect_left w \<and> (\<exists>b. skipNextEffect sc am run w = returns (b, w'))"

lemma skip_all_loop_ends:
  assumes "steady_show sc am run" and "\<not> busy w" and "hd_bHasEffectArray (hd_of w)"
    and "hd_nCurrentEffect (hd_of w) \<le> int (length (hd_aNextEffectEventArray (hd_of w)))"
    and "\<And>v. (skip_round sc am run)\<^sup>*\<^sup>* w v \<Longrightarrow> effect_left v \<Longrightarrow> \<exists>u. skip_round sc am run v u"
    and "\<And>v. (skip_round sc am run)\<^sup>*\<^sup>* w v \<Longrightarrow> length (hd_aNextEffectEventArray (hd_of v)) \<le> N"
  shows "\<exists>w' k. skip_all_loop sc am run w = Some (Inr w') \<and> (skip_round sc am run ^^ k) w w' \<and>
    hd_nCurrentEffect (hd_of w') = hd_nCurrentEffect (hd_of w) + int k \<and>
    hd_nCurrentEffect (hd_of w') = int (length (hd_aNextEffectEventArray (hd_of w'))) \<and> \<not> busy w'"
  using assms(2-6)
proof (induction "nat (int N - hd_nCurrentEffect (hd_of w))" arbitrary: w rule: less_induct)
  case less
  let ?n = "hd_nCurrentEffect (hd_of w)" and ?arr = "hd_aNextEffectEventArray (hd_of w)"
  show ?case
  proof (cases "effect_left w")
    case True
    obtain b u where u: "skipNextEffect sc am run w = Some (Inr (b, u))"
      using less.prems(4) [of w] True by (auto simp: skip_round_def)
    then have round: "skip_round sc am run w u" using True by (auto simp: skip_round_def)
    have "effects_here ?n ?arr False w" using less.prems(1,2) by (simp add: effects_here_def)
    from skipNextEffect_here [OF assms(1) this _ _ u]
    have "effects_here (?n + 1) ?arr False u" "\<not> hd_bIsSkipping (hd_of u)" using less.prems(1) True by (simp_all add: effect_left_def)
    then have here: "hd_nCurrentEffect (hd_of u) = ?n + 1" "\<not> busy u" "hd_bHasEffectArray (hd_of u)"
        "hd_nCurrentEffect (hd_of u) \<le> int (length (hd_aNextEffectEventArray (hd_of u)))"
      using True by (auto simp: effects_here_def effect_left_def)
    have "\<exists>w' k. skip_all_loop sc am run u = Some (Inr w') \<and> (skip_round sc am run ^^ k) u w' \<and>
      hd_nCurrentEffect (hd_of w') = hd_nCurrentEffect (hd_of u) + int k \<and>
      hd_nCurrentEffect (hd_of w') = int (length (hd_aNextEffectEventArray (hd_of w'))) \<and> \<not> busy w'"
    proof (rule less.hyps [OF _ here(2-4)])
      show "nat (int N - hd_nCurrentEffect (hd_of u)) < nat (int N - ?n)"
        using True less.prems(5) [of w] here(1) by (simp add: effect_left_def)
    qed (use less.prems(4,5) converse_rtranclp_into_rtranclp [of "skip_round sc am run", OF round] in blast)+
    then obtain w' k where w': "skip_all_loop sc am run u = Some (Inr w')" "(skip_round sc am run ^^ k) u w'"
        "hd_nCurrentEffect (hd_of w') = hd_nCurrentEffect (hd_of u) + int k"
        "hd_nCurrentEffect (hd_of w') = int (length (hd_aNextEffectEventArray (hd_of w')))" "\<not> busy w'"
      by blast
    have "skip_all_loop sc am run w = Some (Inr w')"
      using True less.prems(2) u w'(1) by (subst skip_all_loop.simps) simp
    then show ?thesis
      using w'(3-5) here(1) relpowp_Suc_I2 [OF round w'(2)] by (intro exI [of _ w'] exI [of _ "Suc k"]) simp
  next
    case False
    then have "skip_all_loop sc am run w = Some (Inr w)" using less.prems(2) by (subst skip_all_loop.simps) simp
    then show ?thesis using False less.prems(1,3) by (intro exI [of _ w] exI [of _ 0]) (simp add: effect_left_def)
  qed
qed

lemma skip_all_loop_hangs:
  assumes "busy w" and "hd_bHasEffectArray (hd_of w)" and "effect_left w"
  shows "skip_all_loop sc am run w = None"
proof (rule ccontr)
  assume "skip_all_loop sc am run w \<noteq> None"
  then obtain y where y: "skip_all_loop sc am run w = Some y" by blast
  have "\<not> (busy w \<and> hd_bHasEffectArray (hd_of w) \<and> effect_left w)"
  proof (rule skip_all_loop.raw_induct [OF _ y], rule notI)
    fix loop sc am run w y
    assume IH: "\<And>sc am run w y. loop sc am run w = Some y \<Longrightarrow> \<not> (busy w \<and> hd_bHasEffectArray (hd_of w) \<and> effect_left w)"
      and body: "(if \<not> hd_bHasEffectArray (hd_of w) then Some (Inl TypeError)
      else if effect_left w
      then Option.bind (skipNextEffect sc am run w)
             (\<lambda>r. case r of Inl e \<Rightarrow> Some (Inl e) | Inr v \<Rightarrow> loop sc am run (snd v))
      else Some (Inr w)) = Some y"
      and stuck: "busy w \<and> hd_bHasEffectArray (hd_of w) \<and> effect_left w"
    have "loop sc am run w = Some y" using body stuck by (simp add: skipNextEffect_def)
    from IH [OF this] stuck show False by simp
  qed
  with assms show False by simp
qed

subsection \<open>One round of the rewinding loop\<close>

text \<open>For the rewinding loop the callbacks and calls start no effect besides.\<close>

definition none_started :: "'y handler \<Rightarrow> 'y handler \<Rightarrow> bool" where
  "none_started h h' \<longleftrightarrow> steady h h' \<and> length (hd_aStartedEffectList h') = length (hd_aStartedEffectList h)"

interpretation ns: ending_relation none_started
  by unfold_locales (auto simp: none_started_def steady_def)

definition quiet_show :: "('g, 'a, 'e, 'c, 'y) hd_calls \<Rightarrow> ('g, 'a, 'e, 'c, 'y) hd_acts \<Rightarrow> ('g, 'a, 'e, 'c, 'y) hd_run \<Rightarrow> bool" where
  "quiet_show sc am run \<longleftrightarrow> callbacks_keep none_started run am \<and>
     (\<forall>eff w w'. plain_call eff \<longrightarrow> sc_call sc eff w = Some (Inr w') \<longrightarrow> none_started (hd_of w) (hd_of w'))"

lemma quietD:
  "quiet_show sc am run \<Longrightarrow> plain_call eff \<Longrightarrow> sc_call sc eff w = Some (Inr w') \<Longrightarrow> none_started (hd_of w) (hd_of w')"
  unfolding quiet_show_def by blast

lemma quiet_call_ensures:
  assumes "quiet_show sc am run" and "plain_call eff" and "\<And>w'. none_started (hd_of w) (hd_of w') \<Longrightarrow> P w'"
  shows "ensures (sc_call sc eff w) P"
  using assms quietD by (blast intro: ensuresI)

lemma quiet_frame_ensures:
  assumes "quiet_show sc am run" and "\<And>w'. none_started (hd_of w) (hd_of w') \<Longrightarrow> P w'"
  shows "ensures (update_show sc am run w) P"
  using assms ns.update_rel unfolding quiet_show_def by (blast intro: ensuresI)

definition fewer :: "nat \<Rightarrow> bool \<Rightarrow> ('g, 'a, 'e, 'c, 'y) hd_show \<Rightarrow> bool" where
  "fewer n sk w \<longleftrightarrow> length (hd_aStartedEffectList (hd_of w)) < n \<and> hd_bIsSkipping (hd_of w) = sk"

lemma pop_effect_skipping [simp]: "hd_bIsSkipping (hd_of (snd (pop_effect w))) = hd_bIsSkipping (hd_of w)"
  by (simp add: pop_effect_def split: option.split)

lemma pop_effects_skipping [simp]: "hd_bIsSkipping (hd_of (pop_effects k w)) = hd_bIsSkipping (hd_of w)"
  by (induction k arbitrary: w) simp_all

lemma rewind_started_fewer:
  fixes w :: "('g, 'a, 'e, 'c, 'y) hd_show"
  assumes "quiet_show sc am run"
  shows "ensures (rewind_started sc am run w) (fewer (length (hd_aStartedEffectList (hd_of w))) (hd_bIsSkipping (hd_of w)))"
    (is "ensures _ ?fewer")
proof (cases "first_playing (hd_aStartedEffectList (hd_of w))")
  case (Some i)
  then have i: "i < length (hd_aStartedEffectList (hd_of w))" by (auto simp: first_playing_def find_Some_iff)
  have "ensures (rewind_down i (length (hd_aStartedEffectList (hd_of w)) - i) w) (\<lambda>v. ensures (update_show sc am run v)
      (\<lambda>u. ?fewer (pop_effects (length (hd_aStartedEffectList (hd_of u)) - i) u)))"
    by (intro rewind_down_ensures quiet_frame_ensures [OF assms])
      (use i in \<open>simp add: fewer_def none_started_def steady_def pop_effects_list\<close>)
  with Some show ?thesis by (simp add: rewind_started_def)
next
  case None
  have less: "length (hd_aStartedEffectList (hd_of v)) < length (hd_aStartedEffectList (hd_of w))" "hd_bIsSkipping (hd_of v) = hd_bIsSkipping (hd_of w)"
    if "pop_effect w = (Some e, v)" for e v
    using pop_effect_Some(2) [OF that] unfolding pop_effect_Some(1) [OF that] by (auto simp: pop_effect_list)
  have "ensures (update_show sc am run v) ?fewer" "ensures (rewind_one e v) (\<lambda>u. ensures (update_show sc am run u) ?fewer)"
    if "pop_effect w = (Some e, v)" for e v
    using less [OF that]
    by (intro rewind_one_ensures quiet_frame_ensures [OF assms]; simp add: fewer_def none_started_def steady_def)+
  then show ?thesis using None by (auto simp: rewind_started_def split: prod.split option.split)
qed

lemma rewindEffect_fewer:
  fixes w :: "('g, 'a, 'e, 'c, 'y) hd_show"
  assumes "quiet_show sc am run" and "\<not> busy w" and "hasAnyEffectStarted w" and "rewindEffect sc am run w = Some (Inr w')"
  shows "length (hd_aStartedEffectList (hd_of w')) < length (hd_aStartedEffectList (hd_of w)) \<and> \<not> busy w'"
proof -
  let ?n = "length (hd_aStartedEffectList (hd_of w))"
  define w0 where "w0 = (if advance_pending (hd_automaticAdvanceTimeout (hd_of w))
     then set_hd (\<lambda>h. h\<lparr>hd_automaticAdvanceTimeout := Adv_rewinded (hd_nCurrentEffect h)\<rparr>) (clear_advance w) else w)"
  have w0: "length (hd_aStartedEffectList (hd_of w0)) = ?n" "hd_bIsSkipping (hd_of w0) = hd_bIsSkipping (hd_of w)"
    by (simp_all add: w0_def clear_advance_def clearTimeout_show_def split: advance_timeout.split)
  have here: "ensures (if \<not> hasAnyEffectStarted v then rewindToPreviousSlide_show sc am run v
      else andThen (rewind_started sc am run (set_rewinding True v)) (\<lambda>w2.
           sc_call sc (SendFollowEffect (hd_nCurrentEffect (hd_of w2) - 1)) (set_rewinding False w2)))
      (\<lambda>u. length (hd_aStartedEffectList (hd_of u)) < ?n \<and> \<not> busy u)"
    if "none_started (hd_of w0) (hd_of v)" for v
  proof -
    have v: "length (hd_aStartedEffectList (hd_of v)) = ?n" "\<not> hd_bIsSkipping (hd_of v)"
      using that w0 assms(2) by (simp_all add: none_started_def steady_def)
    have "ensures (rewind_started sc am run (set_rewinding True v)) (fewer ?n False)"
      using rewind_started_fewer [OF assms(1), of "set_rewinding True v"] v by simp
    then have "ensures (rewind_started sc am run (set_rewinding True v)) (\<lambda>w2.
        ensures (sc_call sc (SendFollowEffect (hd_nCurrentEffect (hd_of w2) - 1)) (set_rewinding False w2))
          (\<lambda>u. length (hd_aStartedEffectList (hd_of u)) < ?n \<and> \<not> busy u))"
      by (rule ensures_mono) (rule quiet_call_ensures [OF assms(1)], simp_all add: fewer_def none_started_def steady_def)
    then show ?thesis using v assms(3) by (simp add: hasAnyEffectStarted_def)
  qed
  have "ensures (rewindEffect sc am run w) (\<lambda>u. length (hd_aStartedEffectList (hd_of u)) < ?n \<and> \<not> busy u)"
    unfolding rewindEffect_def w0_def [symmetric] addA11yString_def Let_def using assms(2) here
    by (simp only: if_False ensures_simps) (auto simp del: ensures_simps(4) intro!: quiet_call_ensures [OF assms(1)])
  then show ?thesis using assms(4) by (simp add: ensures_def)
qed

subsection \<open>The rewinding loop\<close>

definition rewind_round :: "('g, 'a, 'e, 'c, 'y) hd_calls \<Rightarrow> ('g, 'a, 'e, 'c, 'y) hd_acts \<Rightarrow> ('g, 'a, 'e, 'c, 'y) hd_run \<Rightarrow>
    ('g, 'a, 'e, 'c, 'y) hd_show \<Rightarrow> ('g, 'a, 'e, 'c, 'y) hd_show \<Rightarrow> bool" where
  "rewind_round sc am run w w' \<longleftrightarrow> hasAnyEffectStarted w \<and> rewindEffect sc am run w = returns w'"

lemma rewind_all_loop_ends:
  assumes "quiet_show sc am run" and "\<not> busy w"
    and "\<And>v. (rewind_round sc am run)\<^sup>*\<^sup>* w v \<Longrightarrow> hasAnyEffectStarted v \<Longrightarrow> \<exists>u. rewind_round sc am run v u"
  shows "\<exists>w'. rewind_all_loop sc am run w = Some (Inr w') \<and> hd_aStartedEffectList (hd_of w') = [] \<and> \<not> busy w'"
  using assms(2,3)
proof (induction "length (hd_aStartedEffectList (hd_of w))" arbitrary: w rule: less_induct)
  case less
  show ?case
  proof (cases "hasAnyEffectStarted w")
    case True
    obtain u where u: "rewindEffect sc am run w = Some (Inr u)" using less.prems(2) [OF _ True] by (auto simp: rewind_round_def)
    then have round: "rewind_round sc am run w u" using True by (simp add: rewind_round_def)
    have "length (hd_aStartedEffectList (hd_of u)) < length (hd_aStartedEffectList (hd_of w))" "\<not> busy u"
      using rewindEffect_fewer [OF assms(1) less.prems(1) True u] by simp_all
    moreover have "\<exists>t. rewind_round sc am run v t" if "(rewind_round sc am run)\<^sup>*\<^sup>* u v" "hasAnyEffectStarted v" for v
      using less.prems(2) [OF converse_rtranclp_into_rtranclp [OF round that(1)] that(2)] .
    ultimately have "\<exists>w'. rewind_all_loop sc am run u = Some (Inr w') \<and> hd_aStartedEffectList (hd_of w') = [] \<and> \<not> busy w'"
      by (rule less.hyps)
    then show ?thesis using True u by (subst rewind_all_loop.simps) simp
  next
    case False
    then show ?thesis using less.prems(1) by (subst rewind_all_loop.simps) (simp add: hasAnyEffectStarted_def)
  qed
qed

lemma rewind_all_loop_hangs:
  assumes "busy w" and "hasAnyEffectStarted w"
  shows "rewind_all_loop sc am run w = None"
proof (rule ccontr)
  assume "rewind_all_loop sc am run w \<noteq> None"
  then obtain y where y: "rewind_all_loop sc am run w = Some y" by blast
  have "\<not> (busy w \<and> hasAnyEffectStarted w)"
  proof (rule rewind_all_loop.raw_induct [OF _ y], rule notI)
    fix loop sc am run w y
    assume IH: "\<And>sc am run w y. loop sc am run w = Some y \<Longrightarrow> \<not> (busy w \<and> hasAnyEffectStarted w)"
      and body: "(if hasAnyEffectStarted w
      then Option.bind (rewindEffect sc am run w)
             (\<lambda>r. case r of Inl e \<Rightarrow> Some (Inl e) | Inr w1 \<Rightarrow> loop sc am run w1)
      else Some (Inr w)) = Some y"
      and stuck: "busy w \<and> hasAnyEffectStarted w"
    have "loop sc am run w = Some y" using body stuck by (simp add: rewindEffect_def)
    from IH [OF this] stuck show False by simp
  qed
  with assms show False by simp
qed

subsection \<open>Properties\<close>

text \<open>
  C6. After any sequence of operations that return, across slides, the index of the current effect is the
  number of effects of the main sequence that were started and not rewound, and every effect in the list of
  started effects is playing or ended. This holds for all callbacks that start and remove no effects of the main sequence.
\<close>

theorem effects_counted:
  assumes "orderly sc am run" and "(show_step sc am run)\<^sup>*\<^sup>* w0 w"
    and "hd_aStartedEffectList (hd_of w0) = []" and "hd_nCurrentEffect (hd_of w0) = 0"
  shows "hd_nCurrentEffect (hd_of w) = int (length (filter isMainEffect (hd_aStartedEffectList (hd_of w)))) \<and>
    list_all (\<lambda>e. isPlaying e \<noteq> isEnded e) (hd_aStartedEffectList (hd_of w))"
proof -
  have "counted 0 w0" using assms(3,4) by (simp add: counted_def)
  then have "counted 0 w" by (rule bk.show_steps_keep [OF assms(1,2)])
  moreover have "isPlaying e \<noteq> isEnded e" if "ef_eState e \<noteq> NotStarted" for e
    using that by (cases "ef_eState e") (simp_all add: isPlaying_def isEnded_def)
  ultimately show ?thesis by (auto simp: counted_def main_effects_def all_started_def list_all_iff)
qed

lemma sample_orderly: "orderly sample_calls sample_acts sample_run"
  using sample_keeps [OF ek.callback_relation_axioms]
  by (auto simp: orderly_def sample_calls_def counted_def effects_kept_refl)

theorem effects_counted_witness:
  "hd_nCurrentEffect (hd_of sample_next) = int (length (filter isMainEffect (hd_aStartedEffectList (hd_of sample_next)))) \<and>
    list_all (\<lambda>e. isPlaying e \<noteq> isEnded e) (hd_aStartedEffectList (hd_of sample_next))"
proof (rule effects_counted [OF sample_orderly])
  show "(show_step sample_calls sample_acts sample_run)\<^sup>*\<^sup>* sample_hd_show sample_next"
    using sample_next_eval(1) by (intro r_into_rtranclp effect next_effect) simp
qed (simp_all add: sample_hd_show_def sample_handler_def new_EventMultiplexer_def new_handler_def)

text \<open>
  C13. \<open>skipAllEffects\<close> ends: when no effect is playing, every round of its loop returns and the nodes append
  at most finitely many effects while others are skipped, it skips effect after effect until none is left, one per round,
  and no flag is set then. It returns whether there was an effect to skip.
\<close>

theorem skipAllEffects_ends:
  assumes "steady_show sc am run" and "\<not> busy w" and "\<not> hd_bIsSkippingAll (hd_of w)" and "\<not> hd_bIsTransitionRunning (hd_of w)"
    and "\<not> hd_bIsFirstAutoEffectRunning (hd_of w)" and "\<not> isAnyEffectPlaying w" and "hd_bHasEffectArray (hd_of w)"
    and "hd_nCurrentEffect (hd_of w) \<le> int (length (hd_aNextEffectEventArray (hd_of w)))"
    and "\<And>v. (skip_round sc am run)\<^sup>*\<^sup>* (set_skipping_all True w) v \<Longrightarrow> effect_left v \<Longrightarrow> \<exists>u. skip_round sc am run v u"
    and "\<And>v. (skip_round sc am run)\<^sup>*\<^sup>* (set_skipping_all True w) v \<Longrightarrow> length (hd_aNextEffectEventArray (hd_of v)) \<le> N"
  shows "\<exists>w1 w' k. skipAllEffects sc am run w = returns (effect_left w, w') \<and> w' = set_skipping_all False w1 \<and>
    (skip_round sc am run ^^ k) (set_skipping_all True w) w1 \<and> hd_nCurrentEffect (hd_of w') = hd_nCurrentEffect (hd_of w) + int k \<and>
    hd_nCurrentEffect (hd_of w') = int (length (hd_aNextEffectEventArray (hd_of w'))) \<and> \<not> busy w'"
proof -
  let ?w = "set_skipping_all True w"
  obtain w1 k where w1: "skip_all_loop sc am run ?w = Some (Inr w1)" "(skip_round sc am run ^^ k) ?w w1"
      "hd_nCurrentEffect (hd_of w1) = hd_nCurrentEffect (hd_of ?w) + int k"
      "hd_nCurrentEffect (hd_of w1) = int (length (hd_aNextEffectEventArray (hd_of w1)))" "\<not> busy w1"
    using skip_all_loop_ends [OF assms(1), of ?w N] assms(2,7-10) by auto
  have idle: "\<not> isAnyEffectPlaying ?w" "effect_left ?w = effect_left w"
    using assms(6) by (simp_all add: isAnyEffectPlaying_def isInteractiveEffectPlaying_def effect_left_def)
  have none: "w1 = ?w" if "\<not> effect_left w"
    using that w1(1) assms(7) idle(2) by (subst (asm) skip_all_loop.simps) simp
  have "skipAllEffects sc am run w = returns (effect_left w, set_skipping_all False w1)"
    using w1(1) assms(3-5,7) idle none by (cases "effect_left w") (simp_all add: skipAllEffects_def skip_rest_def Let_def)
  then show ?thesis using w1(2-5) by auto
qed

lemma sample_steady: "steady_show sample_calls sample_acts sample_run"
  using sample_keeps [OF st.callback_relation_axioms] by (auto simp: steady_show_def sample_calls_def steady_def)

definition sample_skipped :: sample_state where
  "sample_skipped = (case skipNextEffect sample_calls sample_acts sample_run (set_skipping_all True sample_hd_show) of
     Some (Inr (b, w)) \<Rightarrow> w | _ \<Rightarrow> sample_hd_show)"

lemma sample_skipped_eval:
  "skipNextEffect sample_calls sample_acts sample_run (set_skipping_all True sample_hd_show) = Some (Inr (True, sample_skipped))"
  "\<not> effect_left sample_skipped"
proof -
  have "case skipNextEffect sample_calls sample_acts sample_run (set_skipping_all True sample_hd_show) of
      Some (Inr (b, w)) \<Rightarrow> b \<and> \<not> effect_left w | _ \<Rightarrow> False" by code_simp
  then show "skipNextEffect sample_calls sample_acts sample_run (set_skipping_all True sample_hd_show) = Some (Inr (True, sample_skipped))"
    "\<not> effect_left sample_skipped"
    by (auto simp: sample_skipped_def split: option.splits sum.splits)
qed

lemma sample_rounds:
  assumes "(skip_round sample_calls sample_acts sample_run)\<^sup>*\<^sup>* (set_skipping_all True sample_hd_show) v"
  shows "v = set_skipping_all True sample_hd_show \<or> v = sample_skipped"
  using assms
  by (induction rule: rtranclp_induct)
    (use sample_skipped_eval in \<open>auto simp: skip_round_def\<close>)

theorem skipAllEffects_ends_witness:
  "\<exists>w1 w' k. skipAllEffects sample_calls sample_acts sample_run sample_hd_show = returns (effect_left sample_hd_show, w') \<and>
    w' = set_skipping_all False w1 \<and> (skip_round sample_calls sample_acts sample_run ^^ k) (set_skipping_all True sample_hd_show) w1 \<and>
    hd_nCurrentEffect (hd_of w') = hd_nCurrentEffect (hd_of sample_hd_show) + int k \<and>
    hd_nCurrentEffect (hd_of w') = int (length (hd_aNextEffectEventArray (hd_of w'))) \<and> \<not> busy w'"
proof (rule skipAllEffects_ends [OF sample_steady, where N = 1])
  fix v
  assume v: "(skip_round sample_calls sample_acts sample_run)\<^sup>*\<^sup>* (set_skipping_all True sample_hd_show) v"
  have "length (hd_aNextEffectEventArray (hd_of sample_skipped)) = 1" by code_simp
  then show "length (hd_aNextEffectEventArray (hd_of v)) \<le> 1"
    using sample_rounds [OF v] by (auto simp: sample_hd_show_def sample_handler_def new_EventMultiplexer_def)
next
  fix v
  assume "(skip_round sample_calls sample_acts sample_run)\<^sup>*\<^sup>* (set_skipping_all True sample_hd_show) v" "effect_left v"
  then have "v = set_skipping_all True sample_hd_show" using sample_rounds sample_skipped_eval(2) by blast
  with \<open>effect_left v\<close> show "\<exists>u. skip_round sample_calls sample_acts sample_run v u" using sample_skipped_eval(1) by (auto simp: skip_round_def)
qed (simp_all add: sample_hd_show_def sample_handler_def new_EventMultiplexer_def new_handler_def isAnyEffectPlaying_def
    isInteractiveEffectPlaying_def)

text \<open>
  C20. \<open>rewindAllEffects\<close> ends: when every rewind returns and starts no effect besides, the list of started
  effects becomes empty, the current effect is the first one again and no flag is set.
\<close>

theorem rewindAllEffects_ends:
  assumes "quiet_show sc am run" and "orderly sc am run" and "\<not> busy w" and "hasAnyEffectStarted w"
    and "hd_nCurrentEffect (hd_of w) = int (length (filter isMainEffect (hd_aStartedEffectList (hd_of w))))"
    and "list_all (\<lambda>e. isPlaying e \<noteq> isEnded e) (hd_aStartedEffectList (hd_of w))"
    and "addA11yString sc ''First'' w = returns w1"
    and "\<And>v. (rewind_round sc am run)\<^sup>*\<^sup>* w1 v \<Longrightarrow> hasAnyEffectStarted v \<Longrightarrow> \<exists>u. rewind_round sc am run v u"
  shows "\<exists>w'. rewindAllEffects sc am run w = returns w' \<and> hd_aStartedEffectList (hd_of w') = [] \<and>
    hd_nCurrentEffect (hd_of w') = 0 \<and> \<not> busy w'"
proof -
  have "counted 0 w"
    using assms(5,6) by (auto simp: counted_def main_effects_def all_started_def list_all_iff isPlaying_def isEnded_def)
  moreover have kept: "none_started (hd_of w) (hd_of w1)"
    using quietD [OF assms(1), of "A11y ''First''" w w1] assms(7) by (auto simp: addA11yString_def split: if_split_asm)
  moreover have w1: "\<not> busy w1" "hasAnyEffectStarted w1"
    using kept assms(3,4) by (simp_all add: none_started_def steady_def hasAnyEffectStarted_def)
  obtain w' where w': "rewind_all_loop sc am run w1 = Some (Inr w')" "hd_aStartedEffectList (hd_of w') = []" "\<not> busy w'"
    using rewind_all_loop_ends [OF assms(1) w1(1) assms(8)] by blast
  have all: "rewindAllEffects sc am run w = Some (Inr w')"
    using assms(7) w1(2) w'(1) by (simp add: rewindAllEffects_def)
  have "counted 0 w'"
    by (rule ensuresD [OF bk.rewindAllEffects_ensures [OF assms(2) calculation(1)] all]) simp
  then show ?thesis using all w'(2,3) by (simp add: counted_def)
qed

text \<open>Callbacks that start no effects.\<close>

definition sample_quiet :: "nat handler_fn \<Rightarrow> sample_state \<Rightarrow> sample_state outcome" where
  "sample_quiet f w =
     (case f of
        Fn_notifyNextEffectEnd \<Rightarrow> notifyNextEffectEnd sample_calls w
      | Fn_other g \<Rightarrow> andThen (addEvent (Some g) w) (\<lambda>r. returns (snd r))
      | _ \<Rightarrow> throws TypeError)"

lemma sample_quiet_keeps:
  assumes "ending_relation rel"
  shows "callbacks_keep rel sample_quiet sample_acts"
proof -
  have refl: "rel h h" for h using assms unfolding ending_relation_def handler_relation_def by blast
  have "rel (hd_of w) (hd_of w')" if "sample_quiet f w = Some (Inr w')" for f w w'
    using that refl
    by (cases f) (auto simp: sample_quiet_def andThen_returns dest!: addEvent_rest intro: ending_relation.notifyNextEffectEnd_rel [OF assms])
  then show ?thesis by (auto simp: callbacks_keep_def sample_acts_def refl)
qed

lemma sample_quiet_show: "quiet_show sample_calls sample_acts sample_quiet" "orderly sample_calls sample_acts sample_quiet"
  using sample_quiet_keeps [OF ns.ending_relation_axioms] sample_quiet_keeps [OF ek.ending_relation_axioms]
  by (auto simp: quiet_show_def orderly_def sample_calls_def counted_def effects_kept_refl)

definition sample_rewound :: sample_state where
  "sample_rewound = (case rewindEffect sample_calls sample_acts sample_quiet sample_next of Some (Inr w) \<Rightarrow> w | _ \<Rightarrow> sample_hd_show)"

lemma sample_rewound_eval:
  "rewindEffect sample_calls sample_acts sample_quiet sample_next = Some (Inr sample_rewound)" "\<not> hasAnyEffectStarted sample_rewound"
  "\<not> busy sample_next" "hd_aStartedEffectList (hd_of sample_next) = [\<lparr>ef_nId = -1, ef_eState = Playing\<rparr>]"
  "hd_nCurrentEffect (hd_of sample_next) = 1"
proof -
  have "case rewindEffect sample_calls sample_acts sample_quiet sample_next of Some (Inr w) \<Rightarrow> \<not> hasAnyEffectStarted w | _ \<Rightarrow> False" by code_simp
  then show "rewindEffect sample_calls sample_acts sample_quiet sample_next = Some (Inr sample_rewound)" "\<not> hasAnyEffectStarted sample_rewound"
    by (auto simp: sample_rewound_def split: option.splits sum.splits)
  show "\<not> busy sample_next" "hd_aStartedEffectList (hd_of sample_next) = [\<lparr>ef_nId = -1, ef_eState = Playing\<rparr>]"
    "hd_nCurrentEffect (hd_of sample_next) = 1" by code_simp+
qed

theorem rewindAllEffects_ends_witness:
  "\<exists>w'. rewindAllEffects sample_calls sample_acts sample_quiet sample_next = returns w' \<and> hd_aStartedEffectList (hd_of w') = [] \<and>
    hd_nCurrentEffect (hd_of w') = 0 \<and> \<not> busy w'"
proof (rule rewindAllEffects_ends [OF sample_quiet_show, where ?w1.0 = sample_next])
  fix v
  assume v: "(rewind_round sample_calls sample_acts sample_quiet)\<^sup>*\<^sup>* sample_next v" and some: "hasAnyEffectStarted v"
  have "v = sample_next \<or> v = sample_rewound"
    using v by (induction rule: rtranclp_induct) (use sample_rewound_eval in \<open>auto simp: rewind_round_def\<close>)
  then show "\<exists>u. rewind_round sample_calls sample_acts sample_quiet v u"
    using sample_rewound_eval(1,2) some by (auto simp: rewind_round_def)
qed (simp_all add: sample_rewound_eval isMainEffect_def isPlaying_def isEnded_def hasAnyEffectStarted_def addA11yString_def sample_calls_def)

text \<open>
  C34. Both loops run forever when they are entered while \<open>bIsSkipping\<close> or \<open>bIsRewinding\<close> is set, as an
  exception in a round leaves it: a round then returns at once and changes nothing.
\<close>

theorem loops_hang_when_busy:
  assumes "busy w"
  shows "(\<not> hd_bIsSkippingAll (hd_of w) \<and> \<not> hd_bIsTransitionRunning (hd_of w) \<and> \<not> hd_bIsFirstAutoEffectRunning (hd_of w) \<and>
      \<not> isAnyEffectPlaying w \<and> hd_bHasEffectArray (hd_of w) \<and> effect_left w \<longrightarrow> skipAllEffects sc am run w = None) \<and>
    (\<not> sc_enableA11y sc \<and> hasAnyEffectStarted w \<longrightarrow> rewindAllEffects sc am run w = None)"
proof -
  have "skip_all_loop sc am run (set_skipping_all True w) = None" if "hd_bHasEffectArray (hd_of w)" "effect_left w"
    using assms that by (intro skip_all_loop_hangs) (simp_all add: effect_left_def)
  moreover have "rewind_all_loop sc am run w = None" if "hasAnyEffectStarted w"
    using rewind_all_loop_hangs [OF assms that] .
  ultimately show ?thesis
    by (auto simp: skipAllEffects_def skip_rest_def isAnyEffectPlaying_def isInteractiveEffectPlaying_def effect_left_def andThen_def
        rewindAllEffects_def addA11yString_def)
qed

theorem loops_hang_when_busy_witness:
  "skipAllEffects sample_calls sample_acts sample_run (set_skipping True sample_hd_show) = None"
  using loops_hang_when_busy [of "set_skipping True sample_hd_show" sample_calls sample_acts sample_run]
  by (simp add: sample_hd_show_def sample_handler_def new_EventMultiplexer_def new_handler_def isAnyEffectPlaying_def
      isInteractiveEffectPlaying_def effect_left_def)

end
