(* ===== verification/Container_Node.thy ===== *)
theory Container_Node
  imports Slide_Effects Animation_Node Timing_Text
begin

section \<open>Container nodes\<close>

text \<open>
  \<open>animationnodes/BaseContainerNode.ts\<close>: containers of animation nodes, which play their children together
  (\<open>ParallelTimeContainer\<close>) or one after the other (\<open>SequentialTimeContainer\<close>). The containers are a store in
  the innermost part of the state of the handler, by the id of the node; the flag \<open>bIsSkipping\<close> of the
  context is beside it. What a container calls of its children, and of the methods it has from \<open>BaseNode\<close>, is
  the record \<open>child_calls\<close>; the calls may change the whole state and notify the container in turn.
\<close>

subsection \<open>State\<close>

datatype impress_node_type =
    INT_Default | INT_OnClick | INT_WithPrevious | INT_AfterPrevious | INT_MainSequence | INT_TimingRoot | INT_InteractiveSequence

text \<open>The functions that containers bind to events.\<close>

datatype node_fn = NF_repeat nat | NF_skipEffect nat nat | NF_rewindCurrentEffect nat nat | NF_rewindLastEffect nat nat | NF_deactivate nat | NF_other nat

text \<open>\<open>nLeftIterations\<close> is \<open>None\<close> for \<open>NaN\<close>, which is the repeat count of an indefinite repetition.\<close>

record container =
  cn_bSequential :: bool
  cn_aChildrenArray :: "nat list"
  cn_nFinishedChildren :: int
  cn_bDurationIndefinite :: bool
  cn_nLeftIterations :: "num option"
  cn_nRepeatCount :: "num option"
  cn_eImpressNodeType :: "impress_node_type option"
  cn_bIsRewinding :: bool
  cn_aCurrentSkipEvent :: "nat option"
  cn_aRewindCurrentEffectEvent :: "nat option"
  cn_aRewindLastEffectEvent :: "nat option"

definition new_container :: "bool \<Rightarrow> container" where
  "new_container bSequential =
     \<lparr>cn_bSequential = bSequential, cn_aChildrenArray = [], cn_nFinishedChildren = 0, cn_bDurationIndefinite = False,
      cn_nLeftIterations = Some 1, cn_nRepeatCount = None, cn_eImpressNodeType = None, cn_bIsRewinding = False,
      cn_aCurrentSkipEvent = None, cn_aRewindCurrentEffectEvent = None, cn_aRewindLastEffectEvent = None\<rparr>"

record 'z nodes =
  ns_containers :: "nat \<Rightarrow> container"
  ns_bIsSkipping :: bool
  ns_rest :: 'z

type_synonym ('a, 'e, 'c, 'z) nd_show = "(node_fn, 'a, 'e, 'c, 'z nodes) hd_show"

abbreviation cn_of :: "nat \<Rightarrow> ('a, 'e, 'c, 'z) nd_show \<Rightarrow> container" where
  "cn_of c w \<equiv> ns_containers (hd_rest (hd_of w)) c"

abbreviation set_nodes :: "('z nodes \<Rightarrow> 'z nodes) \<Rightarrow> ('a, 'e, 'c, 'z) nd_show \<Rightarrow> ('a, 'e, 'c, 'z) nd_show" where
  "set_nodes f w \<equiv> set_hd (hd_rest_update f) w"

abbreviation set_cn :: "nat \<Rightarrow> (container \<Rightarrow> container) \<Rightarrow> ('a, 'e, 'c, 'z) nd_show \<Rightarrow> ('a, 'e, 'c, 'z) nd_show" where
  "set_cn c f w \<equiv> set_nodes (ns_containers_update (\<lambda>m. m(c := f (m c)))) w"

abbreviation set_context_skipping :: "bool \<Rightarrow> ('a, 'e, 'c, 'z) nd_show \<Rightarrow> ('a, 'e, 'c, 'z) nd_show" where
  "set_context_skipping b w \<equiv> set_nodes (ns_bIsSkipping_update (\<lambda>_. b)) w"

definition isMainSequenceRootNode :: "container \<Rightarrow> bool" where
  "isMainSequenceRootNode n \<longleftrightarrow> cn_eImpressNodeType n = Some INT_MainSequence"

definition isInteractiveSequenceRootNode :: "container \<Rightarrow> bool" where
  "isInteractiveSequenceRootNode n \<longleftrightarrow> cn_eImpressNodeType n = Some INT_InteractiveSequence"

text \<open>
  The methods of the nodes. \<open>ch_scheduleDeactivationEvent True\<close> schedules an event without delay, \<open>False\<close> one
  after the duration, if it is known.
\<close>

record 'w child_calls =
  ch_getState :: "nat \<Rightarrow> 'w \<Rightarrow> node_state"
  ch_init :: "nat \<Rightarrow> 'w \<Rightarrow> (bool \<times> 'w) outcome"
  ch_resolve :: "nat \<Rightarrow> 'w \<Rightarrow> (bool \<times> 'w) outcome"
  ch_deactivate :: "nat \<Rightarrow> 'w \<Rightarrow> 'w outcome"
  ch_end :: "nat \<Rightarrow> 'w \<Rightarrow> 'w outcome"
  ch_removeEffect :: "nat \<Rightarrow> 'w \<Rightarrow> 'w outcome"
  ch_saveStateOfAnimatedElement :: "nat \<Rightarrow> 'w \<Rightarrow> 'w outcome"
  ch_dispose :: "nat \<Rightarrow> 'w \<Rightarrow> 'w outcome"
  ch_hasPendingAnimation :: "nat \<Rightarrow> 'w \<Rightarrow> bool"
  ch_registerDeactivatingListener :: "nat \<Rightarrow> nat \<Rightarrow> 'w \<Rightarrow> (bool \<times> 'w) outcome"
  ch_checkValidNode :: "nat \<Rightarrow> 'w \<Rightarrow> bool"
  ch_getFillMode :: "nat \<Rightarrow> 'w \<Rightarrow> fill_mode"
  ch_scheduleDeactivationEvent :: "bool \<Rightarrow> nat \<Rightarrow> 'w \<Rightarrow> 'w outcome"
  ch_getEventBaseElementId :: "nat \<Rightarrow> 'w \<Rightarrow> string"

type_synonym ('a, 'e, 'c, 'z) nd_calls = "('a, 'e, 'c, 'z) nd_show child_calls"
type_synonym ('a, 'e, 'c, 'z) nd_op = "('a, 'e, 'c, 'z) nd_show \<Rightarrow> ('a, 'e, 'c, 'z) nd_show outcome"
type_synonym ('a, 'e, 'c, 'z) nd_test = "('a, 'e, 'c, 'z) nd_show \<Rightarrow> (bool \<times> ('a, 'e, 'c, 'z) nd_show) outcome"
type_synonym ('a, 'e, 'c, 'z) nd_acts = "(node_fn, 'a, 'e, 'c, 'z nodes) hd_acts"
type_synonym ('a, 'e, 'c, 'z) nd_run = "(node_fn, 'a, 'e, 'c, 'z nodes) hd_run"

subsection \<open>Children\<close>

definition appendChildNode :: "('a, 'e, 'c, 'z) nd_calls \<Rightarrow> nat \<Rightarrow> nat \<Rightarrow> ('a, 'e, 'c, 'z) nd_op" where
  "appendChildNode ch c child w =
     (if \<not> ch_checkValidNode ch c w then returns w
      else andThen (ch_registerDeactivatingListener ch child c w) (\<lambda>r.
        returns (if fst r then set_cn c (cn_aChildrenArray_update (\<lambda>cs. cs @ [child])) (snd r) else snd r)))"

definition removeAllChildrenNodes :: "nat \<Rightarrow> ('a, 'e, 'c, 'z) nd_show \<Rightarrow> ('a, 'e, 'c, 'z) nd_show" where
  "removeAllChildrenNodes c w = set_cn c (cn_aChildrenArray_update (\<lambda>_. [])) w"

text \<open>How many children an operation succeeds for; their number is read before.\<close>

fun count_children ::
    "nat \<Rightarrow> (nat \<Rightarrow> ('a, 'e, 'c, 'z) nd_test) \<Rightarrow> nat \<Rightarrow> nat \<Rightarrow> nat \<Rightarrow> ('a, 'e, 'c, 'z) nd_show \<Rightarrow> (nat \<times> ('a, 'e, 'c, 'z) nd_show) outcome" where
  "count_children c f i 0 n w = returns (n, w)"
| "count_children c f i (Suc k) n w =
     (case js_nth (cn_aChildrenArray (cn_of c w)) (int i) of
        None \<Rightarrow> throws TypeError
      | Some child \<Rightarrow> andThen (f child w) (\<lambda>r. count_children c f (Suc i) k (if fst r then Suc n else n) (snd r)))"

definition init_children :: "('a, 'e, 'c, 'z) nd_calls \<Rightarrow> nat \<Rightarrow> ('a, 'e, 'c, 'z) nd_test" where
  "init_children ch c w =
     (let w0 = set_cn c (cn_nFinishedChildren_update (\<lambda>_. 0)) w; nChildrenCount = length (cn_aChildrenArray (cn_of c w0))
      in andThen (count_children c (ch_init ch) 0 nChildrenCount 0 w0) (\<lambda>r. returns (nChildrenCount = fst r, snd r)))"

definition container_init_st :: "('a, 'e, 'c, 'z) nd_calls \<Rightarrow> nat \<Rightarrow> ('a, 'e, 'c, 'z) nd_test" where
  "container_init_st ch c w = init_children ch c (set_cn c (\<lambda>n. n\<lparr>cn_nLeftIterations := cn_nRepeatCount n\<rparr>) w)"

text \<open>The loop over the children, for those whose state is in the mask; the array is read as the loop goes.\<close>

partial_function (option) forEachChildNode ::
    "('a, 'e, 'c, 'z) nd_calls \<Rightarrow> (nat \<Rightarrow> ('a, 'e, 'c, 'z) nd_op) \<Rightarrow> state_mask \<Rightarrow> nat \<Rightarrow> nat \<Rightarrow> ('a, 'e, 'c, 'z) nd_op" where
  [code]: "forEachChildNode ch f eNodeStateMask c i w =
     (if i < length (cn_aChildrenArray (cn_of c w))
      then let child = cn_aChildrenArray (cn_of c w) ! i
           in if flag (ch_getState ch child w) \<inter> eNodeStateMask = {} then forEachChildNode ch f eNodeStateMask c (Suc i) w
              else Option.bind (f child w) (\<lambda>r. case r of Inl e \<Rightarrow> Some (Inl e) | Inr w1 \<Rightarrow> forEachChildNode ch f eNodeStateMask c (Suc i) w1)
      else Some (Inr w))"

text \<open>From the last child to the first; one that is neither frozen nor ended is passed over.\<close>

fun remove_down :: "('a, 'e, 'c, 'z) nd_calls \<Rightarrow> nat \<Rightarrow> nat \<Rightarrow> ('a, 'e, 'c, 'z) nd_op" where
  "remove_down ch c 0 w = returns w"
| "remove_down ch c (Suc i) w =
     (case js_nth (cn_aChildrenArray (cn_of c w)) (int i) of
        None \<Rightarrow> throws TypeError
      | Some child \<Rightarrow>
          if flag (ch_getState ch child w) \<inter> {Frozen, Ended} = {} then remove_down ch c i w
          else andThen (ch_removeEffect ch child w) (remove_down ch c i))"

definition container_removeEffect :: "('a, 'e, 'c, 'z) nd_calls \<Rightarrow> nat \<Rightarrow> ('a, 'e, 'c, 'z) nd_op" where
  "container_removeEffect ch c w = remove_down ch c (length (cn_aChildrenArray (cn_of c w))) w"

definition container_deactivate_st :: "('a, 'e, 'c, 'z) nd_calls \<Rightarrow> nat \<Rightarrow> node_state \<Rightarrow> ('a, 'e, 'c, 'z) nd_op" where
  "container_deactivate_st ch c eDestState w =
     (let w0 = set_cn c (cn_nLeftIterations_update (\<lambda>_. Some 0)) w
      in if eDestState = Frozen then forEachChildNode ch (ch_deactivate ch) (- {Frozen, Ended}) c 0 w0
         else andThen (forEachChildNode ch (ch_end ch) (- {Ended}) c 0 w0) (\<lambda>w1.
                if ch_getFillMode ch c w1 = Fill_Remove then container_removeEffect ch c w1 else returns w1))"

definition container_hasPendingAnimation :: "('a, 'e, 'c, 'z) nd_calls \<Rightarrow> nat \<Rightarrow> ('a, 'e, 'c, 'z) nd_show \<Rightarrow> bool" where
  "container_hasPendingAnimation ch c w \<longleftrightarrow> (\<exists>child \<in> set (cn_aChildrenArray (cn_of c w)). ch_hasPendingAnimation ch child w)"

definition container_saveState :: "('a, 'e, 'c, 'z) nd_calls \<Rightarrow> nat \<Rightarrow> ('a, 'e, 'c, 'z) nd_op" where
  "container_saveState ch c w =
     for_live (\<lambda>w. cn_aChildrenArray (cn_of c w)) (ch_saveStateOfAnimatedElement ch) 0 (length (cn_aChildrenArray (cn_of c w))) w"

definition isChildNode :: "nat \<Rightarrow> container \<Rightarrow> bool" where
  "isChildNode child n \<longleftrightarrow> child \<in> set (cn_aChildrenArray n)"

subsection \<open>The end of a child\<close>

definition ge_one :: "num option \<Rightarrow> bool" where
  "ge_one n \<longleftrightarrow> (case n of None \<Rightarrow> False | Some v \<Rightarrow> v \<ge> 1)"

text \<open>The last child has finished: the children are played again, or the container is deactivated.\<close>

definition children_finished :: "('a, 'e, 'c, 'z) nd_calls \<Rightarrow> nat \<Rightarrow> ('a, 'e, 'c, 'z) nd_test" where
  "children_finished ch c w =
     (let w1 = (if ge_one (cn_nLeftIterations (cn_of c w)) then set_cn c (cn_nLeftIterations_update (map_option (\<lambda>v. v - 1))) w else w)
      in if ge_one (cn_nLeftIterations (cn_of c w1))
         then (let (i, w2) = new_event (Fn_other (NF_repeat c)) w1 in andThen (addEvent (Some i) w2) (\<lambda>r. returns (False, snd r)))
         else andThen (ch_deactivate ch c w1) (\<lambda>w2. returns (True, w2)))"

definition notifyDeactivatedChild :: "('a, 'e, 'c, 'z) nd_calls \<Rightarrow> nat \<Rightarrow> nat \<Rightarrow> ('a, 'e, 'c, 'z) nd_test" where
  "notifyDeactivatedChild ch c child w =
     js_assert (ch_getState ch child w = Frozen \<or> ch_getState ch child w = Ended)
       ''BaseContainerNode.notifyDeactivatedChild: passed child node is neither in FROZEN nor in ENDED state''
     (js_assert (ch_getState ch c w \<noteq> Invalid) ''BaseContainerNode.notifyDeactivatedChild: this node is invalid''
     (if \<not> isChildNode child (cn_of c w) then returns (False, w)
      else js_assert (cn_nFinishedChildren (cn_of c w) < int (length (cn_aChildrenArray (cn_of c w))))
             ''BaseContainerNode.notifyDeactivatedChild: assert(this.nFinishedChildren < nChildrenCount) failed''
        (let w1 = set_cn c (cn_nFinishedChildren_update (\<lambda>n. n + 1)) w;
             bFinished = (cn_nFinishedChildren (cn_of c w1) \<ge> int (length (cn_aChildrenArray (cn_of c w))))
         in if bFinished \<and> cn_bDurationIndefinite (cn_of c w1) then children_finished ch c w1 else returns (bFinished, w1))))"

subsection \<open>Resolving a child\<close>

text \<open>The event at an address is disposed.\<close>

definition dispose_at :: "nat option \<Rightarrow> ('f, 'a, 'x) show_state \<Rightarrow> ('f, 'a, 'x) show_state" where
  "dispose_at e w =
     (case e of None \<Rightarrow> w | Some i \<Rightarrow> w\<lparr>sh_events := (sh_events w)(i := map_option dispose_event (sh_events w i))\<rparr>)"

text \<open>One of the three events of a sequence: the old one is disposed and a new one kept in its place.\<close>

definition renew_event ::
    "(container \<Rightarrow> nat option) \<Rightarrow> (nat option \<Rightarrow> container \<Rightarrow> container) \<Rightarrow> node_fn \<Rightarrow> nat \<Rightarrow>
     ('a, 'e, 'c, 'z) nd_show \<Rightarrow> nat \<times> ('a, 'e, 'c, 'z) nd_show" where
  "renew_event get put f c w =
     (let (i, w1) = new_event (Fn_other f) (dispose_at (get (cn_of c w)) w) in (i, set_cn c (put (Some i)) w1))"

definition register_sequence_events :: "nat \<Rightarrow> nat \<Rightarrow> nat \<Rightarrow> nat \<Rightarrow> nat \<Rightarrow> ('a, 'e, 'c, 'z) nd_op" where
  "register_sequence_events c child s r l w =
     (if isMainSequenceRootNode (cn_of c w)
      then returns (registerRewindLastEffectEvent (Some l) (registerRewindCurrentEffectEvent (Some r) (registerSkipEffectEvent (Some s) w)))
      else if isInteractiveSequenceRootNode (cn_of c w)
      then andThen (registerSkipInteractiveEffectEvent (int child) s w) (\<lambda>w1.
           andThen (registerRewindRunningInteractiveEffectEvent (int child) r w1) (registerRewindEndedInteractiveEffectEvent (int child) l))
      else returns w)"

definition resolveChild :: "('a, 'e, 'c, 'z) nd_calls \<Rightarrow> nat \<Rightarrow> nat \<Rightarrow> ('a, 'e, 'c, 'z) nd_test" where
  "resolveChild ch c child w =
     andThen (ch_resolve ch child w) (\<lambda>r.
       let w0 = snd r
       in if fst r \<and> (isMainSequenceRootNode (cn_of c w0) \<or> isInteractiveSequenceRootNode (cn_of c w0))
          then let (s, w1) = renew_event cn_aCurrentSkipEvent (\<lambda>e. cn_aCurrentSkipEvent_update (\<lambda>_. e)) (NF_skipEffect c child) c w0;
                   (r, w2) = renew_event cn_aRewindCurrentEffectEvent (\<lambda>e. cn_aRewindCurrentEffectEvent_update (\<lambda>_. e)) (NF_rewindCurrentEffect c child) c w1;
                   (l, w3) = renew_event cn_aRewindLastEffectEvent (\<lambda>e. cn_aRewindLastEffectEvent_update (\<lambda>_. e)) (NF_rewindLastEffect c child) c w2
               in andThen (register_sequence_events c child s r l w3) (\<lambda>w4. returns (True, w4))
          else returns (fst r, w0))"

subsection \<open>Activating a container\<close>

definition parallel_activate_st :: "('a, 'e, 'c, 'z) nd_calls \<Rightarrow> nat \<Rightarrow> ('a, 'e, 'c, 'z) nd_op" where
  "parallel_activate_st ch c w =
     (let nChildrenCount = length (cn_aChildrenArray (cn_of c w))
      in andThen (count_children c (ch_resolve ch) 0 nChildrenCount 0 w) (\<lambda>r.
           if nChildrenCount \<noteq> fst r then returns (snd r)
           else ch_scheduleDeactivationEvent ch (cn_bDurationIndefinite (cn_of c (snd r)) \<and> nChildrenCount = 0) c (snd r)))"

partial_function (option) resolve_next ::
    "('a, 'e, 'c, 'z) nd_calls \<Rightarrow> nat \<Rightarrow> nat \<Rightarrow> ('a, 'e, 'c, 'z) nd_op" where
  [code]: "resolve_next ch c nChildrenCount w =
     (if cn_nFinishedChildren (cn_of c w) < int nChildrenCount
      then (case js_nth (cn_aChildrenArray (cn_of c w)) (cn_nFinishedChildren (cn_of c w)) of
              None \<Rightarrow> Some (Inl TypeError)
            | Some child \<Rightarrow>
                Option.bind (resolveChild ch c child w) (\<lambda>r. case r of
                  Inl e \<Rightarrow> Some (Inl e)
                | Inr v \<Rightarrow> if fst v then Some (Inr (snd v))
                           else resolve_next ch c nChildrenCount (set_cn c (cn_nFinishedChildren_update (\<lambda>n. n + 1)) (snd v))))
      else Some (Inr w))"

definition sequential_activate_st :: "('a, 'e, 'c, 'z) nd_calls \<Rightarrow> nat \<Rightarrow> ('a, 'e, 'c, 'z) nd_op" where
  "sequential_activate_st ch c w =
     (let nChildrenCount = length (cn_aChildrenArray (cn_of c w))
      in andThen (resolve_next ch c nChildrenCount w) (\<lambda>w1.
           ch_scheduleDeactivationEvent ch (cn_bDurationIndefinite (cn_of c w1) \<and>
             (nChildrenCount = 0 \<or> cn_nFinishedChildren (cn_of c w1) \<ge> int nChildrenCount)) c w1))"

definition container_activate_st :: "('a, 'e, 'c, 'z) nd_calls \<Rightarrow> nat \<Rightarrow> ('a, 'e, 'c, 'z) nd_op" where
  "container_activate_st ch c w = (if cn_bSequential (cn_of c w) then sequential_activate_st ch c w else parallel_activate_st ch c w)"

definition container_repeat :: "('a, 'e, 'c, 'z) nd_calls \<Rightarrow> nat \<Rightarrow> ('a, 'e, 'c, 'z) nd_test" where
  "container_repeat ch c w =
     andThen (forEachChildNode ch (ch_end ch) (- {Ended}) c 0 w) (\<lambda>w1.
     andThen (container_removeEffect ch c w1) (\<lambda>w2.
     andThen (init_children ch c w2) (\<lambda>r.
       if fst r then andThen (container_activate_st ch c (snd r)) (\<lambda>w3. returns (True, w3)) else returns (False, snd r))))"

definition parallel_notifyDeactivating :: "('a, 'e, 'c, 'z) nd_calls \<Rightarrow> nat \<Rightarrow> nat \<Rightarrow> ('a, 'e, 'c, 'z) nd_op" where
  "parallel_notifyDeactivating ch c child w = andThen (notifyDeactivatedChild ch c child w) (\<lambda>r. returns (snd r))"

definition sequential_notifyDeactivating :: "('a, 'e, 'c, 'z) nd_calls \<Rightarrow> nat \<Rightarrow> nat \<Rightarrow> ('a, 'e, 'c, 'z) nd_op" where
  "sequential_notifyDeactivating ch c aNotifier w =
     (if cn_bIsRewinding (cn_of c w) then returns w
      else andThen (notifyDeactivatedChild ch c aNotifier w) (\<lambda>r.
        let w1 = snd r
        in if fst r then returns w1
           else js_assert (cn_nFinishedChildren (cn_of c w1) < int (length (cn_aChildrenArray (cn_of c w1))))
                  ''SequentialTimeContainer.notifyDeactivating: assertion (this.nFinishedChildren < this.aChildrenArray.length) failed''
             (case js_nth (cn_aChildrenArray (cn_of c w1)) (cn_nFinishedChildren (cn_of c w1)) of
                None \<Rightarrow> throws TypeError
              | Some aNextChild \<Rightarrow>
                  js_assert (ch_getState ch aNextChild w1 = Unresolved)
                    ''SequentialTimeContainer.notifyDeactivating: assertion (aNextChild.getState == UNRESOLVED_NODE) failed''
                  (andThen (resolveChild ch c aNextChild w1) (\<lambda>r2.
                     if fst r2 then returns (snd r2) else ch_deactivate ch c (snd r2))))))"

definition notifyDeactivating :: "('a, 'e, 'c, 'z) nd_calls \<Rightarrow> nat \<Rightarrow> nat \<Rightarrow> ('a, 'e, 'c, 'z) nd_op" where
  "notifyDeactivating ch c child w =
     (if cn_bSequential (cn_of c w) then sequential_notifyDeactivating ch c child w else parallel_notifyDeactivating ch c child w)"

subsection \<open>Skipping and rewinding the effects of a sequence\<close>

definition seq_skipEffect :: "('a, 'e, 'c, 'z) nd_acts \<Rightarrow> ('a, 'e, 'c, 'z) nd_run \<Rightarrow> nat \<Rightarrow> nat \<Rightarrow> ('a, 'e, 'c, 'z) nd_op" where
  "seq_skipEffect am run c child w =
     (if \<not> isChildNode child (cn_of c w) then returns w
      else andThen (endAll am w) (\<lambda>w1.
           andThen (forceEmpty run (set_context_skipping True w1)) (\<lambda>w2.
             let (i, w3) = new_event (Fn_other (NF_deactivate child)) (set_context_skipping False w2)
             in andThen (addEvent (Some i) w3) (\<lambda>r. returns (snd r)))))"

definition notifyRewindedEvent :: "('a, 'e, 'c, 'z) nd_calls \<Rightarrow> ('a, 'e, 'c, 'z) nd_run \<Rightarrow> nat \<Rightarrow> nat \<Rightarrow> ('a, 'e, 'c, 'z) nd_op" where
  "notifyRewindedEvent ch run c child w =
     (if \<not> isInteractiveSequenceRootNode (cn_of c w) then returns w
      else andThen (notifyRewindedEffectEvent run (Number_Id (int child)) w) (\<lambda>w1.
             let sId = ch_getEventBaseElementId ch child w1
             in if sId \<noteq> [] then notifyRewindedEffectEvent run (String_Id sId) w1 else returns w1))"

abbreviation set_seq_rewinding :: "nat \<Rightarrow> bool \<Rightarrow> ('a, 'e, 'c, 'z) nd_show \<Rightarrow> ('a, 'e, 'c, 'z) nd_show" where
  "set_seq_rewinding c b w \<equiv> set_cn c (cn_bIsRewinding_update (\<lambda>_. b)) w"

definition seq_rewindCurrentEffect ::
    "('a, 'e, 'c, 'z) nd_calls \<Rightarrow> ('a, 'e, 'c, 'z) nd_acts \<Rightarrow> ('a, 'e, 'c, 'z) nd_run \<Rightarrow> nat \<Rightarrow> nat \<Rightarrow> ('a, 'e, 'c, 'z) nd_op" where
  "seq_rewindCurrentEffect ch am run c child w =
     (if \<not> isChildNode child (cn_of c w) then returns w
      else js_assert (\<not> cn_bIsRewinding (cn_of c w)) ''SequentialTimeContainer.rewindCurrentEffect: is already rewinding.''
        (andThen (endAll am (set_seq_rewinding c True w)) (\<lambda>w1.
         andThen (forceEmpty run (set_context_skipping True w1)) (\<lambda>w2.
         andThen (endAll am (set_context_skipping False w2)) (\<lambda>w3.
         andThen (ch_end ch child w3) (\<lambda>w4.
         andThen (ch_removeEffect ch child w4) (\<lambda>w5.
         andThen (ch_init ch child w5) (\<lambda>r.
         andThen (resolveChild ch c child (snd r)) (\<lambda>r2.
         andThen (notifyRewindedEvent ch run c child (snd r2)) (\<lambda>w6. returns (set_seq_rewinding c False w6)))))))))))"

definition seq_rewindLastEffect ::
    "('a, 'e, 'c, 'z) nd_calls \<Rightarrow> ('a, 'e, 'c, 'z) nd_acts \<Rightarrow> ('a, 'e, 'c, 'z) nd_run \<Rightarrow> nat \<Rightarrow> nat \<Rightarrow> ('a, 'e, 'c, 'z) nd_op" where
  "seq_rewindLastEffect ch am run c child w =
     (if \<not> isChildNode child (cn_of c w) then returns w
      else js_assert (\<not> cn_bIsRewinding (cn_of c w)) ''SequentialTimeContainer.rewindLastEffect: is already rewinding.''
        (andThen (forceEmpty run (set_seq_rewinding c True w)) (\<lambda>w1.
         andThen (clear_activities am w1) (\<lambda>w2.
         andThen (ch_end ch child w2) (\<lambda>w3.
         let w4 = set_cn c (cn_nFinishedChildren_update (\<lambda>n. n - 1)) w3
         in case js_nth (cn_aChildrenArray (cn_of c w4)) (cn_nFinishedChildren (cn_of c w4)) of
              None \<Rightarrow> throws TypeError
            | Some aPreviousChildNode \<Rightarrow>
                andThen (ch_removeEffect ch aPreviousChildNode w4) (\<lambda>w5.
                andThen (ch_init ch aPreviousChildNode w5) (\<lambda>r.
                andThen (ch_init ch child (snd r)) (\<lambda>r2.
                andThen (resolveChild ch c aPreviousChildNode (snd r2)) (\<lambda>r3.
                andThen (notifyRewindedEvent ch run c child (snd r3)) (\<lambda>w6. returns (set_seq_rewinding c False w6)))))))))))"

definition container_dispose :: "('a, 'e, 'c, 'z) nd_calls \<Rightarrow> nat \<Rightarrow> ('a, 'e, 'c, 'z) nd_op" where
  "container_dispose ch c w =
     (let w0 = (if cn_bSequential (cn_of c w) then dispose_at (cn_aCurrentSkipEvent (cn_of c w)) w else w)
      in andThen (for_live (\<lambda>w. cn_aChildrenArray (cn_of c w)) (ch_dispose ch) 0 (length (cn_aChildrenArray (cn_of c w0))) w0) (ch_dispose ch c))"

text \<open>What calling a function of a container does.\<close>

definition call_node_fn ::
    "('a, 'e, 'c, 'z) nd_calls \<Rightarrow> ('a, 'e, 'c, 'z) nd_acts \<Rightarrow> ('a, 'e, 'c, 'z) nd_run \<Rightarrow> (nat \<Rightarrow> ('a, 'e, 'c, 'z) nd_op) \<Rightarrow> node_fn \<Rightarrow> ('a, 'e, 'c, 'z) nd_op" where
  "call_node_fn ch am run other f w =
     (case f of
        NF_repeat c \<Rightarrow> andThen (container_repeat ch c w) (\<lambda>r. returns (snd r))
      | NF_skipEffect c child \<Rightarrow> seq_skipEffect am run c child w
      | NF_rewindCurrentEffect c child \<Rightarrow> seq_rewindCurrentEffect ch am run c child w
      | NF_rewindLastEffect c child \<Rightarrow> seq_rewindLastEffect ch am run c child w
      | NF_deactivate child \<Rightarrow> ch_deactivate ch child w
      | NF_other i \<Rightarrow> other i w)"

end
