(* ===== verification/Container_Properties.thy ===== *)
theory Container_Properties
  imports Container_Node Handler_Frames
begin

section \<open>Properties of container nodes\<close>

text \<open>
  The root of the main sequence plays the effects of a slide one after the other. The events for skipping and
  rewinding that it registers at the multiplexer always belong to the child that is current, also after
  the last effect was rewound.
\<close>

subsection \<open>What children keep\<close>

text \<open>A container does not change, and the numbers of events only grow.\<close>

definition leaves :: "nat \<Rightarrow> 'z nodes handler \<Rightarrow> 'z nodes handler \<Rightarrow> bool" where
  "leaves c h h' \<longleftrightarrow> ns_containers (hd_rest h') c = ns_containers (hd_rest h) c \<and> hd_nEventId h \<le> hd_nEventId h'"

definition rewind_leaves :: "nat \<Rightarrow> 'z nodes handler \<Rightarrow> 'z nodes handler \<Rightarrow> bool" where
  "rewind_leaves c h h' \<longleftrightarrow> (cn_bIsRewinding (ns_containers (hd_rest h) c) \<longrightarrow> leaves c h h')"

interpretation lv: handler_relation "leaves c" for c
  by unfold_locales (auto simp: leaves_def)

interpretation rl: handler_relation "rewind_leaves c" for c
  by unfold_locales (auto simp: rewind_leaves_def leaves_def)

text \<open>
  Resolving and initializing a child does not notify the container; while the container is rewinding it
  takes no notice of children that end, and of the callbacks.
\<close>

definition good_children :: "('a, 'e, 'c, 'z) nd_calls \<Rightarrow> nat \<Rightarrow> bool" where
  "good_children ch c \<longleftrightarrow>
     (\<forall>child w b w'. ch_resolve ch child w = Some (Inr (b, w')) \<longrightarrow> leaves c (hd_of w) (hd_of w')) \<and>
     (\<forall>child w b w'. ch_init ch child w = Some (Inr (b, w')) \<longrightarrow> leaves c (hd_of w) (hd_of w')) \<and>
     (\<forall>child w w'. ch_end ch child w = Some (Inr w') \<longrightarrow> rewind_leaves c (hd_of w) (hd_of w')) \<and>
     (\<forall>child w w'. ch_removeEffect ch child w = Some (Inr w') \<longrightarrow> leaves c (hd_of w) (hd_of w'))"

lemma good_childrenD:
  assumes "good_children ch c"
  shows "ch_resolve ch child w = Some (Inr (b, w')) \<Longrightarrow> leaves c (hd_of w) (hd_of w')"
    and "ch_init ch child w = Some (Inr (b, w')) \<Longrightarrow> leaves c (hd_of w) (hd_of w')"
    and "ch_end ch child w = Some (Inr w') \<Longrightarrow> rewind_leaves c (hd_of w) (hd_of w')"
    and "ch_removeEffect ch child w = Some (Inr w') \<Longrightarrow> leaves c (hd_of w) (hd_of w')"
  using assms unfolding good_children_def by blast+

subsection \<open>The events of the current child\<close>

text \<open>The events of a container have numbers that were given.\<close>

definition events_given :: "nat \<Rightarrow> ('a, 'e, 'c, 'z) nd_show \<Rightarrow> bool" where
  "events_given c w \<longleftrightarrow>
     (\<forall>e \<in> {cn_aCurrentSkipEvent (cn_of c w), cn_aRewindCurrentEffectEvent (cn_of c w), cn_aRewindLastEffectEvent (cn_of c w)}.
        \<forall>i. e = Some i \<longrightarrow> i \<le> hd_nEventId (hd_of w))"

lemma events_given_leaves: "events_given c w \<Longrightarrow> leaves c (hd_of w) (hd_of w') \<Longrightarrow> events_given c w'"
  by (fastforce simp: events_given_def leaves_def)

text \<open>The event calls the function, and has not been fired.\<close>

definition calls_fn :: "nat option \<Rightarrow> node_fn \<Rightarrow> ('a, 'e, 'c, 'z) nd_show \<Rightarrow> bool" where
  "calls_fn e f w \<longleftrightarrow> (\<exists>i. e = Some i \<and> sh_events w i = Some (makeEvent (Fn_other f)))"

definition serves :: "nat \<Rightarrow> nat \<Rightarrow> ('a, 'e, 'c, 'z) nd_show \<Rightarrow> bool" where
  "serves c child w \<longleftrightarrow>
     calls_fn (mx_aSkipEffectEvent (sh_rest w)) (NF_skipEffect c child) w \<and>
     calls_fn (mx_aRewindCurrentEffectEvent (sh_rest w)) (NF_rewindCurrentEffect c child) w \<and>
     calls_fn (mx_aRewindLastEffectEvent (sh_rest w)) (NF_rewindLastEffect c child) w"

text \<open>Resolving a child keeps everything of a container but its three events.\<close>

definition same_place :: "container \<Rightarrow> container \<Rightarrow> bool" where
  "same_place n n' \<longleftrightarrow> (\<exists>s r l. n' = n\<lparr>cn_aCurrentSkipEvent := s, cn_aRewindCurrentEffectEvent := r, cn_aRewindLastEffectEvent := l\<rparr>)"

lemma same_placeD:
  assumes "same_place n n'"
  shows "cn_bSequential n' = cn_bSequential n" "cn_aChildrenArray n' = cn_aChildrenArray n"
    "cn_nFinishedChildren n' = cn_nFinishedChildren n" "cn_bIsRewinding n' = cn_bIsRewinding n"
    "cn_eImpressNodeType n' = cn_eImpressNodeType n"
  using assms unfolding same_place_def by auto

lemma renew_event_facts:
  assumes "renew_event get put f c w = (i, w')"
  shows "i = Suc (hd_nEventId (hd_of w))" and "hd_nEventId (hd_of w') = i" and "sh_events w' i = Some (makeEvent (Fn_other f))"
    and "cn_of c w' = put (Some i) (cn_of c w)" and "j \<noteq> i \<Longrightarrow> get (cn_of c w) \<noteq> Some j \<Longrightarrow> sh_events w' j = sh_events w j"
  using assms by (auto simp: renew_event_def new_event_def dispose_at_def Let_def split: option.splits)

lemma resolveChild_parts:
  assumes "resolveChild ch c child w = Some (Inr (True, w'))" and "good_children ch c" and "isMainSequenceRootNode (cn_of c w)"
  obtains v s w1 r w2 l w3 where "leaves c (hd_of w) (hd_of v)"
    "renew_event cn_aCurrentSkipEvent (\<lambda>e. cn_aCurrentSkipEvent_update (\<lambda>_. e)) (NF_skipEffect c child) c v = (s, w1)"
    "renew_event cn_aRewindCurrentEffectEvent (\<lambda>e. cn_aRewindCurrentEffectEvent_update (\<lambda>_. e)) (NF_rewindCurrentEffect c child) c w1 = (r, w2)"
    "renew_event cn_aRewindLastEffectEvent (\<lambda>e. cn_aRewindLastEffectEvent_update (\<lambda>_. e)) (NF_rewindLastEffect c child) c w2 = (l, w3)"
    "w' = registerRewindLastEffectEvent (Some l) (registerRewindCurrentEffectEvent (Some r) (registerSkipEffectEvent (Some s) w3))"
proof -
  obtain v where v: "ch_resolve ch child w = Some (Inr (True, v))"
    using assms(1) by (auto simp: resolveChild_def andThen_returns Let_def split: if_split_asm prod.split_asm)
  obtain s w1 where 1: "renew_event cn_aCurrentSkipEvent (\<lambda>e. cn_aCurrentSkipEvent_update (\<lambda>_. e)) (NF_skipEffect c child) c v = (s, w1)"
    by fastforce
  obtain r w2 where 2: "renew_event cn_aRewindCurrentEffectEvent (\<lambda>e. cn_aRewindCurrentEffectEvent_update (\<lambda>_. e)) (NF_rewindCurrentEffect c child) c w1 = (r, w2)"
    by fastforce
  obtain l w3 where 3: "renew_event cn_aRewindLastEffectEvent (\<lambda>e. cn_aRewindLastEffectEvent_update (\<lambda>_. e)) (NF_rewindLastEffect c child) c w2 = (l, w3)"
    by fastforce
  have lv: "leaves c (hd_of w) (hd_of v)" by (rule good_childrenD(1) [OF assms(2) v])
  then have root: "isMainSequenceRootNode (cn_of c v)" using assms(3) by (simp add: leaves_def)
  moreover have "cn_eImpressNodeType (cn_of c w3) = cn_eImpressNodeType (cn_of c v)"
    using renew_event_facts(4) [OF 1] renew_event_facts(4) [OF 2] renew_event_facts(4) [OF 3] by simp
  ultimately have "isMainSequenceRootNode (cn_of c w3)" by (simp add: isMainSequenceRootNode_def)
  then have "w' = registerRewindLastEffectEvent (Some l) (registerRewindCurrentEffectEvent (Some r) (registerSkipEffectEvent (Some s) w3))"
    using assms(1) v root by (simp add: resolveChild_def 1 2 3 register_sequence_events_def)
  with that [OF lv 1 2 3] show ?thesis .
qed

lemma resolveChild_returns:
  assumes "ch_resolve ch child w = Some (Inr (True, v))" and "isMainSequenceRootNode (cn_of c v)"
  shows "\<exists>w'. resolveChild ch c child w = Some (Inr (True, w')) \<and> isMainSequenceRootNode (cn_of c w')"
proof -
  obtain s w1 where 1: "renew_event cn_aCurrentSkipEvent (\<lambda>e. cn_aCurrentSkipEvent_update (\<lambda>_. e)) (NF_skipEffect c child) c v = (s, w1)"
    by fastforce
  obtain r w2 where 2: "renew_event cn_aRewindCurrentEffectEvent (\<lambda>e. cn_aRewindCurrentEffectEvent_update (\<lambda>_. e)) (NF_rewindCurrentEffect c child) c w1 = (r, w2)"
    by fastforce
  obtain l w3 where 3: "renew_event cn_aRewindLastEffectEvent (\<lambda>e. cn_aRewindLastEffectEvent_update (\<lambda>_. e)) (NF_rewindLastEffect c child) c w2 = (l, w3)"
    by fastforce
  have "isMainSequenceRootNode (cn_of c w3)"
    using assms(2) renew_event_facts(4) [OF 1] renew_event_facts(4) [OF 2] renew_event_facts(4) [OF 3] by (simp add: isMainSequenceRootNode_def)
  then show ?thesis
    using assms by (simp add: resolveChild_def 1 2 3 register_sequence_events_def registerRewindLastEffectEvent_def
        registerRewindCurrentEffectEvent_def registerSkipEffectEvent_def)
qed

lemma resolveChild_serves:
  assumes "good_children ch c" and "events_given c w" and "isMainSequenceRootNode (cn_of c w)"
    and "resolveChild ch c child w = Some (Inr (True, w'))"
  shows "serves c child w'" and "same_place (cn_of c w) (cn_of c w')" and "events_given c w'"
proof -
  obtain v s w1 r w2 l w3 where lv: "leaves c (hd_of w) (hd_of v)"
    and 1: "renew_event cn_aCurrentSkipEvent (\<lambda>e. cn_aCurrentSkipEvent_update (\<lambda>_. e)) (NF_skipEffect c child) c v = (s, w1)"
    and 2: "renew_event cn_aRewindCurrentEffectEvent (\<lambda>e. cn_aRewindCurrentEffectEvent_update (\<lambda>_. e)) (NF_rewindCurrentEffect c child) c w1 = (r, w2)"
    and 3: "renew_event cn_aRewindLastEffectEvent (\<lambda>e. cn_aRewindLastEffectEvent_update (\<lambda>_. e)) (NF_rewindLastEffect c child) c w2 = (l, w3)"
    and w': "w' = registerRewindLastEffectEvent (Some l) (registerRewindCurrentEffectEvent (Some r) (registerSkipEffectEvent (Some s) w3))"
    by (rule resolveChild_parts [OF assms(4,1,3)])
  note f1 = renew_event_facts [OF 1] and f2 = renew_event_facts [OF 2] and f3 = renew_event_facts [OF 3]
  have given: "events_given c v" by (rule events_given_leaves [OF assms(2) lv])
  have ids: "r = Suc s" "l = Suc r" using f1(2) f2(1,2) f3(1) by simp_all
  have old: "cn_aRewindCurrentEffectEvent (cn_of c v) \<noteq> Some s" "cn_aRewindLastEffectEvent (cn_of c v) \<notin> {Some s, Some r}"
    using given f1(1) ids by (auto simp: events_given_def)
  have ev: "sh_events w3 s = Some (makeEvent (Fn_other (NF_skipEffect c child)))" "sh_events w3 r = Some (makeEvent (Fn_other (NF_rewindCurrentEffect c child)))"
    "sh_events w3 l = Some (makeEvent (Fn_other (NF_rewindLastEffect c child)))"
    using f1(3,4) f2(3,4) f3(3) f2(5) [of s] f3(5) [of s] f3(5) [of r] old ids by simp_all
  show "serves c child w'"
    using ev by (simp add: serves_def calls_fn_def w' registerRewindLastEffectEvent_def registerRewindCurrentEffectEvent_def registerSkipEffectEvent_def)
  have cn: "cn_of c w' = (cn_of c w)\<lparr>cn_aCurrentSkipEvent := Some s, cn_aRewindCurrentEffectEvent := Some r, cn_aRewindLastEffectEvent := Some l\<rparr>"
    using f1(4) f2(4) f3(4) lv
    by (simp add: w' leaves_def registerRewindLastEffectEvent_def registerRewindCurrentEffectEvent_def registerSkipEffectEvent_def)
  then show "same_place (cn_of c w) (cn_of c w')" by (auto simp: same_place_def)
  show "events_given c w'"
    using cn ids f3(2)
    by (simp add: events_given_def w' registerRewindLastEffectEvent_def registerRewindCurrentEffectEvent_def registerSkipEffectEvent_def)
qed

subsection \<open>The sequence of the effects\<close>

text \<open>The root of the main sequence, whose child \<open>i\<close> is current.\<close>

definition at_child :: "nat \<Rightarrow> nat \<Rightarrow> ('a, 'e, 'c, 'z) nd_show \<Rightarrow> bool" where
  "at_child c i w \<longleftrightarrow> cn_bSequential (cn_of c w) \<and> isMainSequenceRootNode (cn_of c w) \<and> \<not> cn_bIsRewinding (cn_of c w) \<and>
     cn_nFinishedChildren (cn_of c w) = int i \<and> i < length (cn_aChildrenArray (cn_of c w)) \<and> events_given c w"

definition all_resolve :: "('a, 'e, 'c, 'z) nd_calls \<Rightarrow> bool" where
  "all_resolve ch \<longleftrightarrow> (\<forall>child w b w'. ch_resolve ch child w = Some (Inr (b, w')) \<longrightarrow> b)"

lemma resolveChild_True: "all_resolve ch \<Longrightarrow> resolveChild ch c child w = Some (Inr (b, w')) \<Longrightarrow> b"
  by (auto simp: all_resolve_def resolveChild_def andThen_returns Let_def split: if_split_asm prod.split_asm)

lemma next_child:
  assumes "good_children ch c" and "all_resolve ch" and "at_child c i w" and "Suc i < length (cn_aChildrenArray (cn_of c w))"
    and "notifyDeactivating ch c (cn_aChildrenArray (cn_of c w) ! i) w = Some (Inr w')"
  shows "at_child c (Suc i) w' \<and> cn_aChildrenArray (cn_of c w') = cn_aChildrenArray (cn_of c w) \<and>
    serves c (cn_aChildrenArray (cn_of c w) ! Suc i) w'"
proof -
  let ?cs = "cn_aChildrenArray (cn_of c w)"
  define w1 where "w1 = set_cn c (cn_nFinishedChildren_update (\<lambda>n. n + 1)) w"
  have cn1: "cn_of c w1 = (cn_of c w)\<lparr>cn_nFinishedChildren := int (Suc i)\<rparr>" using assms(3) by (simp add: w1_def at_child_def)
  have w1: "isMainSequenceRootNode (cn_of c w1)" "events_given c w1"
    using assms(3) by (auto simp: cn1 at_child_def isMainSequenceRootNode_def events_given_def w1_def)
  have seq: "sequential_notifyDeactivating ch c (?cs ! i) w = Some (Inr w')" using assms(3,5) by (simp add: notifyDeactivating_def at_child_def)
  have fin: "notifyDeactivatedChild ch c (?cs ! i) w = Some (Inr (b, v)) \<Longrightarrow> b = False \<and> v = w1" for b v
    using assms(3,4) by (auto simp: notifyDeactivatedChild_def js_assert_def isChildNode_def at_child_def w1_def Let_def split: if_split_asm)
  have "\<not> cn_bIsRewinding (cn_of c w)" using assms(3) by (simp add: at_child_def)
  with seq obtain r where "notifyDeactivatedChild ch c (?cs ! i) w = Some (Inr r)"
    unfolding sequential_notifyDeactivating_def by (auto simp: andThen_returns)
  with fin have nd: "notifyDeactivatedChild ch c (?cs ! i) w = Some (Inr (False, w1))" by (cases r) auto
  have nth: "js_nth (cn_aChildrenArray (cn_of c w1)) (cn_nFinishedChildren (cn_of c w1)) = Some (?cs ! Suc i)"
    using assms(4) unfolding cn1 by (simp add: js_nth_def del: of_nat_Suc)
  from seq \<open>\<not> cn_bIsRewinding (cn_of c w)\<close> obtain r2 where r2: "resolveChild ch c (?cs ! Suc i) w1 = Some (Inr r2)"
      "(if fst r2 then returns (snd r2) else ch_deactivate ch c (snd r2)) = Some (Inr w')"
    by (auto simp: sequential_notifyDeactivating_def andThen_returns nd nth js_assert_def Let_def split: if_split_asm)
  have "resolveChild ch c (?cs ! Suc i) w1 = Some (Inr (True, w'))"
  proof -
    obtain b v where v: "r2 = (b, v)" by fastforce
    then have b using r2(1) resolveChild_True [OF assms(2)] by simp
    with r2 v show ?thesis by simp
  qed
  note res = resolveChild_serves [OF assms(1) w1(2,1) this]
  show ?thesis
    using res(1,3) same_placeD [OF res(2)] assms(3,4) by (simp add: at_child_def cn1 isMainSequenceRootNode_def)
qed

text \<open>What rewinding the last effect does before the child before is resolved again.\<close>

lemma rewound_place:
  fixes w :: "('a, 'e, 'c, 'z) nd_show"
  assumes "good_children ch c" and "callbacks_keep (rewind_leaves c) run am" and "cn_bIsRewinding (cn_of c w)"
    and "forceEmpty run w = Some (Inr w1)" and "clear_activities am w1 = Some (Inr w2)" and "ch_end ch child w2 = Some (Inr w3)"
  shows "leaves c (hd_of w) (hd_of w3)"
proof -
  have "rewind_leaves c (hd_of w) (hd_of w1)" by (rule rl.process_queue_rel [OF assms(2) assms(4) [unfolded forceEmpty_def]])
  from rl.trans [OF rl.trans [OF this] ] have "rewind_leaves c (hd_of w1) (hd_of w2) \<Longrightarrow> rewind_leaves c (hd_of w2) (hd_of w3) \<Longrightarrow> rewind_leaves c (hd_of w) (hd_of w3)" .
  moreover have "rewind_leaves c (hd_of w1) (hd_of w2)"
    by (rule rl.drop_activities_rel [OF callbacks_keepD(4) [OF assms(2)] assms(5) [unfolded clear_activities_def]])
  moreover have "rewind_leaves c (hd_of w2) (hd_of w3)" by (rule good_childrenD(3) [OF assms(1,6)])
  ultimately have "rewind_leaves c (hd_of w) (hd_of w3)" by blast
  then show ?thesis using assms(3) by (simp add: rewind_leaves_def)
qed

lemma previous_child:
  fixes w :: "('a, 'e, 'c, 'z) nd_show"
  assumes "good_children ch c" and "all_resolve ch" and "callbacks_keep (rewind_leaves c) run am" and "at_child c (Suc i) w"
    and "child \<in> set (cn_aChildrenArray (cn_of c w))" and "seq_rewindLastEffect ch am run c child w = Some (Inr w')"
  shows "at_child c i w' \<and> cn_aChildrenArray (cn_of c w') = cn_aChildrenArray (cn_of c w) \<and>
    serves c (cn_aChildrenArray (cn_of c w) ! i) w'"
proof -
  let ?w = "set_seq_rewinding c True w" and ?cs = "cn_aChildrenArray (cn_of c w)"
  have at: "\<not> cn_bIsRewinding (cn_of c w)" "isChildNode child (cn_of c w)" using assms(4,5) by (simp_all add: at_child_def isChildNode_def)
  obtain w1 w2 w3 where w3: "forceEmpty run ?w = Some (Inr w1)" "clear_activities am w1 = Some (Inr w2)" "ch_end ch child w2 = Some (Inr w3)"
    and rest: "(let w4 = set_cn c (cn_nFinishedChildren_update (\<lambda>n. n - 1)) w3
         in case js_nth (cn_aChildrenArray (cn_of c w4)) (cn_nFinishedChildren (cn_of c w4)) of
              None \<Rightarrow> throws TypeError
            | Some aPreviousChildNode \<Rightarrow>
                andThen (ch_removeEffect ch aPreviousChildNode w4) (\<lambda>w5.
                andThen (ch_init ch aPreviousChildNode w5) (\<lambda>r.
                andThen (ch_init ch child (snd r)) (\<lambda>r2.
                andThen (resolveChild ch c aPreviousChildNode (snd r2)) (\<lambda>r3.
                andThen (notifyRewindedEvent ch run c child (snd r3)) (\<lambda>w6. returns (set_seq_rewinding c False w6))))))) = Some (Inr w')"
    using assms(6) at unfolding seq_rewindLastEffect_def by (auto simp: andThen_returns js_assert_def)
  define w4 where "w4 = set_cn c (cn_nFinishedChildren_update (\<lambda>n. n - 1)) w3"
  have "leaves c (hd_of ?w) (hd_of w3)" by (rule rewound_place [OF assms(1,3) _ w3]) simp
  then have cn4: "cn_of c w4 = (cn_of c w)\<lparr>cn_bIsRewinding := True, cn_nFinishedChildren := int i\<rparr>" "events_given c w4"
    using assms(4) by (auto simp: w4_def leaves_def at_child_def events_given_def)
  have nth: "js_nth (cn_aChildrenArray (cn_of c w4)) (cn_nFinishedChildren (cn_of c w4)) = Some (?cs ! i)"
    using assms(4) unfolding cn4(1) by (simp add: js_nth_def at_child_def)
  obtain w5 b1 v1 b2 v2 b3 w6 w7 where w5: "ch_removeEffect ch (?cs ! i) w4 = Some (Inr w5)" "ch_init ch (?cs ! i) w5 = Some (Inr (b1, v1))"
      "ch_init ch child v1 = Some (Inr (b2, v2))" and r3: "resolveChild ch c (?cs ! i) v2 = Some (Inr (b3, w6))"
    and w': "notifyRewindedEvent ch run c child w6 = Some (Inr w7)" "w' = set_seq_rewinding c False w7"
    using rest unfolding w4_def [symmetric] Let_def nth by (auto simp: andThen_returns)
  have "leaves c (hd_of w4) (hd_of v2)"
    using lv.trans [OF lv.trans [OF good_childrenD(4) [OF assms(1) w5(1)] good_childrenD(2) [OF assms(1) w5(2)]] good_childrenD(2) [OF assms(1) w5(3)]] .
  then have cn: "cn_of c v2 = cn_of c w4" "events_given c v2" using cn4(2) by (auto simp: leaves_def intro: events_given_leaves)
  have "isMainSequenceRootNode (cn_of c v2)" using assms(4) by (simp add: cn cn4 at_child_def isMainSequenceRootNode_def)
  moreover have "resolveChild ch c (?cs ! i) v2 = Some (Inr (True, w6))" using r3 resolveChild_True [OF assms(2) r3] by simp
  ultimately have res: "serves c (?cs ! i) w6" "same_place (cn_of c v2) (cn_of c w6)" "events_given c w6"
    using resolveChild_serves [OF assms(1) cn(2)] by blast+
  have "w7 = w6"
    using w'(1) same_placeD [OF res(2)] assms(4)
    by (auto simp: notifyRewindedEvent_def cn cn4 isInteractiveSequenceRootNode_def at_child_def isMainSequenceRootNode_def)
  then show ?thesis
    using res(1,3) same_placeD [OF res(2)] assms(4)
    by (simp add: w'(2) at_child_def cn cn4 isMainSequenceRootNode_def events_given_def serves_def calls_fn_def)
qed

lemma current_child_again:
  fixes w :: "('a, 'e, 'c, 'z) nd_show"
  assumes "good_children ch c" and "all_resolve ch" and "callbacks_keep (rewind_leaves c) run am" and "at_child c i w"
    and "child = cn_aChildrenArray (cn_of c w) ! i" and "seq_rewindCurrentEffect ch am run c child w = Some (Inr w')"
  shows "at_child c i w' \<and> cn_aChildrenArray (cn_of c w') = cn_aChildrenArray (cn_of c w) \<and> serves c child w'"
proof -
  let ?w = "set_seq_rewinding c True w"
  have at: "\<not> cn_bIsRewinding (cn_of c w)" "isChildNode child (cn_of c w)" using assms(4,5) by (simp_all add: at_child_def isChildNode_def)
  obtain w1 w2 w3 w4 w5 b v b2 w6 w7 where w1: "endAll am ?w = Some (Inr w1)" and w2: "forceEmpty run (set_context_skipping True w1) = Some (Inr w2)"
    and w3: "endAll am (set_context_skipping False w2) = Some (Inr w3)" and w4: "ch_end ch child w3 = Some (Inr w4)"
    and w5: "ch_removeEffect ch child w4 = Some (Inr w5)" and v: "ch_init ch child w5 = Some (Inr (b, v))"
    and w6: "resolveChild ch c child v = Some (Inr (b2, w6))" and w7: "notifyRewindedEvent ch run c child w6 = Some (Inr w7)"
    and w': "w' = set_seq_rewinding c False w7"
    using assms(6) at unfolding seq_rewindCurrentEffect_def by (auto simp: andThen_returns js_assert_def)
  have skip: "rewind_leaves c h (hd_rest_update (ns_bIsSkipping_update f) h)" for f h by (simp add: rewind_leaves_def leaves_def)
  have "rewind_leaves c (hd_of ?w) (hd_of w1)"
    by (rule rl.drop_activities_rel [OF callbacks_keepD(5) [OF assms(3)] w1 [unfolded endAll_def]])
  moreover have "rewind_leaves c (hd_of w1) (hd_of w2)"
    using rl.trans [OF skip rl.process_queue_rel [OF assms(3) w2 [unfolded forceEmpty_def], simplified]] .
  moreover have "rewind_leaves c (hd_of w2) (hd_of w3)"
    using rl.trans [OF skip rl.drop_activities_rel [OF callbacks_keepD(5) [OF assms(3)] w3 [unfolded endAll_def], simplified]] .
  ultimately have "rewind_leaves c (hd_of ?w) (hd_of w4)"
    using good_childrenD(3) [OF assms(1) w4] by (blast intro: rl.trans)
  then have "leaves c (hd_of ?w) (hd_of w4)" by (simp add: rewind_leaves_def)
  then have "leaves c (hd_of ?w) (hd_of v)"
    using lv.trans [OF lv.trans [OF _ good_childrenD(4) [OF assms(1) w5]] good_childrenD(2) [OF assms(1) v]] by blast
  then have cn: "cn_of c v = (cn_of c w)\<lparr>cn_bIsRewinding := True\<rparr>" "events_given c v"
    using assms(4) by (auto simp: leaves_def at_child_def events_given_def)
  have "isMainSequenceRootNode (cn_of c v)" using assms(4) by (simp add: cn at_child_def isMainSequenceRootNode_def)
  moreover have "resolveChild ch c child v = Some (Inr (True, w6))" using w6 resolveChild_True [OF assms(2) w6] by simp
  ultimately have res: "serves c child w6" "same_place (cn_of c v) (cn_of c w6)" "events_given c w6"
    using resolveChild_serves [OF assms(1) cn(2)] by blast+
  have "w7 = w6"
    using w7 same_placeD [OF res(2)] assms(4)
    by (auto simp: notifyRewindedEvent_def cn isInteractiveSequenceRootNode_def at_child_def isMainSequenceRootNode_def)
  then show ?thesis
    using res(1,3) same_placeD [OF res(2)] assms(4)
    by (simp add: w' at_child_def cn isMainSequenceRootNode_def events_given_def serves_def calls_fn_def)
qed

text \<open>
  What happens to the sequence: the current child reports its end and is not the last; the last effect, or
  the current one, is rewound. In between everything may happen that leaves the container alone.
\<close>

inductive seq_step ::
    "('a, 'e, 'c, 'z) nd_calls \<Rightarrow> ('a, 'e, 'c, 'z) nd_acts \<Rightarrow> ('a, 'e, 'c, 'z) nd_run \<Rightarrow> nat \<Rightarrow>
     ('a, 'e, 'c, 'z) nd_show \<Rightarrow> ('a, 'e, 'c, 'z) nd_show \<Rightarrow> bool"
  for ch am run c where
  finished: "at_child c i w \<Longrightarrow> Suc i < length (cn_aChildrenArray (cn_of c w)) \<Longrightarrow>
    notifyDeactivating ch c (cn_aChildrenArray (cn_of c w) ! i) w = returns w' \<Longrightarrow> seq_step ch am run c w w'"
| last_rewound: "at_child c (Suc i) w \<Longrightarrow>
    seq_rewindLastEffect ch am run c (cn_aChildrenArray (cn_of c w) ! Suc i) w = returns w' \<Longrightarrow> seq_step ch am run c w w'"
| current_rewound: "at_child c i w \<Longrightarrow>
    seq_rewindCurrentEffect ch am run c (cn_aChildrenArray (cn_of c w) ! i) w = returns w' \<Longrightarrow> seq_step ch am run c w w'"

lemma seq_step_serves:
  assumes "good_children ch c" and "all_resolve ch" and "callbacks_keep (rewind_leaves c) run am" and "seq_step ch am run c w w'"
  shows "\<exists>i. at_child c i w' \<and> cn_aChildrenArray (cn_of c w') = cn_aChildrenArray (cn_of c w) \<and>
    serves c (cn_aChildrenArray (cn_of c w) ! i) w'"
  using assms(4)
proof cases
  case (finished i)
  then show ?thesis using next_child [OF assms(1,2), of i w w'] by auto
next
  case (last_rewound i)
  then show ?thesis
    using previous_child [OF assms(1-3), of i w "cn_aChildrenArray (cn_of c w) ! Suc i" w'] by (auto simp: at_child_def)
next
  case (current_rewound i)
  then show ?thesis using current_child_again [OF assms(1-3), of i w _ w'] by auto
qed

lemma at_child_leaves: "at_child c i w \<Longrightarrow> leaves c (hd_of w) (hd_of w') \<Longrightarrow> at_child c i w'"
  using events_given_leaves [of c w w'] by (simp add: at_child_def leaves_def)

subsection \<open>Properties\<close>

text \<open>
  C17. Whatever effects of the main sequence end, are rewound, or are rewound while they play, the events for
  skipping and for rewinding that are registered at the multiplexer afterwards are new and belong to the child
  that is current then, and the children stay the same.
\<close>

theorem current_effect_served:
  assumes "good_children ch c" and "all_resolve ch" and "callbacks_keep (rewind_leaves c) run am" and "at_child c k w0"
    and "(\<lambda>v v'. seq_step ch am run c v v' \<or> leaves c (hd_of v) (hd_of v'))\<^sup>*\<^sup>* w0 w" and "seq_step ch am run c w w'"
  shows "\<exists>i. at_child c i w' \<and> cn_aChildrenArray (cn_of c w') = cn_aChildrenArray (cn_of c w0) \<and>
    serves c (cn_aChildrenArray (cn_of c w0) ! i) w'"
proof -
  have "(\<exists>i. at_child c i w) \<and> cn_aChildrenArray (cn_of c w) = cn_aChildrenArray (cn_of c w0)"
    using assms(5)
  proof (induction rule: rtranclp_induct)
    case (step v v')
    from step.hyps(2) show ?case
    proof
      assume "seq_step ch am run c v v'"
      from seq_step_serves [OF assms(1-3) this] step.IH show ?thesis by auto
    next
      assume "leaves c (hd_of v) (hd_of v')"
      then show ?thesis using step.IH at_child_leaves [of c _ v v'] by (auto simp: leaves_def)
    qed
  qed (use assms(4) in blast)
  then show ?thesis using seq_step_serves [OF assms(1-3,6)] by simp
qed

text \<open>
  C29. Rewinding the last effect undoes the end of an effect: after the child \<open>i\<close> of the main sequence has
  reported its end, rewinding the last effect makes it the current child again, with its events registered.
\<close>

theorem rewind_last_undoes_end:
  assumes "good_children ch c" and "all_resolve ch" and "callbacks_keep (rewind_leaves c) run am" and "at_child c i w"
    and "Suc i < length (cn_aChildrenArray (cn_of c w))"
    and "notifyDeactivating ch c (cn_aChildrenArray (cn_of c w) ! i) w = returns w1" and "leaves c (hd_of w1) (hd_of w2)"
    and "seq_rewindLastEffect ch am run c (cn_aChildrenArray (cn_of c w) ! Suc i) w2 = returns w'"
  shows "cn_nFinishedChildren (cn_of c w') = cn_nFinishedChildren (cn_of c w) \<and>
    cn_aChildrenArray (cn_of c w') = cn_aChildrenArray (cn_of c w) \<and> \<not> cn_bIsRewinding (cn_of c w') \<and>
    serves c (cn_aChildrenArray (cn_of c w) ! i) w'"
proof -
  have w1: "at_child c (Suc i) w1 \<and> cn_aChildrenArray (cn_of c w1) = cn_aChildrenArray (cn_of c w)"
    using next_child [OF assms(1,2,4,5)] assms(6) by simp
  then have w2: "at_child c (Suc i) w2" "cn_aChildrenArray (cn_of c w2) = cn_aChildrenArray (cn_of c w)"
    using assms(7) at_child_leaves by (auto simp: leaves_def)
  then show ?thesis
    using previous_child [OF assms(1-3) w2(1), of "cn_aChildrenArray (cn_of c w) ! Suc i" w'] assms(4,5,8) by (auto simp: at_child_def)
qed

text \<open>What adding a delayed event changes.\<close>

lemma addEvent_queued:
  assumes "addEvent (Some i) w = Some (Inr (e, w'))" and "sh_events w i = Some (DelayEvent f d b)"
  shows "\<exists>t. sh_queue w' = pq_push EventEntry_compare \<lparr>ee_aEvent = i, ee_nActivationTime = t\<rparr> (sh_queue w) \<and>
    sh_events w' = sh_events w \<and> sh_rest w' = sh_rest w"
  using assms by (auto simp: addEvent_def getActivationTime_def andThen_returns dest!: read_timer_rest)

text \<open>
  C35. A sequence that is to be repeated fails: when the last child of a sequential container of indefinite
  duration reports its end and at least two iterations were left, an event that calls \<open>repeat\<close> of the container is
  created and added to the event queue, with one iteration less to go, but then the assertion that a child is left
  throws.
\<close>

theorem repeated_sequence_throws:
  assumes "cn_bSequential (cn_of c w)" and "\<not> cn_bIsRewinding (cn_of c w)" and "cn_bDurationIndefinite (cn_of c w)"
    and "cn_nLeftIterations (cn_of c w) = Some k" and "k \<ge> 2"
    and "cn_nFinishedChildren (cn_of c w) = int (length (cn_aChildrenArray (cn_of c w))) - 1" and "child \<in> set (cn_aChildrenArray (cn_of c w))"
    and "notifyDeactivatedChild ch c child w = returns (b, w1)" and "i = Suc (hd_nEventId (hd_of w))"
  shows "\<not> b \<and> cn_nLeftIterations (cn_of c w1) = Some (k - 1) \<and>
    sh_events w1 = (sh_events w)(i \<mapsto> makeEvent (Fn_other (NF_repeat c))) \<and>
    (\<exists>t. sh_queue w1 = pq_push EventEntry_compare \<lparr>ee_aEvent = i, ee_nActivationTime = t\<rparr> (sh_queue w)) \<and>
    notifyDeactivating ch c child w = throws
      (ErrorMsg ''SequentialTimeContainer.notifyDeactivating: assertion (this.nFinishedChildren < this.aChildrenArray.length) failed'')"
proof -
  let ?w = "set_cn c (cn_nFinishedChildren_update (\<lambda>n. n + 1)) w"
  have "children_finished ch c ?w = Some (Inr (b, w1))"
    using assms(3,6,7,8) by (auto simp: notifyDeactivatedChild_def js_assert_def isChildNode_def Let_def split: if_split_asm)
  then obtain w2 e where w2: "addEvent (Some i) w2 = Some (Inr (e, w1))" "\<not> b"
      "sh_events w2 = (sh_events w)(i \<mapsto> makeEvent (Fn_other (NF_repeat c)))" "sh_queue w2 = sh_queue w"
      "cn_of c w2 = (cn_of c w)\<lparr>cn_nFinishedChildren := cn_nFinishedChildren (cn_of c w) + 1, cn_nLeftIterations := Some (k - 1)\<rparr>"
    using assms(4,5,9) by (auto simp: children_finished_def ge_one_def new_event_def Let_def andThen_returns)
  moreover obtain t where q: "sh_queue w1 = pq_push EventEntry_compare \<lparr>ee_aEvent = i, ee_nActivationTime = t\<rparr> (sh_queue w2)"
      "sh_events w1 = sh_events w2" "sh_rest w1 = sh_rest w2"
    using addEvent_queued [OF w2(1)] w2(3) by (auto simp: makeEvent_def)
  ultimately have "cn_of c w1 = (cn_of c w)\<lparr>cn_nFinishedChildren := int (length (cn_aChildrenArray (cn_of c w))), cn_nLeftIterations := Some (k - 1)\<rparr>"
    using assms(6) by auto
  moreover have "\<exists>t. sh_queue w1 = pq_push EventEntry_compare \<lparr>ee_aEvent = i, ee_nActivationTime = t\<rparr> (sh_queue w)"
    using q(1) w2(4) by auto
  ultimately show ?thesis
    using assms(1,2,8) w2(2,3) q(2) by (simp add: notifyDeactivating_def sequential_notifyDeactivating_def js_assert_def)
qed

text \<open>A container that is to be repeated indefinitely is played once: its repeat count is \<open>NaN\<close>.\<close>

lemma indefinite_repeat_plays_once:
  assumes "cn_nLeftIterations (cn_of c w) = None"
  shows "children_finished ch c w = andThen (ch_deactivate ch c w) (\<lambda>w1. returns (True, w1))"
  using assms by (simp add: children_finished_def ge_one_def Let_def)

subsection \<open>A sample sequence\<close>

text \<open>The container 0 has the children 3 and 4; the first has ended, the second is not resolved.\<close>

type_synonym sequence_state = "(nat, unit, unit, unit) nd_show"

definition sample_children :: "sequence_state child_calls" where
  "sample_children = \<lparr>ch_getState = (\<lambda>i w. if i = 0 then Active else if i = 3 then Ended else Unresolved),
     ch_init = (\<lambda>i w. returns (True, w)), ch_resolve = (\<lambda>i w. returns (True, w)), ch_deactivate = (\<lambda>i w. returns w),
     ch_end = (\<lambda>i w. returns w), ch_removeEffect = (\<lambda>i w. returns w), ch_saveStateOfAnimatedElement = (\<lambda>i w. returns w),
     ch_dispose = (\<lambda>i w. returns w), ch_hasPendingAnimation = (\<lambda>i w. False), ch_registerDeactivatingListener = (\<lambda>i l w. returns (True, w)),
     ch_checkValidNode = (\<lambda>i w. True), ch_getFillMode = (\<lambda>i w. Fill_Freeze), ch_scheduleDeactivationEvent = (\<lambda>b i w. returns w),
     ch_getEventBaseElementId = (\<lambda>i w. [])\<rparr>"

definition sequence_acts :: "(nat, sequence_state) activity_methods" where
  "sequence_acts = \<lparr>am_calcTimeLag = (\<lambda>a w. returns (0, w)), am_perform = (\<lambda>a w. returns (False, w)),
     am_dequeued = (\<lambda>a w. returns w), am_end = (\<lambda>a w. returns w)\<rparr>"

definition sequence_run :: "(nat, unit, unit, unit) nd_run" where
  "sequence_run f w = returns w"

definition sample_sequence :: "container \<Rightarrow> sequence_state" where
  "sample_sequence n = \<lparr>sh_clock = 5000, sh_timers = [0 \<mapsto> blank_timer None, 1 \<mapsto> blank_timer None], sh_aTimer = 0,
     sh_events = Map.empty, sh_queue = [], sh_waiting = [], sh_reinsert = [], sh_dequeued = [],
     sh_rest = fst (new_EventMultiplexer 0 (new_handler \<lparr>mp_docWidth = 100, mp_docHeight = 100, mp_numberOfSlides = 1, mp_firstSlideHash = None,
       mp_lastSlideHash = None, mp_metaSlides = Some Map.empty, mp_partHashes = Some Map.empty\<rparr> 1 9
       \<lparr>ns_containers = (\<lambda>_. n), ns_bIsSkipping = False, ns_rest = ()\<rparr>))\<rparr>"

definition sample_root_sequence :: container where
  "sample_root_sequence = (new_container True)\<lparr>cn_aChildrenArray := [3, 4], cn_eImpressNodeType := Some INT_MainSequence, cn_bDurationIndefinite := True\<rparr>"

definition sample_second :: sequence_state where
  "sample_second = (case notifyDeactivating sample_children 0 3 (sample_sequence sample_root_sequence) of
     Some (Inr w) \<Rightarrow> w | _ \<Rightarrow> sample_sequence sample_root_sequence)"

definition sample_first_again :: sequence_state where
  "sample_first_again = (case seq_rewindLastEffect sample_children sequence_acts sequence_run 0 4 sample_second of
     Some (Inr w) \<Rightarrow> w | _ \<Rightarrow> sample_second)"

lemma sample_second_eval:
  "notifyDeactivating sample_children 0 3 (sample_sequence sample_root_sequence) = Some (Inr sample_second)"
  "sh_queue sample_second = []" "sh_waiting sample_second = []" "sh_reinsert sample_second = []"
  "getElapsedTime (sh_timers sample_second) (sh_clock sample_second) (sh_aTimer sample_second) \<noteq> None"
proof -
  have "case notifyDeactivating sample_children 0 3 (sample_sequence sample_root_sequence) of
      Some (Inr w) \<Rightarrow> sh_queue w = [] \<and> sh_waiting w = [] \<and> sh_reinsert w = [] \<and>
        getElapsedTime (sh_timers w) (sh_clock w) (sh_aTimer w) \<noteq> None
    | _ \<Rightarrow> False" by code_simp
  then show "notifyDeactivating sample_children 0 3 (sample_sequence sample_root_sequence) = Some (Inr sample_second)"
    "sh_queue sample_second = []" "sh_waiting sample_second = []" "sh_reinsert sample_second = []"
    "getElapsedTime (sh_timers sample_second) (sh_clock sample_second) (sh_aTimer sample_second) \<noteq> None"
    by (auto simp: sample_second_def split: option.splits sum.splits)
qed

lemma sample_children_facts:
  "good_children sample_children c" "all_resolve sample_children" "callbacks_keep (rewind_leaves c) sequence_run sequence_acts"
  by (auto simp: good_children_def all_resolve_def callbacks_keep_def sample_children_def sequence_run_def sequence_acts_def)

lemma sample_sequence_facts:
  "cn_of 0 (sample_sequence n) = n" "at_child 0 0 (sample_sequence sample_root_sequence)"
  by (simp_all add: sample_sequence_def sample_root_sequence_def new_container_def at_child_def isMainSequenceRootNode_def
      events_given_def new_EventMultiplexer_def new_handler_def)

lemma sample_child_simps:
  "ch_init sample_children i w = Some (Inr (True, w))" "ch_resolve sample_children i w = Some (Inr (True, w))"
  "ch_end sample_children i w = Some (Inr w)" "ch_removeEffect sample_children i w = Some (Inr w)"
  by (simp_all add: sample_children_def)

lemma sample_rewinds:
  assumes "sh_queue w = []" and "sh_waiting w = []" and "sh_reinsert w = []"
    and "getElapsedTime (sh_timers w) (sh_clock w) (sh_aTimer w) = Some (n, h)"
    and "at_child 0 (Suc 0) w" and "cn_aChildrenArray (cn_of 0 w) = [3, 4]"
  shows "\<exists>w'. seq_rewindLastEffect sample_children sequence_acts sequence_run 0 4 w = Some (Inr w')"
proof -
  have at: "\<not> cn_bIsRewinding (cn_of 0 w)" "cn_nFinishedChildren (cn_of 0 w) = 1" "isMainSequenceRootNode (cn_of 0 w)"
    using assms(5) by (simp_all add: at_child_def)
  have empty: "forceEmpty sequence_run (set_seq_rewinding 0 True w) = Some (Inr ((set_seq_rewinding 0 True w)\<lparr>sh_timers := h\<rparr>))"
    using assms(1,4) by (simp add: forceEmpty_def process_queue_def read_timer_def process_loop.simps pq_top_def andThen_def)
  have clear: "clear_activities sequence_acts v = Some (Inr v)" if "sh_waiting v = []" "sh_reinsert v = []" for v
    using that by (cases v) (simp add: clear_activities_def drop_activities_def)
  define u where "u = set_cn 0 (cn_nFinishedChildren_update (\<lambda>n. n - 1)) ((set_seq_rewinding 0 True w)\<lparr>sh_timers := h\<rparr>)"
  have u: "isMainSequenceRootNode (cn_of 0 u)" "cn_nFinishedChildren (cn_of 0 u) = 0" "cn_aChildrenArray (cn_of 0 u) = [3, 4]"
    using at assms(6) by (simp_all add: u_def isMainSequenceRootNode_def)
  obtain v where v: "resolveChild sample_children 0 3 u = Some (Inr (True, v))" "isMainSequenceRootNode (cn_of 0 v)"
    using resolveChild_returns [OF sample_child_simps(2) u(1)] by blast
  have clear: "clear_activities sequence_acts ((set_seq_rewinding 0 True w)\<lparr>sh_timers := h\<rparr>) = Some (Inr ((set_seq_rewinding 0 True w)\<lparr>sh_timers := h\<rparr>))"
    by (rule clear) (simp_all add: assms(2,3))
  have "notifyRewindedEvent sample_children sequence_run 0 4 v = Some (Inr v)"
    using v(2) by (simp add: notifyRewindedEvent_def isMainSequenceRootNode_def isInteractiveSequenceRootNode_def)
  then show ?thesis
    unfolding seq_rewindLastEffect_def
    using at(1) assms(6) v(1) u(2,3)
    by (simp only: empty clear js_assert_def andThen_simps sample_child_simps Let_def u_def [symmetric]) (simp add: isChildNode_def js_nth_def)
qed

lemma sample_first_again_eval:
  "seq_rewindLastEffect sample_children sequence_acts sequence_run 0 4 sample_second = Some (Inr sample_first_again)"
proof -
  have at: "at_child 0 (Suc 0) sample_second" "cn_aChildrenArray (cn_of 0 sample_second) = [3, 4]"
    using next_child [OF sample_children_facts(1,2) sample_sequence_facts(2), of sample_second] sample_second_eval by (simp_all add: sample_sequence_facts(1) sample_root_sequence_def)
  show ?thesis
    using sample_rewinds [OF sample_second_eval(2-4) _ at] sample_second_eval(5) by (auto simp: sample_first_again_def)
qed

theorem current_effect_served_witness:
  "\<exists>i. at_child 0 i sample_second \<and> cn_aChildrenArray (cn_of 0 sample_second) = [3, 4] \<and> serves 0 ([3, 4] ! i) sample_second"
proof -
  have cs: "cn_aChildrenArray (cn_of 0 (sample_sequence sample_root_sequence)) = [3, 4]"
    unfolding sample_sequence_facts(1) by (simp add: sample_root_sequence_def)
  have "seq_step sample_children sequence_acts sequence_run 0 (sample_sequence sample_root_sequence) sample_second"
    by (rule finished [OF sample_sequence_facts(2)]) (simp_all add: cs sample_second_eval)
  from current_effect_served [OF sample_children_facts sample_sequence_facts(2) _ this] cs show ?thesis by simp
qed

theorem rewind_last_undoes_end_witness:
  "cn_nFinishedChildren (cn_of 0 sample_first_again) = 0 \<and> cn_aChildrenArray (cn_of 0 sample_first_again) = [3, 4] \<and>
    \<not> cn_bIsRewinding (cn_of 0 sample_first_again) \<and> serves 0 3 sample_first_again"
proof -
  have cn: "cn_of 0 (sample_sequence sample_root_sequence) = sample_root_sequence" by (rule sample_sequence_facts(1))
  have cs: "cn_aChildrenArray sample_root_sequence = [3, 4]" "cn_nFinishedChildren sample_root_sequence = 0"
    by (simp_all add: sample_root_sequence_def new_container_def)
  show ?thesis
    using rewind_last_undoes_end [OF sample_children_facts sample_sequence_facts(2), of sample_second sample_second sample_first_again]
      sample_second_eval sample_first_again_eval
    unfolding cn by (simp add: cs)
qed

definition sample_repeated :: container where
  "sample_repeated = (new_container True)\<lparr>cn_aChildrenArray := [3], cn_bDurationIndefinite := True, cn_nLeftIterations := Some 3\<rparr>"

definition sample_report :: "bool \<times> sequence_state" where
  "sample_report = (case notifyDeactivatedChild sample_children 0 3 (sample_sequence sample_repeated) of
     Some (Inr r) \<Rightarrow> r | _ \<Rightarrow> (True, sample_sequence sample_repeated))"

lemma sample_report_eval: "notifyDeactivatedChild sample_children 0 3 (sample_sequence sample_repeated) = Some (Inr sample_report)"
proof -
  have "case notifyDeactivatedChild sample_children 0 3 (sample_sequence sample_repeated) of Some (Inr r) \<Rightarrow> True | _ \<Rightarrow> False" by code_simp
  then show ?thesis by (auto simp: sample_report_def split: option.splits sum.splits)
qed

theorem repeated_sequence_throws_witness:
  "notifyDeactivating sample_children 0 3 (sample_sequence sample_repeated) = throws
    (ErrorMsg ''SequentialTimeContainer.notifyDeactivating: assertion (this.nFinishedChildren < this.aChildrenArray.length) failed'')"
proof -
  have cn: "cn_of 0 (sample_sequence sample_repeated) = sample_repeated" by (rule sample_sequence_facts(1))
  show ?thesis
    using repeated_sequence_throws [where c = 0 and w = "sample_sequence sample_repeated" and child = 3 and ch = sample_children and k = 3
        and b = "fst sample_report" and ?w1.0 = "snd sample_report"] sample_report_eval
    unfolding cn by (simp add: sample_repeated_def new_container_def)
qed

end
