(* ===== verification/Spec2Isabelle.thy ===== *)
theory Spec2Isabelle
  imports Sheet_Properties Pane_Properties Rectangles Outlines Tile_Image Tile_Queues Tile_Messages Layout_Service
    Activity_Properties Slide_Properties Node_Properties Multiplexer_Properties Navigator_Properties Handler_Loops Container_Properties
begin

text \<open>
  \<^bold>\<open>The browser client of Collabora Online: geometry, tiles and the slide show engine\<close>

  The client (\<open>src/browser/src/\<close>, TypeScript) shows a document that a server process renders.
  The server sends tiles, which are run-length encoded images followed by deltas, and, for a
  spreadsheet, the geometry of the rows and columns as text. The client decodes the tiles,
  keeps the geometry in three units (print twips, tile twips, core pixels) to place cells,
  headers, selections and frozen panes, and computes with points and rectangles in these units.
  A presentation is played by an engine of its own: timers, an event queue, an activity queue,
  a tree of animation nodes that call each other through them and through a multiplexer of
  events, and a navigator that decides which slide comes next. This development models these
  parts and proves what makes them correct. The theories follow the parts of the program.

  \<^bold>\<open>Conventions\<close> (\<open>Prelude\<close>, \<open>Js_String\<close>). A JavaScript number is a real, or an \<open>int\<close> or \<open>nat\<close>
  where the code only ever has whole numbers; the rounding of doubles is not modelled. Bytes of
  tiles are \<open>8 word\<close>. \<open>undefined\<close>, \<open>null\<close> and \<open>NaN\<close> are \<open>None\<close>, except where a computation with
  infinities has to be followed (\<open>js_int\<close>). An exception is the left side of a sum. An object
  that is updated in place is a record that is passed on; where objects are shared (timers,
  events) there is a store and references are addresses. Callbacks and methods that subclasses
  override are arguments of the operations, and may change the state. Loops over arrays are
  structural recursion; other loops have a termination proof (\<open>chunk_loop\<close>, \<open>deltas_loop\<close>,
  \<open>lerp_advance\<close>, the binary search, \<open>split_blanks\<close>, \<open>displaySlide\<close>), and those whose end depends on
  callbacks are \<open>partial_function (option)\<close>, with theorems that say when they return. No fuel is used. Debugging
  output is left out everywhere.

  \<^bold>\<open>Spreadsheet geometry\<close> (\<open>layer/tile/SheetGeometry.ts\<close>)
  \<^item> \<open>Binary_Search\<close>: \<open>binarySearch\<close> with a direction provider, as a locale of what the provider
    promises; every lookup of the geometry rests on its interpretations.
  \<^item> \<open>Span_List\<close>: \<open>SpanList\<close> and \<open>BoolSpanList\<close>, runs of equal values. Union and zeroing are the
    pointwise operations on the elements they stand for; encodings are read back.
  \<^item> \<open>Outlines\<close>: \<open>DimensionOutlines\<close>, the levels of groups, and the groups that meet a range.
  \<^item> \<open>Sheet_Dimension\<close> models \<open>SheetDimension\<close>, one axis of a sheet, with its state (\<open>sheet_dim\<close>) and
    operations in the order of the code; \<open>Dimension_Positions\<close> has the abstract view, in which an
    axis is the sequence of the sizes of its elements and a position is a partial sum, and
    \<open>Dimension_Properties\<close> the theorems: after an update every stored position is such a sum, in
    every unit and after a change of zoom; lookups find the element that contains a position; the
    iterations visit the elements and the lines that lie in the range.
  \<^item> \<open>Sheet_Geometry\<close> models \<open>SheetGeometry\<close>, both axes and the messages that update them;
    \<open>Sheet_Properties\<close> the cell rectangles, the last visible index, and that a bad message changes
    nothing.
  \<^item> \<open>Split_Panes\<close> models \<open>layer/SplitPanesContext.ts\<close> and \<open>layer/CalcSplitPanesContext.ts\<close>, the frozen rows
    and columns; the snapping of a document layer is the locale \<open>snap_layer\<close>, interpreted for the plain
    and the spreadsheet layer. \<open>Pane_Properties\<close>: the panes are what the screen shows, the rectangles in
    twips are the panes in pixels, and the split position follows the split cell.

  \<^bold>\<open>Points and rectangles\<close>
  \<^item> \<open>Geometry\<close>: \<open>geometry/Point.ts\<close>, \<open>Bounds.ts\<close> and \<open>Transformation.ts\<close>. Bounds are the least around
    their points, intersection is sharing a point, the distance is the least one.
  \<^item> \<open>Rectangles\<close>: \<open>core/geometry.ts\<close>, \<open>app/Rectangle.ts\<close> and the intersection of \<open>app/LOUtil.ts\<close>,
    with the polygon around a set of rectangles.

  \<^bold>\<open>Tiles\<close> (\<open>layer/tile/CanvasTileUtils.ts\<close>, \<open>app/TilesMiddleware.ts\<close>)
  \<^item> \<open>Tile_Codec\<close>: the decoder inverts a reference encoder of the run-length format, with the bytes
    around the tile unchanged; delta chunks perform the operations they encode in order; any
    bytes at all are processed in finitely many steps and keep the size of the image.
  \<^item> \<open>Tile_Coords\<close>: \<open>TileCoordData\<close>, keys, the positions of requests and replies and the ranges of tiles
    of a pixel area. What the code reads of other objects (the map, the layout, the document layer)
    is the record \<open>tile_app\<close>. A reply is stored under the key that was requested.
  \<^item> \<open>Tile_Store\<close>: \<open>Tile\<close> and the state of \<open>TileManager\<close> (\<open>tile_manager\<close>), bitmaps and garbage collection.
    What the code asks of other objects is appended to \<open>tm_effects\<close>, timers and promises included;
    their callbacks are operations of their own.
  \<^item> \<open>Tile_Decompress\<close>: transactions, rehydration and decompression, on the client or by workers, with
    the exceptions as \<open>Inl\<close>. \<open>Tile_Requests\<close>: tile messages, invalidation and combined requests.
    \<open>Tile_View\<close>: missing tiles, the file based view and view updates. \<open>Tile_Prefetch\<close>: prefetching.
  \<^item> \<open>Tile_Invariant\<close>: the locale \<open>manager_invariant\<close> says what an invariant of the manager has to satisfy
    for its primitive changes, and proves once that every operation keeps it; it is interpreted for
    the deltas of the tiles (\<open>tiles_ok\<close>, without exceptions) and for the list of bitmaps.
    \<open>Tile_Steps\<close>: the step relation of all operations, and what holds in all reachable states.
  \<^item> \<open>Tile_Collect\<close>: the bounds of garbage collection, and that it spares visible tiles.
    \<open>Tile_Content\<close>: rehydration, invalidation, lost keyframes and failed decompression. \<open>Tile_Image\<close>:
    the image a tile shows is the one the server drew, for a decompressor that processes zstd
    frames one after the other. \<open>Tile_Queues\<close>: the queues of requests and of prefetching.
  \<^item> \<open>Server_Command\<close>: the parser of messages, \<open>app/ServerCommand.ts\<close>. \<open>Tile_Messages\<close>: the text that the
    server writes for a tile (\<open>wsd/TileDesc.hpp\<close>) is read back, and the answer to a request is stored
    under the key of the tile that was requested.

  \<^bold>\<open>Layout\<close> (\<open>app/LayoutingService.ts\<close>)
  \<^item> \<open>Layout_Service\<close>: tasks that run in animation frames, with the timeouts and frames of the browser in
    the state and a step relation of all that can happen: work that is left is always waited for,
    and a frame runs its share of the tasks in order.

  \<^bold>\<open>Slide show\<close> (\<open>slideshow/engine/\<close>)
  \<^item> \<open>Elapsed_Time\<close>: \<open>ElapsedTime.ts\<close> on a store of timers; pausing and adjusting.
  \<^item> \<open>Js_Sort\<close>: the stable sort of arrays, with the contract of a comparison as the locale \<open>sort_order\<close>.
    \<open>Priority_Queue\<close>: the queue of \<open>tools.ts\<close>, its contract as a locale over the key of a comparison
    with both comparisons of the engine as instances: popping is a stable sort by the key.
  \<^item> \<open>Slide_Events\<close> models \<open>Event.ts\<close>, \<open>TimerEventQueue.ts\<close>, \<open>ActivityQueue.ts\<close> and
    \<open>NextEffectEventArray.ts\<close> as one state, \<open>Slide_Properties\<close> shows which events are fired, in which
    order, when processing returns, and that no activity is lost.
  \<^item> \<open>Timing_Text\<close>: \<open>Timing.ts\<close>, clock values and the descriptions of begin and end times.
  \<^item> \<open>Event_Multiplexer\<close> models \<open>EventMultiplexer.ts\<close> on top of the event queue, \<open>Multiplexer_Properties\<close>
    shows which events and handlers a notification reaches, in which order and how often.
  \<^item> \<open>Slide_Navigator\<close> models \<open>MetaPresentation.ts\<close> and \<open>SlideShowNavigator.ts\<close>; the calls of the handler of
    the effects, the presenter and the compositor are a record of functions on the whole state.
    \<open>Navigator_Properties\<close>: where a request leads when slides are hidden, that no hidden slide is ever
    shown, for all calls that keep this in turn, and that forward and back are inverse.
  \<^item> \<open>Slide_Handler\<close> and \<open>Slide_Effects\<close> model \<open>SlideShowHandler.ts\<close> with \<open>Effect.ts\<close>, \<open>FrameSynchronization.ts\<close>,
    \<open>InteractiveAnimationSequence.ts\<close> and \<open>SourceEventElement.ts\<close>: the frame loop over the queues, playing,
    skipping and rewinding effects, and the change of slides. Its state is the innermost part of that of
    the multiplexer and the queues; the timeouts of the browser are in it. \<open>Handler_Frames\<close>: what all
    callbacks keep, a frame keeps (locale \<open>handler_relation\<close>); what the primitive steps keep, every
    operation on effects keeps (\<open>show_invariant\<close>), and, in \<open>Handler_Display\<close>, the change of slides
    (\<open>display_invariant\<close>). \<open>Handler_Timeouts\<close> and \<open>Handler_Properties\<close> interpret them: work that is left always
    has a frame pending. \<open>Handler_Books\<close> and \<open>Handler_Loops\<close>: the current effect is the number of started
    effects, and the loops over all effects end, or run forever when a flag was left set.
  \<^item> \<open>Activity_Timing\<close>: acceleration, position and key times (\<open>activities/\<close>). \<open>Activity_Values\<close> models the
    activities themselves, continuous and discrete, with the values they perform. \<open>Activity_Properties\<close>: the frames a
    discrete activity performs, that it stalls when it is reversed, and that skipping a linear
    activity shows what playing it shows, unless it accumulates.
  \<^item> \<open>Animation_Node\<close> models the state machine of \<open>animationnodes/BaseNode.ts\<close>, \<open>Node_Properties\<close>
    shows, for every sequence of operations and all hooks that keep a contract, that nodes only
    move along the transition tables, and which states they can reach.
  \<^item> \<open>Container_Node\<close> models \<open>animationnodes/BaseContainerNode.ts\<close>, the parallel and the sequential container, on
    the state of the handler; the methods of the children are a record of calls. \<open>Container_Properties\<close>: the
    events for skipping and rewinding always belong to the current child of the main sequence, rewinding
    the last effect undoes its end, and a sequence that is to be repeated throws.

  \<^bold>\<open>Not modelled\<close>. Drawing (canvas sections, WebGL transitions), the user interface and its dialogs,
  the connection to the server, the panels of the mobile applications, and the C++ server: input
  and output, or another program. Of the modelled files: the getters in view pixels, which ask
  the active view layout; debugging texts; the \<open>registerEvent\<close> of nodes; the reading of node attributes;
  the transitions and animations that a slide constructs; the textures and parameters of a transition and the
  presenting of a slide, which are calls of the handler; the paint probe of the Android application.

  \<^bold>\<open>Plan\<close>. What is left of the slide show engine are the factories that build nodes and activities
  and the tables of the animated properties.
\<close>

end
